(* ===== verification/Prelude.thy ===== *)
theory Prelude
  imports Complex_Main "HOL-Library.Word"
begin

text \<open>
  Shared vocabulary of the development: the outcome of a Python computation, the float
  primitives the source uses (with their failures written out), Python indexing, the bounded
  \<open>for _ in range(n)\<close> loop with \<open>break\<close> and \<open>return\<close>, clamping, and the rules about them that
  every component theory uses.

  A Python float is a \<^typ>\<open>real\<close>: rounding and overflow are not modelled. Where IEEE arithmetic
  would produce a nan or an infinity and carry on (the logarithm of a non-positive number, a
  root of a negative one), the model stops with the outcome \<open>NonFinite\<close>, so that a theorem
  saying a function returns also says that no such value arises.
\<close>

section \<open>Outcomes\<close>

datatype py_error =
  ValueError | ZeroDivisionError | IndexError | KeyError | TypeError | RuntimeError | NonFinite
  | ComponentInitializationError | AttributeError | RpcAborted | UndefinedBehaviour

type_synonym 'a res = "py_error + 'a"

fun res_bind :: "'a res \<Rightarrow> ('a \<Rightarrow> 'b res) \<Rightarrow> 'b res" where
  "res_bind (Inl e) f = Inl e"
| "res_bind (Inr x) f = f x"

named_theorems outcome \<open>when a primitive or an operation returns\<close>
named_theorems bounds \<open>range facts about operations\<close>

lemma res_bind_cong [fundef_cong]:
  "m = m' \<Longrightarrow> (\<And>x. m' = Inr x \<Longrightarrow> f x = f' x) \<Longrightarrow> res_bind m f = res_bind m' f'"
  by (cases m') auto

lemma res_bind_Inr_iff [simp]:
  "res_bind m f = Inr y \<longleftrightarrow> (\<exists>x. m = Inr x \<and> f x = Inr y)"
  by (cases m) auto

lemma res_bind_Inl_iff:
  "res_bind m f = Inl e \<longleftrightarrow> m = Inl e \<or> (\<exists>x. m = Inr x \<and> f x = Inl e)"
  by (cases m) auto

lemma res_bind_assoc: "res_bind (res_bind m f) g = res_bind m (\<lambda>x. res_bind (f x) g)"
  by (cases m) auto

lemma res_bind_if_right:
  "res_bind (if b then m else m') f = (if b then res_bind m f else res_bind m' f)"
  by simp

definition res_guard :: "bool \<Rightarrow> py_error \<Rightarrow> unit res" where
  "res_guard b e = (if b then Inr () else Inl e)"

lemma res_guard_simps [simp]:
  "res_guard True e = Inr ()" "res_guard False e = Inl e"
  by (simp_all add: res_guard_def)

lemma res_guard_Inr [simp]: "res_guard b e = Inr u \<longleftrightarrow> b"
  by (simp add: res_guard_def)

section \<open>Methods that change their object\<close>

text \<open>
  A method takes its object to an outcome and the object afterwards: an exception keeps the
  changes made before it was raised, as in Python.
\<close>

type_synonym ('s, 'a) meth = "'s \<Rightarrow> 'a res \<times> 's"

definition ret :: "'a \<Rightarrow> ('s, 'a) meth" where
  "ret x s = (Inr x, s)"

definition raise_err :: "py_error \<Rightarrow> ('s, 'a) meth" where
  "raise_err e s = (Inl e, s)"

definition pure_res :: "'a res \<Rightarrow> ('s, 'a) meth" where
  "pure_res r s = (r, s)"

definition reads :: "('s \<Rightarrow> 'a) \<Rightarrow> ('s, 'a) meth" where
  "reads f s = (Inr (f s), s)"

definition updates :: "('s \<Rightarrow> 's) \<Rightarrow> ('s, unit) meth" where
  "updates f s = (Inr (), f s)"

definition seq :: "('s, 'a) meth \<Rightarrow> ('a \<Rightarrow> ('s, 'b) meth) \<Rightarrow> ('s, 'b) meth" where
  "seq m f s = (case m s of (Inl e, s') \<Rightarrow> (Inl e, s') | (Inr x, s') \<Rightarrow> f x s')"

definition try_except :: "('s, 'a) meth \<Rightarrow> (py_error \<Rightarrow> ('s, 'a) meth) \<Rightarrow> ('s, 'a) meth" where
  "try_except m h s = (case m s of (Inl e, s') \<Rightarrow> h e s' | (Inr x, s') \<Rightarrow> (Inr x, s'))"

fun for_each :: "'a list \<Rightarrow> ('a \<Rightarrow> ('s, unit) meth) \<Rightarrow> ('s, unit) meth" where
  "for_each [] body = ret ()"
| "for_each (x # xs) body = seq (body x) (\<lambda>_. for_each xs body)"

lemmas meth_defs = ret_def raise_err_def pure_res_def reads_def updates_def seq_def try_except_def

lemma seq_Inr:
  "seq m f s = (Inr y, s2) \<longleftrightarrow> (\<exists>x s1. m s = (Inr x, s1) \<and> f x s1 = (Inr y, s2))"
  by (auto simp: seq_def split: prod.splits sum.splits)

lemma seq_step: "m s = (Inr x, s1) \<Longrightarrow> seq m f s = f x s1"
  by (simp add: seq_def)

lemma seq_fail: "m s = (Inl e, s1) \<Longrightarrow> seq m f s = (Inl e, s1)"
  by (simp add: seq_def)

lemma seq_assoc: "seq (seq m f) g = seq m (\<lambda>x. seq (f x) g)"
  by (rule ext) (auto simp: seq_def split: prod.splits sum.splits)

text \<open>What a method leaves alone: an observation of the object it does not change, on any path.\<close>

definition preserves :: "('s \<Rightarrow> 'o) \<Rightarrow> ('s, 'a) meth \<Rightarrow> bool" where
  "preserves obs m \<longleftrightarrow> (\<forall>s. obs (snd (m s)) = obs s)"

named_theorems frame \<open>what methods leave alone\<close>

lemma preservesD: "preserves obs m \<Longrightarrow> m s = (r, s') \<Longrightarrow> obs s' = obs s"
  by (metis preserves_def snd_conv)

lemma preserves_basic [frame]:
  "preserves obs (ret x)" "preserves obs (raise_err e)" "preserves obs (pure_res r)" "preserves obs (reads f)"
  by (simp_all add: preserves_def meth_defs)

lemma preserves_updates [frame]: "(\<And>s. obs (f s) = obs s) \<Longrightarrow> preserves obs (updates f)"
  by (simp add: preserves_def meth_defs)

lemma preserves_seq [frame]:
  "preserves obs m \<Longrightarrow> (\<And>x. preserves obs (f x)) \<Longrightarrow> preserves obs (seq m f)"
  unfolding preserves_def seq_def by (auto split: prod.splits sum.splits) (metis snd_conv)+

lemma preserves_try [frame]:
  "preserves obs m \<Longrightarrow> (\<And>e. preserves obs (h e)) \<Longrightarrow> preserves obs (try_except m h)"
  unfolding preserves_def try_except_def by (auto split: prod.splits sum.splits) (metis snd_conv)+

lemma preserves_for_each [frame]:
  "(\<And>x. preserves obs (body x)) \<Longrightarrow> preserves obs (for_each xs body)"
  by (induction xs) (auto intro: frame)

lemma preserves_if [frame]:
  "preserves obs m \<Longrightarrow> preserves obs m' \<Longrightarrow> preserves obs (if b then m else m')"
  by simp

text \<open>Mapping a fallible function over a list, as a comprehension does.\<close>

fun map_res :: "('a \<Rightarrow> 'b res) \<Rightarrow> 'a list \<Rightarrow> 'b list res" where
  "map_res f [] = Inr []"
| "map_res f (x # xs) = res_bind (f x) (\<lambda>y. res_bind (map_res f xs) (\<lambda>ys. Inr (y # ys)))"

lemma map_res_total:
  "(\<And>x. x \<in> set xs \<Longrightarrow> \<exists>y. f x = Inr y) \<Longrightarrow> \<exists>ys. map_res f xs = Inr ys"
  by (induction xs) fastforce+

lemma map_res_length: "map_res f xs = Inr ys \<Longrightarrow> length ys = length xs"
  by (induction xs arbitrary: ys) auto

lemma map_res_nth: "map_res f xs = Inr ys \<Longrightarrow> i < length xs \<Longrightarrow> f (xs ! i) = Inr (ys ! i)"
  by (induction xs arbitrary: ys i) (auto simp: nth_Cons split: nat.splits)

section \<open>Float primitives\<close>

definition fdiv :: "real \<Rightarrow> real \<Rightarrow> real res" where
  "fdiv a b = (if b = 0 then Inl ZeroDivisionError else Inr (a / b))"

definition np_log :: "real \<Rightarrow> real res" where
  "np_log x = (if x > 0 then Inr (ln x) else Inl NonFinite)"

definition np_sqrt :: "real \<Rightarrow> real res" where
  "np_sqrt x = (if x \<ge> 0 then Inr (sqrt x) else Inl NonFinite)"

text \<open>
  \<open>a ** b\<close> on floats: a negative base is fine only with an integral exponent, and a zero base
  only with a non-negative one.
\<close>

definition fpow :: "real \<Rightarrow> real \<Rightarrow> real res" where
  "fpow a b =
     (if a > 0 then Inr (a powr b)
      else if a = 0 then (if b > 0 then Inr 0 else if b = 0 then Inr 1 else Inl NonFinite)
      else if b = of_int \<lfloor>b\<rfloor>
        then Inr ((if even \<lfloor>b\<rfloor> then 1 else - 1) * ((- a) powr b))
      else Inl NonFinite)"

lemma fdiv_Inr [simp]: "fdiv a b = Inr q \<longleftrightarrow> b \<noteq> 0 \<and> q = a / b"
  by (auto simp: fdiv_def)

lemma fdiv_ok [outcome]: "b \<noteq> 0 \<Longrightarrow> fdiv a b = Inr (a / b)"
  by simp

lemma fdiv_zero [simp]: "fdiv a 0 = Inl ZeroDivisionError"
  by (simp add: fdiv_def)

lemma np_log_Inr [simp]: "np_log x = Inr y \<longleftrightarrow> 0 < x \<and> y = ln x"
  by (auto simp: np_log_def)

lemma np_log_ok [outcome]: "0 < x \<Longrightarrow> np_log x = Inr (ln x)"
  by simp

lemma np_sqrt_Inr [simp]: "np_sqrt x = Inr y \<longleftrightarrow> 0 \<le> x \<and> y = sqrt x"
  by (auto simp: np_sqrt_def)

lemma np_sqrt_ok [outcome]: "0 \<le> x \<Longrightarrow> np_sqrt x = Inr (sqrt x)"
  by simp

lemma fpow_pos [outcome]: "0 < a \<Longrightarrow> fpow a b = Inr (a powr b)"
  by (simp add: fpow_def)

lemma fpow_nonneg [outcome]: "0 \<le> a \<Longrightarrow> 0 < b \<Longrightarrow> fpow a b = Inr (a powr b)"
  by (cases "a = 0") (auto simp: fpow_def)

lemma fpow_pos_Inr [simp]: "0 < a \<Longrightarrow> fpow a b = Inr y \<longleftrightarrow> y = a powr b"
  by (auto simp: fpow_def)

text \<open>
  Where the source compares a value that may be nan and goes on, the nan is \<open>None\<close>: every comparison
  with it is false.
\<close>

definition nan_or :: "real res \<Rightarrow> real option res" where
  "nan_or r = (case r of Inr v \<Rightarrow> Inr (Some v) | Inl e \<Rightarrow> if e = NonFinite then Inr None else Inl e)"

definition holds :: "(real \<Rightarrow> bool) \<Rightarrow> real option \<Rightarrow> bool" where
  "holds P x = (case x of None \<Rightarrow> False | Some v \<Rightarrow> P v)"

lemma nan_or_Inr [simp]: "nan_or (Inr v) = Inr (Some v)"
  by (simp add: nan_or_def)

lemma holds_simps [simp]: "holds P None \<longleftrightarrow> False" "holds P (Some v) \<longleftrightarrow> P v"
  by (simp_all add: holds_def)

section \<open>Clamping\<close>

definition clamp :: "real \<Rightarrow> real \<Rightarrow> real \<Rightarrow> real" where
  "clamp lo hi x = max lo (min hi x)"

definition np_clip :: "real \<Rightarrow> real \<Rightarrow> real \<Rightarrow> real" where
  "np_clip x lo hi = min hi (max lo x)"

lemma clamp_ge [simp, bounds]: "lo \<le> clamp lo hi x"
  by (simp add: clamp_def)

lemma clamp_le [bounds]: "lo \<le> hi \<Longrightarrow> clamp lo hi x \<le> hi"
  by (simp add: clamp_def)

lemma max_min_range:
  fixes lo hi x :: real
  assumes "lo \<le> hi"
  shows "lo \<le> max lo (min hi x)" and "max lo (min hi x) \<le> hi"
  using assms by simp_all

lemma clamp_id: "lo \<le> x \<Longrightarrow> x \<le> hi \<Longrightarrow> clamp lo hi x = x"
  by (simp add: clamp_def)

lemma clamp_mono: "x \<le> y \<Longrightarrow> clamp lo hi x \<le> clamp lo hi y"
  by (auto simp: clamp_def)

lemma np_clip_ge [bounds]: "lo \<le> hi \<Longrightarrow> lo \<le> np_clip x lo hi"
  by (simp add: np_clip_def)

lemma np_clip_le [simp, bounds]: "np_clip x lo hi \<le> hi"
  by (simp add: np_clip_def)

lemma np_clip_clamp: "lo \<le> hi \<Longrightarrow> np_clip x lo hi = clamp lo hi x"
  by (auto simp: np_clip_def clamp_def)

section \<open>Python indexing\<close>

definition py_index :: "nat \<Rightarrow> int \<Rightarrow> nat option" where
  "py_index n i =
     (let j = (if i < 0 then int n + i else i)
      in if 0 \<le> j \<and> j < int n then Some (nat j) else None)"

definition aget :: "'a list \<Rightarrow> int \<Rightarrow> 'a res" where
  "aget xs i = (case py_index (length xs) i of None \<Rightarrow> Inl IndexError | Some k \<Rightarrow> Inr (xs ! k))"

definition aset :: "'a list \<Rightarrow> int \<Rightarrow> 'a \<Rightarrow> 'a list res" where
  "aset xs i v =
     (case py_index (length xs) i of None \<Rightarrow> Inl IndexError | Some k \<Rightarrow> Inr (xs[k := v]))"

lemma py_index_nat [simp]: "k < n \<Longrightarrow> py_index n (int k) = Some k"
  by (simp add: py_index_def Let_def)

lemma py_index_out: "int n \<le> i \<Longrightarrow> py_index n i = None"
  by (simp add: py_index_def Let_def)

lemma aget_nat [outcome]: "k < length xs \<Longrightarrow> aget xs (int k) = Inr (xs ! k)"
  by (simp add: aget_def)

lemma aget_nonneg [outcome]:
  "0 \<le> i \<Longrightarrow> i < int (length xs) \<Longrightarrow> aget xs i = Inr (xs ! nat i)"
  using aget_nat [of "nat i" xs] by simp

lemma aget_out: "int (length xs) \<le> i \<Longrightarrow> aget xs i = Inl IndexError"
  by (simp add: aget_def py_index_out)

lemma aget_last: "xs \<noteq> [] \<Longrightarrow> aget xs (- 1) = Inr (last xs)"
  by (simp add: aget_def py_index_def Let_def last_conv_nth nat_diff_distrib Suc_leI
      flip: of_nat_diff)

lemma aset_nonneg [outcome]:
  "0 \<le> i \<Longrightarrow> i < int (length xs) \<Longrightarrow> aset xs i v = Inr (xs[nat i := v])"
  using py_index_nat [of "nat i" "length xs"] by (simp add: aset_def)

lemma aset_length: "aset xs i v = Inr ys \<Longrightarrow> length ys = length xs"
  by (auto simp: aset_def split: option.splits)

section \<open>The bounded loop\<close>

text \<open>
  \<open>for i in range(n): body\<close>. The body sees the index and the loop state and either goes on
  (\<open>Next\<close>), leaves the loop (\<open>Break\<close>) or returns from the function (\<open>Return\<close>). A loop that
  exhausts its range ends in \<open>Next\<close>.
\<close>

datatype ('s, 'r) ctl = Next 's | Break 's | Return 'r

fun for_from :: "nat \<Rightarrow> nat \<Rightarrow> (nat \<Rightarrow> 's \<Rightarrow> ('s, 'r) ctl res) \<Rightarrow> 's \<Rightarrow> ('s, 'r) ctl res" where
  "for_from i 0 body s = Inr (Next s)"
| "for_from i (Suc n) body s =
     res_bind (body i s) (\<lambda>c. case c of
         Next s' \<Rightarrow> for_from (Suc i) n body s'
       | Break s' \<Rightarrow> Inr (Break s')
       | Return r \<Rightarrow> Inr (Return r))"

abbreviation for_range :: "nat \<Rightarrow> (nat \<Rightarrow> 's \<Rightarrow> ('s, 'r) ctl res) \<Rightarrow> 's \<Rightarrow> ('s, 'r) ctl res" where
  "for_range n body s \<equiv> for_from 0 n body s"

fun ctl_all :: "('s \<Rightarrow> bool) \<Rightarrow> ('r \<Rightarrow> bool) \<Rightarrow> ('s, 'r) ctl \<Rightarrow> bool" where
  "ctl_all P Q (Next s) = P s"
| "ctl_all P Q (Break s) = P s"
| "ctl_all P Q (Return r) = Q r"

text \<open>Partial correctness: an invariant of the body is one of the loop.\<close>

lemma for_from_inv:
  assumes "\<And>i s c. I s \<Longrightarrow> body i s = Inr c \<Longrightarrow> ctl_all I Q c"
    and "I s" and "for_from i n body s = Inr c"
  shows "ctl_all I Q c"
  using assms(2,3)
proof (induction n arbitrary: i s)
  case 0
  then show ?case by auto
next
  case (Suc n)
  then obtain c' where c': "body i s = Inr c'" by auto
  from assms(1) [OF Suc.prems(1) c'] have "ctl_all I Q c'" .
  with Suc c' show ?case by (cases c') auto
qed

text \<open>Totality: a body that returns under an invariant it keeps makes a loop that returns.\<close>

lemma for_from_total:
  assumes "\<And>i s. I s \<Longrightarrow> \<exists>c. body i s = Inr c \<and> ctl_all I Q c"
    and "I s"
  shows "\<exists>c. for_from i n body s = Inr c \<and> ctl_all I Q c"
  using assms(2)
proof (induction n arbitrary: i s)
  case 0
  then show ?case by auto
next
  case (Suc n)
  from assms(1) [OF Suc.prems] obtain c where c: "body i s = Inr c" "ctl_all I Q c" by blast
  show ?case
  proof (cases c)
    case (Next s')
    with c have "I s'" by simp
    with Suc.IH [of s' "Suc i"] c Next show ?thesis by simp
  qed (use c in auto)
qed

text \<open>A loop that only breaks has its state as value.\<close>

fun loop_state :: "('s, unit) ctl \<Rightarrow> 's res" where
  "loop_state (Next s) = Inr s"
| "loop_state (Break s) = Inr s"
| "loop_state (Return r) = Inl RuntimeError"

text \<open>The accumulating loop: no \<open>break\<close> and no \<open>return\<close>.\<close>

fun fold_from :: "nat \<Rightarrow> nat \<Rightarrow> (nat \<Rightarrow> 's \<Rightarrow> 's res) \<Rightarrow> 's \<Rightarrow> 's res" where
  "fold_from i 0 body s = Inr s"
| "fold_from i (Suc n) body s = res_bind (body i s) (\<lambda>s'. fold_from (Suc i) n body s')"

abbreviation fold_range :: "nat \<Rightarrow> (nat \<Rightarrow> 's \<Rightarrow> 's res) \<Rightarrow> 's \<Rightarrow> 's res" where
  "fold_range n body s \<equiv> fold_from 0 n body s"

lemma fold_from_total_inv:
  assumes "\<And>j s. i \<le> j \<Longrightarrow> j < i + n \<Longrightarrow> I j s \<Longrightarrow> \<exists>s'. body j s = Inr s' \<and> I (Suc j) s'"
    and "I i s"
  shows "\<exists>s'. fold_from i n body s = Inr s' \<and> I (i + n) s'"
  using assms
proof (induction n arbitrary: i s)
  case 0
  then show ?case by simp
next
  case (Suc n)
  from Suc.prems(1) [of i s] Suc.prems(2) obtain s1 where
    s1: "body i s = Inr s1" "I (Suc i) s1" by auto
  have "\<exists>s'. fold_from (Suc i) n body s1 = Inr s' \<and> I (Suc i + n) s'"
    by (rule Suc.IH) (use Suc.prems(1) s1(2) in auto)
  with s1(1) show ?case by simp
qed

lemma fold_from_inv:
  assumes "\<And>j s s'. i \<le> j \<Longrightarrow> j < i + n \<Longrightarrow> I j s \<Longrightarrow> body j s = Inr s' \<Longrightarrow> I (Suc j) s'"
    and "I i s" and "fold_from i n body s = Inr t"
  shows "I (i + n) t"
  using assms
proof (induction n arbitrary: i s)
  case 0
  then show ?case by simp
next
  case (Suc n)
  from Suc.prems(3) obtain s1 where
    s1: "body i s = Inr s1" "fold_from (Suc i) n body s1 = Inr t" by auto
  have "I (Suc i + n) t"
    by (rule Suc.IH [OF _ _ s1(2)]) (use Suc.prems s1(1) in auto)
  then show ?case by simp
qed

section \<open>Computations without nan\<close>

text \<open>
  Outcomes other than \<open>NonFinite\<close>, closed under the ways the source combines computations: what a
  handler that catches every exception relies on.
\<close>

definition finite_res :: "'a res \<Rightarrow> bool" where
  "finite_res r \<longleftrightarrow> r \<noteq> Inl NonFinite"

definition finite_meth :: "('s, 'a) meth \<Rightarrow> bool" where
  "finite_meth m \<longleftrightarrow> (\<forall>s. finite_res (fst (m s)))"

named_theorems finiteness \<open>no nan arises\<close>

lemma finite_res_Inr [simp, finiteness]: "finite_res (Inr x)"
  by (simp add: finite_res_def)

lemma finite_res_Inl [simp]: "finite_res (Inl e) \<longleftrightarrow> e \<noteq> NonFinite"
  by (simp add: finite_res_def)

lemma finite_res_bind [finiteness]:
  "finite_res m \<Longrightarrow> (\<And>x. m = Inr x \<Longrightarrow> finite_res (f x)) \<Longrightarrow> finite_res (res_bind m f)"
  by (cases m) (auto simp: finite_res_def)

lemma finite_prims [finiteness]:
  "finite_res (fdiv a b)" "0 < a \<Longrightarrow> finite_res (np_log a)" "0 < a \<Longrightarrow> finite_res (fpow a b)"
  "finite_res (aget xs i)" "finite_res (aset xs i v)"
  by (auto simp: finite_res_def fdiv_def np_log_def fpow_def aget_def aset_def split: option.splits)

lemma finite_if [finiteness]: "finite_res m \<Longrightarrow> finite_res m' \<Longrightarrow> finite_res (if b then m else m')"
  by simp

lemma finite_fold_from [finiteness]:
  "(\<And>j s. finite_res (body j s)) \<Longrightarrow> finite_res (fold_from i n body s)"
  by (induction n arbitrary: i s) (auto intro: finiteness)

lemma finite_meth_basic [finiteness]:
  "finite_meth (ret x)" "finite_meth (reads f)" "finite_meth (updates g)" "finite_res r \<Longrightarrow> finite_meth (pure_res r)"
  by (simp_all add: finite_meth_def meth_defs)

lemma finite_meth_seq [finiteness]:
  "finite_meth m \<Longrightarrow> (\<And>x. finite_meth (f x)) \<Longrightarrow> finite_meth (seq m f)"
  by (auto simp: finite_meth_def finite_res_def seq_def split: prod.splits sum.splits) (metis fst_conv)+

lemma finite_meth_for_each [finiteness]:
  "(\<And>x. finite_meth (body x)) \<Longrightarrow> finite_meth (for_each xs body)"
  by (induction xs) (auto intro: finiteness)

lemma finite_methD: "finite_meth m \<Longrightarrow> m s = (r, s') \<Longrightarrow> finite_res r"
  by (metis finite_meth_def fst_conv)

section \<open>Lists and sums\<close>

lemma lerp_solve:
  fixes a b x :: real
  assumes "a \<noteq> b"
  shows "(1 - (x - a) / (b - a)) * a + (x - a) / (b - a) * b = x"
proof -
  let ?w = "(x - a) / (b - a)"
  have "(1 - ?w) * a + ?w * b = a + ?w * (b - a)" by (simp only: algebra_simps)
  also have "?w * (b - a) = x - a" using assms by simp
  finally show ?thesis by simp
qed

lemma convex_comb_bounds:
  fixes w :: real
  assumes "0 \<le> w" "w \<le> 1" "lo \<le> a" "a \<le> hi" "lo \<le> b" "b \<le> hi"
  shows "lo \<le> (1 - w) * a + w * b" and "(1 - w) * a + w * b \<le> hi"
proof -
  have "(1 - w) * lo + w * lo \<le> (1 - w) * a + w * b"
    using assms by (intro add_mono mult_left_mono) auto
  then show "lo \<le> (1 - w) * a + w * b" by (simp add: algebra_simps)
  have "(1 - w) * a + w * b \<le> (1 - w) * hi + w * hi"
    using assms by (intro add_mono mult_left_mono) auto
  then show "(1 - w) * a + w * b \<le> hi" by (simp add: algebra_simps)
qed

lemma sum_list_update_real:
  fixes xs :: "real list"
  shows "k < length xs \<Longrightarrow> sum_list (xs[k := v]) = sum_list xs + (v - xs ! k)"
  by (induction xs arbitrary: k) (auto split: nat.splits)


end
