(* ===== verification/Iteration.thy ===== *)
theory Iteration
  imports Prelude
begin

text \<open>
  The two ways the solvers close in on a value: iterations that contract towards a solution (the Newton
  solvers) and brackets that are halved (the bisections). Each is a locale over the step of a bounded
  loop; the solvers interpret them.
\<close>

section \<open>Contracting iterations\<close>

text \<open>What a loop over a value leaves, however it ends.\<close>

fun ctl_value :: "('a, 'a) ctl \<Rightarrow> 'a" where
  "ctl_value (Next x) = x"
| "ctl_value (Break x) = x"
| "ctl_value (Return x) = x"

lemma ctl_value_case: "(case c of Next x \<Rightarrow> f x | Break x \<Rightarrow> f x | Return x \<Rightarrow> f x) = f (ctl_value c)"
  by (cases c) auto

text \<open>
  A step under the predicate \<open>ok\<close> either goes on with the distance to the solution shrunk by \<open>q\<close>, or
  stops within the accuracy \<open>B\<close> of it.
\<close>

locale contraction =
  fixes step :: "real \<Rightarrow> (real, real) ctl res" and ok :: "real \<Rightarrow> bool" and solution q B :: real
  assumes contracts: "ok x \<Longrightarrow> 0 \<le> q \<and> (\<exists>c. step x = Inr c \<and> ok (ctl_value c) \<and>
    (case c of Next y \<Rightarrow> \<bar>y - solution\<bar> \<le> q * \<bar>x - solution\<bar>
     | Break y \<Rightarrow> \<bar>y - solution\<bar> \<le> B | Return y \<Rightarrow> \<bar>y - solution\<bar> \<le> B))"
begin

lemma loop:
  "ok x \<Longrightarrow> \<exists>c. for_from i n (\<lambda>_. step) x = Inr c \<and> ok (ctl_value c)
    \<and> \<bar>ctl_value c - solution\<bar> \<le> max (q ^ n * \<bar>x - solution\<bar>) B"
proof (induction n arbitrary: i x)
  case (Suc n)
  obtain c where c: "0 \<le> q" "step x = Inr c" "ok (ctl_value c)"
      "case c of Next y \<Rightarrow> \<bar>y - solution\<bar> \<le> q * \<bar>x - solution\<bar>
       | Break y \<Rightarrow> \<bar>y - solution\<bar> \<le> B | Return y \<Rightarrow> \<bar>y - solution\<bar> \<le> B"
    using contracts [OF Suc.prems] by blast
  show ?case
  proof (cases c)
    case (Next y)
    then have y: "ok y" "\<bar>y - solution\<bar> \<le> q * \<bar>x - solution\<bar>" using c by auto
    obtain c' where c': "for_from (Suc i) n (\<lambda>_. step) y = Inr c'" "ok (ctl_value c')"
        "\<bar>ctl_value c' - solution\<bar> \<le> max (q ^ n * \<bar>y - solution\<bar>) B"
      using Suc.IH [OF y(1)] by blast
    have "q ^ n * \<bar>y - solution\<bar> \<le> q ^ n * (q * \<bar>x - solution\<bar>)" using y(2) c(1) by (intro mult_left_mono) auto
    then have "\<bar>ctl_value c' - solution\<bar> \<le> max (q ^ Suc n * \<bar>x - solution\<bar>) B"
      using c'(3) by (simp add: mult.assoc mult.left_commute)
    then show ?thesis using c(2) c'(1,2) Next by auto
  qed (use c in auto)
qed simp

end

text \<open>A contracting step that is short was taken close to the solution.\<close>

lemma short_step_close:
  fixes q :: real
  assumes "\<bar>y - s\<bar> \<le> q * \<bar>x - s\<bar>" and "\<bar>y - x\<bar> < tol" and "0 \<le> q" "q < 1"
  shows "\<bar>y - s\<bar> \<le> q * tol / (1 - q)"
proof -
  have "\<bar>x - s\<bar> \<le> tol + q * \<bar>x - s\<bar>" using assms(1,2) by linarith
  then have "\<bar>x - s\<bar> * (1 - q) \<le> tol" by (simp add: algebra_simps)
  then have "\<bar>x - s\<bar> \<le> tol / (1 - q)" using assms(4) by (simp add: pos_le_divide_eq)
  then have "q * \<bar>x - s\<bar> \<le> q * (tol / (1 - q))" using assms(3) by (intro mult_left_mono) auto
  then show ?thesis using assms(1) by simp
qed

lemma clamp_nonexpansive:
  "lo \<le> s \<Longrightarrow> s \<le> hi \<Longrightarrow> \<bar>clamp lo hi x - s\<bar> \<le> \<bar>x - s\<bar>"
  by (auto simp: clamp_def)

text \<open>One Newton step, given how far the function is from the line of slope \<open>c\<close> through the solution.\<close>

lemma newton_contracts:
  fixes c :: real
  assumes "0 < c" and "\<bar>h - target - c * (x - s)\<bar> \<le> q * c * \<bar>x - s\<bar>"
  shows "\<bar>x + (target - h) / c - s\<bar> \<le> q * \<bar>x - s\<bar>"
proof -
  have "x + (target - h) / c - s = - (h - target - c * (x - s)) / c"
    using assms(1) by (simp add: field_simps)
  then have "\<bar>x + (target - h) / c - s\<bar> = \<bar>h - target - c * (x - s)\<bar> / c"
    using assms(1) by (simp add: abs_divide)
  also have "\<dots> \<le> q * c * \<bar>x - s\<bar> / c" using assms(1,2) by (intro divide_right_mono) auto
  finally show ?thesis using assms(1) by simp
qed

text \<open>For a differentiable function whose slopes lie between \<open>m\<close> and \<open>M\<close> the share is \<open>M / m - 1\<close>.\<close>

lemma slope_between:
  fixes f :: "real \<Rightarrow> real"
  assumes "\<And>t. min x s \<le> t \<Longrightarrow> t \<le> max x s \<Longrightarrow> (f has_real_derivative d t) (at t) \<and> m \<le> d t \<and> d t \<le> M"
  obtains c where "f x - f s = c * (x - s)" and "m \<le> c" and "c \<le> M"
proof -
  have *: "\<exists>c. f b - f a = c * (b - a) \<and> m \<le> c \<and> c \<le> M"
    if ab: "a < b" and df: "\<And>t. a \<le> t \<Longrightarrow> t \<le> b \<Longrightarrow> (f has_real_derivative d t) (at t) \<and> m \<le> d t \<and> d t \<le> M" for a b
  proof -
    obtain z where "a < z" "z < b" "f b - f a = (b - a) * d z"
      using MVT2 [OF ab, of f d] df by auto
    then show ?thesis using df [of z] by (intro exI [of _ "d z"]) (simp add: mult.commute)
  qed
  consider "x < s" | "x = s" | "s < x" by linarith
  then show ?thesis
  proof cases
    case 1
    then obtain c where "f s - f x = c * (s - x)" "m \<le> c" "c \<le> M" using * [of x s] assms by auto
    then show ?thesis using that [of c] by (simp add: algebra_simps)
  next
    case 2
    then show ?thesis using that [of "d s"] assms [of s] by simp
  next
    case 3
    then obtain c where "f x - f s = c * (x - s)" "m \<le> c" "c \<le> M" using * [of s x] assms by auto
    then show ?thesis using that [of c] by simp
  qed
qed

lemma newton_share:
  fixes c :: real
  assumes "0 < m" "m \<le> c" "c \<le> M" "m \<le> d" "d \<le> M"
  shows "\<bar>c * z - d * z\<bar> \<le> (M / m - 1) * d * \<bar>z\<bar>"
proof -
  have "\<bar>c - d\<bar> \<le> M - m" using assms by auto
  also have "\<dots> = (M / m - 1) * m" using assms(1) by (simp add: algebra_simps)
  also have "\<dots> \<le> (M / m - 1) * d" using assms by (intro mult_left_mono) auto
  finally have "\<bar>c - d\<bar> * \<bar>z\<bar> \<le> (M / m - 1) * d * \<bar>z\<bar>" by (intro mult_right_mono) auto
  then show ?thesis by (simp add: left_diff_distrib [symmetric] abs_mult)
qed

section \<open>Bisections\<close>

text \<open>
  A step under the invariant \<open>I\<close> (what is known of the bracket's ends) goes on with half the width, or
  ends in a state or result of which \<open>stop\<close> or \<open>found\<close> is known.
\<close>

locale bisection =
  fixes step :: "nat \<Rightarrow> 's \<Rightarrow> ('s, 'r) ctl res" and width :: "'s \<Rightarrow> real"
    and I stop :: "'s \<Rightarrow> bool" and found :: "'r \<Rightarrow> bool"
  assumes halves: "I s \<Longrightarrow> \<exists>c. step i s = Inr c \<and>
    (case c of Next s' \<Rightarrow> I s' \<and> width s' = width s / 2 | Break s' \<Rightarrow> stop s' | Return r \<Rightarrow> found r)"
begin

lemma loop:
  "I s \<Longrightarrow> \<exists>c. for_from i n step s = Inr c \<and>
    (case c of Next s' \<Rightarrow> I s' \<and> width s' = width s / 2 ^ n | Break s' \<Rightarrow> stop s' | Return r \<Rightarrow> found r)"
proof (induction n arbitrary: i s)
  case (Suc n)
  obtain c where c: "step i s = Inr c"
      "case c of Next s' \<Rightarrow> I s' \<and> width s' = width s / 2 | Break s' \<Rightarrow> stop s' | Return r \<Rightarrow> found r"
    using halves [OF Suc.prems] by blast
  show ?case
  proof (cases c)
    case (Next s')
    then obtain c' where c': "for_from (Suc i) n step s' = Inr c'" "case c' of Next s'' \<Rightarrow> I s'' \<and> width s'' = width s' / 2 ^ n
        | Break s'' \<Rightarrow> stop s'' | Return r \<Rightarrow> found r"
      using Suc.IH [of s' "Suc i"] c(2) by auto
    moreover have "width s' / 2 ^ n = width s / 2 ^ Suc n" using c(2) Next by (auto simp: field_simps)
    ultimately show ?thesis using c(1) Next by (intro exI [of _ c']) (auto split: ctl.splits)
  qed (use c in auto)
qed simp

end

end
