(* ===== verification/Interp.thy ===== *)
theory Interp
  imports Prelude
begin

text \<open>
  The bilinear lookup kernels of \<open>physical_engine/optimization/_numba_ops_core_python.py\<close>:
  the direct kernel \<open>bilinear_interp_jit\<close>, the two-phase kernel
  \<open>get_interp_weights_jit\<close> / \<open>interp_from_weights_jit\<close>, their batch and mixture users, and the
  cubic spline evaluator. A grid is a list of reals, a table a list of rows.

  The locale \<open>sorted_grid\<close> states what every kernel relies on (a strictly increasing axis with
  at least two points) and proves once that the computed index and weight reproduce the clamped
  coordinate; the numpy grids of the lookup manager interpret it.
\<close>

section \<open>Array primitives\<close>

definition aget2 :: "'a list list \<Rightarrow> int \<Rightarrow> int \<Rightarrow> 'a res" where
  "aget2 d i j = res_bind (aget d i) (\<lambda>row. aget row j)"

text \<open>
  A property table as the lookup manager stores it: a cell whose generation failed holds nan
  (\<open>None\<close>), and a computation that reads such a cell ends in \<open>NonFinite\<close>.
\<close>

type_synonym ptable = "real option list list"

definition cell_at :: "ptable \<Rightarrow> int \<Rightarrow> int \<Rightarrow> real res" where
  "cell_at d i j =
     res_bind (aget2 d i j) (\<lambda>c. case c of None \<Rightarrow> Inl NonFinite | Some v \<Rightarrow> Inr v)"

definition cell :: "ptable \<Rightarrow> nat \<Rightarrow> nat \<Rightarrow> real" where
  "cell d i j = the (d ! i ! j)"

text \<open>\<open>np.searchsorted\<close> (left side): on a sorted array, how many entries lie below the key.\<close>

definition searchsorted :: "real list \<Rightarrow> real \<Rightarrow> int" where
  "searchsorted g x = int (length (takeWhile (\<lambda>v. v < x) g))"

definition linspace :: "real \<Rightarrow> real \<Rightarrow> nat \<Rightarrow> real list" where
  "linspace lo hi n =
     (if n = 1 then [lo] else map (\<lambda>i. lo + (hi - lo) / real (n - 1) * real i) [0..<n])"

definition geomspace :: "real \<Rightarrow> real \<Rightarrow> nat \<Rightarrow> real list" where
  "geomspace lo hi n =
     (if n = 1 then [lo] else map (\<lambda>i. lo * (hi / lo) powr (real i / real (n - 1))) [0..<n])"

section \<open>The direct kernel\<close>

definition bilinear_index :: "real list \<Rightarrow> real \<Rightarrow> int res" where
  "bilinear_index g x =
     res_bind (aget g 0) (\<lambda>g0.
     if x \<le> g0 then Inr 1
     else res_bind (aget g (- 1)) (\<lambda>gl.
       if x \<ge> gl then Inr (int (length g) - 1)
       else let ix = searchsorted g x in Inr (if ix = 0 then 1 else ix)))"

definition bilinear_weight :: "real list \<Rightarrow> int \<Rightarrow> real \<Rightarrow> real res" where
  "bilinear_weight g ix x =
     res_bind (aget g (ix - 1)) (\<lambda>x0.
     res_bind (aget g ix) (\<lambda>x1.
     let dx = x1 - x0 in Inr (if dx = 0 then 0 else (x - x0) / dx)))"

definition bilinear_interp_jit ::
    "real list \<Rightarrow> real list \<Rightarrow> ptable \<Rightarrow> real \<Rightarrow> real \<Rightarrow> real res" where
  "bilinear_interp_jit grid_x grid_y data x y =
     res_bind (bilinear_index grid_x x) (\<lambda>ix.
     res_bind (bilinear_index grid_y y) (\<lambda>iy.
     res_bind (bilinear_weight grid_x ix x) (\<lambda>wx.
     res_bind (bilinear_weight grid_y iy y) (\<lambda>wy.
     res_bind (cell_at data (ix - 1) (iy - 1)) (\<lambda>q00.
     res_bind (cell_at data (ix - 1) iy) (\<lambda>q01.
     res_bind (cell_at data ix (iy - 1)) (\<lambda>q10.
     res_bind (cell_at data ix iy) (\<lambda>q11.
     Inr (q00 * (1 - wx) * (1 - wy) + q10 * wx * (1 - wy)
          + q01 * (1 - wx) * wy + q11 * wx * wy)))))))))"

definition batch_bilinear_interp_jit ::
    "real list \<Rightarrow> real list \<Rightarrow> ptable \<Rightarrow> real list \<Rightarrow> real list \<Rightarrow> real list res" where
  "batch_bilinear_interp_jit grid_x grid_y data x_arr y_arr =
     fold_range (length x_arr) (\<lambda>i results.
         res_bind (aget x_arr (int i)) (\<lambda>x.
         res_bind (aget y_arr (int i)) (\<lambda>y.
         res_bind (bilinear_interp_jit grid_x grid_y data x y) (\<lambda>v.
         Inr (results[i := v]))))) (replicate (length x_arr) 0)"

definition bilinear_interp_liquid ::
    "real list \<Rightarrow> real list \<Rightarrow> ptable \<Rightarrow> real \<Rightarrow> real \<Rightarrow> real res" where
  "bilinear_interp_liquid grid_p grid_t data p t =
     (let p_lo = (if p < 100000 then 100000 else p);
          p_safe = (if p_lo > 2000000 then 2000000 else p_lo);
          t_lo = (if t < 273.15 then 273.15 else t);
          t_safe = (if t_lo > 373.15 then 373.15 else t_lo)
      in bilinear_interp_jit grid_p grid_t data p_safe t_safe)"

section \<open>The two-phase kernel\<close>

definition axis_weight :: "real list \<Rightarrow> real \<Rightarrow> (int \<times> real) res" where
  "axis_weight g x =
     res_bind (aget g 0) (\<lambda>g0.
     if x \<le> g0 then Inr (0, 0)
     else res_bind (aget g (- 1)) (\<lambda>gl.
       if x \<ge> gl then Inr (int (length g) - 2, 1)
       else let ix = searchsorted g x - 1 in
         res_bind (aget g ix) (\<lambda>x0.
         res_bind (aget g (ix + 1)) (\<lambda>x1.
         res_bind (fdiv (x - x0) (x1 - x0)) (\<lambda>wx. Inr (ix, wx))))))"

definition get_interp_weights_jit ::
    "real list \<Rightarrow> real list \<Rightarrow> real \<Rightarrow> real \<Rightarrow> (int \<times> int \<times> real \<times> real) res" where
  "get_interp_weights_jit grid_x grid_y x y =
     res_bind (axis_weight grid_x x) (\<lambda>(ix, wx).
     res_bind (axis_weight grid_y y) (\<lambda>(iy, wy).
     Inr (ix, iy, wx, wy)))"

definition interp_from_weights_jit ::
    "ptable \<Rightarrow> int \<Rightarrow> int \<Rightarrow> real \<Rightarrow> real \<Rightarrow> real res" where
  "interp_from_weights_jit data ix iy wx wy =
     res_bind (cell_at data ix iy) (\<lambda>f00.
     res_bind (cell_at data (ix + 1) iy) (\<lambda>f10.
     res_bind (cell_at data ix (iy + 1)) (\<lambda>f01.
     res_bind (cell_at data (ix + 1) (iy + 1)) (\<lambda>f11.
     Inr ((1 - wx) * (1 - wy) * f00 + wx * (1 - wy) * f10
          + (1 - wx) * wy * f01 + wx * wy * f11)))))"

text \<open>The composition \<open>_interpolate_2d\<close> of the lookup manager uses.\<close>

definition interpolate_2d ::
    "real list \<Rightarrow> real list \<Rightarrow> ptable \<Rightarrow> real \<Rightarrow> real \<Rightarrow> real res" where
  "interpolate_2d pressure_grid temperature_grid lut pressure temperature =
     res_bind (get_interp_weights_jit pressure_grid temperature_grid pressure temperature)
       (\<lambda>(ix, iy, wx, wy). interp_from_weights_jit lut ix iy wx wy)"

section \<open>Mixture properties over stacked tables\<close>

definition weighted_sum ::
    "ptable list \<Rightarrow> real list \<Rightarrow> int \<Rightarrow> int \<Rightarrow> real \<Rightarrow> real \<Rightarrow> real res" where
  "weighted_sum luts weights ix iy wx wy =
     fold_range (length weights) (\<lambda>i acc.
         res_bind (aget weights (int i)) (\<lambda>w.
         if w > 1 / 10 ^ 9
         then res_bind (aget luts (int i)) (\<lambda>tab.
              res_bind (interp_from_weights_jit tab ix iy wx wy) (\<lambda>v.
              Inr (acc + w * v)))
         else Inr acc)) 0"

definition get_mix_cp_jit ::
    "ptable list \<Rightarrow> real list \<Rightarrow> int \<Rightarrow> int \<Rightarrow> real \<Rightarrow> real \<Rightarrow> real res" where
  "get_mix_cp_jit C_luts weights ix iy wx wy = weighted_sum C_luts weights ix iy wx wy"

definition get_mix_enthalpy_fast_jit ::
    "ptable list \<Rightarrow> real list \<Rightarrow> int \<Rightarrow> int \<Rightarrow> real \<Rightarrow> real \<Rightarrow> real res" where
  "get_mix_enthalpy_fast_jit H_luts weights ix iy wx wy = weighted_sum H_luts weights ix iy wx wy"

definition get_mix_density_jit ::
    "ptable list \<Rightarrow> real list \<Rightarrow> int \<Rightarrow> int \<Rightarrow> real \<Rightarrow> real \<Rightarrow> real res" where
  "get_mix_density_jit D_luts weights ix iy wx wy =
     res_bind (fold_range (length weights) (\<lambda>i acc.
         res_bind (aget weights (int i)) (\<lambda>w.
         if w > 1 / 10 ^ 9
         then res_bind (aget D_luts (int i)) (\<lambda>tab.
              res_bind (interp_from_weights_jit tab ix iy wx wy) (\<lambda>rho.
              Inr (if rho > 1 / 10 ^ 6 then acc + w / rho else acc)))
         else Inr acc)) 0) (\<lambda>vol.
     Inr (if vol > 1 / 10 ^ 9 then 1 / vol else 0))"

definition calculate_mixture_density_jit ::
    "real \<Rightarrow> real \<Rightarrow> real list \<Rightarrow> real list \<Rightarrow> ptable list \<Rightarrow> real list \<Rightarrow> real res" where
  "calculate_mixture_density_jit p_pa T_k P_grid T_grid D_luts weights =
     res_bind (get_interp_weights_jit P_grid T_grid p_pa T_k)
       (\<lambda>(ix, iy, wx, wy). get_mix_density_jit D_luts weights ix iy wx wy)"

definition get_mix_entropy_fast_jit ::
    "ptable list \<Rightarrow> real list \<Rightarrow> real \<Rightarrow> real \<Rightarrow> int \<Rightarrow> int \<Rightarrow> real \<Rightarrow> real \<Rightarrow> real res" where
  "get_mix_entropy_fast_jit S_luts weights M_mix_kg_mol sum_ylny ix iy wx wy =
     res_bind (weighted_sum S_luts weights ix iy wx wy) (\<lambda>s_base.
     let s_mixing = (if M_mix_kg_mol > 1 / 10 ^ 9
                     then - (8.314462618 / M_mix_kg_mol) * sum_ylny else 0)
     in Inr (s_base + s_mixing))"

definition fast_index :: "real list \<Rightarrow> real \<Rightarrow> int" where
  "fast_index g x =
     (let ix = searchsorted g x
      in if ix = 0 then 1 else if ix \<ge> int (length g) then int (length g) - 1 else ix)"

definition get_mixture_enthalpy_fast ::
    "ptable list \<Rightarrow> real list \<Rightarrow> real list \<Rightarrow> real list \<Rightarrow> real \<Rightarrow> real \<Rightarrow> real res" where
  "get_mixture_enthalpy_fast stacked_H P_grid T_grid mass_fracs P_sys T_k =
     res_bind (aget P_grid 0) (\<lambda>p_min. res_bind (aget P_grid (- 1)) (\<lambda>p_max.
     res_bind (aget T_grid 0) (\<lambda>t_min. res_bind (aget T_grid (- 1)) (\<lambda>t_max.
     let P_lookup = (if P_sys < p_min then p_min else if P_sys > p_max then p_max else P_sys);
         T_lookup = (if T_k < t_min then t_min else if T_k > t_max then t_max else T_k);
         ix = fast_index P_grid P_lookup;
         iy = fast_index T_grid T_lookup
     in res_bind (bilinear_weight P_grid ix P_lookup) (\<lambda>wp.
        res_bind (bilinear_weight T_grid iy T_lookup) (\<lambda>wt.
        fold_range (length mass_fracs) (\<lambda>i h_mix.
            res_bind (aget mass_fracs (int i)) (\<lambda>w_i.
            if w_i < 1 / 10 ^ 12 then Inr h_mix
            else res_bind (aget stacked_H (int i)) (\<lambda>tab.
              res_bind (cell_at tab (ix - 1) (iy - 1)) (\<lambda>q00.
              res_bind (cell_at tab (ix - 1) iy) (\<lambda>q01.
              res_bind (cell_at tab ix (iy - 1)) (\<lambda>q10.
              res_bind (cell_at tab ix iy) (\<lambda>q11.
              Inr (h_mix + w_i * (q00 * (1 - wp) * (1 - wt) + q10 * wp * (1 - wt)
                                  + q01 * (1 - wp) * wt + q11 * wp * wt))))))))) 0))))))"

section \<open>The cubic spline\<close>

definition spline_poly :: "real list list \<Rightarrow> int \<Rightarrow> real \<Rightarrow> real res" where
  "spline_poly coeffs idx dx =
     res_bind (aget2 coeffs idx 0) (\<lambda>a. res_bind (aget2 coeffs idx 1) (\<lambda>b.
     res_bind (aget2 coeffs idx 2) (\<lambda>c. res_bind (aget2 coeffs idx 3) (\<lambda>d.
     Inr (a + dx * (b + dx * (c + dx * d)))))))"

definition eval_cubic_spline :: "real \<Rightarrow> real list \<Rightarrow> real list list \<Rightarrow> real res" where
  "eval_cubic_spline x_val breaks coeffs =
     res_bind (aget breaks 0) (\<lambda>b0.
     if x_val \<le> b0 then aget2 coeffs 0 0
     else res_bind (aget breaks (- 1)) (\<lambda>bl.
       if x_val \<ge> bl then
         let idx = int (length breaks) - 2 in
         res_bind (aget breaks idx) (\<lambda>bi. spline_poly coeffs idx (bl - bi))
       else
         let i0 = searchsorted breaks x_val - 1;
             i1 = (if i0 < 0 then 0 else i0);
             idx = (if i1 \<ge> int (length breaks) - 1 then int (length breaks) - 2 else i1)
         in res_bind (aget breaks idx) (\<lambda>x_i. spline_poly coeffs idx (x_val - x_i))))"

definition calculate_h2_production_dynamic ::
    "real list \<Rightarrow> real \<Rightarrow> real list \<Rightarrow> real list list \<Rightarrow> real list \<Rightarrow> real \<Rightarrow> real res" where
  "calculate_h2_production_dynamic powers_mw nominal_mw breaks coeffs deg_factors dt =
     (let energy_factor = dt * 1000 in
      fold_range (length powers_mw) (\<lambda>i total_h2.
          res_bind (aget powers_mw (int i)) (\<lambda>p_mw.
          if p_mw < 0.01 then Inr total_h2
          else res_bind (fdiv p_mw nominal_mw) (\<lambda>q.
            res_bind (eval_cubic_spline (q * 100) breaks coeffs) (\<lambda>base_sec.
            res_bind (aget deg_factors (int i)) (\<lambda>deg.
            let sec0 = base_sec * deg; actual_sec = (if sec0 < 1 then 1 else sec0)
            in Inr (total_h2 + (p_mw * energy_factor) / actual_sec)))))) 0)"

section \<open>The axis contract\<close>

locale sorted_grid =
  fixes g :: "real list"
  assumes strict: "sorted_wrt (<) g"
    and two: "2 \<le> length g"
begin

lemma nth_less: "i < j \<Longrightarrow> j < length g \<Longrightarrow> g ! i < g ! j"
  using strict by (rule sorted_wrt_nth_less)

lemma nth_le: "i \<le> j \<Longrightarrow> j < length g \<Longrightarrow> g ! i \<le> g ! j"
  using nth_less [of i j] by (cases "i = j") auto

lemma nonempty [simp]: "g \<noteq> []"
  using two by auto

lemma ends [simp]: "aget g 0 = Inr (g ! 0)" "aget g (- 1) = Inr (last g)"
  using two by (auto simp: aget_nonneg aget_last)

lemma last_nth: "last g = g ! (length g - 1)"
  by (simp add: last_conv_nth)

lemma first_less_last: "g ! 0 < last g"
  using nth_less [of 0 "length g - 1"] two by (simp add: last_nth)

lemma searchsorted_bracket:
  assumes "g ! 0 < x" and "x < last g"
  obtains k where "searchsorted g x = int (Suc k)" and "Suc k < length g"
    and "g ! k < x" and "x \<le> g ! Suc k"
proof -
  let ?t = "takeWhile (\<lambda>v. v < x) g"
  have len: "length ?t \<noteq> length g"
  proof
    assume "length ?t = length g"
    then have "?t = g"
      using takeWhile_eq_take [of "\<lambda>v. v < x" g] by simp
    then have "last g < x"
      using set_takeWhileD [of "last g" "\<lambda>v. v < x" g] nonempty by (metis last_in_set)
    with assms(2) show False by simp
  qed
  then have lt: "length ?t < length g"
    using length_takeWhile_le [of "\<lambda>v. v < x" g] by simp
  have pos: "length ?t \<noteq> 0"
    using assms(1) nonempty by (cases g) auto
  then obtain k where k: "length ?t = Suc k" by (cases "length ?t") auto
  have "g ! k < x"
    using set_takeWhileD [of "?t ! k" "\<lambda>v. v < x" g] k takeWhile_nth [of k "\<lambda>v. v < x" g]
    by (metis lessI nth_mem)
  moreover have "x \<le> g ! Suc k"
    using nth_length_takeWhile [OF lt] k by simp
  ultimately show ?thesis
    using that k lt by (simp add: searchsorted_def)
qed

text \<open>The three cases of an axis query, with the index and weight each kernel computes.\<close>

lemma axis_weight_low: "x \<le> g ! 0 \<Longrightarrow> axis_weight g x = Inr (int 0, 0)"
  by (simp add: axis_weight_def)

lemma axis_weight_high:
  "last g \<le> x \<Longrightarrow> axis_weight g x = Inr (int (length g - 2), 1)"
  using first_less_last two by (simp add: axis_weight_def of_nat_diff)

lemma axis_weight_mid:
  assumes "g ! 0 < x" and "x < last g"
  obtains k where "axis_weight g x = Inr (int k, (x - g ! k) / (g ! Suc k - g ! k))"
    and "Suc k < length g" and "g ! k < x" and "x \<le> g ! Suc k"
    and "searchsorted g x = int (Suc k)"
proof -
  obtain k where k: "searchsorted g x = int (Suc k)" "Suc k < length g"
    "g ! k < x" "x \<le> g ! Suc k"
    using searchsorted_bracket [OF assms] .
  have "aget g (int k) = Inr (g ! k)" "aget g (int k + 1) = Inr (g ! Suc k)"
    using k(2) aget_nat [of k g] aget_nat [of "Suc k" g] by (simp_all add: add.commute)
  moreover have "g ! Suc k - g ! k \<noteq> 0" using k by simp
  ultimately have "axis_weight g x = Inr (int k, (x - g ! k) / (g ! Suc k - g ! k))"
    using assms k by (simp add: axis_weight_def fdiv_ok Let_def)
  then show ?thesis using that k by simp
qed

lemma axis_weight_law:
  obtains k w where "axis_weight g x = Inr (int k, w)" and "Suc k < length g"
    and "0 \<le> w" and "w \<le> 1"
    and "(1 - w) * g ! k + w * g ! Suc k = clamp (g ! 0) (last g) x"
proof -
  consider "x \<le> g ! 0" | "last g \<le> x" "g ! 0 < x" | "g ! 0 < x" "x < last g" by linarith
  then show ?thesis
  proof cases
    case 1
    then show ?thesis
      using that [of 0 0] axis_weight_low two first_less_last by (simp add: clamp_def)
  next
    case 2
    have "Suc (length g - 2) = length g - 1" using two by simp
    then show ?thesis
      using that [of "length g - 2" 1] axis_weight_high [OF 2(1)] two 2 first_less_last
      by (simp add: clamp_def last_nth)
  next
    case 3
    then obtain k where k: "axis_weight g x = Inr (int k, (x - g ! k) / (g ! Suc k - g ! k))"
      "Suc k < length g" "g ! k < x" "x \<le> g ! Suc k" by (rule axis_weight_mid)
    let ?w = "(x - g ! k) / (g ! Suc k - g ! k)"
    have pos: "g ! Suc k - g ! k > 0" using k by simp
    have "(1 - ?w) * g ! k + ?w * g ! Suc k = x"
      using pos by (intro lerp_solve) simp
    moreover have "0 \<le> ?w" "?w \<le> 1" using k pos by simp_all
    ultimately show ?thesis
      using that k 3 by (simp add: clamp_def)
  qed
qed

text \<open>Inside the grid the direct kernel computes the same cell and the same weight.\<close>

lemma direct_axis:
  assumes "g ! 0 \<le> x" and "x \<le> last g"
  obtains k w where "axis_weight g x = Inr (int k, w)" and "Suc k < length g"
    and "bilinear_index g x = Inr (int (Suc k))" and "bilinear_weight g (int (Suc k)) x = Inr w"
proof -
  have wt: "bilinear_weight g (int (Suc k)) x = Inr ((x - g ! k) / (g ! Suc k - g ! k))"
    if "Suc k < length g" for k
    using that aget_nat [of k g] aget_nat [of "Suc k" g] nth_less [of k "Suc k"]
    by (simp add: bilinear_weight_def Let_def add.commute)
  consider "x = g ! 0" | "x = last g" "x \<noteq> g ! 0" | "g ! 0 < x" "x < last g"
    using assms by linarith
  then show ?thesis
  proof cases
    case 1
    then show ?thesis
      using that [of 0 0] axis_weight_low [of x] two wt [of 0] first_less_last
      by (simp add: bilinear_index_def)
  next
    case 2
    have e: "Suc (length g - 2) = length g - 1" using two by simp
    have "g ! (length g - 2) < g ! (length g - 1)"
      using two by (intro nth_less) simp_all
    then have "bilinear_weight g (int (Suc (length g - 2))) x = Inr 1"
      using wt [of "length g - 2"] two 2 unfolding e by (simp add: last_nth)
    moreover have "bilinear_index g x = Inr (int (Suc (length g - 2)))"
      using 2 assms first_less_last two unfolding e by (simp add: bilinear_index_def of_nat_diff)
    ultimately show ?thesis
      using that [of "length g - 2" 1] axis_weight_high [of x] 2 two by simp
  next
    case 3
    then obtain k where k: "axis_weight g x = Inr (int k, (x - g ! k) / (g ! Suc k - g ! k))"
      "Suc k < length g" "searchsorted g x = int (Suc k)" by (rule axis_weight_mid)
    then show ?thesis
      using that k wt [of k] 3 by (simp add: bilinear_index_def Let_def)
  qed
qed

text \<open>A node is reproduced: its own entry carries the whole weight.\<close>

lemma axis_weight_node:
  assumes "n < length g"
  shows "axis_weight g (g ! n) = (if n = 0 then Inr (int 0, 0) else Inr (int (n - 1), 1))"
proof -
  consider "n = 0" | "n = length g - 1" "n \<noteq> 0" | "0 < n" "n < length g - 1"
    using assms by linarith
  then show ?thesis
  proof cases
    case 1
    then show ?thesis using axis_weight_low by simp
  next
    case 2
    then show ?thesis
      using axis_weight_high [of "g ! n"] by (simp add: last_nth numeral_2_eq_2)
  next
    case 3
    then have "g ! 0 < g ! n" "g ! n < last g"
      using nth_less [of 0 n] nth_less [of n "length g - 1"] assms by (simp_all add: last_nth)
    then obtain k where k: "axis_weight g (g ! n) = Inr (int k, (g ! n - g ! k) / (g ! Suc k - g ! k))"
      "Suc k < length g" "g ! k < g ! n" "g ! n \<le> g ! Suc k" by (rule axis_weight_mid)
    have "k < n" using k(3) nth_le [of n k] k(2) by (cases "k < n") auto
    moreover have "n \<le> Suc k"
      using k(4) nth_less [of "Suc k" n] assms by (cases "n \<le> Suc k") auto
    ultimately have "n = Suc k" by simp
    with k show ?thesis by simp
  qed
qed

text \<open>Interpolating increasing values along the axis is increasing in the query.\<close>

lemma axis_lerp_mono:
  assumes "\<And>a. Suc a < length g \<Longrightarrow> f a \<le> f (Suc a)" and "x \<le> y"
    and "axis_weight g x = Inr (int i, w)" and "axis_weight g y = Inr (int j, v)"
  shows "(1 - w) * f i + w * f (Suc i) \<le> (1 - v) * f j + v * (f (Suc j) :: real)"
proof -
  obtain i' w' where "axis_weight g x = Inr (int i', w')" "Suc i' < length g" "0 \<le> w'" "w' \<le> 1"
    "(1 - w') * g ! i' + w' * g ! Suc i' = clamp (g ! 0) (last g) x" by (rule axis_weight_law)
  then have X: "Suc i < length g" "0 \<le> w" "w \<le> 1"
    "(1 - w) * g ! i + w * g ! Suc i = clamp (g ! 0) (last g) x" using assms(3) by auto
  obtain j' v' where "axis_weight g y = Inr (int j', v')" "Suc j' < length g" "0 \<le> v'" "v' \<le> 1"
    "(1 - v') * g ! j' + v' * g ! Suc j' = clamp (g ! 0) (last g) y" by (rule axis_weight_law)
  then have Y: "Suc j < length g" "0 \<le> v" "v \<le> 1"
    "(1 - v) * g ! j + v * g ! Suc j = clamp (g ! 0) (last g) y" using assms(4) by auto
  have XY: "(1 - w) * g ! i + w * g ! Suc i \<le> (1 - v) * g ! j + v * g ! Suc j"
    unfolding X(4) Y(4) by (rule clamp_mono) fact
  have fmono: "f a \<le> f b" if "a \<le> b" "b < length g" for a b
    using that
  proof (induction b)
    case 0
    then show ?case by simp
  next
    case (Suc b)
    then show ?case using assms(1) [of b] by (cases "a = Suc b") auto
  qed
  have fi: "(1 - w) * f i + w * f (Suc i) \<le> f (Suc i)" "f i \<le> (1 - w) * f i + w * f (Suc i)"
    and fj: "f j \<le> (1 - v) * f j + v * f (Suc j)"
    using X Y assms(1) [of i] assms(1) [of j] by (auto intro: convex_comb_bounds)
  consider "i < j" | "i = j" | "j < i" by linarith
  then show ?thesis
  proof cases
    case 1
    then have "f (Suc i) \<le> f j" using Y(1) by (intro fmono) auto
    with fi fj show ?thesis by linarith
  next
    case 2
    have "(w - v) * (g ! Suc j - g ! j) \<le> 0" using XY 2 by (simp add: algebra_simps)
    moreover have "0 < g ! Suc j - g ! j" using nth_less [of j "Suc j"] Y(1) by simp
    ultimately have "w \<le> v" by (simp add: mult_le_0_iff)
    then have "(w - v) * (f (Suc j) - f j) \<le> 0"
      using assms(1) [of j] Y(1) by (intro mult_nonpos_nonneg) auto
    then show ?thesis using 2 by (simp add: algebra_simps)
  next
    case 3
    have gi: "g ! i \<le> (1 - w) * g ! i + w * g ! Suc i"
      using X(1-3) nth_less [of i "Suc i"] by (intro convex_comb_bounds(1) [of w _ _ "g ! Suc i"]) simp_all
    have gj: "(1 - v) * g ! j + v * g ! Suc j \<le> g ! Suc j"
      using Y(1-3) nth_less [of j "Suc j"] by (intro convex_comb_bounds(2) [of v "g ! j"]) simp_all
    have "g ! Suc j \<le> g ! i" using 3 X(1) by (intro nth_le) auto
    with gi gj XY have eq: "g ! Suc j = g ! i" "(1 - w) * g ! i + w * g ! Suc i = g ! i"
      "(1 - v) * g ! j + v * g ! Suc j = g ! Suc j" by linarith+
    have "i = Suc j" using eq(1) nth_less [of "Suc j" i] 3 X(1) by (cases "i = Suc j") auto
    moreover have "w = 0"
      using eq(2) nth_less [of i "Suc i"] X(1) by (simp add: algebra_simps)
    moreover have "v = 1"
    proof -
      have "(1 - v) * (g ! Suc j - g ! j) = 0" using eq(3) by (simp add: algebra_simps)
      then show ?thesis using nth_less [of j "Suc j"] Y(1) by simp
    qed
    ultimately show ?thesis by simp
  qed
qed

end

lemma linspace_length [simp]: "length (linspace lo hi n) = n"
  by (simp add: linspace_def)

lemma linspace_nth:
  "2 \<le> n \<Longrightarrow> i < n \<Longrightarrow> linspace lo hi n ! i = lo + (hi - lo) / real (n - 1) * real i"
  by (simp add: linspace_def)

lemma sorted_grid_linspace:
  assumes "lo < hi" and "2 \<le> n"
  shows "sorted_grid (linspace lo hi n)"
proof
  show "sorted_wrt (<) (linspace lo hi n)"
    using assms by (auto simp: sorted_wrt_iff_nth_less linspace_nth intro!: mult_strict_left_mono
        divide_strict_right_mono)
qed (use assms in simp)

lemma geomspace_length [simp]: "length (geomspace lo hi n) = n"
  by (simp add: geomspace_def)

lemma sorted_grid_geomspace:
  assumes "0 < lo" and "lo < hi" and "2 \<le> n"
  shows "sorted_grid (geomspace lo hi n)"
proof
  show "sorted_wrt (<) (geomspace lo hi n)"
    using assms
    by (auto simp: sorted_wrt_iff_nth_less geomspace_def intro!: mult_strict_left_mono
        powr_less_mono divide_strict_right_mono)
qed (use assms in simp)

interpretation lut_temperature: sorted_grid "linspace 250 400 150"
  by (rule sorted_grid_linspace) simp_all

interpretation lut_pressure: sorted_grid "geomspace 50000 45000000 150"
  by (rule sorted_grid_geomspace) simp_all

section \<open>Tables over two axes\<close>

definition table_for :: "real list \<Rightarrow> real list \<Rightarrow> ptable \<Rightarrow> bool" where
  "table_for gx gy data \<longleftrightarrow>
     length data = length gx \<and> (\<forall>row \<in> set data. length row = length gy \<and> None \<notin> set row)"

text \<open>A table without nan, from its values.\<close>

definition values_of :: "real list list \<Rightarrow> ptable" where
  "values_of d = map (map Some) d"

lemma table_for_values [simp]:
  "table_for gx gy (values_of d) \<longleftrightarrow> length d = length gx \<and> (\<forall>row \<in> set d. length row = length gy)"
  by (auto simp: table_for_def values_of_def)

lemma cell_values [simp]:
  "i < length d \<Longrightarrow> j < length (d ! i) \<Longrightarrow> cell (values_of d) i j = d ! i ! j"
  by (simp add: cell_def values_of_def)

lemma table_for_cell:
  assumes "table_for gx gy data" and "i < length gx" and "j < length gy"
  shows "data ! i ! j = Some (cell data i j)"
proof -
  have "data ! i \<in> set data" using assms by (simp add: table_for_def)
  then have "length (data ! i) = length gy" "None \<notin> set (data ! i)"
    using assms(1) unfolding table_for_def by blast+
  then have "data ! i ! j \<noteq> None" using assms(3) by (metis nth_mem)
  then show ?thesis by (auto simp: cell_def)
qed

lemma cell_at_table:
  assumes "table_for gx gy data" and "i < length gx" and "j < length gy"
  shows "cell_at data (int i) (int j) = Inr (cell data i j)"
  using assms table_for_cell [OF assms]
  by (simp add: cell_at_def aget2_def aget_nat table_for_def)

lemma interp_from_weights_lerp:
  assumes "table_for gx gy data" and "Suc i < length gx" and "Suc j < length gy"
  shows "interp_from_weights_jit data (int i) (int j) wx wy =
    Inr ((1 - wx) * ((1 - wy) * cell data i j + wy * cell data i (Suc j))
         + wx * ((1 - wy) * cell data (Suc i) j + wy * cell data (Suc i) (Suc j)))"
  using assms cell_at_table [OF assms(1), of i j] cell_at_table [OF assms(1), of "Suc i" j]
    cell_at_table [OF assms(1), of i "Suc j"] cell_at_table [OF assms(1), of "Suc i" "Suc j"]
  by (simp add: interp_from_weights_jit_def algebra_simps)

lemma bilinear_interp_lerp:
  assumes "table_for gx gy data" and "Suc i < length gx" and "Suc j < length gy"
    and "bilinear_index gx x = Inr (int (Suc i))" and "bilinear_index gy y = Inr (int (Suc j))"
    and "bilinear_weight gx (int (Suc i)) x = Inr wx" and "bilinear_weight gy (int (Suc j)) y = Inr wy"
  shows "bilinear_interp_jit gx gy data x y = interp_from_weights_jit data (int i) (int j) wx wy"
  using assms cell_at_table [OF assms(1), of i j] cell_at_table [OF assms(1), of "Suc i" j]
    cell_at_table [OF assms(1), of i "Suc j"] cell_at_table [OF assms(1), of "Suc i" "Suc j"]
  by (simp add: bilinear_interp_jit_def interp_from_weights_jit_def algebra_simps)

context sorted_grid
begin

lemma bilinear_axis_total:
  obtains k w where "Suc k < length g" and "bilinear_index g x = Inr (int (Suc k))"
    and "bilinear_weight g (int (Suc k)) x = Inr w"
proof -
  have wt: "\<exists>w. bilinear_weight g (int (Suc k)) x = Inr w" if "Suc k < length g" for k
    using that aget_nat [of k g] aget_nat [of "Suc k" g] by (simp add: bilinear_weight_def Let_def add.commute)
  consider "x \<le> g ! 0" | "last g \<le> x" "\<not> x \<le> g ! 0" | "g ! 0 < x" "x < last g" by linarith
  then have "\<exists>k. Suc k < length g \<and> bilinear_index g x = Inr (int (Suc k))"
  proof cases
    case 1
    then show ?thesis using two by (intro exI [of _ 0]) (simp add: bilinear_index_def)
  next
    case 2
    then have "bilinear_index g x = Inr (int (Suc (length g - 2)))" using two by (simp add: bilinear_index_def of_nat_diff)
    then show ?thesis using two by (intro exI [of _ "length g - 2"]) simp
  next
    case 3
    obtain k where k: "searchsorted g x = int (Suc k)" "Suc k < length g" by (rule searchsorted_bracket [OF 3])
    then have "bilinear_index g x = Inr (int (Suc k))" using 3 by (simp add: bilinear_index_def Let_def)
    then show ?thesis using k(2) by blast
  qed
  then show ?thesis using wt that by blast
qed

end

lemma bilinear_interp_total:
  assumes gx: "sorted_grid gx" and gy: "sorted_grid gy" and tab: "table_for gx gy tab"
  shows "\<exists>v. bilinear_interp_jit gx gy tab x y = Inr v"
proof -
  obtain i wx where i: "Suc i < length gx" "bilinear_index gx x = Inr (int (Suc i))" "bilinear_weight gx (int (Suc i)) x = Inr wx"
    by (rule sorted_grid.bilinear_axis_total [OF gx])
  obtain j wy where j: "Suc j < length gy" "bilinear_index gy y = Inr (int (Suc j))" "bilinear_weight gy (int (Suc j)) y = Inr wy"
    by (rule sorted_grid.bilinear_axis_total [OF gy])
  show ?thesis
    unfolding bilinear_interp_lerp [OF tab i(1) j(1) i(2) j(2) i(3) j(3)]
    using interp_from_weights_lerp [OF tab i(1) j(1)] by blast
qed

lemma weighted_sum_total:
  assumes "length weights \<le> length luts" and "\<forall>tab \<in> set luts. table_for gx gy tab"
    and "Suc i < length gx" "Suc j < length gy"
  shows "\<exists>v. weighted_sum luts weights (int i) (int j) wx wy = Inr v"
proof -
  have "\<exists>s'. weighted_sum luts weights (int i) (int j) wx wy = Inr s' \<and> True"
    unfolding weighted_sum_def
  proof (rule fold_from_total_inv)
    fix k and acc :: real assume "k < 0 + length weights"
    then have k: "k < length weights" "k < length luts" using assms(1) by auto
    then have "table_for gx gy (luts ! k)" using assms(2) by simp
    from interp_from_weights_lerp [OF this assms(3,4)] k
    show "\<exists>s'. res_bind (aget weights (int k)) (\<lambda>w. if w > 1 / 10 ^ 9
         then res_bind (aget luts (int k)) (\<lambda>tab. res_bind (interp_from_weights_jit tab (int i) (int j) wx wy) (\<lambda>v. Inr (acc + w * v)))
         else Inr acc) = Inr s' \<and> True"
      by (simp add: aget_nat)
  qed simp
  then show ?thesis by simp
qed

lemma interpolate_2d_value:
  assumes "sorted_grid gx" and "sorted_grid gy" and "table_for gx gy data"
  obtains i j wx wy where
    "interpolate_2d gx gy data x y =
       Inr ((1 - wx) * ((1 - wy) * cell data i j + wy * cell data i (Suc j))
            + wx * ((1 - wy) * cell data (Suc i) j + wy * cell data (Suc i) (Suc j)))"
    and "Suc i < length gx" and "Suc j < length gy"
    and "0 \<le> wx" and "wx \<le> 1" and "0 \<le> wy" and "wy \<le> 1"
    and "axis_weight gx x = Inr (int i, wx)" and "axis_weight gy y = Inr (int j, wy)"
proof -
  obtain i wx where i: "axis_weight gx x = Inr (int i, wx)" "Suc i < length gx" "0 \<le> wx" "wx \<le> 1"
    using sorted_grid.axis_weight_law [OF assms(1)] by metis
  obtain j wy where j: "axis_weight gy y = Inr (int j, wy)" "Suc j < length gy" "0 \<le> wy" "wy \<le> 1"
    using sorted_grid.axis_weight_law [OF assms(2)] by metis
  show ?thesis
    by (rule that [of wx wy i j])
      (use i j interp_from_weights_lerp [OF assms(3) i(2) j(2)] in
        \<open>simp_all add: interpolate_2d_def get_interp_weights_jit_def\<close>)
qed

lemma interpolation_bounded:
  assumes "sorted_wrt (<) gx" and "2 \<le> length gx" and "sorted_wrt (<) gy" and "2 \<le> length gy"
    and "table_for gx gy data"
    and "\<And>row v. row \<in> set data \<Longrightarrow> Some v \<in> set row \<Longrightarrow> lo \<le> v \<and> v \<le> hi"
  shows "\<exists>v. interpolate_2d gx gy data x y = Inr v \<and> lo \<le> v \<and> v \<le> hi"
proof -
  have gx: "sorted_grid gx" and gy: "sorted_grid gy"
    using assms by (auto intro: sorted_grid.intro)
  obtain i j wx wy where v: "interpolate_2d gx gy data x y =
       Inr ((1 - wx) * ((1 - wy) * cell data i j + wy * cell data i (Suc j))
            + wx * ((1 - wy) * cell data (Suc i) j + wy * cell data (Suc i) (Suc j)))"
    and ij: "Suc i < length gx" "Suc j < length gy"
    and w: "0 \<le> wx" "wx \<le> 1" "0 \<le> wy" "wy \<le> 1"
    using interpolate_2d_value [OF gx gy assms(5)] by metis
  have e: "lo \<le> cell data r c \<and> cell data r c \<le> hi" if "r < length gx" "c < length gy" for r c
  proof -
    have r: "data ! r \<in> set data" using assms(5) that by (simp add: table_for_def)
    then have "Some (cell data r c) \<in> set (data ! r)"
      using assms(5) that table_for_cell [OF assms(5) that] nth_mem [of c "data ! r"]
      by (simp add: table_for_def)
    with r show ?thesis by (rule assms(6))
  qed
  show ?thesis
    unfolding v using w ij e [of i j] e [of i "Suc j"] e [of "Suc i" j] e [of "Suc i" "Suc j"]
    by (auto intro!: convex_comb_bounds)
qed

section \<open>Properties\<close>

text \<open>
  C11: inside the grid the two-phase kernel (weights once, then per-table interpolation), which the
  lookup manager and the compression solvers use, returns exactly what the direct kernel returns.
\<close>

theorem two_phase_equals_direct:
  assumes "sorted_wrt (<) gx" and "2 \<le> length gx" and "sorted_wrt (<) gy" and "2 \<le> length gy"
    and "table_for gx gy data"
    and "gx ! 0 \<le> x" and "x \<le> last gx" and "gy ! 0 \<le> y" and "y \<le> last gy"
  shows "interpolate_2d gx gy data x y = bilinear_interp_jit gx gy data x y"
proof -
  have gx: "sorted_grid gx" and gy: "sorted_grid gy"
    using assms by (auto intro: sorted_grid.intro)
  obtain i wx where i: "axis_weight gx x = Inr (int i, wx)" "Suc i < length gx"
    "bilinear_index gx x = Inr (int (Suc i))" "bilinear_weight gx (int (Suc i)) x = Inr wx"
    using sorted_grid.direct_axis [OF gx assms(6,7)] .
  obtain j wy where j: "axis_weight gy y = Inr (int j, wy)" "Suc j < length gy"
    "bilinear_index gy y = Inr (int (Suc j))" "bilinear_weight gy (int (Suc j)) y = Inr wy"
    using sorted_grid.direct_axis [OF gy assms(8,9)] .
  show ?thesis
    using bilinear_interp_lerp [OF assms(5) i(2) j(2) i(3) j(3) i(4) j(4)] i j
    by (simp add: interpolate_2d_def get_interp_weights_jit_def)
qed

theorem two_phase_equals_direct_witness:
  "interpolate_2d [0, 1, 3] [0, 2] (values_of [[1, 2], [3, 4], [5, 9]]) 2 1
     = bilinear_interp_jit [0, 1, 3] [0, 2] (values_of [[1, 2], [3, 4], [5, 9]]) 2 1"
  by (rule two_phase_equals_direct) simp_all

text \<open>
  C13: the two-phase kernel returns for every query, also outside the grid, and its value stays
  between any two bounds of the table: it never extrapolates.
\<close>

theorem interpolation_within_table_bounds:
  assumes "sorted_wrt (<) gx" and "2 \<le> length gx" and "sorted_wrt (<) gy" and "2 \<le> length gy"
    and "table_for gx gy data"
    and "\<And>row v. row \<in> set data \<Longrightarrow> Some v \<in> set row \<Longrightarrow> lo \<le> v \<and> v \<le> hi"
  shows "\<exists>v. interpolate_2d gx gy data x y = Inr v \<and> lo \<le> v \<and> v \<le> hi"
  using assms by (rule interpolation_bounded)

theorem interpolation_within_table_bounds_witness:
  "\<exists>v. interpolate_2d [0, 1, 3] [0, 2] (values_of [[1, 2], [3, 4], [5, 9]]) 77 (- 5) = Inr v \<and> 1 \<le> v \<and> v \<le> 9"
  by (rule interpolation_within_table_bounds) (auto simp: table_for_def values_of_def)

text \<open>
  A query at a grid node returns the stored table entry: interpolation loses nothing of what
  the table was generated with.
\<close>

theorem interpolation_exact_at_nodes:
  assumes "sorted_wrt (<) gx" and "2 \<le> length gx" and "sorted_wrt (<) gy" and "2 \<le> length gy"
    and "table_for gx gy data" and "m < length gx" and "n < length gy"
  shows "interpolate_2d gx gy data (gx ! m) (gy ! n) = Inr (cell data m n)"
proof -
  have gx: "sorted_grid gx" and gy: "sorted_grid gy"
    using assms by (auto intro: sorted_grid.intro)
  obtain i j wx wy where v: "interpolate_2d gx gy data (gx ! m) (gy ! n) =
       Inr ((1 - wx) * ((1 - wy) * cell data i j + wy * cell data i (Suc j))
            + wx * ((1 - wy) * cell data (Suc i) j + wy * cell data (Suc i) (Suc j)))"
    and a: "axis_weight gx (gx ! m) = Inr (int i, wx)" "axis_weight gy (gy ! n) = Inr (int j, wy)"
    using interpolate_2d_value [OF gx gy assms(5)] by metis
  from a(1) have "i = m \<and> wx = 0 \<or> Suc i = m \<and> wx = 1"
    using sorted_grid.axis_weight_node [OF gx assms(6)] by (auto split: if_splits)
  moreover from a(2) have "j = n \<and> wy = 0 \<or> Suc j = n \<and> wy = 1"
    using sorted_grid.axis_weight_node [OF gy assms(7)] by (auto split: if_splits)
  ultimately show ?thesis using v by auto
qed

theorem interpolation_exact_at_nodes_witness:
  "interpolate_2d [0, 1, 3] [0, 2] (values_of [[1, 2], [3, 4], [5, 9]]) ([0, 1, 3] ! 2) ([0, 2] ! 1)
     = Inr (cell (values_of [[1, 2], [3, 4], [5, 9]]) 2 1)"
  by (rule interpolation_exact_at_nodes) simp_all

text \<open>
  Beyond the grid the two kernels part: although its comment says it clamps to the bounds, the
  direct kernel extrapolates the edge cell linearly, while the two-phase kernel clamps.
\<close>

theorem direct_kernel_extrapolates:
  "bilinear_interp_jit [0, 1] [0, 1] (values_of [[0, 0], [1, 1]]) x 0 = Inr x
   \<and> interpolate_2d [0, 1] [0, 1] (values_of [[0, 0], [1, 1]]) x 0 = Inr (clamp 0 1 x)"
proof -
  have ix: "bilinear_index [0, 1] x = Inr 1" for x
    by (simp add: bilinear_index_def aget_def py_index_def searchsorted_def Let_def)
  have wx: "bilinear_weight [0, 1] 1 x = Inr x" for x
    by (simp add: bilinear_weight_def aget_def py_index_def Let_def)
  have "bilinear_interp_jit [0, 1] [0, 1] (values_of [[0, 0], [1, 1]]) x 0 = Inr x"
    by (simp add: bilinear_interp_jit_def ix wx cell_at_def values_of_def aget2_def aget_def py_index_def)
  moreover have "interpolate_2d [0, 1] [0, 1] (values_of [[0, 0], [1, 1]]) x 0 = Inr (clamp 0 1 x)"
  proof -
    have "axis_weight [0, 1] x = Inr (0, clamp 0 1 x)" for x
      by (simp add: axis_weight_def aget_def py_index_def searchsorted_def Let_def clamp_def fdiv_def)
    then show ?thesis
      by (simp add: interpolate_2d_def get_interp_weights_jit_def interp_from_weights_jit_def
          cell_at_def values_of_def aget2_def aget_def py_index_def algebra_simps)
  qed
  ultimately show ?thesis ..
qed

text \<open>
  A table whose columns increase along the first axis (density in pressure, say) is
  interpolated monotonically along it, which is what inverting it by bisection needs.
\<close>

theorem interpolation_monotone:
  assumes "sorted_wrt (<) gx" and "2 \<le> length gx" and "sorted_wrt (<) gy" and "2 \<le> length gy"
    and "table_for gx gy data"
    and "\<And>r c. Suc r < length gx \<Longrightarrow> c < length gy \<Longrightarrow> cell data r c \<le> cell data (Suc r) c"
    and "x1 \<le> x2"
    and "interpolate_2d gx gy data x1 y = Inr v1" and "interpolate_2d gx gy data x2 y = Inr v2"
  shows "v1 \<le> v2"
proof -
  have gx: "sorted_grid gx" and gy: "sorted_grid gy"
    using assms by (auto intro: sorted_grid.intro)
  obtain j wy where j: "axis_weight gy y = Inr (int j, wy)" "Suc j < length gy" "0 \<le> wy" "wy \<le> 1"
    using sorted_grid.axis_weight_law [OF gy] by metis
  let ?f = "\<lambda>r. (1 - wy) * cell data r j + wy * cell data r (Suc j)"
  have val: "\<exists>i w. axis_weight gx x = Inr (int i, w) \<and>
      interpolate_2d gx gy data x y = Inr ((1 - w) * ?f i + w * ?f (Suc i))" for x
  proof -
    obtain i k wx w where v: "interpolate_2d gx gy data x y =
       Inr ((1 - wx) * ((1 - w) * cell data i k + w * cell data i (Suc k))
            + wx * ((1 - w) * cell data (Suc i) k + w * cell data (Suc i) (Suc k)))"
      and i: "axis_weight gx x = Inr (int i, wx)" and k: "axis_weight gy y = Inr (int k, w)"
      by (rule interpolate_2d_value [OF gx gy assms(5), of x y])
    from k j(1) have "k = j" "w = wy" by simp_all
    with v i show ?thesis by auto
  qed
  obtain i1 w1 where 1: "axis_weight gx x1 = Inr (int i1, w1)" "v1 = (1 - w1) * ?f i1 + w1 * ?f (Suc i1)"
    using val [of x1] assms(8) by auto
  obtain i2 w2 where 2: "axis_weight gx x2 = Inr (int i2, w2)" "v2 = (1 - w2) * ?f i2 + w2 * ?f (Suc i2)"
    using val [of x2] assms(9) by auto
  show ?thesis
    unfolding 1(2) 2(2)
  proof (rule sorted_grid.axis_lerp_mono [OF gx _ assms(7) 1(1) 2(1)])
    fix a assume "Suc a < length gx"
    then show "?f a \<le> ?f (Suc a)"
      using assms(6) [of a j] assms(6) [of a "Suc j"] j by (intro add_mono mult_left_mono) auto
  qed
qed

theorem interpolation_monotone_witness:
  "interpolate_2d [0, 1, 3] [0, 2] (values_of [[1, 2], [3, 4], [5, 9]]) (1/2) 0 = Inr 2
   \<and> interpolate_2d [0, 1, 3] [0, 2] (values_of [[1, 2], [3, 4], [5, 9]]) 1 0 = Inr 3 \<and> (2::real) \<le> 3"
proof (intro conjI)
  show 1: "interpolate_2d [0, 1, 3] [0, 2] (values_of [[1, 2], [3, 4], [5, 9]]) (1/2) 0 = Inr 2"
    and 2: "interpolate_2d [0, 1, 3] [0, 2] (values_of [[1, 2], [3, 4], [5, 9]]) 1 0 = Inr 3"
    by (simp_all add: interpolate_2d_def get_interp_weights_jit_def axis_weight_def
        interp_from_weights_jit_def cell_at_def values_of_def aget2_def aget_def py_index_def searchsorted_def Let_def fdiv_def)
  show "(2::real) \<le> 3"
  proof (rule interpolation_monotone [OF _ _ _ _ _ _ _ 1 2])
  fix r c :: nat
  assume "Suc r < length [0, 1, 3 :: real]" "c < length [0, 2 :: real]"
  then have "r = 0 \<or> r = 1" "c = 0 \<or> c = 1" by auto
  then show "cell (values_of [[1, 2], [3, 4], [5, 9]]) r c \<le> cell (values_of [[1, 2], [3, 4], [5, 9]]) (Suc r) c"
      by (auto simp: cell_def values_of_def)
  qed simp_all
qed

end
