(* ===== verification/Tanks.thy ===== *)
theory Tanks
  imports Prelude
begin

text \<open>
  The hydrogen tank bank of \<open>_numba_ops_core_python.py\<close>: parallel arrays of states (int32 codes),
  masses, capacities and temperatures, updated in place. An operation takes the arrays and
  returns their new contents; an array shorter than the one the loop ranges over ends in
  \<open>IndexError\<close>.

  The locale \<open>mass_allocator\<close> is the contract both distribution kernels offer to a filling
  sequence: no mass is lost, no tank overflows, what does not fit is handed back.
\<close>

section \<open>States\<close>

definition TANK_STATE_IDLE :: int where "TANK_STATE_IDLE = 0"
definition TANK_STATE_FILLING :: int where "TANK_STATE_FILLING = 1"
definition TANK_STATE_DISCHARGING :: int where "TANK_STATE_DISCHARGING = 2"
definition TANK_STATE_EMPTY :: int where "TANK_STATE_EMPTY = 3"
definition TANK_STATE_FULL :: int where "TANK_STATE_FULL = 4"

lemmas tank_state_defs = TANK_STATE_IDLE_def TANK_STATE_FILLING_def TANK_STATE_DISCHARGING_def
  TANK_STATE_EMPTY_def TANK_STATE_FULL_def

abbreviation accepts :: "int \<Rightarrow> bool" where
  "accepts s \<equiv> s = TANK_STATE_IDLE \<or> s = TANK_STATE_EMPTY"

abbreviation dischargeable :: "int \<Rightarrow> bool" where
  "dischargeable s \<equiv> s = TANK_STATE_IDLE \<or> s = TANK_STATE_FULL"

section \<open>Selection\<close>

fun find_available_from :: "int \<Rightarrow> int list \<Rightarrow> real list \<Rightarrow> real list \<Rightarrow> real \<Rightarrow> int res" where
  "find_available_from i [] masses capacities min_capacity = Inr (- 1)"
| "find_available_from i (s # ss) (m # ms) (c # cs) min_capacity =
     (let available_capacity = c - m in
      if accepts s \<and> available_capacity \<ge> min_capacity then Inr i
      else find_available_from (i + 1) ss ms cs min_capacity)"
| "find_available_from i (s # ss) masses capacities min_capacity = Inl IndexError"

definition find_available_tank :: "int list \<Rightarrow> real list \<Rightarrow> real list \<Rightarrow> real \<Rightarrow> int res" where
  "find_available_tank states masses capacities min_capacity =
     find_available_from 0 states masses capacities min_capacity"

fun find_fullest_from ::
    "int \<Rightarrow> int list \<Rightarrow> real list \<Rightarrow> real \<Rightarrow> real \<Rightarrow> int \<Rightarrow> int res" where
  "find_fullest_from i [] masses min_mass max_mass best_idx = Inr best_idx"
| "find_fullest_from i (s # ss) (m # ms) min_mass max_mass best_idx =
     (if dischargeable s \<and> m \<ge> min_mass \<and> m > max_mass
      then find_fullest_from (i + 1) ss ms min_mass m i
      else find_fullest_from (i + 1) ss ms min_mass max_mass best_idx)"
| "find_fullest_from i (s # ss) [] min_mass max_mass best_idx =
     (if dischargeable s then Inl IndexError
      else find_fullest_from (i + 1) ss [] min_mass max_mass best_idx)"

definition find_fullest_tank :: "int list \<Rightarrow> real list \<Rightarrow> real \<Rightarrow> int res" where
  "find_fullest_tank states masses min_mass = find_fullest_from 0 states masses min_mass (- 1) (- 1)"

fun calculate_total_mass_by_state :: "int list \<Rightarrow> real list \<Rightarrow> int \<Rightarrow> real res" where
  "calculate_total_mass_by_state [] masses target_state = Inr 0"
| "calculate_total_mass_by_state (s # ss) (m # ms) target_state =
     res_bind (calculate_total_mass_by_state ss ms target_state)
       (\<lambda>t. Inr (if s = target_state then m + t else t))"
| "calculate_total_mass_by_state (s # ss) [] target_state =
     (if s = target_state then Inl IndexError else calculate_total_mass_by_state ss [] target_state)"

section \<open>Distribution\<close>

text \<open>
  \<open>distribute_mass_to_tanks\<close>: the loop runs over the masses; its result is the contents of the
  state and mass arrays after it and the undistributed remainder.
\<close>

fun distribute_mass_to_tanks ::
    "real \<Rightarrow> int list \<Rightarrow> real list \<Rightarrow> real list \<Rightarrow> (int list \<times> real list \<times> real) res" where
  "distribute_mass_to_tanks remaining ss [] cs = Inr (ss, [], remaining)"
| "distribute_mass_to_tanks remaining ss (m # ms) cs =
     (if remaining \<le> 0 then Inr (ss, m # ms, remaining)
      else case ss of [] \<Rightarrow> Inl IndexError
      | s # ss' \<Rightarrow>
          if \<not> accepts s
          then res_bind (distribute_mass_to_tanks remaining ss' ms (tl cs))
                 (\<lambda>(ss'', ms'', r). Inr (s # ss'', m # ms'', r))
          else case cs of [] \<Rightarrow> Inl IndexError
          | c # cs' \<Rightarrow>
              let available_capacity = c - m;
                  mass_to_add = min remaining available_capacity;
                  m' = m + mass_to_add;
                  s' = (if m' \<ge> c * 0.99 then TANK_STATE_FULL else s)
              in res_bind (distribute_mass_to_tanks (remaining - mass_to_add) ss' ms cs')
                   (\<lambda>(ss'', ms'', r). Inr (s' # ss'', m' # ms'', r)))"

definition simulate_filling_timestep ::
    "real \<Rightarrow> real \<Rightarrow> int list \<Rightarrow> real list \<Rightarrow> real list \<Rightarrow> (int list \<times> real list \<times> real \<times> real) res" where
  "simulate_filling_timestep production_rate dt tank_states tank_masses tank_capacities =
     (let production = production_rate * dt in
      res_bind (distribute_mass_to_tanks production tank_states tank_masses tank_capacities)
        (\<lambda>(ss, ms, overflow). Inr (ss, ms, production - overflow, overflow)))"

text \<open>
  \<open>distribute_mass_and_energy\<close>: the same walk with the adiabatic mixing temperature; a tank with
  no room is left alone.
\<close>

definition mixed_temperature :: "real \<Rightarrow> real \<Rightarrow> real \<Rightarrow> real \<Rightarrow> real \<Rightarrow> real" where
  "mixed_temperature m_old T_old mass_to_add gamma T_in =
     (if m_old > 0
      then ((m_old * T_old) + (mass_to_add * gamma * T_in)) / (m_old + mass_to_add)
      else let T_new = gamma * T_in in if T_new > 500 then 500 else T_new)"

fun distribute_mass_and_energy ::
    "real \<Rightarrow> real \<Rightarrow> int list \<Rightarrow> real list \<Rightarrow> real list \<Rightarrow> real list \<Rightarrow> real
      \<Rightarrow> (int list \<times> real list \<times> real list \<times> real) res" where
  "distribute_mass_and_energy remaining T_in ss [] ts cs gamma = Inr (ss, [], ts, remaining)"
| "distribute_mass_and_energy remaining T_in ss (m # ms) ts cs gamma =
     (if remaining \<le> 0 then Inr (ss, m # ms, ts, remaining)
      else case ss of [] \<Rightarrow> Inl IndexError
      | s # ss' \<Rightarrow>
          if \<not> accepts s
          then res_bind (distribute_mass_and_energy remaining T_in ss' ms (tl ts) (tl cs) gamma)
                 (\<lambda>(ss'', ms'', ts'', r). Inr (s # ss'', m # ms'', take 1 ts @ ts'', r))
          else case cs of [] \<Rightarrow> Inl IndexError
          | c # cs' \<Rightarrow>
              let available_capacity = c - m;
                  mass_to_add = min remaining available_capacity
              in if mass_to_add > 0
                 then case ts of [] \<Rightarrow> Inl IndexError
                   | t # ts' \<Rightarrow>
                     let m' = m + mass_to_add;
                         t' = mixed_temperature m t mass_to_add gamma T_in;
                         s' = (if m' \<ge> c * 0.99 then TANK_STATE_FULL else s)
                     in res_bind (distribute_mass_and_energy (remaining - mass_to_add) T_in
                                    ss' ms ts' cs' gamma)
                          (\<lambda>(ss'', ms'', ts'', r). Inr (s' # ss'', m' # ms'', t' # ts'', r))
                 else res_bind (distribute_mass_and_energy remaining T_in ss' ms (tl ts) cs' gamma)
                        (\<lambda>(ss'', ms'', ts'', r). Inr (s # ss'', m # ms'', take 1 ts @ ts'', r)))"

section \<open>Pressure and temperature updates\<close>

fun batch_pressure_update ::
    "real list \<Rightarrow> real list \<Rightarrow> real list \<Rightarrow> real \<Rightarrow> real \<Rightarrow> real list res" where
  "batch_pressure_update [] vs ps temperature gas_constant = Inr ps"
| "batch_pressure_update (m # ms) (v # vs) (p # ps) temperature gas_constant =
     res_bind (batch_pressure_update ms vs ps temperature gas_constant)
       (\<lambda>ps'. Inr ((if v > 0 then m / v * gas_constant * temperature else 0) # ps'))"
| "batch_pressure_update (m # ms) vs ps temperature gas_constant = Inl IndexError"

fun batch_pressure_update_vector_T ::
    "real list \<Rightarrow> real list \<Rightarrow> real list \<Rightarrow> real list \<Rightarrow> real \<Rightarrow> real list res" where
  "batch_pressure_update_vector_T [] vs ps ts gas_constant = Inr ps"
| "batch_pressure_update_vector_T (m # ms) (v # vs) (p # ps) (t # ts) gas_constant =
     res_bind (batch_pressure_update_vector_T ms vs ps ts gas_constant)
       (\<lambda>ps'. Inr ((if v > 0 then m / v * gas_constant * t else 0) # ps'))"
| "batch_pressure_update_vector_T (m # ms) (v # vs) (p # ps) [] gas_constant =
     (if v > 0 then Inl IndexError
      else res_bind (batch_pressure_update_vector_T ms vs ps [] gas_constant) (\<lambda>ps'. Inr (0 # ps')))"
| "batch_pressure_update_vector_T (m # ms) vs ps ts gas_constant = Inl IndexError"

text \<open>\<open>apply_heat_loss_batch\<close>: one relaxation step towards ambient per tank.\<close>

definition heat_loss_one :: "real \<Rightarrow> real \<Rightarrow> real \<Rightarrow> real \<Rightarrow> real \<Rightarrow> real \<Rightarrow> real res" where
  "heat_loss_one t m T_amb dt_seconds UA Cv =
     (if m > 1 / 10 ^ 6
      then res_bind (fdiv (m * Cv) UA) (\<lambda>tau.
           if tau < 1 / 10 ^ 9 then Inr T_amb
           else Inr (T_amb + (t - T_amb) * exp (- dt_seconds / tau)))
      else Inr T_amb)"

fun apply_heat_loss_batch ::
    "real list \<Rightarrow> real list \<Rightarrow> real \<Rightarrow> real \<Rightarrow> real \<Rightarrow> real \<Rightarrow> real list res" where
  "apply_heat_loss_batch [] ms T_amb dt_seconds UA Cv = Inr []"
| "apply_heat_loss_batch (t # ts) (m # ms) T_amb dt_seconds UA Cv =
     res_bind (heat_loss_one t m T_amb dt_seconds UA Cv) (\<lambda>t'.
     res_bind (apply_heat_loss_batch ts ms T_amb dt_seconds UA Cv) (\<lambda>ts'. Inr (t' # ts')))"
| "apply_heat_loss_batch (t # ts) [] T_amb dt_seconds UA Cv = Inl IndexError"

section \<open>Facts about distribution\<close>

definition fits :: "real list \<Rightarrow> real list \<Rightarrow> bool" where
  "fits ms cs \<longleftrightarrow> list_all2 (\<lambda>m c. 0 \<le> m \<and> m \<le> c) ms cs"

lemma fits_simps [simp]:
  "fits [] []" "fits (m # ms) (c # cs) \<longleftrightarrow> 0 \<le> m \<and> m \<le> c \<and> fits ms cs"
  "fits (m # ms) [] \<longleftrightarrow> False" "fits [] (c # cs) \<longleftrightarrow> False"
  by (simp_all add: fits_def)

lemma distribute_conserves:
  "distribute_mass_to_tanks r ss ms cs = Inr (ss', ms', r')
   \<Longrightarrow> sum_list ms' + r' = sum_list ms + r \<and> length ms' = length ms \<and> length ss' = length ss"
  by (induction r ss ms cs arbitrary: ss' ms' r' rule: distribute_mass_to_tanks.induct)
    (auto split: if_splits list.splits simp: Let_def)

lemma distribute_total:
  "length ss = length ms \<Longrightarrow> length cs = length ms \<Longrightarrow>
   \<exists>x. distribute_mass_to_tanks r ss ms cs = Inr x"
proof (induction r ss ms cs rule: distribute_mass_to_tanks.induct)
  case (2 r ss m ms cs)
  obtain s ss' c cs' where ss: "ss = s # ss'" and cs: "cs = c # cs'"
    using "2.prems" by (cases ss; cases cs) auto
  show ?case
  proof (cases "r \<le> 0")
    case True
    then show ?thesis by simp
  next
    case r: False
    show ?thesis
    proof (cases "accepts s")
      case False
      obtain x where "distribute_mass_to_tanks r ss' ms cs' = Inr x"
        using "2.IH"(1) [OF r ss False] "2.prems" unfolding ss cs by auto
      with r False show ?thesis unfolding ss cs by (cases x) simp
    next
      case True
      let ?a = "min r (c - m)"
      obtain x where "distribute_mass_to_tanks (r - ?a) ss' ms cs' = Inr x"
        using "2.IH"(2) [OF r ss _ cs refl refl refl refl] True "2.prems" unfolding ss cs by auto
      with r True show ?thesis unfolding ss cs by (cases x) (simp add: Let_def)
    qed
  qed
qed auto

lemma distribute_fits:
  "distribute_mass_to_tanks r ss ms cs = Inr (ss', ms', r') \<Longrightarrow> fits ms cs \<Longrightarrow> 0 \<le> r
   \<Longrightarrow> fits ms' cs \<and> 0 \<le> r' \<and> r' \<le> r \<and> list_all2 (\<le>) ms ms'"
proof (induction r ss ms cs arbitrary: ss' ms' r' rule: distribute_mass_to_tanks.induct)
  case (2 r ss m ms cs)
  obtain c cs' where cs: "cs = c # cs'" using "2.prems"(2) by (cases cs) auto
  show ?case
  proof (cases "r \<le> 0")
    case True
    with "2.prems" show ?thesis by (auto simp: list_all2_conv_all_nth)
  next
    case False
    with "2.prems"(1) obtain s ss1 where ss: "ss = s # ss1" by (cases ss) auto
    show ?thesis
      using "2.IH"(1) [OF False ss] "2.IH"(2) [OF False ss _ cs refl refl refl refl] "2.prems" False
      unfolding ss cs by (fastforce simp: Let_def split: if_splits)
  qed
qed auto

lemma distribute_greedy:
  "distribute_mass_to_tanks r ss ms cs = Inr (ss', ms', r') \<Longrightarrow> 0 < r' \<Longrightarrow> length cs = length ms
   \<Longrightarrow> i < length ms \<Longrightarrow> accepts (ss ! i) \<Longrightarrow> ms' ! i = cs ! i"
proof (induction r ss ms cs arbitrary: ss' ms' r' i rule: distribute_mass_to_tanks.induct)
  case (2 r ss m ms cs)
  have r: "\<not> r \<le> 0" using "2.prems" by auto
  with "2.prems"(1) obtain s ss1 where ss: "ss = s # ss1" by (cases ss) auto
  obtain c cs1 where cs: "cs = c # cs1" using "2.prems"(3) by (cases cs) auto
  show ?case
  proof (cases "accepts s")
    case False
    with "2.prems"(1) r obtain ss2 ms2 where
      rec: "distribute_mass_to_tanks r ss1 ms cs1 = Inr (ss2, ms2, r')" "ms' = m # ms2"
      unfolding ss cs by auto
    obtain k where k: "i = Suc k" using "2.prems"(5) False unfolding ss by (cases i) auto
    have "ms2 ! k = cs1 ! k"
      using "2.IH"(1) [OF r ss False, of ss2 ms2 r' k] rec "2.prems" unfolding ss cs k by simp
    then show ?thesis using rec k cs by simp
  next
    case True
    let ?a = "min r (c - m)"
    from "2.prems"(1) r True obtain ss2 ms2 where
      rec: "distribute_mass_to_tanks (r - ?a) ss1 ms cs1 = Inr (ss2, ms2, r')" "ms' = (m + ?a) # ms2"
      unfolding ss cs by (auto simp: Let_def)
    show ?thesis
    proof (cases i)
      case 0
      have "r' \<le> 0" if "r \<le> c - m"
        using rec(1) that by (cases ms) (auto simp: min_def)
      then have "\<not> r \<le> c - m" using "2.prems"(2) by fastforce
      then show ?thesis using rec 0 cs by simp
    next
      case (Suc k)
      have "ms2 ! k = cs1 ! k"
        using "2.IH"(2) [OF r ss _ cs refl refl refl refl, of ss2 ms2 r' k] True rec "2.prems"
        unfolding ss cs Suc by simp
      then show ?thesis using rec Suc cs by simp
    qed
  qed
qed auto

lemma energy_masses:
  "distribute_mass_and_energy r T_in ss ms ts cs gamma = Inr (ss', ms', ts', r')
   \<Longrightarrow> fits ms cs \<Longrightarrow> 0 \<le> r
   \<Longrightarrow> \<exists>ss1. distribute_mass_to_tanks r ss ms cs = Inr (ss1, ms', r')"
proof (induction r T_in ss ms ts cs gamma arbitrary: ss' ms' ts' r'
    rule: distribute_mass_and_energy.induct)
  case (2 r T_in ss m ms ts cs gamma)
  obtain c cs1 where cs: "cs = c # cs1" using "2.prems"(2) by (cases cs) auto
  show ?case
  proof (cases "r \<le> 0")
    case True
    with "2.prems" show ?thesis by auto
  next
    case r: False
    with "2.prems"(1) obtain s ss1 where ss: "ss = s # ss1" by (cases ss) auto
    show ?thesis
    proof (cases "accepts s")
      case False
      with "2.prems"(1) r obtain ss2 ms2 ts2 where
        rec: "distribute_mass_and_energy r T_in ss1 ms (tl ts) cs1 gamma = Inr (ss2, ms2, ts2, r')"
          "ms' = m # ms2" unfolding ss cs by auto
      have "\<exists>ss1'. distribute_mass_to_tanks r ss1 ms cs1 = Inr (ss1', ms2, r')"
        using "2.IH"(1) [OF r ss False, unfolded cs list.sel, OF rec(1)] "2.prems" cs by simp
      with rec r False show ?thesis unfolding ss cs by auto
    next
      case True
      let ?a = "min r (c - m)"
      show ?thesis
      proof (cases "?a > 0")
        case a: True
        with "2.prems"(1) r True obtain t ts1 where ts: "ts = t # ts1"
          unfolding ss cs by (cases ts) (auto simp: Let_def)
        from "2.prems"(1) r True a obtain ss2 ms2 ts2 where
          rec: "distribute_mass_and_energy (r - ?a) T_in ss1 ms ts1 cs1 gamma = Inr (ss2, ms2, ts2, r')"
            "ms' = (m + ?a) # ms2" unfolding ss cs ts by (auto simp: Let_def)
        have "\<exists>ss1'. distribute_mass_to_tanks (r - ?a) ss1 ms cs1 = Inr (ss1', ms2, r')"
          using "2.IH"(2) [OF r ss _ cs refl refl a ts refl refl refl rec(1)] True "2.prems" r cs
          by simp
        with rec r True show ?thesis unfolding ss cs by (auto simp: Let_def)
      next
        case a: False
        then have c: "c = m" using "2.prems"(2) r cs by (auto simp: min_def split: if_splits)
        from "2.prems"(1) r True a obtain ss2 ms2 ts2 where
          rec: "distribute_mass_and_energy r T_in ss1 ms (tl ts) cs1 gamma = Inr (ss2, ms2, ts2, r')"
            "ms' = m # ms2" unfolding ss cs by (auto simp: Let_def)
        have "\<exists>ss1'. distribute_mass_to_tanks r ss1 ms cs1 = Inr (ss1', ms2, r')"
          using "2.IH"(3) [OF r ss _ cs refl refl a rec(1)] True "2.prems" r cs by simp
        with rec r True show ?thesis unfolding ss cs c by (auto simp: Let_def)
      qed
    qed
  qed
qed auto

text \<open>The energy kernel returns on well-shaped arrays.\<close>

lemma energy_total:
  "length ss = length ms \<Longrightarrow> length cs = length ms \<Longrightarrow> length ts = length ms \<Longrightarrow>
   \<exists>x. distribute_mass_and_energy r T_in ss ms ts cs gamma = Inr x"
proof (induction r T_in ss ms ts cs gamma rule: distribute_mass_and_energy.induct)
  case (2 r T_in ss m ms ts cs gamma)
  obtain s ss1 c cs1 t ts1 where ss: "ss = s # ss1" and cs: "cs = c # cs1" and ts: "ts = t # ts1"
    using "2.prems" by (cases ss; cases cs; cases ts) auto
  show ?case
  proof (cases "r \<le> 0")
    case True
    then show ?thesis by simp
  next
    case r: False
    show ?thesis
    proof (cases "accepts s")
      case False
      obtain x where "distribute_mass_and_energy r T_in ss1 ms ts1 cs1 gamma = Inr x"
        using "2.IH"(1) [OF r ss False] "2.prems" unfolding ss cs ts by auto
      with r False show ?thesis unfolding ss cs ts by (cases x) simp
    next
      case True
      let ?a = "min r (c - m)"
      show ?thesis
      proof (cases "?a > 0")
        case a: True
        obtain x where "distribute_mass_and_energy (r - ?a) T_in ss1 ms ts1 cs1 gamma = Inr x"
          using "2.IH"(2) [OF r ss _ cs refl refl a ts refl refl refl] True "2.prems"
          unfolding ss cs ts by auto
        with r True a show ?thesis unfolding ss cs ts by (cases x) (simp add: Let_def)
      next
        case a: False
        obtain x where "distribute_mass_and_energy r T_in ss1 ms ts1 cs1 gamma = Inr x"
          using "2.IH"(3) [OF r ss _ cs refl refl a] True "2.prems" unfolding ss cs ts by auto
        with r True a show ?thesis unfolding ss cs ts by (cases x) (simp add: Let_def)
      qed
    qed
  qed
qed auto

lemma mixed_temperature_balance:
  "0 < m \<Longrightarrow> 0 < a \<Longrightarrow> (m + a) * mixed_temperature m t a gamma T_in = m * t + a * gamma * T_in"
  by (simp add: mixed_temperature_def)

abbreviation heat :: "real list \<Rightarrow> real list \<Rightarrow> real" where
  "heat ms ts \<equiv> sum_list (map2 (*) ms ts)"

lemma energy_balance:
  "distribute_mass_and_energy r T_in ss ms ts cs gamma = Inr (ss', ms', ts', r')
   \<Longrightarrow> length ts = length ms \<Longrightarrow> (\<And>m. m \<in> set ms \<Longrightarrow> 0 < m)
   \<Longrightarrow> heat ms' ts' = heat ms ts + gamma * T_in * (r - r') \<and> length ts' = length ms'"
proof (induction r T_in ss ms ts cs gamma arbitrary: ss' ms' ts' r'
    rule: distribute_mass_and_energy.induct)
  case (2 r T_in ss m ms ts cs gamma)
  obtain t ts1 where ts: "ts = t # ts1" using "2.prems"(2) by (cases ts) auto
  show ?case
  proof (cases "r \<le> 0")
    case True
    with "2.prems" show ?thesis by auto
  next
    case r: False
    with "2.prems"(1) obtain s ss1 where ss: "ss = s # ss1" by (cases ss) auto
    show ?thesis
    proof (cases "accepts s")
      case False
      with "2.prems"(1) r obtain ss2 ms2 ts2 where
        rec: "distribute_mass_and_energy r T_in ss1 ms ts1 (tl cs) gamma = Inr (ss2, ms2, ts2, r')"
          "ms' = m # ms2" "ts' = t # ts2" unfolding ss ts by auto
      show ?thesis
        using "2.IH"(1) [OF r ss False, unfolded ts list.sel, OF rec(1)] rec "2.prems" ts by simp
    next
      case True
      from "2.prems"(1) r True obtain c cs1 where cs: "cs = c # cs1" unfolding ss by (cases cs) auto
      let ?a = "min r (c - m)"
      show ?thesis
      proof (cases "?a > 0")
        case a: True
        from "2.prems"(1) r True a obtain ss2 ms2 ts2 where
          rec: "distribute_mass_and_energy (r - ?a) T_in ss1 ms ts1 cs1 gamma = Inr (ss2, ms2, ts2, r')"
            "ms' = (m + ?a) # ms2" "ts' = mixed_temperature m t ?a gamma T_in # ts2"
          unfolding ss cs ts by (auto simp: Let_def)
        have "heat ms2 ts2 = heat ms ts1 + gamma * T_in * (r - ?a - r') \<and> length ts2 = length ms2"
          using "2.IH"(2) [OF r ss _ cs refl refl a ts refl refl refl rec(1)] True "2.prems" ts by simp
        moreover have "(m + ?a) * mixed_temperature m t ?a gamma T_in = m * t + ?a * gamma * T_in"
          by (rule mixed_temperature_balance) (use a "2.prems"(3) [of m] in auto)
        moreover have "gamma * T_in * (r - r') = gamma * T_in * (r - ?a - r') + ?a * gamma * T_in"
          by (simp add: algebra_simps)
        ultimately show ?thesis unfolding rec(2,3) ts by simp
      next
        case a: False
        from "2.prems"(1) r True a obtain ss2 ms2 ts2 where
          rec: "distribute_mass_and_energy r T_in ss1 ms ts1 cs1 gamma = Inr (ss2, ms2, ts2, r')"
            "ms' = m # ms2" "ts' = t # ts2" unfolding ss cs ts by (auto simp: Let_def)
        show ?thesis
          using "2.IH"(3) [OF r ss _ cs refl refl a, unfolded ts list.sel, OF _ rec(1)] True rec "2.prems" ts
          by simp
      qed
    qed
  qed
qed auto

section \<open>The allocator contract\<close>

locale mass_allocator =
  fixes alloc :: "real \<Rightarrow> 'b \<Rightarrow> ('b \<times> real) res"
    and stock :: "'b \<Rightarrow> real" and room :: "'b \<Rightarrow> real" and wf :: "'b \<Rightarrow> bool"
  assumes returns: "wf b \<Longrightarrow> 0 \<le> r \<Longrightarrow> \<exists>x. alloc r b = Inr x"
    and keeps: "wf b \<Longrightarrow> 0 \<le> r \<Longrightarrow> alloc r b = Inr (b', rest) \<Longrightarrow> wf b' \<and> room b' = room b"
    and conserves: "wf b \<Longrightarrow> 0 \<le> r \<Longrightarrow> alloc r b = Inr (b', rest) \<Longrightarrow> stock b' + rest = stock b + r"
    and rest_range: "wf b \<Longrightarrow> 0 \<le> r \<Longrightarrow> alloc r b = Inr (b', rest) \<Longrightarrow> 0 \<le> rest \<and> rest \<le> r"
    and bounded: "wf b \<Longrightarrow> 0 \<le> stock b \<and> stock b \<le> room b"

text \<open>A sequence of deliveries; what does not fit is added up.\<close>

fun fill_all :: "(real \<Rightarrow> 'b \<Rightarrow> ('b \<times> real) res) \<Rightarrow> real list \<Rightarrow> 'b \<Rightarrow> ('b \<times> real) res" where
  "fill_all alloc [] b = Inr (b, 0)"
| "fill_all alloc (r # rs) b =
     res_bind (alloc r b) (\<lambda>(b1, o1).
     res_bind (fill_all alloc rs b1) (\<lambda>(b2, o2). Inr (b2, o1 + o2)))"

context mass_allocator
begin

lemma fill_all_law:
  assumes "wf b" and "\<forall>r \<in> set rs. 0 \<le> r"
  shows "\<exists>b' rest. fill_all alloc rs b = Inr (b', rest) \<and> wf b' \<and> room b' = room b
           \<and> stock b' + rest = stock b + sum_list rs
           \<and> 0 \<le> rest \<and> rest \<le> sum_list rs"
  using assms
proof (induction rs arbitrary: b)
  case (Cons r rs)
  then have r: "0 \<le> r" and rs: "\<forall>r \<in> set rs. 0 \<le> r" by auto
  obtain b1 o1 where 1: "alloc r b = Inr (b1, o1)" using returns [OF Cons.prems(1) r] by auto
  have k: "wf b1" "room b1 = room b" "stock b1 + o1 = stock b + r" "0 \<le> o1" "o1 \<le> r"
    using keeps [OF Cons.prems(1) r 1] conserves [OF Cons.prems(1) r 1]
      rest_range [OF Cons.prems(1) r 1] by auto
  obtain b2 o2 where 2: "fill_all alloc rs b1 = Inr (b2, o2)" "wf b2" "room b2 = room b1"
    "stock b2 + o2 = stock b1 + sum_list rs" "0 \<le> o2" "o2 \<le> sum_list rs"
    using Cons.IH [OF k(1) rs] by auto
  show ?case using 1 2 k by auto
qed auto

text \<open>No sequence of deliveries stores more than the bank holds; the excess is handed back.\<close>

lemma fill_all_spill:
  assumes "wf b" and "\<forall>r \<in> set rs. 0 \<le> r" and "fill_all alloc rs b = Inr (b', rest)"
  shows "stock b' \<le> room b" and "stock b + sum_list rs - room b \<le> rest"
  using fill_all_law [OF assms(1,2)] assms(3) bounded [of b'] by auto

end

section \<open>The bank\<close>

record tank_bank =
  tb_states :: "int list"
  tb_masses :: "real list"
  tb_temps :: "real list"
  tb_capacities :: "real list"

definition bank_ok :: "tank_bank \<Rightarrow> bool" where
  "bank_ok b \<longleftrightarrow> fits (tb_masses b) (tb_capacities b)
     \<and> length (tb_states b) = length (tb_masses b) \<and> length (tb_temps b) = length (tb_masses b)"

definition bank_mass :: "tank_bank \<Rightarrow> real" where
  "bank_mass b = sum_list (tb_masses b)"

definition bank_room :: "tank_bank \<Rightarrow> real" where
  "bank_room b = sum_list (tb_capacities b)"

definition alloc_mass :: "real \<Rightarrow> tank_bank \<Rightarrow> (tank_bank \<times> real) res" where
  "alloc_mass r b =
     res_bind (distribute_mass_to_tanks r (tb_states b) (tb_masses b) (tb_capacities b))
       (\<lambda>(ss, ms, rest). Inr (b\<lparr>tb_states := ss, tb_masses := ms\<rparr>, rest))"

definition alloc_energy :: "real \<Rightarrow> real \<Rightarrow> real \<Rightarrow> tank_bank \<Rightarrow> (tank_bank \<times> real) res" where
  "alloc_energy T_in gamma r b =
     res_bind (distribute_mass_and_energy r T_in (tb_states b) (tb_masses b) (tb_temps b)
                 (tb_capacities b) gamma)
       (\<lambda>(ss, ms, ts, rest). Inr (b\<lparr>tb_states := ss, tb_masses := ms, tb_temps := ts\<rparr>, rest))"

lemma fits_length: "fits ms cs \<Longrightarrow> length cs = length ms"
  by (simp add: fits_def list_all2_lengthD)

lemma fits_sums: "fits ms cs \<Longrightarrow> 0 \<le> sum_list ms \<and> sum_list ms \<le> sum_list cs"
proof (induction ms arbitrary: cs)
  case Nil
  then show ?case by (cases cs) auto
next
  case (Cons m ms)
  from Cons.prems obtain c cs1 where "cs = c # cs1" by (cases cs) auto
  with Cons show ?case by fastforce
qed

lemma bank_bounded: "bank_ok b \<Longrightarrow> 0 \<le> bank_mass b \<and> bank_mass b \<le> bank_room b"
  using fits_sums [of "tb_masses b" "tb_capacities b"]
  by (simp add: bank_ok_def bank_mass_def bank_room_def)

lemma energy_lengths:
  "distribute_mass_and_energy r T_in ss ms ts cs gamma = Inr (ss', ms', ts', r')
   \<Longrightarrow> length ts = length ms \<Longrightarrow> length ss' = length ss \<and> length ts' = length ts"
proof (induction r T_in ss ms ts cs gamma arbitrary: ss' ms' ts' r'
    rule: distribute_mass_and_energy.induct)
  case (2 r T_in ss m ms ts cs gamma)
  obtain t ts1 where ts: "ts = t # ts1" using "2.prems"(2) by (cases ts) auto
  show ?case
  proof (cases "r \<le> 0")
    case True
    with "2.prems" show ?thesis by auto
  next
    case r: False
    with "2.prems"(1) obtain s ss1 where ss: "ss = s # ss1" by (cases ss) auto
    show ?thesis
    proof (cases "accepts s")
      case False
      with "2.prems"(1) r obtain ss2 ms2 ts2 where
        rec: "distribute_mass_and_energy r T_in ss1 ms ts1 (tl cs) gamma = Inr (ss2, ms2, ts2, r')"
          "ss' = s # ss2" "ts' = t # ts2" unfolding ss ts by auto
      show ?thesis
        using "2.IH"(1) [OF r ss False, unfolded ts list.sel, OF rec(1)] rec "2.prems" ts ss by simp
    next
      case True
      from "2.prems"(1) r True obtain c cs1 where cs: "cs = c # cs1" unfolding ss by (cases cs) auto
      let ?a = "min r (c - m)"
      show ?thesis
      proof (cases "?a > 0")
        case a: True
        from "2.prems"(1) r True a obtain s2 ss2 ms2 t2 ts2 where
          rec: "distribute_mass_and_energy (r - ?a) T_in ss1 ms ts1 cs1 gamma = Inr (ss2, ms2, ts2, r')"
            "ss' = s2 # ss2" "ts' = t2 # ts2"
          unfolding ss cs ts by (auto simp: Let_def)
        show ?thesis
          using "2.IH"(2) [OF r ss _ cs refl refl a ts refl refl refl rec(1)] True rec "2.prems" ts ss
          by simp
      next
        case a: False
        from "2.prems"(1) r True a obtain ss2 ms2 ts2 where
          rec: "distribute_mass_and_energy r T_in ss1 ms ts1 cs1 gamma = Inr (ss2, ms2, ts2, r')"
            "ss' = s # ss2" "ts' = t # ts2" unfolding ss cs ts by (auto simp: Let_def)
        show ?thesis
          using "2.IH"(3) [OF r ss _ cs refl refl a, unfolded ts list.sel, OF _ rec(1)] True rec "2.prems" ts ss
          by simp
      qed
    qed
  qed
qed auto

interpretation mass_bank: mass_allocator alloc_mass bank_mass bank_room bank_ok
proof
  fix b b' r rest
  assume ok: "bank_ok b" and r: "0 \<le> (r::real)"
  show "\<exists>x. alloc_mass r b = Inr x"
    using distribute_total [of "tb_states b" "tb_masses b" "tb_capacities b" r] ok
    by (auto simp: alloc_mass_def bank_ok_def fits_length)
  assume "alloc_mass r b = Inr (b', rest)"
  then obtain ss ms where d: "distribute_mass_to_tanks r (tb_states b) (tb_masses b)
      (tb_capacities b) = Inr (ss, ms, rest)" and b': "b' = b\<lparr>tb_states := ss, tb_masses := ms\<rparr>"
    by (auto simp: alloc_mass_def)
  note facts = distribute_conserves [OF d] distribute_fits [OF d _ r]
  show "bank_ok b' \<and> bank_room b' = bank_room b"
    using facts ok by (auto simp: bank_ok_def bank_room_def b')
  show "bank_mass b' + rest = bank_mass b + r"
    using facts by (simp add: bank_mass_def b')
  show "0 \<le> rest \<and> rest \<le> r"
    using facts ok by (simp add: bank_ok_def)
qed (rule bank_bounded)

interpretation energy_bank: mass_allocator "alloc_energy T_in gamma" bank_mass bank_room bank_ok
  for T_in gamma :: real
proof
  fix b b' r rest
  assume ok: "bank_ok b" and r: "0 \<le> (r::real)"
  show "\<exists>x. alloc_energy T_in gamma r b = Inr x"
    using energy_total [of "tb_states b" "tb_masses b" "tb_capacities b" "tb_temps b" r T_in gamma] ok
    by (auto simp: alloc_energy_def bank_ok_def fits_length)
  assume "alloc_energy T_in gamma r b = Inr (b', rest)"
  then obtain ss ms ts where d: "distribute_mass_and_energy r T_in (tb_states b) (tb_masses b)
      (tb_temps b) (tb_capacities b) gamma = Inr (ss, ms, ts, rest)"
    and b': "b' = b\<lparr>tb_states := ss, tb_masses := ms, tb_temps := ts\<rparr>"
    by (auto simp: alloc_energy_def)
  from energy_masses [OF d _ r] ok obtain ss1 where
    m: "distribute_mass_to_tanks r (tb_states b) (tb_masses b) (tb_capacities b) = Inr (ss1, ms, rest)"
    by (auto simp: bank_ok_def)
  note facts = distribute_conserves [OF m] distribute_fits [OF m _ r] energy_lengths [OF d]
  show "bank_ok b' \<and> bank_room b' = bank_room b"
    using facts ok by (auto simp: bank_ok_def bank_room_def b')
  show "bank_mass b' + rest = bank_mass b + r"
    using facts by (simp add: bank_mass_def b')
  show "0 \<le> rest \<and> rest \<le> r"
    using facts ok by (simp add: bank_ok_def)
qed (rule bank_bounded)

section \<open>Properties\<close>

definition can_take :: "int list \<Rightarrow> real list \<Rightarrow> real list \<Rightarrow> real \<Rightarrow> nat \<Rightarrow> bool" where
  "can_take states masses capacities need k \<longleftrightarrow>
     accepts (states ! k) \<and> capacities ! k - masses ! k \<ge> need"

definition can_give :: "int list \<Rightarrow> real list \<Rightarrow> real \<Rightarrow> nat \<Rightarrow> bool" where
  "can_give states masses min_mass k \<longleftrightarrow> dischargeable (states ! k) \<and> masses ! k \<ge> min_mass"

lemma can_take_Cons [simp]:
  "can_take (s # ss) (m # ms) (c # cs) need 0 \<longleftrightarrow> accepts s \<and> c - m \<ge> need"
  "can_take (s # ss) (m # ms) (c # cs) need (Suc k) \<longleftrightarrow> can_take ss ms cs need k"
  by (auto simp: can_take_def)

lemma can_give_Cons [simp]:
  "can_give (s # ss) (m # ms) low 0 \<longleftrightarrow> dischargeable s \<and> m \<ge> low"
  "can_give (s # ss) (m # ms) low (Suc k) \<longleftrightarrow> can_give ss ms low k"
  by (auto simp: can_give_def)

text \<open>The first index below n with a property, and the first index of a maximum, from an offset.\<close>

definition first_index :: "(nat \<Rightarrow> bool) \<Rightarrow> nat \<Rightarrow> int \<Rightarrow> int \<Rightarrow> bool" where
  "first_index P n i r \<longleftrightarrow>
     r = - 1 \<and> (\<forall>k < n. \<not> P k) \<or> (\<exists>m < n. r = i + int m \<and> P m \<and> (\<forall>k < m. \<not> P k))"

definition argmax_index ::
    "(nat \<Rightarrow> bool) \<Rightarrow> (nat \<Rightarrow> real) \<Rightarrow> nat \<Rightarrow> int \<Rightarrow> real \<Rightarrow> int \<Rightarrow> int \<Rightarrow> bool" where
  "argmax_index P v n i low best r \<longleftrightarrow>
     r = best \<and> (\<forall>k < n. P k \<longrightarrow> v k \<le> low)
     \<or> (\<exists>m < n. r = i + int m \<and> P m \<and> low < v m
          \<and> (\<forall>k < n. P k \<longrightarrow> v k \<le> v m) \<and> (\<forall>k < m. P k \<longrightarrow> v k < v m))"

lemma first_index_here: "P 0 \<Longrightarrow> first_index P (Suc n) i i"
  by (auto simp: first_index_def)

lemma first_index_later:
  assumes "first_index (\<lambda>k. P (Suc k)) n (i + 1) r" and "\<not> P 0"
  shows "first_index P (Suc n) i r"
  using assms(1) unfolding first_index_def
proof (elim disjE exE conjE)
  fix m assume "m < n" "r = i + 1 + int m" "P (Suc m)" "\<forall>k<m. \<not> P (Suc k)"
  with assms(2) have "Suc m < Suc n \<and> r = i + int (Suc m) \<and> P (Suc m) \<and> (\<forall>k < Suc m. \<not> P k)"
    by (simp add: All_less_Suc2)
  then show "r = - 1 \<and> (\<forall>k < Suc n. \<not> P k)
      \<or> (\<exists>m < Suc n. r = i + int m \<and> P m \<and> (\<forall>k < m. \<not> P k))"
    by blast
qed (use assms(2) in \<open>simp add: All_less_Suc2\<close>)

lemma argmax_index_skip:
  assumes "argmax_index (\<lambda>k. P (Suc k)) (\<lambda>k. v (Suc k)) n (i + 1) low best r"
    and "\<not> (P 0 \<and> low < v 0)"
  shows "argmax_index P v (Suc n) i low best r"
  using assms(1) unfolding argmax_index_def
proof (elim disjE exE conjE)
  fix m assume "m < n" "r = i + 1 + int m" "P (Suc m)" "low < v (Suc m)"
    "\<forall>k<n. P (Suc k) \<longrightarrow> v (Suc k) \<le> v (Suc m)" "\<forall>k<m. P (Suc k) \<longrightarrow> v (Suc k) < v (Suc m)"
  with assms(2) have "Suc m < Suc n \<and> r = i + int (Suc m) \<and> P (Suc m) \<and> low < v (Suc m)
      \<and> (\<forall>k < Suc n. P k \<longrightarrow> v k \<le> v (Suc m)) \<and> (\<forall>k < Suc m. P k \<longrightarrow> v k < v (Suc m))"
    by (simp add: All_less_Suc2) linarith
  then show "r = best \<and> (\<forall>k < Suc n. P k \<longrightarrow> v k \<le> low)
     \<or> (\<exists>m < Suc n. r = i + int m \<and> P m \<and> low < v m
          \<and> (\<forall>k < Suc n. P k \<longrightarrow> v k \<le> v m) \<and> (\<forall>k < m. P k \<longrightarrow> v k < v m))"
    by blast
qed (use assms(2) in \<open>simp add: All_less_Suc2 not_less\<close>)

lemma argmax_index_take:
  assumes "argmax_index (\<lambda>k. P (Suc k)) (\<lambda>k. v (Suc k)) n (i + 1) (v 0) i r"
    and "P 0" and "low < v 0"
  shows "argmax_index P v (Suc n) i low best r"
  using assms(1) unfolding argmax_index_def
proof (elim disjE exE conjE)
  assume "r = i" "\<forall>k<n. P (Suc k) \<longrightarrow> v (Suc k) \<le> v 0"
  with assms(2,3) have "0 < Suc n \<and> r = i + int 0 \<and> P 0 \<and> low < v 0
      \<and> (\<forall>k < Suc n. P k \<longrightarrow> v k \<le> v 0) \<and> (\<forall>k < 0. P k \<longrightarrow> v k < v 0)"
    by (simp add: All_less_Suc2)
  then show "r = best \<and> (\<forall>k < Suc n. P k \<longrightarrow> v k \<le> low)
     \<or> (\<exists>m < Suc n. r = i + int m \<and> P m \<and> low < v m
          \<and> (\<forall>k < Suc n. P k \<longrightarrow> v k \<le> v m) \<and> (\<forall>k < m. P k \<longrightarrow> v k < v m))"
    by blast
next
  fix m assume "m < n" "r = i + 1 + int m" "P (Suc m)" "v 0 < v (Suc m)"
    "\<forall>k<n. P (Suc k) \<longrightarrow> v (Suc k) \<le> v (Suc m)" "\<forall>k<m. P (Suc k) \<longrightarrow> v (Suc k) < v (Suc m)"
  with assms(3) have "Suc m < Suc n \<and> r = i + int (Suc m) \<and> P (Suc m) \<and> low < v (Suc m)
      \<and> (\<forall>k < Suc n. P k \<longrightarrow> v k \<le> v (Suc m)) \<and> (\<forall>k < Suc m. P k \<longrightarrow> v k < v (Suc m))"
    by (simp add: All_less_Suc2)
  then show "r = best \<and> (\<forall>k < Suc n. P k \<longrightarrow> v k \<le> low)
     \<or> (\<exists>m < Suc n. r = i + int m \<and> P m \<and> low < v m
          \<and> (\<forall>k < Suc n. P k \<longrightarrow> v k \<le> v m) \<and> (\<forall>k < m. P k \<longrightarrow> v k < v m))"
    by blast
qed

lemma find_available_from_spec:
  "length ms = length ss \<Longrightarrow> length cs = length ss \<Longrightarrow>
   \<exists>r. find_available_from i ss ms cs need = Inr r
     \<and> first_index (can_take ss ms cs need) (length ss) i r"
proof (induction i ss ms cs need rule: find_available_from.induct)
  case (2 i s ss m ms c cs need)
  show ?case
  proof (cases "accepts s \<and> c - m \<ge> need")
    case True
    then show ?thesis by (simp add: Let_def first_index_here)
  next
    case False
    then obtain r where "find_available_from (i + 1) ss ms cs need = Inr r"
      and "first_index (can_take ss ms cs need) (length ss) (i + 1) r"
      using "2.IH" [OF refl] "2.prems" by auto
    moreover from this(2) False have
      "first_index (can_take (s # ss) (m # ms) (c # cs) need) (Suc (length ss)) i r"
      by (intro first_index_later) auto
    ultimately show ?thesis using False by (auto simp: Let_def)
  qed
qed (auto simp: first_index_def)

lemma find_fullest_from_spec:
  "length ms = length ss \<Longrightarrow>
   \<exists>r. find_fullest_from i ss ms low hi best = Inr r
     \<and> argmax_index (can_give ss ms low) ((!) ms) (length ss) i hi best r"
proof (induction i ss ms low hi best rule: find_fullest_from.induct)
  case (2 i s ss m ms low hi best)
  show ?case
  proof (cases "dischargeable s \<and> m \<ge> low \<and> m > hi")
    case True
    then obtain r where "find_fullest_from (i + 1) ss ms low m i = Inr r"
      and "argmax_index (can_give ss ms low) ((!) ms) (length ss) (i + 1) m i r"
      using "2.IH"(1) "2.prems" by auto
    with True show ?thesis by (simp add: argmax_index_take)
  next
    case False
    then obtain r where "find_fullest_from (i + 1) ss ms low hi best = Inr r"
      and "argmax_index (can_give ss ms low) ((!) ms) (length ss) (i + 1) hi best r"
      using "2.IH"(2) "2.prems" by auto
    with False show ?thesis by (auto simp: argmax_index_skip)
  qed
qed (auto simp: argmax_index_def)

text \<open>
  Tank selection for filling is first-fit: on arrays of one length it returns the lowest index
  whose tank accepts gas and has the asked-for room, and -1 exactly when there is none.
\<close>

theorem find_available_tank_first_fit:
  assumes "length masses = length states" and "length capacities = length states"
  shows "\<exists>i. find_available_tank states masses capacities need = Inr i
    \<and> (i = - 1 \<and> (\<forall>k < length states. \<not> can_take states masses capacities need k)
       \<or> (\<exists>n < length states. i = int n \<and> can_take states masses capacities need n
            \<and> (\<forall>k < n. \<not> can_take states masses capacities need k)))"
  using find_available_from_spec [OF assms, of 0 need]
  by (simp add: find_available_tank_def first_index_def)

theorem find_available_tank_first_fit_witness:
  "\<exists>i. find_available_tank [4, 0, 3] [10, 2, 0] [10, 10, 10] 5 = Inr i
    \<and> (i = - 1 \<and> (\<forall>k < length [4, 0, 3 :: int]. \<not> can_take [4, 0, 3] [10, 2, 0] [10, 10, 10] 5 k)
       \<or> (\<exists>n < length [4, 0, 3 :: int]. i = int n \<and> can_take [4, 0, 3] [10, 2, 0] [10, 10, 10] 5 n
            \<and> (\<forall>k < n. \<not> can_take [4, 0, 3] [10, 2, 0] [10, 10, 10] 5 k)))"
  by (rule find_available_tank_first_fit) simp_all

text \<open>
  Tank selection for discharge is an argmax with the lowest index among equals: on non-negative
  masses it returns the first of the fullest tanks that are idle or full and above the heel mass,
  and -1 exactly when no tank qualifies.
\<close>

theorem find_fullest_tank_argmax:
  assumes "length masses = length states" and "\<forall>m \<in> set masses. 0 \<le> m"
  shows "\<exists>i. find_fullest_tank states masses low = Inr i
    \<and> (i = - 1 \<and> (\<forall>k < length states. \<not> can_give states masses low k)
       \<or> (\<exists>n < length states. i = int n \<and> can_give states masses low n
            \<and> (\<forall>k < length states. can_give states masses low k \<longrightarrow> masses ! k \<le> masses ! n)
            \<and> (\<forall>k < n. can_give states masses low k \<longrightarrow> masses ! k < masses ! n)))"
proof -
  have "\<not> masses ! k \<le> - 1" if "k < length states" for k
  proof -
    have "0 \<le> masses ! k" using that assms by (metis nth_mem)
    then show ?thesis by simp
  qed
  then have none: "\<not> can_give states masses low k"
    if "k < length states" "can_give states masses low k \<longrightarrow> masses ! k \<le> - 1" for k
    using that by blast
  obtain r where "find_fullest_tank states masses low = Inr r"
    and "argmax_index (can_give states masses low) ((!) masses) (length states) 0 (- 1) (- 1) r"
    using find_fullest_from_spec [OF assms(1), of 0 low "- 1" "- 1"]
    by (auto simp: find_fullest_tank_def)
  then show ?thesis
    unfolding argmax_index_def using none by (intro exI [of _ r] conjI) (assumption, elim disjE, blast, simp, blast)
qed

theorem find_fullest_tank_argmax_witness:
  "\<exists>i. find_fullest_tank [4, 0, 3] [7, 9, 20] 1 = Inr i
    \<and> (i = - 1 \<and> (\<forall>k < length [4, 0, 3 :: int]. \<not> can_give [4, 0, 3] [7, 9, 20] 1 k)
       \<or> (\<exists>n < length [4, 0, 3 :: int]. i = int n \<and> can_give [4, 0, 3] [7, 9, 20] 1 n
            \<and> (\<forall>k < length [4, 0, 3 :: int]. can_give [4, 0, 3] [7, 9, 20] 1 k
                 \<longrightarrow> [7, 9, 20] ! k \<le> ([7, 9, 20] ! n :: real))
            \<and> (\<forall>k < n. can_give [4, 0, 3] [7, 9, 20] 1 k \<longrightarrow> [7, 9, 20] ! k < ([7, 9, 20] ! n :: real))))"
  by (rule find_fullest_tank_argmax) simp_all

text \<open>
  C1: a filling step loses nothing and overfills nothing: for tanks within their capacities and a
  non-negative production, stored plus overflow is the production, the stored mass is what the
  tanks gained, no tank loses mass or exceeds its capacity, and gas is turned away only when every
  tank that accepts gas has been filled to its capacity.
\<close>

theorem simulate_filling_timestep_safe:
  assumes "fits masses capacities" and "length states = length masses" and "0 \<le> rate * dt"
  shows "\<exists>states' masses' stored overflow.
    simulate_filling_timestep rate dt states masses capacities = Inr (states', masses', stored, overflow)
    \<and> stored + overflow = rate * dt \<and> sum_list masses' = sum_list masses + stored
    \<and> 0 \<le> stored \<and> 0 \<le> overflow \<and> fits masses' capacities \<and> list_all2 (\<le>) masses masses'
    \<and> (0 < overflow \<longrightarrow> (\<forall>i < length masses. accepts (states ! i) \<longrightarrow> masses' ! i = capacities ! i))"
proof -
  obtain ss ms rest where
    d: "distribute_mass_to_tanks (rate * dt) states masses capacities = Inr (ss, ms, rest)"
    using distribute_total [of states masses capacities "rate * dt"] assms
    by (auto simp: fits_length)
  show ?thesis
    using distribute_conserves [OF d] distribute_fits [OF d assms(1,3)]
      distribute_greedy [OF d _ fits_length [OF assms(1)]] d
    by (auto simp: simulate_filling_timestep_def Let_def)
qed

theorem simulate_filling_timestep_safe_witness:
  "\<exists>states' masses' stored overflow.
    simulate_filling_timestep 30 (1/2) [0, 4, 3] [1, 10, 0] [8, 10, 6] = Inr (states', masses', stored, overflow)
    \<and> stored + overflow = 30 * (1/2) \<and> sum_list masses' = sum_list [1, 10, 0] + stored
    \<and> 0 \<le> stored \<and> 0 \<le> overflow \<and> fits masses' [8, 10, 6] \<and> list_all2 (\<le>) [1, 10, 0] masses'"
proof -
  have "fits [1, 10, 0] [8, 10, 6]" "length [0, 4, 3 :: int] = length [1, 10, 0 :: real]" "0 \<le> 30 * (1/2 :: real)"
    by simp_all
  from simulate_filling_timestep_safe [OF this] show ?thesis by blast
qed

text \<open>
  The adiabatic filling kernel moves the same mass as the plain one and balances energy: on
  tanks that hold gas, the sum of mass times temperature grows by gamma T_in per kilogram stored.
\<close>

theorem distribute_mass_and_energy_balance:
  assumes "fits masses capacities" and "length states = length masses"
    and "length temps = length masses" and "\<And>m. m \<in> set masses \<Longrightarrow> 0 < m" and "0 \<le> offered"
  shows "\<exists>states' masses' temps' rest states1.
    distribute_mass_and_energy offered T_in states masses temps capacities gamma
      = Inr (states', masses', temps', rest)
    \<and> distribute_mass_to_tanks offered states masses capacities = Inr (states1, masses', rest)
    \<and> sum_list (map2 (*) masses' temps')
        = sum_list (map2 (*) masses temps) + gamma * T_in * (sum_list masses' - sum_list masses)"
proof -
  obtain ss ms ts rest where
    d: "distribute_mass_and_energy offered T_in states masses temps capacities gamma = Inr (ss, ms, ts, rest)"
    using energy_total [of states masses capacities temps offered T_in gamma] assms
    by (auto simp: fits_length)
  obtain ss1 where m: "distribute_mass_to_tanks offered states masses capacities = Inr (ss1, ms, rest)"
    using energy_masses [OF d assms(1,5)] by blast
  have "offered - rest = sum_list ms - sum_list masses"
    using distribute_conserves [OF m] by simp
  then show ?thesis
    using energy_balance [OF d assms(3,4)] d m by auto
qed

theorem distribute_mass_and_energy_balance_witness:
  "\<exists>states' masses' temps' rest states1.
    distribute_mass_and_energy 6 300 [0, 3] [1, 2] [290, 310] [5, 9] 1.4
      = Inr (states', masses', temps', rest)
    \<and> distribute_mass_to_tanks 6 [0, 3] [1, 2] [5, 9] = Inr (states1, masses', rest)
    \<and> sum_list (map2 (*) masses' temps')
        = sum_list (map2 (*) [1, 2] [290, 310]) + 1.4 * 300 * (sum_list masses' - sum_list [1, 2])"
  by (rule distribute_mass_and_energy_balance) auto

text \<open>
  Filling the bank again and again, adiabatically or not, never stores more than its capacity:
  the masses handed back add up to exactly what the bank did not gain.
\<close>

theorem filling_sequence_conserves:
  assumes "bank_ok b" and "\<forall>r \<in> set deliveries. 0 \<le> r"
  shows "(\<exists>b' rest. fill_all (alloc_energy T_in gamma) deliveries b = Inr (b', rest) \<and> bank_ok b'
           \<and> bank_mass b' + rest = bank_mass b + sum_list deliveries
           \<and> bank_mass b' \<le> bank_room b \<and> 0 \<le> rest)
    \<and> (\<exists>b' rest. fill_all alloc_mass deliveries b = Inr (b', rest) \<and> bank_ok b'
           \<and> bank_mass b' + rest = bank_mass b + sum_list deliveries
           \<and> bank_mass b' \<le> bank_room b \<and> 0 \<le> rest)"
  using energy_bank.fill_all_law [OF assms] mass_bank.fill_all_law [OF assms] bank_bounded
  by (metis (no_types))

theorem filling_sequence_conserves_witness:
  "\<exists>b' rest. fill_all alloc_mass [5, 7] \<lparr>tb_states = [0, 3], tb_masses = [1, 0],
        tb_temps = [290, 290], tb_capacities = [4, 6]\<rparr> = Inr (b', rest) \<and> bank_ok b'
     \<and> bank_mass b' + rest = bank_mass \<lparr>tb_states = [0, 3], tb_masses = [1, 0],
        tb_temps = [290, 290], tb_capacities = [4, 6]\<rparr> + sum_list [5, 7]
     \<and> bank_mass b' \<le> bank_room \<lparr>tb_states = [0, 3], tb_masses = [1, 0],
        tb_temps = [290, 290], tb_capacities = [4, 6]\<rparr> \<and> 0 \<le> rest"
  by (rule conjunct2 [OF filling_sequence_conserves]) (simp_all add: bank_ok_def)

lemma heat_loss_one_relaxes:
  assumes "0 < UA" and "0 < Cv" and "0 \<le> dt_seconds"
  shows "\<exists>t'. heat_loss_one t m T_amb dt_seconds UA Cv = Inr t'
    \<and> 0 \<le> (t' - T_amb) * (t - T_amb) \<and> \<bar>t' - T_amb\<bar> \<le> \<bar>t - T_amb\<bar>"
proof (cases "m > 1 / 10 ^ 6 \<and> \<not> m * Cv / UA < 1 / 10 ^ 9")
  case True
  let ?tau = "m * Cv / UA"
  have "0 \<le> ?tau" using True by (meson not_le order.trans divide_nonneg_nonneg zero_le_one zero_le_power zero_le_numeral)
  then have "0 \<le> dt_seconds / ?tau"
    using assms(3) by (rule divide_nonneg_nonneg [rotated])
  then have "exp (- dt_seconds / ?tau) \<le> 1" by (simp only: exp_le_one_iff minus_divide_left [symmetric])
  then have e: "\<bar>t - T_amb\<bar> * exp (- dt_seconds / ?tau) \<le> \<bar>t - T_amb\<bar> * 1"
    by (intro mult_left_mono) auto
  have "heat_loss_one t m T_amb dt_seconds UA Cv = Inr (T_amb + (t - T_amb) * exp (- dt_seconds / ?tau))"
    using True assms(1) by (simp add: heat_loss_one_def fdiv_def)
  moreover have "0 \<le> (t - T_amb) * exp (- dt_seconds / ?tau) * (t - T_amb)"
    by (metis exp_ge_zero mult.commute mult.left_commute mult_nonneg_nonneg zero_le_square)
  ultimately show ?thesis using e by (simp add: abs_mult)
next
  case False
  then show ?thesis using assms(1) by (auto simp: heat_loss_one_def fdiv_def)
qed

text \<open>
  A heat-loss step moves every tank's temperature towards ambient and never past it, whatever
  the time step; an empty tank is at ambient at once.
\<close>

theorem apply_heat_loss_batch_relaxes:
  assumes "0 < UA" and "0 < Cv" and "0 \<le> dt_seconds" and "length ts = length ms"
  shows "\<exists>ts'. apply_heat_loss_batch ts ms T_amb dt_seconds UA Cv = Inr ts'
    \<and> list_all2 (\<lambda>t t'. 0 \<le> (t' - T_amb) * (t - T_amb) \<and> \<bar>t' - T_amb\<bar> \<le> \<bar>t - T_amb\<bar>) ts ts'"
  using assms(4)
proof (induction ts arbitrary: ms)
  case (Cons t ts)
  obtain m ms1 where ms: "ms = m # ms1" using Cons.prems by (cases ms) auto
  show ?case
    using heat_loss_one_relaxes [OF assms(1-3), of t m T_amb] Cons.IH [of ms1] Cons.prems ms by auto
qed auto

theorem apply_heat_loss_batch_relaxes_witness:
  "\<exists>ts'. apply_heat_loss_batch [350, 280] [5, 0] 298.15 60 150 10183 = Inr ts'
    \<and> list_all2 (\<lambda>t t'. 0 \<le> (t' - 298.15) * (t - 298.15) \<and> \<bar>t' - 298.15\<bar> \<le> \<bar>t - 298.15\<bar>) [350, 280] ts'"
  by (rule apply_heat_loss_batch_relaxes) simp_all

end
