(* ===== verification/StorageMPC.thy ===== *)
theory StorageMPC
  imports Prelude
begin

text \<open>
  The storage controller \<open>calculate_storage_mpc_factor\<close> of \<open>_numba_ops_core_python.py\<close>: a forward
  simulation of the state of charge over the forecast, which accumulates the potential production
  and the worst violation, and the action factor computed from both.
\<close>

section \<open>The controller\<close>

record mpc_state =
  sim_soc :: real
  max_violation_kg :: real
  cum_potential_production_kg :: real

text \<open>One pass of the loop body.\<close>

definition mpc_step :: "real \<Rightarrow> real \<Rightarrow> real \<Rightarrow> real \<Rightarrow> real \<Rightarrow> mpc_state \<Rightarrow> mpc_state res" where
  "mpc_step total_capacity_kg dt_hours soc_limit_high prd dem st =
     (let step_prod_kg = prd * dt_hours;
          cum = cum_potential_production_kg st + step_prod_kg;
          delta_mass = (prd - dem) * dt_hours
      in res_bind (fdiv delta_mass total_capacity_kg) (\<lambda>delta_soc.
         let soc1 = sim_soc st + delta_soc;
             current_excess_soc = (if soc1 > 1 then soc1 - 1 else 0);
             soc2 = (if soc1 > 1 then 1 else soc1);
             limit_violation_soc = (if soc2 > soc_limit_high then soc2 - soc_limit_high else 0);
             total_violation_soc = limit_violation_soc + current_excess_soc;
             total_violation_kg = total_violation_soc * total_capacity_kg
         in Inr \<lparr>sim_soc = soc2,
                 max_violation_kg = (if total_violation_kg > max_violation_kg st
                                     then total_violation_kg else max_violation_kg st),
                 cum_potential_production_kg = cum\<rparr>))"

definition mpc_init :: "real \<Rightarrow> mpc_state" where
  "mpc_init current_soc = \<lparr>sim_soc = current_soc, max_violation_kg = 0, cum_potential_production_kg = 0\<rparr>"

definition mpc_rollout ::
    "real \<Rightarrow> real \<Rightarrow> real list \<Rightarrow> real list \<Rightarrow> real \<Rightarrow> real \<Rightarrow> int \<Rightarrow> mpc_state res" where
  "mpc_rollout current_soc total_capacity_kg production demand dt_hours soc_limit_high horizon_steps =
     fold_range (nat (min (int (length production)) horizon_steps)) (\<lambda>i st.
         res_bind (aget production (int i)) (\<lambda>prd.
         res_bind (if i < length demand then aget demand (int i) else Inr 0) (\<lambda>dem.
         mpc_step total_capacity_kg dt_hours soc_limit_high prd dem st))) (mpc_init current_soc)"

definition mpc_factor :: "mpc_state \<Rightarrow> real res" where
  "mpc_factor st =
     (if max_violation_kg st \<le> 1 / 10 ^ 6 then Inr 1
      else if cum_potential_production_kg st \<le> 1 / 10 ^ 6 then Inr 0
      else res_bind (fdiv (max_violation_kg st) (cum_potential_production_kg st)) (\<lambda>reduction_ratio.
           let factor = 1 - reduction_ratio
           in Inr (if factor < 0 then 0 else if factor > 1 then 1 else factor)))"

definition calculate_storage_mpc_factor ::
    "real \<Rightarrow> real \<Rightarrow> real list \<Rightarrow> real list \<Rightarrow> real \<Rightarrow> real \<Rightarrow> int \<Rightarrow> real res" where
  "calculate_storage_mpc_factor current_soc total_capacity_kg production demand dt_hours
       soc_limit_high horizon_steps =
     (if total_capacity_kg \<le> 1 / 10 ^ 6 then Inr 0
      else res_bind (mpc_rollout current_soc total_capacity_kg production demand dt_hours
                       soc_limit_high horizon_steps) mpc_factor)"

section \<open>What a rollout maintains\<close>

lemma mpc_step_total:
  assumes "0 < cap"
  shows "\<exists>st'. mpc_step cap dt lmt prd dem st = Inr st' \<and> sim_soc st' \<le> 1
    \<and> (sim_soc st + (prd - dem) * dt / cap \<le> 1 \<longrightarrow> sim_soc st' = sim_soc st + (prd - dem) * dt / cap)
    \<and> max_violation_kg st \<le> max_violation_kg st'
    \<and> (sim_soc st' - lmt) * cap \<le> max_violation_kg st'
    \<and> cum_potential_production_kg st' = cum_potential_production_kg st + prd * dt"
proof -
  define s where "s = sim_soc st + (prd - dem) * dt / cap"
  define s2 where "s2 = (if s > 1 then 1 else s)"
  define v where "v = (if s2 > lmt then s2 - lmt else 0) + (if s > 1 then s - 1 else 0)"
  have "mpc_step cap dt lmt prd dem st = Inr \<lparr>sim_soc = s2,
      max_violation_kg = (if v * cap > max_violation_kg st then v * cap else max_violation_kg st),
      cum_potential_production_kg = cum_potential_production_kg st + prd * dt\<rparr>"
    using assms by (simp add: mpc_step_def fdiv_def Let_def s_def s2_def v_def)
  moreover have "(s2 - lmt) * cap \<le> v * cap"
    by (rule mult_right_mono) (use assms in \<open>auto simp: s2_def v_def\<close>)
  moreover have "s2 \<le> 1" "s \<le> 1 \<longrightarrow> s2 = s" by (simp_all add: s2_def)
  ultimately show ?thesis by (auto simp: s_def [symmetric])
qed

text \<open>The unclamped forecast: the state of charge the plain mass balance gives after n steps.\<close>

definition demand_at :: "real list \<Rightarrow> nat \<Rightarrow> real" where
  "demand_at demand i = (if i < length demand then demand ! i else 0)"

fun forecast_soc :: "real \<Rightarrow> real \<Rightarrow> real list \<Rightarrow> real list \<Rightarrow> real \<Rightarrow> nat \<Rightarrow> real" where
  "forecast_soc soc0 cap production demand dt 0 = soc0"
| "forecast_soc soc0 cap production demand dt (Suc n) =
     forecast_soc soc0 cap production demand dt n + (production ! n - demand_at demand n) * dt / cap"

definition rollout_ok ::
    "real \<Rightarrow> real \<Rightarrow> real \<Rightarrow> real list \<Rightarrow> real list \<Rightarrow> real \<Rightarrow> nat \<Rightarrow> mpc_state \<Rightarrow> bool" where
  "rollout_ok soc0 cap lmt production demand dt n st \<longleftrightarrow>
     0 \<le> max_violation_kg st \<and> (0 < n \<longrightarrow> sim_soc st \<le> 1 \<and> (sim_soc st - lmt) * cap \<le> max_violation_kg st)
     \<and> cum_potential_production_kg st = dt * sum_list (take n production)
     \<and> ((\<forall>k \<le> n. forecast_soc soc0 cap production demand dt k \<le> 1)
          \<longrightarrow> sim_soc st = forecast_soc soc0 cap production demand dt n)"

lemma mpc_rollout_total:
  assumes "0 < cap"
  shows "\<exists>st. mpc_rollout soc0 cap production demand dt lmt horizon = Inr st
    \<and> rollout_ok soc0 cap lmt production demand dt (nat (min (int (length production)) horizon)) st"
proof -
  let ?n = "nat (min (int (length production)) horizon)"
  let ?body = "\<lambda>i st. res_bind (aget production (int i)) (\<lambda>prd.
         res_bind (if i < length demand then aget demand (int i) else Inr 0) (\<lambda>dem.
         mpc_step cap dt lmt prd dem st))"
  have "\<exists>st. fold_from 0 ?n ?body (mpc_init soc0) = Inr st
      \<and> rollout_ok soc0 cap lmt production demand dt (0 + ?n) st"
  proof (rule fold_from_total_inv)
    show "rollout_ok soc0 cap lmt production demand dt 0 (mpc_init soc0)"
      by (simp add: rollout_ok_def mpc_init_def)
    fix j st
    assume j: "j < 0 + ?n" and I: "rollout_ok soc0 cap lmt production demand dt j st"
    then have len: "j < length production" by auto
    let ?d = "(production ! j - demand_at demand j) * dt / cap"
    obtain st' where st': "mpc_step cap dt lmt (production ! j) (demand_at demand j) st = Inr st'"
      and "sim_soc st' \<le> 1" "sim_soc st + ?d \<le> 1 \<longrightarrow> sim_soc st' = sim_soc st + ?d"
      "max_violation_kg st \<le> max_violation_kg st'" "(sim_soc st' - lmt) * cap \<le> max_violation_kg st'"
      "cum_potential_production_kg st' = cum_potential_production_kg st + production ! j * dt"
      using mpc_step_total [OF assms, of dt lmt "production ! j" "demand_at demand j" st] by blast
    then have "rollout_ok soc0 cap lmt production demand dt (Suc j) st'"
      using I len by (auto simp: rollout_ok_def take_Suc_conv_app_nth algebra_simps le_Suc_eq)
    moreover have "?body j st = Inr st'"
      using st' len by (cases "j < length demand") (simp_all add: aget_nat demand_at_def)
    ultimately show "\<exists>s'. ?body j st = Inr s' \<and> rollout_ok soc0 cap lmt production demand dt (Suc j) s'"
      by blast
  qed
  then show ?thesis by (simp add: mpc_rollout_def)
qed

lemma mpc_factor_cases:
  obtains "max_violation_kg st \<le> 1 / 10 ^ 6" "mpc_factor st = Inr 1"
  | "mpc_factor st = Inr 0"
  | f where "mpc_factor st = Inr f" "0 \<le> f" "f \<le> 1"
      "(1 - f) * cum_potential_production_kg st = max_violation_kg st"
proof (cases "max_violation_kg st \<le> 1 / 10 ^ 6")
  case True
  then show ?thesis using that(1) by (simp add: mpc_factor_def)
next
  case v: False
  show ?thesis
  proof (cases "cum_potential_production_kg st \<le> 1 / 10 ^ 6")
    case True
    then show ?thesis using that(2) v by (simp add: mpc_factor_def)
  next
    case c: False
    then have cpos: "0 < cum_potential_production_kg st" and "0 < max_violation_kg st"
      using v by (simp_all add: field_simps)
    then have r: "0 < max_violation_kg st / cum_potential_production_kg st" by simp
    show ?thesis
    proof (cases "1 - max_violation_kg st / cum_potential_production_kg st < 0")
      case True
      then show ?thesis using that(2) v c cpos by (simp add: mpc_factor_def fdiv_def)
    next
      case False
      let ?f = "1 - max_violation_kg st / cum_potential_production_kg st"
      have "mpc_factor st = Inr ?f"
        using v c cpos False less_imp_le [OF r] by (simp add: mpc_factor_def fdiv_def not_less)
      moreover have "(1 - ?f) * cum_potential_production_kg st = max_violation_kg st"
        using cpos by simp
      ultimately show ?thesis using that(3) [of ?f] False r by simp
    qed
  qed
qed

section \<open>Properties\<close>

text \<open>
  The storage controller always returns, and its action factor lies between 0 and 1.
\<close>

theorem mpc_factor_range:
  "\<exists>f. calculate_storage_mpc_factor soc cap production demand dt lmt horizon = Inr f \<and> 0 \<le> f \<and> f \<le> 1"
proof (cases "cap \<le> 1 / 10 ^ 6")
  case True
  then show ?thesis by (simp add: calculate_storage_mpc_factor_def)
next
  case False
  then have "0 < cap" by (simp add: field_simps)
  then obtain st where st: "mpc_rollout soc cap production demand dt lmt horizon = Inr st"
    using mpc_rollout_total by blast
  show ?thesis
    by (rule mpc_factor_cases [of st]) (use st False in \<open>simp_all add: calculate_storage_mpc_factor_def\<close>)
qed

text \<open>
  As long as the forecast itself stays below a full store, cutting the production of the whole
  horizon by the factor brings the state of charge at the end of the horizon down to the limit, or
  as far down as stopping production can (up to the controller's one milligram threshold).
\<close>

theorem mpc_factor_meets_limit:
  assumes "1 / 10 ^ 6 < cap" and "int (length production) \<le> horizon" and "production \<noteq> []"
    and "\<forall>k \<le> length production. forecast_soc soc cap production demand dt k \<le> 1"
    and "calculate_storage_mpc_factor soc cap production demand dt lmt horizon = Inr f"
  shows "forecast_soc soc cap production demand dt (length production)
           - (1 - f) * (dt * sum_list production) / cap
         \<le> max (lmt + 1 / 10 ^ 6 / cap)
             (forecast_soc soc cap production demand dt (length production) - dt * sum_list production / cap)"
proof -
  have cap: "0 < cap" using assms(1) by (simp add: field_simps)
  let ?n = "length production"
  let ?S = "forecast_soc soc cap production demand dt ?n"
  have n: "nat (min (int ?n) horizon) = ?n" using assms(2) by simp
  obtain st where st: "mpc_rollout soc cap production demand dt lmt horizon = Inr st"
    and ok: "rollout_ok soc cap lmt production demand dt ?n st"
    using mpc_rollout_total [OF cap, of soc production demand dt lmt horizon] n by auto
  have f: "mpc_factor st = Inr f" using assms(1,5) st by (simp add: calculate_storage_mpc_factor_def)
  have facts: "cum_potential_production_kg st = dt * sum_list production" "(?S - lmt) * cap \<le> max_violation_kg st"
    using ok assms(3,4) by (auto simp: rollout_ok_def)
  then have S: "?S \<le> lmt + max_violation_kg st / cap"
    using cap by (simp add: field_simps)
  show ?thesis
  proof (rule mpc_factor_cases [of st])
    assume "max_violation_kg st \<le> 1 / 10 ^ 6" "mpc_factor st = Inr 1"
    moreover from this have "max_violation_kg st / cap \<le> 1 / 10 ^ 6 / cap"
      using cap by (intro divide_right_mono) auto
    ultimately show ?thesis using S f by (simp add: max_def)
  next
    assume "mpc_factor st = Inr 0"
    then show ?thesis using f by simp
  next
    fix g assume g: "mpc_factor st = Inr g"
      "(1 - g) * cum_potential_production_kg st = max_violation_kg st"
    have "0 \<le> 1 / 10 ^ 6 / cap" using cap by simp
    moreover from g f facts(1) have
      "(1 - f) * (dt * sum_list production) / cap = max_violation_kg st / cap" by simp
    ultimately have "?S - (1 - f) * (dt * sum_list production) / cap \<le> lmt + 1 / 10 ^ 6 / cap"
      using S by linarith
    then show ?thesis by (rule max.coboundedI1)
  qed
qed

theorem mpc_factor_meets_limit_witness:
  "forecast_soc (1/2) 100 [20, 28] [] 1 (length [20, 28 :: real]) - (1 - 23 / 24) * (1 * sum_list [20, 28]) / 100
   \<le> max (0.96 + 1 / 10 ^ 6 / 100) (forecast_soc (1/2) 100 [20, 28] [] 1 (length [20, 28 :: real]) - 1 * sum_list [20, 28] / 100)"
proof (rule mpc_factor_meets_limit [where horizon = 60])
  show "\<forall>k \<le> length [20, 28 :: real]. forecast_soc (1/2) 100 [20, 28] [] 1 k \<le> 1"
    by (auto simp: le_Suc_eq demand_at_def)
  show "calculate_storage_mpc_factor (1/2) 100 [20, 28] [] 1 0.96 60 = Inr (23 / 24)"
    by (simp add: calculate_storage_mpc_factor_def mpc_rollout_def mpc_factor_def mpc_step_def
        mpc_init_def aget_def py_index_def fdiv_def Let_def eval_nat_numeral)
qed simp_all

text \<open>
  Once the forecast overfills the store the guarantee is gone: the violation is the worst
  single step's, not the accumulated spill, so the factor the documentation says cuts production
  sufficiently to avoid the spill lets the store overflow again.
\<close>

theorem mpc_factor_can_spill:
  "\<exists>f. calculate_storage_mpc_factor (1/2) 100 [50, 50, 50] [] 1 0.98 60 = Inr f
     \<and> 1 < forecast_soc (1/2) 100 (map (\<lambda>p. f * p) [50, 50, 50]) [] 1 3"
  by (intro exI [of _ "49 / 75"])
    (simp add: calculate_storage_mpc_factor_def mpc_rollout_def mpc_factor_def mpc_step_def
        mpc_init_def aget_def py_index_def fdiv_def Let_def eval_nat_numeral demand_at_def)

end
