(* ===== verification/LutManager.thy ===== *)
theory LutManager
  imports Interp "HOL-Library.AList" Iteration
begin

text \<open>
  \<open>LUTManager\<close> of \<open>physical_engine/optimization/lut_manager.py\<close>: its configuration, its tables,
  their generation from the property backend, the two disk caches and the lookups.

  CoolProp is a parameter \<open>CP\<close>: \<open>None\<close> when the import failed, otherwise the function
  \<open>PropsSI (name, key1, value1, key2, value2, fluid)\<close>, which returns a number or raises. The cache
  directory is part of the manager's record: a file is absent, or reading it fails, or it holds
  what was saved. Reading a file that is being written is excluded by the code's lock.
\<close>

section \<open>Configuration and state\<close>

type_synonym props_si = "string \<Rightarrow> string \<Rightarrow> real \<Rightarrow> string \<Rightarrow> real \<Rightarrow> string \<Rightarrow> real res"

record lut_config =
  cfg_pressure_min :: real
  cfg_pressure_max :: real
  cfg_pressure_points :: nat
  cfg_temperature_min :: real
  cfg_temperature_max :: real
  cfg_temperature_points :: nat
  cfg_entropy_min :: real
  cfg_entropy_max :: real
  cfg_entropy_points :: nat
  cfg_properties :: "string list"
  cfg_fluids :: "string list"

definition LUTConfig :: lut_config where
  "LUTConfig = \<lparr>cfg_pressure_min = 5000, cfg_pressure_max = 100000000, cfg_pressure_points = 2000,
     cfg_temperature_min = 273.15, cfg_temperature_max = 1200, cfg_temperature_points = 2000,
     cfg_entropy_min = 0, cfg_entropy_max = 100000, cfg_entropy_points = 500,
     cfg_properties = [''D'', ''H'', ''S'', ''C'', ''Z''],
     cfg_fluids = [''H2'', ''O2'', ''N2'', ''CO2'', ''CH4'', ''H2O'', ''CO'']\<rparr>"

definition MATRIX_FACTORY_LUT_CONFIG :: lut_config where
  "MATRIX_FACTORY_LUT_CONFIG = LUTConfig\<lparr>cfg_pressure_min := 50000, cfg_pressure_max := 45000000,
     cfg_pressure_points := 150, cfg_temperature_min := 250, cfg_temperature_max := 400,
     cfg_temperature_points := 150, cfg_entropy_points := 100,
     cfg_properties := [''D'', ''H'', ''S'', ''C''], cfg_fluids := [''H2'']\<rparr>"

type_synonym fluid_tables = "string \<rightharpoonup> ptable"

text \<open>The contents of \<open>stacked_luts_v2.npz\<close>.\<close>

record stacked_cache =
  sc_H :: "ptable list"
  sc_S :: "ptable list"
  sc_C :: "ptable list"
  sc_D :: "ptable list"
  sc_Z :: "ptable list"
  sc_H_from_PS :: "ptable list"
  sc_pressure_grid :: "real list"
  sc_temperature_grid :: "real list"
  sc_entropy_grid :: "real list"

record saturation_lut =
  sat_T :: "real list"
  sat_P :: "real option list"
  sat_H_liq :: "real option list"
  sat_H_vap :: "real option list"

record sat_props =
  T_sat_K :: real
  h_f_Jkg :: real
  h_g_Jkg :: real

record custom_table =
  ct_data :: "real list list"
  ct_axis0 :: "real list"
  ct_axis1 :: "real list"

record lut_manager =
  lm_config :: lut_config
  lm_initialized :: bool
  lm_luts :: "(string \<times> fluid_tables) list"
  lm_pressure_grid :: "real list"
  lm_temperature_grid :: "real list"
  lm_entropy_grid :: "real list"
  lm_clamp_counter :: int
  lm_saturation :: "saturation_lut option"
  lm_stacked :: "stacked_cache option"
  lm_p_min :: real
  lm_p_max :: real
  lm_t_min :: real
  lm_t_max :: real
  lm_fluid_index :: "string \<rightharpoonup> nat"
  lm_sat_cache :: "(real \<times> sat_props) option"
  lm_custom :: "(string \<rightharpoonup> custom_table) option"
  disk_stacked :: "stacked_cache res option"
  disk_fluids :: "string \<rightharpoonup> (lut_config \<times> fluid_tables) res"
  disk_pem_vcell :: "custom_table res option"

text \<open>\<open>__init__\<close>: nothing is loaded; the bounds are cached from the configuration.\<close>

definition new_lut_manager ::
    "lut_config \<Rightarrow> stacked_cache res option \<Rightarrow> (string \<rightharpoonup> (lut_config \<times> fluid_tables) res)
      \<Rightarrow> custom_table res option \<Rightarrow> lut_manager" where
  "new_lut_manager config stacked files pem_vcell =
     \<lparr>lm_config = config, lm_initialized = False, lm_luts = [],
      lm_pressure_grid = [], lm_temperature_grid = [], lm_entropy_grid = [],
      lm_clamp_counter = 0, lm_saturation = None, lm_stacked = None,
      lm_p_min = cfg_pressure_min config, lm_p_max = cfg_pressure_max config,
      lm_t_min = cfg_temperature_min config, lm_t_max = cfg_temperature_max config,
      lm_fluid_index = map_of (rev (zip (cfg_fluids config) [0..<length (cfg_fluids config)])),
      lm_sat_cache = None, lm_custom = None,
      disk_stacked = stacked, disk_fluids = files, disk_pem_vcell = pem_vcell\<rparr>"

section \<open>Generation\<close>

text \<open>One cell: nan where CoolProp rejects the state, an initialisation error for anything else.\<close>

definition generated_cell :: "real res \<Rightarrow> real option res" where
  "generated_cell r = (case r of
       Inr v \<Rightarrow> Inr (Some v)
     | Inl e \<Rightarrow> if e = ValueError \<or> e = IndexError then Inr None else Inl ComponentInitializationError)"

definition generate_table ::
    "real list \<Rightarrow> real list \<Rightarrow> (real \<Rightarrow> real \<Rightarrow> real res) \<Rightarrow> ptable res" where
  "generate_table xs ys f = map_res (\<lambda>x. map_res (\<lambda>y. generated_cell (f x y)) ys) xs"

fun generate_props ::
    "props_si \<Rightarrow> lut_manager \<Rightarrow> string \<Rightarrow> string list \<Rightarrow> fluid_tables \<Rightarrow> fluid_tables res" where
  "generate_props propsSI m fluid [] lut = Inr lut"
| "generate_props propsSI m fluid (p # ps) lut =
     res_bind (generate_table (lm_pressure_grid m) (lm_temperature_grid m)
         (\<lambda>pressure temperature. propsSI p ''P'' pressure ''T'' temperature fluid))
       (\<lambda>tab. generate_props propsSI m fluid ps (lut(p \<mapsto> tab)))"

definition generate_lut :: "props_si option \<Rightarrow> string \<Rightarrow> lut_manager \<Rightarrow> fluid_tables res" where
  "generate_lut CP fluid m = (case CP of
       None \<Rightarrow> Inl RuntimeError
     | Some propsSI \<Rightarrow>
         res_bind (generate_props propsSI m fluid (cfg_properties (lm_config m)) Map.empty) (\<lambda>lut.
         res_bind (generate_table (lm_pressure_grid m) (lm_entropy_grid m)
             (\<lambda>p s. propsSI ''H'' ''P'' p ''S'' s fluid)) (\<lambda>h_ps.
         Inr (lut(''H_from_PS'' \<mapsto> h_ps)))))"

definition saturation_column :: "props_si \<Rightarrow> string \<Rightarrow> real \<Rightarrow> real \<Rightarrow> real res" where
  "saturation_column propsSI name q T = propsSI name ''T'' T ''Q'' q ''Water''"

text \<open>One temperature: any failure makes all three entries nan.\<close>

definition saturation_row :: "props_si \<Rightarrow> real \<Rightarrow> (real \<times> real \<times> real) option" where
  "saturation_row propsSI T =
     (case res_bind (saturation_column propsSI ''P'' 0 T) (\<lambda>p.
           res_bind (saturation_column propsSI ''H'' 0 T) (\<lambda>hl.
           res_bind (saturation_column propsSI ''H'' 1 T) (\<lambda>hv. Inr (p, hl, hv))))
      of Inl _ \<Rightarrow> None | Inr r \<Rightarrow> Some r)"

definition generate_saturation_lut :: "props_si option \<Rightarrow> (lut_manager, unit) meth" where
  "generate_saturation_lut CP = (case CP of
       None \<Rightarrow> ret ()
     | Some propsSI \<Rightarrow> updates (\<lambda>m.
         let T = linspace 273.15 640 1000;
             rows = map (saturation_row propsSI) T
         in m\<lparr>lm_saturation := Some \<lparr>sat_T = T, sat_P = map (map_option fst) rows,
              sat_H_liq = map (map_option (\<lambda>r. fst (snd r))) rows,
              sat_H_vap = map (map_option (\<lambda>r. snd (snd r))) rows\<rparr>\<rparr>))"

section \<open>Stacking and the disk caches\<close>

definition zeros :: "nat \<Rightarrow> nat \<Rightarrow> ptable" where
  "zeros n k = replicate n (replicate k (Some 0))"

definition zero_stack :: "nat \<Rightarrow> nat \<Rightarrow> nat \<Rightarrow> nat \<Rightarrow> lut_manager \<Rightarrow> stacked_cache" where
  "zero_stack n_fluids n_p n_t n_s m =
     (let z = replicate n_fluids (zeros n_p n_t)
      in \<lparr>sc_H = z, sc_S = z, sc_C = z, sc_D = z, sc_Z = z,
          sc_H_from_PS = replicate n_fluids (zeros n_p n_s),
          sc_pressure_grid = lm_pressure_grid m, sc_temperature_grid = lm_temperature_grid m,
          sc_entropy_grid = lm_entropy_grid m\<rparr>)"

text \<open>\<open>if key in data: stacked[i] = data[key]\<close>; numpy refuses a table of another shape.\<close>

definition stack_key ::
    "nat \<Rightarrow> nat \<Rightarrow> nat \<Rightarrow> fluid_tables \<Rightarrow> string
      \<Rightarrow> ((ptable list \<Rightarrow> ptable list) \<Rightarrow> stacked_cache \<Rightarrow> stacked_cache) \<Rightarrow> (lut_manager, unit) meth" where
  "stack_key i n k data key upd = (case data key of
       None \<Rightarrow> ret ()
     | Some tab \<Rightarrow>
         if length tab = n \<and> (\<forall>row \<in> set tab. length row = k)
         then updates (\<lambda>m. m\<lparr>lm_stacked := map_option (upd (\<lambda>xs. xs[i := tab])) (lm_stacked m)\<rparr>)
         else raise_err ValueError)"

definition stack_fluid :: "nat \<Rightarrow> nat \<Rightarrow> nat \<Rightarrow> nat \<times> string \<Rightarrow> (lut_manager, unit) meth" where
  "stack_fluid n_p n_t n_s entry = (case entry of (i, fluid) \<Rightarrow>
     seq (reads (\<lambda>m. map_of (lm_luts m) fluid)) (\<lambda>found. case found of
       None \<Rightarrow> ret ()
     | Some data \<Rightarrow>
         seq (stack_key i n_p n_t data ''H'' sc_H_update) (\<lambda>_.
         seq (stack_key i n_p n_t data ''S'' sc_S_update) (\<lambda>_.
         seq (stack_key i n_p n_t data ''C'' sc_C_update) (\<lambda>_.
         seq (stack_key i n_p n_t data ''D'' sc_D_update) (\<lambda>_.
         seq (stack_key i n_p n_t data ''Z'' sc_Z_update) (\<lambda>_.
         stack_key i n_p n_s data ''H_from_PS'' sc_H_from_PS_update)))))))"

definition stack_luts :: "(lut_manager, unit) meth" where
  "stack_luts m =
     (if lm_luts m = [] then (Inr (), m)
      else
        let fluids = cfg_fluids (lm_config m); n_p = length (lm_pressure_grid m);
            n_t = length (lm_temperature_grid m); n_s = length (lm_entropy_grid m)
        in seq (updates (\<lambda>m. m\<lparr>lm_stacked := Some (zero_stack (length fluids) n_p n_t n_s m)\<rparr>)) (\<lambda>_.
           for_each (zip [0..<length fluids] fluids) (stack_fluid n_p n_t n_s)) m)"

definition stacked_entry :: "stacked_cache \<Rightarrow> nat \<Rightarrow> fluid_tables res" where
  "stacked_entry sc i =
     res_bind (aget (sc_H sc) (int i)) (\<lambda>h. res_bind (aget (sc_S sc) (int i)) (\<lambda>s.
     res_bind (aget (sc_C sc) (int i)) (\<lambda>c. res_bind (aget (sc_D sc) (int i)) (\<lambda>d.
     res_bind (aget (sc_Z sc) (int i)) (\<lambda>z. res_bind (aget (sc_H_from_PS sc) (int i)) (\<lambda>hps.
     Inr [''H'' \<mapsto> h, ''S'' \<mapsto> s, ''C'' \<mapsto> c, ''D'' \<mapsto> d, ''Z'' \<mapsto> z, ''H_from_PS'' \<mapsto> hps]))))))"

text \<open>
  \<open>_load_stacked_cache\<close>: only the number of grid points is checked; grids and tables are then
  taken from the file.
\<close>

definition load_stacked_cache :: "(lut_manager, bool) meth" where
  "load_stacked_cache m = (case disk_stacked m of
       None \<Rightarrow> (Inl KeyError, m)
     | Some (Inl e) \<Rightarrow> (Inl e, m)
     | Some (Inr sc) \<Rightarrow>
         if length (sc_pressure_grid sc) \<noteq> cfg_pressure_points (lm_config m)
            \<or> length (sc_temperature_grid sc) \<noteq> cfg_temperature_points (lm_config m)
         then (Inr False, m)
         else seq (updates (\<lambda>m. m\<lparr>lm_stacked := Some sc, lm_pressure_grid := sc_pressure_grid sc,
                     lm_temperature_grid := sc_temperature_grid sc,
                     lm_entropy_grid := sc_entropy_grid sc\<rparr>)) (\<lambda>_.
              seq (for_each (zip [0..<length (cfg_fluids (lm_config m))] (cfg_fluids (lm_config m)))
                     (\<lambda>(i, fluid). seq (pure_res (stacked_entry sc i)) (\<lambda>tabs.
                        updates (\<lambda>m. m\<lparr>lm_luts := AList.update fluid tabs (lm_luts m)\<rparr>))))
                (\<lambda>_. ret True)) m)"

definition save_stacked_cache :: "(lut_manager, unit) meth" where
  "save_stacked_cache = updates (\<lambda>m. case lm_stacked m of
       None \<Rightarrow> m
     | Some sc \<Rightarrow> m\<lparr>disk_stacked := Some (Inr (sc\<lparr>sc_pressure_grid := lm_pressure_grid m,
           sc_temperature_grid := lm_temperature_grid m, sc_entropy_grid := lm_entropy_grid m\<rparr>))\<rparr>)"

definition same_ranges :: "lut_config \<Rightarrow> lut_config \<Rightarrow> bool" where
  "same_ranges a b \<longleftrightarrow>
     cfg_pressure_min a = cfg_pressure_min b \<and> cfg_pressure_max a = cfg_pressure_max b
     \<and> cfg_pressure_points a = cfg_pressure_points b
     \<and> cfg_temperature_min a = cfg_temperature_min b \<and> cfg_temperature_max a = cfg_temperature_max b
     \<and> cfg_temperature_points a = cfg_temperature_points b"

text \<open>
  \<open>_load_from_cache\<close>: on a range mismatch the tables are generated afresh, for the fluid that
  \<open>stem.split('_')[1]\<close> names.
\<close>

definition load_from_cache ::
    "props_si option \<Rightarrow> string \<Rightarrow> (lut_config \<times> fluid_tables) res \<Rightarrow> lut_manager \<Rightarrow> fluid_tables res" where
  "load_from_cache CP fluid file m =
     res_bind file (\<lambda>(c_saved, lut).
     if same_ranges c_saved (lm_config m) then Inr lut
     else generate_lut CP (takeWhile (\<lambda>ch. ch \<noteq> CHR ''_'') fluid) m)"

definition save_to_cache :: "string \<Rightarrow> fluid_tables \<Rightarrow> lut_manager \<Rightarrow> lut_manager" where
  "save_to_cache fluid lut m =
     m\<lparr>disk_fluids := (disk_fluids m)(fluid \<mapsto> Inr (lm_config m, lut))\<rparr>"

definition generate_and_save :: "props_si option \<Rightarrow> string \<Rightarrow> (lut_manager, unit) meth" where
  "generate_and_save CP fluid =
     seq (\<lambda>m. (generate_lut CP fluid m, m)) (\<lambda>lut.
     updates (\<lambda>m. save_to_cache fluid lut (m\<lparr>lm_luts := AList.update fluid lut (lm_luts m)\<rparr>)))"

definition load_fluid :: "props_si option \<Rightarrow> string \<Rightarrow> (lut_manager, unit) meth" where
  "load_fluid CP fluid m = (case disk_fluids m fluid of
       None \<Rightarrow> generate_and_save CP fluid m
     | Some file \<Rightarrow> (case load_from_cache CP fluid file m of
           Inr lut \<Rightarrow> (Inr (), m\<lparr>lm_luts := AList.update fluid lut (lm_luts m)\<rparr>)
         | Inl e \<Rightarrow> generate_and_save CP fluid m))"

definition init_grids :: "lut_manager \<Rightarrow> lut_manager" where
  "init_grids m = (let c = lm_config m in
     m\<lparr>lm_initialized := True,
       lm_pressure_grid := geomspace (cfg_pressure_min c) (cfg_pressure_max c) (cfg_pressure_points c),
       lm_temperature_grid := linspace (cfg_temperature_min c) (cfg_temperature_max c) (cfg_temperature_points c),
       lm_entropy_grid := linspace (cfg_entropy_min c) (cfg_entropy_max c) (cfg_entropy_points c)\<rparr>)"

text \<open>The two attempts at the stacked file; \<open>True\<close> when it was loaded.\<close>

definition try_stacked :: "props_si option \<Rightarrow> (lut_manager, bool) meth" where
  "try_stacked CP =
     seq (reads (\<lambda>m. disk_stacked m \<noteq> None)) (\<lambda>ex.
     if \<not> ex then ret False
     else seq load_stacked_cache (\<lambda>loaded.
       if loaded then seq (generate_saturation_lut CP) (\<lambda>_. ret True) else ret False))"

definition slow_path :: "props_si option \<Rightarrow> (lut_manager, unit) meth" where
  "slow_path CP =
     seq (try_stacked CP) (\<lambda>done'.
     if done' then ret ()
     else seq (reads (\<lambda>m. cfg_fluids (lm_config m))) (\<lambda>fluids.
       seq (for_each fluids (load_fluid CP)) (\<lambda>_.
       seq (generate_saturation_lut CP) (\<lambda>_.
       seq stack_luts (\<lambda>_. save_stacked_cache)))))"

definition initialize :: "props_si option \<Rightarrow> (lut_manager, unit) meth" where
  "initialize CP =
     seq (updates init_grids) (\<lambda>_.
     seq (try_except (try_stacked CP) (\<lambda>_. ret False)) (\<lambda>fast.
     if fast then ret () else slow_path CP))"

definition ensure_initialized :: "props_si option \<Rightarrow> (lut_manager, unit) meth" where
  "ensure_initialized CP = seq (reads lm_initialized) (\<lambda>i. if i then ret () else initialize CP)"

section \<open>Lookups\<close>

definition in_bounds :: "lut_manager \<Rightarrow> real \<Rightarrow> real \<Rightarrow> bool" where
  "in_bounds m pressure temperature \<longleftrightarrow>
     lm_p_min m \<le> pressure \<and> pressure \<le> lm_p_max m
     \<and> lm_t_min m \<le> temperature \<and> temperature \<le> lm_t_max m"

definition fallback_coolprop ::
    "props_si option \<Rightarrow> string \<Rightarrow> string \<Rightarrow> real \<Rightarrow> real \<Rightarrow> real res" where
  "fallback_coolprop CP fluid property_type pressure temperature = (case CP of
       None \<Rightarrow> Inl RuntimeError
     | Some propsSI \<Rightarrow> propsSI property_type ''P'' pressure ''T'' temperature fluid)"

text \<open>\<open>lookup\<close> on an initialised manager, and with the lazy initialisation before it.\<close>

definition lookup_ready ::
    "props_si option \<Rightarrow> string \<Rightarrow> string \<Rightarrow> real \<Rightarrow> real \<Rightarrow> lut_manager \<Rightarrow> real res" where
  "lookup_ready CP fluid property_type pressure temperature m =
     (case map_of (lm_luts m) fluid of
        None \<Rightarrow> Inl ValueError
      | Some tables \<Rightarrow> (case tables property_type of
          None \<Rightarrow> Inl ValueError
        | Some lut \<Rightarrow>
            if \<not> in_bounds m pressure temperature
            then fallback_coolprop CP fluid property_type pressure temperature
            else interpolate_2d (lm_pressure_grid m) (lm_temperature_grid m) lut pressure temperature))"

definition lut_lookup ::
    "props_si option \<Rightarrow> string \<Rightarrow> string \<Rightarrow> real \<Rightarrow> real \<Rightarrow> (lut_manager, real) meth" where
  "lut_lookup CP fluid property_type pressure temperature =
     seq (ensure_initialized CP) (\<lambda>_ m. (lookup_ready CP fluid property_type pressure temperature m, m))"

definition get_table :: "lut_manager \<Rightarrow> string \<Rightarrow> string \<Rightarrow> ptable res" where
  "get_table m fluid property_type = (case map_of (lm_luts m) fluid of
       None \<Rightarrow> Inl KeyError
     | Some tables \<Rightarrow> (case tables property_type of None \<Rightarrow> Inl KeyError | Some lut \<Rightarrow> Inr lut))"

definition lookup_batch ::
    "props_si option \<Rightarrow> string \<Rightarrow> string \<Rightarrow> real list \<Rightarrow> real list \<Rightarrow> (lut_manager, real list) meth" where
  "lookup_batch CP fluid property_type pressures temperatures =
     seq (ensure_initialized CP) (\<lambda>_ m.
       (res_bind (get_table m fluid property_type) (\<lambda>lut.
        batch_bilinear_interp_jit (lm_pressure_grid m) (lm_temperature_grid m) lut pressures temperatures), m))"

text \<open>\<open>bind_lookup\<close> captures the tables, grids and bounds at bind time.\<close>

definition bind_lookup ::
    "props_si option \<Rightarrow> string \<Rightarrow> string \<Rightarrow> (lut_manager, real \<Rightarrow> real \<Rightarrow> real res) meth" where
  "bind_lookup CP fluid property_type =
     seq (ensure_initialized CP) (\<lambda>_ m.
       (res_bind (get_table m fluid property_type) (\<lambda>lut. Inr (\<lambda>pressure temperature.
          if \<not> in_bounds m pressure temperature
          then fallback_coolprop CP fluid property_type pressure temperature
          else res_bind (get_interp_weights_jit (lm_pressure_grid m) (lm_temperature_grid m) pressure temperature)
                 (\<lambda>(ix, iy, wx, wy). interp_from_weights_jit lut ix iy wx wy))), m))"

definition lookup_mixture_enthalpy ::
    "props_si option \<Rightarrow> real list \<Rightarrow> real \<Rightarrow> real \<Rightarrow> (lut_manager, real) meth" where
  "lookup_mixture_enthalpy CP mass_fracs_arr P_pa T_k =
     seq (ensure_initialized CP) (\<lambda>_ m.
       let P_clamped = max (lm_p_min m) (min (lm_p_max m) P_pa);
           T_clamped = max (lm_t_min m) (min (lm_t_max m) T_k);
           m1 = (if P_clamped \<noteq> P_pa \<or> T_clamped \<noteq> T_k
                 then m\<lparr>lm_clamp_counter := lm_clamp_counter m + 1\<rparr> else m)
       in (case lm_stacked m1 of
             None \<Rightarrow> Inl TypeError
           | Some sc \<Rightarrow> get_mixture_enthalpy_fast (sc_H sc) (lm_pressure_grid m1) (lm_temperature_grid m1)
                          mass_fracs_arr P_clamped T_clamped, m1))"

definition lookup_isentropic_enthalpy ::
    "props_si option \<Rightarrow> string \<Rightarrow> real \<Rightarrow> real \<Rightarrow> (lut_manager, real) meth" where
  "lookup_isentropic_enthalpy CP fluid pressure entropy =
     seq (ensure_initialized CP) (\<lambda>_ m.
       (case get_table m fluid ''H_from_PS'' of
          Inl _ \<Rightarrow> (case CP of
              None \<Rightarrow> Inl RuntimeError
            | Some propsSI \<Rightarrow> propsSI ''H'' ''P'' pressure ''S'' entropy fluid)
        | Inr lut \<Rightarrow>
            let direct = bilinear_interp_jit (lm_pressure_grid m) (lm_entropy_grid m) lut pressure entropy
            in if entropy < cfg_entropy_min (lm_config m) \<or> entropy > cfg_entropy_max (lm_config m)
               then (case CP of
                   None \<Rightarrow> direct
                 | Some propsSI \<Rightarrow> propsSI ''H'' ''P'' pressure ''S'' entropy fluid)
               else direct, m))"

text \<open>The bisection of \<open>lookup_pressure_from_density\<close>: the loop state is the bracket.\<close>

definition R_H2 :: real where "R_H2 = 4124.2"
definition GAMMA_H2 :: real where "GAMMA_H2 = 1.41"
definition R_UNIVERSAL_J_PER_MOL_K :: real where "R_UNIVERSAL_J_PER_MOL_K = 8.314462618"

definition density_bisect_step ::
    "(real \<Rightarrow> real res) \<Rightarrow> real \<Rightarrow> real \<Rightarrow> nat \<Rightarrow> real \<times> real \<Rightarrow> (real \<times> real, real) ctl res" where
  "density_bisect_step density rho tol_rel i bracket = (case bracket of (p_lo, p_hi) \<Rightarrow>
     let p_mid = 0.5 * (p_lo + p_hi) in
     res_bind (nan_or (density p_mid)) (\<lambda>d_mid.
     if rho = 0 then Inl ZeroDivisionError
     else if holds (\<lambda>d. \<bar>d - rho\<bar> / rho < tol_rel) d_mid then Inr (Return p_mid)
     else if holds (\<lambda>d. d < rho) d_mid then Inr (Next (p_mid, p_hi))
     else Inr (Next (p_lo, p_mid))))"

definition pressure_from_density ::
    "(real \<Rightarrow> real res) \<Rightarrow> real \<Rightarrow> real \<Rightarrow> real \<Rightarrow> real \<Rightarrow> real \<Rightarrow> nat \<Rightarrow> real res" where
  "pressure_from_density density p_lo p_hi rho temperature_k tol_rel max_iter =
     res_bind (nan_or (density p_lo)) (\<lambda>d_lo.
     res_bind (nan_or (density p_hi)) (\<lambda>d_hi.
     if holds (\<lambda>d. rho \<le> d) d_lo then Inr p_lo
     else if holds (\<lambda>d. rho \<ge> d) d_hi then Inr (rho * R_H2 * temperature_k)
     else res_bind (for_range max_iter (density_bisect_step density rho tol_rel) (p_lo, p_hi))
       (\<lambda>c. case c of
            Next (lo, hi) \<Rightarrow> Inr (0.5 * (lo + hi))
          | Break (lo, hi) \<Rightarrow> Inr (0.5 * (lo + hi))
          | Return p \<Rightarrow> Inr p)))"

definition lookup_pressure_from_density ::
    "props_si option \<Rightarrow> string \<Rightarrow> real \<Rightarrow> real \<Rightarrow> real \<Rightarrow> nat \<Rightarrow> (lut_manager, real) meth" where
  "lookup_pressure_from_density CP fluid rho temperature_k tol_rel max_iter =
     seq (ensure_initialized CP) (\<lambda>_ m.
       (pressure_from_density (\<lambda>p. lookup_ready CP fluid ''D'' p temperature_k m)
          (lm_p_min m) (lm_p_max m) rho temperature_k tol_rel max_iter, m))"

section \<open>Saturation lookups\<close>

definition antoine_fallback :: "real \<Rightarrow> real res" where
  "antoine_fallback temperature_k =
     (let T_C = temperature_k - 273.15; A = 8.07131; B = 1730.63; C = 233.426
      in res_bind (fdiv B (C + T_C)) (\<lambda>q.
         res_bind (fpow 10 (A - q)) (\<lambda>P_mmHg. Inr (P_mmHg * 133.322))))"

definition saturation_fallback :: "props_si option \<Rightarrow> real \<Rightarrow> real res" where
  "saturation_fallback CP temperature_k = (case CP of
       Some propsSI \<Rightarrow> propsSI ''P'' ''T'' temperature_k ''Q'' 0 ''Water''
     | None \<Rightarrow> antoine_fallback temperature_k)"

definition opt_at :: "real option list \<Rightarrow> int \<Rightarrow> real res" where
  "opt_at xs i = res_bind (aget xs i) (\<lambda>c. case c of None \<Rightarrow> Inl NonFinite | Some v \<Rightarrow> Inr v)"

definition lookup_saturation_pressure :: "props_si option \<Rightarrow> real \<Rightarrow> lut_manager \<Rightarrow> real res" where
  "lookup_saturation_pressure CP temperature_k m = (case lm_saturation m of
       None \<Rightarrow> saturation_fallback CP temperature_k
     | Some sat \<Rightarrow>
         res_bind (aget (sat_T sat) 0) (\<lambda>T_first. res_bind (aget (sat_T sat) (- 1)) (\<lambda>T_last.
         if temperature_k < T_first \<or> temperature_k > T_last then saturation_fallback CP temperature_k
         else
           let idx = min (int (length (sat_T sat)) - 1) (max 1 (searchsorted (sat_T sat) temperature_k))
           in res_bind (aget (sat_T sat) (idx - 1)) (\<lambda>T0. res_bind (aget (sat_T sat) idx) (\<lambda>T1.
              res_bind (opt_at (sat_P sat) (idx - 1)) (\<lambda>P0. res_bind (opt_at (sat_P sat) idx) (\<lambda>P1.
              let w = (if T1 \<noteq> T0 then (temperature_k - T0) / (T1 - T0) else 0)
              in Inr (P0 * (1 - w) + P1 * w))))))))"

definition sat_default :: sat_props where
  "sat_default = \<lparr>T_sat_K = 373.15, h_f_Jkg = 419000, h_g_Jkg = 2676000\<rparr>"

text \<open>
  \<open>np.interp\<close>: constant outside the sample points, linear between them; a nan sample in the cell
  makes the result nan.
\<close>

definition np_interp :: "real \<Rightarrow> real list \<Rightarrow> real option list \<Rightarrow> real res" where
  "np_interp x xp fp =
     res_bind (aget xp 0) (\<lambda>x_first. res_bind (aget xp (- 1)) (\<lambda>x_last.
     if x \<le> x_first then opt_at fp 0
     else if x \<ge> x_last then opt_at fp (- 1)
     else let k = searchsorted xp x - 1 in
       res_bind (aget xp k) (\<lambda>x0. res_bind (aget xp (k + 1)) (\<lambda>x1.
       res_bind (opt_at fp k) (\<lambda>f0. res_bind (opt_at fp (k + 1)) (\<lambda>f1.
       res_bind (fdiv (f1 - f0) (x1 - x0)) (\<lambda>slope. Inr (f0 + slope * (x - x0)))))))))"

definition all_some :: "real option list \<Rightarrow> real list res" where
  "all_some xs = map_res (\<lambda>c. case c of None \<Rightarrow> Inl NonFinite | Some v \<Rightarrow> Inr v) xs"

definition saturation_from_coolprop :: "props_si option \<Rightarrow> real \<Rightarrow> sat_props" where
  "saturation_from_coolprop CP pressure_pa = (case CP of
       None \<Rightarrow> sat_default
     | Some propsSI \<Rightarrow> (case
         res_bind (propsSI ''T'' ''P'' pressure_pa ''Q'' 0 ''Water'') (\<lambda>t.
         res_bind (propsSI ''H'' ''P'' pressure_pa ''Q'' 0 ''Water'') (\<lambda>hl.
         res_bind (propsSI ''H'' ''P'' pressure_pa ''Q'' 1 ''Water'') (\<lambda>hv.
         Inr \<lparr>T_sat_K = t, h_f_Jkg = hl, h_g_Jkg = hv\<rparr>))) of
           Inr r \<Rightarrow> r
         | Inl _ \<Rightarrow> sat_default))"

definition compute_saturation_properties ::
    "props_si option \<Rightarrow> real \<Rightarrow> lut_manager \<Rightarrow> sat_props res" where
  "compute_saturation_properties CP pressure_pa m = (case lm_saturation m of
       None \<Rightarrow> Inr sat_default
     | Some sat \<Rightarrow>
         res_bind (opt_at (sat_P sat) 0) (\<lambda>P_min. res_bind (opt_at (sat_P sat) (- 1)) (\<lambda>P_max.
         if pressure_pa < P_min \<or> pressure_pa > P_max then Inr (saturation_from_coolprop CP pressure_pa)
         else
           res_bind (all_some (sat_P sat)) (\<lambda>P_sat.
           res_bind (np_interp pressure_pa P_sat (map Some (sat_T sat))) (\<lambda>t_sat.
           res_bind (np_interp t_sat (sat_T sat) (sat_H_liq sat)) (\<lambda>h_liq.
           res_bind (np_interp t_sat (sat_T sat) (sat_H_vap sat)) (\<lambda>h_vap.
           Inr \<lparr>T_sat_K = t_sat, h_f_Jkg = h_liq, h_g_Jkg = h_vap\<rparr>)))))))"

definition get_saturation_properties :: "props_si option \<Rightarrow> real \<Rightarrow> (lut_manager, sat_props) meth" where
  "get_saturation_properties CP pressure_pa m =
     (case lm_sat_cache m of
        Some (p, r) \<Rightarrow>
          if pressure_pa = p then (Inr r, m)
          else (case compute_saturation_properties CP pressure_pa m of
              Inl e \<Rightarrow> (Inl e, m)
            | Inr r' \<Rightarrow> (Inr r', m\<lparr>lm_sat_cache := Some (pressure_pa, r')\<rparr>))
      | None \<Rightarrow> (case compute_saturation_properties CP pressure_pa m of
              Inl e \<Rightarrow> (Inl e, m)
            | Inr r' \<Rightarrow> (Inr r', m\<lparr>lm_sat_cache := Some (pressure_pa, r')\<rparr>)))"

section \<open>Species order, activity\<close>

definition CANONICAL_FLUID_ORDER :: "string list" where
  "CANONICAL_FLUID_ORDER = [''H2'', ''O2'', ''N2'', ''CO2'', ''CH4'', ''H2O'']"

fun index_of :: "'a \<Rightarrow> 'a list \<Rightarrow> nat option" where
  "index_of x [] = None"
| "index_of x (y # ys) = (if x = y then Some 0 else map_option Suc (index_of x ys))"

definition get_species_map :: "lut_manager \<Rightarrow> int list" where
  "get_species_map m = map (\<lambda>fluid. case index_of fluid CANONICAL_FLUID_ORDER of
       None \<Rightarrow> - 1 | Some k \<Rightarrow> int k) (cfg_fluids (lm_config m))"

section \<open>The PEM voltage table\<close>

definition register_custom_table :: "string \<Rightarrow> custom_table \<Rightarrow> lut_manager \<Rightarrow> lut_manager" where
  "register_custom_table name tab m =
     m\<lparr>lm_custom := Some ((case lm_custom m of None \<Rightarrow> Map.empty | Some c \<Rightarrow> c)(name \<mapsto> tab))\<rparr>"

text \<open>\<open>load_pem_tables\<close>, voltage part: a missing or unreadable file is only logged.\<close>

definition load_pem_tables :: "lut_manager \<Rightarrow> lut_manager" where
  "load_pem_tables m = (case disk_pem_vcell m of
       Some (Inr tab) \<Rightarrow> register_custom_table ''pem_vcell'' tab m
     | _ \<Rightarrow> m)"

definition pem_vcell_table :: "(lut_manager, custom_table) meth" where
  "pem_vcell_table m = (case lm_custom m of
       Some c \<Rightarrow> (case c ''pem_vcell'' of
           Some tab \<Rightarrow> (Inr tab, m)
         | None \<Rightarrow> (let m1 = load_pem_tables m in (case lm_custom m1 of
               None \<Rightarrow> (Inl AttributeError, m1)
             | Some c1 \<Rightarrow> (case c1 ''pem_vcell'' of None \<Rightarrow> (Inl RuntimeError, m1) | Some tab \<Rightarrow> (Inr tab, m1)))))
     | None \<Rightarrow> (let m1 = load_pem_tables m in (case lm_custom m1 of
               None \<Rightarrow> (Inl AttributeError, m1)
             | Some c1 \<Rightarrow> (case c1 ''pem_vcell'' of None \<Rightarrow> (Inl RuntimeError, m1) | Some tab \<Rightarrow> (Inr tab, m1)))))"

definition clipped_index :: "real list \<Rightarrow> real \<Rightarrow> int" where
  "clipped_index g x = min (int (length g) - 1) (max 1 (searchsorted g x))"

definition vcell_interp :: "custom_table \<Rightarrow> real \<Rightarrow> real \<Rightarrow> real res" where
  "vcell_interp tab j_op t_op_h =
     (let j_grid = ct_axis0 tab; t_grid = ct_axis1 tab; grid = ct_data tab;
          j_idx = clipped_index j_grid j_op; t_idx = clipped_index t_grid t_op_h
      in res_bind (bilinear_weight j_grid j_idx j_op) (\<lambda>wj.
         res_bind (bilinear_weight t_grid t_idx t_op_h) (\<lambda>wt.
         res_bind (aget2 grid (j_idx - 1) (t_idx - 1)) (\<lambda>q00.
         res_bind (aget2 grid (j_idx - 1) t_idx) (\<lambda>q01.
         res_bind (aget2 grid j_idx (t_idx - 1)) (\<lambda>q10.
         res_bind (aget2 grid j_idx t_idx) (\<lambda>q11.
         Inr (q00 * (1 - wj) * (1 - wt) + q10 * wj * (1 - wt)
              + q01 * (1 - wj) * wt + q11 * wj * wt))))))))"

definition lookup_pem_vcell :: "real \<Rightarrow> real \<Rightarrow> (lut_manager, real) meth" where
  "lookup_pem_vcell j_op t_op_h =
     seq pem_vcell_table (\<lambda>tab. pure_res (vcell_interp tab j_op t_op_h))"

fun batch_lookup_pem_vcell :: "real list \<Rightarrow> real list \<Rightarrow> (lut_manager, real list) meth" where
  "batch_lookup_pem_vcell [] ts = ret []"
| "batch_lookup_pem_vcell (j # js) [] = raise_err IndexError"
| "batch_lookup_pem_vcell (j # js) (t # ts) =
     seq (lookup_pem_vcell j t) (\<lambda>v. seq (batch_lookup_pem_vcell js ts) (\<lambda>vs. ret (v # vs)))"

section \<open>Frames\<close>

lemma preserves_generate_saturation_lut [frame]:
  "preserves lm_sat_cache (generate_saturation_lut CP)"
  by (cases CP) (auto simp: generate_saturation_lut_def Let_def intro!: frame)

lemma preserves_load_stacked_cache [frame]: "preserves lm_sat_cache load_stacked_cache"
proof -
  have "preserves lm_sat_cache (seq (updates (\<lambda>m. m\<lparr>lm_stacked := Some sc, lm_pressure_grid := sc_pressure_grid sc,
                     lm_temperature_grid := sc_temperature_grid sc,
                     lm_entropy_grid := sc_entropy_grid sc\<rparr>)) (\<lambda>_.
              seq (for_each xs (\<lambda>(i, fluid). seq (pure_res (stacked_entry sc i)) (\<lambda>tabs.
                        updates (\<lambda>m. m\<lparr>lm_luts := AList.update fluid tabs (lm_luts m)\<rparr>))))
                (\<lambda>_. ret True)))" for sc xs
    by (auto intro!: frame)
  then show ?thesis
    unfolding preserves_def load_stacked_cache_def by (auto split: option.splits sum.splits)
qed

lemma preserves_stack_key [frame]: "preserves lm_sat_cache (stack_key i n k data key upd)"
  by (auto simp: stack_key_def intro!: frame split: option.splits)

lemma preserves_stack_fluid [frame]: "preserves lm_sat_cache (stack_fluid n_p n_t n_s e)"
  by (cases e) (auto simp: stack_fluid_def intro!: frame split: option.splits)

lemma preserves_stack_luts [frame]: "preserves lm_sat_cache stack_luts"
proof -
  have "preserves lm_sat_cache (seq (updates (\<lambda>m. m\<lparr>lm_stacked := Some (zero_stack k n_p n_t n_s m)\<rparr>)) (\<lambda>_.
           for_each xs (stack_fluid n_p n_t n_s)))" for k n_p n_t n_s xs
    by (auto intro!: frame)
  then show ?thesis unfolding preserves_def stack_luts_def by (auto simp: Let_def)
qed

lemma preserves_load_fluid [frame]: "preserves lm_sat_cache (load_fluid CP fluid)"
proof -
  have g: "preserves lm_sat_cache (generate_and_save CP fluid)"
    unfolding preserves_def generate_and_save_def
    by (auto simp: meth_defs save_to_cache_def split: prod.splits sum.splits)
  show ?thesis
    using g unfolding preserves_def load_fluid_def by (auto split: option.splits sum.splits)
qed

lemma preserves_save_stacked_cache [frame]: "preserves lm_sat_cache save_stacked_cache"
  by (auto simp: save_stacked_cache_def intro!: frame split: option.splits)

lemma preserves_try_stacked [frame]: "preserves lm_sat_cache (try_stacked CP)"
  by (auto simp: try_stacked_def intro!: frame)

lemma preserves_initialize [frame]: "preserves lm_sat_cache (initialize CP)"
  by (auto simp: initialize_def slow_path_def init_grids_def Let_def intro!: frame)

section \<open>Inverting the density table\<close>

text \<open>
  A density column that can be probed everywhere between two pressures whose densities enclose the
  target: what the bisection keeps, and what it returns.
\<close>

definition encloses :: "(real \<Rightarrow> real res) \<Rightarrow> real \<Rightarrow> real \<Rightarrow> real \<Rightarrow> bool" where
  "encloses density rho lo hi \<longleftrightarrow> lo \<le> hi \<and> (\<exists>v. density lo = Inr v \<and> v < rho)
     \<and> (\<exists>w. density hi = Inr w \<and> rho \<le> w)"

definition inversion_ok :: "(real \<Rightarrow> real res) \<Rightarrow> real \<Rightarrow> real \<Rightarrow> real \<Rightarrow> real \<Rightarrow> bool" where
  "inversion_ok density rho tol_rel width p \<longleftrightarrow>
     (\<exists>v. density p = Inr v \<and> \<bar>v - rho\<bar> < tol_rel * rho)
     \<or> (\<exists>lo hi. lo \<le> p \<and> p \<le> hi \<and> hi - lo \<le> width \<and> encloses density rho lo hi)"

definition bisecting :: "(real \<Rightarrow> real res) \<Rightarrow> real \<Rightarrow> real \<Rightarrow> real \<Rightarrow> real \<times> real \<Rightarrow> bool" where
  "bisecting density rho a b bracket \<longleftrightarrow> (case bracket of (lo, hi) \<Rightarrow> 0 < rho \<and> a \<le> lo \<and> hi \<le> b
     \<and> encloses density rho lo hi \<and> (\<forall>p. a \<le> p \<and> p \<le> b \<longrightarrow> (\<exists>v. density p = Inr v)))"

interpretation density_search: bisection "density_bisect_step density rho tol_rel" "\<lambda>(lo, hi). hi - lo"
    "bisecting density rho a b" "\<lambda>_. False" "\<lambda>p. a \<le> p \<and> p \<le> b \<and> (\<exists>v. density p = Inr v \<and> \<bar>v - rho\<bar> < tol_rel * rho)"
  for density rho tol_rel a b
proof
  fix s i assume "bisecting density rho a b s"
  moreover obtain lo hi where s: "s = (lo, hi)" by (cases s)
  ultimately have I: "0 < rho" "a \<le> lo" "hi \<le> b" "encloses density rho lo hi"
      "\<And>p. a \<le> p \<Longrightarrow> p \<le> b \<Longrightarrow> \<exists>v. density p = Inr v"
    by (auto simp: bisecting_def)
  define mid where "mid = 0.5 * (lo + hi)"
  have mid: "lo \<le> mid" "mid \<le> hi" "hi - mid = (hi - lo) / 2" "mid - lo = (hi - lo) / 2"
    using I(4) by (simp_all add: encloses_def mid_def field_simps)
  then obtain v where v: "density mid = Inr v" using I(2,3,5) by (meson order.trans)
  have hit: "\<bar>v - rho\<bar> / rho < tol_rel \<longleftrightarrow> \<bar>v - rho\<bar> < tol_rel * rho" using I(1) by (simp add: field_simps)
  have step: "density_bisect_step density rho tol_rel i s = Inr (if \<bar>v - rho\<bar> / rho < tol_rel then Return mid
      else if v < rho then Next (mid, hi) else Next (lo, mid))"
    using I(1) unfolding s density_bisect_step_def prod.case Let_def mid_def [symmetric] v nan_or_Inr res_bind.simps by simp
  have "v < rho \<Longrightarrow> encloses density rho mid hi" "\<not> v < rho \<Longrightarrow> encloses density rho lo mid"
    using I(4) v mid by (auto simp: encloses_def)
  then show "\<exists>c. density_bisect_step density rho tol_rel i s = Inr c \<and>
      (case c of Next s' \<Rightarrow> bisecting density rho a b s' \<and> (case s' of (lo, hi) \<Rightarrow> hi - lo) = (case s of (lo, hi) \<Rightarrow> hi - lo) / 2
       | Break s' \<Rightarrow> False | Return p \<Rightarrow> a \<le> p \<and> p \<le> b \<and> (\<exists>v. density p = Inr v \<and> \<bar>v - rho\<bar> < tol_rel * rho))"
    using I mid(1,2) v unfolding step hit by (simp add: s bisecting_def mid(3,4))
qed

lemma pressure_from_density_inside:
  assumes "0 < rho" and "p_lo \<le> p_hi"
    and "density p_lo = Inr d_lo" and "d_lo < rho" and "density p_hi = Inr d_hi" and "rho < d_hi"
    and "\<And>p. p_lo \<le> p \<Longrightarrow> p \<le> p_hi \<Longrightarrow> \<exists>v. density p = Inr v"
  shows "\<exists>p. pressure_from_density density p_lo p_hi rho T tol_rel n = Inr p
    \<and> p_lo \<le> p \<and> p \<le> p_hi \<and> inversion_ok density rho tol_rel ((p_hi - p_lo) / 2 ^ n) p"
proof -
  have "bisecting density rho p_lo p_hi (p_lo, p_hi)" using assms by (simp add: bisecting_def encloses_def)
  from density_search.loop [OF this, of 0 n tol_rel] obtain c where
    c: "for_range n (density_bisect_step density rho tol_rel) (p_lo, p_hi) = Inr c"
      "case c of
         Return p \<Rightarrow> p_lo \<le> p \<and> p \<le> p_hi \<and> (\<exists>v. density p = Inr v \<and> \<bar>v - rho\<bar> < tol_rel * rho)
       | Next (l, h) \<Rightarrow> p_lo \<le> l \<and> h \<le> p_hi \<and> h - l = (p_hi - p_lo) / 2 ^ n \<and> encloses density rho l h
       | Break _ \<Rightarrow> False"
    by (fastforce simp: bisecting_def split: ctl.splits prod.splits)
  show ?thesis
  proof (cases c)
    case (Next b)
    obtain l h where b: "b = (l, h)" by (cases b)
    have e: "encloses density rho l h" "h - l = (p_hi - p_lo) / 2 ^ n" "p_lo \<le> l" "h \<le> p_hi"
      using c(2) Next b by auto
    have o: "l \<le> 0.5 * (l + h)" "0.5 * (l + h) \<le> h" using e(1) by (auto simp: encloses_def)
    have "inversion_ok density rho tol_rel ((p_hi - p_lo) / 2 ^ n) (0.5 * (l + h))"
      unfolding inversion_ok_def using e(1,2) o by (intro disjI2 exI [of _ l] exI [of _ h]) simp
    moreover have "pressure_from_density density p_lo p_hi rho T tol_rel n = Inr (0.5 * (l + h))"
      using assms c(1) Next b by (simp add: pressure_from_density_def)
    ultimately show ?thesis using o e(3,4) by (meson order.trans)
  next
    case (Return p)
    moreover from this have "pressure_from_density density p_lo p_hi rho T tol_rel n = Inr p"
      using assms c(1) by (simp add: pressure_from_density_def)
    ultimately show ?thesis using c(2) by (auto simp: inversion_ok_def)
  qed (use c(2) in simp)
qed

section \<open>A ready manager\<close>

definition grid_ends :: "real list \<Rightarrow> real \<Rightarrow> real \<Rightarrow> bool" where
  "grid_ends g lo hi \<longleftrightarrow> sorted_wrt (<) g \<and> 2 \<le> length g \<and> g ! 0 = lo \<and> last g = hi"

text \<open>Initialised from its own configuration: grids that span the cached bounds.\<close>

definition lut_ready :: "lut_manager \<Rightarrow> bool" where
  "lut_ready m \<longleftrightarrow> lm_initialized m \<and> grid_ends (lm_pressure_grid m) (lm_p_min m) (lm_p_max m)
     \<and> grid_ends (lm_temperature_grid m) (lm_t_min m) (lm_t_max m)"

definition has_table :: "lut_manager \<Rightarrow> string \<Rightarrow> string \<Rightarrow> ptable \<Rightarrow> bool" where
  "has_table m fluid pty lut \<longleftrightarrow> get_table m fluid pty = Inr lut
     \<and> table_for (lm_pressure_grid m) (lm_temperature_grid m) lut"

lemma lookup_ready_table:
  "get_table m fluid pty = Inr lut \<Longrightarrow>
   lookup_ready CP fluid pty p T m =
     (if in_bounds m p T then interpolate_2d (lm_pressure_grid m) (lm_temperature_grid m) lut p T
      else fallback_coolprop CP fluid pty p T)"
  by (auto simp: get_table_def lookup_ready_def split: option.splits)

lemma interpolate_total:
  assumes "grid_ends gx a b" and "grid_ends gy c d" and "table_for gx gy data"
  shows "\<exists>v. interpolate_2d gx gy data x y = Inr v"
proof -
  have "sorted_grid gx" "sorted_grid gy" using assms by (simp_all add: grid_ends_def sorted_grid_def)
  from interpolate_2d_value [OF this assms(3), of x y] show ?thesis by blast
qed

lemma ready_no_init: "lm_initialized m \<Longrightarrow> seq (ensure_initialized CP) f m = f () m"
  by (simp add: ensure_initialized_def meth_defs)

lemma grid_ends_geomspace:
  assumes "0 < lo" "lo < hi" "2 \<le> n"
  shows "grid_ends (geomspace lo hi n) lo hi"
proof -
  have "last (geomspace lo hi n) = geomspace lo hi n ! (n - 1)"
    using assms by (subst last_conv_nth) (auto simp: geomspace_def)
  also have "\<dots> = hi" using assms by (simp add: geomspace_def)
  finally show ?thesis
    using sorted_grid_geomspace [OF assms] assms by (simp add: grid_ends_def sorted_grid_def geomspace_def)
qed

lemma grid_ends_linspace:
  assumes "lo < hi" "2 \<le> n"
  shows "grid_ends (linspace lo hi n) lo hi"
proof -
  have "last (linspace lo hi n) = linspace lo hi n ! (n - 1)"
    using assms by (subst last_conv_nth) (auto simp: linspace_def)
  also have "\<dots> = hi" using assms by (simp add: linspace_def)
  finally show ?thesis
    using sorted_grid_linspace [OF assms] assms by (simp add: grid_ends_def sorted_grid_def linspace_def)
qed

lemma init_grids_ready:
  assumes "cfg_pressure_min c > 0" "cfg_pressure_min c < cfg_pressure_max c" "2 \<le> cfg_pressure_points c"
    and "cfg_temperature_min c < cfg_temperature_max c" "2 \<le> cfg_temperature_points c"
  shows "lut_ready (init_grids (new_lut_manager c st fl pv))"
  using assms grid_ends_geomspace grid_ends_linspace
  by (simp add: lut_ready_def init_grids_def new_lut_manager_def Let_def)

section \<open>Warm starts\<close>

text \<open>The tables the stacked file holds for the i-th configured fluid.\<close>

definition stacked_complete :: "stacked_cache \<Rightarrow> nat \<Rightarrow> bool" where
  "stacked_complete sc n \<longleftrightarrow> n \<le> length (sc_H sc) \<and> n \<le> length (sc_S sc) \<and> n \<le> length (sc_C sc)
     \<and> n \<le> length (sc_D sc) \<and> n \<le> length (sc_Z sc) \<and> n \<le> length (sc_H_from_PS sc)"

definition stacked_tables :: "stacked_cache \<Rightarrow> nat \<Rightarrow> fluid_tables" where
  "stacked_tables sc i = [''H'' \<mapsto> sc_H sc ! i, ''S'' \<mapsto> sc_S sc ! i, ''C'' \<mapsto> sc_C sc ! i,
     ''D'' \<mapsto> sc_D sc ! i, ''Z'' \<mapsto> sc_Z sc ! i, ''H_from_PS'' \<mapsto> sc_H_from_PS sc ! i]"

lemma stacked_entry_complete:
  "stacked_complete sc n \<Longrightarrow> i < n \<Longrightarrow> stacked_entry sc i = Inr (stacked_tables sc i)"
  by (simp add: stacked_complete_def stacked_entry_def stacked_tables_def aget_nat)

lemma load_loop:
  assumes "\<forall>(i, fluid) \<in> set xs. stacked_entry sc i = Inr (tabs i)"
  shows "for_each xs (\<lambda>(i, fluid). seq (pure_res (stacked_entry sc i)) (\<lambda>tabs.
           updates (\<lambda>m. m\<lparr>lm_luts := AList.update fluid tabs (lm_luts m)\<rparr>))) m
         = (Inr (), m\<lparr>lm_luts := fold (\<lambda>(i, fluid). AList.update fluid (tabs i)) xs (lm_luts m)\<rparr>)"
  using assms
proof (induction xs arbitrary: m)
  case (Cons x xs)
  obtain i fluid where x: "x = (i, fluid)" by (cases x)
  have "stacked_entry sc i = Inr (tabs i)" using Cons.prems by (simp add: x)
  then have "seq (pure_res (stacked_entry sc i)) (\<lambda>tabs.
           updates (\<lambda>m. m\<lparr>lm_luts := AList.update fluid tabs (lm_luts m)\<rparr>)) m
         = (Inr (), m\<lparr>lm_luts := AList.update fluid (tabs i) (lm_luts m)\<rparr>)"
    by (simp add: seq_def pure_res_def updates_def)
  then show ?case
    using Cons.IH Cons.prems by (simp add: x seq_step)
qed (simp add: ret_def)

lemma fold_update_other:
  "(\<And>i. (i, fluid) \<notin> set xs) \<Longrightarrow>
   map_of (fold (\<lambda>(i, f). AList.update f (tabs i)) xs al) fluid = map_of al fluid"
proof (induction xs arbitrary: al)
  case (Cons x xs)
  obtain i f where x: "x = (i, f)" by (cases x)
  have "f \<noteq> fluid" using Cons.prems [of i] by (auto simp: x)
  then show ?case using Cons by (simp add: x update_conv')
qed simp

lemma fold_update_at:
  assumes "distinct fl" and "i < length fl"
  shows "map_of (fold (\<lambda>(i, f). AList.update f (tabs i)) (zip [k..<k + length fl] fl) al) (fl ! i)
           = Some (tabs (k + i))"
  using assms
proof (induction fl arbitrary: i k al)
  case (Cons f fl)
  have z: "zip [k..<k + length (f # fl)] (f # fl) = (k, f) # zip [Suc k..<Suc k + length fl] fl"
    by (simp add: upt_conv_Cons del: upt_Suc)
  show ?case
  proof (cases i)
    case 0
    have "\<And>j. (j, f) \<notin> set (zip [Suc k..<Suc k + length fl] fl)"
      using Cons.prems(1) by (auto dest: set_zip_rightD)
    then show ?thesis
      unfolding z using 0 by (simp add: fold_update_other update_conv')
  next
    case (Suc j)
    then show ?thesis
      unfolding z using Cons.IH [of j "Suc k" "AList.update f (tabs k) al"] Cons.prems by simp
  qed
qed simp

lemma load_stacked_cache_ok:
  assumes "disk_stacked m = Some (Inr sc)"
    and "length (sc_pressure_grid sc) = cfg_pressure_points (lm_config m)"
    and "length (sc_temperature_grid sc) = cfg_temperature_points (lm_config m)"
    and "stacked_complete sc (length (cfg_fluids (lm_config m)))"
  shows "load_stacked_cache m = (Inr True, m\<lparr>lm_stacked := Some sc,
      lm_pressure_grid := sc_pressure_grid sc, lm_temperature_grid := sc_temperature_grid sc,
      lm_entropy_grid := sc_entropy_grid sc,
      lm_luts := fold (\<lambda>(i, f). AList.update f (stacked_tables sc i))
        (zip [0..<length (cfg_fluids (lm_config m))] (cfg_fluids (lm_config m))) (lm_luts m)\<rparr>)"
proof -
  let ?xs = "zip [0..<length (cfg_fluids (lm_config m))] (cfg_fluids (lm_config m))"
  have "\<forall>(i, fluid) \<in> set ?xs. stacked_entry sc i = Inr (stacked_tables sc i)"
    using stacked_entry_complete [OF assms(4)] by (auto dest: set_zip_leftD)
  note loop = load_loop [of ?xs sc "stacked_tables sc", OF this]
  show ?thesis
    using assms(1-3) by (simp add: load_stacked_cache_def seq_def updates_def ret_def loop)
qed

section \<open>A small manager\<close>

text \<open>One fluid on a two by two grid, for the instances below.\<close>

definition small_config :: lut_config where
  "small_config = LUTConfig\<lparr>cfg_pressure_min := 1, cfg_pressure_max := 3, cfg_pressure_points := 2,
     cfg_temperature_min := 10, cfg_temperature_max := 20, cfg_temperature_points := 2,
     cfg_fluids := [''H2'']\<rparr>"

definition small_table :: ptable where
  "small_table = values_of [[1, 1], [3, 3]]"

definition small_stack :: stacked_cache where
  "small_stack = \<lparr>sc_H = [small_table], sc_S = [small_table], sc_C = [small_table], sc_D = [small_table],
     sc_Z = [small_table], sc_H_from_PS = [small_table], sc_pressure_grid = [1, 3],
     sc_temperature_grid = [10, 20], sc_entropy_grid = [0, 1]\<rparr>"

definition small_manager :: lut_manager where
  "small_manager = (new_lut_manager small_config None Map.empty None)\<lparr>lm_initialized := True,
     lm_luts := [(''H2'', [''D'' \<mapsto> small_table])], lm_pressure_grid := [1, 3],
     lm_temperature_grid := [10, 20], lm_entropy_grid := [0, 1], lm_stacked := Some small_stack\<rparr>"

lemma small_manager_fields [simp]:
  "lm_initialized small_manager" "lm_pressure_grid small_manager = [1, 3]"
  "lm_temperature_grid small_manager = [10, 20]" "lm_p_min small_manager = 1" "lm_p_max small_manager = 3"
  "lm_t_min small_manager = 10" "lm_t_max small_manager = 20" "lm_stacked small_manager = Some small_stack"
  "lm_luts small_manager = [(''H2'', [''D'' \<mapsto> small_table])]" "lm_saturation small_manager = None"
  "lm_sat_cache small_manager = None" "lm_custom small_manager = None" "lm_clamp_counter small_manager = 0"
  "lm_entropy_grid small_manager = [0, 1]" "disk_stacked small_manager = None" "disk_fluids small_manager = Map.empty"
  "lm_config small_manager = small_config"
  by (simp_all add: small_manager_def new_lut_manager_def small_config_def LUTConfig_def)

lemma small_manager_ready [simp]: "lut_ready small_manager" "has_table small_manager ''H2'' ''D'' small_table"
  by (simp_all add: lut_ready_def grid_ends_def has_table_def get_table_def small_table_def)

section \<open>Properties\<close>

text \<open>
  A lookup on a ready manager answers inside the grid with a value between the table's extremes
  and never fails there; an unknown fluid or property is a ValueError; outside the grid it is
  CoolProp's answer, or a RuntimeError without CoolProp.
\<close>

theorem lookup_outcomes:
  assumes "lut_ready m" and "has_table m fluid pty lut"
    and "\<And>row v. row \<in> set lut \<Longrightarrow> Some v \<in> set row \<Longrightarrow> lo \<le> v \<and> v \<le> hi"
  shows "(in_bounds m p T \<longrightarrow> (\<exists>v. lut_lookup CP fluid pty p T m = (Inr v, m) \<and> lo \<le> v \<and> v \<le> hi))
    \<and> (\<not> in_bounds m p T \<longrightarrow> lut_lookup CP fluid pty p T m
         = (case CP of None \<Rightarrow> (Inl RuntimeError, m)
            | Some propsSI \<Rightarrow> (propsSI pty ''P'' p ''T'' T fluid, m)))
    \<and> (map_of (lm_luts m) other = None \<longrightarrow> lut_lookup CP other pty p T m = (Inl ValueError, m))"
proof -
  have "\<exists>v. interpolate_2d (lm_pressure_grid m) (lm_temperature_grid m) lut p T = Inr v \<and> lo \<le> v \<and> v \<le> hi"
    by (rule interpolation_bounded) (use assms in \<open>auto simp: lut_ready_def grid_ends_def has_table_def\<close>)
  moreover have "lut_lookup CP f pty p T m = (lookup_ready CP f pty p T m, m)" for f
    using assms(1) by (simp add: lut_lookup_def ready_no_init lut_ready_def)
  moreover have "lookup_ready CP other pty p T m = Inl ValueError" if "map_of (lm_luts m) other = None"
    using that by (simp add: lookup_ready_def)
  ultimately show ?thesis
    using assms(2) lookup_ready_table [of m fluid pty lut CP p T]
    by (auto simp: has_table_def fallback_coolprop_def split: option.splits)
qed

theorem lookup_outcomes_witness:
  "(\<exists>v. lut_lookup None ''H2'' ''D'' 2 15 small_manager = (Inr v, small_manager) \<and> 1 \<le> v \<and> v \<le> 3)
   \<and> lut_lookup None ''H2'' ''D'' 7 15 small_manager = (Inl RuntimeError, small_manager)
   \<and> lut_lookup None ''O2'' ''D'' 2 15 small_manager = (Inl ValueError, small_manager)"
proof -
  have b: "1 \<le> v \<and> v \<le> 3" if "row \<in> set small_table" "Some v \<in> set row" for row v
    using that by (auto simp: small_table_def values_of_def)
  have i: "in_bounds small_manager 2 15" "\<not> in_bounds small_manager 7 15" "map_of (lm_luts small_manager) ''O2'' = None"
    by (simp_all add: in_bounds_def)
  note l = lookup_outcomes [OF small_manager_ready, where lo = 1 and hi = 3 and CP = None and other = "''O2''" and T = 15, OF b]
  show ?thesis using l [where p = 2] l [where p = 7] i by simp
qed

text \<open>
  The bound fast lookup is the full lookup: for a configured fluid and property the callable
  \<open>bind_lookup\<close> returns answers every query, inside and outside the grid, as \<open>lookup\<close> does.
\<close>

theorem bind_lookup_agrees:
  assumes "lm_initialized m" and "bind_lookup CP fluid pty m = (Inr fast, m')"
  shows "m' = m \<and> (\<forall>p T. lut_lookup CP fluid pty p T m = (fast p T, m))"
  using assms lookup_ready_table [of m fluid pty]
  by (fastforce simp: bind_lookup_def lut_lookup_def ready_no_init interpolate_2d_def)

theorem bind_lookup_agrees_witness:
  "\<exists>fast. bind_lookup None ''H2'' ''D'' small_manager = (Inr fast, small_manager)
    \<and> (\<forall>p T. lut_lookup None ''H2'' ''D'' p T small_manager = (fast p T, small_manager))"
proof -
  obtain fast where f: "bind_lookup None ''H2'' ''D'' small_manager = (Inr fast, small_manager)"
    by (simp add: bind_lookup_def ready_no_init get_table_def)
  show ?thesis using bind_lookup_agrees [OF _ f] f by simp
qed

text \<open>
  C10: inverting the density table: for a target density strictly between the densities at the two
  pressure bounds, \<open>lookup_pressure_from_density\<close> returns a pressure within the bounds whose
  tabulated density is within the relative tolerance of the target, or which lies with a crossing
  of the target in a bracket no wider than the pressure range halved 30 times.
\<close>

theorem pressure_inversion_correct:
  assumes "lut_ready m" and "has_table m fluid ''D'' lut" and "lm_t_min m \<le> T" and "T \<le> lm_t_max m"
    and "0 < rho"
    and "lookup_ready CP fluid ''D'' (lm_p_min m) T m = Inr d_lo" and "d_lo < rho"
    and "lookup_ready CP fluid ''D'' (lm_p_max m) T m = Inr d_hi" and "rho < d_hi"
  shows "\<exists>p. lookup_pressure_from_density CP fluid rho T (1 / 10 ^ 4) 30 m = (Inr p, m)
    \<and> lm_p_min m \<le> p \<and> p \<le> lm_p_max m
    \<and> inversion_ok (\<lambda>p. lookup_ready CP fluid ''D'' p T m) rho (1 / 10 ^ 4)
        ((lm_p_max m - lm_p_min m) / 2 ^ 30) p"
proof -
  have "lm_p_min m \<le> lm_p_max m"
    using assms(1) sorted_grid.first_less_last [of "lm_pressure_grid m"]
    by (auto simp: lut_ready_def grid_ends_def sorted_grid_def)
  moreover have "\<exists>v. lookup_ready CP fluid ''D'' p T m = Inr v" if "lm_p_min m \<le> p" "p \<le> lm_p_max m" for p
    using that assms(1-4) lookup_ready_table [of m fluid "''D''" lut CP p T]
      interpolate_total [of "lm_pressure_grid m" _ _ "lm_temperature_grid m" _ _ lut p T]
    by (auto simp: has_table_def in_bounds_def lut_ready_def)
  ultimately show ?thesis
    using pressure_from_density_inside [OF assms(5) _ assms(6-9), of T "1 / 10 ^ 4" 30] assms(1)
    by (auto simp: lookup_pressure_from_density_def ready_no_init lut_ready_def)
qed

theorem pressure_inversion_correct_witness:
  "\<exists>p. lookup_pressure_from_density None ''H2'' 2 15 (1 / 10 ^ 4) 30 small_manager = (Inr p, small_manager)
    \<and> lm_p_min small_manager \<le> p \<and> p \<le> lm_p_max small_manager
    \<and> inversion_ok (\<lambda>p. lookup_ready None ''H2'' ''D'' p 15 small_manager) 2 (1 / 10 ^ 4)
        ((lm_p_max small_manager - lm_p_min small_manager) / 2 ^ 30) p"
proof (rule pressure_inversion_correct [of _ _ small_table])
  have w: "axis_weight [10, 20] 15 = Inr (0, 1/2)" "axis_weight [1, 3] 1 = Inr (0, 0)"
    "axis_weight [1, 3] 3 = Inr (0, 1)"
    by (simp_all add: axis_weight_def aget_def py_index_def searchsorted_def fdiv_def)
  show "lookup_ready None ''H2'' ''D'' (lm_p_min small_manager) 15 small_manager = Inr 1"
    "lookup_ready None ''H2'' ''D'' (lm_p_max small_manager) 15 small_manager = Inr 3"
    by (simp_all add: lookup_ready_def in_bounds_def interpolate_2d_def get_interp_weights_jit_def w
        interp_from_weights_jit_def cell_at_def aget2_def aget_def py_index_def small_table_def values_of_def)
qed simp_all



text \<open>
  A stacked file that cannot be read makes every start fail with the read error: the fast path
  logs that it falls back to the slow path, but the slow path reads the same file again, without
  a handler.
\<close>

theorem unreadable_stacked_cache_fails:
  assumes "disk_stacked m = Some (Inl e)"
  shows "fst (initialize CP m) = Inl e"
  using assms
  by (simp add: initialize_def slow_path_def try_stacked_def seq_def updates_def try_except_def
      reads_def load_stacked_cache_def ret_def init_grids_def Let_def)

theorem unreadable_stacked_cache_fails_witness:
  "fst (initialize None (new_lut_manager small_config (Some (Inl ValueError)) Map.empty None)) = Inl ValueError"
  by (rule unreadable_stacked_cache_fails) (simp add: new_lut_manager_def)

definition sat_cache_ok :: "props_si option \<Rightarrow> lut_manager \<Rightarrow> bool" where
  "sat_cache_ok CP m \<longleftrightarrow> (\<forall>p r. lm_sat_cache m = Some (p, r) \<longrightarrow> compute_saturation_properties CP p m = Inr r)"

lemma compute_saturation_frame [simp]:
  "compute_saturation_properties CP p (m\<lparr>lm_sat_cache := c\<rparr>) = compute_saturation_properties CP p m"
  by (simp add: compute_saturation_properties_def)

text \<open>
  Memoised saturation properties are those of the tables: as long as the memo holds a computed
  answer, a query answers what an uncached computation would, changes nothing but the memo, and
  leaves such a memo behind.
\<close>

theorem saturation_memo_transparent:
  assumes "sat_cache_ok CP m"
  shows "fst (get_saturation_properties CP p m) = compute_saturation_properties CP p m
    \<and> sat_cache_ok CP (snd (get_saturation_properties CP p m))
    \<and> (\<exists>c. snd (get_saturation_properties CP p m) = m\<lparr>lm_sat_cache := c\<rparr>)"
proof -
  have "m = m\<lparr>lm_sat_cache := lm_sat_cache m\<rparr>" by simp
  then have "\<exists>c. m = m\<lparr>lm_sat_cache := c\<rparr>" by blast
  then show ?thesis
    using assms
    by (auto simp: get_saturation_properties_def sat_cache_ok_def split: option.splits sum.splits)
qed

theorem saturation_memo_transparent_witness:
  "fst (get_saturation_properties None 100000 small_manager) = compute_saturation_properties None 100000 small_manager
    \<and> sat_cache_ok None (snd (get_saturation_properties None 100000 small_manager))
    \<and> (\<exists>c. snd (get_saturation_properties None 100000 small_manager) = small_manager\<lparr>lm_sat_cache := c\<rparr>)"
  by (rule saturation_memo_transparent) (simp add: sat_cache_ok_def)

text \<open>
  Initialisation does not clear the memo: a pressure asked for before the tables exist is
  answered with the built-in defaults for good, whatever the saturation tables generated later say.
\<close>

theorem saturation_memo_survives_initialize:
  assumes "lm_saturation m = None" and "lm_sat_cache m = None"
    and "get_saturation_properties CP p m = (r, m1)" and "initialize CP m1 = (r', m2)"
  shows "r = Inr sat_default \<and> get_saturation_properties CP p m2 = (Inr sat_default, m2)"
proof -
  have "r = Inr sat_default" and c: "lm_sat_cache m1 = Some (p, sat_default)"
    using assms(1-3) by (auto simp: get_saturation_properties_def compute_saturation_properties_def)
  moreover have "lm_sat_cache m2 = lm_sat_cache m1"
    by (rule preservesD [OF preserves_initialize assms(4)])
  ultimately show ?thesis by (simp add: get_saturation_properties_def)
qed

theorem saturation_memo_survives_initialize_witness:
  "\<exists>r m1 r' m2. get_saturation_properties None 100000 small_manager = (r, m1) \<and> initialize None m1 = (r', m2)
    \<and> r = Inr sat_default \<and> get_saturation_properties None 100000 m2 = (Inr sat_default, m2)"
proof -
  obtain r m1 r' m2 where 1: "get_saturation_properties None 100000 small_manager = (r, m1)"
    and 2: "initialize None m1 = (r', m2)"
    by (metis surj_pair)
  show ?thesis using saturation_memo_survives_initialize [OF _ _ 1 2] 1 2 by auto
qed

text \<open>
  The mixture lookup clamps: it answers exactly as for the query moved into the bounds, and the
  clamp counter grows by one when and only when the query had to be moved.
\<close>

theorem mixture_enthalpy_clamps:
  assumes "lm_initialized m" and "lm_p_min m \<le> lm_p_max m" and "lm_t_min m \<le> lm_t_max m"
  shows "fst (lookup_mixture_enthalpy CP w p T m)
       = fst (lookup_mixture_enthalpy CP w (clamp (lm_p_min m) (lm_p_max m) p) (clamp (lm_t_min m) (lm_t_max m) T) m)
    \<and> lm_clamp_counter (snd (lookup_mixture_enthalpy CP w p T m))
       = lm_clamp_counter m + (if in_bounds m p T then 0 else 1)"
  using assms
  by (auto simp: lookup_mixture_enthalpy_def ready_no_init Let_def clamp_def in_bounds_def
      split: option.splits)

theorem mixture_enthalpy_clamps_witness:
  "fst (lookup_mixture_enthalpy None [1] 7 15 small_manager)
     = fst (lookup_mixture_enthalpy None [1] (clamp (lm_p_min small_manager) (lm_p_max small_manager) 7)
              (clamp (lm_t_min small_manager) (lm_t_max small_manager) 15) small_manager)
   \<and> lm_clamp_counter (snd (lookup_mixture_enthalpy None [1] 7 15 small_manager))
     = lm_clamp_counter small_manager + (if in_bounds small_manager 7 15 then 0 else 1)"
  by (rule mixture_enthalpy_clamps) simp_all

end
