(* ===== verification/H2Storage.thy ===== *)
theory H2Storage
  imports LutManager Tanks
begin

text \<open>
  The hydrogen reservoir \<open>TankArray\<close> of \<open>factory_simulation/h2_tank.py\<close> and the compressor stage of
  \<open>factory_simulation/compressor.py\<close>, with \<open>calculate_compression_work\<close> of the numba core.

  The tank holds a reference to a lookup manager; its record carries the manager, and a method
  returns the tank with the manager as the lookup left it. \<open>discharge\<close> and \<open>fill\<close> run under the
  tank's lock, so a method is one step.
\<close>

section \<open>The tank\<close>

record tank_array =
  ta_lut :: lut_manager
  ta_capacity_kg :: real
  ta_volume_m3 :: real
  ta_temperature_k :: real
  ta_mass_kg :: real
  ta_pressure_bar :: real

text \<open>
  \<open>_pressure_from_mass\<close>: the division is outside the \<open>try\<close>; inside it any exception of the lookup
  falls back to the ideal gas law.
\<close>

definition pressure_from_mass :: "props_si option \<Rightarrow> (tank_array, real) meth" where
  "pressure_from_mass CP t =
     (case fdiv (max (ta_mass_kg t) (1 / 10 ^ 6)) (ta_volume_m3 t) of
        Inl e \<Rightarrow> (Inl e, t)
      | Inr rho \<Rightarrow>
          (case lookup_pressure_from_density CP ''H2'' rho (ta_temperature_k t) (1 / 10 ^ 4) 30 (ta_lut t) of
             (Inr p_pa, m) \<Rightarrow> (Inr (p_pa / 10 ^ 5), t\<lparr>ta_lut := m\<rparr>)
           | (Inl _, m) \<Rightarrow> (Inr (rho * R_H2 * ta_temperature_k t / 10 ^ 5), t\<lparr>ta_lut := m\<rparr>)))"

definition update_pressure :: "props_si option \<Rightarrow> (tank_array, unit) meth" where
  "update_pressure CP =
     seq (pressure_from_mass CP) (\<lambda>p. updates (\<lambda>t. t\<lparr>ta_pressure_bar := p\<rparr>))"

text \<open>\<open>__init__\<close>: a failing pressure leaves no tank.\<close>

definition new_tank_array ::
    "props_si option \<Rightarrow> lut_manager \<Rightarrow> real \<Rightarrow> real \<Rightarrow> real \<Rightarrow> real \<Rightarrow> tank_array res" where
  "new_tank_array CP lut capacity_kg volume_m3 initial_fill_fraction temp_k =
     (case update_pressure CP \<lparr>ta_lut = lut, ta_capacity_kg = capacity_kg, ta_volume_m3 = volume_m3,
        ta_temperature_k = temp_k, ta_mass_kg = capacity_kg * initial_fill_fraction, ta_pressure_bar = 0\<rparr>
      of (Inl e, _) \<Rightarrow> Inl e | (Inr _, t) \<Rightarrow> Inr t)"

definition tank_discharge :: "props_si option \<Rightarrow> real \<Rightarrow> (tank_array, real) meth" where
  "tank_discharge CP requested_kg =
     seq (reads (\<lambda>t. min requested_kg (max (ta_mass_kg t) 0))) (\<lambda>delivered.
     seq (updates (\<lambda>t. t\<lparr>ta_mass_kg := np_clip (ta_mass_kg t - delivered) 0 (ta_capacity_kg t)\<rparr>)) (\<lambda>_.
     seq (update_pressure CP) (\<lambda>_. ret delivered)))"

definition tank_fill :: "props_si option \<Rightarrow> real \<Rightarrow> (tank_array, real) meth" where
  "tank_fill CP offered_kg =
     seq (reads (\<lambda>t. min offered_kg (max (ta_capacity_kg t - ta_mass_kg t) 0))) (\<lambda>accepted.
     seq (updates (\<lambda>t. t\<lparr>ta_mass_kg := np_clip (ta_mass_kg t + accepted) 0 (ta_capacity_kg t)\<rparr>)) (\<lambda>_.
     seq (update_pressure CP) (\<lambda>_. ret accepted)))"

definition fill_fraction :: "tank_array \<Rightarrow> real res" where
  "fill_fraction t = fdiv (ta_mass_kg t) (ta_capacity_kg t)"

section \<open>Compression\<close>

definition calculate_compression_work ::
    "real \<Rightarrow> real \<Rightarrow> real \<Rightarrow> real \<Rightarrow> real \<Rightarrow> real \<Rightarrow> real \<Rightarrow> real res" where
  "calculate_compression_work p1 p2 mass temperature efficiency gamma gas_constant =
     (if p1 \<le> 0 then Inr 0
      else res_bind (fdiv p2 p1) (\<lambda>pressure_ratio.
        res_bind (fdiv (gamma - 1) gamma) (\<lambda>ex.
        res_bind (fdiv gamma (gamma - 1)) (\<lambda>g.
        res_bind (fdiv (mass * gas_constant * temperature) efficiency) (\<lambda>q.
        res_bind (fpow pressure_ratio ex) (\<lambda>r. Inr (g * q * (r - 1))))))))"

definition compressor_power_kw :: "real \<Rightarrow> real \<Rightarrow> real \<Rightarrow> real \<Rightarrow> real \<Rightarrow> real res" where
  "compressor_power_kw eta mdot_kg_s t_in_k p_in_bar p_out_bar =
     (if mdot_kg_s \<le> 0 \<or> p_in_bar \<le> 0 then Inr 0
      else res_bind (calculate_compression_work (p_in_bar * 10 ^ 5) (p_out_bar * 10 ^ 5) mdot_kg_s
                       t_in_k eta GAMMA_H2 R_H2) (\<lambda>work_j. Inr (work_j / 1000)))"

section \<open>What the tank maintains\<close>

definition tank_ok :: "tank_array \<Rightarrow> bool" where
  "tank_ok t \<longleftrightarrow> 0 \<le> ta_mass_kg t \<and> ta_mass_kg t \<le> ta_capacity_kg t \<and> ta_volume_m3 t \<noteq> 0"

lemma pressure_from_mass_total:
  assumes "ta_volume_m3 t \<noteq> 0"
  shows "\<exists>p m. pressure_from_mass CP t = (Inr p, t\<lparr>ta_lut := m\<rparr>)"
proof -
  let ?rho = "max (ta_mass_kg t) (1 / 10 ^ 6) / ta_volume_m3 t"
  obtain r m where
    l: "lookup_pressure_from_density CP ''H2'' ?rho (ta_temperature_k t) (1 / 10 ^ 4) 30 (ta_lut t) = (r, m)"
    by fastforce
  show ?thesis
  proof (cases r)
    case (Inr p)
    then show ?thesis
      using assms l by (intro exI [of _ "p / 10 ^ 5"] exI [of _ m]) (simp add: pressure_from_mass_def fdiv_def)
  next
    case (Inl e)
    then show ?thesis
      using assms l by (intro exI [of _ "?rho * R_H2 * ta_temperature_k t / 10 ^ 5"] exI [of _ m])
        (simp add: pressure_from_mass_def fdiv_def)
  qed
qed

lemma update_pressure_total:
  assumes "ta_volume_m3 t \<noteq> 0"
  shows "\<exists>p m. update_pressure CP t = (Inr (), t\<lparr>ta_lut := m, ta_pressure_bar := p\<rparr>)"
proof -
  obtain p m where "pressure_from_mass CP t = (Inr p, t\<lparr>ta_lut := m\<rparr>)"
    using pressure_from_mass_total [OF assms] by blast
  then show ?thesis by (auto simp: update_pressure_def seq_def updates_def)
qed

lemma tank_discharge_law:
  assumes "tank_ok t" and "0 \<le> r"
  shows "\<exists>d t'. tank_discharge CP r t = (Inr d, t') \<and> tank_ok t' \<and> d = min r (ta_mass_kg t)
    \<and> ta_mass_kg t' = ta_mass_kg t - d \<and> ta_capacity_kg t' = ta_capacity_kg t"
proof -
  let ?d = "min r (ta_mass_kg t)"
  let ?t = "t\<lparr>ta_mass_kg := ta_mass_kg t - ?d\<rparr>"
  have "np_clip (ta_mass_kg t - ?d) 0 (ta_capacity_kg t) = ta_mass_kg t - ?d" "max (ta_mass_kg t) 0 = ta_mass_kg t"
    using assms by (auto simp: np_clip_def tank_ok_def)
  moreover obtain p m where "update_pressure CP ?t = (Inr (), ?t\<lparr>ta_lut := m, ta_pressure_bar := p\<rparr>)"
    using update_pressure_total [of ?t CP] assms by (auto simp: tank_ok_def)
  ultimately show ?thesis
    using assms by (auto simp: tank_discharge_def meth_defs tank_ok_def)
qed

lemma tank_fill_law:
  assumes "tank_ok t" and "0 \<le> r"
  shows "\<exists>a t'. tank_fill CP r t = (Inr a, t') \<and> tank_ok t' \<and> a = min r (ta_capacity_kg t - ta_mass_kg t)
    \<and> ta_mass_kg t' = ta_mass_kg t + a \<and> ta_capacity_kg t' = ta_capacity_kg t"
proof -
  let ?a = "min r (ta_capacity_kg t - ta_mass_kg t)"
  let ?t = "t\<lparr>ta_mass_kg := ta_mass_kg t + ?a\<rparr>"
  have "np_clip (ta_mass_kg t + ?a) 0 (ta_capacity_kg t) = ta_mass_kg t + ?a"
    "max (ta_capacity_kg t - ta_mass_kg t) 0 = ta_capacity_kg t - ta_mass_kg t"
    using assms by (auto simp: np_clip_def tank_ok_def)
  moreover obtain p m where "update_pressure CP ?t = (Inr (), ?t\<lparr>ta_lut := m, ta_pressure_bar := p\<rparr>)"
    using update_pressure_total [of ?t CP] assms by (auto simp: tank_ok_def)
  ultimately show ?thesis
    using assms by (auto simp: tank_fill_def meth_defs tank_ok_def)
qed

text \<open>The tank is an allocator in the sense of the bank: what it does not accept is handed back.\<close>

definition alloc_tank :: "props_si option \<Rightarrow> real \<Rightarrow> tank_array \<Rightarrow> (tank_array \<times> real) res" where
  "alloc_tank CP r t = (case tank_fill CP r t of (Inl e, _) \<Rightarrow> Inl e | (Inr a, t') \<Rightarrow> Inr (t', r - a))"

interpretation single_tank: mass_allocator "alloc_tank CP" ta_mass_kg ta_capacity_kg tank_ok
  for CP :: "props_si option"
proof
  fix t t' r rest
  assume ok: "tank_ok t" and r: "0 \<le> (r::real)"
  obtain t1 where f: "tank_fill CP r t = (Inr (min r (ta_capacity_kg t - ta_mass_kg t)), t1)" "tank_ok t1"
    "ta_mass_kg t1 = ta_mass_kg t + min r (ta_capacity_kg t - ta_mass_kg t)"
    "ta_capacity_kg t1 = ta_capacity_kg t"
    using tank_fill_law [OF ok r, of CP] by blast
  show "\<exists>x. alloc_tank CP r t = Inr x" using f by (simp add: alloc_tank_def)
  assume "alloc_tank CP r t = Inr (t', rest)"
  then have t': "t' = t1" "rest = r - min r (ta_capacity_kg t - ta_mass_kg t)"
    using f by (simp_all add: alloc_tank_def)
  show "tank_ok t' \<and> ta_capacity_kg t' = ta_capacity_kg t" using f t' by simp
  show "ta_mass_kg t' + rest = ta_mass_kg t + r" using f t' by simp
  show "0 \<le> rest \<and> rest \<le> r" using t' ok r by (auto simp: tank_ok_def)
qed (auto simp: tank_ok_def)

text \<open>A history of the tank: fills and discharges in the order the lock grants them.\<close>

datatype tank_op = Fill real | Discharge real

fun tank_run :: "props_si option \<Rightarrow> tank_op list \<Rightarrow> (tank_array, real list) meth" where
  "tank_run CP [] = ret []"
| "tank_run CP (Fill r # ops) =
     seq (tank_fill CP r) (\<lambda>a. seq (tank_run CP ops) (\<lambda>as. ret (a # as)))"
| "tank_run CP (Discharge r # ops) =
     seq (tank_discharge CP r) (\<lambda>d. seq (tank_run CP ops) (\<lambda>ds. ret (- d # ds)))"

fun op_amount :: "tank_op \<Rightarrow> real" where
  "op_amount (Fill r) = r"
| "op_amount (Discharge r) = r"

lemma tank_run_law:
  "tank_ok t \<Longrightarrow> \<forall>x \<in> set ops. 0 \<le> op_amount x \<Longrightarrow>
   \<exists>flows t'. tank_run CP ops t = (Inr flows, t') \<and> tank_ok t' \<and> ta_capacity_kg t' = ta_capacity_kg t
     \<and> ta_mass_kg t' = ta_mass_kg t + sum_list flows"
proof (induction ops arbitrary: t)
  case Nil
  then show ?case by (simp add: ret_def)
next
  case (Cons x ops)
  show ?case
  proof (cases x)
    case (Fill r)
    obtain a t1 where 1: "tank_fill CP r t = (Inr a, t1)" "tank_ok t1" "ta_mass_kg t1 = ta_mass_kg t + a"
      "ta_capacity_kg t1 = ta_capacity_kg t"
      using tank_fill_law [OF Cons.prems(1), of r CP] Cons.prems(2) Fill by auto
    with Cons.IH [OF 1(2)] Cons.prems(2) show ?thesis
      by (auto simp: Fill seq_def ret_def)
  next
    case (Discharge r)
    obtain a t1 where 1: "tank_discharge CP r t = (Inr a, t1)" "tank_ok t1" "ta_mass_kg t1 = ta_mass_kg t - a"
      "ta_capacity_kg t1 = ta_capacity_kg t"
      using tank_discharge_law [OF Cons.prems(1), of r CP] Cons.prems(2) Discharge by auto
    with Cons.IH [OF 1(2)] Cons.prems(2) show ?thesis
      by (auto simp: Discharge seq_def ret_def)
  qed
qed

section \<open>Properties\<close>

text \<open>
  C37: whatever the property backend does, every history of fills and discharges of the tank returns,
  keeps the mass between zero and the capacity, and changes it by exactly the accepted minus the
  delivered amounts: no hydrogen is lost or made, and a failing lookup never breaks an operation.
\<close>

theorem tank_history_conserves:
  assumes "tank_ok t" and "\<forall>x \<in> set ops. 0 \<le> op_amount x"
  shows "\<exists>flows t'. tank_run CP ops t = (Inr flows, t')
    \<and> 0 \<le> ta_mass_kg t' \<and> ta_mass_kg t' \<le> ta_capacity_kg t
    \<and> ta_mass_kg t' = ta_mass_kg t + sum_list flows"
  using tank_run_law [OF assms, of CP] by (auto simp: tank_ok_def)

theorem tank_history_conserves_witness:
  "\<exists>flows t'. tank_run None [Discharge 2, Fill 9]
      \<lparr>ta_lut = small_manager, ta_capacity_kg = 5, ta_volume_m3 = 1/2, ta_temperature_k = 298.15,
        ta_mass_kg = 5, ta_pressure_bar = 0\<rparr> = (Inr flows, t')
    \<and> 0 \<le> ta_mass_kg t' \<and> ta_mass_kg t' \<le> ta_capacity_kg
      \<lparr>ta_lut = small_manager, ta_capacity_kg = 5, ta_volume_m3 = 1/2, ta_temperature_k = 298.15,
        ta_mass_kg = 5, ta_pressure_bar = 0\<rparr>
    \<and> ta_mass_kg t' = ta_mass_kg
      \<lparr>ta_lut = small_manager, ta_capacity_kg = 5, ta_volume_m3 = 1/2, ta_temperature_k = 298.15,
        ta_mass_kg = 5, ta_pressure_bar = 0\<rparr> + sum_list flows"
  by (rule tank_history_conserves) (simp_all add: tank_ok_def)

lemma compression_work_value:
  assumes "0 < p1" and "0 < p2" and "1 < gamma" and "0 < efficiency"
  shows "calculate_compression_work p1 p2 mass T efficiency gamma R =
    Inr (gamma / (gamma - 1) * (mass * R * T / efficiency) * ((p2 / p1) powr ((gamma - 1) / gamma) - 1))"
  using assms by (simp add: calculate_compression_work_def)

text \<open>
  Compressor power is defined and physical: for a positive flow and inlet pressure it is zero
  without a pressure rise, positive and strictly increasing in the outlet pressure above it.
\<close>

theorem compressor_power_monotone:
  assumes "0 < eta" and "0 < mdot" and "0 < T" and "0 < p_in" and "p_in \<le> p1" and "p1 < p2"
  shows "\<exists>w1 w2. compressor_power_kw eta mdot T p_in p1 = Inr w1
    \<and> compressor_power_kw eta mdot T p_in p2 = Inr w2
    \<and> 0 \<le> w1 \<and> w1 < w2 \<and> (w1 = 0 \<longleftrightarrow> p1 = p_in)"
proof -
  define e where "e = (GAMMA_H2 - 1) / GAMMA_H2"
  define k where "k = GAMMA_H2 / (GAMMA_H2 - 1) * (mdot * R_H2 * T / eta) / 1000"
  have e: "0 < e" by (simp add: GAMMA_H2_def e_def)
  have k: "0 < k" using assms by (simp add: GAMMA_H2_def R_H2_def k_def)
  have val: "compressor_power_kw eta mdot T p_in p = Inr (k * ((p / p_in) powr e - 1))" if "0 < p" for p
    using that assms compression_work_value [of "p_in * 10 ^ 5" "p * 10 ^ 5" GAMMA_H2 eta mdot T R_H2]
    by (simp add: compressor_power_kw_def GAMMA_H2_def k_def e_def)
  define a b where "a = p1 / p_in" and "b = p2 / p_in"
  have ab: "1 \<le> a" "a < b" using assms by (simp_all add: divide_strict_right_mono a_def b_def)
  have m: "1 \<le> a powr e" "a powr e < b powr e"
    using e ab by (simp add: ge_one_powr_ge_zero, intro powr_less_mono2) auto
  have "a powr e = 1 \<longleftrightarrow> a = 1"
    using powr_less_mono2 [of e 1 a] e ab by (cases "a = 1") auto
  moreover have "a = 1 \<longleftrightarrow> p1 = p_in" using assms by (auto simp: a_def)
  moreover have "0 \<le> k * (a powr e - 1)" "k * (a powr e - 1) < k * (b powr e - 1)"
    "k * (a powr e - 1) = 0 \<longleftrightarrow> a powr e = 1"
    using k m by simp_all
  ultimately show ?thesis
    using val [of p1] val [of p2] assms unfolding a_def b_def by simp
qed

theorem compressor_power_monotone_witness:
  "\<exists>w1 w2. compressor_power_kw 0.75 0.01 298.15 1 1 = Inr w1
    \<and> compressor_power_kw 0.75 0.01 298.15 1 10 = Inr w2
    \<and> 0 \<le> w1 \<and> w1 < w2 \<and> (w1 = 0 \<longleftrightarrow> (1::real) = 1)"
  by (rule compressor_power_monotone) simp_all

end
