(* ===== verification/CellPhysics.thy ===== *)
theory CellPhysics
  imports Prelude
begin

text \<open>
  The small physics modules the stack models call: membrane hydration
  (\<open>membrane_hydration.py\<close>), cathode air supply (\<open>cathode_air_bop.py\<close>) and the contact
  resistance of the clamped assembly (\<open>microstructure.py\<close>).
\<close>

section \<open>Membrane hydration\<close>

definition springer_membrane_conductivity :: "real \<Rightarrow> real \<Rightarrow> real" where
  "springer_membrane_conductivity lambda_val T_k =
     (let lambda_clamped = max 1 (min 14 lambda_val);
          T_safe = max 250 (min 420 T_k);
          sigma_303 = max (1 / 10 ^ 4) (0.005139 * lambda_clamped - 0.00326);
          temp_scaling = exp (1268 * (1 / 303.15 - 1 / T_safe))
      in sigma_303 * temp_scaling)"

definition equilibrium_water_content :: "real \<Rightarrow> real" where
  "equilibrium_water_content a_water =
     (let a_safe = max 0 (min 3 a_water);
          lam = (if a_safe \<le> 1
                 then 0.043 + 17.81 * a_safe - 39.85 * a_safe ^ 2 + 36 * a_safe ^ 3
                 else 14 + 1.4 * (a_safe - 1))
      in max 1 (min 14 lam))"

definition TAU_SORPTION_S :: real where "TAU_SORPTION_S = 12"
definition TAU_DESORPTION_S :: real where "TAU_DESORPTION_S = 45"

definition step_membrane_hydration :: "real \<Rightarrow> real \<Rightarrow> real \<Rightarrow> real" where
  "step_membrane_hydration lambda_current activity_water dt =
     (let lambda_eq = equilibrium_water_content activity_water;
          tau = (if lambda_eq > lambda_current then TAU_SORPTION_S else TAU_DESORPTION_S);
          dlambda_dt = (lambda_eq - lambda_current) / tau;
          lambda_new = lambda_current + dt * dlambda_dt
      in min 14 (max 1 lambda_new))"

definition compute_membrane_resistance :: "real \<Rightarrow> real \<Rightarrow> real \<Rightarrow> real res" where
  "compute_membrane_resistance lambda_val T_k delta_mem_cm =
     fdiv delta_mem_cm (springer_membrane_conductivity lambda_val T_k)"

section \<open>Cathode air supply\<close>

definition FARADAY :: real where "FARADAY = 96485.33212"
definition M_AIR :: real where "M_AIR = 0.02897"
definition CP_AIR :: real where "CP_AIR = 1005"
definition GAMMA_AIR :: real where "GAMMA_AIR = 1.4"

definition calculate_cathode_air_flow_rate :: "real \<Rightarrow> int \<Rightarrow> real \<Rightarrow> real" where
  "calculate_cathode_air_flow_rate I_total_a N_cells lambda_air =
     (let I_safe = max 0 I_total_a;
          lam_safe = max 1 lambda_air;
          n_o2_moles_sec = (of_int N_cells * I_safe) / (4 * FARADAY)
      in lam_safe * n_o2_moles_sec * (M_AIR / 0.21))"

definition calculate_compressor_power :: "real \<Rightarrow> real \<Rightarrow> real \<Rightarrow> real \<Rightarrow> real \<Rightarrow> real res" where
  "calculate_compressor_power m_dot_air_kg_s P_in_pa P_out_pa T_in_k eta_comp =
     (let m_dot_safe = max 0 m_dot_air_kg_s in
      if m_dot_safe \<le> 1 / 10 ^ 12 then Inr 0
      else
        res_bind (fdiv P_out_pa (max 1000 P_in_pa)) (\<lambda>q.
        let p_ratio = max 1 q;
            ex = (GAMMA_AIR - 1) / GAMMA_AIR;
            eta_safe = max 0.1 (min 1 eta_comp)
        in res_bind (fpow p_ratio ex) (\<lambda>r.
           let work_ideal = m_dot_safe * CP_AIR * T_in_k * (r - 1)
           in fdiv work_ideal eta_safe)))"

definition calculate_net_stack_power :: "real \<Rightarrow> real \<Rightarrow> real" where
  "calculate_net_stack_power P_gross_w W_comp_w = P_gross_w - W_comp_w"

section \<open>Contact resistance\<close>

definition R_CONTACT_0 :: real where "R_CONTACT_0 = 0.0042"
definition R_CONTACT_UNCOATED :: real where "R_CONTACT_UNCOATED = 0.0185"
definition P_NOMINAL_MPA :: real where "P_NOMINAL_MPA = 4.25"
definition BRUGGEMAN_EXP :: real where "BRUGGEMAN_EXP = 1.5"

definition compute_effective_porosity_conductivity :: "real \<Rightarrow> real \<Rightarrow> real \<Rightarrow> real res" where
  "compute_effective_porosity_conductivity sigma_bulk gdl_porosity m_exponent =
     (let eps_safe = max 0.01 (min 0.95 gdl_porosity)
      in res_bind (fpow (1 - eps_safe) m_exponent) (\<lambda>r. Inr (sigma_bulk * r)))"

text \<open>The porosity is an argument the source never reads.\<close>

definition compute_contact_resistance :: "real \<Rightarrow> real \<Rightarrow> real \<Rightarrow> real" where
  "compute_contact_resistance p_assembly_mpa gdl_porosity r_contact_0 =
     (let p_safe = max 0.5 p_assembly_mpa;
          p_dev = \<bar>p_safe - P_NOMINAL_MPA\<bar> / P_NOMINAL_MPA;
          r_contact = r_contact_0 * (1 + 0.35 * p_dev + 0.25 * p_dev ^ 2)
      in max 0 r_contact)"

section \<open>Facts\<close>

lemma equilibrium_water_content_range [bounds]:
  "1 \<le> equilibrium_water_content a" "equilibrium_water_content a \<le> 14"
  by (simp_all add: equilibrium_water_content_def Let_def)

lemma springer_pos: "0 < springer_membrane_conductivity l T"
proof -
  have "0 < max (1 / 10 ^ 4) x" for x :: real by (rule max.strict_coboundedI1) simp
  then show ?thesis unfolding springer_membrane_conductivity_def Let_def by (intro mult_pos_pos) simp_all
qed

lemma springer_mono:
  assumes "l1 \<le> l2" and "T1 \<le> T2"
  shows "springer_membrane_conductivity l1 T1 \<le> springer_membrane_conductivity l2 T2"
proof -
  let ?s = "\<lambda>l. max (1 / 10 ^ 4) (0.005139 * max 1 (min 14 l) - 0.00326 :: real)"
  let ?t = "\<lambda>T. max 250 (min 420 T) :: real"
  have "max 1 (min 14 l1) \<le> max 1 (min 14 l2)" using assms(1) by (intro max.mono min.mono order.refl)
  then have "0.005139 * max 1 (min 14 l1) - 0.00326 \<le> 0.005139 * max 1 (min 14 l2) - (0.00326::real)"
    by (rule diff_right_mono [OF mult_left_mono]) simp
  then have "?s l1 \<le> ?s l2" by (rule max.mono [OF order.refl])
  moreover have "?t T1 \<le> ?t T2" using assms(2) by (intro max.mono min.mono order.refl)
  then have "1 / ?t T2 \<le> 1 / ?t T1" by (intro divide_left_mono mult_pos_pos) (simp_all add: max.strict_coboundedI1)
  then have "exp (1268 * (1 / 303.15 - 1 / ?t T1)) \<le> exp (1268 * (1 / 303.15 - 1 / ?t T2))" by simp
  moreover have "0 \<le> max (1 / 10 ^ 4) x" for x :: real by (rule max.coboundedI1) simp
  ultimately show ?thesis
    unfolding springer_membrane_conductivity_def Let_def by (intro mult_mono) simp_all
qed

lemma membrane_resistance_value:
  "compute_membrane_resistance l T d = Inr (d / springer_membrane_conductivity l T)"
  using springer_pos [of l T] by (simp add: compute_membrane_resistance_def)

lemma membrane_resistance_pos:
  "0 < d \<Longrightarrow> 0 < d / springer_membrane_conductivity l T"
  using springer_pos [of l T] by simp

section \<open>Properties\<close>

text \<open>
  The hydration state stays in its physical range whatever the activity and the time step, and
  a time step up to the sorption time constant moves it towards the equilibrium content without
  passing it.
\<close>

theorem membrane_hydration_relaxes:
  "1 \<le> step_membrane_hydration l a dt \<and> step_membrane_hydration l a dt \<le> 14
   \<and> (1 \<le> l \<and> l \<le> 14 \<and> 0 \<le> dt \<and> dt \<le> TAU_SORPTION_S \<longrightarrow>
        min l (equilibrium_water_content a) \<le> step_membrane_hydration l a dt
        \<and> step_membrane_hydration l a dt \<le> max l (equilibrium_water_content a)
        \<and> \<bar>step_membrane_hydration l a dt - equilibrium_water_content a\<bar>
            = (1 - dt / (if equilibrium_water_content a > l then TAU_SORPTION_S else TAU_DESORPTION_S))
              * \<bar>l - equilibrium_water_content a\<bar>)"
proof (intro conjI impI)
  show "1 \<le> step_membrane_hydration l a dt" "step_membrane_hydration l a dt \<le> 14"
    by (simp_all add: step_membrane_hydration_def Let_def)
  define e where "e = equilibrium_water_content a"
  define tau where "tau = (if e > l then TAU_SORPTION_S else TAU_DESORPTION_S)"
  define w where "w = dt / tau"
  assume A: "1 \<le> l \<and> l \<le> 14 \<and> 0 \<le> dt \<and> dt \<le> TAU_SORPTION_S"
  have tau: "0 < tau" by (simp add: tau_def TAU_SORPTION_S_def TAU_DESORPTION_S_def)
  have w: "0 \<le> w" "w \<le> 1"
    using A by (auto simp: w_def tau_def TAU_SORPTION_S_def TAU_DESORPTION_S_def)
  have e: "1 \<le> e" "e \<le> 14" unfolding e_def by (rule bounds)+
  have n: "l + dt * ((e - l) / tau) = (1 - w) * l + w * e"
    using tau by (simp add: w_def field_simps)
  have r: "min l e \<le> (1 - w) * l + w * e" "(1 - w) * l + w * e \<le> max l e"
    using convex_comb_bounds [OF w, of "min l e" l "max l e" e] by simp_all
  have "1 \<le> (1 - w) * l + w * e" "(1 - w) * l + w * e \<le> 14"
    using convex_comb_bounds [OF w, of 1 l 14 e] A e by simp_all
  then have "min 14 (max 1 ((1 - w) * l + w * e)) = (1 - w) * l + w * e" by simp
  then have s: "step_membrane_hydration l a dt = (1 - w) * l + w * e"
    using n by (simp add: step_membrane_hydration_def Let_def e_def [symmetric] tau_def [symmetric])
  show "min l (equilibrium_water_content a) \<le> step_membrane_hydration l a dt"
    "step_membrane_hydration l a dt \<le> max l (equilibrium_water_content a)"
    using r s by (simp_all add: e_def)
  have "(1 - w) * l + w * e - e = (1 - w) * (l - e)" by (simp add: algebra_simps)
  then show "\<bar>step_membrane_hydration l a dt - equilibrium_water_content a\<bar>
      = (1 - dt / (if equilibrium_water_content a > l then TAU_SORPTION_S else TAU_DESORPTION_S))
        * \<bar>l - equilibrium_water_content a\<bar>"
    using w s by (simp add: e_def [symmetric] tau_def [symmetric] w_def [symmetric] abs_mult)
qed

theorem membrane_hydration_relaxes_witness:
  "1 \<le> step_membrane_hydration 5 1 2 \<and> step_membrane_hydration 5 1 2 \<le> 14
   \<and> min 5 (equilibrium_water_content 1) \<le> step_membrane_hydration 5 1 2
   \<and> step_membrane_hydration 5 1 2 \<le> max 5 (equilibrium_water_content 1)"
  using membrane_hydration_relaxes [of 5 1 2] by (simp add: TAU_SORPTION_S_def)

text \<open>
  Membrane resistance is defined for every input, positive, and falls as the membrane takes up
  water or warms up.
\<close>

theorem membrane_resistance_antitone:
  assumes "0 < d" and "l1 \<le> l2" and "T1 \<le> T2"
  shows "\<exists>r1 r2. compute_membrane_resistance l1 T1 d = Inr r1 \<and> compute_membrane_resistance l2 T2 d = Inr r2
    \<and> 0 < r2 \<and> r2 \<le> r1"
  using assms springer_mono [OF assms(2,3)] springer_pos [of l1 T1] springer_pos [of l2 T2]
  by (simp add: membrane_resistance_value divide_left_mono)

theorem membrane_resistance_antitone_witness:
  "\<exists>r1 r2. compute_membrane_resistance 5 333 0.005 = Inr r1 \<and> compute_membrane_resistance 14 353.15 0.005 = Inr r2
    \<and> 0 < r2 \<and> r2 \<le> r1"
  by (rule membrane_resistance_antitone) simp_all

text \<open>
  The contact resistance curve is U-shaped around the nominal clamping pressure: it is least,
  with the nominal value, at 4.25 MPa, and grows with the distance from it on either side, whatever
  the porosities.
\<close>

theorem contact_resistance_u_shaped:
  assumes "0 < r0" and "0.5 \<le> p" and "0.5 \<le> q"
  shows "compute_contact_resistance P_NOMINAL_MPA por r0 = r0
    \<and> (compute_contact_resistance p por r0 < compute_contact_resistance q por' r0
         \<longleftrightarrow> \<bar>p - P_NOMINAL_MPA\<bar> < \<bar>q - P_NOMINAL_MPA\<bar>)"
proof -
  define f where "f = (\<lambda>d::real. 1 + 0.35 * d + 0.25 * d ^ 2)"
  have f: "f x < f y \<longleftrightarrow> x < y" "0 < f x" if "0 \<le> x" "0 \<le> y" for x y
  proof -
    have "f y - f x = (y - x) * (0.35 + 0.25 * (x + y))" by (simp add: f_def field_simps power2_eq_square)
    moreover have "0 < 0.35 + 0.25 * (x + y)" using that by (intro add_pos_nonneg) simp_all
    ultimately show "f x < f y \<longleftrightarrow> x < y" by (metis diff_gt_0_iff_gt zero_less_mult_pos2 mult_pos_pos)
    show "0 < f x" using that by (simp add: f_def add_pos_nonneg)
  qed
  have val: "compute_contact_resistance x e r0 = r0 * f (\<bar>x - P_NOMINAL_MPA\<bar> / P_NOMINAL_MPA)" if "0.5 \<le> x" for x e
    using that f(2) [of "\<bar>x - P_NOMINAL_MPA\<bar> / P_NOMINAL_MPA" 0] assms(1)
    by (simp add: compute_contact_resistance_def Let_def f_def P_NOMINAL_MPA_def max_def)
  have "f 0 = 1" by (simp add: f_def)
  then show ?thesis
    using assms f by (simp add: val P_NOMINAL_MPA_def divide_less_cancel)
qed

theorem contact_resistance_u_shaped_witness:
  "compute_contact_resistance P_NOMINAL_MPA 0.78 0.0042 = 0.0042
    \<and> (compute_contact_resistance 5 0.78 0.0042 < compute_contact_resistance 2 0.78 0.0042
         \<longleftrightarrow> \<bar>5 - P_NOMINAL_MPA\<bar> < \<bar>2 - P_NOMINAL_MPA\<bar>)"
  by (rule contact_resistance_u_shaped) simp_all

end
