(* ===== verification/Stations.thy ===== *)
theory Stations
  imports Prelude
begin

text \<open>
  The manufacturing station kernels and their validating wrappers: MEA preparation
  (\<open>station1_mea_preparation.py\<close>), catalyst deposition (\<open>station2_catalyst_deposition.py\<close>), plate
  stamping (\<open>station3_bipolar_plate_stamping.py\<close>) and stack clamping (\<open>station4_stack_clamping.py\<close>).
  A kernel returns a record of its result tuple.
\<close>

section \<open>Station 1: hot-press cure\<close>

definition R_GAS :: real where "R_GAS = 8.3145"
definition A1_CURE :: real where "A1_CURE = 12000"
definition E1_CURE :: real where "E1_CURE = 58200"
definition A2_CURE :: real where "A2_CURE = 5500000"
definition E2_CURE :: real where "E2_CURE = 68500"
definition M_EXP :: real where "M_EXP = 0.48"
definition N_EXP :: real where "N_EXP = 1.52"
definition K_TIME_ACCELERATED :: real where "K_TIME_ACCELERATED = 1"
definition T_PRESS_NOMINAL_K :: real where "T_PRESS_NOMINAL_K = 433.15"
definition DWELL_TIME_NOMINAL_S :: real where "DWELL_TIME_NOMINAL_S = 180"
definition ALPHA_MIN_BOND :: real where "ALPHA_MIN_BOND = 0.85"
definition ALPHA_MAX_SAFE :: real where "ALPHA_MAX_SAFE = 0.98"
definition T_BASE_S1 :: real where "T_BASE_S1 = 5"

definition cure_rate :: "real \<Rightarrow> real \<Rightarrow> real \<Rightarrow> real res" where
  "cure_rate k1 k2 a =
     (let a_clamped = max 0 (min 0.9999 a) in
      res_bind (if a_clamped > 1 / 10 ^ 6
                then res_bind (fpow a_clamped M_EXP) (\<lambda>p. Inr (k2 * p)) else Inr 0) (\<lambda>term2.
      res_bind (fpow (1 - a_clamped) N_EXP) (\<lambda>p. Inr ((k1 + term2) * p))))"

definition cure_step :: "real \<Rightarrow> real \<Rightarrow> real \<Rightarrow> real \<Rightarrow> real res" where
  "cure_step k1 k2 dt alpha =
     res_bind (cure_rate k1 k2 alpha) (\<lambda>rk1.
     res_bind (cure_rate k1 k2 (alpha + 0.5 * dt * rk1)) (\<lambda>rk2.
     res_bind (cure_rate k1 k2 (alpha + 0.5 * dt * rk2)) (\<lambda>rk3.
     res_bind (cure_rate k1 k2 (alpha + dt * rk3)) (\<lambda>rk4.
     let alpha' = alpha + (dt / 6) * (rk1 + 2 * rk2 + 2 * rk3 + rk4)
     in Inr (max 0 (min 0.9999 alpha'))))))"

definition integrate_kamal_sourour :: "real \<Rightarrow> real \<Rightarrow> nat \<Rightarrow> real res" where
  "integrate_kamal_sourour t_press_k dwell_time_s n_steps =
     res_bind (fdiv dwell_time_s (real n_steps)) (\<lambda>dt.
     res_bind (fdiv (- E1_CURE) (R_GAS * t_press_k)) (\<lambda>x1.
     res_bind (fdiv (- E2_CURE) (R_GAS * t_press_k)) (\<lambda>x2.
     fold_range n_steps (\<lambda>_ alpha. cure_step (A1_CURE * exp x1) (A2_CURE * exp x2) dt alpha) 0)))"

record stage1_result =
  s1_proc_time_s :: real
  s1_is_defective :: bool
  s1_var_ratio :: real
  s1_alpha_final :: real
  s1_delamination_risk :: real
  s1_pinhole_risk :: real

definition simulate_stage1_mea_prep :: "real \<Rightarrow> real \<Rightarrow> real \<Rightarrow> stage1_result res" where
  "simulate_stage1_mea_prep t_press_k dwell_time_s k_time =
     res_bind (integrate_kamal_sourour t_press_k dwell_time_s 100) (\<lambda>alpha_final.
     let delamination_risk = max 0 (ALPHA_MIN_BOND - alpha_final) / ALPHA_MIN_BOND;
         pinhole_risk = max 0 (alpha_final - ALPHA_MAX_SAFE) / (1 - ALPHA_MAX_SAFE);
         temp_dev = \<bar>t_press_k - T_PRESS_NOMINAL_K\<bar> / T_PRESS_NOMINAL_K;
         dwell_dev = \<bar>dwell_time_s - DWELL_TIME_NOMINAL_S\<bar> / DWELL_TIME_NOMINAL_S
     in Inr \<lparr>s1_proc_time_s = k_time * T_BASE_S1 * (1 + 0.15 * temp_dev + 0.1 * dwell_dev),
             s1_is_defective = (alpha_final < ALPHA_MIN_BOND \<or> alpha_final > ALPHA_MAX_SAFE),
             s1_var_ratio = 1 + 0.3 * delamination_risk + 0.25 * pinhole_risk,
             s1_alpha_final = alpha_final,
             s1_delamination_risk = delamination_risk, s1_pinhole_risk = pinhole_risk\<rparr>)"

definition simulate_stage1_mea_prep_safe :: "real \<Rightarrow> real \<Rightarrow> real \<Rightarrow> stage1_result res" where
  "simulate_stage1_mea_prep_safe t_press_k dwell_time_s k_time =
     (if t_press_k < 273.15 then Inl ValueError
      else if dwell_time_s \<le> 0 then Inl ValueError
      else simulate_stage1_mea_prep t_press_k dwell_time_s k_time)"

section \<open>Station 2: slot-die coating\<close>

definition V_COAT_NOMINAL_M_S :: real where "V_COAT_NOMINAL_M_S = 0.15"
definition MU_SLURRY_NOMINAL_PA_S :: real where "MU_SLURRY_NOMINAL_PA_S = 0.05"
definition ECSA_RATIO_MIN_ACCEPTABLE :: real where "ECSA_RATIO_MIN_ACCEPTABLE = 0.7"
definition T_BASE_S2 :: real where "T_BASE_S2 = 12"

record stage2_result =
  s2_proc_time_s :: real
  s2_is_defective :: bool
  s2_var_ratio :: real
  s2_ecsa_ratio :: real

definition simulate_stage2_catalyst_deposition :: "real \<Rightarrow> real \<Rightarrow> real \<Rightarrow> stage2_result" where
  "simulate_stage2_catalyst_deposition v_coat_m_s mu_slurry_pa_s k_time =
     (let v_dev = \<bar>v_coat_m_s - V_COAT_NOMINAL_M_S\<bar> / V_COAT_NOMINAL_M_S;
          mu_dev = \<bar>mu_slurry_pa_s - MU_SLURRY_NOMINAL_PA_S\<bar> / MU_SLURRY_NOMINAL_PA_S;
          loading_variance = 0.35 * v_dev ^ 2 + 0.25 * mu_dev ^ 2 + 0.15 * v_dev * mu_dev;
          ecsa_ratio_raw = 1 - 0.45 * loading_variance - 0.2 * v_dev;
          ecsa_ratio = max 0.1 (min 1 ecsa_ratio_raw)
      in \<lparr>s2_proc_time_s = k_time * T_BASE_S2 * (1 + 0.12 * v_dev + 0.1 * mu_dev),
          s2_is_defective = (ecsa_ratio < ECSA_RATIO_MIN_ACCEPTABLE \<or> loading_variance > 0.3),
          s2_var_ratio = 1 + 0.4 * loading_variance,
          s2_ecsa_ratio = ecsa_ratio\<rparr>)"

definition simulate_stage2_catalyst_deposition_safe :: "real \<Rightarrow> real \<Rightarrow> real \<Rightarrow> stage2_result res" where
  "simulate_stage2_catalyst_deposition_safe v_coat_m_s mu_slurry_pa_s k_time =
     (if v_coat_m_s \<le> 0 then Inl ValueError
      else if mu_slurry_pa_s \<le> 0 then Inl ValueError
      else Inr (simulate_stage2_catalyst_deposition v_coat_m_s mu_slurry_pa_s k_time))"

section \<open>Station 3: stamping\<close>

definition F_NOM_S3 :: real where "F_NOM_S3 = 120"
definition A_TOTAL_CHANNELS_M2 :: real where "A_TOTAL_CHANNELS_M2 = 60 * ((1 / 1000) * (20 / 1000))"
definition K_WEAR_PVD :: real where "K_WEAR_PVD = 3.5 / 10 ^ 6"
definition K_WEAR_DUPLEX :: real where "K_WEAR_DUPLEX = 1.47 / 10 ^ 10"
definition GAMMA_ARCHARD :: real where "GAMMA_ARCHARD = 1.35"
definition W_CRIT :: real where "W_CRIT = 0.75"
definition C_CRIT_NCL :: real where "C_CRIT_NCL = 0.35"
definition K_STRENGTH_316L :: real where "K_STRENGTH_316L = 1280"
definition N_HARDENING_316L :: real where "N_HARDENING_316L = 0.43"
definition THETA_DIE_RAD :: real where "THETA_DIE_RAD = 10 * pi / 180"
definition MU0_FRICTION :: real where "MU0_FRICTION = 0.12"
definition ALPHA_F_FRICTION :: real where "ALPHA_F_FRICTION = 0.45"
definition EPS_P_SCALE :: real where "EPS_P_SCALE = 0.1456"

record stage3_result =
  s3_proc_time_s :: real
  s3_is_defective :: bool
  s3_var_ratio :: real
  s3_damage_index :: real

definition stamping_wear :: "real \<Rightarrow> int \<Rightarrow> real \<Rightarrow> bool \<Rightarrow> real res" where
  "stamping_wear press_force_kn die_stroke_count w0_initial_wear use_duplex_coating =
     (let k_wear = (if use_duplex_coating then K_WEAR_DUPLEX else K_WEAR_PVD)
      in res_bind (fpow (press_force_kn / F_NOM_S3) GAMMA_ARCHARD) (\<lambda>p.
         let wear_raw = w0_initial_wear + k_wear * of_int die_stroke_count * p
         in Inr (min 0.99999 (max 0 wear_raw))))"

definition stamping_damage :: "real \<Rightarrow> real \<Rightarrow> real res" where
  "stamping_damage press_force_kn wear_ratio =
     (let mu_local = MU0_FRICTION + ALPHA_F_FRICTION * wear_ratio;
          eps_p_final = EPS_P_SCALE * (press_force_kn / F_NOM_S3);
          sigma_mem_mpa = (press_force_kn * 1000 / A_TOTAL_CHANNELS_M2) / 10 ^ 6
      in res_bind (fpow (max eps_p_final (1 / 10 ^ 6)) N_HARDENING_316L) (\<lambda>h.
         let sigma_flow_mpa = K_STRENGTH_316L * h;
             sigma_1_mpa = sigma_mem_mpa * exp (mu_local * THETA_DIE_RAD) + sigma_flow_mpa
         in res_bind
              (if eps_p_final > 1 / 10 ^ 4
               then res_bind (fpow eps_p_final (1 - N_HARDENING_316L)) (\<lambda>e.
                    let work_plastic = (sigma_1_mpa / K_STRENGTH_316L) * e / (1 - N_HARDENING_316L)
                    in Inr (work_plastic / C_CRIT_NCL))
               else Inr 0)
              (\<lambda>damage_ncl. Inr (min 2 (max 0 damage_ncl)))))"

definition simulate_stage1_stamping :: "real \<Rightarrow> int \<Rightarrow> real \<Rightarrow> bool \<Rightarrow> real \<Rightarrow> stage3_result res" where
  "simulate_stage1_stamping press_force_kn die_stroke_count w0_initial_wear use_duplex_coating k_time =
     res_bind (stamping_wear press_force_kn die_stroke_count w0_initial_wear use_duplex_coating) (\<lambda>wear_ratio.
     res_bind (stamping_damage press_force_kn wear_ratio) (\<lambda>damage_index.
     let force_dev = \<bar>press_force_kn - F_NOM_S3\<bar> / F_NOM_S3
     in Inr \<lparr>s3_proc_time_s = k_time * 3 * (1 + 0.12 * force_dev + 0.18 * wear_ratio),
             s3_is_defective = (damage_index > 1 \<or> wear_ratio \<ge> W_CRIT),
             s3_var_ratio = 1 + 0.4 * wear_ratio + 0.3 * damage_index ^ 2,
             s3_damage_index = damage_index\<rparr>))"

definition simulate_stage1_stamping_safe :: "real \<Rightarrow> int \<Rightarrow> real \<Rightarrow> bool \<Rightarrow> real \<Rightarrow> stage3_result res" where
  "simulate_stage1_stamping_safe press_force_kn die_stroke_count w0_initial_wear use_duplex_coating k_time =
     (if press_force_kn < 0 then Inl ValueError
      else if die_stroke_count < 0 then Inl ValueError
      else if \<not> (0 \<le> w0_initial_wear \<and> w0_initial_wear < 1) then Inl ValueError
      else simulate_stage1_stamping press_force_kn die_stroke_count w0_initial_wear use_duplex_coating k_time)"

section \<open>Station 4: clamping\<close>

definition TORQUE_NOMINAL_NM :: real where "TORQUE_NOMINAL_NM = 46"
definition P_BOLT :: real where "P_BOLT = 1.25 / 1000"
definition D2_THREAD :: real where "D2_THREAD = 7.188 / 1000"
definition R_BEARING :: real where "R_BEARING = 5.125 / 1000"
definition BETA_RAD :: real where "BETA_RAD = 30 * pi / 180"
definition A_STACK :: real where "A_STACK = 0.0225"
definition GDL_T0_UM :: real where "GDL_T0_UM = 210"
definition GDL_EPS0 :: real where "GDL_EPS0 = 0.78"
definition GDL_TSOLID_UM :: real where "GDL_TSOLID_UM = GDL_T0_UM * (1 - GDL_EPS0)"
definition GDL_E0_MPA :: real where "GDL_E0_MPA = 2.8"
definition GDL_KS :: real where "GDL_KS = 28.5"
definition ELASTIC_COUPLING_COEF :: real where "ELASTIC_COUPLING_COEF = 0.18"

record stage4_result =
  s4_proc_time_s :: real
  s4_is_defective :: bool
  s4_var_ratio :: real
  s4_gdl_porosity :: real
  s4_e_tangent_mpa :: real
  s4_p_clamp_mpa :: real

definition bolt_force :: "real list \<Rightarrow> real list \<Rightarrow> nat \<Rightarrow> real res" where
  "bolt_force applied_torques friction_coefficients i =
     res_bind (aget friction_coefficients (int i)) (\<lambda>f_th.
     res_bind (aget friction_coefficients (int (i + 4))) (\<lambda>f_b.
     let mu_th = (if f_th > 0 then f_th else 0.15);
         mu_b = (if f_b > 0 then f_b else 0.15);
         denom = P_BOLT / (2 * pi) + (mu_th * D2_THREAD / (2 * cos BETA_RAD)) + (mu_b * R_BEARING)
     in res_bind (aget applied_torques (int i)) (\<lambda>tau. fdiv tau denom)))"

definition clamp_pressure :: "real list \<Rightarrow> real list \<Rightarrow> real res" where
  "clamp_pressure applied_torques friction_coefficients =
     res_bind (map_res (bolt_force applied_torques friction_coefficients) [0, 1, 2, 3]) (\<lambda>f_nom.
     let real_force = (\<lambda>i k. f_nom ! i - ELASTIC_COUPLING_COEF * f_nom ! k);
         f_total_n = max 0 (real_force 0 3) + max 0 (real_force 1 0)
                     + max 0 (real_force 2 1) + max 0 (real_force 3 2);
         p_clamp_pa = f_total_n / A_STACK
     in Inr (p_clamp_pa / 10 ^ 6))"

definition compressed_porosity :: "real \<Rightarrow> real res" where
  "compressed_porosity p_clamp_mpa =
     res_bind (fdiv p_clamp_mpa (GDL_E0_MPA + GDL_KS * p_clamp_mpa)) (\<lambda>q.
     let t_comp_raw = GDL_T0_UM * (1 - q);
         t_comp_um = max (GDL_TSOLID_UM + 1) t_comp_raw
     in res_bind (fdiv GDL_T0_UM t_comp_um) (\<lambda>g.
        Inr (max 0.01 (min 0.95 (1 - (1 - GDL_EPS0) * g)))))"

definition torque_std :: "real list \<Rightarrow> real res" where
  "torque_std applied_torques =
     res_bind (map_res (\<lambda>i. aget applied_torques (int i)) [0, 1, 2, 3]) (\<lambda>taus.
     let tau_mean = sum_list taus / 4;
         sq_diff = sum_list (map (\<lambda>t. (t - tau_mean) ^ 2) taus)
     in np_sqrt (sq_diff / 3))"

definition simulate_stage2_clamping :: "real list \<Rightarrow> real list \<Rightarrow> bool \<Rightarrow> real \<Rightarrow> stage4_result res" where
  "simulate_stage2_clamping applied_torques friction_coefficients is_station_4 k_time =
     (let t_base = (if is_station_4 then 24 else 3) in
      res_bind (clamp_pressure applied_torques friction_coefficients) (\<lambda>p_clamp_mpa.
      res_bind (compressed_porosity p_clamp_mpa) (\<lambda>gdl_porosity.
      res_bind (torque_std applied_torques) (\<lambda>tau_std_unbiased.
      let under_clamped = p_clamp_mpa < 3;
          over_clamped = p_clamp_mpa > 5.5;
          imbalanced = tau_std_unbiased > (if is_station_4 then 1.2 else 1.8);
          p_dev = \<bar>p_clamp_mpa - 4.25\<bar> / 4.25
      in Inr \<lparr>s4_proc_time_s = k_time * t_base * (1 + 0.08 * tau_std_unbiased),
              s4_is_defective = (under_clamped \<or> over_clamped \<or> imbalanced),
              s4_var_ratio = 1 + 0.35 * p_dev + 0.25 * tau_std_unbiased,
              s4_gdl_porosity = gdl_porosity,
              s4_e_tangent_mpa = GDL_E0_MPA * (1 + (GDL_KS / GDL_E0_MPA) * p_clamp_mpa) ^ 2,
              s4_p_clamp_mpa = p_clamp_mpa\<rparr>))))"

definition simulate_stage2_clamping_safe :: "real list \<Rightarrow> real list \<Rightarrow> bool \<Rightarrow> real \<Rightarrow> stage4_result res" where
  "simulate_stage2_clamping_safe applied_torques friction_coefficients is_station_4 k_time =
     (if length applied_torques \<noteq> 4 then Inl ValueError
      else if length friction_coefficients \<noteq> 8 then Inl ValueError
      else if list_ex (\<lambda>t. t < 0) applied_torques then Inl ValueError
      else simulate_stage2_clamping applied_torques friction_coefficients is_station_4 k_time)"

section \<open>Facts\<close>

lemma cure_rate_total:
  assumes "0 \<le> k1" and "0 \<le> k2"
  shows "\<exists>r. cure_rate k1 k2 a = Inr r \<and> 0 \<le> r"
proof -
  define c where "c = max 0 (min 0.9999 a)"
  have c: "0 \<le> c" "0 < 1 - c" by (simp_all add: c_def)
  have "fpow (1 - c) N_EXP = Inr ((1 - c) powr N_EXP)" using c by (simp add: fpow_pos)
  then show ?thesis
    using assms c unfolding cure_rate_def c_def [symmetric] Let_def
    by (auto simp: fpow_pos intro!: mult_nonneg_nonneg add_nonneg_nonneg)
qed

lemma cure_step_total:
  assumes "0 \<le> k1" and "0 \<le> k2" and "0 \<le> dt"
  shows "\<exists>b. cure_step k1 k2 dt a = Inr b \<and> 0 \<le> b \<and> b \<le> 0.9999 \<and> (a \<le> 0.9999 \<longrightarrow> a \<le> b)"
proof -
  obtain r1 where 1: "cure_rate k1 k2 a = Inr r1" "0 \<le> r1" using cure_rate_total [OF assms(1,2)] by blast
  obtain r2 where 2: "cure_rate k1 k2 (a + 0.5 * dt * r1) = Inr r2" "0 \<le> r2"
    using cure_rate_total [OF assms(1,2)] by blast
  obtain r3 where 3: "cure_rate k1 k2 (a + 0.5 * dt * r2) = Inr r3" "0 \<le> r3"
    using cure_rate_total [OF assms(1,2)] by blast
  obtain r4 where 4: "cure_rate k1 k2 (a + dt * r3) = Inr r4" "0 \<le> r4"
    using cure_rate_total [OF assms(1,2)] by blast
  define inc where "inc = (dt / 6) * (r1 + 2 * r2 + 2 * r3 + r4)"
  have "0 \<le> inc" using assms 1 2 3 4 by (simp add: inc_def)
  moreover have "cure_step k1 k2 dt a = Inr (max 0 (min 0.9999 (a + inc)))"
    using 1 2 3 4 by (simp add: cure_step_def inc_def Let_def)
  moreover have "0 \<le> max 0 (min 0.9999 (a + inc))" "max 0 (min 0.9999 (a + inc)) \<le> 0.9999"
    by (rule max_min_range, simp)+
  moreover have "a \<le> max 0 (min 0.9999 (a + inc))" if "a \<le> 0.9999"
    using that \<open>0 \<le> inc\<close> by (simp add: le_max_iff_disj)
  ultimately show ?thesis by blast
qed

lemma integrate_total:
  assumes "0 < T" and "0 \<le> dwell" and "0 < n"
  shows "\<exists>a. integrate_kamal_sourour T dwell n = Inr a \<and> 0 \<le> a \<and> a \<le> 0.9999"
proof -
  define k1 k2 where "k1 = A1_CURE * exp (- E1_CURE / (R_GAS * T))" and "k2 = A2_CURE * exp (- E2_CURE / (R_GAS * T))"
  have k: "0 \<le> k1" "0 \<le> k2" by (simp_all add: k1_def k2_def A1_CURE_def A2_CURE_def)
  have "0 \<le> dwell / real n" using assms by simp
  note step = cure_step_total [OF k this]
  have "\<exists>a. fold_from 0 n (\<lambda>_. cure_step k1 k2 (dwell / real n)) 0 = Inr a \<and> 0 \<le> a \<and> a \<le> 0.9999"
  proof (rule fold_from_total_inv [where I = "\<lambda>_ a. 0 \<le> a \<and> a \<le> 0.9999"])
    show "\<exists>b. cure_step k1 k2 (dwell / real n) a = Inr b \<and> 0 \<le> b \<and> b \<le> 0.9999" for a
      using step [of a] by blast
  qed simp
  then show ?thesis
    using assms by (simp add: integrate_kamal_sourour_def fdiv_def R_GAS_def k1_def k2_def)
qed

lemma stamping_wear_value:
  assumes "0 \<le> F"
  shows "stamping_wear F n w0 duplex = Inr (min 0.99999 (max 0
    (w0 + (if duplex then K_WEAR_DUPLEX else K_WEAR_PVD) * of_int n * (F / F_NOM_S3) powr GAMMA_ARCHARD)))"
  using assms by (simp add: stamping_wear_def Let_def fpow_nonneg F_NOM_S3_def GAMMA_ARCHARD_def)

lemma stamping_damage_mono:
  assumes "0 \<le> F" and "w1 \<le> w2"
  shows "\<exists>d1 d2. stamping_damage F w1 = Inr d1 \<and> stamping_damage F w2 = Inr d2
    \<and> 0 \<le> d1 \<and> d1 \<le> d2 \<and> d2 \<le> 2"
proof -
  define e where "e = EPS_P_SCALE * (F / F_NOM_S3)"
  define h where "h = (max e (1 / 10 ^ 6)) powr N_HARDENING_316L"
  define sm where "sm = (F * 1000 / A_TOTAL_CHANNELS_M2) / 10 ^ 6"
  define s1 where "s1 = (\<lambda>w. sm * exp ((MU0_FRICTION + ALPHA_F_FRICTION * w) * THETA_DIE_RAD) + K_STRENGTH_316L * h)"
  define dm where "dm = (\<lambda>w. if e > 1 / 10 ^ 4
     then (s1 w / K_STRENGTH_316L) * e powr (1 - N_HARDENING_316L) / (1 - N_HARDENING_316L) / C_CRIT_NCL else 0)"
  have pos: "0 < max e (1 / 10 ^ 6)" by (rule max.strict_coboundedI2) simp
  have epos: "0 < e" if "1 / 10 ^ 4 < e" using that by (rule less_trans [rotated]) simp
  have val: "stamping_damage F w = Inr (min 2 (max 0 (dm w)))" for w
    using pos epos unfolding stamping_damage_def Let_def e_def [symmetric] sm_def [symmetric]
    by (simp add: fpow_pos dm_def s1_def h_def)
  have sm: "0 \<le> sm" using assms by (simp add: sm_def A_TOTAL_CHANNELS_M2_def)
  have th: "0 \<le> THETA_DIE_RAD" by (simp add: THETA_DIE_RAD_def)
  have "(MU0_FRICTION + ALPHA_F_FRICTION * w1) * THETA_DIE_RAD \<le> (MU0_FRICTION + ALPHA_F_FRICTION * w2) * THETA_DIE_RAD"
    using assms th by (intro mult_right_mono) (simp_all add: ALPHA_F_FRICTION_def)
  then have "s1 w1 \<le> s1 w2" using sm by (simp add: s1_def mult_left_mono)
  then have "dm w1 \<le> dm w2"
    by (simp add: dm_def K_STRENGTH_316L_def N_HARDENING_316L_def C_CRIT_NCL_def mult_right_mono divide_right_mono)
  then show ?thesis by (auto simp: val)
qed

lemma bolt_force_total:
  assumes "length taus = 4" and "length fr = 8" and "i < 4"
  shows "\<exists>f. bolt_force taus fr i = Inr f"
proof -
  have cos: "0 < cos BETA_RAD"
    by (rule cos_gt_zero_pi) (simp_all add: BETA_RAD_def pi_gt_zero field_simps)
  define a b where "a = (if fr ! i > 0 then fr ! i else 0.15)" and "b = (if fr ! (i + 4) > 0 then fr ! (i + 4) else 0.15)"
  have "0 < a" "0 < b" by (simp_all add: a_def b_def)
  then have "0 < P_BOLT / (2 * pi) + a * D2_THREAD / (2 * cos BETA_RAD) + b * R_BEARING"
    using cos by (intro add_pos_pos) (simp_all add: P_BOLT_def D2_THREAD_def R_BEARING_def)
  moreover have "aget fr (int i) = Inr (fr ! i)" "aget fr (int (i + 4)) = Inr (fr ! (i + 4))"
    "aget taus (int i) = Inr (taus ! i)"
    using assms aget_nat [of i fr] aget_nat [of "i + 4" fr] aget_nat [of i taus] by simp_all
  ultimately show ?thesis
    unfolding bolt_force_def Let_def a_def [symmetric] b_def [symmetric] by (simp add: fdiv_def a_def b_def)
qed

lemma clamp_pressure_total:
  assumes "length taus = 4" and "length fr = 8"
  shows "\<exists>p. clamp_pressure taus fr = Inr p \<and> 0 \<le> p"
proof -
  have "\<exists>fs. map_res (bolt_force taus fr) [0, 1, 2, 3] = Inr fs"
    by (rule map_res_total, rule bolt_force_total [OF assms]) auto
  then obtain fs where fs: "map_res (bolt_force taus fr) [0, 1, 2, 3] = Inr fs" ..
  define f where "f = max 0 (fs ! 0 - ELASTIC_COUPLING_COEF * fs ! 3)
      + max 0 (fs ! 1 - ELASTIC_COUPLING_COEF * fs ! 0)
      + max 0 (fs ! 2 - ELASTIC_COUPLING_COEF * fs ! 1) + max 0 (fs ! 3 - ELASTIC_COUPLING_COEF * fs ! 2)"
  have "clamp_pressure taus fr = Inr (f / A_STACK / 10 ^ 6)"
    unfolding clamp_pressure_def fs Let_def f_def by simp
  moreover have "0 \<le> f" by (simp add: f_def)
  moreover from this have "0 \<le> f / A_STACK / 10 ^ 6" by (simp add: A_STACK_def)
  ultimately show ?thesis by blast
qed

lemma compressed_porosity_total:
  assumes "0 \<le> p"
  shows "\<exists>e. compressed_porosity p = Inr e \<and> 0.01 \<le> e \<and> e \<le> 0.95"
proof -
  have d: "GDL_E0_MPA + GDL_KS * p \<noteq> 0"
    using assms add_pos_nonneg [of GDL_E0_MPA "GDL_KS * p"] by (simp add: GDL_E0_MPA_def GDL_KS_def)
  have "0 < max (GDL_TSOLID_UM + 1) x" for x
    by (rule max.strict_coboundedI1) (simp add: GDL_TSOLID_UM_def GDL_T0_UM_def GDL_EPS0_def)
  then have "max (GDL_TSOLID_UM + 1) x \<noteq> 0" for x by (metis less_irrefl)
  with d obtain x where "compressed_porosity p = Inr (max 0.01 (min 0.95 x))"
    by (simp add: compressed_porosity_def fdiv_def Let_def)
  then show ?thesis using max_min_range [of "0.01" "0.95" x] by simp
qed

lemma torque_std_total:
  assumes "length taus = 4"
  shows "\<exists>t. torque_std taus = Inr t \<and> 0 \<le> t"
proof -
  have "\<exists>xs. map_res (\<lambda>i. aget taus (int i)) [0, 1, 2, 3] = Inr xs"
    by (rule map_res_total) (use assms in \<open>auto simp: aget_def py_index_def\<close>)
  then obtain xs where xs: "map_res (\<lambda>i. aget taus (int i)) [0, 1, 2, 3] = Inr xs" ..
  have "0 \<le> sum_list (map (\<lambda>t. (t - m) ^ 2) xs)" for m by (rule sum_list_nonneg) auto
  then have "torque_std taus = Inr (sqrt (sum_list (map (\<lambda>t. (t - sum_list xs / 4) ^ 2) xs) / 3))"
    and "0 \<le> sqrt (sum_list (map (\<lambda>t. (t - sum_list xs / 4) ^ 2) xs) / 3)"
    using xs by (simp_all add: torque_std_def np_sqrt_def Let_def del: map_res.simps)
  then show ?thesis by blast
qed

section \<open>Properties\<close>

text \<open>
  Station 1 raises a ValueError exactly on a cold press or a non-positive dwell time, and
  otherwise returns a degree of cure in [0, 0.9999], risks in [0, 1] and a variance ratio in
  [1, 1.55]; a part is defective exactly when one of the two risks is positive, and never both are.
\<close>

theorem station1_outcomes:
  "(\<exists>r. simulate_stage1_mea_prep_safe T dwell k = Inr r
      \<and> 273.15 \<le> T \<and> 0 < dwell
      \<and> 0 \<le> s1_alpha_final r \<and> s1_alpha_final r \<le> 0.9999
      \<and> 0 \<le> s1_delamination_risk r \<and> s1_delamination_risk r \<le> 1
      \<and> 0 \<le> s1_pinhole_risk r \<and> s1_pinhole_risk r \<le> 1
      \<and> 1 \<le> s1_var_ratio r \<and> s1_var_ratio r \<le> 1.55
      \<and> (s1_is_defective r \<longleftrightarrow> 0 < s1_delamination_risk r \<or> 0 < s1_pinhole_risk r)
      \<and> (s1_delamination_risk r = 0 \<or> s1_pinhole_risk r = 0))
   \<or> (simulate_stage1_mea_prep_safe T dwell k = Inl ValueError \<and> (T < 273.15 \<or> dwell \<le> 0))"
proof (cases "T < 273.15 \<or> dwell \<le> 0")
  case True
  then show ?thesis by (auto simp: simulate_stage1_mea_prep_safe_def)
next
  case False
  then obtain a where a: "integrate_kamal_sourour T dwell 100 = Inr a" "0 \<le> a" "a \<le> 0.9999"
    using integrate_total [of T dwell 100] by auto
  have d: "0 \<le> max 0 (0.85 - a) / 0.85" "max 0 (0.85 - a) / 0.85 \<le> 1"
    "0 \<le> max 0 (a - 0.98) / 0.02" "max 0 (a - 0.98) / 0.02 \<le> 1"
    "(a < 0.85 \<or> a > 0.98) \<longleftrightarrow> 0 < max 0 (0.85 - a) / 0.85 \<or> 0 < max 0 (a - 0.98) / 0.02"
    "max 0 (0.85 - a) / 0.85 = 0 \<or> max 0 (a - 0.98) / 0.02 = 0"
    using a(2,3) by (auto simp: max_def field_simps)
  show ?thesis
    using False a d by (simp add: simulate_stage1_mea_prep_safe_def simulate_stage1_mea_prep_def
        ALPHA_MIN_BOND_def ALPHA_MAX_SAFE_def Let_def)
qed

text \<open>
  Station 2 raises a ValueError exactly on a non-positive speed or viscosity; otherwise the
  ECSA ratio is in [0.1, 1], is 1 exactly at the nominal coating speed and viscosity (the sanity
  check's pristine part, never defective), and a coating speed of 0.30 m/s or more is defective.
\<close>

theorem station2_outcomes:
  "(0 < v \<and> 0 < mu \<longrightarrow> (\<exists>r. simulate_stage2_catalyst_deposition_safe v mu k = Inr r
      \<and> 0.1 \<le> s2_ecsa_ratio r \<and> s2_ecsa_ratio r \<le> 1
      \<and> (s2_ecsa_ratio r = 1 \<longleftrightarrow> v = V_COAT_NOMINAL_M_S \<and> mu = MU_SLURRY_NOMINAL_PA_S)
      \<and> (s2_ecsa_ratio r = 1 \<longrightarrow> \<not> s2_is_defective r)
      \<and> (0.3 \<le> v \<longrightarrow> s2_is_defective r)))
   \<and> (\<not> (0 < v \<and> 0 < mu) \<longrightarrow> simulate_stage2_catalyst_deposition_safe v mu k = Inl ValueError)"
proof (intro conjI impI)
  define vd md where "vd = \<bar>v - V_COAT_NOMINAL_M_S\<bar> / V_COAT_NOMINAL_M_S"
    and "md = \<bar>mu - MU_SLURRY_NOMINAL_PA_S\<bar> / MU_SLURRY_NOMINAL_PA_S"
  define lv where "lv = 0.35 * vd ^ 2 + 0.25 * md ^ 2 + 0.15 * vd * md"
  have nn: "0 \<le> vd" "0 \<le> md" by (simp_all add: vd_def md_def V_COAT_NOMINAL_M_S_def MU_SLURRY_NOMINAL_PA_S_def)
  have sq: "0 \<le> vd ^ 2" "0 \<le> md ^ 2" "0 \<le> vd * md" using nn by simp_all
  have z: "vd = 0 \<longleftrightarrow> v = V_COAT_NOMINAL_M_S" "md = 0 \<longleftrightarrow> mu = MU_SLURRY_NOMINAL_PA_S"
    by (simp_all add: vd_def md_def V_COAT_NOMINAL_M_S_def MU_SLURRY_NOMINAL_PA_S_def)
  have one: "0.45 * lv + 0.2 * vd = 0 \<longleftrightarrow> vd = 0 \<and> md = 0"
  proof
    assume "0.45 * lv + 0.2 * vd = 0"
    moreover have "0 \<le> 0.45 * lv" unfolding lv_def using nn
      by (intro add_nonneg_nonneg mult_nonneg_nonneg) simp_all
    ultimately have "0.45 * lv = 0" "vd = 0" using nn by linarith+
    then have "vd = 0" "lv = 0" by simp_all
    then have "md ^ 2 = 0" by (simp add: lv_def)
    then show "vd = 0 \<and> md = 0" using \<open>vd = 0\<close> by simp
  qed (simp add: lv_def)
  have lvnn: "0 \<le> lv" unfolding lv_def using nn by (intro add_nonneg_nonneg mult_nonneg_nonneg) simp_all
  assume "0 < v \<and> 0 < mu"
  then have r: "simulate_stage2_catalyst_deposition_safe v mu k = Inr (simulate_stage2_catalyst_deposition v mu k)"
    by (simp add: simulate_stage2_catalyst_deposition_safe_def)
  have e: "s2_ecsa_ratio (simulate_stage2_catalyst_deposition v mu k) = max 0.1 (min 1 (1 - (0.45 * lv + 0.2 * vd)))"
    and df: "s2_is_defective (simulate_stage2_catalyst_deposition v mu k)
      \<longleftrightarrow> max 0.1 (min 1 (1 - (0.45 * lv + 0.2 * vd))) < 0.7 \<or> lv > 0.3"
    unfolding simulate_stage2_catalyst_deposition_def Let_def vd_def [symmetric] md_def [symmetric]
      lv_def [symmetric] ECSA_RATIO_MIN_ACCEPTABLE_def
    by (simp_all add: diff_diff_eq)
  have "0 \<le> 0.45 * lv + 0.2 * vd" using lvnn nn by simp
  then have e1: "max 0.1 (min 1 (1 - (0.45 * lv + 0.2 * vd))) = 1 \<longleftrightarrow> 0.45 * lv + 0.2 * vd = 0"
    by (auto simp: max_def min_def)
  have fast: "0.3 < lv" if "0.3 \<le> v"
  proof -
    have "1 \<le> vd" using that by (simp add: vd_def V_COAT_NOMINAL_M_S_def)
    then have "1 \<le> vd ^ 2" by simp
    then have "0.35 * 1 + 0 \<le> 0.35 * vd ^ 2 + (0.25 * md ^ 2 + 0.15 * vd * md)"
      using nn by (intro add_mono mult_left_mono add_nonneg_nonneg mult_nonneg_nonneg) simp_all
    then have "0.35 \<le> lv" by (simp add: lv_def)
    then show ?thesis by simp
  qed
  show "\<exists>r. simulate_stage2_catalyst_deposition_safe v mu k = Inr r
      \<and> 0.1 \<le> s2_ecsa_ratio r \<and> s2_ecsa_ratio r \<le> 1
      \<and> (s2_ecsa_ratio r = 1 \<longleftrightarrow> v = V_COAT_NOMINAL_M_S \<and> mu = MU_SLURRY_NOMINAL_PA_S)
      \<and> (s2_ecsa_ratio r = 1 \<longrightarrow> \<not> s2_is_defective r) \<and> (0.3 \<le> v \<longrightarrow> s2_is_defective r)"
    unfolding r by (rule exI, intro conjI, rule refl) (use e e1 df one z fast in \<open>auto simp: lv_def\<close>)
qed (auto simp: simulate_stage2_catalyst_deposition_safe_def)

theorem station2_outcomes_witness:
  "(\<exists>r. simulate_stage2_catalyst_deposition_safe 0.35 0.25 7 = Inr r
      \<and> 0.1 \<le> s2_ecsa_ratio r \<and> s2_ecsa_ratio r \<le> 1 \<and> s2_is_defective r)
   \<and> simulate_stage2_catalyst_deposition_safe 0.35 0 7 = Inl ValueError"
  using station2_outcomes [of "0.35" "0.25" 7] station2_outcomes [of "0.35" 0 7] by auto

text \<open>
  Tool wear never heals: station 3 returns for every valid input, with a damage index in [0, 2],
  and a part stamped after more strokes has at least the wear-driven damage of an earlier one: once
  the press makes defective parts at a force, it does so at every later stroke count.
\<close>

theorem station3_wear_monotone:
  assumes "0 \<le> F" and "0 \<le> n" and "n \<le> n'" and "0 \<le> w0" and "w0 < 1"
  shows "\<exists>r r'. simulate_stage1_stamping_safe F n w0 duplex k = Inr r
    \<and> simulate_stage1_stamping_safe F n' w0 duplex k = Inr r'
    \<and> 0 \<le> s3_damage_index r \<and> s3_damage_index r \<le> s3_damage_index r' \<and> s3_damage_index r' \<le> 2
    \<and> (s3_is_defective r \<longrightarrow> s3_is_defective r')"
proof -
  define kw where "kw = (if duplex then K_WEAR_DUPLEX else K_WEAR_PVD)"
  define w where "w = (\<lambda>n. min 0.99999 (max 0 (w0 + kw * of_int n * (F / F_NOM_S3) powr GAMMA_ARCHARD)))"
  have "0 \<le> kw" by (simp add: kw_def K_WEAR_DUPLEX_def K_WEAR_PVD_def)
  then have "kw * of_int n * (F / F_NOM_S3) powr GAMMA_ARCHARD \<le> kw * of_int n' * (F / F_NOM_S3) powr GAMMA_ARCHARD"
    using assms by (intro mult_right_mono mult_left_mono) auto
  then have mono: "w n \<le> w n'" unfolding w_def by (intro min.mono max.mono add_mono order.refl)
  have sw: "stamping_wear F m w0 duplex = Inr (w m)" for m
    using stamping_wear_value [OF assms(1)] by (simp add: w_def kw_def)
  obtain d d' where "stamping_damage F (w n) = Inr d" "stamping_damage F (w n') = Inr d'"
    "0 \<le> d" "d \<le> d'" "d' \<le> 2"
    using stamping_damage_mono [OF assms(1) mono] by blast
  then show ?thesis
    using assms sw mono
    by (auto simp: simulate_stage1_stamping_safe_def simulate_stage1_stamping_def Let_def)
qed

theorem station3_wear_monotone_witness:
  "\<exists>r r'. simulate_stage1_stamping_safe 120 0 0.05 False 1 = Inr r
    \<and> simulate_stage1_stamping_safe 120 250000 0.05 False 1 = Inr r'
    \<and> 0 \<le> s3_damage_index r \<and> s3_damage_index r \<le> s3_damage_index r' \<and> s3_damage_index r' \<le> 2"
proof -
  have "0 \<le> (120::real)" "0 \<le> (0::int)" "0 \<le> (250000::int)" "0 \<le> (0.05::real)" "0.05 < (1::real)" by simp_all
  from station3_wear_monotone [OF this] show ?thesis by blast
qed

text \<open>
  Station 4 raises a ValueError exactly on arrays of the wrong shape or a negative torque;
  otherwise it returns a clamping pressure of at least zero, a porosity in [0.01, 0.95] and a
  tangent modulus no lower than the initial one.
\<close>

theorem station4_outcomes:
  "(length taus = 4 \<and> length fr = 8 \<and> (\<forall>t \<in> set taus. 0 \<le> t) \<longrightarrow>
     (\<exists>r. simulate_stage2_clamping_safe taus fr s4 k = Inr r
        \<and> 0 \<le> s4_p_clamp_mpa r \<and> 0.01 \<le> s4_gdl_porosity r \<and> s4_gdl_porosity r \<le> 0.95
        \<and> GDL_E0_MPA \<le> s4_e_tangent_mpa r
        \<and> (\<not> s4_is_defective r \<longrightarrow> 3 \<le> s4_p_clamp_mpa r \<and> s4_p_clamp_mpa r \<le> 5.5)))
   \<and> (\<not> (length taus = 4 \<and> length fr = 8 \<and> (\<forall>t \<in> set taus. 0 \<le> t)) \<longrightarrow>
        simulate_stage2_clamping_safe taus fr s4 k = Inl ValueError)"
proof (intro conjI impI)
  assume A: "length taus = 4 \<and> length fr = 8 \<and> (\<forall>t \<in> set taus. 0 \<le> t)"
  obtain p where p: "clamp_pressure taus fr = Inr p" "0 \<le> p" using clamp_pressure_total A by blast
  obtain e where e: "compressed_porosity p = Inr e" "0.01 \<le> e" "e \<le> 0.95"
    using compressed_porosity_total [OF p(2)] by blast
  obtain t where t: "torque_std taus = Inr t" using torque_std_total A by blast
  have "1 \<le> (1 + GDL_KS / GDL_E0_MPA * p) ^ 2"
    using p(2) by (simp add: GDL_KS_def GDL_E0_MPA_def)
  then have "GDL_E0_MPA \<le> GDL_E0_MPA * (1 + GDL_KS / GDL_E0_MPA * p) ^ 2"
    by (simp add: GDL_E0_MPA_def)
  moreover have "\<not> list_ex (\<lambda>t. t < 0) taus" using A by (auto simp: list_ex_iff)
  ultimately show "\<exists>r. simulate_stage2_clamping_safe taus fr s4 k = Inr r
        \<and> 0 \<le> s4_p_clamp_mpa r \<and> 0.01 \<le> s4_gdl_porosity r \<and> s4_gdl_porosity r \<le> 0.95
        \<and> GDL_E0_MPA \<le> s4_e_tangent_mpa r
        \<and> (\<not> s4_is_defective r \<longrightarrow> 3 \<le> s4_p_clamp_mpa r \<and> s4_p_clamp_mpa r \<le> 5.5)"
    using A p e t
    by (simp add: simulate_stage2_clamping_safe_def simulate_stage2_clamping_def Let_def)
qed (auto simp: simulate_stage2_clamping_safe_def list_ex_iff not_le)

theorem station4_outcomes_witness:
  "(\<exists>r. simulate_stage2_clamping_safe [12, 12, 12, 12] (replicate 8 0.12) True 7 = Inr r
      \<and> 0 \<le> s4_p_clamp_mpa r \<and> 0.01 \<le> s4_gdl_porosity r \<and> s4_gdl_porosity r \<le> 0.95)
   \<and> simulate_stage2_clamping_safe [12, 12, 12] (replicate 8 0.12) True 7 = Inl ValueError"
  using station4_outcomes [of "[12, 12, 12, 12]" "replicate 8 0.12" True 7]
    station4_outcomes [of "[12, 12, 12]" "replicate 8 0.12" True 7] by (simp, blast)

end
