(* ===== verification/Pemfc.thy ===== *)
theory Pemfc
  imports CellPhysics
begin

text \<open>
  The fuel cell model \<open>factory_simulation/pemfc_model.py\<close>: Nernst potential, exchange current,
  liquid saturation, polarization curve, the Newton solver for the operating point and the two
  polarization sweeps. Failure flags are 32-bit words. The scratch rows of the parallel sweep are
  written and never read, so only its flag cells are modelled; the races on them are the step
  relation \<open>flag_step\<close>.
\<close>

unbundle bit_operations_syntax

section \<open>Constants\<close>

definition OHMIC_DEGRADATION :: "32 word" where "OHMIC_DEGRADATION = 1"
definition MASS_TRANSPORT_STARVATION :: "32 word" where "MASS_TRANSPORT_STARVATION = 2"
definition THERMAL_SHUTDOWN :: "32 word" where "THERMAL_SHUTDOWN = 4"
definition LOW_ACTIVATION :: "32 word" where "LOW_ACTIVATION = 8"
definition SOLVER_DID_NOT_CONVERGE :: "32 word" where "SOLVER_DID_NOT_CONVERGE = 16"
definition OHMIC_DEGRADATION_ETA_V :: real where "OHMIC_DEGRADATION_ETA_V = 0.35"
definition THERMAL_SHUTDOWN_TEMP_K :: real where "THERMAL_SHUTDOWN_TEMP_K = 358.15"
definition LOW_ACTIVATION_ACTIVITY_FLOOR :: real where "LOW_ACTIVATION_ACTIVITY_FLOOR = 0.7"

lemmas flag_defs = OHMIC_DEGRADATION_def MASS_TRANSPORT_STARVATION_def THERMAL_SHUTDOWN_def
  LOW_ACTIVATION_def SOLVER_DID_NOT_CONVERGE_def

definition fc_R :: real where "fc_R = 8.314462618"
definition fc_F :: real where "fc_F = 96485.33212"

section \<open>Cell functions\<close>

definition calculate_nernst_potential :: "real \<Rightarrow> real \<Rightarrow> real \<Rightarrow> real res" where
  "calculate_nernst_potential T a_h2 a_o2 =
     (if \<not> (0.5 \<le> a_h2 \<and> a_h2 \<le> 10) then Inl ValueError
      else if \<not> (0.5 \<le> a_o2 \<and> a_o2 \<le> 10) then Inl ValueError
      else res_bind (fpow a_o2 0.5) (\<lambda>s.
           res_bind (np_log (a_h2 * s)) (\<lambda>l.
           Inr (1.229 - 0.85 / 1000 * (T - 298.15) + (fc_R * T) / (2 * fc_F) * l))))"

definition effective_j0 :: "real \<Rightarrow> real \<Rightarrow> real \<Rightarrow> real \<Rightarrow> real \<Rightarrow> real res" where
  "effective_j0 j0_ref ecsa_ratio T E_act T_ref =
     (let ecsa_clamped = max (1 / 10 ^ 4) ecsa_ratio in
      res_bind (fdiv E_act (fc_R * T)) (\<lambda>e.
      res_bind (fdiv T T_ref) (\<lambda>q.
      Inr (j0_ref * ecsa_clamped * exp (- e * (1 - q))))))"

text \<open>The kinetic constants the cell model passes to it.\<close>

definition orr_j0 :: "real \<Rightarrow> real \<Rightarrow> real res" where
  "orr_j0 ecsa_ratio T = effective_j0 (2.5 / 10 ^ 8) ecsa_ratio T 68500 353.15"

definition GDL_SATURATION_CAPACITY :: real where "GDL_SATURATION_CAPACITY = 0.35"
definition D0_O2_GDL :: real where "D0_O2_GDL = 2.2 / 10 ^ 5"

definition step_liquid_saturation :: "real \<Rightarrow> real \<Rightarrow> real \<Rightarrow> real \<Rightarrow> real" where
  "step_liquid_saturation s_current current_density_a_cm2 m_dot_air_removal dt =
     (let water_production = (current_density_a_cm2 * 10 ^ 4) / (2 * fc_F);
          water_removal = m_dot_air_removal * (1 / 10 ^ 4);
          ds_dt = (water_production - water_removal) / GDL_SATURATION_CAPACITY;
          s_new = s_current + dt * ds_dt
      in min 0.99 (max 0 s_new))"

definition effective_diffusivity :: "real \<Rightarrow> real \<Rightarrow> real res" where
  "effective_diffusivity epsilon s =
     (let s_clamped = min 0.99 (max 0 s)
      in res_bind (fpow (1 - s_clamped) 1.5) (\<lambda>p. Inr (D0_O2_GDL * epsilon * p)))"

text \<open>\<open>_thermal_step_jit\<close>: one explicit Euler step of the two-lump stack, with its step-size guard.\<close>

definition thermal_step_jit ::
    "real \<Rightarrow> real \<Rightarrow> real \<Rightarrow> real \<Rightarrow> real \<Rightarrow> real \<Rightarrow> real \<Rightarrow> real \<Rightarrow> real \<Rightarrow> (real \<times> real) res" where
  "thermal_step_jit T_core T_skin dt Q_gen T_coolant C_core C_skin hA_int hA_ext =
     res_bind (fdiv hA_int C_core) (\<lambda>a.
     res_bind (fdiv (hA_int + hA_ext) C_skin) (\<lambda>b.
     res_bind (fdiv 2 (max a b)) (\<lambda>dt_max.
     if dt \<ge> dt_max then Inl ValueError
     else
       let q_int = (T_core - T_skin) * hA_int;
           q_ext = (T_skin - T_coolant) * hA_ext;
           dT_core = (Q_gen - q_int) / C_core * dt;
           dT_skin = (q_int - q_ext) / C_skin * dt
       in Inr (T_core + dT_core, T_skin + dT_skin))))"

section \<open>The polarization curve\<close>

definition B_conc :: real where "B_conc = 0.05"

definition concentration_loss :: "real \<Rightarrow> real \<Rightarrow> real res" where
  "concentration_loss j_lim j =
     res_bind (fdiv j j_lim) (\<lambda>ratio.
     res_bind (fdiv B_conc (j_lim * 0.01)) (\<lambda>penalty_slope.
     if ratio \<le> 0.99 then res_bind (np_log (1 - ratio)) (\<lambda>l. Inr (- B_conc * l))
     else res_bind (np_log 0.01) (\<lambda>l. Inr (- B_conc * l + penalty_slope * (ratio - 0.99)))))"

type_synonym cell_state = "real \<times> real \<times> real \<times> real \<times> real"

definition calculate_pemfc_voltage ::
    "real \<Rightarrow> real \<Rightarrow> real \<Rightarrow> real \<Rightarrow> real \<Rightarrow> int \<Rightarrow> real \<Rightarrow> real \<Rightarrow> real \<Rightarrow> cell_state res" where
  "calculate_pemfc_voltage j T a_h2 a_o2 R_internal N_cells ecsa_ratio lambda_mem j_lim =
     res_bind (orr_j0 ecsa_ratio T) (\<lambda>j0.
     res_bind (calculate_nernst_potential T a_h2 a_o2) (\<lambda>E_ocv.
     let j_safe = max j (1 / 10 ^ 10) in
     res_bind (fdiv j_safe j0) (\<lambda>q.
     res_bind (np_log q) (\<lambda>l.
     let eta_act = (fc_R * T) / (0.5 * 4 * fc_F) * l in
     res_bind (compute_membrane_resistance lambda_mem T 0.005) (\<lambda>R_mem.
     let eta_ohm = j * (R_internal + R_mem) in
     res_bind (concentration_loss j_lim j) (\<lambda>eta_conc.
     let V_cell = E_ocv - eta_act - eta_ohm - eta_conc;
         V_stack = of_int N_cells * V_cell
     in Inr (V_stack, eta_act, eta_ohm, eta_conc, E_ocv)))))))"

section \<open>The operating point\<close>

definition newton_jacobian :: "real \<Rightarrow> real \<Rightarrow> real \<Rightarrow> int \<Rightarrow> real \<Rightarrow> real \<Rightarrow> real res" where
  "newton_jacobian j T R_internal N_cells lambda_mem j_lim =
     (let j_safe = max j (1 / 10 ^ 10) in
      res_bind (fdiv (fc_R * T) (0.5 * 4 * fc_F * j_safe)) (\<lambda>deta_act_dj.
      res_bind (compute_membrane_resistance lambda_mem T 0.005) (\<lambda>R_mem.
      let deta_ohm_dj = R_internal + R_mem in
      res_bind (fdiv j j_lim) (\<lambda>ratio.
      res_bind (fdiv B_conc (j_lim * 0.01)) (\<lambda>penalty_slope.
      res_bind (if ratio \<le> 0.99 then fdiv B_conc (j_lim - j) else fdiv penalty_slope j_lim) (\<lambda>deta_conc_dj.
      Inr (of_int N_cells * (- deta_act_dj - deta_ohm_dj - deta_conc_dj))))))))"

definition newton_step ::
    "real \<Rightarrow> real \<Rightarrow> real \<Rightarrow> real \<Rightarrow> real \<Rightarrow> int \<Rightarrow> real \<Rightarrow> real \<Rightarrow> real
      \<Rightarrow> nat \<Rightarrow> real \<Rightarrow> (real, real \<times> bool) ctl res" where
  "newton_step V_target T a_h2 a_o2 R_internal N_cells ecsa_ratio lambda_mem j_lim i j =
     res_bind (calculate_pemfc_voltage j T a_h2 a_o2 R_internal N_cells ecsa_ratio lambda_mem j_lim)
       (\<lambda>(V_stack, _).
     let residual = V_stack - V_target in
     if \<bar>residual\<bar> < 1 / 10 ^ 4 then Inr (Return (j, True))
     else
       res_bind (newton_jacobian j T R_internal N_cells lambda_mem j_lim) (\<lambda>dV_dj.
       if \<bar>dV_dj\<bar> < 1 / 10 ^ 20 then Inr (Return (j, False))
       else res_bind (fdiv residual dV_dj) (\<lambda>q.
         let j_new = j - q
         in Inr (Next (max (1 / 10 ^ 10) (min j_new (0.999 * j_lim)))))))"

definition newton_raphson_solver ::
    "real \<Rightarrow> real \<Rightarrow> real \<Rightarrow> real \<Rightarrow> real \<Rightarrow> int \<Rightarrow> real \<Rightarrow> real \<Rightarrow> real \<Rightarrow> (real \<times> bool) res" where
  "newton_raphson_solver V_target T a_h2 a_o2 R_internal N_cells ecsa_ratio lambda_mem j_lim =
     res_bind (orr_j0 ecsa_ratio T) (\<lambda>_.
     res_bind (for_range 50
         (newton_step V_target T a_h2 a_o2 R_internal N_cells ecsa_ratio lambda_mem j_lim) (0.5 * j_lim))
       (\<lambda>c. case c of Next j \<Rightarrow> Inr (j, False) | Break j \<Rightarrow> Inr (j, False) | Return r \<Rightarrow> Inr r))"

section \<open>Sweeps\<close>

definition low_activation :: "real \<Rightarrow> real \<Rightarrow> real \<Rightarrow> bool" where
  "low_activation ecsa_ratio a_h2 a_o2 \<longleftrightarrow> ecsa_ratio < 0.3
     \<or> a_h2 < LOW_ACTIVATION_ACTIVITY_FLOOR \<or> a_o2 < LOW_ACTIVATION_ACTIVITY_FLOOR"

definition sweep_body ::
    "real list \<Rightarrow> real \<Rightarrow> real \<Rightarrow> real \<Rightarrow> real \<Rightarrow> int \<Rightarrow> int \<Rightarrow> real \<Rightarrow> real \<Rightarrow> real
      \<Rightarrow> nat \<Rightarrow> real list \<times> 32 word list \<Rightarrow> (real list \<times> 32 word list) res" where
  "sweep_body current_densities T a_h2 a_o2 R_internal N_cells numba_threads ecsa_ratio lambda_mem j_lim i st =
     (case st of (voltages, flag_scratch) \<Rightarrow>
     res_bind (aget current_densities (int i)) (\<lambda>j.
     res_bind (if numba_threads = 0 then Inl ZeroDivisionError else Inr (int i mod numba_threads)) (\<lambda>idx.
     res_bind (calculate_pemfc_voltage j T a_h2 a_o2 R_internal N_cells ecsa_ratio lambda_mem j_lim)
       (\<lambda>(V_stack, eta_act, eta_ohm, eta_conc, E_ocv).
     if eta_ohm > OHMIC_DEGRADATION_ETA_V
     then res_bind (aget flag_scratch idx) (\<lambda>f.
          res_bind (aset flag_scratch idx (f OR OHMIC_DEGRADATION)) (\<lambda>fs.
          Inr (voltages[i := V_stack], fs)))
     else Inr (voltages[i := V_stack], flag_scratch)))))"

definition batch_polarization_sweep ::
    "real list \<Rightarrow> real \<Rightarrow> real \<Rightarrow> real \<Rightarrow> real \<Rightarrow> int \<Rightarrow> int \<Rightarrow> real \<Rightarrow> real \<Rightarrow> real
      \<Rightarrow> (real list \<times> 32 word) res" where
  "batch_polarization_sweep current_densities T a_h2 a_o2 R_internal N_cells numba_threads
       ecsa_ratio lambda_mem j_lim =
     (let n = length current_densities in
      if list_ex (\<lambda>j. j \<ge> j_lim) current_densities then Inl ValueError
      else if numba_threads < 0 then Inl ValueError
      else res_bind (fold_range n (sweep_body current_densities T a_h2 a_o2 R_internal N_cells numba_threads
              ecsa_ratio lambda_mem j_lim) (replicate n 0, replicate (nat numba_threads) 0))
        (\<lambda>(voltages, flag_scratch).
         let f0 = foldl (OR) 0 flag_scratch;
             f1 = (if T > THERMAL_SHUTDOWN_TEMP_K then f0 OR THERMAL_SHUTDOWN else f0);
             f2 = (if low_activation ecsa_ratio a_h2 a_o2 then f1 OR LOW_ACTIVATION else f1)
         in Inr (voltages, f2)))"

record thermal_sweep =
  ts_voltages :: "real list"
  ts_failure :: "32 word"
  ts_core_arr :: "real list"
  ts_skin_arr :: "real list"
  ts_core :: real
  ts_skin :: real

definition thermal_sweep_body ::
    "real list \<Rightarrow> real \<Rightarrow> real \<Rightarrow> real \<Rightarrow> int \<Rightarrow> real \<Rightarrow> real \<Rightarrow> real \<Rightarrow> real \<Rightarrow> real \<Rightarrow> real \<Rightarrow> real \<Rightarrow> real
      \<Rightarrow> real \<Rightarrow> nat \<Rightarrow> thermal_sweep \<Rightarrow> thermal_sweep res" where
  "thermal_sweep_body current_densities a_h2 a_o2 R_internal N_cells ecsa_ratio lambda_mem dt
       C_core C_skin hA_int hA_ext T_coolant j_lim i st =
     res_bind (aget current_densities (int i)) (\<lambda>j.
     let T_current = ts_core st in
     res_bind (calculate_pemfc_voltage j T_current a_h2 a_o2 R_internal N_cells ecsa_ratio lambda_mem j_lim)
       (\<lambda>(V_stack, eta_act, eta_ohm, eta_conc, E_ocv).
     let f0 = ts_failure st;
         f1 = (if eta_ohm > OHMIC_DEGRADATION_ETA_V then f0 OR OHMIC_DEGRADATION else f0);
         f2 = (if T_current > THERMAL_SHUTDOWN_TEMP_K then f1 OR THERMAL_SHUTDOWN else f1);
         Q_gen = (j * of_int N_cells) * (eta_act + eta_ohm)
     in res_bind (thermal_step_jit (ts_core st) (ts_skin st) dt Q_gen T_coolant C_core C_skin hA_int hA_ext)
        (\<lambda>(T_core, T_skin).
        Inr (st\<lparr>ts_voltages := (ts_voltages st)[i := V_stack], ts_failure := f2,
                ts_core_arr := (ts_core_arr st)[i := ts_core st],
                ts_skin_arr := (ts_skin_arr st)[i := ts_skin st],
                ts_core := T_core, ts_skin := T_skin\<rparr>))))"

definition batch_polarization_sweep_thermal ::
    "real list \<Rightarrow> real \<Rightarrow> real \<Rightarrow> real \<Rightarrow> real \<Rightarrow> int \<Rightarrow> real \<Rightarrow> real \<Rightarrow> real \<Rightarrow> real \<Rightarrow> real \<Rightarrow> real \<Rightarrow> real \<Rightarrow> real
      \<Rightarrow> real \<Rightarrow> (real list \<times> 32 word \<times> real list \<times> real list) res" where
  "batch_polarization_sweep_thermal current_densities T_init a_h2 a_o2 R_internal N_cells ecsa_ratio
       lambda_mem dt C_core C_skin hA_int hA_ext T_coolant j_lim =
     (let n = length current_densities in
      if list_ex (\<lambda>j. j \<ge> j_lim) current_densities then Inl ValueError
      else res_bind (fold_range n (thermal_sweep_body current_densities a_h2 a_o2 R_internal N_cells
               ecsa_ratio lambda_mem dt C_core C_skin hA_int hA_ext T_coolant j_lim)
             \<lparr>ts_voltages = replicate n 0, ts_failure = 0, ts_core_arr = replicate n 0,
              ts_skin_arr = replicate n 0, ts_core = T_init, ts_skin = T_init\<rparr>) (\<lambda>st.
         let f = (if low_activation ecsa_ratio a_h2 a_o2 then ts_failure st OR LOW_ACTIVATION
                  else ts_failure st)
         in Inr (ts_voltages st, f, ts_core_arr st, ts_skin_arr st)))"

text \<open>
  The races of the parallel loop: iterations that share a flag cell read it and later write back the
  value they read with the bit set, in any interleaving. \<open>fs\<close> is the flag array, \<open>regs\<close> what the
  iterations that have read but not yet written hold.
\<close>

record flag_state =
  fl_cells :: "32 word list"
  fl_regs :: "nat \<rightharpoonup> 32 word"
  fl_done :: "nat set"

inductive flag_step :: "nat \<Rightarrow> nat set \<Rightarrow> flag_state \<Rightarrow> flag_state \<Rightarrow> bool" for threads work where
  Read: "i \<in> work \<Longrightarrow> i \<notin> fl_done s \<Longrightarrow> fl_regs s i = None \<Longrightarrow>
    flag_step threads work s (s\<lparr>fl_regs := (fl_regs s)(i \<mapsto> fl_cells s ! (i mod threads))\<rparr>)"
| Write: "fl_regs s i = Some v \<Longrightarrow>
    flag_step threads work s (s\<lparr>fl_cells := (fl_cells s)[i mod threads := v OR OHMIC_DEGRADATION],
      fl_regs := (fl_regs s)(i := None), fl_done := insert i (fl_done s)\<rparr>)"

definition flag_start :: "nat \<Rightarrow> flag_state" where
  "flag_start threads = \<lparr>fl_cells = replicate threads 0, fl_regs = Map.empty, fl_done = {}\<rparr>"

inductive_cases flag_stepE: "flag_step threads work s s'"

section \<open>Facts\<close>

text \<open>The operating conditions under which the cell functions return.\<close>

definition cell_conditions :: "real \<Rightarrow> real \<Rightarrow> real \<Rightarrow> real \<Rightarrow> bool" where
  "cell_conditions T a_h2 a_o2 j_lim \<longleftrightarrow>
     0 < T \<and> 0.5 \<le> a_h2 \<and> a_h2 \<le> 10 \<and> 0.5 \<le> a_o2 \<and> a_o2 \<le> 10 \<and> 0 < j_lim"

definition j0_val :: "real \<Rightarrow> real \<Rightarrow> real" where
  "j0_val ecsa T = 2.5 / 10 ^ 8 * max (1 / 10 ^ 4) ecsa * exp (- (68500 / (fc_R * T)) * (1 - T / 353.15))"

definition nernst_val :: "real \<Rightarrow> real \<Rightarrow> real \<Rightarrow> real" where
  "nernst_val T a_h2 a_o2 =
     1.229 - 0.85 / 1000 * (T - 298.15) + (fc_R * T) / (2 * fc_F) * ln (a_h2 * a_o2 powr 0.5)"

definition act_val :: "real \<Rightarrow> real \<Rightarrow> real \<Rightarrow> real" where
  "act_val ecsa T j = (fc_R * T) / (0.5 * 4 * fc_F) * ln (max j (1 / 10 ^ 10) / j0_val ecsa T)"

definition res_val :: "real \<Rightarrow> real \<Rightarrow> real \<Rightarrow> real" where
  "res_val R_internal lambda_mem T = R_internal + 0.005 / springer_membrane_conductivity lambda_mem T"

definition conc_val :: "real \<Rightarrow> real \<Rightarrow> real" where
  "conc_val j_lim j =
     (if j / j_lim \<le> 0.99 then - B_conc * ln (1 - j / j_lim)
      else - B_conc * ln 0.01 + B_conc / (j_lim * 0.01) * (j / j_lim - 0.99))"

definition stack_val ::
    "real \<Rightarrow> real \<Rightarrow> real \<Rightarrow> real \<Rightarrow> int \<Rightarrow> real \<Rightarrow> real \<Rightarrow> real \<Rightarrow> real \<Rightarrow> real" where
  "stack_val T a_h2 a_o2 R_internal N_cells ecsa lambda_mem j_lim j =
     of_int N_cells * (nernst_val T a_h2 a_o2 - act_val ecsa T j
       - j * res_val R_internal lambda_mem T - conc_val j_lim j)"

lemma fc_pos [simp]: "0 < fc_R" "0 < fc_F" "fc_R \<noteq> 0" "fc_F \<noteq> 0"
  by (simp_all add: fc_R_def fc_F_def)

lemma orr_j0_val: "T \<noteq> 0 \<Longrightarrow> orr_j0 ecsa T = Inr (j0_val ecsa T)"
  unfolding orr_j0_def effective_j0_def j0_val_def Let_def by (simp add: fdiv_ok del: times_divide_eq_left)

lemma j0_val_pos: "0 < j0_val ecsa T"
proof -
  have "0 < max (1 / 10 ^ 4) ecsa" by (rule max.strict_coboundedI1) simp
  then show ?thesis unfolding j0_val_def by (intro mult_pos_pos) simp_all
qed

lemma nernst_value:
  assumes "0.5 \<le> a_h2" "a_h2 \<le> 10" "0.5 \<le> a_o2" "a_o2 \<le> 10"
  shows "calculate_nernst_potential T a_h2 a_o2 = Inr (nernst_val T a_h2 a_o2)"
proof -
  have "0 < a_h2" "0 < a_o2" using assms by (auto intro: less_le_trans [of 0 "0.5"])
  then show ?thesis
    using assms by (simp add: calculate_nernst_potential_def nernst_val_def fpow_pos np_log_def)
qed

lemma concentration_value:
  "0 < j_lim \<Longrightarrow> concentration_loss j_lim j = Inr (conc_val j_lim j)"
proof -
  assume j: "0 < j_lim"
  define r where "r = j / j_lim"
  have "r \<le> 0.99 \<Longrightarrow> 0 < 1 - r" by simp
  with j show ?thesis
    unfolding concentration_loss_def conc_val_def by (simp add: fdiv_ok np_log_ok flip: r_def)
qed

lemma voltage_value_any_temperature:
  assumes "T \<noteq> 0" and "0.5 \<le> a_h2" "a_h2 \<le> 10" "0.5 \<le> a_o2" "a_o2 \<le> 10" and "0 < j_lim"
  shows "calculate_pemfc_voltage j T a_h2 a_o2 R_internal N ecsa lambda_mem j_lim =
    Inr (stack_val T a_h2 a_o2 R_internal N ecsa lambda_mem j_lim j, act_val ecsa T j,
         j * res_val R_internal lambda_mem T, conc_val j_lim j, nernst_val T a_h2 a_o2)"
proof -
  have "0 < max j (1 / 10 ^ 10)" by (rule max.strict_coboundedI2) simp
  then have "0 < max j (1 / 10 ^ 10) / j0_val ecsa T" using j0_val_pos by simp
  then show ?thesis
    using assms j0_val_pos [of ecsa T] unfolding calculate_pemfc_voltage_def Let_def
    by (simp add: orr_j0_val nernst_value concentration_value membrane_resistance_value
        fdiv_ok np_log_ok act_val_def res_val_def stack_val_def)
qed

lemma voltage_value:
  assumes "cell_conditions T a_h2 a_o2 j_lim"
  shows "calculate_pemfc_voltage j T a_h2 a_o2 R_internal N ecsa lambda_mem j_lim =
    Inr (stack_val T a_h2 a_o2 R_internal N ecsa lambda_mem j_lim j, act_val ecsa T j,
         j * res_val R_internal lambda_mem T, conc_val j_lim j, nernst_val T a_h2 a_o2)"
  using assms voltage_value_any_temperature by (simp add: cell_conditions_def)

lemma voltage_finite [finiteness]:
  assumes "0.5 \<le> a_h2" "a_h2 \<le> 10" "0.5 \<le> a_o2" "a_o2 \<le> 10" and "0 < j_lim"
  shows "finite_res (calculate_pemfc_voltage j T a_h2 a_o2 R_internal N ecsa lambda_mem j_lim)"
proof (cases "T = 0")
  case True
  then show ?thesis by (simp add: calculate_pemfc_voltage_def orr_j0_def effective_j0_def Let_def)
next
  case False
  then show ?thesis using voltage_value_any_temperature [OF _ assms] by simp
qed

lemma thermal_step_finite [finiteness]:
  "finite_res (thermal_step_jit T_core T_skin dt Q Tc C_core C_skin hA_int hA_ext)"
  unfolding thermal_step_jit_def Let_def by (intro finiteness) (simp_all add: finite_res_def)

lemma conc_val_strict_mono:
  assumes "0 < j_lim" and "j1 < j2"
  shows "conc_val j_lim j1 < conc_val j_lim j2"
proof -
  define a b where "a = j1 / j_lim" and "b = j2 / j_lim"
  have ab: "a < b" using assms by (simp add: a_def b_def divide_strict_right_mono)
  have k: "0 < B_conc / (j_lim * 0.01)" using assms by (simp add: B_conc_def)
  have B: "0 < B_conc" by (simp add: B_conc_def)
  consider "b \<le> 0.99" | "a \<le> 0.99" "0.99 < b" | "0.99 < a" using ab by linarith
  then show ?thesis
  proof cases
    case 1
    then have "ln (1 - b) < ln (1 - a)" using ab by (subst ln_less_cancel_iff) auto
    then show ?thesis
      using 1 ab B by (simp add: conc_val_def a_def [symmetric] b_def [symmetric])
  next
    case 2
    then have "ln 0.01 \<le> ln (1 - a)" by (subst ln_le_cancel_iff) auto
    then have "- B_conc * ln (1 - a) \<le> - B_conc * ln 0.01" using B by simp
    moreover have "0 < B_conc / (j_lim * 0.01) * (b - 0.99)" by (rule mult_pos_pos) (use k 2 in simp_all)
    ultimately show ?thesis
      using 2 unfolding conc_val_def a_def [symmetric] b_def [symmetric] by simp
  next
    case 3
    then have "B_conc / (j_lim * 0.01) * (a - 0.99) < B_conc / (j_lim * 0.01) * (b - 0.99)"
      using k ab by (intro mult_strict_left_mono) auto
    then show ?thesis
      using 3 ab unfolding conc_val_def a_def [symmetric] b_def [symmetric] by simp
  qed
qed

lemma stack_val_strict_antimono:
  assumes "cell_conditions T a_h2 a_o2 j_lim" and "0 \<le> R_internal" and "0 < N"
    and "1 / 10 ^ 10 \<le> j1" and "j1 < j2"
  shows "stack_val T a_h2 a_o2 R_internal N ecsa lambda_mem j_lim j2
       < stack_val T a_h2 a_o2 R_internal N ecsa lambda_mem j_lim j1"
proof -
  have T: "0 < T" "0 < j_lim" using assms(1) by (auto simp: cell_conditions_def)
  have j1: "0 < j1" using assms(4) by (rule less_le_trans [rotated]) simp
  have m: "max j1 (1 / 10 ^ 10) = j1" "max j2 (1 / 10 ^ 10) = j2" using assms by linarith+
  have "j1 / j0_val ecsa T \<le> j2 / j0_val ecsa T" "0 < j1 / j0_val ecsa T"
    using assms j1 j0_val_pos [of ecsa T] by (simp_all add: divide_right_mono)
  then have "ln (j1 / j0_val ecsa T) \<le> ln (j2 / j0_val ecsa T)" by simp
  then have "act_val ecsa T j1 \<le> act_val ecsa T j2"
    using T unfolding act_val_def m by (intro mult_left_mono divide_nonneg_nonneg) (simp_all add: less_imp_le)
  moreover have "0 \<le> res_val R_internal lambda_mem T"
    using assms(2) springer_pos [of lambda_mem T] by (simp add: res_val_def)
  then have "j1 * res_val R_internal lambda_mem T \<le> j2 * res_val R_internal lambda_mem T"
    using assms(5) by (intro mult_right_mono) auto
  moreover have "conc_val j_lim j1 < conc_val j_lim j2"
    by (rule conc_val_strict_mono [OF T(2) assms(5)])
  ultimately show ?thesis
    unfolding stack_val_def using assms(3) by (intro mult_strict_left_mono) auto
qed

section \<open>Properties of the curve and its solver\<close>

text \<open>
  C14: under operating conditions in range the stack voltage is defined at every current density and
  strictly falls with it, also across the patch at 99 percent of the limiting current: a target
  voltage determines the operating point.
\<close>

theorem polarization_curve_strictly_decreasing:
  assumes "cell_conditions T a_h2 a_o2 j_lim" and "0 \<le> R_internal" and "0 < N"
    and "1 / 10 ^ 10 \<le> j1" and "j1 < j2"
  shows "\<exists>V1 V2 r1 r2.
    calculate_pemfc_voltage j1 T a_h2 a_o2 R_internal N ecsa lambda_mem j_lim = Inr (V1, r1)
    \<and> calculate_pemfc_voltage j2 T a_h2 a_o2 R_internal N ecsa lambda_mem j_lim = Inr (V2, r2) \<and> V2 < V1"
  using stack_val_strict_antimono [OF assms] voltage_value [OF assms(1)] by blast

theorem polarization_curve_strictly_decreasing_witness:
  "\<exists>V1 V2 r1 r2.
    calculate_pemfc_voltage 0.4 353.15 1 1 0.06 10 1 14 2.5 = Inr (V1, r1)
    \<and> calculate_pemfc_voltage 2.49 353.15 1 1 0.06 10 1 14 2.5 = Inr (V2, r2) \<and> V2 < V1"
  by (rule polarization_curve_strictly_decreasing) (simp_all add: cell_conditions_def)

text \<open>
  Out-of-range activities are refused: on a positive temperature the cell voltage raises a
  ValueError exactly when an activity lies outside [0.5, 10], whatever the other inputs.
\<close>

theorem voltage_rejects_bad_activities:
  assumes "0 < T" and "0 < j_lim"
  shows "calculate_pemfc_voltage j T a_h2 a_o2 R_internal N ecsa lambda_mem j_lim = Inl ValueError
    \<longleftrightarrow> \<not> (0.5 \<le> a_h2 \<and> a_h2 \<le> 10 \<and> 0.5 \<le> a_o2 \<and> a_o2 \<le> 10)"
proof (cases "0.5 \<le> a_h2 \<and> a_h2 \<le> 10 \<and> 0.5 \<le> a_o2 \<and> a_o2 \<le> 10")
  case True
  then show ?thesis using assms voltage_value [of T a_h2 a_o2 j_lim] by (simp add: cell_conditions_def)
next
  case False
  then have "calculate_nernst_potential T a_h2 a_o2 = Inl ValueError"
    by (auto simp: calculate_nernst_potential_def)
  then show ?thesis using False assms by (simp add: calculate_pemfc_voltage_def orr_j0_val)
qed

theorem voltage_rejects_bad_activities_witness:
  "calculate_pemfc_voltage 1 353.15 0.1 1 0.06 10 1 14 2.5 = Inl ValueError
    \<longleftrightarrow> \<not> (0.5 \<le> (0.1::real) \<and> (0.1::real) \<le> 10 \<and> 0.5 \<le> (1::real) \<and> (1::real) \<le> 10)"
  by (rule voltage_rejects_bad_activities) simp_all

lemma newton_jacobian_total:
  assumes "0 < j_lim"
  shows "\<exists>d. newton_jacobian j T R_internal N lambda_mem j_lim = Inr d"
proof -
  have "max j (1 / 10 ^ 10) \<noteq> 0" by (rule less_imp_neq [symmetric], rule max.strict_coboundedI2) simp
  then show ?thesis
    using assms unfolding newton_jacobian_def Let_def membrane_resistance_value
    by (cases "j / j_lim \<le> 0.99") (auto simp: fdiv_def)
qed

lemma newton_step_total:
  assumes "cell_conditions T a_h2 a_o2 j_lim" and "2 / 10 ^ 10 \<le> j_lim"
    and "1 / 10 ^ 10 \<le> j" and "j \<le> 0.999 * j_lim"
  shows "\<exists>c. newton_step V_target T a_h2 a_o2 R_internal N ecsa lambda_mem j_lim i j = Inr c
    \<and> ctl_all (\<lambda>j. 1 / 10 ^ 10 \<le> j \<and> j \<le> 0.999 * j_lim)
        (\<lambda>(j, ok). 1 / 10 ^ 10 \<le> j \<and> j \<le> 0.999 * j_lim
           \<and> (ok \<longrightarrow> \<bar>stack_val T a_h2 a_o2 R_internal N ecsa lambda_mem j_lim j - V_target\<bar> < 1 / 10 ^ 4)) c"
proof -
  let ?r = "stack_val T a_h2 a_o2 R_internal N ecsa lambda_mem j_lim j - V_target"
  have "0 < j_lim" using assms(1) by (simp add: cell_conditions_def)
  from newton_jacobian_total [OF this] obtain d where
    d: "newton_jacobian j T R_internal N lambda_mem j_lim = Inr d" by blast
  have hi: "(1::real) / 10 ^ 10 \<le> 0.999 * j_lim" using assms(2) by simp
  have v: "newton_step V_target T a_h2 a_o2 R_internal N ecsa lambda_mem j_lim i j =
    (if \<bar>?r\<bar> < 1 / 10 ^ 4 then Inr (Return (j, True))
     else if \<bar>d\<bar> < 1 / 10 ^ 20 then Inr (Return (j, False))
     else res_bind (fdiv ?r d) (\<lambda>q. Inr (Next (max (1 / 10 ^ 10) (min (j - q) (0.999 * j_lim))))))"
    by (simp add: newton_step_def voltage_value [OF assms(1)] d Let_def)
  consider "\<bar>?r\<bar> < 1 / 10 ^ 4" | "\<not> \<bar>?r\<bar> < 1 / 10 ^ 4" "\<bar>d\<bar> < 1 / 10 ^ 20"
    | "\<not> \<bar>?r\<bar> < 1 / 10 ^ 4" "\<not> \<bar>d\<bar> < 1 / 10 ^ 20" by blast
  then show ?thesis
  proof cases
    case 3
    then have "d \<noteq> 0" by auto
    then have "newton_step V_target T a_h2 a_o2 R_internal N ecsa lambda_mem j_lim i j
        = Inr (Next (max (1 / 10 ^ 10) (min (0.999 * j_lim) (j - ?r / d))))"
      using 3 unfolding v by (simp add: fdiv_ok min.commute)
    moreover have "ctl_all (\<lambda>j. 1 / 10 ^ 10 \<le> j \<and> j \<le> 0.999 * j_lim) Q
        (Next (max (1 / 10 ^ 10) (min (0.999 * j_lim) (j - ?r / d))))" for Q :: "real \<times> bool \<Rightarrow> bool"
      unfolding ctl_all.simps using max_min_range [OF hi] by blast
    ultimately show ?thesis by blast
  qed (use v assms in simp_all)
qed

text \<open>
  C4: the operating-point solver always returns within its 50 iterations, its current density stays
  between 1e-10 and 99.9 percent of the limiting current, and a result flagged as converged meets
  the target voltage within 0.1 mV.
\<close>

theorem newton_solver_correct:
  assumes "cell_conditions T a_h2 a_o2 j_lim" and "2 / 10 ^ 10 \<le> j_lim"
  shows "\<exists>j ok. newton_raphson_solver V_target T a_h2 a_o2 R_internal N ecsa lambda_mem j_lim = Inr (j, ok)
    \<and> 1 / 10 ^ 10 \<le> j \<and> j \<le> 0.999 * j_lim
    \<and> (ok \<longrightarrow> (\<exists>V r. calculate_pemfc_voltage j T a_h2 a_o2 R_internal N ecsa lambda_mem j_lim = Inr (V, r)
                \<and> \<bar>V - V_target\<bar> < 1 / 10 ^ 4))"
proof -
  let ?I = "\<lambda>j. 1 / 10 ^ 10 \<le> j \<and> j \<le> 0.999 * j_lim"
  let ?Q = "\<lambda>(j, ok). 1 / 10 ^ 10 \<le> j \<and> j \<le> 0.999 * j_lim
    \<and> (ok \<longrightarrow> \<bar>stack_val T a_h2 a_o2 R_internal N ecsa lambda_mem j_lim j - V_target\<bar> < 1 / 10 ^ 4)"
  have start: "?I (0.5 * j_lim)" using assms by (simp add: cell_conditions_def)
  obtain c where c: "for_range 50 (newton_step V_target T a_h2 a_o2 R_internal N ecsa lambda_mem j_lim)
      (0.5 * j_lim) = Inr c" "ctl_all ?I ?Q c"
    using for_from_total [where I = ?I and Q = ?Q, OF _ start] newton_step_total [OF assms] by blast
  show ?thesis
    using c assms(1) voltage_value [OF assms(1)]
    by (cases c) (auto simp: newton_raphson_solver_def orr_j0_val cell_conditions_def)
qed

theorem newton_solver_correct_witness:
  "\<exists>j ok. newton_raphson_solver 7 353.15 1 1 0.06 10 1 14 2.5 = Inr (j, ok)
    \<and> 1 / 10 ^ 10 \<le> j \<and> j \<le> 0.999 * 2.5"
proof -
  have "cell_conditions 353.15 1 1 2.5" "2 / 10 ^ 10 \<le> (2.5::real)" by (simp_all add: cell_conditions_def)
  from newton_solver_correct [OF this, of 7 "0.06" 10 1 14] show ?thesis by blast
qed

section \<open>The sweeps\<close>

definition ohmic_work ::
    "real list \<Rightarrow> real \<Rightarrow> real \<Rightarrow> real \<Rightarrow> nat set" where
  "ohmic_work js R_internal lambda_mem T =
     {i. i < length js \<and> js ! i * res_val R_internal lambda_mem T > OHMIC_DEGRADATION_ETA_V}"

definition cells_reflect :: "nat \<Rightarrow> nat set \<Rightarrow> 32 word list \<Rightarrow> bool" where
  "cells_reflect threads done_work cells \<longleftrightarrow> length cells = threads
     \<and> (\<forall>c < threads. cells ! c = (if \<exists>i \<in> done_work. i mod threads = c then OHMIC_DEGRADATION else 0))"

lemma cells_reflect_insert:
  assumes "cells_reflect threads W cells" and "0 < threads"
    and "v = 0 \<or> v = OHMIC_DEGRADATION"
  shows "cells_reflect threads (insert i W) (cells[i mod threads := v OR OHMIC_DEGRADATION])"
proof -
  have "v OR OHMIC_DEGRADATION = OHMIC_DEGRADATION" using assms(3) by auto
  then show ?thesis using assms(1,2) by (auto simp: cells_reflect_def nth_list_update)
qed

lemma cells_reflect_cell:
  "cells_reflect threads W cells \<Longrightarrow> 0 < threads \<Longrightarrow>
   cells ! (i mod threads) = 0 \<or> cells ! (i mod threads) = OHMIC_DEGRADATION"
  unfolding cells_reflect_def by (metis mod_less_divisor)

lemma foldl_or_cells:
  assumes "\<forall>c \<in> set cells. c = 0 \<or> c = v"
  shows "foldl (OR) a cells = (if v \<in> set cells then a OR v else (a :: 32 word))"
  using assms
proof (induction cells arbitrary: a)
  case (Cons c cells)
  have "(a OR v) OR v = a OR v" "(a OR 0) = a" by (simp_all add: or.assoc)
  with Cons show ?case by (cases "c = v") auto
qed simp

lemma cells_reflect_result:
  assumes "cells_reflect threads W cells" and "0 < threads"
  shows "foldl (OR) 0 cells = (if W = {} then 0 else OHMIC_DEGRADATION)"
proof -
  have "\<forall>c \<in> set cells. c = 0 \<or> c = OHMIC_DEGRADATION"
  proof
    fix c assume "c \<in> set cells"
    then obtain k where "k < length cells" "c = cells ! k" by (auto simp: in_set_conv_nth)
    then show "c = 0 \<or> c = OHMIC_DEGRADATION"
      using assms(1) unfolding cells_reflect_def by metis
  qed
  moreover have "OHMIC_DEGRADATION \<in> set cells \<longleftrightarrow> W \<noteq> {}"
  proof
    assume "OHMIC_DEGRADATION \<in> set cells"
    then obtain c where "c < threads" "cells ! c = OHMIC_DEGRADATION"
      using assms(1) by (auto simp: cells_reflect_def in_set_conv_nth)
    then show "W \<noteq> {}" using assms(1) by (auto simp: cells_reflect_def OHMIC_DEGRADATION_def split: if_splits)
  next
    assume "W \<noteq> {}"
    then obtain i where "i \<in> W" by blast
    then have "\<exists>k \<in> W. k mod threads = i mod threads" by blast
    moreover have "i mod threads < threads" using assms(2) by simp
    ultimately have "cells ! (i mod threads) = OHMIC_DEGRADATION" "i mod threads < length cells"
      using assms(1) unfolding cells_reflect_def by presburger+
    then show "OHMIC_DEGRADATION \<in> set cells" by (metis nth_mem)
  qed
  ultimately show ?thesis using foldl_or_cells [of cells OHMIC_DEGRADATION 0] by simp
qed

text \<open>The sequential sweep.\<close>

lemma sweep_body_value:
  assumes "cell_conditions T a_h2 a_o2 j_lim" and "0 < threads" and "i < length js"
    and "cells_reflect threads W cells"
  shows "sweep_body js T a_h2 a_o2 R_internal N (int threads) ecsa lambda_mem j_lim i (vs, cells) =
    Inr (vs[i := stack_val T a_h2 a_o2 R_internal N ecsa lambda_mem j_lim (js ! i)],
         if i \<in> ohmic_work js R_internal lambda_mem T
         then cells[i mod threads := cells ! (i mod threads) OR OHMIC_DEGRADATION] else cells)"
proof -
  have m: "int i mod int threads = int (i mod threads)" by (simp add: of_nat_mod)
  have l: "i mod threads < length cells" using assms by (simp add: cells_reflect_def)
  show ?thesis
    using assms(2,3) l
    by (simp add: sweep_body_def voltage_value [OF assms(1)] aget_nat m ohmic_work_def aset_def)
qed

definition sweep_ok ::
    "real list \<Rightarrow> (real \<Rightarrow> real) \<Rightarrow> nat set \<Rightarrow> nat \<Rightarrow> nat \<Rightarrow> real list \<times> 32 word list \<Rightarrow> bool" where
  "sweep_ok js V work threads k st \<longleftrightarrow> length (fst st) = length js
     \<and> (\<forall>i < k. fst st ! i = V (js ! i)) \<and> cells_reflect threads {i \<in> work. i < k} (snd st)"

lemma batch_sweep_value:
  assumes "cell_conditions T a_h2 a_o2 j_lim" and "0 < threads" and "\<forall>j \<in> set js. j < j_lim"
  shows "batch_polarization_sweep js T a_h2 a_o2 R_internal N (int threads) ecsa lambda_mem j_lim =
    Inr (map (stack_val T a_h2 a_o2 R_internal N ecsa lambda_mem j_lim) js,
      ((if ohmic_work js R_internal lambda_mem T = {} then 0 else OHMIC_DEGRADATION)
       OR (if T > THERMAL_SHUTDOWN_TEMP_K then THERMAL_SHUTDOWN else 0))
       OR (if low_activation ecsa a_h2 a_o2 then LOW_ACTIVATION else 0))"
proof -
  let ?n = "length js" and ?V = "stack_val T a_h2 a_o2 R_internal N ecsa lambda_mem j_lim"
  let ?W = "ohmic_work js R_internal lambda_mem T"
  let ?body = "sweep_body js T a_h2 a_o2 R_internal N (int threads) ecsa lambda_mem j_lim"
  have "\<exists>st. fold_from 0 ?n ?body (replicate ?n 0, replicate threads 0) = Inr st
      \<and> sweep_ok js ?V ?W threads (0 + ?n) st"
  proof (rule fold_from_total_inv)
    show "sweep_ok js ?V ?W threads 0 (replicate ?n 0, replicate threads 0)"
      by (simp add: sweep_ok_def cells_reflect_def)
    fix k st assume k: "k < 0 + ?n" and I: "sweep_ok js ?V ?W threads k st"
    obtain vs cells where st: "st = (vs, cells)" by (cases st)
    have c: "cells_reflect threads {i \<in> ?W. i < k} cells" using I st by (simp add: sweep_ok_def)
    note body = sweep_body_value [OF assms(1,2) _ c, of k js R_internal N ecsa lambda_mem]
    have ins: "{i \<in> ?W. i < Suc k} = (if k \<in> ?W then insert k {i \<in> ?W. i < k} else {i \<in> ?W. i < k})"
      by (auto simp: less_Suc_eq)
    have "cells_reflect threads {i \<in> ?W. i < Suc k}
        (if k \<in> ?W then cells[k mod threads := cells ! (k mod threads) OR OHMIC_DEGRADATION] else cells)"
      unfolding ins using c cells_reflect_insert [OF c assms(2) cells_reflect_cell [OF c assms(2)]] by simp
    then show "\<exists>s'. ?body k st = Inr s' \<and> sweep_ok js ?V ?W threads (Suc k) s'"
      using I k body by (simp add: st sweep_ok_def nth_list_update less_Suc_eq)
  qed
  then obtain vs cells where r: "fold_range ?n ?body (replicate ?n 0, replicate threads 0) = Inr (vs, cells)"
    and ok: "sweep_ok js ?V ?W threads ?n (vs, cells)" by auto
  have W: "{i \<in> ?W. i < ?n} = ?W" by (auto simp: ohmic_work_def)
  have vs: "vs = map ?V js" using ok by (intro nth_equalityI) (auto simp: sweep_ok_def)
  have f: "foldl (OR) 0 cells = (if ?W = {} then 0 else OHMIC_DEGRADATION)"
    by (rule cells_reflect_result [OF _ assms(2)]) (use ok W in \<open>simp add: sweep_ok_def\<close>)
  have "\<not> list_ex (\<lambda>j. j \<ge> j_lim) js" using assms(3) by (auto simp: list_ex_iff not_le)
  then show ?thesis
    using r by (simp add: batch_polarization_sweep_def vs f Let_def or.assoc)
qed

lemma flag_step_invariant:
  assumes "flag_step threads work s s'" and "0 < threads"
    and "cells_reflect threads (fl_done s) (fl_cells s)"
    and "\<forall>i v. fl_regs s i = Some v \<longrightarrow> v = 0 \<or> v = OHMIC_DEGRADATION"
  shows "cells_reflect threads (fl_done s') (fl_cells s')
    \<and> (\<forall>i v. fl_regs s' i = Some v \<longrightarrow> v = 0 \<or> v = OHMIC_DEGRADATION)"
  using assms(1)
proof (cases rule: flag_step.cases)
  case (Read i)
  then show ?thesis using assms cells_reflect_cell [OF assms(3,2), of i] by auto
next
  case (Write i v)
  then show ?thesis
    using assms cells_reflect_insert [OF assms(3,2), of v i] by auto
qed

lemma flag_run_invariant:
  assumes "(flag_step threads work)\<^sup>*\<^sup>* (flag_start threads) s" and "0 < threads"
  shows "cells_reflect threads (fl_done s) (fl_cells s)
    \<and> (\<forall>i v. fl_regs s i = Some v \<longrightarrow> v = 0 \<or> v = OHMIC_DEGRADATION)"
  using assms(1)
proof (induction rule: rtranclp_induct)
  case base
  then show ?case by (simp add: flag_start_def cells_reflect_def)
next
  case (step s s')
  then show ?case using flag_step_invariant [OF step.hyps(2) assms(2)] by blast
qed

lemma flag_bits [simp]:
  "bit OHMIC_DEGRADATION n \<longleftrightarrow> n = 0" "bit THERMAL_SHUTDOWN n \<longleftrightarrow> n = 2" "bit LOW_ACTIVATION n \<longleftrightarrow> n = 3"
  using bit_exp_iff [where ?'a = "32 word", of 2 n] bit_exp_iff [where ?'a = "32 word", of 3 n]
  by (auto simp: flag_defs bit_1_iff)

text \<open>
  C5: the polarization sweep reports exactly what its points are: with at least one thread it
  returns the cell model's voltage for every current density, and the flag word has bit 0 exactly
  when some ohmic loss exceeds the limit, bit 2 exactly above the shutdown temperature, bit 3
  exactly on starved reactants or a degraded catalyst, and no other bit. One current density at or
  above the limit makes it a ValueError.
\<close>

theorem batch_sweep_flags_exact:
  assumes "cell_conditions T a_h2 a_o2 j_lim" and "0 < threads"
  shows "((\<forall>j \<in> set js. j < j_lim) \<longrightarrow> (\<exists>flags.
      batch_polarization_sweep js T a_h2 a_o2 R_internal N (int threads) ecsa lambda_mem j_lim =
        Inr (map (stack_val T a_h2 a_o2 R_internal N ecsa lambda_mem j_lim) js, flags)
      \<and> (bit flags 0 \<longleftrightarrow> (\<exists>i < length js. js ! i * res_val R_internal lambda_mem T > OHMIC_DEGRADATION_ETA_V))
      \<and> (bit flags 2 \<longleftrightarrow> T > THERMAL_SHUTDOWN_TEMP_K)
      \<and> (bit flags 3 \<longleftrightarrow> low_activation ecsa a_h2 a_o2)
      \<and> (\<forall>b. b \<notin> {0, 2, 3} \<longrightarrow> \<not> bit flags b)))
    \<and> ((\<exists>j \<in> set js. j_lim \<le> j) \<longrightarrow>
      batch_polarization_sweep js T a_h2 a_o2 R_internal N (int threads) ecsa lambda_mem j_lim = Inl ValueError)"
proof (intro conjI impI)
  assume "\<exists>j \<in> set js. j_lim \<le> j"
  then show "batch_polarization_sweep js T a_h2 a_o2 R_internal N (int threads) ecsa lambda_mem j_lim = Inl ValueError"
    by (auto simp: batch_polarization_sweep_def list_ex_iff)
next
  assume js: "\<forall>j \<in> set js. j < j_lim"
  show "\<exists>flags.
      batch_polarization_sweep js T a_h2 a_o2 R_internal N (int threads) ecsa lambda_mem j_lim =
        Inr (map (stack_val T a_h2 a_o2 R_internal N ecsa lambda_mem j_lim) js, flags)
      \<and> (bit flags 0 \<longleftrightarrow> (\<exists>i < length js. js ! i * res_val R_internal lambda_mem T > OHMIC_DEGRADATION_ETA_V))
      \<and> (bit flags 2 \<longleftrightarrow> T > THERMAL_SHUTDOWN_TEMP_K)
      \<and> (bit flags 3 \<longleftrightarrow> low_activation ecsa a_h2 a_o2)
      \<and> (\<forall>b. b \<notin> {0, 2, 3} \<longrightarrow> \<not> bit flags b)"
    unfolding batch_sweep_value [OF assms js]
    by (rule exI, intro conjI, rule refl) (auto simp: bit_or_iff ohmic_work_def)
qed

theorem batch_sweep_flags_exact_witness:
  "(\<exists>flags. batch_polarization_sweep [0.4, 1.2] 353.15 1 1 0.5 10 (int 4) 1 14 2.5 =
        Inr (map (stack_val 353.15 1 1 0.5 10 1 14 2.5) [0.4, 1.2], flags) \<and> \<not> bit flags 2 \<and> \<not> bit flags 3)
    \<and> batch_polarization_sweep [0.4, 2.5] 353.15 1 1 0.5 10 (int 4) 1 14 2.5 = Inl ValueError"
proof -
  have c: "cell_conditions 353.15 1 1 2.5" "0 < (4::nat)" by (simp_all add: cell_conditions_def)
  have "\<forall>j \<in> set [0.4, 1.2]. j < (2.5::real)" "\<exists>j \<in> set [0.4, 2.5]. (2.5::real) \<le> j"
    by (simp, intro bexI [of _ "2.5"], simp_all)
  moreover have "\<not> 353.15 > THERMAL_SHUTDOWN_TEMP_K" "\<not> low_activation 1 1 1"
    by (simp_all add: THERMAL_SHUTDOWN_TEMP_K_def low_activation_def LOW_ACTIVATION_ACTIVITY_FLOOR_def)
  ultimately show ?thesis
    using batch_sweep_flags_exact [OF c, of "[0.4, 1.2]" "0.5" 10 1 14]
      batch_sweep_flags_exact [OF c, of "[0.4, 2.5]" "0.5" 10 1 14] by blast
qed

text \<open>
  The unsynchronised read-modify-write of the parallel sweep's shared flag cells is harmless:
  however the reads and writes of the flagged iterations interleave, once all have written, the
  reduction over the cells gives the ohmic flag the sequential sweep reports.
\<close>

theorem flag_race_benign:
  assumes "cell_conditions T a_h2 a_o2 j_lim" and "0 < threads" and "\<forall>j \<in> set js. j < j_lim"
    and "(flag_step threads (ohmic_work js R_internal lambda_mem T))\<^sup>*\<^sup>* (flag_start threads) s"
    and "fl_done s = ohmic_work js R_internal lambda_mem T"
    and "T \<le> THERMAL_SHUTDOWN_TEMP_K" and "\<not> low_activation ecsa a_h2 a_o2"
  shows "\<exists>vs. batch_polarization_sweep js T a_h2 a_o2 R_internal N (int threads) ecsa lambda_mem j_lim =
    Inr (vs, foldl (OR) 0 (fl_cells s))"
proof -
  have "cells_reflect threads (fl_done s) (fl_cells s)"
    using flag_run_invariant [OF assms(4,2)] by blast
  from cells_reflect_result [OF this assms(2)] show ?thesis
    using batch_sweep_value [OF assms(1-3)] assms(5-7) by simp
qed

theorem flag_race_benign_witness:
  "\<exists>vs. batch_polarization_sweep [2] 353.15 1 1 1 10 (int 1) 1 14 2.5 =
    Inr (vs, foldl (OR) 0 [OHMIC_DEGRADATION])"
proof -
  let ?W = "ohmic_work [2] 1 14 353.15"
  have "0 < 0.005 / springer_membrane_conductivity 14 353.15" using springer_pos by simp
  then have "1 < res_val 1 14 353.15" unfolding res_val_def by linarith
  then have W: "?W = {0}"
    by (auto simp: ohmic_work_def OHMIC_DEGRADATION_ETA_V_def)
  have z: "0 \<in> ?W" unfolding W by simp
  let ?s1 = "(flag_start 1)\<lparr>fl_regs := [0 \<mapsto> 0]\<rparr>"
  let ?s2 = "?s1\<lparr>fl_cells := [OHMIC_DEGRADATION], fl_regs := Map.empty, fl_done := {0}\<rparr>"
  have "flag_step 1 ?W (flag_start 1) ?s1"
    using flag_step.Read [OF z, of "flag_start 1" 1] by (simp add: flag_start_def)
  moreover have "flag_step 1 ?W ?s1 ?s2"
    using flag_step.Write [of ?s1 0 0 1 ?W] by (simp add: flag_start_def)
  ultimately have run: "(flag_step 1 ?W)\<^sup>*\<^sup>* (flag_start 1) ?s2"
    by (meson converse_rtranclp_into_rtranclp rtranclp.rtrancl_refl)
  show ?thesis
    using flag_race_benign [OF _ _ _ run, of 1 1 "2.5" 1 10] W
    by (simp add: cell_conditions_def THERMAL_SHUTDOWN_TEMP_K_def low_activation_def
        LOW_ACTIVATION_ACTIVITY_FLOOR_def)
qed

section \<open>The electro-thermal sweep\<close>

text \<open>What one turn relates, over abstract cell and heat steps, and the invariant of the loop.\<close>

definition sweep_point_ok ::
    "(real \<Rightarrow> real \<Rightarrow> cell_state res) \<Rightarrow> (real \<Rightarrow> real \<Rightarrow> real \<Rightarrow> (real \<times> real) res)
      \<Rightarrow> int \<Rightarrow> real \<Rightarrow> real \<Rightarrow> real \<times> real \<Rightarrow> real \<times> real \<Rightarrow> bool" where
  "sweep_point_ok voltage heat N j V temps temps' \<longleftrightarrow>
     (\<exists>eta_act eta_ohm rest. voltage j (fst temps) = Inr (V, eta_act, eta_ohm, rest)
       \<and> heat (fst temps) (snd temps) ((j * of_int N) * (eta_act + eta_ohm)) = Inr temps')"

definition sweep_inv ::
    "(real \<Rightarrow> real \<Rightarrow> cell_state res) \<Rightarrow> (real \<Rightarrow> real \<Rightarrow> real \<Rightarrow> (real \<times> real) res)
      \<Rightarrow> int \<Rightarrow> real list \<Rightarrow> real \<Rightarrow> nat \<Rightarrow> thermal_sweep \<Rightarrow> bool" where
  "sweep_inv voltage heat N js T0 k st \<longleftrightarrow>
     length (ts_voltages st) = length js \<and> length (ts_core_arr st) = length js \<and> length (ts_skin_arr st) = length js
     \<and> (let tc = (\<lambda>i. if i < k then (ts_core_arr st ! i, ts_skin_arr st ! i) else (ts_core st, ts_skin st)) in
        tc 0 = (T0, T0) \<and> (\<forall>i < k. sweep_point_ok voltage heat N (js ! i) (ts_voltages st ! i) (tc i) (tc (Suc i))))
     \<and> (bit (ts_failure st) 0 \<longleftrightarrow> (\<exists>i < k. \<exists>V ea eo r.
           voltage (js ! i) (ts_core_arr st ! i) = Inr (V, ea, eo, r) \<and> OHMIC_DEGRADATION_ETA_V < eo))
     \<and> (bit (ts_failure st) 2 \<longleftrightarrow> (\<exists>i < k. THERMAL_SHUTDOWN_TEMP_K < ts_core_arr st ! i))
     \<and> (\<forall>b. b \<noteq> 0 \<and> b \<noteq> 2 \<longrightarrow> \<not> bit (ts_failure st) b)"

lemma sweep_inv_step:
  assumes k: "k < length js"
    and inv: "sweep_inv (\<lambda>j T. calculate_pemfc_voltage j T a_h2 a_o2 R N ecsa lambda_mem j_lim)
      (\<lambda>c s Q. thermal_step_jit c s dt Q T_coolant C_core C_skin hA_int hA_ext) N js T0 k st"
    and body: "thermal_sweep_body js a_h2 a_o2 R N ecsa lambda_mem dt C_core C_skin hA_int hA_ext T_coolant j_lim k st = Inr st'"
  shows "sweep_inv (\<lambda>j T. calculate_pemfc_voltage j T a_h2 a_o2 R N ecsa lambda_mem j_lim)
      (\<lambda>c s Q. thermal_step_jit c s dt Q T_coolant C_core C_skin hA_int hA_ext) N js T0 (Suc k) st'"
proof -
  let ?v = "\<lambda>j T. calculate_pemfc_voltage j T a_h2 a_o2 R N ecsa lambda_mem j_lim"
  let ?h = "\<lambda>c s Q. thermal_step_jit c s dt Q T_coolant C_core C_skin hA_int hA_ext"
  obtain V ea eo ec E c' s' where v: "?v (js ! k) (ts_core st) = Inr (V, ea, eo, ec, E)"
    and h: "?h (ts_core st) (ts_skin st) ((js ! k * of_int N) * (ea + eo)) = Inr (c', s')"
    and st': "st' = st\<lparr>ts_voltages := (ts_voltages st)[k := V],
      ts_failure := (let f1 = if eo > OHMIC_DEGRADATION_ETA_V then ts_failure st OR OHMIC_DEGRADATION else ts_failure st
         in if ts_core st > THERMAL_SHUTDOWN_TEMP_K then f1 OR THERMAL_SHUTDOWN else f1),
      ts_core_arr := (ts_core_arr st)[k := ts_core st], ts_skin_arr := (ts_skin_arr st)[k := ts_skin st],
      ts_core := c', ts_skin := s'\<rparr>"
    using body k by (auto simp: thermal_sweep_body_def aget_nat Let_def)
  have pt: "sweep_point_ok ?v ?h N (js ! k) V (ts_core st, ts_skin st) (c', s')"
    unfolding sweep_point_ok_def using v h by auto
  have b1: "bit (OHMIC_DEGRADATION) b \<longleftrightarrow> b = 0" and b2: "bit THERMAL_SHUTDOWN b \<longleftrightarrow> b = 2" for b
    by simp_all
  have e: "(\<exists>V' ea' eo' r'. ?v (js ! k) (ts_core st) = Inr (V', ea', eo', r') \<and> OHMIC_DEGRADATION_ETA_V < eo')
      \<longleftrightarrow> OHMIC_DEGRADATION_ETA_V < eo" using v by auto
  let ?tc = "\<lambda>k st i. if i < k then (ts_core_arr st ! i, ts_skin_arr st ! i) else (ts_core st, ts_skin st)"
  have tc: "?tc (Suc k) st' i = ?tc k st i" if "i \<le> k" for i
    using that inv k by (auto simp: st' sweep_inv_def less_Suc_eq)
  have len: "length (ts_voltages st) = length js" "length (ts_core_arr st) = length js" "length (ts_skin_arr st) = length js"
    using inv by (simp_all add: sweep_inv_def)
  have pts: "sweep_point_ok ?v ?h N (js ! i) (ts_voltages st' ! i) (?tc (Suc k) st' i) (?tc (Suc k) st' (Suc i))"
    if "i < Suc k" for i
  proof (cases "i = k")
    case True
    then show ?thesis using pt len k by (simp add: st')
  next
    case False
    with that have "i < k" by simp
    then have "sweep_point_ok ?v ?h N (js ! i) (ts_voltages st ! i) (?tc k st i) (?tc k st (Suc i))"
      using inv by (simp add: sweep_inv_def Let_def)
    then show ?thesis using tc [of i] tc [of "Suc i"] \<open>i < k\<close> by (simp add: st')
  qed
  have z: "?tc (Suc k) st' 0 = (T0, T0)" using tc [of 0] inv by (simp add: sweep_inv_def Let_def)
  have arr: "ts_core_arr st' ! k = ts_core st" "\<And>i. i < k \<Longrightarrow> ts_core_arr st' ! i = ts_core_arr st ! i"
    using len k by (simp_all add: st')
  have ex: "(\<exists>i < Suc k. P i (ts_core_arr st' ! i)) \<longleftrightarrow> P k (ts_core st) \<or> (\<exists>i < k. P i (ts_core_arr st ! i))" for P
    using arr by (metis less_Suc_eq)
  have old: "bit (ts_failure st) 0 \<longleftrightarrow> (\<exists>i < k. \<exists>V ea eo r.
           ?v (js ! i) (ts_core_arr st ! i) = Inr (V, ea, eo, r) \<and> OHMIC_DEGRADATION_ETA_V < eo)"
    "bit (ts_failure st) 2 \<longleftrightarrow> (\<exists>i < k. THERMAL_SHUTDOWN_TEMP_K < ts_core_arr st ! i)"
    using inv unfolding sweep_inv_def by blast+
  have new: "bit (ts_failure st') 0 \<longleftrightarrow> bit (ts_failure st) 0 \<or> OHMIC_DEGRADATION_ETA_V < eo"
    "bit (ts_failure st') 2 \<longleftrightarrow> bit (ts_failure st) 2 \<or> THERMAL_SHUTDOWN_TEMP_K < ts_core st"
    by (auto simp: st' Let_def bit_or_iff b1 b2)
  have f0: "bit (ts_failure st') 0 \<longleftrightarrow> (\<exists>i < Suc k. \<exists>V ea eo r.
           ?v (js ! i) (ts_core_arr st' ! i) = Inr (V, ea, eo, r) \<and> OHMIC_DEGRADATION_ETA_V < eo)"
    unfolding ex [of "\<lambda>i T. \<exists>V ea eo r. ?v (js ! i) T = Inr (V, ea, eo, r) \<and> OHMIC_DEGRADATION_ETA_V < eo"] e
    unfolding new(1) old(1) by (rule disj_commute)
  have f2: "bit (ts_failure st') 2 \<longleftrightarrow> (\<exists>i < Suc k. THERMAL_SHUTDOWN_TEMP_K < ts_core_arr st' ! i)"
    unfolding ex [of "\<lambda>i T. THERMAL_SHUTDOWN_TEMP_K < T"] new(2) old(2) by (rule disj_commute)
  have fb: "\<not> bit (ts_failure st') b" if "b \<noteq> 0 \<and> b \<noteq> 2" for b
    using that inv by (auto simp: st' sweep_inv_def Let_def bit_or_iff b1 b2)
  show ?thesis unfolding sweep_inv_def Let_def
    using len z pts f0 f2 fb by (simp add: st')
qed

lemma low_activation_bits:
  "bit (if low then f OR LOW_ACTIVATION else f) b \<longleftrightarrow> bit (f :: 32 word) b \<or> low \<and> b = 3"
  by (auto simp: bit_or_iff)

lemma thermal_sweep_run:
  assumes "batch_polarization_sweep_thermal js T_init a_h2 a_o2 R_internal N ecsa lambda_mem dt
      C_core C_skin hA_int hA_ext T_coolant j_lim = Inr (voltages, flags, T_core, T_skin)"
  shows "(\<forall>j \<in> set js. j < j_lim) \<and> (\<exists>st.
    sweep_inv (\<lambda>j T. calculate_pemfc_voltage j T a_h2 a_o2 R_internal N ecsa lambda_mem j_lim)
      (\<lambda>c s Q. thermal_step_jit c s dt Q T_coolant C_core C_skin hA_int hA_ext) N js T_init (length js) st
    \<and> voltages = ts_voltages st \<and> T_core = ts_core_arr st \<and> T_skin = ts_skin_arr st
    \<and> flags = (if low_activation ecsa a_h2 a_o2 then ts_failure st OR LOW_ACTIVATION else ts_failure st))"
proof -
  let ?n = "length js"
  let ?start = "\<lparr>ts_voltages = replicate ?n 0, ts_failure = 0, ts_core_arr = replicate ?n 0,
              ts_skin_arr = replicate ?n 0, ts_core = T_init, ts_skin = T_init\<rparr>"
  have lim: "\<forall>j \<in> set js. j < j_lim"
    using assms by (auto simp: batch_polarization_sweep_thermal_def Let_def list_ex_iff not_le split: if_splits)
  obtain st where run: "fold_range ?n (thermal_sweep_body js a_h2 a_o2 R_internal N ecsa lambda_mem dt
        C_core C_skin hA_int hA_ext T_coolant j_lim) ?start = Inr st"
    and out: "voltages = ts_voltages st" "T_core = ts_core_arr st" "T_skin = ts_skin_arr st"
      "flags = (if low_activation ecsa a_h2 a_o2 then ts_failure st OR LOW_ACTIVATION else ts_failure st)"
    using assms by (auto simp: batch_polarization_sweep_thermal_def Let_def split: if_splits)
  have "sweep_inv (\<lambda>j T. calculate_pemfc_voltage j T a_h2 a_o2 R_internal N ecsa lambda_mem j_lim)
      (\<lambda>c s Q. thermal_step_jit c s dt Q T_coolant C_core C_skin hA_int hA_ext) N js T_init (0 + ?n) st"
    by (rule fold_from_inv [OF _ _ run]) (auto intro: sweep_inv_step, simp add: sweep_inv_def)
  then show ?thesis using lim out by auto
qed

lemma thermal_sweep_finite [finiteness]:
  assumes "0.5 \<le> a_h2" "a_h2 \<le> 10" "0.5 \<le> a_o2" "a_o2 \<le> 10" and "0 < j_lim"
  shows "finite_res (batch_polarization_sweep_thermal js T a_h2 a_o2 R N ecsa l dt C_core C_skin hA_int hA_ext Tc j_lim)"
  unfolding batch_polarization_sweep_thermal_def thermal_sweep_body_def Let_def case_prod_unfold
  by (intro finiteness assms) simp_all

text \<open>
  The electro-thermal sweep follows the models it couples: every voltage is the cell model's at
  the core temperature recorded for its point, the temperatures start at the given one and step by
  the thermal kernel under the heat of the point, and the flags are exact: bit 0 when some ohmic loss
  exceeds the limit, bit 2 when some recorded temperature exceeds the shutdown limit, bit 3 on low
  activation. It never returns on a current density at the limit.
\<close>

theorem thermal_sweep_trajectory:
  assumes "batch_polarization_sweep_thermal js T_init a_h2 a_o2 R_internal N ecsa lambda_mem dt
      C_core C_skin hA_int hA_ext T_coolant j_lim = Inr (voltages, flags, T_core, T_skin)"
  shows "length voltages = length js \<and> length T_core = length js \<and> length T_skin = length js
    \<and> (\<forall>j \<in> set js. j < j_lim)
    \<and> (js \<noteq> [] \<longrightarrow> T_core ! 0 = T_init \<and> T_skin ! 0 = T_init)
    \<and> (\<forall>i < length js. \<exists>eta_act eta_ohm rest.
          calculate_pemfc_voltage (js ! i) (T_core ! i) a_h2 a_o2 R_internal N ecsa lambda_mem j_lim
            = Inr (voltages ! i, eta_act, eta_ohm, rest)
          \<and> (Suc i < length js \<longrightarrow>
               thermal_step_jit (T_core ! i) (T_skin ! i) dt ((js ! i * of_int N) * (eta_act + eta_ohm)) T_coolant
                 C_core C_skin hA_int hA_ext = Inr (T_core ! Suc i, T_skin ! Suc i)))
    \<and> (bit flags 2 \<longleftrightarrow> (\<exists>i < length js. THERMAL_SHUTDOWN_TEMP_K < T_core ! i))
    \<and> (bit flags 3 \<longleftrightarrow> low_activation ecsa a_h2 a_o2)
    \<and> (bit flags 0 \<longleftrightarrow> (\<exists>i < length js. \<exists>V ea eo r.
          calculate_pemfc_voltage (js ! i) (T_core ! i) a_h2 a_o2 R_internal N ecsa lambda_mem j_lim
            = Inr (V, ea, eo, r) \<and> OHMIC_DEGRADATION_ETA_V < eo))"
proof -
  let ?v = "\<lambda>j T. calculate_pemfc_voltage j T a_h2 a_o2 R_internal N ecsa lambda_mem j_lim"
  let ?h = "\<lambda>c s Q. thermal_step_jit c s dt Q T_coolant C_core C_skin hA_int hA_ext"
  let ?n = "length js"
  obtain st where lim: "\<forall>j \<in> set js. j < j_lim" and inv: "sweep_inv ?v ?h N js T_init ?n st"
    and out: "voltages = ts_voltages st" "T_core = ts_core_arr st" "T_skin = ts_skin_arr st"
      "flags = (if low_activation ecsa a_h2 a_o2 then ts_failure st OR LOW_ACTIVATION else ts_failure st)"
    using thermal_sweep_run [OF assms] by blast
  have pts: "\<exists>eta_act eta_ohm rest. ?v (js ! i) (T_core ! i) = Inr (voltages ! i, eta_act, eta_ohm, rest)
      \<and> (Suc i < ?n \<longrightarrow> ?h (T_core ! i) (T_skin ! i) ((js ! i * of_int N) * (eta_act + eta_ohm))
           = Inr (T_core ! Suc i, T_skin ! Suc i))" if "i < ?n" for i
    using inv that by (fastforce simp: sweep_inv_def sweep_point_ok_def out Let_def)
  have b: "bit flags 2 \<longleftrightarrow> bit (ts_failure st) 2" "bit flags 0 \<longleftrightarrow> bit (ts_failure st) 0"
    "bit flags 3 \<longleftrightarrow> low_activation ecsa a_h2 a_o2"
    using inv unfolding out(4) low_activation_bits by (auto simp: sweep_inv_def)
  have z: "js \<noteq> [] \<longrightarrow> T_core ! 0 = T_init \<and> T_skin ! 0 = T_init"
    using inv by (auto simp: sweep_inv_def Let_def out)
  have len: "length voltages = ?n" "length T_core = ?n" "length T_skin = ?n"
    using inv by (simp_all add: sweep_inv_def out)
  have "bit flags 2 \<longleftrightarrow> (\<exists>i < ?n. THERMAL_SHUTDOWN_TEMP_K < T_core ! i)"
    "bit flags 0 \<longleftrightarrow> (\<exists>i < ?n. \<exists>V ea eo r. ?v (js ! i) (T_core ! i) = Inr (V, ea, eo, r) \<and> OHMIC_DEGRADATION_ETA_V < eo)"
    using inv unfolding b out(2) sweep_inv_def by blast+
  then show ?thesis using len lim z pts b(3) by blast
qed

theorem thermal_sweep_trajectory_witness:
  "\<exists>voltages flags T_core T_skin.
    batch_polarization_sweep_thermal [0.4] 353.15 1 1 0.06 10 1 14 0.5 12500 12500 500 50 298.15 2.5
      = Inr (voltages, flags, T_core, T_skin)
    \<and> length voltages = 1 \<and> T_core ! 0 = 353.15 \<and> \<not> bit flags 2 \<and> \<not> bit flags 3"
proof -
  have c: "cell_conditions 353.15 1 1 2.5" by (simp add: cell_conditions_def)
  have "\<exists>x. batch_polarization_sweep_thermal [0.4] 353.15 1 1 0.06 10 1 14 0.5 12500 12500 500 50 298.15 2.5 = Inr x"
    using voltage_value [OF c, of "0.4" "0.06" 10 1 14]
    by (simp add: batch_polarization_sweep_thermal_def thermal_sweep_body_def aget_def py_index_def
        thermal_step_jit_def fdiv_def Let_def)
  then obtain voltages flags T_core T_skin where
    r: "batch_polarization_sweep_thermal [0.4] 353.15 1 1 0.06 10 1 14 0.5 12500 12500 500 50 298.15 2.5
      = Inr (voltages, flags, T_core, T_skin)" by (metis surj_pair)
  from thermal_sweep_trajectory [OF this] r show ?thesis
    by (simp add: THERMAL_SHUTDOWN_TEMP_K_def low_activation_def LOW_ACTIVATION_ACTIVITY_FLOOR_def)
qed

end
