(* ===== verification/StackThermal.thy ===== *)
theory StackThermal
  imports Pemfc
begin

text \<open>
  The stack thermal models of \<open>factory_simulation/stack_thermal_model.py\<close>: the two-lump model with
  its Yonkist diagnostics and the chain of cells along the coolant flow. The object is a record, a
  method a step on it; an exception keeps the updates made before it.
\<close>

section \<open>The two-lump model\<close>

record stack_thermal =
  st_mass_core_kg :: real
  st_mass_skin_kg :: real
  st_cp_core :: real
  st_cp_skin :: real
  st_h_internal :: real
  st_h_external :: real
  st_A_internal :: real
  st_A_external :: real
  st_k_stack :: real
  st_L_char :: real
  st_T_initial :: real
  st_C_core :: real
  st_C_skin :: real
  st_hA_internal :: real
  st_hA_external :: real
  st_T_core :: real
  st_T_skin :: real
  st_last_Yo :: real
  st_last_Bi :: real
  st_last_valid :: bool
  st_last_Q_output :: real

definition stack_thermal_post_init :: "stack_thermal \<Rightarrow> stack_thermal" where
  "stack_thermal_post_init m = m\<lparr>st_C_core := st_mass_core_kg m * st_cp_core m,
     st_C_skin := st_mass_skin_kg m * st_cp_skin m,
     st_hA_internal := st_h_internal m * st_A_internal m,
     st_hA_external := st_h_external m * st_A_external m,
     st_T_core := st_T_initial m, st_T_skin := st_T_initial m\<rparr>"

text \<open>The dataclass defaults.\<close>

definition StackThermalModel :: stack_thermal where
  "StackThermalModel = stack_thermal_post_init \<lparr>st_mass_core_kg = 25, st_mass_skin_kg = 25,
     st_cp_core = 500, st_cp_skin = 500, st_h_internal = 500, st_h_external = 25,
     st_A_internal = 1, st_A_external = 2, st_k_stack = 20, st_L_char = 0.05, st_T_initial = 298.15,
     st_C_core = 0, st_C_skin = 0, st_hA_internal = 0, st_hA_external = 0, st_T_core = 0, st_T_skin = 0,
     st_last_Yo = 0, st_last_Bi = 0, st_last_valid = True, st_last_Q_output = 0\<rparr>"

definition validate_yonkist :: "stack_thermal \<Rightarrow> real \<Rightarrow> real \<Rightarrow> (real \<times> real \<times> bool) res" where
  "validate_yonkist m q_gen_volumetric delta_T =
     res_bind (fdiv (st_h_external m * st_L_char m) (st_k_stack m)) (\<lambda>Bi.
     res_bind (if delta_T > 1 / 10 ^ 6
               then fdiv (q_gen_volumetric * st_L_char m ^ 2) (st_k_stack m * delta_T) else Inr 0) (\<lambda>Yo.
     Inr (Yo, Bi, Yo < Bi \<or> Yo = 0)))"

definition stack_thermal_step :: "real \<Rightarrow> real \<Rightarrow> real \<Rightarrow> (stack_thermal, real) meth" where
  "stack_thermal_step dt Q_gen T_coolant =
     seq (\<lambda>m. (fdiv (Q_gen - st_hA_internal m * (st_T_core m - st_T_skin m)) (st_C_core m), m)) (\<lambda>dT_core_dt.
     seq (\<lambda>m. (fdiv (st_hA_internal m * (st_T_core m - st_T_skin m)
                     - st_hA_external m * (st_T_skin m - T_coolant)) (st_C_skin m), m)) (\<lambda>dT_skin_dt.
     seq (updates (\<lambda>m. m\<lparr>st_T_core := st_T_core m + dt * dT_core_dt,
                         st_T_skin := st_T_skin m + dt * dT_skin_dt\<rparr>)) (\<lambda>_.
     seq (\<lambda>m. (let volume = st_A_external m * st_L_char m;
                   q_gen_volumetric = (if volume > 0 then Q_gen / volume else 0);
                   delta_T = max (st_T_core m - T_coolant) (1 / 10 ^ 6)
               in validate_yonkist m q_gen_volumetric delta_T, m)) (\<lambda>(Yo, Bi, is_valid).
     seq (updates (\<lambda>m. m\<lparr>st_last_Yo := Yo, st_last_Bi := Bi, st_last_valid := is_valid\<rparr>)) (\<lambda>_.
     seq (reads (\<lambda>m. st_hA_external m * (st_T_skin m - T_coolant))) (\<lambda>Q_output.
     seq (updates (\<lambda>m. m\<lparr>st_last_Q_output := Q_output\<rparr>)) (\<lambda>_.
     ret Q_output)))))))"

text \<open>\<open>get_state\<close>: temperatures, heat output, Yonkist and Biot numbers, validity.\<close>

definition stack_thermal_state :: "stack_thermal \<Rightarrow> real \<times> real \<times> real \<times> real \<times> real \<times> bool" where
  "stack_thermal_state m =
     (st_T_core m, st_T_skin m, st_last_Q_output m, st_last_Yo m, st_last_Bi m, st_last_valid m)"

definition stack_thermal_reset :: "stack_thermal \<Rightarrow> stack_thermal" where
  "stack_thermal_reset m = m\<lparr>st_T_core := st_T_initial m, st_T_skin := st_T_initial m,
     st_last_Yo := 0, st_last_Bi := 0, st_last_valid := True, st_last_Q_output := 0\<rparr>"

section \<open>The chain of cells\<close>

definition nd_cell ::
    "real list \<Rightarrow> real \<Rightarrow> real \<Rightarrow> real \<Rightarrow> real \<Rightarrow> real \<Rightarrow> real \<Rightarrow> real
      \<Rightarrow> nat \<Rightarrow> real list \<times> real \<times> real \<Rightarrow> (real list \<times> real \<times> real) res" where
  "nd_cell T_cell q_gen_per_cell coolant_mass_flow_kg_s dt C_cell cp_coolant hA_cell_ext hA_inter_cell i st =
     (case st of (T_new, T_coolant, q_removed_total) \<Rightarrow>
     res_bind (aget T_cell (int i)) (\<lambda>T.
     let q_coolant = (T - T_coolant) * hA_cell_ext in
     res_bind (if i > 0 then res_bind (aget T_cell (int i - 1)) (\<lambda>L. Inr ((L - T) * hA_inter_cell))
               else Inr 0) (\<lambda>q_cond_left.
     res_bind (if i < length T_cell - 1
               then res_bind (aget T_cell (int i + 1)) (\<lambda>R. Inr ((R - T) * hA_inter_cell))
               else Inr 0) (\<lambda>q_cond_right.
     res_bind (fdiv (q_gen_per_cell + q_cond_left + q_cond_right - q_coolant) C_cell) (\<lambda>dT_dt.
     res_bind (if coolant_mass_flow_kg_s > 1 / 10 ^ 6
               then res_bind (fdiv q_coolant (coolant_mass_flow_kg_s * cp_coolant)) (\<lambda>d. Inr (T_coolant + d))
               else Inr T_coolant) (\<lambda>T_coolant'.
     Inr (T_new[i := T + dt * dT_dt], T_coolant', q_removed_total + q_coolant)))))))"

definition step_stack_thermal_nd_jit ::
    "real list \<Rightarrow> real \<Rightarrow> real \<Rightarrow> real \<Rightarrow> real \<Rightarrow> real \<Rightarrow> real \<Rightarrow> real \<Rightarrow> real \<Rightarrow> (real list \<times> real) res" where
  "step_stack_thermal_nd_jit T_cell q_gen_per_cell coolant_inlet_t_k coolant_mass_flow_kg_s dt
       C_cell cp_coolant hA_cell_ext hA_inter_cell =
     res_bind (fold_range (length T_cell)
         (nd_cell T_cell q_gen_per_cell coolant_mass_flow_kg_s dt C_cell cp_coolant hA_cell_ext hA_inter_cell)
         (replicate (length T_cell) 0, coolant_inlet_t_k, 0))
       (\<lambda>(T_new, _, q_removed_total). Inr (T_new, q_removed_total))"

record stack_thermal_nd =
  nd_n_cells :: nat
  nd_T_initial :: real
  nd_T_cell :: "real list"
  nd_C_cell :: real
  nd_cp_coolant :: real
  nd_hA_cell_ext :: real
  nd_hA_inter_cell :: real
  nd_last_Q_output :: real

definition new_stack_thermal_nd :: "nat \<Rightarrow> real \<Rightarrow> real \<Rightarrow> real \<Rightarrow> real \<Rightarrow> real \<Rightarrow> stack_thermal_nd" where
  "new_stack_thermal_nd n_cells T_initial C_cell cp_coolant hA_cell_ext hA_inter_cell =
     \<lparr>nd_n_cells = n_cells, nd_T_initial = T_initial, nd_T_cell = replicate n_cells T_initial,
      nd_C_cell = C_cell, nd_cp_coolant = cp_coolant, nd_hA_cell_ext = hA_cell_ext,
      nd_hA_inter_cell = hA_inter_cell, nd_last_Q_output = 0\<rparr>"

definition stack_thermal_nd_step :: "real \<Rightarrow> real \<Rightarrow> real \<Rightarrow> real \<Rightarrow> (stack_thermal_nd, real list) meth" where
  "stack_thermal_nd_step dt Q_gen_total_w coolant_inlet_t_k coolant_mass_flow_kg_s =
     seq (\<lambda>m. (fdiv Q_gen_total_w (real (nd_n_cells m)), m)) (\<lambda>q_gen_per_cell.
     seq (\<lambda>m. (step_stack_thermal_nd_jit (nd_T_cell m) q_gen_per_cell coolant_inlet_t_k
                  coolant_mass_flow_kg_s dt (nd_C_cell m) (nd_cp_coolant m) (nd_hA_cell_ext m)
                  (nd_hA_inter_cell m), m)) (\<lambda>(T_cell, q).
     seq (updates (\<lambda>m. m\<lparr>nd_T_cell := T_cell, nd_last_Q_output := q\<rparr>)) (\<lambda>_.
     reads nd_T_cell)))"

definition stack_thermal_nd_reset :: "stack_thermal_nd \<Rightarrow> stack_thermal_nd" where
  "stack_thermal_nd_reset m =
     m\<lparr>nd_T_cell := replicate (nd_n_cells m) (nd_T_initial m), nd_last_Q_output := 0\<rparr>"

section \<open>Facts about a step\<close>

definition thermal_ok :: "stack_thermal \<Rightarrow> bool" where
  "thermal_ok m \<longleftrightarrow> 0 < st_C_core m \<and> 0 < st_C_skin m \<and> 0 < st_k_stack m"

lemma stack_thermal_step_value:
  assumes "thermal_ok m"
  shows "\<exists>m'. stack_thermal_step dt Q Tc m = (Inr (st_hA_external m * (st_T_skin m' - Tc)), m')
    \<and> st_T_core m' = st_T_core m + dt * ((Q - st_hA_internal m * (st_T_core m - st_T_skin m)) / st_C_core m)
    \<and> st_T_skin m' = st_T_skin m + dt * ((st_hA_internal m * (st_T_core m - st_T_skin m)
         - st_hA_external m * (st_T_skin m - Tc)) / st_C_skin m)
    \<and> thermal_ok m' \<and> st_C_core m' = st_C_core m \<and> st_C_skin m' = st_C_skin m
    \<and> st_hA_internal m' = st_hA_internal m \<and> st_hA_external m' = st_hA_external m
    \<and> st_last_Q_output m' = st_hA_external m * (st_T_skin m' - Tc)
    \<and> st_T_initial m' = st_T_initial m"
  using assms
  by (auto simp: thermal_ok_def stack_thermal_step_def meth_defs validate_yonkist_def fdiv_def Let_def)

text \<open>A history of the model: heat and coolant temperature per step.\<close>

fun thermal_run :: "real \<Rightarrow> (real \<times> real) list \<Rightarrow> (stack_thermal, unit) meth" where
  "thermal_run dt [] = ret ()"
| "thermal_run dt ((Q, Tc) # xs) = seq (stack_thermal_step dt Q Tc) (\<lambda>_. thermal_run dt xs)"

definition step_size_ok :: "real \<Rightarrow> stack_thermal \<Rightarrow> bool" where
  "step_size_ok dt m \<longleftrightarrow> 0 \<le> dt \<and> 0 \<le> st_hA_internal m \<and> 0 \<le> st_hA_external m
     \<and> dt * st_hA_internal m \<le> st_C_core m \<and> dt * (st_hA_internal m + st_hA_external m) \<le> st_C_skin m"

lemma convex3_bounds:
  fixes a b c :: real
  assumes "0 \<le> u" "0 \<le> v" "u + v \<le> 1" "lo \<le> a" "a \<le> hi" "lo \<le> b" "b \<le> hi" "lo \<le> c" "c \<le> hi"
  shows "lo \<le> a + u * (b - a) + v * (c - a)" and "a + u * (b - a) + v * (c - a) \<le> hi"
proof -
  have e: "a + u * (b - a) + v * (c - a) = (1 - u - v) * a + u * b + v * c" by (simp add: algebra_simps)
  have "(1 - u - v) * lo + u * lo + v * lo \<le> (1 - u - v) * a + u * b + v * c"
    using assms by (intro add_mono mult_left_mono) auto
  then show "lo \<le> a + u * (b - a) + v * (c - a)" unfolding e by (simp add: algebra_simps)
  have "(1 - u - v) * a + u * b + v * c \<le> (1 - u - v) * hi + u * hi + v * hi"
    using assms by (intro add_mono mult_left_mono) auto
  then show "a + u * (b - a) + v * (c - a) \<le> hi" unfolding e by (simp add: algebra_simps)
qed

lemma stack_thermal_step_bounds:
  assumes "thermal_ok m" and "step_size_ok dt m" and "stack_thermal_step dt 0 Tc m = (r, m')"
    and "lo \<le> st_T_core m" "st_T_core m \<le> hi" "lo \<le> st_T_skin m" "st_T_skin m \<le> hi" "lo \<le> Tc" "Tc \<le> hi"
  shows "lo \<le> st_T_core m' \<and> st_T_core m' \<le> hi \<and> lo \<le> st_T_skin m' \<and> st_T_skin m' \<le> hi
    \<and> thermal_ok m' \<and> step_size_ok dt m'"
proof -
  obtain m1 where m1: "stack_thermal_step dt 0 Tc m = (Inr (st_hA_external m * (st_T_skin m1 - Tc)), m1)"
    and core: "st_T_core m1 = st_T_core m + dt * ((0 - st_hA_internal m * (st_T_core m - st_T_skin m)) / st_C_core m)"
    and skin: "st_T_skin m1 = st_T_skin m + dt * ((st_hA_internal m * (st_T_core m - st_T_skin m)
         - st_hA_external m * (st_T_skin m - Tc)) / st_C_skin m)"
    and rest: "thermal_ok m1" "st_C_core m1 = st_C_core m" "st_C_skin m1 = st_C_skin m"
      "st_hA_internal m1 = st_hA_internal m" "st_hA_external m1 = st_hA_external m"
    using stack_thermal_step_value [OF assms(1), of dt 0 Tc] by blast
  have m': "m' = m1" using m1 assms(3) by simp
  have C: "0 < st_C_core m" "0 < st_C_skin m" using assms(1) by (simp_all add: thermal_ok_def)
  let ?u = "dt * st_hA_internal m / st_C_core m"
  let ?v = "dt * st_hA_internal m / st_C_skin m" and ?w = "dt * st_hA_external m / st_C_skin m"
  have u: "0 \<le> ?u" "?u + 0 \<le> 1" using assms(2) C by (simp_all add: step_size_ok_def)
  have "?v + ?w = dt * (st_hA_internal m + st_hA_external m) / st_C_skin m"
    by (simp add: algebra_simps add_divide_distrib)
  then have v: "0 \<le> ?v" "0 \<le> ?w" "?v + ?w \<le> 1" using assms(2) C by (simp_all add: step_size_ok_def)
  have "st_T_core m1 = st_T_core m + ?u * (st_T_skin m - st_T_core m) + 0 * (Tc - st_T_core m)"
    unfolding core by (simp add: field_simps)
  moreover have "st_T_skin m1 = st_T_skin m + ?v * (st_T_core m - st_T_skin m) + ?w * (Tc - st_T_skin m)"
    unfolding skin using C by (simp add: field_simps)
  ultimately show ?thesis
    using convex3_bounds [OF u(1) order.refl u(2), of lo "st_T_core m" hi "st_T_skin m" Tc]
      convex3_bounds [OF v, of lo "st_T_skin m" hi "st_T_core m" Tc] assms rest
    by (simp add: m' step_size_ok_def)
qed

text \<open>
  The chain: what the loop knows after its first cells. The heat conducted over the boundary to the
  next cell is the only heat of the treated prefix that is not generated or handed to the coolant.
\<close>

definition nd_flux :: "real list \<Rightarrow> real \<Rightarrow> nat \<Rightarrow> real" where
  "nd_flux T h k = (if 0 < k \<and> k < length T then h * (T ! k - T ! (k - 1)) else 0)"

definition nd_balance :: "real list \<Rightarrow> real \<Rightarrow> real \<Rightarrow> real \<Rightarrow> real \<Rightarrow> nat \<Rightarrow> real list \<times> real \<times> real \<Rightarrow> bool" where
  "nd_balance T qg dt C h k st = (case st of (T_new, _, q) \<Rightarrow> length T_new = length T
     \<and> (\<Sum>i<k. C * (T_new ! i - T ! i)) = dt * (real k * qg - q + nd_flux T h k))"

lemma nd_cell_value:
  assumes "i < length T" and "C \<noteq> 0" and "cp \<noteq> 0"
  shows "\<exists>Tc'. nd_cell T qg mdot dt C cp he hi i (T_new, Tc, q) =
    Inr (T_new[i := T ! i + dt * ((qg - nd_flux T hi i + nd_flux T hi (Suc i) - (T ! i - Tc) * he) / C)],
         Tc', q + (T ! i - Tc) * he)"
proof -
  have l: "(if i > 0 then res_bind (aget T (int i - 1)) (\<lambda>L. Inr ((L - T ! i) * hi)) else Inr 0)
      = Inr (- nd_flux T hi i)"
    using assms(1) aget_nat [of "i - 1" T]
    by (cases i) (simp_all add: nd_flux_def algebra_simps)
  have r: "(if i < length T - 1 then res_bind (aget T (int i + 1)) (\<lambda>R. Inr ((R - T ! i) * hi)) else Inr 0)
      = Inr (nd_flux T hi (Suc i))"
    using assms(1) aget_nat [of "Suc i" T] by (auto simp: nd_flux_def algebra_simps)
  show ?thesis
    unfolding nd_cell_def prod.case aget_nat [OF assms(1)] res_bind.simps Let_def l r
    using assms by (simp add: fdiv_ok algebra_simps)
qed

lemma nd_cell_balance:
  assumes "i < length T" and "C \<noteq> 0" and "cp \<noteq> 0" and "nd_balance T qg dt C hi i st"
  shows "\<exists>st'. nd_cell T qg mdot dt C cp he hi i st = Inr st' \<and> nd_balance T qg dt C hi (Suc i) st'"
proof -
  obtain T_new Tc q where st: "st = (T_new, Tc, q)" by (cases st) auto
  define v where "v = T ! i + dt * ((qg - nd_flux T hi i + nd_flux T hi (Suc i) - (T ! i - Tc) * he) / C)"
  obtain Tc' where c: "nd_cell T qg mdot dt C cp he hi i st
      = Inr (T_new[i := v], Tc', q + (T ! i - Tc) * he)"
    using nd_cell_value [OF assms(1,2,3)] unfolding st v_def by blast
  have len: "length T_new = length T" and
    sum: "(\<Sum>j<i. C * (T_new ! j - T ! j)) = dt * (real i * qg - q + nd_flux T hi i)"
    using assms(4) by (simp_all add: nd_balance_def st)
  have "C * (v - T ! i) = dt * (qg - nd_flux T hi i + nd_flux T hi (Suc i) - (T ! i - Tc) * he)"
    unfolding v_def using assms(2) by simp
  then have "(\<Sum>j<Suc i. C * (T_new[i := v] ! j - T ! j))
      = dt * (real (Suc i) * qg - (q + (T ! i - Tc) * he) + nd_flux T hi (Suc i))"
    using sum assms(1) len by (simp add: algebra_simps)
  then show ?thesis using c len by (simp add: nd_balance_def)
qed

definition nd_ok :: "stack_thermal_nd \<Rightarrow> bool" where
  "nd_ok m \<longleftrightarrow> 0 < nd_n_cells m \<and> length (nd_T_cell m) = nd_n_cells m \<and> 0 < nd_C_cell m \<and> 0 < nd_cp_coolant m"

lemma step_nd_balance:
  assumes "C \<noteq> 0" and "cp \<noteq> 0"
  shows "\<exists>T_new q. step_stack_thermal_nd_jit T qg inlet mdot dt C cp he hi = Inr (T_new, q)
    \<and> length T_new = length T
    \<and> (\<Sum>i<length T. C * (T_new ! i - T ! i)) = dt * (real (length T) * qg - q)"
proof -
  obtain st where f: "fold_range (length T) (nd_cell T qg mdot dt C cp he hi)
        (replicate (length T) 0, inlet, 0) = Inr st"
    and b: "nd_balance T qg dt C hi (0 + length T) st"
    using fold_from_total_inv [of 0 "length T" "nd_balance T qg dt C hi"
        "nd_cell T qg mdot dt C cp he hi" "(replicate (length T) 0, inlet, 0)"]
      nd_cell_balance [OF _ assms]
    by (auto simp: nd_balance_def [of _ _ _ _ _ 0] nd_flux_def)
  then show ?thesis
    by (cases st) (simp add: step_stack_thermal_nd_jit_def nd_balance_def nd_flux_def)
qed

text \<open>Repeated steps of the JIT kernel under constant heat and coolant.\<close>

fun jit_run :: "nat \<Rightarrow> real \<Rightarrow> real \<Rightarrow> real \<Rightarrow> real \<times> real \<Rightarrow> (real \<times> real) res" where
  "jit_run 0 dt Q Tc s = Inr s"
| "jit_run (Suc n) dt Q Tc s =
     res_bind (thermal_step_jit (fst s) (snd s) dt Q Tc 12500 12500 500 50) (jit_run n dt Q Tc)"

lemma jit_step_40:
  "thermal_step_jit a b 40 0 Tc 12500 12500 500 50 =
     Inr (a - 1.6 * (a - b), b + 1.6 * (a - b) - 0.16 * (b - Tc))"
  by (simp add: thermal_step_jit_def fdiv_def Let_def) (simp add: field_simps)

section \<open>Properties\<close>

text \<open>
  C35: a step of the two-lump model balances energy: the heat stored in core and skin is the step
  times generated minus removed heat, the latter at the old skin temperature, while the reported
  output heat is taken at the new one.
\<close>

theorem stack_thermal_energy_balance:
  assumes "thermal_ok m" and "stack_thermal_step dt Q_gen T_coolant m = (r, m')"
  shows "st_C_core m * (st_T_core m' - st_T_core m) + st_C_skin m * (st_T_skin m' - st_T_skin m)
      = dt * (Q_gen - st_hA_external m * (st_T_skin m - T_coolant))
    \<and> r = Inr (st_hA_external m * (st_T_skin m' - T_coolant))"
proof -
  have C: "st_C_core m \<noteq> 0" "st_C_skin m \<noteq> 0" using assms(1) by (auto simp: thermal_ok_def)
  have cancel: "c * ((T + dt * (x / c)) - T) = dt * x" if "c \<noteq> 0" for c T x :: real
    using that by simp
  obtain core: "st_T_core m' = st_T_core m
        + dt * ((Q_gen - st_hA_internal m * (st_T_core m - st_T_skin m)) / st_C_core m)"
    and skin: "st_T_skin m' = st_T_skin m + dt * ((st_hA_internal m * (st_T_core m - st_T_skin m)
         - st_hA_external m * (st_T_skin m - T_coolant)) / st_C_skin m)"
    and r: "r = Inr (st_hA_external m * (st_T_skin m' - T_coolant))"
    using stack_thermal_step_value [OF assms(1), of dt Q_gen T_coolant] assms(2) by auto
  show ?thesis unfolding core skin cancel [OF C(1)] cancel [OF C(2)]
    using r unfolding skin by (simp add: algebra_simps)
qed

theorem stack_thermal_energy_balance_witness:
  "\<exists>r m'. stack_thermal_step 0.5 1000 298.15 StackThermalModel = (r, m')
    \<and> st_C_core StackThermalModel * (st_T_core m' - st_T_core StackThermalModel)
        + st_C_skin StackThermalModel * (st_T_skin m' - st_T_skin StackThermalModel)
      = 0.5 * (1000 - st_hA_external StackThermalModel * (st_T_skin StackThermalModel - 298.15))
    \<and> r = Inr (st_hA_external StackThermalModel * (st_T_skin m' - 298.15))"
proof -
  obtain r m' where s: "stack_thermal_step 0.5 1000 298.15 StackThermalModel = (r, m')" by fastforce
  have "thermal_ok StackThermalModel"
    by (simp add: thermal_ok_def StackThermalModel_def stack_thermal_post_init_def)
  from stack_thermal_energy_balance [OF this s] s show ?thesis by blast
qed

text \<open>
  Maximum principle: without heat generation, and with a step size the explicit scheme
  tolerates, no history of coolant temperatures drives core or skin outside the interval that
  contains the initial temperatures and the coolant's.
\<close>

theorem stack_thermal_maximum_principle:
  assumes "thermal_ok m" and "step_size_ok dt m"
    and "lo \<le> st_T_core m" "st_T_core m \<le> hi" "lo \<le> st_T_skin m" "st_T_skin m \<le> hi"
    and "\<forall>Tc \<in> set coolant. lo \<le> Tc \<and> Tc \<le> hi"
  shows "\<exists>m'. thermal_run dt (map (Pair 0) coolant) m = (Inr (), m')
    \<and> lo \<le> st_T_core m' \<and> st_T_core m' \<le> hi \<and> lo \<le> st_T_skin m' \<and> st_T_skin m' \<le> hi"
  using assms
proof (induction coolant arbitrary: m)
  case Nil
  then show ?case by (simp add: ret_def)
next
  case (Cons Tc coolant)
  obtain m1 where s: "stack_thermal_step dt 0 Tc m = (Inr (st_hA_external m * (st_T_skin m1 - Tc)), m1)"
    using stack_thermal_step_value [OF Cons.prems(1), of dt 0 Tc] by blast
  have b: "lo \<le> st_T_core m1 \<and> st_T_core m1 \<le> hi \<and> lo \<le> st_T_skin m1 \<and> st_T_skin m1 \<le> hi
      \<and> thermal_ok m1 \<and> step_size_ok dt m1"
    by (rule stack_thermal_step_bounds [OF Cons.prems(1,2) s]) (use Cons.prems in auto)
  show ?case using Cons.IH [of m1] b Cons.prems(7) s by (simp add: seq_step)
qed

theorem stack_thermal_maximum_principle_witness:
  "\<exists>m'. thermal_run 0.5 (map (Pair 0) [290, 300]) StackThermalModel = (Inr (), m')
    \<and> 290 \<le> st_T_core m' \<and> st_T_core m' \<le> 300 \<and> 290 \<le> st_T_skin m' \<and> st_T_skin m' \<le> 300"
  by (rule stack_thermal_maximum_principle)
    (simp_all add: thermal_ok_def step_size_ok_def StackThermalModel_def stack_thermal_post_init_def)

text \<open>
  The JIT step of the thermal sweep is the model's step: where its step-size guard lets it
  run, it computes the same core and skin temperatures as \<open>StackThermalModel.step\<close>.
\<close>

theorem thermal_step_jit_refines_model:
  assumes "thermal_ok m" and "stack_thermal_step dt Q_gen T_coolant m = (r, m')"
    and "thermal_step_jit (st_T_core m) (st_T_skin m) dt Q_gen T_coolant (st_C_core m) (st_C_skin m)
           (st_hA_internal m) (st_hA_external m) = Inr (T_core, T_skin)"
  shows "T_core = st_T_core m' \<and> T_skin = st_T_skin m'"
  using stack_thermal_step_value [OF assms(1), of dt Q_gen T_coolant] assms
  by (auto simp: thermal_step_jit_def Let_def thermal_ok_def algebra_simps split: if_splits)

theorem thermal_step_jit_refines_model_witness:
  "\<exists>r m' T_core T_skin. stack_thermal_step 0.5 1000 298.15 StackThermalModel = (r, m')
    \<and> thermal_step_jit (st_T_core StackThermalModel) (st_T_skin StackThermalModel) 0.5 1000 298.15
        (st_C_core StackThermalModel) (st_C_skin StackThermalModel)
        (st_hA_internal StackThermalModel) (st_hA_external StackThermalModel) = Inr (T_core, T_skin)
    \<and> T_core = st_T_core m' \<and> T_skin = st_T_skin m'"
proof -
  obtain r m' where s: "stack_thermal_step 0.5 1000 298.15 StackThermalModel = (r, m')" by fastforce
  have ok: "thermal_ok StackThermalModel"
    by (simp add: thermal_ok_def StackThermalModel_def stack_thermal_post_init_def)
  have j: "thermal_step_jit (st_T_core StackThermalModel) (st_T_skin StackThermalModel) 0.5 1000 298.15
        (st_C_core StackThermalModel) (st_C_skin StackThermalModel)
        (st_hA_internal StackThermalModel) (st_hA_external StackThermalModel) = Inr (298.19, 298.15)"
    by (simp add: thermal_step_jit_def StackThermalModel_def stack_thermal_post_init_def fdiv_def Let_def)
  from thermal_step_jit_refines_model [OF ok s j] s j show ?thesis by blast
qed

text \<open>
  A step of the chain of cells balances energy: over all cells, the stored heat grows by the
  step times generated minus reported removed heat, so conduction between cells creates none.
\<close>

theorem nd_step_energy_balance:
  assumes "nd_ok m"
  shows "\<exists>m'. stack_thermal_nd_step dt Q_gen inlet mdot m = (Inr (nd_T_cell m'), m') \<and> nd_ok m'
    \<and> (\<Sum>i<nd_n_cells m. nd_C_cell m * (nd_T_cell m' ! i - nd_T_cell m ! i))
        = dt * (Q_gen - nd_last_Q_output m')"
proof -
  have C: "nd_C_cell m \<noteq> 0" "nd_cp_coolant m \<noteq> 0" and n: "length (nd_T_cell m) = nd_n_cells m" "0 < nd_n_cells m"
    using assms by (auto simp: nd_ok_def)
  obtain T_new q where s: "step_stack_thermal_nd_jit (nd_T_cell m) (Q_gen / real (nd_n_cells m)) inlet mdot dt
        (nd_C_cell m) (nd_cp_coolant m) (nd_hA_cell_ext m) (nd_hA_inter_cell m) = Inr (T_new, q)"
    "length T_new = nd_n_cells m"
    "(\<Sum>i<nd_n_cells m. nd_C_cell m * (T_new ! i - nd_T_cell m ! i)) = dt * (Q_gen - q)"
    using step_nd_balance [OF C] n by fastforce
  then show ?thesis
    using assms n by (simp add: stack_thermal_nd_step_def meth_defs fdiv_ok nd_ok_def)
qed

theorem nd_step_energy_balance_witness:
  "\<exists>m'. stack_thermal_nd_step 0.5 100 293.15 0.05 (new_stack_thermal_nd 2 298.15 250 4184 0.5 10)
        = (Inr (nd_T_cell m'), m') \<and> nd_ok m'
    \<and> (\<Sum>i<2. 250 * (nd_T_cell m' ! i - [298.15, 298.15] ! i)) = 0.5 * (100 - nd_last_Q_output m')"
  using nd_step_energy_balance [of "new_stack_thermal_nd 2 298.15 250 4184 0.5 10" "0.5" 100 "293.15" "0.05"]
  by (simp add: nd_ok_def new_stack_thermal_nd_def numeral_2_eq_2)



end
