(* ===== verification/Server.thy ===== *)
theory Server
  imports H2Storage Stations StackThermal
begin

text \<open>
  The SimBridge service of \<open>sim_bridge_server.py\<close> over the component theories, the state vector of
  \<open>proto_index.py\<close>, and the activity functions of \<open>lut_manager.py\<close> it calls. A protobuf message is a
  record of its fields; a request is handled by a method on the servicer. A handler's
  \<open>except Exception\<close> catches every error of the model but \<open>NonFinite\<close>, where the source would carry
  on with a nan: a theorem that a handler answers also says that none arises.
\<close>

section \<open>The state vector\<close>

definition H2_TANK_PRESSURE_BAR :: nat where "H2_TANK_PRESSURE_BAR = 0"
definition H2_TANK_FILL_FRACTION :: nat where "H2_TANK_FILL_FRACTION = 1"
definition CHILLER_TEMP_K :: nat where "CHILLER_TEMP_K = 2"
definition COMPRESSOR_POWER_KW :: nat where "COMPRESSOR_POWER_KW = 3"
definition STACK_VOLTAGE_V :: nat where "STACK_VOLTAGE_V = 4"
definition STACK_CURRENT_A_CM2 :: nat where "STACK_CURRENT_A_CM2 = 5"
definition STACK_TEMP_K :: nat where "STACK_TEMP_K = 6"
definition STACK_CORE_TEMP_K :: nat where "STACK_CORE_TEMP_K = 7"
definition STACK_SKIN_TEMP_K :: nat where "STACK_SKIN_TEMP_K = 8"
definition VECTOR_LENGTH :: nat where "VECTOR_LENGTH = 9"

lemmas index_defs = H2_TANK_PRESSURE_BAR_def H2_TANK_FILL_FRACTION_def CHILLER_TEMP_K_def
  COMPRESSOR_POWER_KW_def STACK_VOLTAGE_V_def STACK_CURRENT_A_CM2_def STACK_TEMP_K_def
  STACK_CORE_TEMP_K_def STACK_SKIN_TEMP_K_def VECTOR_LENGTH_def

text \<open>A Python value as \<open>validate_vector\<close> sees it: an array with its shape, or something else.\<close>

datatype py_value = NDArray "nat list" | OtherValue

definition validate_vector :: "py_value \<Rightarrow> bool res" where
  "validate_vector vec = (case vec of
       OtherValue \<Rightarrow> Inl TypeError
     | NDArray shape \<Rightarrow> if shape \<noteq> [VECTOR_LENGTH] then Inl ValueError else Inr True)"

section \<open>Activities\<close>

definition antoine_psat_water :: "real \<Rightarrow> real res" where
  "antoine_psat_water T_k =
     (let T_C = (if T_k - 273.15 < 0.01 then 0.01 else T_k - 273.15) in
      res_bind (fdiv 1730.63 (233.426 + T_C)) (\<lambda>q.
      res_bind (fpow 10 (8.07131 - q)) (\<lambda>p_mmhg. Inr (p_mmhg * 133.322))))"

text \<open>
  \<open>lookup_water_saturation\<close>, the method asked for by \<open>hasattr\<close>, is not one of the manager's, so the
  Antoine equation always decides.
\<close>

definition water_vapor_partial_pressure :: "real \<Rightarrow> real \<Rightarrow> real res" where
  "water_vapor_partial_pressure T_k rh =
     (let rh = max 0 (min 1 rh) in
      if rh = 0 then Inr 0
      else res_bind (antoine_psat_water T_k) (\<lambda>p_sat. Inr (p_sat * rh)))"

definition real_gas_activity ::
    "props_si option \<Rightarrow> real \<Rightarrow> real \<Rightarrow> string \<Rightarrow> real \<Rightarrow> real \<Rightarrow> (real \<times> real) res" where
  "real_gas_activity CP P_total_pa T_k fluid rh P_ref_pa =
     res_bind (water_vapor_partial_pressure T_k rh) (\<lambda>p_vapor.
     let p_partial = max 0 (P_total_pa - p_vapor);
         phi = (case CP of
             None \<Rightarrow> 1
           | Some propsSI \<Rightarrow>
               if p_partial > 0
               then (case propsSI ''Z'' ''P'' p_partial ''T'' T_k fluid of Inr z \<Rightarrow> z | Inl _ \<Rightarrow> 1)
               else 1)
     in res_bind (fdiv (phi * p_partial) P_ref_pa) (\<lambda>a. Inr (a, phi)))"

section \<open>The servicer\<close>

text \<open>The seed: the first eight bytes of the identifier, little endian, XOR the run number.\<close>

fun from_bytes_little :: "string \<Rightarrow> int" where
  "from_bytes_little [] = 0"
| "from_bytes_little (c # cs) = of_char c + 256 * from_bytes_little cs"

definition derive_seed :: "string \<Rightarrow> int \<Rightarrow> int" where
  "derive_seed stack_id run_id = from_bytes_little (take 8 stack_id) XOR run_id"

text \<open>\<open>_derive_numba_threads\<close>: \<open>env\<close> is the parsed variable, \<open>cpu_count\<close> what the system reports.\<close>

definition derive_numba_threads :: "int res option \<Rightarrow> int option \<Rightarrow> int res" where
  "derive_numba_threads env cpu_count = (case env of
       Some r \<Rightarrow> res_bind r (\<lambda>n. Inr (max 1 n))
     | None \<Rightarrow>
         let cpus = (case cpu_count of None \<Rightarrow> 1 | Some n \<Rightarrow> if n = 0 then 1 else n)
         in Inr (max 1 (cpus div 30)))"

record sim_bridge =
  br_num_cells :: int
  br_R_internal :: real
  br_thermal :: stack_thermal
  br_tank :: tank_array
  br_compressor_eta :: real
  br_state :: "real list"
  br_ready :: bool
  br_step_counter :: int
  br_run_id :: int
  br_seed :: int

abbreviation state_at :: "sim_bridge \<Rightarrow> nat \<Rightarrow> real" where
  "state_at b i \<equiv> br_state b ! i"

definition set_state :: "nat \<Rightarrow> real \<Rightarrow> sim_bridge \<Rightarrow> sim_bridge" where
  "set_state i v b = b\<lparr>br_state := (br_state b)[i := v]\<rparr>"

definition on_thermal :: "(stack_thermal, 'a) meth \<Rightarrow> (sim_bridge, 'a) meth" where
  "on_thermal m b = (case m (br_thermal b) of (r, t) \<Rightarrow> (r, b\<lparr>br_thermal := t\<rparr>))"

definition except_all :: "('s, 'a) meth \<Rightarrow> ('s, 'a) meth \<Rightarrow> ('s, 'a) meth" where
  "except_all m h = try_except m (\<lambda>e. if e = NonFinite then raise_err NonFinite else h)"

text \<open>
  \<open>__init__\<close>. \<open>default_rng\<close> is numpy's generator constructor, which may refuse a seed; the warm-up
  calls change nothing and their failures are caught.
\<close>

definition new_sim_bridge ::
    "props_si option \<Rightarrow> (int \<Rightarrow> unit res) \<Rightarrow> lut_manager \<Rightarrow> int \<Rightarrow> real \<Rightarrow> real \<Rightarrow> int \<Rightarrow> string \<Rightarrow> sim_bridge res" where
  "new_sim_bridge CP default_rng lut num_cells R_internal T_initial run_id stack_id =
     (case initialize CP lut of
        (Inl e, _) \<Rightarrow> Inl e
      | (Inr _, lut') \<Rightarrow>
          res_bind (new_tank_array CP lut' 5 0.5 1 T_initial) (\<lambda>tank.
          let thermal = stack_thermal_post_init (StackThermalModel\<lparr>st_T_initial := T_initial\<rparr>);
              seed = derive_seed stack_id run_id
          in res_bind (default_rng seed) (\<lambda>_.
             Inr \<lparr>br_num_cells = num_cells, br_R_internal = R_internal, br_thermal = thermal,
               br_tank = tank, br_compressor_eta = 0.75,
               br_state = (replicate VECTOR_LENGTH 0)[STACK_TEMP_K := T_initial,
                  STACK_CORE_TEMP_K := T_initial, STACK_SKIN_TEMP_K := T_initial,
                  CHILLER_TEMP_K := 298.15, H2_TANK_PRESSURE_BAR := 3, H2_TANK_FILL_FRACTION := 1,
                  COMPRESSOR_POWER_KW := 0],
               br_ready = True, br_step_counter = 0, br_run_id = run_id, br_seed = seed\<rparr>)))"

definition health_check :: "sim_bridge \<Rightarrow> bool" where
  "health_check b = br_ready b"

section \<open>AdvanceTime\<close>

record step_ready =
  sr_target_time :: real
  sr_success :: bool
  sr_state_vector :: "real list"

definition heater_power :: "real \<Rightarrow> real" where
  "heater_power T = (if T < 353.15 then min 5000 ((353.15 - T) * 1000) else 0)"

definition advance_body :: "real \<Rightarrow> (sim_bridge, unit) meth" where
  "advance_body dt =
     seq (reads (\<lambda>b. (state_at b STACK_CORE_TEMP_K, state_at b CHILLER_TEMP_K))) (\<lambda>(T, T_coolant).
     seq (reads (\<lambda>b. calculate_cathode_air_flow_rate (state_at b STACK_CURRENT_A_CM2 * 300)
                       (br_num_cells b) 2)) (\<lambda>m_dot_air.
     seq (pure_res (calculate_compressor_power m_dot_air 101325 202650 298.15 0.75)) (\<lambda>W_comp.
     let a_o2 = np_clip (1 + m_dot_air * 10) 0.5 10 in
     seq (reads (\<lambda>b. state_at b STACK_CURRENT_A_CM2)) (\<lambda>j_curr.
     seq (if j_curr < 1 / 10 ^ 10
          then seq (updates (set_state STACK_CURRENT_A_CM2 0)) (\<lambda>_. ret 0) else ret j_curr) (\<lambda>j.
     seq (reads (\<lambda>b. np_clip (state_at b H2_TANK_PRESSURE_BAR) 0.5 10)) (\<lambda>a_h2.
     seq (\<lambda>b. (calculate_pemfc_voltage j T a_h2 a_o2 (br_R_internal b) (br_num_cells b) 1 14 2.5, b))
       (\<lambda>(V_stack, eta_act, eta_ohm, eta_conc, E_ocv).
     let Q_gen = j * (eta_act + eta_ohm) + heater_power T in
     seq (on_thermal (stack_thermal_step dt Q_gen T_coolant)) (\<lambda>Q_output.
     updates (\<lambda>b.
       let b1 = set_state STACK_CORE_TEMP_K (st_T_core (br_thermal b)) b;
           b2 = set_state STACK_SKIN_TEMP_K (st_T_skin (br_thermal b)) b1;
           b3 = set_state STACK_TEMP_K (st_T_core (br_thermal b)) b2;
           b4 = set_state COMPRESSOR_POWER_KW (W_comp / 1000) b3
       in b4\<lparr>br_step_counter := br_step_counter b4 + 1\<rparr>)))))))))"

definition advance_time :: "real \<Rightarrow> real \<Rightarrow> (sim_bridge, step_ready) meth" where
  "advance_time current_time dt =
     except_all
       (seq (advance_body dt) (\<lambda>_. reads (\<lambda>b.
          \<lparr>sr_target_time = current_time + dt, sr_success = True, sr_state_vector = br_state b\<rparr>)))
       (reads (\<lambda>b.
          \<lparr>sr_target_time = current_time, sr_success = False, sr_state_vector = br_state b\<rparr>))"

section \<open>RunBatchTest\<close>

record batch_request =
  bq_num_cells :: int
  bq_operating_temp_k :: real
  bq_inlet_pressure_h2_bar :: real
  bq_inlet_pressure_o2_bar :: real
  bq_current_densities :: "real list"
  bq_r_internal_penalty_ohm_cm2 :: real
  bq_activity_derate_fraction :: real
  bq_rh_anode :: real
  bq_ecsa_ratio :: real
  bq_p_clamp_mpa :: real
  bq_gdl_porosity :: real
  bq_j_lim_derate_fraction :: real

record batch_response =
  bs_passed :: bool
  bs_measured_voltages :: "real list"
  bs_failure_flags :: "32 word"

definition j_lim_effective :: "batch_request \<Rightarrow> real" where
  "j_lim_effective req = max 0.2 (2.5 * (1 - np_clip (bq_j_lim_derate_fraction req) 0 0.9))"

definition batch_currents :: "batch_request \<Rightarrow> real list" where
  "batch_currents req =
     (if bq_current_densities req \<noteq> [] then bq_current_densities req
      else linspace 0.05 (min 2.4 (0.95 * j_lim_effective req)) 12)"

text \<open>The manufacturing-quality bridge: activities and area-specific resistance of the tested stack.\<close>

definition batch_activities :: "props_si option \<Rightarrow> batch_request \<Rightarrow> (real \<times> real) res" where
  "batch_activities CP req =
     (let T = (if bq_operating_temp_k req = 0 then 353.15 else bq_operating_temp_k req) in
      res_bind (real_gas_activity CP (bq_inlet_pressure_h2_bar req * 10 ^ 5) T ''H2'' (bq_rh_anode req) (10 ^ 5))
        (\<lambda>(a_h2_raw, _).
      res_bind (real_gas_activity CP (bq_inlet_pressure_o2_bar req * 10 ^ 5) T ''O2'' 0 (10 ^ 5))
        (\<lambda>(a_o2_raw, _).
      let derate = np_clip (bq_activity_derate_fraction req) 0 0.95;
          a_h2 = np_clip (np_clip a_h2_raw 0.5 10 * (1 - derate)) 0.5 10;
          a_o2 = np_clip (np_clip a_o2_raw 0.5 10 * (1 - derate)) 0.5 10
      in Inr (a_h2, a_o2))))"

definition batch_resistance :: "batch_request \<Rightarrow> real \<Rightarrow> real" where
  "batch_resistance req R_internal =
     (let p_clamp_mpa = (if bq_p_clamp_mpa req \<le> 0 then 4.25 else bq_p_clamp_mpa req);
          gdl_porosity = (if bq_gdl_porosity req \<le> 0 then 0.78 else bq_gdl_porosity req)
      in R_internal + max 0 (bq_r_internal_penalty_ohm_cm2 req)
         + compute_contact_resistance p_clamp_mpa gdl_porosity R_CONTACT_0)"

text \<open>What the computation of a test leaves for its later steps.\<close>

record batch_plan =
  bp_currents :: "real list"
  bp_voltages :: "real list"
  bp_flags :: "32 word"
  bp_T_core :: "real list"
  bp_T_skin :: "real list"
  bp_a_h2 :: real
  bp_a_o2 :: real
  bp_R :: real
  bp_N :: int
  bp_ecsa :: real

definition batch_compute :: "props_si option \<Rightarrow> batch_request \<Rightarrow> sim_bridge \<Rightarrow> batch_plan res" where
  "batch_compute CP req b =
     (let N_cells = (if bq_num_cells req = 0 then br_num_cells b else bq_num_cells req);
          R_eff = batch_resistance req (br_R_internal b);
          js = batch_currents req;
          ecsa_ratio = (if bq_ecsa_ratio req \<le> 0 then 1 else bq_ecsa_ratio req);
          t = br_thermal b
      in res_bind (batch_activities CP req) (\<lambda>(a_h2, a_o2).
         res_bind (batch_polarization_sweep_thermal js (st_T_core t) a_h2 a_o2 R_eff N_cells ecsa_ratio 14 0.5
             (st_C_core t) (st_C_skin t) (st_hA_internal t) (st_hA_external t) (state_at b CHILLER_TEMP_K)
             (j_lim_effective req)) (\<lambda>(voltages, failure_flags, T_core_arr, T_skin_arr).
         Inr \<lparr>bp_currents = js, bp_voltages = voltages, bp_flags = failure_flags, bp_T_core = T_core_arr,
              bp_T_skin = T_skin_arr, bp_a_h2 = a_h2, bp_a_o2 = a_o2, bp_R = R_eff, bp_N = N_cells,
              bp_ecsa = ecsa_ratio\<rparr>)))"

definition np_max :: "real list \<Rightarrow> real res" where
  "np_max xs = (case xs of [] \<Rightarrow> Inl ValueError | x # ys \<Rightarrow> Inr (fold max ys x))"

text \<open>Publishing the final temperatures, then the Yonkist check, which is only logged.\<close>

definition batch_publish :: "batch_plan \<Rightarrow> (sim_bridge, unit) meth" where
  "batch_publish plan =
     seq (pure_res (aget (bp_T_core plan) (- 1))) (\<lambda>T_core.
     seq (updates (\<lambda>b. b\<lparr>br_thermal := (br_thermal b)\<lparr>st_T_core := T_core\<rparr>\<rparr>)) (\<lambda>_.
     seq (pure_res (aget (bp_T_skin plan) (- 1))) (\<lambda>T_skin.
     seq (updates (\<lambda>b. b\<lparr>br_thermal := (br_thermal b)\<lparr>st_T_skin := T_skin\<rparr>\<rparr>)) (\<lambda>_.
     seq (pure_res (np_max (bp_currents plan))) (\<lambda>j_max.
     seq (pure_res (calculate_pemfc_voltage j_max T_core (bp_a_h2 plan) (bp_a_o2 plan) (bp_R plan)
            (bp_N plan) (bp_ecsa plan) 14 2.5)) (\<lambda>(V, eta_act_max, eta_ohm_max, _).
     let Q_gen_max = (j_max * of_int (bp_N plan)) * (eta_act_max + eta_ohm_max) in
     seq (\<lambda>b. (let t = br_thermal b in
            res_bind (fdiv Q_gen_max (st_A_external t * st_L_char t)) (\<lambda>q.
            validate_yonkist t q (max 0.1 \<bar>T_core - T_skin\<bar>)), b)) (\<lambda>_.
     ret ())))))))"

text \<open>One turn of the pacing loop; its writes are one critical section.\<close>

type_synonym sweep_point = "real \<times> real \<times> real \<times> real"

definition batch_points :: "batch_plan \<Rightarrow> sweep_point list" where
  "batch_points plan = zip (bp_currents plan) (zip (bp_voltages plan) (zip (bp_T_core plan) (bp_T_skin plan)))"

definition batch_point :: "int \<Rightarrow> sweep_point \<Rightarrow> (sim_bridge, unit) meth" where
  "batch_point N_cells p = (case p of (j_val, v_val, t_core_val, t_skin_val) \<Rightarrow>
     let m_dot_air = calculate_cathode_air_flow_rate (j_val * 300) N_cells 2 in
     seq (pure_res (calculate_compressor_power m_dot_air 101325 202650 298.15 0.75)) (\<lambda>_.
     updates (\<lambda>b.
       let b1 = set_state STACK_CURRENT_A_CM2 j_val b;
           b2 = set_state STACK_VOLTAGE_V v_val b1;
           b3 = set_state STACK_CORE_TEMP_K t_core_val b2;
           b4 = set_state STACK_SKIN_TEMP_K t_skin_val b3
       in set_state STACK_TEMP_K (0.5 * (t_core_val + t_skin_val)) b4)))"

text \<open>The monotonicity check: some voltage exceeds its predecessor.\<close>

fun voltage_rises :: "real list \<Rightarrow> bool" where
  "voltage_rises (u # v # vs) \<longleftrightarrow> v > u + 1 / 10 ^ 6 \<or> voltage_rises (v # vs)"
| "voltage_rises vs \<longleftrightarrow> False"

definition batch_answer :: "batch_plan \<Rightarrow> batch_response" where
  "batch_answer plan =
     (let flags = (if voltage_rises (bp_voltages plan) then bp_flags plan OR MASS_TRANSPORT_STARVATION
                   else bp_flags plan)
      in \<lparr>bs_passed = (flags = 0), bs_measured_voltages = bp_voltages plan, bs_failure_flags = flags\<rparr>)"

definition batch_failed :: batch_response where
  "batch_failed = \<lparr>bs_passed = False, bs_measured_voltages = [], bs_failure_flags = SOLVER_DID_NOT_CONVERGE\<rparr>"

definition run_batch_test :: "props_si option \<Rightarrow> batch_request \<Rightarrow> (sim_bridge, batch_response) meth" where
  "run_batch_test CP req =
     except_all
       (seq (\<lambda>b. (batch_compute CP req b, b)) (\<lambda>plan.
        seq (batch_publish plan) (\<lambda>_.
        seq (for_each (batch_points plan) (batch_point (bp_N plan))) (\<lambda>_.
        seq (updates (set_state STACK_CURRENT_A_CM2 0)) (\<lambda>_.
        ret (batch_answer plan))))))
       (ret batch_failed)"

section \<open>SimulateStationProcess\<close>

text \<open>
  Optional message fields are options; \<open>NoParams\<close> is a request without one of the four messages.
\<close>

datatype station_params =
    Station1 "real option" "real option"
  | Station2 "real option" "real option"
  | Station3 "real option" "int option" "real option" "bool option"
  | Station4 "real list" "real list"
  | NoParams

record station_response =
  sp_proc_time_s :: real
  sp_is_defective :: bool
  sp_var_ratio :: real
  sp_alpha_final :: real
  sp_delamination_risk :: real
  sp_pinhole_risk :: real
  sp_ecsa_ratio :: real
  sp_damage_index :: real
  sp_gdl_porosity :: real
  sp_e_tangent_mpa :: real
  sp_p_clamp_mpa :: real

text \<open>A message with nothing but the three common fields: the others have their zero default.\<close>

definition common_response :: "real \<Rightarrow> bool \<Rightarrow> real \<Rightarrow> station_response" where
  "common_response t d v = \<lparr>sp_proc_time_s = t, sp_is_defective = d, sp_var_ratio = v, sp_alpha_final = 0,
     sp_delamination_risk = 0, sp_pinhole_risk = 0, sp_ecsa_ratio = 0, sp_damage_index = 0,
     sp_gdl_porosity = 0, sp_e_tangent_mpa = 0, sp_p_clamp_mpa = 0\<rparr>"

definition field_or :: "'a option \<Rightarrow> 'a \<Rightarrow> 'a" where
  "field_or x d = (case x of None \<Rightarrow> d | Some v \<Rightarrow> v)"

definition simulate_station_process ::
    "bool \<Rightarrow> string \<Rightarrow> real \<Rightarrow> station_params \<Rightarrow> station_response res" where
  "simulate_station_process has_context station_id k_time params =
     (let k = (if k_time = 0 then K_TIME_ACCELERATED else k_time);
          unsupported = (if has_context then Inl RpcAborted else Inl ValueError)
      in case params of
        Station1 t_press dwell \<Rightarrow>
          if station_id \<noteq> ''S1'' then unsupported
          else res_bind (simulate_stage1_mea_prep_safe (field_or t_press T_PRESS_NOMINAL_K)
                  (field_or dwell DWELL_TIME_NOMINAL_S) k) (\<lambda>r.
            Inr ((common_response (s1_proc_time_s r) (s1_is_defective r) (s1_var_ratio r))
              \<lparr>sp_alpha_final := s1_alpha_final r, sp_delamination_risk := s1_delamination_risk r,
               sp_pinhole_risk := s1_pinhole_risk r\<rparr>))
      | Station2 v_coat mu_slurry \<Rightarrow>
          if station_id \<noteq> ''S2'' then unsupported
          else res_bind (simulate_stage2_catalyst_deposition_safe (field_or v_coat V_COAT_NOMINAL_M_S)
                  (field_or mu_slurry MU_SLURRY_NOMINAL_PA_S) k) (\<lambda>r.
            Inr ((common_response (s2_proc_time_s r) (s2_is_defective r) (s2_var_ratio r))
              \<lparr>sp_ecsa_ratio := s2_ecsa_ratio r\<rparr>))
      | Station3 force strokes w0 duplex \<Rightarrow>
          if station_id \<noteq> ''S3'' then unsupported
          else res_bind (simulate_stage1_stamping_safe (field_or force F_NOM_S3) (field_or strokes 0)
                  (field_or w0 0) (field_or duplex False) k) (\<lambda>r.
            Inr ((common_response (s3_proc_time_s r) (s3_is_defective r) (s3_var_ratio r))
              \<lparr>sp_damage_index := s3_damage_index r\<rparr>))
      | Station4 torques frictions \<Rightarrow>
          if station_id \<noteq> ''S4'' then unsupported
          else res_bind (simulate_stage2_clamping_safe
                  (if length torques = 4 then torques else replicate 4 TORQUE_NOMINAL_NM)
                  (if length frictions = 8 then frictions else replicate 8 0.15) True k) (\<lambda>r.
            Inr ((common_response (s4_proc_time_s r) (s4_is_defective r) (s4_var_ratio r))
              \<lparr>sp_gdl_porosity := s4_gdl_porosity r, sp_e_tangent_mpa := s4_e_tangent_mpa r,
               sp_p_clamp_mpa := s4_p_clamp_mpa r\<rparr>))
      | NoParams \<Rightarrow> unsupported)"

section \<open>An idle server\<close>

definition air_power :: "real \<Rightarrow> real" where
  "air_power m = (if max 0 m \<le> 1 / 10 ^ 12 then 0
     else max 0 m * CP_AIR * 298.15 * (2 powr ((GAMMA_AIR - 1) / GAMMA_AIR) - 1) / 0.75)"

lemma air_power_value: "calculate_compressor_power m 101325 202650 298.15 0.75 = Inr (air_power m)"
  by (simp add: calculate_compressor_power_def air_power_def Let_def fdiv_ok fpow_pos max_def)

definition bridge_ok :: "sim_bridge \<Rightarrow> bool" where
  "bridge_ok b \<longleftrightarrow> length (br_state b) = VECTOR_LENGTH \<and> thermal_ok (br_thermal b)"

definition served_current :: "sim_bridge \<Rightarrow> real" where
  "served_current b = (if state_at b STACK_CURRENT_A_CM2 < 1 / 10 ^ 10 then 0 else state_at b STACK_CURRENT_A_CM2)"

definition served_heat :: "sim_bridge \<Rightarrow> real" where
  "served_heat b = (let j = served_current b; T = state_at b STACK_CORE_TEMP_K in
     j * (act_val 1 T j + j * res_val (br_R_internal b) 14 T) + heater_power T)"

lemma set_state_nth [simp]:
  "length (br_state b) = VECTOR_LENGTH \<Longrightarrow> k < VECTOR_LENGTH \<Longrightarrow>
   state_at (set_state i v b) k = (if i = k then v else state_at b k)"
  by (simp add: set_state_def)

lemma set_state_simps [simp]:
  "length (br_state (set_state i v b)) = length (br_state b)"
  "br_thermal (set_state i v b) = br_thermal b" "br_step_counter (set_state i v b) = br_step_counter b"
  "br_num_cells (set_state i v b) = br_num_cells b" "br_R_internal (set_state i v b) = br_R_internal b"
  by (simp_all add: set_state_def)

lemma current_step:
  "(if state_at b STACK_CURRENT_A_CM2 < 1 / 10 ^ 10
          then seq (updates (set_state STACK_CURRENT_A_CM2 0)) (\<lambda>_. ret 0) else ret (state_at b STACK_CURRENT_A_CM2)) b
   = (Inr (served_current b), if state_at b STACK_CURRENT_A_CM2 < 1 / 10 ^ 10 then set_state STACK_CURRENT_A_CM2 0 b else b)"
  by (simp add: meth_defs served_current_def)

lemma advance_body_value:
  assumes "bridge_ok b" and "0 < state_at b STACK_CORE_TEMP_K"
  shows "\<exists>b' t' q. advance_body dt b = (Inr (), b')
    \<and> stack_thermal_step dt (served_heat b) (state_at b CHILLER_TEMP_K) (br_thermal b) = (Inr q, t')
    \<and> br_thermal b' = t' \<and> br_step_counter b' = br_step_counter b + 1
    \<and> length (br_state b') = VECTOR_LENGTH
    \<and> state_at b' STACK_CORE_TEMP_K = st_T_core t' \<and> state_at b' STACK_SKIN_TEMP_K = st_T_skin t'
    \<and> state_at b' STACK_CURRENT_A_CM2 = served_current b
    \<and> state_at b' CHILLER_TEMP_K = state_at b CHILLER_TEMP_K"
proof -
  have clip: "0.5 \<le> np_clip x 0.5 10" "np_clip x 0.5 10 \<le> 10" for x by (simp_all add: np_clip_def)
  have c: "cell_conditions (state_at b STACK_CORE_TEMP_K) (np_clip x 0.5 10) (np_clip y 0.5 10) 2.5" for x y
    using assms(2) clip by (simp add: cell_conditions_def)
  have l: "length (br_state b) = VECTOR_LENGTH" using assms(1) by (simp add: bridge_ok_def)
  define b1 where "b1 = (if state_at b STACK_CURRENT_A_CM2 < 1 / 10 ^ 10 then set_state STACK_CURRENT_A_CM2 0 b else b)"
  have b1: "length (br_state b1) = VECTOR_LENGTH" "br_thermal b1 = br_thermal b" "br_step_counter b1 = br_step_counter b"
    "br_R_internal b1 = br_R_internal b" "state_at b1 CHILLER_TEMP_K = state_at b CHILLER_TEMP_K"
    "state_at b1 STACK_CURRENT_A_CM2 = served_current b"
    using l by (simp_all add: b1_def served_current_def index_defs)
  obtain t' q where t: "stack_thermal_step dt (served_heat b) (state_at b CHILLER_TEMP_K) (br_thermal b) = (Inr q, t')"
    using stack_thermal_step_value [of "br_thermal b"] assms(1) unfolding bridge_ok_def by blast
  let ?w = "air_power (calculate_cathode_air_flow_rate (state_at b STACK_CURRENT_A_CM2 * 300) (br_num_cells b) 2) / 1000"
  let ?b2 = "b1\<lparr>br_thermal := t'\<rparr>"
  let ?b3 = "set_state COMPRESSOR_POWER_KW ?w (set_state STACK_TEMP_K (st_T_core t')
      (set_state STACK_SKIN_TEMP_K (st_T_skin t') (set_state STACK_CORE_TEMP_K (st_T_core t') ?b2)))"
  have "advance_body dt b = (Inr (), ?b3\<lparr>br_step_counter := br_step_counter ?b3 + 1\<rparr>)"
    using t b1(2,4)
    by (simp only: advance_body_def seq_def reads_def pure_res_def current_step updates_def b1_def [symmetric] prod.case sum.case
       air_power_value Let_def voltage_value [OF c] on_thermal_def served_heat_def simp_thms)
      (simp add: set_state_def)
  then show ?thesis
    using t b1 by (simp add: index_defs)
qed

definition idle_ok :: "sim_bridge \<Rightarrow> bool" where
  "idle_ok b \<longleftrightarrow> bridge_ok b \<and> state_at b STACK_CURRENT_A_CM2 = 0 \<and> state_at b CHILLER_TEMP_K = 298.15
     \<and> state_at b STACK_CORE_TEMP_K = st_T_core (br_thermal b)
     \<and> st_C_core (br_thermal b) = 12500 \<and> st_C_skin (br_thermal b) = 12500
     \<and> st_hA_internal (br_thermal b) = 500 \<and> st_hA_external (br_thermal b) = 50
     \<and> 298.15 \<le> st_T_core (br_thermal b) \<and> st_T_core (br_thermal b) \<le> 353.15
     \<and> 298.15 \<le> st_T_skin (br_thermal b) \<and> st_T_skin (br_thermal b) \<le> 353.15"

lemma heater_power_range: "T \<le> 353.15 \<Longrightarrow> 0 \<le> heater_power T \<and> heater_power T \<le> 1000 * (353.15 - T)"
  by (auto simp: heater_power_def)

lemma idle_core_bounds:
  fixes c s dt :: real
  assumes "0 \<le> dt" "dt \<le> 8" "298.15 \<le> c" "c \<le> 353.15" "298.15 \<le> s" "s \<le> 353.15"
  shows "298.15 \<le> c + dt * ((heater_power c - 500 * (c - s)) / 12500)"
    and "c + dt * ((heater_power c - 500 * (c - s)) / 12500) \<le> 353.15"
proof -
  let ?u = "dt * 500 / 12500" and ?v = "dt * 1000 / 12500"
  have uv: "0 \<le> ?u" "0 \<le> ?v" "?u + 0 \<le> 1" "?u + ?v \<le> 1" using assms by simp_all
  note h = heater_power_range [OF assms(4)]
  have "0 \<le> dt * (heater_power c / 12500)" using assms(1) h by simp
  moreover have "298.15 \<le> c + ?u * (s - c) + 0 * (c - c)"
    by (rule convex3_bounds(1) [OF uv(1) order.refl uv(3), of _ _ "353.15"]) (use assms in auto)
  ultimately show "298.15 \<le> c + dt * ((heater_power c - 500 * (c - s)) / 12500)"
    by (simp add: field_simps)
  have "dt * (heater_power c / 12500) \<le> dt * (1000 * (353.15 - c) / 12500)"
    using assms(1) h by (intro mult_left_mono divide_right_mono) auto
  moreover have "c + ?u * (s - c) + ?v * (353.15 - c) \<le> 353.15"
    by (rule convex3_bounds(2) [OF uv(1,2,4), of 0]) (use assms in auto)
  ultimately show "c + dt * ((heater_power c - 500 * (c - s)) / 12500) \<le> 353.15"
    by (simp add: field_simps)
qed

lemma idle_skin_bounds:
  fixes c s dt :: real
  assumes "0 \<le> dt" "dt \<le> 8" "298.15 \<le> c" "c \<le> 353.15" "298.15 \<le> s" "s \<le> 353.15"
  shows "298.15 \<le> s + dt * ((500 * (c - s) - 50 * (s - 298.15)) / 12500)"
    and "s + dt * ((500 * (c - s) - 50 * (s - 298.15)) / 12500) \<le> 353.15"
proof -
  let ?u = "dt * 500 / 12500" and ?v = "dt * 50 / 12500"
  have uv: "0 \<le> ?u" "0 \<le> ?v" "?u + ?v \<le> 1" using assms by simp_all
  have e: "s + dt * ((500 * (c - s) - 50 * (s - 298.15)) / 12500) = s + ?u * (c - s) + ?v * (298.15 - s)"
    by (simp add: field_simps)
  show "298.15 \<le> s + dt * ((500 * (c - s) - 50 * (s - 298.15)) / 12500)"
    "s + dt * ((500 * (c - s) - 50 * (s - 298.15)) / 12500) \<le> 353.15"
    unfolding e using convex3_bounds [OF uv, of "298.15" s "353.15" c "298.15"] assms by auto
qed

lemma idle_step:
  assumes "idle_ok b" and "0 \<le> dt" and "dt \<le> 8"
  shows "\<exists>b'. advance_time t dt b = (Inr \<lparr>sr_target_time = t + dt, sr_success = True, sr_state_vector = br_state b'\<rparr>, b')
    \<and> idle_ok b' \<and> br_step_counter b' = br_step_counter b + 1"
proof -
  let ?th = "br_thermal b"
  have ok: "bridge_ok b" and th: "thermal_ok ?th" and core: "state_at b STACK_CORE_TEMP_K = st_T_core ?th"
    and c: "298.15 \<le> st_T_core ?th" "st_T_core ?th \<le> 353.15" "298.15 \<le> st_T_skin ?th" "st_T_skin ?th \<le> 353.15"
    using assms(1) by (simp_all add: idle_ok_def bridge_ok_def)
  have pos: "0 < state_at b STACK_CORE_TEMP_K" unfolding core using c(1) by simp
  have cur: "served_current b = 0" using assms(1) by (simp add: idle_ok_def served_current_def)
  then have heat: "served_heat b = heater_power (st_T_core ?th)"
    by (simp add: served_heat_def core Let_def)
  obtain b' t' q where b': "advance_body dt b = (Inr (), b')"
    "stack_thermal_step dt (served_heat b) (state_at b CHILLER_TEMP_K) ?th = (Inr q, t')"
    "br_thermal b' = t'" "br_step_counter b' = br_step_counter b + 1" "length (br_state b') = VECTOR_LENGTH"
    "state_at b' STACK_CORE_TEMP_K = st_T_core t'"
    "state_at b' STACK_CURRENT_A_CM2 = served_current b" "state_at b' CHILLER_TEMP_K = state_at b CHILLER_TEMP_K"
    using advance_body_value [OF ok pos, of dt] by blast
  have chill: "state_at b CHILLER_TEMP_K = 298.15" using assms(1) by (simp add: idle_ok_def)
  note sv = stack_thermal_step_value [OF th, of dt "served_heat b" "298.15"]
  have k: "st_C_core ?th = 12500" "st_C_skin ?th = 12500" "st_hA_internal ?th = 500" "st_hA_external ?th = 50"
    using assms(1) by (simp_all add: idle_ok_def)
  have step: "st_T_core t' = st_T_core ?th + dt * ((heater_power (st_T_core ?th)
        - 500 * (st_T_core ?th - st_T_skin ?th)) / 12500)"
    "st_T_skin t' = st_T_skin ?th + dt * ((500 * (st_T_core ?th - st_T_skin ?th) - 50 * (st_T_skin ?th - 298.15)) / 12500)"
    "thermal_ok t'" "st_C_core t' = 12500" "st_C_skin t' = 12500" "st_hA_internal t' = 500" "st_hA_external t' = 50"
    using sv b'(2) unfolding chill heat k by auto
  have "idle_ok b'"
    unfolding idle_ok_def bridge_ok_def b'(3,5-8) step chill cur
    using idle_core_bounds [OF assms(2,3) c] idle_skin_bounds [OF assms(2,3) c] step(3) by auto
  moreover have "advance_time t dt b
      = (Inr \<lparr>sr_target_time = t + dt, sr_success = True, sr_state_vector = br_state b'\<rparr>, b')"
    by (simp add: advance_time_def except_all_def try_except_def seq_def reads_def b'(1))
  ultimately show ?thesis using b'(4) by blast
qed

text \<open>A run of AdvanceTime requests, with its answers.\<close>

fun advance_run :: "(real \<times> real) list \<Rightarrow> (sim_bridge, step_ready list) meth" where
  "advance_run [] = ret []"
| "advance_run ((t, dt) # ticks) =
     seq (advance_time t dt) (\<lambda>r. seq (advance_run ticks) (\<lambda>rs. ret (r # rs)))"

lemma idle_run:
  assumes "idle_ok b" and "\<forall>(t, dt) \<in> set ticks. 0 \<le> dt \<and> dt \<le> 8"
  shows "\<exists>rs b'. advance_run ticks b = (Inr rs, b') \<and> idle_ok b'
    \<and> list_all2 (\<lambda>(t, dt) r. sr_success r \<and> sr_target_time r = t + dt
        \<and> 298.15 \<le> sr_state_vector r ! STACK_CORE_TEMP_K \<and> sr_state_vector r ! STACK_CORE_TEMP_K \<le> 353.15) ticks rs
    \<and> br_step_counter b' = br_step_counter b + int (length ticks)"
  using assms
proof (induction ticks arbitrary: b)
  case Nil
  then show ?case by (simp add: ret_def)
next
  case (Cons tick ticks)
  obtain t dt where tick: "tick = (t, dt)" by (cases tick)
  with Cons.prems(2) have dt: "0 \<le> dt" "dt \<le> 8" by auto
  obtain b1 where b1: "advance_time t dt b = (Inr \<lparr>sr_target_time = t + dt, sr_success = True, sr_state_vector = br_state b1\<rparr>, b1)"
    "idle_ok b1" "br_step_counter b1 = br_step_counter b + 1"
    using idle_step [OF Cons.prems(1) dt] by blast
  obtain rs b' where "advance_run ticks b1 = (Inr rs, b')" "idle_ok b'"
    "list_all2 (\<lambda>(t, dt) r. sr_success r \<and> sr_target_time r = t + dt
        \<and> 298.15 \<le> sr_state_vector r ! STACK_CORE_TEMP_K \<and> sr_state_vector r ! STACK_CORE_TEMP_K \<le> 353.15) ticks rs"
    "br_step_counter b' = br_step_counter b1 + int (length ticks)"
    using Cons.IH [OF b1(2)] Cons.prems(2) by auto
  then show ?case
    using b1 by (simp add: tick seq_step ret_def idle_ok_def)
qed

lemma new_bridge_idle:
  assumes "new_sim_bridge CP rng lut n R T_initial run_id stack_id = Inr b"
    and "298.15 \<le> T_initial" "T_initial \<le> 353.15"
  shows "idle_ok b \<and> br_step_counter b = 0 \<and> br_state b ! H2_TANK_PRESSURE_BAR = 3"
proof -
  obtain u lut' where i: "initialize CP lut = (u, lut')" by fastforce
  show ?thesis using assms i
  by (auto simp: new_sim_bridge_def idle_ok_def bridge_ok_def thermal_ok_def Let_def index_defs
      stack_thermal_post_init_def StackThermalModel_def split: sum.splits)
qed

lemma small_bridge: "\<exists>b. new_sim_bridge None (\<lambda>_. Inr ()) (new_lut_manager small_config (Some (Inr small_stack)) Map.empty None)
   200 0.06 353.15 run_id ''S5'' = Inr b"
proof -
  have "\<exists>m. initialize None (new_lut_manager small_config (Some (Inr small_stack)) Map.empty None) = (Inr (), m)"
    by (simp add: initialize_def try_stacked_def load_stacked_cache_def meth_defs small_config_def new_lut_manager_def
     small_stack_def init_grids_def Let_def generate_saturation_lut_def LUTConfig_def stacked_entry_def aget_def py_index_def)
  then obtain m where m: "initialize None (new_lut_manager small_config (Some (Inr small_stack)) Map.empty None) = (Inr (), m)" ..
  obtain t where "new_tank_array None m 5 0.5 1 353.15 = Inr t"
    using update_pressure_total [of "\<lparr>ta_lut = m, ta_capacity_kg = 5, ta_volume_m3 = 0.5,
        ta_temperature_k = 353.15, ta_mass_kg = 5 * 1, ta_pressure_bar = 0\<rparr>" None]
    by (fastforce simp: new_tank_array_def)
  with m show ?thesis by (simp add: new_sim_bridge_def Let_def)
qed

section \<open>Properties of the servicer\<close>



lemma station2_response_range:
  assumes "simulate_stage2_catalyst_deposition_safe v mu k = Inr r"
  shows "0.1 \<le> s2_ecsa_ratio r \<and> s2_ecsa_ratio r \<le> 1"
proof -
  have "r = simulate_stage2_catalyst_deposition v mu k"
    using assms by (simp add: simulate_stage2_catalyst_deposition_safe_def split: if_splits)
  then show ?thesis unfolding simulate_stage2_catalyst_deposition_def Let_def
    using max_min_range [of "0.1" 1] by simp
qed



lemma from_bytes_range: "0 \<le> from_bytes_little cs \<and> from_bytes_little cs < 256 ^ length cs"
proof (induction cs)
  case (Cons c cs)
  have "(of_char c :: int) = int (of_char c)" by (simp only: of_nat_of_char)
  then have "of_char c < (256 :: int)" "0 \<le> (of_char c :: int)" using nat_of_char_less_256 [of c] by linarith+
  then show ?case using Cons by simp
qed simp

text \<open>
  The random seed separates the runs of a stack and is never negative for a run number that is
  not, which the generator requires.
\<close>

theorem derive_seed_distinguishes_runs:
  "(derive_seed stack_id r1 = derive_seed stack_id r2 \<longleftrightarrow> r1 = r2)
   \<and> (0 \<le> derive_seed stack_id r1 \<longleftrightarrow> 0 \<le> r1)"
  using from_bytes_range [of "take 8 stack_id"]
  by (auto simp: derive_seed_def) (metis xor.left_commute xor_self_eq xor.right_neutral)

end
