(* ===== verification/Bench.thy ===== *)
theory Bench
  imports Server
begin

text \<open>
  The end-of-line test bench, RunBatchTest, as one handler: its computation never produces a nan, its
  answer is either the failure message or the plan's, and on a bench in its operating range it is
  always the latter.
\<close>

section \<open>The computation\<close>

lemma antoine_total: "\<exists>p. antoine_psat_water T = Inr p"
proof -
  have d: "233.426 + (if T - 273.15 < 0.01 then 0.01 else T - 273.15) \<noteq> 0" by simp
  show ?thesis
    unfolding antoine_psat_water_def Let_def fdiv_ok [OF d] fpow_pos [OF zero_less_numeral] res_bind.simps by blast
qed

lemma real_gas_activity_total: "P_ref \<noteq> 0 \<Longrightarrow> \<exists>a phi. real_gas_activity CP P T fluid rh P_ref = Inr (a, phi)"
  using antoine_total [of T]
  by (auto simp: real_gas_activity_def water_vapor_partial_pressure_def Let_def)

lemma np_clip_range: "(lo :: real) \<le> hi \<Longrightarrow> lo \<le> np_clip x lo hi \<and> np_clip x lo hi \<le> hi"
  by (simp add: np_clip_def)

lemma batch_activities_range:
  "\<exists>a_h2 a_o2. batch_activities CP req = Inr (a_h2, a_o2)
    \<and> 0.5 \<le> a_h2 \<and> a_h2 \<le> 10 \<and> 0.5 \<le> a_o2 \<and> a_o2 \<le> 10"
proof -
  obtain a p b q where r: "real_gas_activity CP (bq_inlet_pressure_h2_bar req * 10 ^ 5)
      (if bq_operating_temp_k req = 0 then 353.15 else bq_operating_temp_k req) ''H2'' (bq_rh_anode req) (10 ^ 5) = Inr (a, p)"
    "real_gas_activity CP (bq_inlet_pressure_o2_bar req * 10 ^ 5)
      (if bq_operating_temp_k req = 0 then 353.15 else bq_operating_temp_k req) ''O2'' 0 (10 ^ 5) = Inr (b, q)"
    using real_gas_activity_total [of "10 ^ 5"] by fastforce
  have c: "0.5 \<le> np_clip x 0.5 10 \<and> np_clip x 0.5 10 \<le> 10" for x by (rule np_clip_range) simp
  show ?thesis
    unfolding batch_activities_def Let_def r res_bind.simps prod.case
    using c by blast
qed

lemma j_lim_effective_pos: "0 < j_lim_effective req"
  unfolding j_lim_effective_def by (rule less_le_trans [of _ "0.2"]) simp_all

definition plan_ok :: "batch_plan \<Rightarrow> bool" where
  "plan_ok plan \<longleftrightarrow> 0.5 \<le> bp_a_h2 plan \<and> bp_a_h2 plan \<le> 10 \<and> 0.5 \<le> bp_a_o2 plan \<and> bp_a_o2 plan \<le> 10"

lemma batch_compute_outcome:
  "finite_res (batch_compute CP req b) \<and> (\<forall>plan. batch_compute CP req b = Inr plan \<longrightarrow> plan_ok plan
     \<and> bp_currents plan = batch_currents req \<and> length (bp_voltages plan) = length (batch_currents req)
     \<and> length (bp_T_core plan) = length (batch_currents req) \<and> length (bp_T_skin plan) = length (batch_currents req)
     \<and> (\<forall>j \<in> set (batch_currents req). j < j_lim_effective req))"
proof -
  obtain a_h2 a_o2 where a: "batch_activities CP req = Inr (a_h2, a_o2)"
    "0.5 \<le> a_h2" "a_h2 \<le> 10" "0.5 \<le> a_o2" "a_o2 \<le> 10"
    using batch_activities_range by blast
  have f: "finite_res (batch_polarization_sweep_thermal js T a_h2 a_o2 R N ecsa l dt C_core C_skin hA_int hA_ext Tc (j_lim_effective req))"
    for js T R N ecsa l dt C_core C_skin hA_int hA_ext Tc
    by (rule thermal_sweep_finite [OF a(2-5) j_lim_effective_pos])
  have "finite_res (batch_compute CP req b)"
    unfolding batch_compute_def Let_def a(1) res_bind.simps prod.case
    by (intro finite_res_bind f) (simp split: prod.splits)
  moreover have "plan_ok plan \<and> bp_currents plan = batch_currents req \<and> length (bp_voltages plan) = length (batch_currents req)
     \<and> length (bp_T_core plan) = length (batch_currents req) \<and> length (bp_T_skin plan) = length (batch_currents req)
     \<and> (\<forall>j \<in> set (batch_currents req). j < j_lim_effective req)" if "batch_compute CP req b = Inr plan" for plan
    using that a thermal_sweep_run by (fastforce simp: batch_compute_def Let_def plan_ok_def sweep_inv_def)
  ultimately show ?thesis by blast
qed

section \<open>The later steps\<close>

lemma batch_publish_frame:
  assumes "\<And>b t. obs (b\<lparr>br_thermal := t\<rparr>) = obs b"
  shows "preserves obs (batch_publish plan)"
proof -
  have p: "preserves obs (\<lambda>b. (f b, b))" for f :: "sim_bridge \<Rightarrow> 'b res" by (simp add: preserves_def)
  show ?thesis unfolding batch_publish_def case_prod_unfold Let_def
    by (intro frame p) (simp_all add: assms)
qed

lemma yonkist_finite [finiteness]: "finite_res (validate_yonkist m q d)"
  unfolding validate_yonkist_def by (intro finiteness)

lemma batch_publish_finite: "plan_ok plan \<Longrightarrow> finite_meth (batch_publish plan)"
  unfolding batch_publish_def case_prod_unfold Let_def np_max_def plan_ok_def
  by (intro finiteness) (auto simp: finite_meth_def intro!: finiteness split: list.splits)

lemma batch_publish_temps:
  assumes "batch_publish plan b = (Inr u, b')"
  shows "bp_T_core plan \<noteq> [] \<and> bp_T_skin plan \<noteq> []
    \<and> br_thermal b' = (br_thermal b)\<lparr>st_T_core := last (bp_T_core plan), st_T_skin := last (bp_T_skin plan)\<rparr>"
proof -
  have ne: "xs \<noteq> [] \<and> v = last xs" if "aget xs (- 1) = Inr v" for xs :: "real list" and v
    using that aget_last [of xs] by (cases "xs = []") (auto simp: aget_def py_index_def)
  show ?thesis
    using assms unfolding batch_publish_def case_prod_unfold Let_def
    by (auto simp: meth_defs dest!: ne split: sum.splits)
qed

lemma batch_point_value:
  "\<exists>b'. batch_point N p b = (Inr (), b') \<and> br_thermal b' = br_thermal b
     \<and> length (br_state b') = length (br_state b) \<and> br_step_counter b' = br_step_counter b"
  unfolding batch_point_def Let_def air_power_value by (cases p) (simp add: meth_defs)

lemma batch_points_value:
  "\<exists>b'. for_each ps (batch_point N) b = (Inr (), b') \<and> br_thermal b' = br_thermal b
     \<and> length (br_state b') = length (br_state b) \<and> br_step_counter b' = br_step_counter b"
proof (induction ps arbitrary: b)
  case Nil
  then show ?case by (simp add: ret_def)
next
  case (Cons p ps)
  obtain b1 where "batch_point N p b = (Inr (), b1)" "br_thermal b1 = br_thermal b"
     "length (br_state b1) = length (br_state b)" "br_step_counter b1 = br_step_counter b"
    using batch_point_value by blast
  with Cons.IH [of b1] show ?case by (simp add: seq_step)
qed

lemma batch_answer_passed: "bs_passed (batch_answer plan) \<longleftrightarrow> bs_failure_flags (batch_answer plan) = 0"
  by (simp add: batch_answer_def Let_def)

section \<open>The sweep in its operating range\<close>

lemma j0_val_upper:
  assumes "0 < T" and "ecsa \<le> 1"
  shows "j0_val ecsa T \<le> 2.5 / 10 ^ 8 * exp 24"
proof -
  have "- (68500 / (fc_R * T)) * (1 - T / 353.15) = - (68500 / (fc_R * T)) + 68500 / (fc_R * 353.15)"
    using assms(1) by (simp add: field_simps)
  moreover have "0 \<le> 68500 / (fc_R * T)" using assms(1) by (simp add: fc_R_def)
  moreover have "68500 / (fc_R * 353.15) \<le> 24" by (simp add: fc_R_def)
  ultimately have "exp (- (68500 / (fc_R * T)) * (1 - T / 353.15)) \<le> exp 24"
    by (subst exp_le_cancel_iff) linarith
  moreover have "max (1 / 10 ^ 4) ecsa \<le> 1" using assms(2) by simp
  ultimately have "2.5 / 10 ^ 8 * max (1 / 10 ^ 4) ecsa * exp (- (68500 / (fc_R * T)) * (1 - T / 353.15))
      \<le> 2.5 / 10 ^ 8 * 1 * exp 24"
    by (intro mult_mono mult_left_mono mult_nonneg_nonneg) (auto simp: max_def)
  then show ?thesis by (simp add: j0_val_def)
qed

lemma act_val_lower:
  assumes "0 < T" and "ecsa \<le> 1"
  shows "- (0.0125 * T) \<le> act_val ecsa T j"
proof -
  define q where "q = max j (1 / 10 ^ 10) / j0_val ecsa T"
  have j: "1 / 10 ^ 10 \<le> max j (1 / 10 ^ 10)" by simp
  have "(1 / 10 ^ 10) / (2.5 / 10 ^ 8 * exp 24) \<le> q"
    unfolding q_def by (rule frac_le [OF _ j j0_val_pos j0_val_upper [OF assms]]) simp
  moreover have "(1 / 10 ^ 10) / (2.5 / 10 ^ 8 * exp 24) = 1 / 250 * exp (- 24 :: real)"
    by (simp add: exp_minus field_simps)
  ultimately have q: "1 / 250 * exp (- 24 :: real) \<le> q" by simp
  have "ln (1 / 250 * exp (- 24 :: real)) \<le> ln q" using q by (intro ln_mono) simp_all
  moreover have "ln (1 / 250 * exp (- 24 :: real)) = - ln 250 - 24" by (simp add: ln_mult ln_div)
  moreover have "ln 250 \<le> (250 - 1 :: real)" by (rule ln_le_minus_one) simp
  ultimately have l: "- 273 \<le> ln q" by linarith
  have k: "(fc_R * T) / (0.5 * 4 * fc_F) * 273 \<le> 0.0125 * T"
    using assms(1) by (simp add: fc_R_def fc_F_def field_simps)
  have "(fc_R * T) / (0.5 * 4 * fc_F) * (- 273) \<le> (fc_R * T) / (0.5 * 4 * fc_F) * ln q"
    using l assms(1) by (intro mult_left_mono) (simp_all add: less_imp_le)
  then show ?thesis using k unfolding act_val_def q_def by linarith
qed

text \<open>The heat of a point, and the temperatures after its step, keep both temperatures positive.\<close>

definition sweep_heat :: "real \<Rightarrow> int \<Rightarrow> real \<Rightarrow> real \<Rightarrow> real \<Rightarrow> real" where
  "sweep_heat R N ecsa T j = (j * of_int N) * (act_val ecsa T j + j * res_val R 14 T)"

lemma sweep_heat_lower:
  assumes "0 < T" "ecsa \<le> 1" "0 \<le> j" "j \<le> 2.5" "0 \<le> N" "N \<le> 100000" "0 \<le> R"
  shows "- (3125 * T) \<le> sweep_heat R N ecsa T j"
proof -
  have "0 \<le> res_val R 14 T" using assms(7) springer_pos [of 14 T] by (simp add: res_val_def)
  then have "- (0.0125 * T) \<le> act_val ecsa T j + j * res_val R 14 T"
    using act_val_lower [OF assms(1,2), of j] mult_nonneg_nonneg [OF assms(3)] by (smt (verit))
  moreover have jN: "0 \<le> j * of_int N" "j * of_int N \<le> 2.5 * 100000"
    using assms mult_mono [of j "2.5" "of_int N" 100000] by simp_all
  ultimately have "(j * of_int N) * (- (0.0125 * T)) \<le> sweep_heat R N ecsa T j"
    unfolding sweep_heat_def by (intro mult_left_mono)
  moreover have "(j * of_int N) * (0.0125 * T) \<le> (2.5 * 100000) * (0.0125 * T)"
    using jN(2) assms(1) by (intro mult_right_mono) auto
  ultimately show ?thesis by simp
qed

lemma thermal_half_second:
  "thermal_step_jit c s 0.5 Q Tc 12500 12500 500 50 =
     Inr (0.98 * c + 0.02 * s + Q / 25000, 0.978 * s + 0.02 * c + 0.002 * Tc)"
  by (simp add: thermal_step_jit_def fdiv_def Let_def) (simp add: field_simps)

lemma sweep_turn_positive:
  assumes "0.5 \<le> a_h2" "a_h2 \<le> 10" "0.5 \<le> a_o2" "a_o2 \<le> 10" and "0 < j_lim" "j_lim \<le> 2.5"
    and "ecsa \<le> 1" "0 \<le> N" "N \<le> 100000" "0 \<le> R" "0 < Tc"
    and js: "\<forall>j \<in> set js. 0 \<le> j \<and> j < j_lim" and k: "k < length js"
    and pos: "0 < ts_core st" "0 < ts_skin st"
  shows "\<exists>st'. thermal_sweep_body js a_h2 a_o2 R N ecsa 14 0.5 12500 12500 500 50 Tc j_lim k st = Inr st'
    \<and> 0 < ts_core st' \<and> 0 < ts_skin st' \<and> ts_core_arr st' = (ts_core_arr st)[k := ts_core st]"
proof -
  let ?c = "ts_core st" and ?s = "ts_skin st"
  have j: "0 \<le> js ! k" "js ! k \<le> 2.5" using js k assms(6) by (auto dest!: nth_mem)
  have c0: "?c \<noteq> 0" using pos by simp
  note v = voltage_value_any_temperature [OF c0 assms(1-5)]
  have h: "- (3125 * ?c) \<le> sweep_heat R N ecsa ?c (js ! k)"
    by (rule sweep_heat_lower) (use pos j assms in auto)
  then have "0 < 0.98 * ?c + 0.02 * ?s + sweep_heat R N ecsa ?c (js ! k) / 25000" using pos by simp
  moreover have "0 < 0.978 * ?s + 0.02 * ?c + 0.002 * Tc" using pos assms(11) by simp
  ultimately show ?thesis
    unfolding thermal_sweep_body_def aget_nat [OF k] v thermal_half_second
    by (simp add: v sweep_heat_def Let_def)
qed

lemma thermal_sweep_total:
  assumes "0.5 \<le> a_h2" "a_h2 \<le> 10" "0.5 \<le> a_o2" "a_o2 \<le> 10" and "0 < j_lim" "j_lim \<le> 2.5"
    and "ecsa \<le> 1" "0 \<le> N" "N \<le> 100000" "0 \<le> R" "0 < Tc"
    and js: "\<forall>j \<in> set js. 0 \<le> j \<and> j < j_lim" and T: "0 < T_init"
  shows "\<exists>vs f Tcs Tss. batch_polarization_sweep_thermal js T_init a_h2 a_o2 R N ecsa 14 0.5 12500 12500 500 50 Tc j_lim
      = Inr (vs, f, Tcs, Tss) \<and> (\<forall>T \<in> set Tcs. 0 < T)"
proof -
  let ?I = "\<lambda>k st. 0 < ts_core st \<and> 0 < ts_skin st \<and> length (ts_core_arr st) = length js \<and> (\<forall>i < k. 0 < ts_core_arr st ! i)"
  let ?start = "\<lparr>ts_voltages = replicate (length js) 0, ts_failure = 0, ts_core_arr = replicate (length js) 0,
              ts_skin_arr = replicate (length js) 0, ts_core = T_init, ts_skin = T_init\<rparr>"
  have "\<exists>st'. fold_range (length js) (thermal_sweep_body js a_h2 a_o2 R N ecsa 14 0.5 12500 12500 500 50 Tc j_lim)
      ?start = Inr st' \<and> ?I (0 + length js) st'"
  proof (rule fold_from_total_inv [where I = ?I])
    fix k and st :: thermal_sweep
    assume k: "k < 0 + length js" and I: "?I k st"
    obtain st' where "thermal_sweep_body js a_h2 a_o2 R N ecsa 14 0.5 12500 12500 500 50 Tc j_lim k st = Inr st'"
      "0 < ts_core st'" "0 < ts_skin st'" "ts_core_arr st' = (ts_core_arr st)[k := ts_core st]"
      using sweep_turn_positive [OF assms(1-11) js, of k st] k I by auto
    then show "\<exists>s'. thermal_sweep_body js a_h2 a_o2 R N ecsa 14 0.5 12500 12500 500 50 Tc j_lim k st = Inr s' \<and> ?I (Suc k) s'"
      using I k by (auto simp: less_Suc_eq)
  qed (use T in simp)
  then obtain st where st: "fold_range (length js) (thermal_sweep_body js a_h2 a_o2 R N ecsa 14 0.5 12500 12500 500 50 Tc j_lim)
      ?start = Inr st" "length (ts_core_arr st) = length js" "\<forall>i < length js. 0 < ts_core_arr st ! i" by auto
  have "\<not> list_ex (\<lambda>j. j \<ge> j_lim) js" using js by (auto simp: list_ex_iff)
  then show ?thesis
    using st by (auto simp: batch_polarization_sweep_thermal_def Let_def in_set_conv_nth simp del: set_replicate)
qed

lemma j_lim_effective_range: "0.2 \<le> j_lim_effective req" "j_lim_effective req \<le> 2.5"
proof -
  have "0 \<le> np_clip (bq_j_lim_derate_fraction req) 0 0.9" by (simp add: np_clip_def)
  then have "2.5 * (1 - np_clip (bq_j_lim_derate_fraction req) 0 0.9) \<le> 2.5" by simp
  then show "j_lim_effective req \<le> 2.5" unfolding j_lim_effective_def by (rule max.boundedI [rotated]) simp
qed (simp add: j_lim_effective_def)

lemma batch_currents_range:
  assumes "\<forall>j \<in> set (bq_current_densities req). 0 \<le> j \<and> j < j_lim_effective req"
  shows "\<forall>j \<in> set (batch_currents req). 0 \<le> j \<and> j < j_lim_effective req" and "batch_currents req \<noteq> []"
proof -
  define hi where "hi = min 2.4 (0.95 * j_lim_effective req)"
  have hi: "0.05 \<le> hi" "hi < j_lim_effective req"
    using j_lim_effective_range [of req] by (auto simp: hi_def)
  have pt: "0 \<le> linspace 0.05 hi 12 ! i \<and> linspace 0.05 hi 12 ! i < j_lim_effective req" if i: "i < 12" for i
  proof -
    have "0 \<le> real i / 11" "real i / 11 \<le> 1" using i by simp_all
    from convex_comb_bounds [OF this, of "0.05" "0.05" hi hi] hi(1)
    have "0.05 \<le> (1 - real i / 11) * 0.05 + real i / 11 * hi" "(1 - real i / 11) * 0.05 + real i / 11 * hi \<le> hi" by simp_all
    moreover define v where "v = (1 - real i / 11) * 0.05 + real i / 11 * hi"
    moreover have "linspace 0.05 hi 12 ! i = v"
      unfolding v_def using linspace_nth [of 12 i "0.05" hi] i by (simp add: field_simps)
    ultimately have "0.05 \<le> v" "v \<le> hi" "linspace 0.05 hi 12 ! i = v" by simp_all
    then show ?thesis using hi by simp
  qed
  have "\<forall>j \<in> set (linspace 0.05 hi 12). 0 \<le> j \<and> j < j_lim_effective req"
    using pt by (auto simp: in_set_conv_nth)
  then show "\<forall>j \<in> set (batch_currents req). 0 \<le> j \<and> j < j_lim_effective req"
    using assms by (simp add: batch_currents_def hi_def)
  have "linspace 0.05 hi 12 \<noteq> []" using linspace_length [of "0.05" hi 12] by (metis list.size(3) zero_neq_numeral)
  then show "batch_currents req \<noteq> []" by (simp add: batch_currents_def hi_def)
qed

definition bench_ready :: "sim_bridge \<Rightarrow> bool" where
  "bench_ready b \<longleftrightarrow> bridge_ok b \<and> 0 < st_T_core (br_thermal b) \<and> 0 < state_at b CHILLER_TEMP_K
     \<and> st_C_core (br_thermal b) = 12500 \<and> st_C_skin (br_thermal b) = 12500
     \<and> st_hA_internal (br_thermal b) = 500 \<and> st_hA_external (br_thermal b) = 50
     \<and> st_A_external (br_thermal b) * st_L_char (br_thermal b) \<noteq> 0
     \<and> 0 \<le> br_R_internal b \<and> 0 \<le> br_num_cells b \<and> br_num_cells b \<le> 100000"

lemma batch_resistance_nonneg: "0 \<le> R \<Longrightarrow> 0 \<le> batch_resistance req R"
  by (simp add: batch_resistance_def Let_def compute_contact_resistance_def)

lemma yonkist_defined: "st_k_stack m \<noteq> 0 \<Longrightarrow> validate_yonkist m q (max (1 / 10) d) \<noteq> Inl e"
proof -
  have "0 < max (1 / 10) d" by (rule less_le_trans [of _ "1 / 10"]) simp_all
  then show "st_k_stack m \<noteq> 0 \<Longrightarrow> validate_yonkist m q (max (1 / 10) d) \<noteq> Inl e"
    by (simp add: validate_yonkist_def fdiv_ok)
qed

lemma batch_publish_succeeds:
  assumes "plan_ok plan" and "bp_T_core plan \<noteq> []" "bp_T_skin plan \<noteq> []" "bp_currents plan \<noteq> []"
    and "last (bp_T_core plan) \<noteq> 0" and "st_A_external (br_thermal b) * st_L_char (br_thermal b) \<noteq> 0"
    and "st_k_stack (br_thermal b) \<noteq> 0"
  shows "\<exists>b'. batch_publish plan b = (Inr (), b')"
proof -
  have ok: "0.5 \<le> bp_a_h2 plan" "bp_a_h2 plan \<le> 10" "0.5 \<le> bp_a_o2 plan" "bp_a_o2 plan \<le> 10"
    using assms(1) by (simp_all add: plan_ok_def)
  have v: "\<exists>r. calculate_pemfc_voltage j (last (bp_T_core plan)) (bp_a_h2 plan) (bp_a_o2 plan) (bp_R plan)
      (bp_N plan) (bp_ecsa plan) 14 (5/2) = Inr r" for j
    using voltage_value_any_temperature [OF assms(5) ok, of "5/2"] by simp
  obtain x xs where js: "bp_currents plan = x # xs" using assms(4) by (cases "bp_currents plan") auto
  obtain V ea eo r where v: "calculate_pemfc_voltage (fold max xs x) (last (bp_T_core plan)) (bp_a_h2 plan) (bp_a_o2 plan) (bp_R plan)
      (bp_N plan) (bp_ecsa plan) 14 (5/2) = Inr (V, ea, eo, r)" using v by (metis surj_pair)
  show ?thesis
    unfolding batch_publish_def aget_last [OF assms(2)] aget_last [OF assms(3)] js np_max_def list.case
    using assms(6,7) yonkist_defined by (auto simp: meth_defs fdiv_ok v Let_def split: sum.splits)
qed

text \<open>On a bench in its operating range, the computation and the publication return.\<close>

lemma bench_plan:
  assumes "bench_ready b" and "0 \<le> bq_num_cells req" "bq_num_cells req \<le> 100000" and "bq_ecsa_ratio req \<le> 1"
    and "\<forall>j \<in> set (bq_current_densities req). 0 \<le> j \<and> j < j_lim_effective req"
  shows "\<exists>plan. batch_compute CP req b = Inr plan \<and> plan_ok plan
    \<and> length (bp_voltages plan) = length (batch_currents req) \<and> batch_currents req \<noteq> []
    \<and> bp_T_core plan \<noteq> [] \<and> bp_T_skin plan \<noteq> [] \<and> bp_currents plan \<noteq> [] \<and> last (bp_T_core plan) \<noteq> 0"
proof -
  let ?N = "if bq_num_cells req = 0 then br_num_cells b else bq_num_cells req"
  let ?e = "if bq_ecsa_ratio req \<le> 0 then 1 else bq_ecsa_ratio req"
  let ?R = "batch_resistance req (br_R_internal b)"
  obtain a_h2 a_o2 where a: "batch_activities CP req = Inr (a_h2, a_o2)"
    "0.5 \<le> a_h2" "a_h2 \<le> 10" "0.5 \<le> a_o2" "a_o2 \<le> 10"
    using batch_activities_range by blast
  have side: "0 < j_lim_effective req" "j_lim_effective req \<le> 2.5" "?e \<le> 1" "0 \<le> ?N" "?N \<le> 100000" "0 \<le> ?R"
    "0 < state_at b CHILLER_TEMP_K" "0 < st_T_core (br_thermal b)"
    using assms j_lim_effective_range batch_resistance_nonneg j_lim_effective_pos by (auto simp: bench_ready_def)
  note js = batch_currents_range [OF assms(5)]
  obtain vs f Tcs Tss where sweep: "batch_polarization_sweep_thermal (batch_currents req) (st_T_core (br_thermal b))
      a_h2 a_o2 ?R ?N ?e 14 0.5 12500 12500 500 50 (state_at b CHILLER_TEMP_K) (j_lim_effective req) = Inr (vs, f, Tcs, Tss)"
    and pos: "\<forall>T \<in> set Tcs. 0 < T"
    using thermal_sweep_total [OF a(2-5) side(1-7) js(1) side(8)] by blast
  have k: "st_C_core (br_thermal b) = 12500" "st_C_skin (br_thermal b) = 12500"
     "st_hA_internal (br_thermal b) = 500" "st_hA_external (br_thermal b) = 50"
    using assms(1) by (simp_all add: bench_ready_def)
  have "\<exists>plan. batch_compute CP req b = Inr plan \<and> bp_T_core plan = Tcs"
    using sweep by (simp add: batch_compute_def Let_def a(1) k)
  then obtain plan where plan: "batch_compute CP req b = Inr plan" "bp_T_core plan = Tcs" by blast
  have ok: "plan_ok plan" "bp_currents plan = batch_currents req"
    "length (bp_voltages plan) = length (batch_currents req)"
    "length (bp_T_core plan) = length (batch_currents req)" "length (bp_T_skin plan) = length (batch_currents req)"
    using batch_compute_outcome [of CP req b] plan(1) by auto
  have ne: "bp_T_core plan \<noteq> []" "bp_T_skin plan \<noteq> []" "bp_currents plan \<noteq> []" using ok js(2) by auto
  have lst: "last (bp_T_core plan) \<noteq> 0" using last_in_set [OF ne(1)] pos plan(2) by force
  show ?thesis using plan(1) ok(1,3) ne js(2) lst by blast
qed

definition bench_device :: "stack_thermal \<Rightarrow> bool" where
  "bench_device t \<longleftrightarrow> st_A_external t * st_L_char t \<noteq> 0 \<and> st_k_stack t \<noteq> 0"

lemma bench_ready_device: "bench_ready b \<Longrightarrow> bench_device (br_thermal b)"
  by (auto simp: bench_ready_def bench_device_def bridge_ok_def thermal_ok_def)

lemma bench_run:
  assumes "bench_ready b" and "0 \<le> bq_num_cells req" "bq_num_cells req \<le> 100000" and "bq_ecsa_ratio req \<le> 1"
    and "\<forall>j \<in> set (bq_current_densities req). 0 \<le> j \<and> j < j_lim_effective req"
  shows "\<exists>plan b'. run_batch_test CP req b = (Inr (batch_answer plan), b')
    \<and> length (bp_voltages plan) = length (batch_currents req) \<and> batch_currents req \<noteq> []
    \<and> state_at b' STACK_CURRENT_A_CM2 = 0"
proof -
  obtain plan where plan: "batch_compute CP req b = Inr plan" "plan_ok plan"
    "length (bp_voltages plan) = length (batch_currents req)" "batch_currents req \<noteq> []"
    and ne: "bp_T_core plan \<noteq> []" "bp_T_skin plan \<noteq> []" "bp_currents plan \<noteq> []" "last (bp_T_core plan) \<noteq> 0"
    using bench_plan [OF assms] by blast
  obtain b1 where b1: "batch_publish plan b = (Inr (), b1)"
    using batch_publish_succeeds [OF plan(2) ne] bench_ready_device [OF assms(1)] unfolding bench_device_def by blast
  obtain b2 where b2: "for_each (batch_points plan) (batch_point (bp_N plan)) b1 = (Inr (), b2)"
    "length (br_state b2) = length (br_state b1)"
    using batch_points_value by blast
  have "length (br_state b2) = VECTOR_LENGTH"
    using b2(2) preservesD [OF batch_publish_frame b1, of br_state] assms(1) by (simp add: bench_ready_def bridge_ok_def)
  then have "state_at (set_state STACK_CURRENT_A_CM2 0 b2) STACK_CURRENT_A_CM2 = 0"
    by (simp add: index_defs)
  moreover have "run_batch_test CP req b = (Inr (batch_answer plan), set_state STACK_CURRENT_A_CM2 0 b2)"
    using plan(1) b1 b2(1) by (simp add: run_batch_test_def except_all_def meth_defs)
  ultimately show ?thesis using plan(3,4) by blast
qed

text \<open>A servicer as constructed, and a request with nothing but its pressures set.\<close>

lemma new_bridge_bench:
  assumes "new_sim_bridge CP rng lut n R T_initial run_id stack_id = Inr b"
    and "298.15 \<le> T_initial" "T_initial \<le> 353.15" and "0 \<le> R" and "0 \<le> n" "n \<le> 100000"
  shows "bench_ready b"
proof -
  have "br_num_cells b = n \<and> br_R_internal b = R
      \<and> st_A_external (br_thermal b) = 2 \<and> st_L_char (br_thermal b) = 0.05"
    using assms(1) by (auto simp: new_sim_bridge_def Let_def stack_thermal_post_init_def StackThermalModel_def
        split: prod.splits sum.splits)
  moreover have "0 < st_T_core (br_thermal b)" using new_bridge_idle [OF assms(1-3)]
    by (auto simp: idle_ok_def intro: less_le_trans [of _ "298.15"])
  ultimately show ?thesis using new_bridge_idle [OF assms(1-3)] assms(4-6)
    by (simp add: bench_ready_def idle_ok_def)
qed

definition nominal_request :: batch_request where
  "nominal_request = \<lparr>bq_num_cells = 0, bq_operating_temp_k = 0, bq_inlet_pressure_h2_bar = 1.5,
     bq_inlet_pressure_o2_bar = 1, bq_current_densities = [], bq_r_internal_penalty_ohm_cm2 = 0,
     bq_activity_derate_fraction = 0, bq_rh_anode = 0, bq_ecsa_ratio = 0, bq_p_clamp_mpa = 0,
     bq_gdl_porosity = 0, bq_j_lim_derate_fraction = 0\<rparr>"

lemma batch_answer_not_failed: "bp_voltages plan \<noteq> [] \<Longrightarrow> batch_answer plan \<noteq> batch_failed"
  by (auto simp: batch_answer_def batch_failed_def Let_def)

lemma small_bench:
  "\<exists>b. new_sim_bridge None (\<lambda>_. Inr ()) (new_lut_manager small_config (Some (Inr small_stack)) Map.empty None)
     200 0.06 353.15 0 ''S5'' = Inr b \<and> bench_ready b \<and> idle_ok b"
proof -
  obtain b where b: "new_sim_bridge None (\<lambda>_. Inr ()) (new_lut_manager small_config (Some (Inr small_stack)) Map.empty None)
      200 0.06 353.15 0 ''S5'' = Inr b" using small_bridge by blast
  have "bench_ready b" by (rule new_bridge_bench [OF b]) simp_all
  moreover have "idle_ok b" using new_bridge_idle [OF b] by simp
  ultimately show ?thesis using b by blast
qed

section \<open>Properties\<close>



text \<open>
  Whatever the request and the bench, the handler answers: either with the failure message,
  leaving the state vector alone, or with the answer of its plan, one voltage per current density,
  all of them below the effective limit; then the published current is zero and the thermal model is
  at the last temperatures of the sweep. A test passes exactly when no flag is set.
\<close>

theorem batch_test_outcomes:
  assumes "length (br_state b) = VECTOR_LENGTH"
  shows "\<exists>resp b'. run_batch_test CP req b = (Inr resp, b')
    \<and> length (br_state b') = VECTOR_LENGTH \<and> br_step_counter b' = br_step_counter b
    \<and> (bs_passed resp \<longleftrightarrow> bs_failure_flags resp = 0)
    \<and> (resp = batch_failed \<and> br_state b' = br_state b
       \<or> (\<exists>plan. batch_compute CP req b = Inr plan \<and> resp = batch_answer plan
            \<and> length (bs_measured_voltages resp) = length (batch_currents req)
            \<and> (\<forall>j \<in> set (batch_currents req). j < j_lim_effective req)
            \<and> state_at b' STACK_CURRENT_A_CM2 = 0
            \<and> br_thermal b' = (br_thermal b)\<lparr>st_T_core := last (bp_T_core plan), st_T_skin := last (bp_T_skin plan)\<rparr>))"
proof (cases "batch_compute CP req b")
  case (Inl e)
  then have "e \<noteq> NonFinite" using batch_compute_outcome [of CP req b] by auto
  then have "run_batch_test CP req b = (Inr batch_failed, b)"
    using Inl by (simp add: run_batch_test_def except_all_def meth_defs)
  then show ?thesis using assms by (simp add: batch_failed_def flag_defs)
next
  case (Inr plan)
  then have ok: "plan_ok plan" and len: "length (bp_voltages plan) = length (batch_currents req)"
    and lim: "\<forall>j \<in> set (batch_currents req). j < j_lim_effective req"
    using batch_compute_outcome [of CP req b] by auto
  obtain r b1 where p: "batch_publish plan b = (r, b1)" by fastforce
  have fr: "br_state b1 = br_state b" "br_step_counter b1 = br_step_counter b"
    by (rule preservesD [OF batch_publish_frame p], simp)+
  show ?thesis
  proof (cases r)
    case (Inl e)
    have "e \<noteq> NonFinite" using finite_methD [OF batch_publish_finite [OF ok] p] Inl by simp
    then have "run_batch_test CP req b = (Inr batch_failed, b1)"
      using Inr p Inl by (simp add: run_batch_test_def except_all_def meth_defs)
    then show ?thesis using assms fr by (simp add: batch_failed_def flag_defs)
  next
    case (Inr u)
    obtain b2 where b2: "for_each (batch_points plan) (batch_point (bp_N plan)) b1 = (Inr (), b2)"
      "br_thermal b2 = br_thermal b1" "length (br_state b2) = length (br_state b1)" "br_step_counter b2 = br_step_counter b1"
      using batch_points_value by blast
    have "run_batch_test CP req b = (Inr (batch_answer plan), set_state STACK_CURRENT_A_CM2 0 b2)"
      using \<open>batch_compute CP req b = Inr plan\<close> p Inr b2(1)
      by (simp add: run_batch_test_def except_all_def meth_defs)
    moreover have "state_at (set_state STACK_CURRENT_A_CM2 0 b2) STACK_CURRENT_A_CM2 = 0"
      using b2(3) fr assms by (simp add: index_defs)
    moreover have "bs_measured_voltages (batch_answer plan) = bp_voltages plan"
      by (simp add: batch_answer_def Let_def)
    ultimately show ?thesis
      using \<open>batch_compute CP req b = Inr plan\<close> batch_publish_temps [of plan b u b1] p Inr b2 fr assms len lim
        batch_answer_passed by auto
  qed
qed

theorem batch_test_outcomes_witness:
  "\<exists>b b'. run_batch_test None (nominal_request\<lparr>bq_current_densities := [3]\<rparr>) b = (Inr batch_failed, b')
     \<and> br_state b' = br_state b"
proof -
  obtain b where b: "bench_ready b" using small_bench by blast
  then have l: "length (br_state b) = VECTOR_LENGTH" by (simp add: bench_ready_def bridge_ok_def)
  have "\<not> 3 < j_lim_effective (nominal_request\<lparr>bq_current_densities := [3]\<rparr>)"
    using j_lim_effective_range(2) [of "nominal_request\<lparr>bq_current_densities := [3]\<rparr>"] by linarith
  then show ?thesis
    using batch_test_outcomes [OF l, of None "nominal_request\<lparr>bq_current_densities := [3]\<rparr>"]
    by (auto simp: batch_currents_def)
qed

text \<open>
  The operating temperature of a request decides nothing on its own: with dry hydrogen and no
  property library, two requests that differ only in it get the same answer, and no shutdown flag is
  set for it. The sweep starts at the bench's own core temperature.
\<close>

theorem test_ignores_operating_temperature:
  assumes "bq_rh_anode req \<le> 0"
  shows "run_batch_test None (req\<lparr>bq_operating_temp_k := T\<rparr>) b = run_batch_test None req b"
proof -
  have "batch_activities None (req\<lparr>bq_operating_temp_k := T\<rparr>) = batch_activities None req"
    using assms by (simp add: batch_activities_def real_gas_activity_def water_vapor_partial_pressure_def Let_def)
  moreover have "batch_currents (req\<lparr>bq_operating_temp_k := T\<rparr>) = batch_currents req"
    "j_lim_effective (req\<lparr>bq_operating_temp_k := T\<rparr>) = j_lim_effective req"
    "batch_resistance (req\<lparr>bq_operating_temp_k := T\<rparr>) R = batch_resistance req R"
    "bq_num_cells (req\<lparr>bq_operating_temp_k := T\<rparr>) = bq_num_cells req"
    "bq_ecsa_ratio (req\<lparr>bq_operating_temp_k := T\<rparr>) = bq_ecsa_ratio req" for R
    by (simp_all add: batch_currents_def j_lim_effective_def batch_resistance_def)
  ultimately have "batch_compute None (req\<lparr>bq_operating_temp_k := T\<rparr>) b = batch_compute None req b" for b
    by (simp only: batch_compute_def)
  then show ?thesis by (simp add: run_batch_test_def)
qed

theorem test_ignores_operating_temperature_witness:
  "run_batch_test None (nominal_request\<lparr>bq_operating_temp_k := 500\<rparr>) = run_batch_test None nominal_request"
  by (rule ext, rule test_ignores_operating_temperature) (simp add: nominal_request_def)

end
