(* ===== verification/Serving.thy ===== *)
theory Serving
  imports Bench
begin

text \<open>
  The handlers in flight together: a step relation whose steps are the critical sections and the
  unlocked writes of concurrent RunBatchTest calls, with AdvanceTime calls in between.
\<close>

text \<open>What no step of a tick does: change the vector's length or raise the current.\<close>

definition quiet :: "(sim_bridge, 'a) meth \<Rightarrow> bool" where
  "quiet m \<longleftrightarrow> (\<forall>b. length (br_state b) = VECTOR_LENGTH \<longrightarrow>
     length (br_state (snd (m b))) = VECTOR_LENGTH
     \<and> (state_at (snd (m b)) STACK_CURRENT_A_CM2 = state_at b STACK_CURRENT_A_CM2
        \<or> state_at (snd (m b)) STACK_CURRENT_A_CM2 = 0))"

named_theorems quiet_intros \<open>methods that raise no current\<close>

lemma quiet_basic [quiet_intros]:
  "quiet (ret x)" "quiet (reads f)" "quiet (pure_res r)" "quiet (raise_err e)" "quiet (\<lambda>b. (g b, b))"
  by (simp_all add: quiet_def meth_defs)

lemma quiet_seq [quiet_intros]: "quiet m \<Longrightarrow> (\<And>x. quiet (f x)) \<Longrightarrow> quiet (seq m f)"
  unfolding quiet_def seq_def by (auto split: prod.splits sum.splits) (metis snd_conv)+

lemma quiet_try [quiet_intros]: "quiet m \<Longrightarrow> (\<And>e. quiet (h e)) \<Longrightarrow> quiet (try_except m h)"
  unfolding quiet_def try_except_def by (auto split: prod.splits sum.splits) (metis snd_conv)+

lemma quiet_if [quiet_intros]: "quiet m \<Longrightarrow> quiet m' \<Longrightarrow> quiet (if c then m else m')"
  by simp

lemma quiet_on_thermal [quiet_intros]: "quiet (on_thermal m)"
  by (simp add: quiet_def on_thermal_def split: prod.splits)

lemma quiet_updates [quiet_intros]:
  "(\<And>b. length (br_state b) = VECTOR_LENGTH \<Longrightarrow> length (br_state (f b)) = VECTOR_LENGTH
      \<and> (state_at (f b) STACK_CURRENT_A_CM2 = state_at b STACK_CURRENT_A_CM2 \<or> state_at (f b) STACK_CURRENT_A_CM2 = 0))
   \<Longrightarrow> quiet (updates f)"
  by (simp add: quiet_def updates_def)

lemma quiet_advance: "quiet (advance_time t dt)"
  unfolding advance_time_def advance_body_def except_all_def case_prod_unfold Let_def
  by (intro quiet_intros) (simp_all add: index_defs)

lemma quiet_publish: "quiet (batch_publish plan)"
  unfolding batch_publish_def case_prod_unfold Let_def
  by (intro quiet_intros) simp_all

text \<open>A tick leaves the dimensions of the thermal model alone.\<close>

lemma preserves_on_thermal [frame]:
  "(\<And>s. f (snd (m s)) = f s) \<Longrightarrow> preserves (\<lambda>b. f (br_thermal b)) (on_thermal m)"
  by (simp add: preserves_def on_thermal_def split: prod.splits) (metis snd_conv)

lemma thermal_step_device: "bench_device (snd (stack_thermal_step dt Q Tc t)) = bench_device t"
  by (auto simp: stack_thermal_step_def bench_device_def meth_defs Let_def split: sum.splits)

lemma tick_keeps_device:
  assumes "advance_time t dt b = (r, b')"
  shows "bench_device (br_thermal b') = bench_device (br_thermal b)"
proof -
  have g: "preserves (\<lambda>b. bench_device (br_thermal b)) (\<lambda>b. (g b, b))" for g :: "sim_bridge \<Rightarrow> 'b res"
    by (simp add: preserves_def)
  have "preserves (\<lambda>b. bench_device (br_thermal b)) (advance_time t dt)"
    unfolding advance_time_def advance_body_def except_all_def case_prod_unfold Let_def
    by (intro frame g) (simp_all add: thermal_step_device)
  from preservesD [OF this assms] show ?thesis .
qed

text \<open>
  Handlers in flight: a test that has computed its plan, or that still has points to pace. Its steps
  are its critical sections and its unlocked writes; ticks and other tests come in between.
\<close>

datatype test_phase = Computed batch_plan | Pacing batch_plan "sweep_point list"

record serving =
  sv_bridge :: sim_bridge
  sv_tests :: "nat \<rightharpoonup> test_phase"

inductive serve_step :: "props_si option \<Rightarrow> serving \<Rightarrow> serving \<Rightarrow> bool" for CP where
  Tick: "advance_time t dt (sv_bridge s) = (Inr r, b') \<Longrightarrow> serve_step CP s (s\<lparr>sv_bridge := b'\<rparr>)"
| Begin: "sv_tests s i = None \<Longrightarrow> batch_compute CP req (sv_bridge s) = Inr plan \<Longrightarrow>
    serve_step CP s (s\<lparr>sv_tests := (sv_tests s)(i \<mapsto> Computed plan)\<rparr>)"
| Publish: "sv_tests s i = Some (Computed plan) \<Longrightarrow> batch_publish plan (sv_bridge s) = (Inr (), b') \<Longrightarrow>
    serve_step CP s (s\<lparr>sv_bridge := b', sv_tests := (sv_tests s)(i \<mapsto> Pacing plan (batch_points plan))\<rparr>)"
| Abort: "sv_tests s i = Some (Computed plan) \<Longrightarrow> batch_publish plan (sv_bridge s) = (Inl e, b') \<Longrightarrow>
    serve_step CP s (s\<lparr>sv_bridge := b', sv_tests := (sv_tests s)(i := None)\<rparr>)"
| Point: "sv_tests s i = Some (Pacing plan (p # ps)) \<Longrightarrow> batch_point (bp_N plan) p (sv_bridge s) = (Inr (), b') \<Longrightarrow>
    serve_step CP s (s\<lparr>sv_bridge := b', sv_tests := (sv_tests s)(i \<mapsto> Pacing plan ps)\<rparr>)"
| Finish: "sv_tests s i = Some (Pacing plan []) \<Longrightarrow>
    serve_step CP s (s\<lparr>sv_bridge := set_state STACK_CURRENT_A_CM2 0 (sv_bridge s), sv_tests := (sv_tests s)(i := None)\<rparr>)"

definition serving_ok :: "serving \<Rightarrow> bool" where
  "serving_ok s \<longleftrightarrow> length (br_state (sv_bridge s)) = VECTOR_LENGTH
     \<and> (state_at (sv_bridge s) STACK_CURRENT_A_CM2 = 0 \<or> (\<exists>i plan ps. sv_tests s i = Some (Pacing plan ps)))"

lemma quietD:
  "quiet m \<Longrightarrow> m b = (r, b') \<Longrightarrow> length (br_state b) = VECTOR_LENGTH \<Longrightarrow>
   length (br_state b') = VECTOR_LENGTH \<and> (state_at b' STACK_CURRENT_A_CM2 = state_at b STACK_CURRENT_A_CM2
     \<or> state_at b' STACK_CURRENT_A_CM2 = 0)"
  unfolding quiet_def by (metis snd_conv)

lemma serve_step_ok: "serve_step CP s s' \<Longrightarrow> serving_ok s \<Longrightarrow> serving_ok s'"
proof (induction rule: serve_step.induct)
  case (Tick t dt s r b')
  then show ?case using quietD [OF quiet_advance Tick.hyps] by (auto simp: serving_ok_def)
next
  case (Begin s i req plan)
  have "k \<noteq> i" if "sv_tests s k = Some (Pacing q qs)" for k q qs using that Begin.hyps(1) by auto
  then show ?case using Begin.prems unfolding serving_ok_def by (simp, metis)
next
  case (Publish s i plan b')
  then show ?case using quietD [OF quiet_publish Publish.hyps(2)] by (fastforce simp: serving_ok_def)
next
  case (Abort s i plan e b')
  have "k \<noteq> i" if "sv_tests s k = Some (Pacing q qs)" for k q qs using that Abort.hyps(1) by auto
  then show ?case
    using Abort.prems quietD [OF quiet_publish Abort.hyps(2)] unfolding serving_ok_def by (simp, metis)
next
  case (Point s i plan p ps b')
  then show ?case using batch_point_value [of "bp_N plan" p "sv_bridge s"] by (fastforce simp: serving_ok_def)
next
  case (Finish s i plan)
  then show ?case by (simp add: serving_ok_def index_defs)
qed

lemma serve_run_ok: "(serve_step CP)\<^sup>*\<^sup>* s s' \<Longrightarrow> serving_ok s \<Longrightarrow> serving_ok s'"
  by (induction rule: rtranclp_induct) (auto intro: serve_step_ok)

lemma serve_points:
  assumes "for_each ps (batch_point (bp_N plan)) b = (Inr (), b')"
  shows "(serve_step CP)\<^sup>*\<^sup>* \<lparr>sv_bridge = b, sv_tests = [i \<mapsto> Pacing plan ps]\<rparr>
    \<lparr>sv_bridge = b', sv_tests = [i \<mapsto> Pacing plan []]\<rparr>"
  using assms
proof (induction ps arbitrary: b)
  case Nil
  then show ?case by (simp add: ret_def)
next
  case (Cons p ps)
  obtain b1 where b1: "batch_point (bp_N plan) p b = (Inr (), b1)" using batch_point_value by blast
  have "serve_step CP \<lparr>sv_bridge = b, sv_tests = [i \<mapsto> Pacing plan (p # ps)]\<rparr>
      \<lparr>sv_bridge = b1, sv_tests = [i \<mapsto> Pacing plan ps]\<rparr>"
    using Point [of "\<lparr>sv_bridge = b, sv_tests = [i \<mapsto> Pacing plan (p # ps)]\<rparr>" i plan p ps b1 CP] b1 by simp
  moreover have "for_each ps (batch_point (bp_N plan)) b1 = (Inr (), b')"
    using Cons.prems b1 by (simp add: seq_step)
  ultimately show ?case using Cons.IH by (meson converse_rtranclp_into_rtranclp)
qed

text \<open>
  C9: concurrent tests leave no current behind: whatever the interleaving of any number of tests and
  ticks, when the last test in flight has finished, the published current is zero, so that an idle
  stack is never heated by a stale current.
\<close>

theorem finished_tests_leave_no_current:
  assumes "(serve_step CP)\<^sup>*\<^sup>* \<lparr>sv_bridge = b, sv_tests = Map.empty\<rparr> s"
    and "length (br_state b) = VECTOR_LENGTH" and "state_at b STACK_CURRENT_A_CM2 = 0"
    and "sv_tests s = Map.empty"
  shows "state_at (sv_bridge s) STACK_CURRENT_A_CM2 = 0 \<and> length (br_state (sv_bridge s)) = VECTOR_LENGTH"
  using serve_run_ok [OF assms(1)] assms(2-4) by (simp add: serving_ok_def)

theorem finished_tests_leave_no_current_witness:
  "\<exists>b s. (serve_step None)\<^sup>*\<^sup>* \<lparr>sv_bridge = b, sv_tests = Map.empty\<rparr> s \<and> sv_bridge s \<noteq> b
    \<and> state_at (sv_bridge s) STACK_CURRENT_A_CM2 = 0 \<and> length (br_state (sv_bridge s)) = VECTOR_LENGTH"
proof -
  obtain b where b: "idle_ok b" using small_bench by blast
  then have b0: "length (br_state b) = VECTOR_LENGTH" "state_at b STACK_CURRENT_A_CM2 = 0"
    by (simp_all add: idle_ok_def bridge_ok_def)
  obtain r b' where t: "advance_time 0 1 b = (Inr r, b')" "br_step_counter b' = br_step_counter b + 1"
    using idle_step [OF b, of 1 0] by auto
  let ?s = "\<lparr>sv_bridge = b', sv_tests = Map.empty\<rparr>"
  have "serve_step None \<lparr>sv_bridge = b, sv_tests = Map.empty\<rparr> ?s"
    using Tick [of 0 1 "\<lparr>sv_bridge = b, sv_tests = Map.empty\<rparr>" r b' None] t(1) by simp
  then have run: "(serve_step None)\<^sup>*\<^sup>* \<lparr>sv_bridge = b, sv_tests = Map.empty\<rparr> ?s" by (rule r_into_rtranclp)
  have "b' \<noteq> b" using t(2) by auto
  then show ?thesis using finished_tests_leave_no_current [OF run b0] run by fastforce
qed





end
