(* ===== verification/Launcher.thy ===== *)
theory Launcher
  imports Server "HOL-Library.AList"
begin

text \<open>
  The daemon launcher \<open>daemon_launcher.py\<close>: how processor cores are dealt to the daemons, and the
  supervision loop that starts, watches, restarts and stops them, as a labelled step relation. The
  daemon's entry point and the part of \<open>serve\<close> that builds its servicer close the chain from a
  launched process to the seeded bridge of \<open>Server\<close>.
\<close>

section \<open>Core sets\<close>

definition py_slice :: "'a list \<Rightarrow> int \<Rightarrow> int \<Rightarrow> 'a list" where
  "py_slice xs a b = take (nat b - nat a) (drop (nat a) xs)"

definition total_cores :: "int option \<Rightarrow> int \<Rightarrow> int" where
  "total_cores cpu_count run_count =
     (case cpu_count of None \<Rightarrow> run_count | Some n \<Rightarrow> if n = 0 then run_count else n)"

definition compute_daemon_core_sets :: "int option \<Rightarrow> int \<Rightarrow> int \<Rightarrow> int list list res" where
  "compute_daemon_core_sets cpu_count run_count jvm_reserved_cores =
     (let available_cores = [jvm_reserved_cores..total_cores cpu_count run_count - 1];
          n = int (length available_cores)
      in if n < run_count
         then map_res (\<lambda>i. if n = 0 then Inl ZeroDivisionError
                else res_bind (aget available_cores (i mod n)) (\<lambda>c. Inr [c])) [0..run_count - 1]
         else Inr (map (\<lambda>i. py_slice available_cores (i * n div run_count) ((i + 1) * n div run_count))
                [0..run_count - 1]))"

definition daemon_threads :: "int option \<Rightarrow> int \<Rightarrow> int res" where
  "daemon_threads cpu_count run_count =
     (if run_count = 0 then Inl ZeroDivisionError
      else Inr (max 1 (total_cores cpu_count run_count div run_count)))"

section \<open>The daemons and their supervision\<close>

record daemon =
  dm_port :: int
  dm_run_id :: int
  dm_threads :: int
  dm_cores :: "int list"
  dm_alive :: bool

record launch_args =
  la_run_start_id :: int
  la_run_count :: int
  la_base_port :: int
  la_jvm_reserved_cores :: int

record launch_plan =
  lp_args :: launch_args
  lp_threads :: int
  lp_core_sets :: "int list list"

definition plan_launch :: "int option \<Rightarrow> launch_args \<Rightarrow> launch_plan res" where
  "plan_launch cpu_count args =
     res_bind (daemon_threads cpu_count (la_run_count args)) (\<lambda>num_threads.
     res_bind (compute_daemon_core_sets cpu_count (la_run_count args) (la_jvm_reserved_cores args)) (\<lambda>core_sets.
     Inr \<lparr>lp_args = args, lp_threads = num_threads, lp_core_sets = core_sets\<rparr>))"

definition daemon_of :: "launch_plan \<Rightarrow> int \<Rightarrow> daemon res" where
  "daemon_of P run_id =
     (let core_index = run_id - la_run_start_id (lp_args P);
          port = la_base_port (lp_args P) + core_index
      in res_bind (aget (lp_core_sets P) core_index) (\<lambda>core_set.
         Inr \<lparr>dm_port = port, dm_run_id = run_id, dm_threads = lp_threads P, dm_cores = core_set,
              dm_alive = True\<rparr>))"

text \<open>
  Where \<open>main\<close> stands: starting the daemons still in the list, at the head of the loop, checking the
  daemons still in the list, in its \<open>finally\<close> block, or over, with or without having stopped them.
\<close>

datatype launch_phase = Launching "int list" | Watching | Sweeping "int list" | Stopping | Halted | Crashed

record launcher =
  ln_processes :: "(int \<times> daemon) list"
  ln_phase :: launch_phase
  ln_shutdown_requested :: bool

definition run_ids :: "launch_args \<Rightarrow> int list" where
  "run_ids args = [la_run_start_id args..la_run_start_id args + la_run_count args - 1]"

definition launch_start :: "launch_plan \<Rightarrow> launcher" where
  "launch_start P = \<lparr>ln_processes = [], ln_phase = Launching (run_ids (lp_args P)), ln_shutdown_requested = False\<rparr>"

text \<open>
  A step is the launcher's own, an event of the environment (a daemon dies, a signal arrives), or a
  fault: a process that cannot be started. A fault during the launch is outside the \<open>try\<close> block.
\<close>

datatype launch_event = Own | Event | Fault

inductive launch_step :: "launch_plan \<Rightarrow> launch_event \<Rightarrow> launcher \<Rightarrow> launcher \<Rightarrow> bool" for P where
  starts: "ln_phase s = Launching (r # rs) \<Longrightarrow> daemon_of P r = Inr d \<Longrightarrow>
    launch_step P Own s (s\<lparr>ln_processes := AList.update r d (ln_processes s), ln_phase := Launching rs\<rparr>)"
| start_fails: "ln_phase s = Launching (r # rs) \<Longrightarrow> launch_step P Fault s (s\<lparr>ln_phase := Crashed\<rparr>)"
| launched: "ln_phase s = Launching [] \<Longrightarrow> launch_step P Own s (s\<lparr>ln_phase := Watching\<rparr>)"
| sweeps: "ln_phase s = Watching \<Longrightarrow> \<not> ln_shutdown_requested s \<Longrightarrow>
    launch_step P Own s (s\<lparr>ln_phase := Sweeping (map fst (ln_processes s))\<rparr>)"
| finds_alive: "ln_phase s = Sweeping (r # rs) \<Longrightarrow> map_of (ln_processes s) r = Some d \<Longrightarrow> dm_alive d \<Longrightarrow>
    launch_step P Own s (s\<lparr>ln_phase := Sweeping rs\<rparr>)"
| restarts: "ln_phase s = Sweeping (r # rs) \<Longrightarrow> map_of (ln_processes s) r = Some d \<Longrightarrow> \<not> dm_alive d \<Longrightarrow>
    daemon_of P r = Inr d' \<Longrightarrow>
    launch_step P Own s (s\<lparr>ln_processes := AList.update r d' (ln_processes s), ln_phase := Sweeping rs\<rparr>)"
| restart_fails: "ln_phase s = Sweeping (r # rs) \<Longrightarrow> map_of (ln_processes s) r = Some d \<Longrightarrow> \<not> dm_alive d \<Longrightarrow>
    launch_step P Fault s (s\<lparr>ln_phase := Stopping\<rparr>)"
| swept: "ln_phase s = Sweeping [] \<Longrightarrow> launch_step P Own s (s\<lparr>ln_phase := Watching\<rparr>)"
| leaves: "ln_phase s = Watching \<Longrightarrow> ln_shutdown_requested s \<Longrightarrow> launch_step P Own s (s\<lparr>ln_phase := Stopping\<rparr>)"
| halts: "ln_phase s = Stopping \<Longrightarrow>
    launch_step P Own s (s\<lparr>ln_processes := map (\<lambda>(r, d). (r, d\<lparr>dm_alive := False\<rparr>)) (ln_processes s),
      ln_phase := Halted\<rparr>)"
| exits: "map_of (ln_processes s) r = Some d \<Longrightarrow>
    launch_step P Event s (s\<lparr>ln_processes := AList.update r (d\<lparr>dm_alive := False\<rparr>) (ln_processes s)\<rparr>)"
| signalled: "launch_step P Event s (s\<lparr>ln_shutdown_requested := True\<rparr>)"

inductive_cases launch_stepE: "launch_step P e s s'"

definition launch_any :: "launch_plan \<Rightarrow> launcher \<Rightarrow> launcher \<Rightarrow> bool" where
  "launch_any P s s' \<longleftrightarrow> (\<exists>e. launch_step P e s s')"

text \<open>The daemon process: \<open>_daemon_entry\<close> fixes the thread count and calls \<open>serve\<close> with its defaults.\<close>

definition serve_workers :: "int option \<Rightarrow> int \<Rightarrow> int" where
  "serve_workers max_workers numba_threads =
     (case max_workers of None \<Rightarrow> max 2 (numba_threads + 1) | Some w \<Rightarrow> w)"

definition daemon_entry ::
    "props_si option \<Rightarrow> (int \<Rightarrow> unit res) \<Rightarrow> lut_manager \<Rightarrow> daemon \<Rightarrow> (int \<times> int \<times> sim_bridge) res" where
  "daemon_entry CP default_rng lut d =
     res_bind (derive_numba_threads (Some (Inr (dm_threads d))) None) (\<lambda>numba_threads.
     res_bind (new_sim_bridge CP default_rng lut 200 0.06 353.15 (dm_run_id d) ''S5'') (\<lambda>b.
     Inr (dm_port d, serve_workers None numba_threads, b)))"

section \<open>Dealing the cores\<close>

lemma slices_concat:
  fixes c :: "nat \<Rightarrow> nat" and xs :: "'a list"
  assumes "mono c"
  shows "concat (map (\<lambda>i. take (c (Suc i) - c i) (drop (c i) xs)) [0..<k]) = take (c k - c 0) (drop (c 0) xs)"
proof (induction k)
  case (Suc k)
  have "c 0 \<le> c k" "c k \<le> c (Suc k)" using assms by (simp_all add: mono_def)
  then have e: "c (Suc k) - c 0 = (c k - c 0) + (c (Suc k) - c k)" by simp
  have "take (c (Suc k) - c 0) ys = take (c k - c 0) ys @ take (c (Suc k) - c k) (drop (c k - c 0) ys)" for ys :: "'a list"
    by (metis e take_add)
  then show ?case using Suc \<open>c 0 \<le> c k\<close> by simp
qed simp

lemma upto_upt: "[0..int k - 1] = map int [0..<k]"
  by (induction k) (auto simp: upto_rec2)

lemma in_chunk:
  fixes i n k :: nat
  assumes "0 < k" "k \<le> n"
  shows "n div k \<le> Suc i * n div k - i * n div k" and "Suc i * n div k - i * n div k \<le> Suc (n div k)"
    and "i < k \<Longrightarrow> Suc i * n div k \<le> n"
proof -
  have "Suc i * n = (i * n mod k + n) + i * n div k * k" by simp
  then have d: "Suc i * n div k = (i * n mod k + n) div k + i * n div k"
    using assms(1) by (metis add.commute div_mult_self1 not_less0)
  have m: "i * n mod k < k" using assms(1) by simp
  show "n div k \<le> Suc i * n div k - i * n div k" using d by (simp add: div_le_mono)
  have "(i * n mod k + n) div k \<le> (k + n) div k" using m by (intro div_le_mono) simp
  then show "Suc i * n div k - i * n div k \<le> Suc (n div k)" using d assms(1) by simp
  show "Suc i * n div k \<le> n" if "i < k"
    using that assms(1) by (metis Suc_leI div_le_mono mult_le_mono1 nonzero_mult_div_cancel_left less_nat_zero_code)
qed

text \<open>Round-robin: with too few cores every daemon gets one core of its own choice of the available ones.\<close>

lemma round_robin:
  fixes xs :: "int list"
  assumes "xs \<noteq> []"
  shows "map_res (\<lambda>i. res_bind (aget xs (i mod int (length xs))) (\<lambda>c. Inr [c])) is
    = Inr (map (\<lambda>i. [xs ! nat (i mod int (length xs))]) is)"
  using assms by (induction "is") (simp_all add: aget_nonneg nat_less_iff)

lemma core_sets_enough:
  assumes "0 < run_count" and "run_count \<le> total_cores cpus run_count - reserved"
  defines "xs \<equiv> [reserved..total_cores cpus run_count - 1]"
  obtains sets where "compute_daemon_core_sets cpus run_count reserved = Inr sets"
    and "length sets = nat run_count" and "concat sets = xs"
    and "\<And>s. s \<in> set sets \<Longrightarrow> s \<noteq> [] \<and> length xs div nat run_count \<le> length s \<and> length s \<le> Suc (length xs div nat run_count)"
proof -
  define n k where "n = length xs" and "k = nat run_count"
  have n: "k \<le> n" "0 < k" "run_count = int k" using assms by (auto simp: n_def k_def xs_def)
  let ?c = "\<lambda>i. i * n div k"
  let ?sets = "map (\<lambda>i. take (?c (Suc i) - ?c i) (drop (?c i) xs)) [0..<k]"
  have s: "py_slice xs (int i * int n div int k) ((int i + 1) * int n div int k)
      = take (?c (Suc i) - ?c i) (drop (?c i) xs)" for i
  proof -
    have "(int i + 1) * int n div int k = int (?c (Suc i))" "int i * int n div int k = int (?c i)"
      by (simp_all add: zdiv_int distrib_right add.commute)
    then show ?thesis unfolding py_slice_def by (metis nat_int)
  qed
  have "compute_daemon_core_sets cpus run_count reserved = Inr ?sets"
    unfolding compute_daemon_core_sets_def Let_def xs_def [symmetric] n_def [symmetric]
    using n s by (simp add: upto_upt comp_def)
  moreover have "concat ?sets = xs"
    using slices_concat [of ?c xs k] n by (simp add: mono_def div_le_mono n_def)
  moreover have "s \<noteq> [] \<and> n div k \<le> length s \<and> length s \<le> Suc (n div k)" if "s \<in> set ?sets" for s
  proof -
    from that obtain i where i: "i < k" "s = take (?c (Suc i) - ?c i) (drop (?c i) xs)" by fastforce
    have "length s = ?c (Suc i) - ?c i" using i in_chunk(3) [OF n(2,1) i(1)] by (simp add: n_def)
    moreover have "0 < n div k" using n by (simp add: div_greater_zero_iff)
    ultimately show ?thesis using in_chunk(1,2) [OF n(2,1), of i] by auto
  qed
  ultimately show ?thesis using that by (simp add: n_def k_def)
qed

lemma core_sets_few:
  assumes "total_cores cpus run_count - reserved < run_count" "0 < run_count"
    and "reserved < total_cores cpus run_count"
  obtains sets where "compute_daemon_core_sets cpus run_count reserved = Inr sets"
    and "length sets = nat run_count"
    and "\<And>s. s \<in> set sets \<Longrightarrow> \<exists>c. s = [c] \<and> reserved \<le> c \<and> c < total_cores cpus run_count"
proof -
  define xs where "xs = [reserved..total_cores cpus run_count - 1]"
  have x: "xs \<noteq> []" "int (length xs) < run_count" using assms by (auto simp: xs_def)
  let ?sets = "map (\<lambda>i. [xs ! nat (i mod int (length xs))]) [0..run_count - 1]"
  have "compute_daemon_core_sets cpus run_count reserved = Inr ?sets"
    unfolding compute_daemon_core_sets_def Let_def xs_def [symmetric]
    using x round_robin [OF x(1)] by simp
  moreover have "xs ! nat (i mod int (length xs)) \<in> set xs" for i
    using x by (intro nth_mem) (simp add: nat_less_iff)
  then have "\<exists>c. s = [c] \<and> reserved \<le> c \<and> c < total_cores cpus run_count" if "s \<in> set ?sets" for s
    using that by (fastforce simp: xs_def)
  ultimately show ?thesis using that by simp
qed

lemma core_sets_none:
  assumes "total_cores cpus run_count \<le> reserved" "0 < run_count"
  shows "compute_daemon_core_sets cpus run_count reserved = Inl ZeroDivisionError"
  using assms upto_rec1 [of 0 "run_count - 1"] by (simp add: compute_daemon_core_sets_def)

lemma core_sets_length:
  assumes "0 < run_count" "compute_daemon_core_sets cpus run_count reserved = Inr sets"
  shows "length sets = nat run_count"
  using assms core_sets_enough [of run_count cpus reserved] core_sets_few [of cpus run_count reserved]
    core_sets_none [of cpus run_count reserved]
  by (metis Inl_Inr_False Inr_inject not_le)

text \<open>
  C29: with at least as many free cores as daemons the free cores are partitioned: every core not
  reserved for the JVM goes to exactly one daemon, in order, and the shares differ by at most one core.
\<close>

theorem core_sets_partition:
  assumes "0 < run_count" and "run_count \<le> total_cores cpus run_count - reserved"
  shows "\<exists>sets. compute_daemon_core_sets cpus run_count reserved = Inr sets
    \<and> length sets = nat run_count
    \<and> concat sets = [reserved..total_cores cpus run_count - 1] \<and> distinct (concat sets)
    \<and> (\<forall>s \<in> set sets. s \<noteq> []
        \<and> (total_cores cpus run_count - reserved) div run_count \<le> int (length s)
        \<and> int (length s) \<le> (total_cores cpus run_count - reserved) div run_count + 1)"
proof -
  obtain sets where s: "compute_daemon_core_sets cpus run_count reserved = Inr sets" "length sets = nat run_count"
      "concat sets = [reserved..total_cores cpus run_count - 1]"
    and c: "\<And>s. s \<in> set sets \<Longrightarrow> s \<noteq> []
        \<and> nat (total_cores cpus run_count - reserved) div nat run_count \<le> length s
        \<and> length s \<le> Suc (nat (total_cores cpus run_count - reserved) div nat run_count)"
    by (rule core_sets_enough [OF assms]) simp
  have "int (nat (total_cores cpus run_count - reserved) div nat run_count)
      = (total_cores cpus run_count - reserved) div run_count"
    using assms by (simp add: zdiv_int)
  then show ?thesis using s c by (force simp: le_Suc_eq)
qed

theorem core_sets_partition_witness:
  "\<exists>sets. compute_daemon_core_sets (Some 8) 3 2 = Inr sets \<and> length sets = 3
    \<and> concat sets = [2..7] \<and> distinct (concat sets)"
  using core_sets_partition [of 3 "Some 8" 2] by (auto simp: total_cores_def)

text \<open>
  With fewer free cores than daemons every daemon is pinned to a single core that is not the
  JVM's, and with no free core at all, instead of the unpinned run the warning promises, the
  computation stops with a ZeroDivisionError.
\<close>

theorem core_sets_scarce:
  assumes "0 < run_count" and "total_cores cpus run_count - reserved < run_count"
  shows "if total_cores cpus run_count \<le> reserved
     then compute_daemon_core_sets cpus run_count reserved = Inl ZeroDivisionError
     else \<exists>sets. compute_daemon_core_sets cpus run_count reserved = Inr sets \<and> length sets = nat run_count
       \<and> (\<forall>s \<in> set sets. \<exists>c. s = [c] \<and> reserved \<le> c \<and> c < total_cores cpus run_count)"
  using core_sets_none [of cpus run_count reserved] core_sets_few [of cpus run_count reserved] assms
  by (metis not_le)

theorem core_sets_scarce_witness:
  "compute_daemon_core_sets (Some 2) 4 2 = Inl ZeroDivisionError"
  using core_sets_scarce [of 4 "Some 2" 2] by (simp add: total_cores_def)

section \<open>Supervision\<close>

text \<open>What a table entry must be: the run's port, core set and thread count, dead or alive.\<close>

definition entry_ok :: "launch_plan \<Rightarrow> int \<times> daemon \<Rightarrow> bool" where
  "entry_ok P e \<longleftrightarrow> (\<exists>d alive. daemon_of P (fst e) = Inr d \<and> snd e = d\<lparr>dm_alive := alive\<rparr>)"

definition supervised :: "launch_plan \<Rightarrow> launcher \<Rightarrow> bool" where
  "supervised P s \<longleftrightarrow> list_all (entry_ok P) (ln_processes s) \<and> distinct (map fst (ln_processes s))
     \<and> (case ln_phase s of
          Launching rs \<Rightarrow> map fst (ln_processes s) @ rs = run_ids (lp_args P)
        | Sweeping rs \<Rightarrow> map fst (ln_processes s) = run_ids (lp_args P)
            \<and> (\<exists>qs. qs @ rs = run_ids (lp_args P))
        | Watching \<Rightarrow> map fst (ln_processes s) = run_ids (lp_args P)
        | Stopping \<Rightarrow> map fst (ln_processes s) = run_ids (lp_args P)
        | Halted \<Rightarrow> map fst (ln_processes s) = run_ids (lp_args P) \<and> (\<forall>(r, d) \<in> set (ln_processes s). \<not> dm_alive d)
        | Crashed \<Rightarrow> \<exists>rs. rs \<noteq> [] \<and> map fst (ln_processes s) @ rs = run_ids (lp_args P))"

lemma distinct_run_ids: "distinct (run_ids args)"
  by (simp add: run_ids_def)

lemma map_fst_update:
  "map fst (AList.update k v al) = (if k \<in> fst ` set al then map fst al else map fst al @ [k])"
  by (simp add: AList.update_keys)

lemma entry_ok_new: "daemon_of P r = Inr d \<Longrightarrow> entry_ok P (r, d)"
  by (auto simp: entry_ok_def daemon_of_def Let_def intro!: exI [of _ True])

lemma entry_ok_dies: "entry_ok P (r, d) \<Longrightarrow> entry_ok P (r, d\<lparr>dm_alive := a\<rparr>)"
  by (auto simp: entry_ok_def)

lemma entries_update:
  "list_all (entry_ok P) al \<Longrightarrow> entry_ok P (r, d) \<Longrightarrow> list_all (entry_ok P) (AList.update r d al)"
  by (induction al) auto

lemma supervised_start: "supervised P (launch_start P)"
  by (simp add: supervised_def launch_start_def)


lemma map_of_key: "map_of al k = Some v \<Longrightarrow> k \<in> fst ` set al"
  by (metis map_of_SomeD fst_conv image_eqI)

lemma in_update:
  "distinct (map fst al) \<Longrightarrow> (q, p) \<in> set (AList.update r d al) \<Longrightarrow> p = d \<or> (q, p) \<in> set al \<and> q \<noteq> r"
  by (induction al) (auto split: if_splits intro: rev_image_eqI)

lemma supervised_step:
  assumes "launch_step P e s s'" and "supervised P s"
  shows "supervised P s'"
  using assms
proof (cases rule: launch_step.cases)
  case (starts r rs d)
  then have "r \<notin> fst ` set (ln_processes s)"
    using assms(2) distinct_run_ids [of "lp_args P"] by (auto simp: supervised_def) (metis disjoint_iff distinct_append image_eqI image_set list.set_intros(1) fst_conv)
  then show ?thesis using starts assms(2) entries_update [OF _ entry_ok_new]
    by (auto simp: supervised_def map_fst_update)
next
  case (restarts r rs d d')
  then have "r \<in> fst ` set (ln_processes s)" by (simp add: map_of_key)
  then show ?thesis using restarts assms(2) entries_update [OF _ entry_ok_new]
    by (auto simp: supervised_def map_fst_update) (metis append_Cons append_Nil append_assoc)
next
  case (finds_alive r rs d)
  then show ?thesis using assms(2)
    by (auto simp: supervised_def) (metis append_Cons append_Nil append_assoc)
next
  case (exits r d)
  then have "entry_ok P (r, d\<lparr>dm_alive := False\<rparr>)" "r \<in> fst ` set (ln_processes s)"
    using assms(2) map_of_key [OF exits(3)] map_of_SomeD [OF exits(3)]
    by (auto simp: supervised_def list_all_iff intro: entry_ok_dies)
  moreover have "\<forall>(r, d) \<in> set (AList.update r (d\<lparr>dm_alive := False\<rparr>) (ln_processes s)). \<not> dm_alive d"
    if "\<forall>(r, d) \<in> set (ln_processes s). \<not> dm_alive d"
    using that assms(2) in_update [of "ln_processes s" _ _ r "d\<lparr>dm_alive := False\<rparr>"] by (fastforce simp: supervised_def)
  ultimately show ?thesis using exits assms(2) entries_update
    by (auto simp: supervised_def map_fst_update split: launch_phase.splits)
qed (auto simp: supervised_def comp_def case_prod_unfold list_all_iff intro: entry_ok_dies split: launch_phase.splits)

lemma launch_invariant: "(launch_any P)\<^sup>*\<^sup>* (launch_start P) s \<Longrightarrow> supervised P s"
  by (induction rule: rtranclp_induct) (auto simp: launch_any_def supervised_start intro: supervised_step)

lemma plan_launchD:
  assumes "plan_launch cpus args = Inr P"
  shows "lp_args P = args" and "0 < la_run_count args \<Longrightarrow> length (lp_core_sets P) = nat (la_run_count args)"
    and "1 \<le> lp_threads P"
  using assms core_sets_length [of "la_run_count args" cpus "la_jvm_reserved_cores args" "lp_core_sets P"]
  by (auto simp: plan_launch_def daemon_threads_def split: if_splits)

lemma daemon_of_total:
  assumes "plan_launch cpus args = Inr P" and "r \<in> set (run_ids args)"
  obtains d where "daemon_of P r = Inr d" and "dm_port d = la_base_port args + (r - la_run_start_id args)"
    and "dm_run_id d = r" and "dm_threads d = lp_threads P" and "dm_alive d"
    and "dm_cores d = lp_core_sets P ! nat (r - la_run_start_id args)"
proof -
  have "0 \<le> r - la_run_start_id args" "nat (r - la_run_start_id args) < length (lp_core_sets P)"
    using assms plan_launchD(2) [OF assms(1)] by (auto simp: run_ids_def)
  then have "daemon_of P r = Inr \<lparr>dm_port = la_base_port args + (r - la_run_start_id args), dm_run_id = r,
      dm_threads = lp_threads P, dm_cores = lp_core_sets P ! nat (r - la_run_start_id args), dm_alive = True\<rparr>"
    using plan_launchD(1) [OF assms(1)] by (simp add: daemon_of_def Let_def aget_nonneg)
  then show ?thesis by (rule that) simp_all
qed

definition checked_alive :: "int list \<Rightarrow> launcher \<Rightarrow> bool" where
  "checked_alive rs s \<longleftrightarrow> (\<forall>(r, d) \<in> set (ln_processes s). r \<in> set rs \<or> dm_alive d)"

lemma sweep_check:
  assumes "plan_launch cpus args = Inr P" and "supervised P s" and "ln_phase s = Sweeping (r # rs)"
    and "checked_alive (r # rs) s"
  shows "\<exists>s'. launch_step P Own s s'"
    and "launch_step P Own s s' \<Longrightarrow> supervised P s' \<and> ln_phase s' = Sweeping rs \<and> checked_alive rs s'"
proof -
  have ids: "map fst (ln_processes s) = run_ids args" "r \<in> set (run_ids args)" "distinct (map fst (ln_processes s))"
    using assms(2,3) plan_launchD(1) [OF assms(1)] by (auto simp: supervised_def) (metis in_set_conv_decomp)
  then obtain d where d: "map_of (ln_processes s) r = Some d"
    by (metis domD dom_map_of_conv_image_fst list.set_map)
  show "\<exists>s'. launch_step P Own s s'"
    using finds_alive [OF assms(3) d] restarts [OF assms(3) d] daemon_of_total [OF assms(1) ids(2)] by metis
  assume st: "launch_step P Own s s'"
  have only: "d' = d" if "(r, d') \<in> set (ln_processes s)" for d'
    using that d ids(3) map_of_eq_Some_iff by fastforce
  have "checked_alive rs s'"
    using st
  proof (cases rule: launch_step.cases)
    case (finds_alive r' rs' d')
    then show ?thesis using assms(3,4) d only by (auto simp: checked_alive_def)
  next
    case (restarts r' rs' d' d'')
    then have "dm_alive d''" using assms(3) daemon_of_total [OF assms(1) ids(2)] by (metis Inr_inject launch_phase.inject(2) list.inject)
    then show ?thesis using restarts assms(3,4) in_update [OF ids(3), of _ _ r d'']
      by (fastforce simp: checked_alive_def)
  qed (use assms(3) in simp_all)
  moreover have "ln_phase s' = Sweeping rs" using st assms(3) by (cases rule: launch_step.cases) auto
  ultimately show "supervised P s' \<and> ln_phase s' = Sweeping rs \<and> checked_alive rs s'"
    using supervised_step [OF st assms(2)] by simp
qed

lemma sweep_runs:
  assumes "plan_launch cpus args = Inr P" and "supervised P s" and "ln_phase s = Sweeping rs"
    and "checked_alive rs s"
  shows "(\<exists>s'. (launch_step P Own ^^ Suc (length rs)) s s')
    \<and> (\<forall>s'. (launch_step P Own ^^ Suc (length rs)) s s' \<longrightarrow>
          supervised P s' \<and> ln_phase s' = Watching \<and> checked_alive [] s')"
  using assms(2-4)
proof (induction rs arbitrary: s)
  case Nil
  have "launch_step P Own s s' \<longleftrightarrow> s' = s\<lparr>ln_phase := Watching\<rparr>" for s'
    using Nil(2) by (auto elim: launch_step.cases intro: swept)
  then show ?case using Nil supervised_step [OF swept, of s P] by (simp add: checked_alive_def eq_OO)
next
  case (Cons r rs)
  note c = sweep_check [OF assms(1) Cons.prems]
  then obtain s1 where s1: "launch_step P Own s s1" by auto
  obtain s2 where "(launch_step P Own ^^ Suc (length rs)) s1 s2" using c(2) [OF s1] Cons.IH by blast
  then have "(launch_step P Own ^^ Suc (length (r # rs))) s s2"
    unfolding list.size add_Suc_right add_0_right using s1 by (blast intro: relpowp_Suc_I2)
  moreover have "supervised P s' \<and> ln_phase s' = Watching \<and> checked_alive [] s'"
    if st: "(launch_step P Own ^^ Suc (length (r # rs))) s s'" for s'
  proof -
    obtain y where "launch_step P Own s y" "(launch_step P Own ^^ Suc (length rs)) y s'"
      using relpowp_Suc_D2 [OF st] by auto
    then show ?thesis using c(2) Cons.IH by blast
  qed
  ultimately show ?case by blast
qed

text \<open>
  C30: the process table is always what the arguments say: in every state the launcher can reach,
  whatever daemons die, restarts fail or signals come, and once the launch is through, there is one
  entry per run, in order, under the port, core set and thread count of its run, so no two runs
  share a port; after a stop no daemon is left alive.
\<close>

theorem launcher_table_invariant:
  assumes "plan_launch cpus args = Inr P" and "(launch_any P)\<^sup>*\<^sup>* (launch_start P) s"
    and "\<forall>rs. ln_phase s \<noteq> Launching rs" and "ln_phase s \<noteq> Crashed"
  shows "map fst (ln_processes s) = [la_run_start_id args..la_run_start_id args + la_run_count args - 1]
    \<and> (\<forall>(r, d) \<in> set (ln_processes s). dm_run_id d = r \<and> dm_port d = la_base_port args + (r - la_run_start_id args)
        \<and> dm_cores d = lp_core_sets P ! nat (r - la_run_start_id args) \<and> dm_threads d = lp_threads P)
    \<and> distinct (map (\<lambda>(r, d). dm_port d) (ln_processes s))
    \<and> (ln_phase s = Halted \<longrightarrow> (\<forall>(r, d) \<in> set (ln_processes s). \<not> dm_alive d))"
proof -
  note inv = launch_invariant [OF assms(2)]
  then have ids: "map fst (ln_processes s) = run_ids args"
    using assms(3,4) plan_launchD(1) [OF assms(1)] by (auto simp: supervised_def split: launch_phase.splits)
  have e: "dm_run_id d = r \<and> dm_port d = la_base_port args + (r - la_run_start_id args)
      \<and> dm_cores d = lp_core_sets P ! nat (r - la_run_start_id args) \<and> dm_threads d = lp_threads P"
    if d: "(r, d) \<in> set (ln_processes s)" for r d
  proof -
    have "r \<in> set (run_ids args)" using d ids by (metis fst_conv image_eqI list.set_map)
    from daemon_of_total [OF assms(1) this] obtain d0 where d0: "daemon_of P r = Inr d0" "dm_run_id d0 = r"
        "dm_port d0 = la_base_port args + (r - la_run_start_id args)" "dm_threads d0 = lp_threads P"
        "dm_cores d0 = lp_core_sets P ! nat (r - la_run_start_id args)" by metis
    moreover have "entry_ok P (r, d)" using inv d by (auto simp: supervised_def list_all_iff)
    ultimately show ?thesis by (auto simp: entry_ok_def)
  qed
  have "map (\<lambda>(r, d). dm_port d) (ln_processes s)
      = map (\<lambda>r. la_base_port args + (r - la_run_start_id args)) (map fst (ln_processes s))"
    using e by auto
  then have "distinct (map (\<lambda>(r, d). dm_port d) (ln_processes s))"
    using distinct_run_ids [of args] ids by (simp add: distinct_map inj_on_def del: map_map)
  then show ?thesis using e ids inv by (auto simp: supervised_def run_ids_def)
qed

lemma own_enabled:
  assumes "plan_launch cpus args = Inr P" and "supervised P s"
    and "ln_phase s \<noteq> Halted" and "ln_phase s \<noteq> Crashed"
  shows "\<exists>s'. launch_step P Own s s'"
proof (cases "ln_phase s")
  case (Launching rs)
  show ?thesis
  proof (cases rs)
    case Nil then show ?thesis using Launching launched by blast
  next
    case (Cons r rs')
    then have "r \<in> set (run_ids args)" using assms(2) Launching plan_launchD(1) [OF assms(1)]
      by (auto simp: supervised_def) (metis in_set_conv_decomp)
    then show ?thesis using daemon_of_total [OF assms(1)] Launching Cons starts by metis
  qed
next
  case (Sweeping rs)
  show ?thesis
  proof (cases rs)
    case Nil then show ?thesis using Sweeping swept by blast
  next
    case (Cons r rs')
    then have r: "r \<in> set (run_ids args)" "map fst (ln_processes s) = run_ids args"
      using assms(2) Sweeping plan_launchD(1) [OF assms(1)] by (auto simp: supervised_def) (metis in_set_conv_decomp)
    then obtain d where "map_of (ln_processes s) r = Some d" by (metis domD dom_map_of_conv_image_fst list.set_map)
    then show ?thesis using daemon_of_total [OF assms(1) r(1)] Sweeping Cons finds_alive restarts by metis
  qed
qed (use assms(3,4) sweeps leaves halts in blast)+

text \<open>How many own steps a launcher that has been told to stop still takes.\<close>

fun steps_left :: "launch_phase \<Rightarrow> nat" where
  "steps_left (Launching rs) = length rs + 3"
| "steps_left (Sweeping rs) = length rs + 3"
| "steps_left Watching = 2"
| "steps_left Stopping = 1"
| "steps_left _ = 0"

lemma own_step_counts:
  "launch_step P Own s s' \<Longrightarrow> ln_shutdown_requested s \<Longrightarrow>
    ln_shutdown_requested s' \<and> steps_left (ln_phase s) = Suc (steps_left (ln_phase s')) \<and> ln_phase s' \<noteq> Crashed"
  by (cases rule: launch_step.cases) auto

lemma own_steps_count:
  "(launch_step P Own ^^ k) s s' \<Longrightarrow> ln_shutdown_requested s \<Longrightarrow>
    steps_left (ln_phase s) = k + steps_left (ln_phase s')"
proof (induction k arbitrary: s)
  case (Suc k)
  then obtain y where "launch_step P Own s y" "(launch_step P Own ^^ k) y s'" using relpowp_Suc_D2 by metis
  then show ?case using Suc own_step_counts by fastforce
qed simp

lemma own_runs_down:
  assumes "plan_launch cpus args = Inr P"
  shows "supervised P s \<Longrightarrow> ln_shutdown_requested s \<Longrightarrow> ln_phase s \<noteq> Crashed \<Longrightarrow>
    \<exists>s'. (launch_step P Own ^^ steps_left (ln_phase s)) s s' \<and> ln_phase s' = Halted \<and> supervised P s'"
proof (induction "steps_left (ln_phase s)" arbitrary: s)
  case 0
  then show ?case by (cases "ln_phase s") auto
next
  case (Suc k)
  then obtain y where y: "launch_step P Own s y" using own_enabled [OF assms Suc.prems(1)] by force
  then obtain s' where "(launch_step P Own ^^ k) y s'" "ln_phase s' = Halted" "supervised P s'"
    using Suc own_step_counts [OF y] supervised_step [OF y] by (metis Suc_inject)
  then show ?case using y Suc(2) relpowp_Suc_I2 by metis
qed

lemma phase_length:
  "supervised P s \<Longrightarrow> steps_left (ln_phase s) \<le> nat (la_run_count (lp_args P)) + 3"
  by (cases "ln_phase s") (auto simp: supervised_def run_ids_def dest!: arg_cong [of _ _ length])

text \<open>
  C31: supervision brings daemons back: from the head of its loop, whatever has died before, the
  launcher's next pass of one check per run comes back to the head with every run's daemon alive,
  provided no further daemon dies and no start fails during the pass.
\<close>

theorem supervision_revives:
  assumes "plan_launch cpus args = Inr P" and "(launch_any P)\<^sup>*\<^sup>* (launch_start P) s"
    and "ln_phase s = Watching" and "\<not> ln_shutdown_requested s"
  shows "(\<exists>s'. (launch_step P Own ^^ (nat (la_run_count args) + 2)) s s')
    \<and> (\<forall>s'. (launch_step P Own ^^ (nat (la_run_count args) + 2)) s s' \<longrightarrow>
          ln_phase s' = Watching \<and> (\<forall>(r, d) \<in> set (ln_processes s'). dm_alive d)
          \<and> map fst (ln_processes s') = [la_run_start_id args..la_run_start_id args + la_run_count args - 1])"
proof -
  note inv = launch_invariant [OF assms(2)]
  note first = sweeps [OF assms(3,4), of P]
  let ?s1 = "s\<lparr>ln_phase := Sweeping (map fst (ln_processes s))\<rparr>"
  have ids: "map fst (ln_processes s) = run_ids args"
    using inv assms(3) plan_launchD(1) [OF assms(1)] by (simp add: supervised_def)
  have n: "nat (la_run_count args) + 2 = Suc (Suc (length (map fst (ln_processes s))))"
    unfolding ids by (simp add: run_ids_def)
  have only: "y = ?s1" if "launch_step P Own s y" for y
    using that assms(3,4) by (cases rule: launch_step.cases) auto
  have "checked_alive (map fst (ln_processes s)) ?s1" by (force simp: checked_alive_def)
  from sweep_runs [OF assms(1) supervised_step [OF first inv] _ this]
  have run: "\<exists>s'. (launch_step P Own ^^ Suc (length (map fst (ln_processes s)))) ?s1 s'"
    and goal: "\<And>s'. (launch_step P Own ^^ Suc (length (map fst (ln_processes s)))) ?s1 s' \<Longrightarrow>
        supervised P s' \<and> ln_phase s' = Watching \<and> checked_alive [] s'"
    by simp_all
  have "\<exists>s'. (launch_step P Own ^^ (nat (la_run_count args) + 2)) s s'"
    unfolding n using run first relpowp_Suc_I2 by metis
  moreover have "ln_phase s' = Watching \<and> (\<forall>(r, d) \<in> set (ln_processes s'). dm_alive d)
      \<and> map fst (ln_processes s') = [la_run_start_id args..la_run_start_id args + la_run_count args - 1]"
    if st: "(launch_step P Own ^^ (nat (la_run_count args) + 2)) s s'" for s'
  proof -
    have "(launch_step P Own ^^ Suc (length (map fst (ln_processes s)))) ?s1 s'"
      using relpowp_Suc_D2 [OF st [unfolded n]] only by blast
    from goal [OF this] show ?thesis
      using plan_launchD(1) [OF assms(1)] by (auto simp: supervised_def checked_alive_def run_ids_def)
  qed
  ultimately show ?thesis by blast
qed

text \<open>
  Shutting down terminates: once a signal has been noted, at whatever point of the launch or of
  a pass, the launcher takes at most run count + 3 more steps, and there is no way for it to get stuck
  before it has halted with every daemon stopped.
\<close>

theorem shutdown_terminates:
  assumes "plan_launch cpus args = Inr P" and "(launch_any P)\<^sup>*\<^sup>* (launch_start P) s"
    and "ln_shutdown_requested s" and "ln_phase s \<noteq> Crashed"
  shows "(\<exists>k s'. k \<le> nat (la_run_count args) + 3 \<and> (launch_step P Own ^^ k) s s' \<and> ln_phase s' = Halted
        \<and> (\<forall>(r, d) \<in> set (ln_processes s'). \<not> dm_alive d))
    \<and> (\<forall>k s'. (launch_step P Own ^^ k) s s' \<longrightarrow> k \<le> nat (la_run_count args) + 3)"
proof -
  note inv = launch_invariant [OF assms(2)]
  have b: "steps_left (ln_phase s) \<le> nat (la_run_count args) + 3"
    using phase_length [OF inv] plan_launchD(1) [OF assms(1)] by simp
  obtain s' where "(launch_step P Own ^^ steps_left (ln_phase s)) s s'" "ln_phase s' = Halted" "supervised P s'"
    using own_runs_down [OF assms(1) inv assms(3,4)] by blast
  then have "\<exists>k s'. k \<le> nat (la_run_count args) + 3 \<and> (launch_step P Own ^^ k) s s' \<and> ln_phase s' = Halted
        \<and> (\<forall>(r, d) \<in> set (ln_processes s'). \<not> dm_alive d)"
    using b by (auto simp: supervised_def)
  moreover have "k \<le> nat (la_run_count args) + 3" if "(launch_step P Own ^^ k) s s'" for k s'
    using own_steps_count [OF that assms(3)] b by simp
  ultimately show ?thesis by blast
qed

definition three_runs :: launch_args where
  "three_runs = \<lparr>la_run_start_id = 4, la_run_count = 3, la_base_port = 50051, la_jvm_reserved_cores = 2\<rparr>"

lemma three_runs_plan:
  "plan_launch (Some 8) three_runs = Inr \<lparr>lp_args = three_runs, lp_threads = 2, lp_core_sets = [[2, 3], [4, 5], [6, 7]]\<rparr>"
  by (simp add: plan_launch_def three_runs_def daemon_threads_def total_cores_def compute_daemon_core_sets_def
      py_slice_def upto_rec1 numeral_eq_Suc)

text \<open>A launcher of three runs after its launch, with the second daemon dead.\<close>

definition three_daemons :: "bool \<Rightarrow> (int \<times> daemon) list" where
  "three_daemons alive =
    [(4, \<lparr>dm_port = 50051, dm_run_id = 4, dm_threads = 2, dm_cores = [2, 3], dm_alive = True\<rparr>),
     (5, \<lparr>dm_port = 50052, dm_run_id = 5, dm_threads = 2, dm_cores = [4, 5], dm_alive = alive\<rparr>),
     (6, \<lparr>dm_port = 50053, dm_run_id = 6, dm_threads = 2, dm_cores = [6, 7], dm_alive = True\<rparr>)]"

abbreviation three_plan :: launch_plan where
  "three_plan \<equiv> \<lparr>lp_args = three_runs, lp_threads = 2, lp_core_sets = [[2, 3], [4, 5], [6, 7]]\<rparr>"

lemma any_step: "launch_step P e s s' \<Longrightarrow> (launch_any P)\<^sup>*\<^sup>* s1 s \<Longrightarrow> (launch_any P)\<^sup>*\<^sup>* s1 s'"
  by (metis launch_any_def rtranclp.rtrancl_into_rtrancl)

lemma three_started:
  "(launch_any three_plan)\<^sup>*\<^sup>* (launch_start three_plan)
     \<lparr>ln_processes = three_daemons False, ln_phase = Watching, ln_shutdown_requested = False\<rparr>"
proof -
  let ?s = "\<lambda>ps ph. \<lparr>ln_processes = ps, ln_phase = ph, ln_shutdown_requested = False\<rparr>"
  let ?ds = "three_daemons True"
  have d: "daemon_of three_plan 4 = Inr (snd (?ds ! 0))" "daemon_of three_plan 5 = Inr (snd (?ds ! 1))"
      "daemon_of three_plan 6 = Inr (snd (?ds ! 2))"
    by (simp_all add: daemon_of_def three_runs_def three_daemons_def aget_def py_index_def)
  have i: "launch_start three_plan = ?s [] (Launching [4, 5, 6])"
    by (simp add: launch_start_def run_ids_def three_runs_def upto_rec1)
  have "(launch_any three_plan)\<^sup>*\<^sup>* (launch_start three_plan) (?s (take 1 ?ds) (Launching [5, 6]))"
    using any_step [OF starts [of "?s [] (Launching [4, 5, 6])", OF _ d(1)]] i by (simp add: three_daemons_def)
  then have "(launch_any three_plan)\<^sup>*\<^sup>* (launch_start three_plan) (?s (take 2 ?ds) (Launching [6]))"
    using any_step [OF starts [of "?s (take 1 ?ds) (Launching [5, 6])", OF _ d(2)]] by (simp add: three_daemons_def)
  then have "(launch_any three_plan)\<^sup>*\<^sup>* (launch_start three_plan) (?s ?ds (Launching []))"
    using any_step [OF starts [of "?s (take 2 ?ds) (Launching [6])", OF _ d(3)]] by (simp add: three_daemons_def)
  then have "(launch_any three_plan)\<^sup>*\<^sup>* (launch_start three_plan) (?s ?ds Watching)"
    using any_step [OF launched [of "?s ?ds (Launching [])"]] by simp
  then show ?thesis
    using any_step [OF exits [of "?s ?ds Watching" 5 "snd (?ds ! 1)"]] by (simp add: three_daemons_def)
qed

theorem launcher_table_invariant_witness:
  "map fst (three_daemons False) = [4, 5, 6] \<and> distinct (map (\<lambda>(r, d). dm_port d) (three_daemons False))"
  using launcher_table_invariant [OF three_runs_plan three_started] by (simp add: three_runs_def upto_rec1)

theorem supervision_revives_witness:
  "\<exists>s'. (launch_step three_plan Own ^^ 5)
      \<lparr>ln_processes = three_daemons False, ln_phase = Watching, ln_shutdown_requested = False\<rparr> s'
    \<and> (\<forall>(r, d) \<in> set (ln_processes s'). dm_alive d) \<and> map fst (ln_processes s') = [4, 5, 6]"
proof -
  have [simp]: "la_run_count three_runs = 3" "la_run_start_id three_runs = 4" by (simp_all add: three_runs_def)
  show ?thesis using supervision_revives [OF three_runs_plan three_started] by (simp add: upto_rec1) blast
qed

theorem shutdown_terminates_witness:
  "\<exists>k s'. k \<le> 6 \<and> (launch_step three_plan Own ^^ k)
      \<lparr>ln_processes = three_daemons False, ln_phase = Watching, ln_shutdown_requested = True\<rparr> s'
    \<and> ln_phase s' = Halted"
proof -
  have "(launch_any three_plan)\<^sup>*\<^sup>* (launch_start three_plan)
     \<lparr>ln_processes = three_daemons False, ln_phase = Watching, ln_shutdown_requested = True\<rparr>"
    using any_step [OF signalled three_started] by simp
  from shutdown_terminates [OF three_runs_plan this] show ?thesis by (auto simp: three_runs_def)
qed

section \<open>From the launcher to the bridges\<close>

text \<open>
  The daemons of one launch are told apart all the way down: two runs whose servicers come up
  listen on different ports, carry their own run numbers and seed their generators differently,
  with the launcher's thread count and at least two request workers each.
\<close>

theorem launched_bridges_are_distinct:
  assumes "plan_launch cpus args = Inr P" and "r \<in> set (run_ids args)" and "r' \<in> set (run_ids args)"
    and "daemon_of P r = Inr d" and "daemon_of P r' = Inr d'"
    and "daemon_entry CP rng lut d = Inr (port, workers, b)" and "daemon_entry CP rng lut d' = Inr (port', workers', b')"
  shows "br_run_id b = r \<and> br_run_id b' = r' \<and> port = la_base_port args + (r - la_run_start_id args)
    \<and> workers = max 2 (lp_threads P + 1) \<and> (r \<noteq> r' \<longrightarrow> port \<noteq> port' \<and> br_seed b \<noteq> br_seed b')"
proof -
  have d: "dm_run_id d = r" "dm_port d = la_base_port args + (r - la_run_start_id args)" "dm_threads d = lp_threads P"
    "dm_run_id d' = r'" "dm_port d' = la_base_port args + (r' - la_run_start_id args)"
    using daemon_of_total [OF assms(1,2)] daemon_of_total [OF assms(1,3)] assms(4,5) by (metis Inr_inject)+
  have b: "br_run_id c = k \<and> br_seed c = derive_seed ''S5'' k"
    if "new_sim_bridge CP rng lut 200 0.06 353.15 k ''S5'' = Inr c" for k c
    using that by (auto simp: new_sim_bridge_def Let_def split: prod.splits sum.splits)
  have "derive_seed ''S5'' r = derive_seed ''S5'' r' \<Longrightarrow> r = r'"
    by (metis derive_seed_def xor.left_commute xor_self_eq xor.right_neutral)
  then show ?thesis using assms(6,7) d b plan_launchD(3) [OF assms(1)]
    by (auto simp: daemon_entry_def derive_numba_threads_def serve_workers_def)
qed

theorem launched_bridges_are_distinct_witness:
  "\<exists>port port' workers workers' b b'.
    daemon_entry None (\<lambda>_. Inr ()) (new_lut_manager small_config (Some (Inr small_stack)) Map.empty None)
      (snd (three_daemons True ! 0)) = Inr (port, workers, b)
    \<and> daemon_entry None (\<lambda>_. Inr ()) (new_lut_manager small_config (Some (Inr small_stack)) Map.empty None)
      (snd (three_daemons True ! 1)) = Inr (port', workers', b')
    \<and> port \<noteq> port' \<and> br_seed b \<noteq> br_seed b' \<and> workers = 3"
proof -
  let ?lut = "new_lut_manager small_config (Some (Inr small_stack)) Map.empty None"
  have "\<exists>p w b. daemon_entry None (\<lambda>_. Inr ()) ?lut (snd (three_daemons True ! i)) = Inr (p, w, b)" for i
    using small_bridge by (fastforce simp: daemon_entry_def derive_numba_threads_def)
  then obtain p w b p' w' b' where e:
      "daemon_entry None (\<lambda>_. Inr ()) ?lut (snd (three_daemons True ! 0)) = Inr (p, w, b)"
      "daemon_entry None (\<lambda>_. Inr ()) ?lut (snd (three_daemons True ! 1)) = Inr (p', w', b')"
    by metis
  have d: "daemon_of three_plan 4 = Inr (snd (three_daemons True ! 0))"
      "daemon_of three_plan 5 = Inr (snd (three_daemons True ! 1))"
    by (simp_all add: daemon_of_def three_runs_def three_daemons_def aget_def py_index_def)
  have "p \<noteq> p' \<and> br_seed b \<noteq> br_seed b' \<and> w = 3"
    using launched_bridges_are_distinct [OF three_runs_plan _ _ d e] by (simp add: run_ids_def three_runs_def)
  then show ?thesis using e by blast
qed

end
