(* ===== verification/Soec.thy ===== *)
theory Soec
  imports Prelude
begin

text \<open>
  The dispatch step of the multi-module SOEC plant, \<open>simulate_soec_step_jit\<close>: target module and limits
  of the setpoint, the per-module ramp with its start and shutdown bands, the module states, and the
  gather and scatter through the rotation map.
\<close>

section \<open>The dispatch step\<close>

definition py_int :: "real \<Rightarrow> int" where
  "py_int x = (if 0 \<le> x then \<lfloor>x\<rfloor> else \<lceil>x\<rceil>)"

fun gather :: "'a list \<Rightarrow> int list \<Rightarrow> 'a list res" where
  "gather xs [] = Inr []"
| "gather xs (i # is) = res_bind (aget xs i) (\<lambda>x. res_bind (gather xs is) (\<lambda>ys. Inr (x # ys)))"

fun scatter :: "int list \<Rightarrow> 'a list \<Rightarrow> 'a list \<Rightarrow> 'a list res" where
  "scatter (i # is) (v # vs) xs = res_bind (aset xs i v) (scatter is vs)"
| "scatter _ _ xs = Inr xs"

definition soec_promote :: "real \<Rightarrow> real \<Rightarrow> int \<Rightarrow> int" where
  "soec_promote U p st = (if st = 3 \<and> \<bar>p - U\<bar> < 0.005 then 4 else st)"

definition soec_settle :: "int \<Rightarrow> int" where
  "soec_settle st = (if st = 2 \<or> st = 5 then 3 else st)"

definition soec_target_index :: "real \<Rightarrow> nat \<Rightarrow> nat" where
  "soec_target_index broken_number num_active_modules =
     (let N_ceil = (if broken_number = of_int (py_int broken_number) then py_int broken_number
                    else py_int broken_number + 1);
          target_module_id = (if broken_number > 0.01 \<and> \<bar>broken_number - of_int N_ceil\<bar> < 0.001
                              then N_ceil + 1 else N_ceil);
          target_module_id' = max 1 (min (int num_active_modules + 1) target_module_id)
      in nat (target_module_id' - 1))"

definition soec_new_limit :: "real \<Rightarrow> real \<Rightarrow> real \<Rightarrow> real \<Rightarrow> real \<Rightarrow> real" where
  "soec_new_limit reference_power broken_number U power_standby_mw power_first_step_mw =
     (let new_limit_calc = reference_power - U * of_int (py_int broken_number) - 0
      in if new_limit_calc > power_standby_mw + 0.005 \<and> new_limit_calc < power_first_step_mw - 0.005
         then power_standby_mw else new_limit_calc)"

definition soec_limits ::
    "real \<Rightarrow> real \<Rightarrow> real \<Rightarrow> real \<Rightarrow> real \<Rightarrow> real \<Rightarrow> nat \<Rightarrow> real list res" where
  "soec_limits reference_power difference minimum_total_power U power_standby_mw power_first_step_mw n =
     res_bind (fdiv (max 0 (reference_power - minimum_total_power)) U) (\<lambda>broken_number.
     let target_index = soec_target_index broken_number n;
         limit = max power_standby_mw
           (soec_new_limit reference_power broken_number U power_standby_mw power_first_step_mw);
         stepped = replicate target_index U @ [limit] @ replicate (n - target_index - 1) power_standby_mw
     in if difference > 0 then
          (if target_index + 1 > n then Inr (replicate n U) else Inr stepped)
        else if \<bar>reference_power - minimum_total_power\<bar> < 0.01 then Inr (replicate n power_standby_mw)
        else if target_index < n then Inr stepped else Inl IndexError)"

text \<open>One module: the ramp towards its limit, the start, the shutdown band, the standby floor.\<close>

definition soec_power :: "real \<Rightarrow> real \<Rightarrow> real \<Rightarrow> real \<Rightarrow> real \<Rightarrow> real" where
  "soec_power power_standby_mw power_first_step_mw ramp_step_mw limit p =
     (let difference_to_limit = limit - p;
          movement = min \<bar>difference_to_limit\<bar> ramp_step_mw * (if difference_to_limit \<ge> 0 then 1 else - 1);
          starts = \<bar>p - power_standby_mw\<bar> < 0.005 \<and> difference_to_limit > 0.005;
          p1 = (if starts then power_first_step_mw else p);
          p2 = p1 + (if starts then 0 else movement);
          p3 = (if p2 > power_standby_mw + 0.005 \<and> p2 < power_first_step_mw - 0.005 then power_standby_mw else p2)
      in if p3 \<le> power_standby_mw + 0.005 then power_standby_mw else p3)"

definition soec_state :: "real \<Rightarrow> real \<Rightarrow> real \<Rightarrow> real \<Rightarrow> real \<Rightarrow> int" where
  "soec_state power_standby_mw U limit p_old p =
     (if \<bar>p - power_standby_mw\<bar> < 0.005 then 1
      else if \<bar>p - U\<bar> < 0.005 then 4
      else if \<bar>p - limit\<bar> < 0.005 then 3
      else if limit - p_old > 0 then 2 else 5)"

definition simulate_soec_step_jit ::
    "real \<Rightarrow> real list \<Rightarrow> int list \<Rightarrow> real list \<Rightarrow> int list \<Rightarrow> real \<Rightarrow> real \<Rightarrow> real \<Rightarrow> real \<Rightarrow> real
     \<Rightarrow> (real list \<times> int list \<times> real list) res" where
  "simulate_soec_step_jit reference_power real_powers real_states real_limits virtual_map
      uniform_module_max_limit power_standby_mw power_first_step_mw ramp_step_mw minimum_total_power =
     res_bind (gather real_powers virtual_map) (\<lambda>powers_v.
     res_bind (gather real_states virtual_map) (\<lambda>states0_v.
     res_bind (gather real_limits virtual_map) (\<lambda>limits_v.
     let difference = reference_power - sum_list powers_v;
         states_v = map2 (soec_promote uniform_module_max_limit) powers_v states0_v;
         write_back = (\<lambda>ps ss ls.
           res_bind (scatter virtual_map ps real_powers) (\<lambda>rp.
           res_bind (scatter virtual_map ss real_states) (\<lambda>rs.
           res_bind (scatter virtual_map ls real_limits) (\<lambda>rl. Inr (rp, rs, rl)))))
     in if \<bar>difference\<bar> < 0.01 then write_back powers_v (map soec_settle states_v) limits_v
        else res_bind (soec_limits reference_power difference minimum_total_power uniform_module_max_limit
               power_standby_mw power_first_step_mw (length virtual_map)) (\<lambda>active_limit.
             let powers_v' = map2 (soec_power power_standby_mw power_first_step_mw ramp_step_mw) active_limit powers_v;
                 states_v' = map (\<lambda>(l, p_old, p). soec_state power_standby_mw uniform_module_max_limit l p_old p)
                   (zip active_limit (zip powers_v powers_v'))
             in write_back powers_v' states_v' active_limit))))"

section \<open>Gather and scatter\<close>

lemma gather_valid:
  "\<forall>i \<in> set is. 0 \<le> i \<and> i < int (length xs) \<Longrightarrow> gather xs is = Inr (map (\<lambda>i. xs ! nat i) is)"
  by (induction "is") (simp_all add: aget_nonneg nat_less_iff)

lemma scatter_valid:
  assumes "\<forall>i \<in> set is. 0 \<le> i \<and> i < int (length xs)" and "distinct is" and "length vs = length is"
  shows "\<exists>ys. scatter is vs xs = Inr ys \<and> length ys = length xs
    \<and> (\<forall>k < length is. ys ! nat (is ! k) = vs ! k) \<and> (\<forall>j < length xs. int j \<notin> set is \<longrightarrow> ys ! j = xs ! j)"
  using assms
proof (induction "is" vs xs rule: scatter.induct)
  case (1 i "is" v vs xs)
  then have s: "aset xs i v = Inr (xs[nat i := v])" by (simp add: aset_nonneg nat_less_iff)
  obtain ys where ys: "scatter is vs (xs[nat i := v]) = Inr ys" "length ys = length xs"
      "\<forall>k < length is. ys ! nat (is ! k) = vs ! k"
      "\<forall>j < length xs. int j \<notin> set is \<longrightarrow> ys ! j = (xs[nat i := v]) ! j"
    using "1.IH" [OF s] "1.prems" by auto
  have "ys ! nat i = v" using 1 ys(4) by (simp add: nat_less_iff)
  then have "\<forall>k < length (i # is). ys ! nat ((i # is) ! k) = (v # vs) ! k"
    using ys(3) by (auto simp: nth_Cons split: nat.splits)
  moreover have "\<forall>j < length xs. int j \<notin> set (i # is) \<longrightarrow> ys ! j = xs ! j"
  proof (intro allI impI)
    fix j assume "j < length xs" "int j \<notin> set (i # is)"
    moreover from this have "nat i \<noteq> j" using "1.prems" by auto
    ultimately show "ys ! j = xs ! j" using ys(4) by simp
  qed
  ultimately show ?case using s ys by simp
qed (auto simp: Suc_length_conv)

section \<open>One module\<close>

definition soec_params :: "real \<Rightarrow> real \<Rightarrow> real \<Rightarrow> real \<Rightarrow> bool" where
  "soec_params U sb fs ramp \<longleftrightarrow> 0 < U \<and> U \<le> 10 \<and> 0 \<le> sb \<and> sb \<le> fs \<and> fs \<le> U \<and> 0 \<le> ramp"

lemma soec_power_bands:
  "soec_power sb fs ramp limit p = sb \<or> sb + 0.005 < soec_power sb fs ramp limit p \<and> fs - 0.005 \<le> soec_power sb fs ramp limit p"
  unfolding soec_power_def Let_def by (simp del: One_nat_def) linarith

lemma soec_power_moves:
  assumes "0 \<le> ramp"
  shows "soec_power sb fs ramp limit p = sb
    \<or> (\<bar>p - sb\<bar> < 0.005 \<and> p + 0.005 < limit \<and> soec_power sb fs ramp limit p = fs)
    \<or> \<bar>soec_power sb fs ramp limit p - p\<bar> \<le> ramp"
  using assms unfolding soec_power_def Let_def by (auto simp: min_def)

lemma soec_power_range:
  assumes "soec_params U sb fs ramp" and "limit \<le> L" and "p \<le> L" and "U \<le> L"
  shows "sb \<le> soec_power sb fs ramp limit p" and "soec_power sb fs ramp limit p \<le> L"
  using assms unfolding soec_power_def soec_params_def Let_def by (auto simp: min_def)

lemma soec_state_codes:
  "soec_state sb U limit p_old p \<in> {1, 2, 3, 4, 5}"
  "soec_state sb U limit p_old p = 1 \<longleftrightarrow> \<bar>p - sb\<bar> < 0.005"
  by (auto simp: soec_state_def)

section \<open>Targets and limits\<close>

lemma py_int_nonneg: "0 \<le> x \<Longrightarrow> py_int x = \<lfloor>x\<rfloor>"
  by (simp add: py_int_def)

lemma target_index_small:
  assumes "0 \<le> b" and "b \<le> real n - 1 / 1000" and "0 < n"
  shows "soec_target_index b n < n"
proof -
  have f: "\<lfloor>b\<rfloor> < int n" using assms by linarith
  have e: "b = of_int \<lfloor>b\<rfloor> \<or> of_int \<lfloor>b\<rfloor> < b" by linarith
  show ?thesis
  proof (cases "b = of_int \<lfloor>b\<rfloor>")
    case True
    then show ?thesis using f assms
      by (simp add: soec_target_index_def py_int_nonneg Let_def min_def max_def nat_less_iff)
  next
    case False
    have "\<not> 999 + (of_int \<lfloor>b\<rfloor> * 1000 - b * 1000) < 0" if "int n \<le> 1 + \<lfloor>b\<rfloor>"
    proof -
      have "real n \<le> 1 + of_int \<lfloor>b\<rfloor>" using that by linarith
      then show ?thesis using assms(2) by linarith
    qed
    then show ?thesis using f False assms(1,3)
      by (auto simp: soec_target_index_def py_int_nonneg Let_def min_def max_def nat_less_iff)
  qed
qed

lemma new_limit_bound:
  assumes "0 < U" "0 \<le> mn" "sb \<le> U"
  shows "soec_new_limit ref (max 0 (ref - mn) / U) U sb fs \<le> U + mn"
proof -
  define b where "b = max 0 (ref - mn) / U"
  have "0 \<le> b" "b < of_int \<lfloor>b\<rfloor> + 1" using assms by (auto simp: b_def)
  then have "U * b < U * (of_int \<lfloor>b\<rfloor> + 1)" using assms(1) by (intro mult_strict_left_mono) auto
  moreover have "U * b = max 0 (ref - mn)" using assms(1) by (simp add: b_def)
  ultimately have "ref - U * of_int \<lfloor>b\<rfloor> \<le> U + mn" by (simp add: distrib_left)
  then show ?thesis using assms \<open>0 \<le> b\<close>
    by (simp add: soec_new_limit_def b_def [symmetric] py_int_nonneg Let_def)
qed

lemma soec_limits_ok:
  assumes "soec_params U sb fs ramp" and "0 \<le> mn" and "0 < n"
    and "0 < difference \<or> reference \<le> real n * U - 1 / 100"
  obtains ls where "soec_limits reference difference mn U sb fs n = Inr ls" and "length ls = n"
    and "\<And>l. l \<in> set ls \<Longrightarrow> sb \<le> l \<and> l \<le> U + mn"
proof -
  define b where "b = max 0 (reference - mn) / U"
  have p: "0 < U" "U \<le> 10" "sb \<le> U" using assms(1) by (auto simp: soec_params_def)
  have lim: "soec_new_limit reference b U sb fs \<le> U + mn" unfolding b_def using new_limit_bound p assms(2) by simp
  have small: "soec_target_index b n < n" if "\<not> 0 < difference"
  proof (rule target_index_small)
    have "b * U = max 0 (reference - mn)" using p by (simp add: b_def)
    moreover have "reference - mn \<le> real n * U - U / 1000" using that assms(2,4) p by simp
    moreover have "0 \<le> real n * U - U / 1000" using assms(3) p by (cases n) (auto simp: distrib_right)
    ultimately have "b * U \<le> (real n - 1 / 1000) * U" by (simp add: left_diff_distrib)
    then show "b \<le> real n - 1 / 1000" using p by simp
  qed (use assms(3) p in \<open>simp_all add: b_def\<close>)
  let ?r = "soec_limits reference difference mn U sb fs n"
  have "\<exists>ls. ?r = Inr ls \<and> length ls = n \<and> (\<forall>l \<in> set ls. sb \<le> l \<and> l \<le> U + mn)"
    using small lim p assms(2,3)
    by (cases "0 < difference")
      (auto simp: soec_limits_def b_def [symmetric] Let_def fdiv_ok set_replicate_conv_if)
  then show ?thesis using that by blast
qed

text \<open>The plant's arrays before a step, as the rotation map sees them.\<close>

definition soec_arrays :: "real list \<Rightarrow> int list \<Rightarrow> real list \<Rightarrow> int list \<Rightarrow> bool" where
  "soec_arrays ps ss ls vm \<longleftrightarrow> length ss = length ps \<and> length ls = length ps \<and> ps \<noteq> [] \<and> distinct vm
     \<and> set vm = {0..<int (length ps)}"

lemma soec_arrays_length: "soec_arrays ps ss ls vm \<Longrightarrow> length vm = length ps"
  unfolding soec_arrays_def by (metis card_atLeastLessThan_int diff_zero distinct_card nat_int)

lemma soec_arrays_at:
  assumes "soec_arrays ps ss ls vm" and "j < length ps"
  obtains k where "k < length vm" and "vm ! k = int j" and "nat (vm ! k) = j"
proof -
  have "int j \<in> set vm" using assms by (simp add: soec_arrays_def)
  then show ?thesis using that by (auto simp: in_set_conv_nth)
qed

lemma sum_gathered:
  assumes "soec_arrays ps ss ls vm"
  shows "sum_list (map (\<lambda>i. ps ! nat i) vm) = sum_list ps"
proof -
  have "sum_list (map (\<lambda>i. ps ! nat i) vm) = (\<Sum>i \<in> {0..<int (length ps)}. ps ! nat i)"
    using assms by (simp add: soec_arrays_def sum_list_distinct_conv_sum_set)
  also have "\<dots> = (\<Sum>j \<in> {0..<length ps}. ps ! j)"
    by (rule sum.reindex_bij_witness [of _ int nat]) auto
  finally show ?thesis by (simp add: sum_list_sum_nth)
qed

lemma soec_gathers:
  assumes "soec_arrays ps ss ls vm"
  shows "gather ps vm = Inr (map (\<lambda>i. ps ! nat i) vm)" "gather ss vm = Inr (map (\<lambda>i. ss ! nat i) vm)"
    "gather ls vm = Inr (map (\<lambda>i. ls ! nat i) vm)"
  using assms by (auto simp: soec_arrays_def intro!: gather_valid)

lemma soec_scatter:
  assumes "soec_arrays ps ss ls vm" and "length vs = length ps" and "length xs = length ps"
  obtains ys where "scatter vm vs xs = Inr ys" and "length ys = length ps" and "\<forall>k < length ps. ys ! nat (vm ! k) = vs ! k"
  using scatter_valid [of vm xs vs] assms soec_arrays_length [OF assms(1)] by (auto simp: soec_arrays_def)

lemma soec_step_moves:
  assumes "soec_arrays ps ss ls vm" and "\<not> \<bar>reference - sum_list ps\<bar> < 0.01"
    and "soec_limits reference (reference - sum_list ps) mn U sb fs (length ps) = Inr al" and "length al = length ps"
  obtains ps' ss' ls' where "simulate_soec_step_jit reference ps ss ls vm U sb fs ramp mn = Inr (ps', ss', ls')"
    and "length ps' = length ps" and "length ss' = length ps" and "length ls' = length ps"
    and "\<And>j. j < length ps \<Longrightarrow> \<exists>l \<in> set al. ls' ! j = l \<and> ps' ! j = soec_power sb fs ramp l (ps ! j)
          \<and> ss' ! j = soec_state sb U l (ps ! j) (ps' ! j)"
proof -
  note n = soec_arrays_length [OF assms(1)]
  let ?pv = "map (\<lambda>i. ps ! nat i) vm"
  let ?pv' = "map2 (soec_power sb fs ramp) al ?pv"
  let ?sv' = "map (\<lambda>(l, p_old, p). soec_state sb U l p_old p) (zip al (zip ?pv ?pv'))"
  have l: "length ?pv' = length ps" "length ?sv' = length ps" using assms(4) n by simp_all
  have len: "length ss = length ps" "length ls = length ps" using assms(1) by (simp_all add: soec_arrays_def)
  obtain ps' where p: "scatter vm ?pv' ps = Inr ps'" "length ps' = length ps" "\<forall>k < length ps. ps' ! nat (vm ! k) = ?pv' ! k"
    using soec_scatter [OF assms(1) l(1) refl] by blast
  obtain ss' where s: "scatter vm ?sv' ss = Inr ss'" "length ss' = length ps" "\<forall>k < length ps. ss' ! nat (vm ! k) = ?sv' ! k"
    using soec_scatter [OF assms(1) l(2) len(1)] by blast
  obtain ls' where a: "scatter vm al ls = Inr ls'" "length ls' = length ps" "\<forall>k < length ps. ls' ! nat (vm ! k) = al ! k"
    using soec_scatter [OF assms(1,4) len(2)] by blast
  have "simulate_soec_step_jit reference ps ss ls vm U sb fs ramp mn = Inr (ps', ss', ls')"
    unfolding simulate_soec_step_jit_def soec_gathers [OF assms(1)] res_bind.simps Let_def sum_gathered [OF assms(1)] n
    using assms(2,3) p(1) s(1) a(1) by simp
  moreover have "\<exists>l \<in> set al. ls' ! j = l \<and> ps' ! j = soec_power sb fs ramp l (ps ! j)
          \<and> ss' ! j = soec_state sb U l (ps ! j) (ps' ! j)" if j: "j < length ps" for j
  proof -
    obtain k where "k < length vm" "nat (vm ! k) = j" using soec_arrays_at [OF assms(1) j] by metis
    then show ?thesis using p(3) s(3) a(3) n assms(4) by (intro bexI [of _ "al ! k"]) (auto simp: l)
  qed
  ultimately show ?thesis using that p(2) s(2) a(2) by blast
qed

lemma soec_step_rests:
  assumes "soec_arrays ps ss ls vm" and "\<bar>reference - sum_list ps\<bar> < 0.01"
  obtains ss' where "simulate_soec_step_jit reference ps ss ls vm U sb fs ramp mn = Inr (ps, ss', ls)"
    and "length ss' = length ps"
    and "\<And>j. j < length ps \<Longrightarrow> ss' ! j = soec_settle (soec_promote U (ps ! j) (ss ! j))"
proof -
  note n = soec_arrays_length [OF assms(1)]
  have len: "length ss = length ps" "length ls = length ps" using assms(1) by (simp_all add: soec_arrays_def)
  let ?pv = "map (\<lambda>i. ps ! nat i) vm" and ?lv = "map (\<lambda>i. ls ! nat i) vm"
  let ?sv = "map soec_settle (map2 (soec_promote U) ?pv (map (\<lambda>i. ss ! nat i) vm))"
  obtain ss' where s: "scatter vm ?sv ss = Inr ss'" "length ss' = length ps" "\<forall>k < length ps. ss' ! nat (vm ! k) = ?sv ! k"
    using soec_scatter [OF assms(1) _ len(1), of ?sv] n by auto
  have same: "scatter vm (map (\<lambda>i. xs ! nat i) vm) xs = Inr xs" if xs: "length xs = length ps" for xs :: "real list"
  proof -
    obtain ys where ys: "scatter vm (map (\<lambda>i. xs ! nat i) vm) xs = Inr ys" "length ys = length ps"
        "\<forall>k < length ps. ys ! nat (vm ! k) = map (\<lambda>i. xs ! nat i) vm ! k"
      using soec_scatter [OF assms(1) _ xs, of "map (\<lambda>i. xs ! nat i) vm"] n by auto
    have "ys ! j = xs ! j" if j: "j < length ps" for j
    proof -
      obtain k where k: "k < length vm" "nat (vm ! k) = j" using soec_arrays_at [OF assms(1) j] by metis
      then have "ys ! j = map (\<lambda>i. xs ! nat i) vm ! k" using ys(3) n by metis
      then show ?thesis using k by simp
    qed
    then have "ys = xs" using ys(2) xs by (intro nth_equalityI) auto
    then show ?thesis using ys(1) by simp
  qed
  have "simulate_soec_step_jit reference ps ss ls vm U sb fs ramp mn = Inr (ps, ss', ls)"
    unfolding simulate_soec_step_jit_def soec_gathers [OF assms(1)] res_bind.simps Let_def sum_gathered [OF assms(1)] n
    using assms(2) s(1) same len by simp
  moreover have "ss' ! j = soec_settle (soec_promote U (ps ! j) (ss ! j))" if j: "j < length ps" for j
  proof -
    obtain k where k: "k < length vm" "nat (vm ! k) = j" using soec_arrays_at [OF assms(1) j] by metis
    then have "ss' ! j = ?sv ! k" using s(3) n by metis
    then show ?thesis using k by simp
  qed
  ultimately show ?thesis using that s(2) by blast
qed

section \<open>Histories of setpoints\<close>

fun soec_run ::
    "real list \<Rightarrow> int list \<Rightarrow> real \<Rightarrow> real \<Rightarrow> real \<Rightarrow> real \<Rightarrow> real list \<times> int list \<times> real list
      \<Rightarrow> (real list \<times> int list \<times> real list) res" where
  "soec_run [] vm U sb fs ramp plant = Inr plant"
| "soec_run (r # rs) vm U sb fs ramp (ps, ss, ls) =
     res_bind (simulate_soec_step_jit r ps ss ls vm U sb fs ramp 0) (soec_run rs vm U sb fs ramp)"

definition soec_module_ok :: "real \<Rightarrow> real \<Rightarrow> real \<Rightarrow> real \<Rightarrow> bool" where
  "soec_module_ok U sb fs p \<longleftrightarrow> sb \<le> p \<and> p \<le> U \<and> (p = sb \<or> fs - 0.005 \<le> p)"

lemma soec_step_ok:
  assumes "soec_arrays ps ss ls vm" and "soec_params U sb fs ramp" and "\<forall>p \<in> set ps. soec_module_ok U sb fs p"
  obtains ps' ss' ls' where "simulate_soec_step_jit reference ps ss ls vm U sb fs ramp 0 = Inr (ps', ss', ls')"
    and "soec_arrays ps' ss' ls' vm" and "length ps' = length ps"
    and "\<And>j. j < length ps \<Longrightarrow> soec_module_ok U sb fs (ps' ! j)
       \<and> (ps' ! j = sb \<or> \<bar>ps ! j - sb\<bar> < 0.005 \<and> ps' ! j = fs \<or> \<bar>ps' ! j - ps ! j\<bar> \<le> ramp)"
proof (cases "\<bar>reference - sum_list ps\<bar> < 0.01")
  case True
  obtain ss' where s: "simulate_soec_step_jit reference ps ss ls vm U sb fs ramp 0 = Inr (ps, ss', ls)" "length ss' = length ps"
    by (rule soec_step_rests [OF assms(1) True])
  have a: "soec_arrays ps ss' ls vm" using assms(1) s(2) by (simp add: soec_arrays_def)
  have "soec_module_ok U sb fs (ps ! j)
       \<and> (ps ! j = sb \<or> \<bar>ps ! j - sb\<bar> < 0.005 \<and> ps ! j = fs \<or> \<bar>ps ! j - ps ! j\<bar> \<le> ramp)" if "j < length ps" for j
    using assms(2,3) that by (simp add: soec_params_def)
  from that [OF s(1) a refl this] show ?thesis by blast
next
  case False
  have n: "0 < length ps" using assms(1) by (simp add: soec_arrays_def)
  have "sum_list ps \<le> real (length ps) * U"
    using sum_list_mono [of ps "\<lambda>p. p" "\<lambda>_. U"] assms(3) by (simp add: soec_module_ok_def sum_list_triv)
  then have "0 < reference - sum_list ps \<or> reference \<le> real (length ps) * U - 1 / 100"
    using False by (auto simp: abs_real_def split: if_splits)
  then obtain al where al: "soec_limits reference (reference - sum_list ps) 0 U sb fs (length ps) = Inr al"
      "length al = length ps" "\<And>l. l \<in> set al \<Longrightarrow> sb \<le> l \<and> l \<le> U"
    by (rule soec_limits_ok [OF assms(2) order.refl n]) auto
  obtain ps' ss' ls' where st: "simulate_soec_step_jit reference ps ss ls vm U sb fs ramp 0 = Inr (ps', ss', ls')"
      "length ps' = length ps" "length ss' = length ps" "length ls' = length ps"
    and e: "\<And>j. j < length ps \<Longrightarrow> \<exists>l \<in> set al. ls' ! j = l \<and> ps' ! j = soec_power sb fs ramp l (ps ! j)
          \<and> ss' ! j = soec_state sb U l (ps ! j) (ps' ! j)"
    by (rule soec_step_moves [OF assms(1) False al(1,2)]) blast
  have m: "soec_module_ok U sb fs (ps' ! j)
       \<and> (ps' ! j = sb \<or> \<bar>ps ! j - sb\<bar> < 0.005 \<and> ps' ! j = fs \<or> \<bar>ps' ! j - ps ! j\<bar> \<le> ramp)" if j: "j < length ps" for j
  proof -
    obtain l where l: "l \<in> set al" "ps' ! j = soec_power sb fs ramp l (ps ! j)" using e [OF j] by auto
    have "ps ! j \<le> U" "0 \<le> ramp" using assms(2,3) j by (auto simp: soec_module_ok_def soec_params_def)
    have "sb \<le> ps' ! j" "ps' ! j \<le> U"
      using soec_power_range [OF assms(2) _ \<open>ps ! j \<le> U\<close> order.refl, of l] al(3) [OF l(1)] by (simp_all add: l(2))
    moreover have "ps' ! j = sb \<or> fs - 0.005 \<le> ps' ! j" using soec_power_bands [of sb fs ramp l "ps ! j"] l(2) by metis
    moreover have "ps' ! j = sb \<or> \<bar>ps ! j - sb\<bar> < 0.005 \<and> ps' ! j = fs \<or> \<bar>ps' ! j - ps ! j\<bar> \<le> ramp"
      using soec_power_moves [OF \<open>0 \<le> ramp\<close>, of sb fs l "ps ! j"] l(2) by metis
    ultimately show ?thesis unfolding soec_module_ok_def by blast
  qed
  have "soec_arrays ps' ss' ls' vm" using st(2-) assms(1) unfolding soec_arrays_def by (metis length_0_conv)
  then show ?thesis using that [OF st(1) _ st(2) m] by blast
qed



lemma sum_stepped:
  fixes U :: real
  shows "k < n \<Longrightarrow> sum_list (replicate k U @ [l] @ replicate (n - k - 1) sb) = real k * U + l + real (n - k - 1) * sb"
  by (simp add: sum_list_replicate)

lemma fdiv_split:
  fixes U :: real
  assumes "0 < U" "0 \<le> r"
  defines "b \<equiv> r / U"
  shows "r - U * of_int \<lfloor>b\<rfloor> \<ge> 0" "r - U * of_int \<lfloor>b\<rfloor> < U"
proof -
  have "U * of_int \<lfloor>b\<rfloor> \<le> U * b" "U * b < U * (of_int \<lfloor>b\<rfloor> + 1)"
    using assms(1) by (auto intro!: mult_left_mono mult_strict_left_mono)
  moreover have "U * b = r" using assms(1) by (simp add: b_def)
  ultimately show "r - U * of_int \<lfloor>b\<rfloor> \<ge> 0" "r - U * of_int \<lfloor>b\<rfloor> < U" by (simp_all add: distrib_left)
qed

lemma target_index_floor:
  assumes "0 < b" "b < real n"
  shows "b \<le> of_int \<lfloor>b\<rfloor> + 999 / 1000 \<Longrightarrow> soec_target_index b n = nat \<lfloor>b\<rfloor>"
    and "of_int \<lfloor>b\<rfloor> + 999 / 1000 < b \<Longrightarrow> soec_target_index b n = nat (\<lfloor>b\<rfloor> + 1)"
proof -
  have f: "0 \<le> \<lfloor>b\<rfloor>" "\<lfloor>b\<rfloor> < int n" using assms by linarith+
  have small: "b = of_int \<lfloor>b\<rfloor> \<Longrightarrow> 1 / 100 < b"
  proof -
    assume e: "b = of_int \<lfloor>b\<rfloor>"
    then have "0 < \<lfloor>b\<rfloor>" using assms(1) by (metis of_int_0_less_iff)
    then have "(1::real) \<le> of_int \<lfloor>b\<rfloor>" by simp
    then show "1 / 100 < b" using e by linarith
  qed
  show "soec_target_index b n = nat \<lfloor>b\<rfloor>" if "b \<le> of_int \<lfloor>b\<rfloor> + 999 / 1000"
  proof (cases "b = of_int \<lfloor>b\<rfloor>")
    case True
    then show ?thesis using f small assms(1) by (simp add: soec_target_index_def py_int_nonneg Let_def)
  next
    case False
    have "\<not> \<bar>b - of_int (\<lfloor>b\<rfloor> + 1)\<bar> < 1 / 1000" using that by (simp add: abs_real_def)
    then show ?thesis using False f assms(1) by (simp add: soec_target_index_def py_int_nonneg Let_def)
  qed
  show "soec_target_index b n = nat (\<lfloor>b\<rfloor> + 1)" if h: "of_int \<lfloor>b\<rfloor> + 999 / 1000 < b"
  proof -
    have "b \<noteq> of_int \<lfloor>b\<rfloor>" "\<bar>b - of_int (\<lfloor>b\<rfloor> + 1)\<bar> < 1 / 1000" "1 / 100 < b"
    proof -
      have "0 \<le> (of_int \<lfloor>b\<rfloor> :: real)" using f(1) by simp
      then show "1 / 100 < b" using h by linarith
      show "b \<noteq> of_int \<lfloor>b\<rfloor>" using h by linarith
      have "b < of_int \<lfloor>b\<rfloor> + 1" by linarith
      then show "\<bar>b - of_int (\<lfloor>b\<rfloor> + 1)\<bar> < 1 / 1000" using h by simp
    qed
    then show ?thesis using f assms(1) by (simp add: soec_target_index_def py_int_nonneg Let_def add.commute)
  qed
qed

text \<open>
  The limits meet the setpoint: for a setpoint within the plant's rating that is not a hair below a
  multiple of the module rating, the limits of all modules add up to it, up to the band the last module
  may not use below it and the standby power of the idle modules above it.
\<close>

theorem soec_limits_meet_setpoint:
  assumes "soec_params U sb fs ramp" and "0.01 \<le> reference" and "reference < real n * U"
    and "reference / U \<le> of_int \<lfloor>reference / U\<rfloor> + 999 / 1000"
  shows "\<exists>ls. soec_limits reference difference 0 U sb fs n = Inr ls
    \<and> - (fs - sb) \<le> sum_list ls - reference \<and> sum_list ls - reference \<le> real n * sb
    \<and> (fs \<le> reference - U * of_int \<lfloor>reference / U\<rfloor> \<longrightarrow>
        sum_list ls = reference + (real n - of_int \<lfloor>reference / U\<rfloor> - 1) * sb)"
proof -
  define b where "b = reference / U"
  define rest where "rest = reference - U * of_int \<lfloor>b\<rfloor>"
  have p: "0 < U" "0 \<le> sb" "sb \<le> fs" "0 < reference" using assms(1,2) by (auto simp: soec_params_def)
  have b: "0 < b" "b < real n" using p assms(3) by (simp_all add: b_def pos_divide_less_eq)
  have k: "0 \<le> \<lfloor>b\<rfloor>" "nat \<lfloor>b\<rfloor> < n" using b by linarith+
  have idx: "soec_target_index b n = nat \<lfloor>b\<rfloor>" using target_index_floor(1) [OF b] assms(4) by (simp add: b_def)
  define l where "l = max sb (soec_new_limit reference b U sb fs)"
  have rest: "0 \<le> rest" "rest < U" unfolding rest_def b_def using fdiv_split [of U reference] p by simp_all
  have l: "- (fs - sb) \<le> l - rest" "l - rest \<le> sb" "fs \<le> rest \<Longrightarrow> l = rest"
    using p rest unfolding l_def soec_new_limit_def py_int_nonneg [OF less_imp_le [OF b(1)]] Let_def
    by (auto simp: rest_def [symmetric])
  let ?ls = "replicate (nat \<lfloor>b\<rfloor>) U @ [l] @ replicate (n - nat \<lfloor>b\<rfloor> - 1) sb"
  have "soec_limits reference difference 0 U sb fs n = Inr ?ls"
    using p assms(2) k idx by (simp add: soec_limits_def fdiv_ok b_def [symmetric] Let_def l_def)
  moreover have "real (n - nat \<lfloor>b\<rfloor> - 1) = real n - of_int \<lfloor>b\<rfloor> - 1" using k by (simp add: of_nat_diff)
  then have s: "sum_list ?ls = of_int \<lfloor>b\<rfloor> * U + l + (real n - of_int \<lfloor>b\<rfloor> - 1) * sb"
    using sum_stepped [OF k(2), of U l sb] k(1) by simp
  have r: "reference = of_int \<lfloor>b\<rfloor> * U + rest" by (simp add: rest_def)
  have "0 \<le> (real n - of_int \<lfloor>b\<rfloor> - 1) * sb" "(real n - of_int \<lfloor>b\<rfloor> - 1) * sb \<le> real n * sb - sb"
  proof -
    have "0 \<le> real n - of_int \<lfloor>b\<rfloor> - 1" using k by linarith
    then show "0 \<le> (real n - of_int \<lfloor>b\<rfloor> - 1) * sb" using p by simp
    have "(real n - of_int \<lfloor>b\<rfloor> - 1) * sb \<le> (real n - 1) * sb" using k p by (intro mult_right_mono) auto
    then show "(real n - of_int \<lfloor>b\<rfloor> - 1) * sb \<le> real n * sb - sb" by (simp add: left_diff_distrib)
  qed
  ultimately show ?thesis unfolding b_def [symmetric] rest_def [symmetric]
    using l s r by (intro exI [of _ ?ls]) auto
qed

theorem soec_limits_meet_setpoint_witness:
  "\<exists>ls. soec_limits 5 1 0 2.4 0 0.1 4 = Inr ls \<and> - 0.1 \<le> sum_list ls - 5 \<and> sum_list ls - 5 \<le> 0"
proof -
  have "\<lfloor>5 / (24 / 10) :: real\<rfloor> = 2" by (simp add: floor_eq_iff)
  then show ?thesis
    using soec_limits_meet_setpoint [of "24 / 10" 0 "1 / 10" 1 5 4 1] by (auto simp: soec_params_def)
qed

text \<open>
  A setpoint a hair below a multiple of the module rating is dispatched twice: the module count is
  rounded up to the next module while the remainder is still measured from the multiple below, so
  the limits add up to a full module rating more than the setpoint.
\<close>

theorem soec_snap_overshoots:
  assumes "soec_params U sb fs ramp" and "0.01 \<le> reference" and "reference < real n * U - U"
    and "of_int \<lfloor>reference / U\<rfloor> + 999 / 1000 < reference / U" and "fs \<le> 999 / 1000 * U"
  shows "\<exists>ls. soec_limits reference difference 0 U sb fs n = Inr ls \<and> reference + U \<le> sum_list ls"
proof -
  define b where "b = reference / U"
  have p: "0 < U" "0 \<le> sb" "sb \<le> fs" "0 < reference" using assms(1,2) by (auto simp: soec_params_def)
  have b: "0 < b" "b < real n - 1" using p assms(3) by (simp_all add: b_def pos_divide_less_eq left_diff_distrib)
  have k: "0 \<le> \<lfloor>b\<rfloor>" "nat (\<lfloor>b\<rfloor> + 1) < n" using b by linarith+
  have idx: "soec_target_index b n = nat (\<lfloor>b\<rfloor> + 1)"
    using target_index_floor(2) [of b n] b assms(4) by (simp add: b_def)
  have "U * (of_int \<lfloor>b\<rfloor> + 999 / 1000) < U * b" using assms(4) p(1) by (intro mult_strict_left_mono) (simp_all add: b_def)
  moreover have "U * b = reference" using p by (simp add: b_def)
  ultimately have rest: "fs \<le> reference - U * of_int \<lfloor>b\<rfloor>" using assms(5) by (simp add: distrib_left)
  then have lim: "max sb (soec_new_limit reference b U sb fs) = reference - U * of_int \<lfloor>b\<rfloor>"
    using p b by (simp add: soec_new_limit_def py_int_nonneg Let_def)
  let ?ls = "replicate (nat (\<lfloor>b\<rfloor> + 1)) U @ [reference - U * of_int \<lfloor>b\<rfloor>] @ replicate (n - nat (\<lfloor>b\<rfloor> + 1) - 1) sb"
  have "soec_limits reference difference 0 U sb fs n = Inr ?ls"
    using p assms(2) k idx lim by (simp add: soec_limits_def fdiv_ok b_def [symmetric] Let_def)
  moreover have "reference + U \<le> sum_list ?ls"
    using sum_stepped [OF k(2), of U "reference - U * of_int \<lfloor>b\<rfloor>" sb] k(1) p by (simp add: algebra_simps)
  ultimately show ?thesis by blast
qed

theorem soec_snap_overshoots_witness:
  "\<exists>ls. soec_limits 2.399 1 0 2.4 0 0.1 4 = Inr ls \<and> 4.799 \<le> sum_list ls"
proof -
  have "\<lfloor>2399 / 1000 / (24 / 10) :: real\<rfloor> = 0" by (simp add: floor_eq_iff)
  then show ?thesis
    using soec_snap_overshoots [of "24 / 10" 0 "1 / 10" 1 "2399 / 1000" 4 1] by (simp add: soec_params_def)
qed

text \<open>
  A minimum plant power drives a module past its rating: the minimum is taken off when the modules
  are counted but not from the limit of the last one, so a plant of one module at its rated power,
  asked for more by less than the minimum, is ramped beyond the rating.
\<close>

theorem soec_minimum_overdrives:
  assumes "soec_params U sb fs ramp" and "0 < ramp" and "U + 0.01 \<le> reference" and "sb + 0.01 \<le> U"
    and "0 < reference - mn" and "reference - mn \<le> 0.999 * U"
  shows "\<exists>p s l. simulate_soec_step_jit reference [U] [4] [U] [0] U sb fs ramp mn = Inr ([p], [s], [l]) \<and> U < p"
proof -
  define b where "b = (reference - mn) / U"
  have p: "0 < U" "0 \<le> sb" "sb \<le> fs" "fs \<le> U" using assms(1) by (auto simp: soec_params_def)
  have b: "0 < b" "b \<le> 999 / 1000" using p assms(5,6) by (simp_all add: b_def pos_divide_le_eq)
  then have f: "\<lfloor>b\<rfloor> = 0" by (simp add: floor_eq_iff)
  have idx: "soec_target_index b 1 = 0" using target_index_floor(1) [of b 1] b f by simp
  have "max sb (soec_new_limit reference b U sb fs) = reference"
    using p b assms(3) f by (simp add: soec_new_limit_def py_int_nonneg Let_def)
  then have "soec_limits reference (reference - U) mn U sb fs 1 = Inr [reference]"
    using p assms(3,5) idx by (simp add: soec_limits_def fdiv_ok b_def [symmetric] Let_def max_def)
  moreover have "U < soec_power sb fs ramp reference U"
    using p assms(2-4) by (simp add: soec_power_def Let_def min_def)
  ultimately show ?thesis using assms(3) p
    by (auto simp: simulate_soec_step_jit_def aget_def aset_def py_index_def)
qed

theorem soec_minimum_overdrives_witness:
  "\<exists>p s l. simulate_soec_step_jit 3 [2.4] [4] [2.4] [0] 2.4 0 0.1 0.24 1 = Inr ([p], [s], [l]) \<and> 2.4 < p"
  using soec_minimum_overdrives [of "24 / 10" 0 "1 / 10" "24 / 100" 3 1] by (simp add: soec_params_def)

text \<open>
  For modules rated above 10 MW the same rounding indexes past the limits on the way down: lowering
  a plant of one module at full power by at least 10 kW but less than a thousandth of the rating fails.
\<close>

theorem soec_ramp_down_out_of_range:
  assumes "0.01 \<le> delta" and "1000 * delta < U"
  shows "simulate_soec_step_jit (U - delta) [U] [4] [U] [0] U sb fs ramp 0 = Inl IndexError"
proof -
  define b where "b = (U - delta) / U"
  have p: "0 < U" "0 < delta" using assms by auto
  have b: "999 / 1000 < b" "b < 1" using p assms by (simp_all add: b_def field_simps)
  then have f: "\<lfloor>b\<rfloor> = 0" by (simp add: floor_eq_iff)
  have idx: "soec_target_index b 1 = 1" using target_index_floor(2) [of b 1] b f by simp
  have "soec_limits (U - delta) (- delta) 0 U sb fs 1 = Inl IndexError"
    using p assms idx by (simp add: soec_limits_def fdiv_ok b_def [symmetric] Let_def max_def)
  then show ?thesis using assms by (simp add: simulate_soec_step_jit_def aget_def py_index_def Let_def)
qed

theorem soec_ramp_down_out_of_range_witness:
  "simulate_soec_step_jit 19.985 [20] [4] [20] [0] 20 0 1 2 0 = Inl IndexError"
  using soec_ramp_down_out_of_range [of "15 / 1000" 20 0 1 2] by simp

end
