(* ===== verification/Thermo.thy ===== *)
theory Thermo
  imports Interp
begin

text \<open>
  Fluid property kernels of the core module: dissolved gas, composition, stream and mixture enthalpy and
  heat capacity, saturation pressure and liquid temperature of water, and the single-condensable flash.
\<close>

section \<open>Constants\<close>

definition GAS_CP_COEFFS :: "real list list" where
  "GAS_CP_COEFFS = [
     [29.11, - 0.1916 / 10 ^ 2, 0.4003 / 10 ^ 5, - 0.8704 / 10 ^ 9, 0],
     [29.96, 4.18 / 10 ^ 3, - 1.67 / 10 ^ 6, 0, 0],
     [28.98, - 0.1571 / 10 ^ 2, 0.8081 / 10 ^ 5, - 2.873 / 10 ^ 9, 0],
     [22.26, 5.98 / 10 ^ 2, - 3.50 / 10 ^ 5, 7.47 / 10 ^ 9, 0],
     [19.89, 5.02 / 10 ^ 2, 1.27 / 10 ^ 5, - 1.10 / 10 ^ 8, 0],
     [32.24, 1.92 / 10 ^ 3, 1.06 / 10 ^ 5, - 3.60 / 10 ^ 9, 0],
     [29.14, - 0.1571 / 10 ^ 2, 0.8081 / 10 ^ 5, - 2.873 / 10 ^ 9, 0]]"

definition GAS_MW :: "real list" where
  "GAS_MW = [2.016, 32, 28.014, 44.01, 16.04, 18.015, 28.01]"

definition LIQ_CP_COEFFS :: "real list" where
  "LIQ_CP_COEFFS = [75.3, 0, 0, 0, 0]"

definition LIQ_MW :: real where
  "LIQ_MW = 18.015"

section \<open>Dissolved gas and composition\<close>

definition calculate_dissolved_gas_mg_kg_jit :: "real \<Rightarrow> real \<Rightarrow> real \<Rightarrow> real \<Rightarrow> real \<Rightarrow> real res" where
  "calculate_dissolved_gas_mg_kg_jit temperature_k gas_partial_pressure_pa species_H298 species_C species_MW_kg_mol =
     (if temperature_k \<le> 0 \<or> gas_partial_pressure_pa \<le> 0 then Inr 0
      else let H_T = species_H298 * exp (species_C * (1 / temperature_k - 1 / 298.15));
               p_atm = gas_partial_pressure_pa / 101325;
               mw_g_mol = species_MW_kg_mol * 1000
           in res_bind (fdiv p_atm H_T) (\<lambda>c_mol_L. Inr (c_mol_L * mw_g_mol * 1000)))"

definition mw_arr :: "real list" where
  "mw_arr = [0.002016, 0.032, 0.028014, 0.04401, 0.01604, 0.018015, 0.02801]"

definition moles_of :: "real list \<Rightarrow> nat \<Rightarrow> real res" where
  "moles_of mass_fracs i =
     res_bind (aget mass_fracs (int i)) (\<lambda>w.
     if w > 0 then res_bind (aget mw_arr (int i)) (\<lambda>mw. fdiv w mw) else Inr 0)"

definition fast_composition_properties :: "real list \<Rightarrow> (real list \<times> real \<times> real) res" where
  "fast_composition_properties mass_fracs =
     (let n = length mass_fracs in
      res_bind (map_res (moles_of mass_fracs) [0..<n]) (\<lambda>moles.
      let total_moles = sum_list moles in
      if total_moles > 1 / 10 ^ 15 then
        fold_range n (\<lambda>i (mole_fracs, M_mix, sum_ylny).
            res_bind (aget moles (int i)) (\<lambda>m.
            if m > 0 then
              let y = m * (1 / total_moles) in
              res_bind (aget mw_arr (int i)) (\<lambda>mw.
              res_bind (np_log y) (\<lambda>ln_y.
              Inr (mole_fracs[i := y], M_mix + y * mw, sum_ylny + y * ln_y)))
            else Inr (mole_fracs, M_mix, sum_ylny)))
          (replicate n 0, 0, 0)
      else Inr (replicate n 0, 0.028, 0)))"

section \<open>Enthalpy and heat capacity\<close>

definition integral_cp :: "real \<Rightarrow> real list \<Rightarrow> real res" where
  "integral_cp t coeffs = (case coeffs of
       [A, B, C, D, E] \<Rightarrow>
         res_bind (fdiv E t) (\<lambda>e. Inr (A * t + B * t ^ 2 / 2 + C * t ^ 3 / 3 + D * t ^ 4 / 4 - e))
     | _ \<Rightarrow> Inl ValueError)"

definition calculate_stream_enthalpy_jit :: "real \<Rightarrow> real list \<Rightarrow> real \<Rightarrow> real res" where
  "calculate_stream_enthalpy_jit T_k mass_fracs h2o_liq_frac =
     res_bind (fold_range (length mass_fracs) (\<lambda>i h_total.
         res_bind (aget mass_fracs (int i)) (\<lambda>w_i.
         if w_i > 1 / 10 ^ 12 then
           res_bind (aget GAS_CP_COEFFS (int i)) (\<lambda>coeffs.
           res_bind (integral_cp T_k coeffs) (\<lambda>h.
           res_bind (integral_cp 298.15 coeffs) (\<lambda>h_ref.
           res_bind (aget GAS_MW (int i)) (\<lambda>mw.
           res_bind (fdiv ((h - h_ref) * 1000) mw) (\<lambda>h_spec.
           Inr (h_total + w_i * h_spec))))))
         else Inr h_total)) 0) (\<lambda>h_total.
     if h2o_liq_frac > 1 / 10 ^ 12 then
       res_bind (integral_cp T_k LIQ_CP_COEFFS) (\<lambda>h.
       res_bind (integral_cp 298.15 LIQ_CP_COEFFS) (\<lambda>h_ref.
       res_bind (fdiv ((h - h_ref) * 1000) LIQ_MW) (\<lambda>h_liq.
       Inr (h_total + h2o_liq_frac * h_liq))))
     else Inr h_total)"

definition cp_row :: "real list list \<Rightarrow> nat \<Rightarrow> (real \<times> real \<times> real \<times> real \<times> real) res" where
  "cp_row m i =
     res_bind (aget2 m (int i) 0) (\<lambda>A. res_bind (aget2 m (int i) 1) (\<lambda>B.
     res_bind (aget2 m (int i) 2) (\<lambda>C. res_bind (aget2 m (int i) 3) (\<lambda>D.
     res_bind (aget2 m (int i) 4) (\<lambda>E. Inr (A, B, C, D, E))))))"

definition delta_enthalpy :: "real \<Rightarrow> real \<Rightarrow> real \<times> real \<times> real \<times> real \<times> real \<Rightarrow> real" where
  "delta_enthalpy T T_ref row = (case row of (A, B, C, D, E) \<Rightarrow>
     if T > 0 \<and> T_ref > 0 then
       A * (T - T_ref) + 0.5 * B * (T ^ 2 - T_ref ^ 2) + (1 / 3) * C * (T ^ 3 - T_ref ^ 3)
       + 0.25 * D * (T ^ 4 - T_ref ^ 4) - E * (1 / T - 1 / T_ref)
     else 0)"

definition calculate_mixture_enthalpy ::
    "real \<Rightarrow> real list \<Rightarrow> real list \<Rightarrow> real list list \<Rightarrow> real \<Rightarrow> real res" where
  "calculate_mixture_enthalpy temperature mole_fractions h_formations cp_coeffs_matrix T_ref =
     fold_range (length mole_fractions) (\<lambda>i h_mix.
       res_bind (aget mole_fractions (int i)) (\<lambda>y.
       if y < 1 / 10 ^ 12 then Inr h_mix
       else res_bind (aget h_formations (int i)) (\<lambda>h_form.
         res_bind (cp_row cp_coeffs_matrix i) (\<lambda>row.
         Inr (h_mix + y * (h_form + delta_enthalpy temperature T_ref row)))))) 0"

definition species_cp :: "real \<Rightarrow> real \<times> real \<times> real \<times> real \<times> real \<Rightarrow> real" where
  "species_cp T row = (case row of (A, B, C, D, E) \<Rightarrow>
     A + B * T + C * T ^ 2 + D * T ^ 3 + (if T > 0 then E / T ^ 2 else 0))"

definition calculate_mixture_cp :: "real \<Rightarrow> real list \<Rightarrow> real list list \<Rightarrow> real res" where
  "calculate_mixture_cp temperature mole_fractions cp_coeffs_matrix =
     fold_range (length mole_fractions) (\<lambda>i cp_mix.
       res_bind (aget mole_fractions (int i)) (\<lambda>y.
       if y < 1 / 10 ^ 12 then Inr cp_mix
       else res_bind (cp_row cp_coeffs_matrix i) (\<lambda>row. Inr (cp_mix + y * species_cp temperature row)))) 0"

section \<open>Water\<close>

definition calculate_water_psat_jit :: "real \<Rightarrow> real res" where
  "calculate_water_psat_jit T_k =
     (let (A, B, C) = (if T_k < 373.15 then (5.40221, 1838.675, - 31.737) else (5.20389, 1733.926, - 39.485))
      in res_bind (fdiv B (T_k + C)) (\<lambda>q. res_bind (fpow 10 (A - q)) (\<lambda>p_bar. Inr (p_bar * 100000))))"

definition water_T_step :: "real \<Rightarrow> real \<Rightarrow> (real, real) ctl" where
  "water_T_step target_h_j_kg T_iter =
     (let h_calc = 4184 * (T_iter - 273.15);
          error = h_calc - target_h_j_kg
      in if \<bar>error\<bar> < 0.01 * 4184 then Return T_iter
         else let T1 = T_iter - error / 4184;
                  T2 = (if T1 < 273.15 then 273.15 else T1);
                  T3 = (if T2 > 647 then 647 else T2)
              in Next T3)"

definition solve_water_T_from_H_jit :: "real \<Rightarrow> real \<Rightarrow> real \<Rightarrow> real res" where
  "solve_water_T_from_H_jit target_h_j_kg P_pa T_guess_k =
     res_bind (for_range 10 (\<lambda>_ T_iter. Inr (water_T_step target_h_j_kg T_iter)) T_guess_k) (\<lambda>c.
       case c of Next T \<Rightarrow> Inr T | Break T \<Rightarrow> Inr T | Return T \<Rightarrow> Inr T)"

section \<open>Flash with one condensable species\<close>

definition solve_rachford_rice_single_condensable :: "real \<Rightarrow> real \<Rightarrow> real res" where
  "solve_rachford_rice_single_condensable z_condensable K_value =
     (if K_value \<ge> 1 then Inr 1
      else if z_condensable < 1 / 10 ^ 12 then Inr 1
      else if z_condensable \<le> K_value then Inr 1
      else res_bind (fdiv (1 - z_condensable) (1 - K_value)) (\<lambda>beta.
        Inr (if beta < 0 then 0 else if beta > 1 then 1 else beta)))"

section \<open>Loops that add up\<close>

lemma fold_from_sum:
  fixes s :: real
  shows "(\<And>j s. i \<le> j \<Longrightarrow> j < i + n \<Longrightarrow> body j s = Inr (s + f j)) \<Longrightarrow>
    fold_from i n body s = Inr (s + (\<Sum>j = i..<i + n. f j))"
proof (induction n arbitrary: i s)
  case (Suc n)
  have "fold_from (Suc i) n body (s + f i) = Inr (s + f i + (\<Sum>j = Suc i..<Suc i + n. f j))"
    by (rule Suc.IH) (use Suc.prems in auto)
  then show ?case using Suc.prems [of i s] by (simp add: sum.atLeast_Suc_lessThan)
qed simp

lemma fold_range_sum:
  assumes "\<And>j s. j < n \<Longrightarrow> body j s = Inr (s + f j)"
  shows "fold_range n body (0::real) = Inr (\<Sum>j < n. f j)"
  using fold_from_sum [of 0 n body f 0] assms by (simp add: lessThan_atLeast0)

section \<open>Water and flash\<close>

lemma water_T_settles:
  assumes "\<not> \<bar>4184 * (T - 273.15) - h\<bar> < 0.01 * 4184"
  shows "water_T_step h T = Next (clamp 273.15 647 (273.15 + h / 4184))"
  using assms by (simp add: water_T_step_def clamp_def Let_def diff_divide_distrib)

lemma water_T_stays:
  "water_T_step h (clamp 273.15 647 (273.15 + h / 4184)) \<in>
    {Next (clamp 273.15 647 (273.15 + h / 4184)), Return (clamp 273.15 647 (273.15 + h / 4184))}"
  using water_T_settles [of "clamp 273.15 647 (273.15 + h / 4184)" h]
  by (cases "\<bar>4184 * (clamp 273.15 647 (273.15 + h / 4184) - 273.15) - h\<bar> < 0.01 * 4184")
    (auto simp: water_T_step_def)

lemma for_from_fixed:
  assumes "\<And>i. body i s \<in> {Inr (Next s), Inr (Return s)}"
  shows "for_from i n body s \<in> {Inr (Next s), Inr (Return s)}"
  by (induction n arbitrary: i) (use assms in fastforce)+

text \<open>
  The liquid-water solver always returns in its ten iterations, and what it returns is known in
  closed form: the guess when it already fits to a hundredth of a kelvin, otherwise the exact
  temperature of the linear model, clamped to the liquid range.
\<close>

theorem water_T_from_H_closed_form:
  "solve_water_T_from_H_jit h P T =
    Inr (if \<bar>4184 * (T - 273.15) - h\<bar> < 0.01 * 4184 then T else clamp 273.15 647 (273.15 + h / 4184))"
proof (cases "\<bar>4184 * (T - 273.15) - h\<bar> < 0.01 * 4184")
  case True
  then show ?thesis by (simp add: solve_water_T_from_H_jit_def water_T_step_def numeral_eq_Suc)
next
  case False
  let ?T = "clamp 273.15 647 (273.15 + h / 4184)"
  let ?b = "\<lambda>_ T_iter. Inr (water_T_step h T_iter)"
  have "for_from 0 (Suc 9) ?b T = for_from 1 9 ?b ?T"
    by (simp only: for_from.simps water_T_settles [OF False] res_bind.simps ctl.case One_nat_def)
  moreover have "for_from 1 9 ?b ?T \<in> {Inr (Next ?T), Inr (Return ?T)}"
    using water_T_stays [of h] by (intro for_from_fixed) auto
  ultimately show ?thesis using False by (auto simp: solve_water_T_from_H_jit_def numeral_eq_Suc)
qed

text \<open>
  The flash is exact: for any feed the vapour fraction is between 0 and 1; unless the feed is
  superheated or undersaturated, pure liquid and vapour of composition K in that proportion are the
  feed, and the fraction reaches 1 as the feed approaches saturation.
\<close>

theorem rachford_rice_balances:
  assumes "0 \<le> z" "z \<le> 1"
  shows "\<exists>beta. solve_rachford_rice_single_condensable z K = Inr beta \<and> 0 \<le> beta \<and> beta \<le> 1
    \<and> (K < z \<and> 1 / 10 ^ 12 \<le> z \<longrightarrow> beta * K + (1 - beta) * 1 = z \<and> beta < 1)
    \<and> (z \<le> K \<longrightarrow> beta = 1)"
proof -
  define beta where "beta = (1 - z) / (1 - K)"
  have "0 \<le> beta" "beta < 1" "beta * K + (1 - beta) = z" if "K < z"
  proof -
    have "beta * (1 - K) = 1 - z" using assms that by (simp add: beta_def)
    then show "beta * K + (1 - beta) = z" by (simp add: algebra_simps)
  qed (use assms that in \<open>simp_all add: beta_def pos_divide_less_eq\<close>)
  then show ?thesis using assms
    by (cases "K < z")
      (auto simp: solve_rachford_rice_single_condensable_def fdiv_ok beta_def [symmetric])
qed

theorem rachford_rice_balances_witness:
  "\<exists>beta. solve_rachford_rice_single_condensable 0.5 0.2 = Inr beta \<and> beta * 0.2 + (1 - beta) * 1 = 0.5"
  using rachford_rice_balances [of "1 / 2" "1 / 5"] by auto

text \<open>
  The saturation pressure is not monotone: it rises with temperature on each of its two ranges, but
  where they meet, at 373.15 K, it falls, by over two percent within a hundredth of a kelvin.
\<close>

lemma psat_value:
  "calculate_water_psat_jit T = (if T < 373.15 then
      (if T = 31.737 then Inl ZeroDivisionError else Inr (10 powr (5.40221 - 1838.675 / (T - 31.737)) * 100000))
    else Inr (10 powr (5.20389 - 1733.926 / (T - 39.485)) * 100000))"
  by (simp add: calculate_water_psat_jit_def fdiv_def fpow_pos)

theorem water_psat_drops_at_boiling:
  assumes "273.15 \<le> T" "T < T'" and "T' < 373.15 \<or> 373.15 \<le> T"
  shows "\<exists>p p' p1 p2. calculate_water_psat_jit T = Inr p \<and> calculate_water_psat_jit T' = Inr p' \<and> p < p'
    \<and> calculate_water_psat_jit 373.14 = Inr p1 \<and> calculate_water_psat_jit 373.15 = Inr p2 \<and> p2 < p1"
proof -
  have "5.40221 - 1838.675 / (T - 31.737) < 5.40221 - 1838.675 / (T' - 31.737)"
    "5.20389 - 1733.926 / (T - 39.485) < 5.20389 - 1733.926 / (T' - 39.485)"
    using assms(1,2) by (simp_all add: divide_strict_left_mono)
  moreover have "(5.20389 :: real) - 1733.926 / (373.15 - 39.485) < 5.40221 - 1838.675 / (373.14 - 31.737)" by simp
  ultimately show ?thesis using assms by (auto simp: psat_value powr_less_cancel_iff simp del: less_divide_eq_numeral1 divide_less_eq_numeral1)
qed

theorem water_psat_drops_at_boiling_witness:
  "\<exists>p1 p2. calculate_water_psat_jit 373.14 = Inr p1 \<and> calculate_water_psat_jit 373.15 = Inr p2 \<and> p2 < p1"
  using water_psat_drops_at_boiling [of 300 310] by auto

section \<open>Enthalpy and heat capacity fit together\<close>

lemma delta_enthalpy_derivative:
  assumes "0 < T" "0 < T_ref"
  shows "((\<lambda>t. delta_enthalpy t T_ref row) has_real_derivative species_cp T row) (at T)"
proof -
  obtain A B C D E where r: "row = (A, B, C, D, E)" by (metis prod_cases5)
  let ?f = "\<lambda>t. A * (t - T_ref) + 0.5 * B * (t ^ 2 - T_ref ^ 2) + (1 / 3) * C * (t ^ 3 - T_ref ^ 3)
       + 0.25 * D * (t ^ 4 - T_ref ^ 4) - E * (1 / t - 1 / T_ref)"
  have "(?f has_real_derivative species_cp T row) (at T)"
    using assms(1) unfolding r species_cp_def prod.case
    by (auto intro!: derivative_eq_intros simp: field_simps power2_eq_square)
  then show ?thesis
    by (rule has_field_derivative_transform_within [of _ _ _ UNIV T]) (use assms in \<open>auto simp: delta_enthalpy_def r dist_real_def abs_real_def split: if_splits\<close>)
qed

definition cp_of :: "real list list \<Rightarrow> nat \<Rightarrow> real \<times> real \<times> real \<times> real \<times> real" where
  "cp_of m i = (m ! i ! 0, m ! i ! 1, m ! i ! 2, m ! i ! 3, m ! i ! 4)"

definition cp_table :: "nat \<Rightarrow> real list list \<Rightarrow> bool" where
  "cp_table n m \<longleftrightarrow> n \<le> length m \<and> (\<forall>row \<in> set m. 5 \<le> length row)"

lemma cp_row_value: "cp_table n m \<Longrightarrow> i < n \<Longrightarrow> cp_row m i = Inr (cp_of m i)"
proof -
  assume "cp_table n m" "i < n"
  then have "i < length m" "5 \<le> length (m ! i)" "m ! i \<noteq> []" by (auto simp: cp_table_def) (metis list.size(3) not_numeral_le_zero nth_mem order_less_le_trans)
  then show ?thesis by (simp add: cp_row_def cp_of_def aget2_def aget_nonneg)
qed

definition mix_enthalpy :: "real list \<Rightarrow> real list \<Rightarrow> real list list \<Rightarrow> real \<Rightarrow> real \<Rightarrow> real" where
  "mix_enthalpy ys hs m T_ref T =
     (\<Sum>i < length ys. if ys ! i < 1 / 10 ^ 12 then 0 else ys ! i * (hs ! i + delta_enthalpy T T_ref (cp_of m i)))"

definition mix_cp :: "real list \<Rightarrow> real list list \<Rightarrow> real \<Rightarrow> real" where
  "mix_cp ys m T = (\<Sum>i < length ys. if ys ! i < 1 / 10 ^ 12 then 0 else ys ! i * species_cp T (cp_of m i))"

lemma mixture_enthalpy_value:
  assumes "cp_table (length ys) m" "length ys \<le> length hs"
  shows "calculate_mixture_enthalpy T ys hs m T_ref = Inr (mix_enthalpy ys hs m T_ref T)"
  unfolding calculate_mixture_enthalpy_def mix_enthalpy_def
  by (rule fold_range_sum) (use assms cp_row_value [OF assms(1)] in \<open>auto simp: aget_nat\<close>)

lemma mixture_cp_value:
  assumes "cp_table (length ys) m"
  shows "calculate_mixture_cp T ys m = Inr (mix_cp ys m T)"
  unfolding calculate_mixture_cp_def mix_cp_def
  by (rule fold_range_sum) (use cp_row_value [OF assms] in \<open>auto simp: aget_nat\<close>)

lemma mix_enthalpy_slope:
  assumes "0 < T" and "0 < T_ref"
  shows "(mix_enthalpy ys hs m T_ref has_real_derivative mix_cp ys m T) (at T)"
proof -
  have "((\<lambda>t. if ys ! i < 1 / 10 ^ 12 then 0 else ys ! i * (hs ! i + delta_enthalpy t T_ref (cp_of m i)))
      has_real_derivative (if ys ! i < 1 / 10 ^ 12 then 0 else ys ! i * species_cp T (cp_of m i))) (at T)" for i
    using delta_enthalpy_derivative [OF assms, of "cp_of m i"]
    by (cases "ys ! i < 1 / 10 ^ 12") (auto intro!: derivative_eq_intros)
  then show ?thesis unfolding mix_enthalpy_def mix_cp_def by (intro DERIV_sum) auto
qed

text \<open>
  The two mixture kernels fit together: both return, the enthalpy at the reference temperature is
  the mole-weighted heat of formation, and at every positive temperature the heat capacity kernel gives
  exactly the derivative of the enthalpy kernel.
\<close>

theorem mixture_cp_is_enthalpy_slope:
  assumes "cp_table (length ys) m" and "length ys \<le> length hs" and "0 < T" and "0 < T_ref"
  shows "\<exists>H cp. (\<forall>t. calculate_mixture_enthalpy t ys hs m T_ref = Inr (H t))
    \<and> calculate_mixture_cp T ys m = Inr cp \<and> (H has_real_derivative cp) (at T)
    \<and> H T_ref = (\<Sum>i < length ys. if ys ! i < 1 / 10 ^ 12 then 0 else ys ! i * hs ! i)"
proof -
  have "delta_enthalpy T_ref T_ref row = 0" for row by (cases row) (simp add: delta_enthalpy_def)
  then have "mix_enthalpy ys hs m T_ref T_ref = (\<Sum>i < length ys. if ys ! i < 1 / 10 ^ 12 then 0 else ys ! i * hs ! i)"
    unfolding mix_enthalpy_def by (intro sum.cong) auto
  then show ?thesis
    using mixture_enthalpy_value [OF assms(1,2)] mixture_cp_value [OF assms(1)] mix_enthalpy_slope [OF assms(3,4)] by blast
qed

theorem mixture_cp_is_enthalpy_slope_witness:
  "\<exists>H cp. (\<forall>t. calculate_mixture_enthalpy t [0.4, 0.6] [0, - 241826] [GAS_CP_COEFFS ! 0, GAS_CP_COEFFS ! 5] 298.15 = Inr (H t))
    \<and> calculate_mixture_cp 500 [0.4, 0.6] [GAS_CP_COEFFS ! 0, GAS_CP_COEFFS ! 5] = Inr cp
    \<and> (H has_real_derivative cp) (at 500)"
proof -
  have "cp_table (length [0.4, 0.6 :: real]) [GAS_CP_COEFFS ! 0, GAS_CP_COEFFS ! 5]"
    by (simp add: cp_table_def GAS_CP_COEFFS_def)
  from mixture_cp_is_enthalpy_slope [OF this, of "[0, - 241826]" 500 "298.15"] show ?thesis by auto
qed

section \<open>Stream enthalpy\<close>

lemma scaled_bound:
  fixes q :: real
  assumes "0 \<le> x" "x \<le> m" "q \<le> q'"
  shows "m * min 0 q \<le> x * q'"
proof -
  have "m * min 0 q \<le> x * min 0 q" using assms by (simp add: mult_right_mono_neg)
  also have "\<dots> \<le> x * q'" using assms by (simp add: mult_left_mono)
  finally show ?thesis .
qed

definition cp_rows_positive :: "real list \<Rightarrow> bool" where
  "cp_rows_positive c \<longleftrightarrow> (case c of [A, B, C, D, E] \<Rightarrow>
     E = 0 \<and> 0 < A + 1500 * min 0 (B + 1500 * min 0 (C + 1500 * min 0 D)) | _ \<Rightarrow> False)"

lemma gas_rows_positive: "\<forall>c \<in> set GAS_CP_COEFFS. cp_rows_positive c" "cp_rows_positive LIQ_CP_COEFFS"
  by (simp_all add: cp_rows_positive_def GAS_CP_COEFFS_def LIQ_CP_COEFFS_def)

definition icp :: "real \<Rightarrow> real list \<Rightarrow> real" where
  "icp t c = c ! 0 * t + c ! 1 * t ^ 2 / 2 + c ! 2 * t ^ 3 / 3 + c ! 3 * t ^ 4 / 4"

lemma integral_cp_value: "cp_rows_positive c \<Longrightarrow> t \<noteq> 0 \<Longrightarrow> integral_cp t c = Inr (icp t c)"
  by (auto simp: cp_rows_positive_def integral_cp_def icp_def fdiv_ok split: list.splits)

lemma icp_increasing:
  assumes "cp_rows_positive c" and "0 \<le> T" "T < T'" "T' \<le> 1500"
  shows "icp T c < icp T' c"
proof (rule DERIV_pos_imp_increasing [OF assms(3)])
  fix x assume x: "T \<le> x" "x \<le> T'"
  obtain A B C D where c: "c = [A, B, C, D, 0]" and p: "0 < A + 1500 * min 0 (B + 1500 * min 0 (C + 1500 * min 0 D))"
    using assms(1) by (auto simp: cp_rows_positive_def split: list.splits)
  have r: "0 \<le> x" "x \<le> 1500" using x assms by auto
  have "C + 1500 * min 0 D \<le> C + x * D" using scaled_bound [OF r order.refl, of D] by simp
  then have "B + 1500 * min 0 (C + 1500 * min 0 D) \<le> B + x * (C + x * D)" using scaled_bound [OF r] by simp
  then have "A + 1500 * min 0 (B + 1500 * min 0 (C + 1500 * min 0 D)) \<le> A + x * (B + x * (C + x * D))"
    using scaled_bound [OF r] by simp
  then have "0 < A + x * (B + x * (C + x * D))" using p by simp
  moreover have "((\<lambda>t. icp t c) has_real_derivative A + x * (B + x * (C + x * D))) (at x)"
    unfolding c icp_def by (auto intro!: derivative_eq_intros simp: algebra_simps power2_eq_square power3_eq_cube)
  ultimately show "\<exists>y. ((\<lambda>t. icp t c) has_real_derivative y) (at x) \<and> 0 < y" by blast
qed

definition species_enthalpy :: "real \<Rightarrow> real list \<Rightarrow> nat \<Rightarrow> real" where
  "species_enthalpy T ws i =
     (if ws ! i > 1 / 10 ^ 12
      then ws ! i * ((icp T (GAS_CP_COEFFS ! i) - icp 298.15 (GAS_CP_COEFFS ! i)) * 1000 / GAS_MW ! i) else 0)"

definition liquid_enthalpy :: "real \<Rightarrow> real \<Rightarrow> real" where
  "liquid_enthalpy T l = (if l > 1 / 10 ^ 12
     then l * ((icp T LIQ_CP_COEFFS - icp 298.15 LIQ_CP_COEFFS) * 1000 / LIQ_MW) else 0)"

lemma gas_rows: "length GAS_CP_COEFFS = 7" "length GAS_MW = 7"
  by (simp_all add: GAS_CP_COEFFS_def GAS_MW_def)

lemma gas_mw_positive: "i < 7 \<Longrightarrow> 0 < GAS_MW ! i"
  by (auto simp: GAS_MW_def less_Suc_eq numeral_eq_Suc nth_Cons')

lemma gas_row: "i < 7 \<Longrightarrow> cp_rows_positive (GAS_CP_COEFFS ! i)"
  using gas_rows_positive(1) nth_mem [of i GAS_CP_COEFFS] by (simp add: gas_rows)

lemma stream_enthalpy_value:
  assumes "length ws \<le> 7" and "T \<noteq> 0"
  shows "calculate_stream_enthalpy_jit T ws l = Inr ((\<Sum>i < length ws. species_enthalpy T ws i) + liquid_enthalpy T l)"
proof -
  have "fold_range (length ws) (\<lambda>i h_total.
         res_bind (aget ws (int i)) (\<lambda>w_i.
         if w_i > 1 / 10 ^ 12 then
           res_bind (aget GAS_CP_COEFFS (int i)) (\<lambda>coeffs.
           res_bind (integral_cp T coeffs) (\<lambda>h.
           res_bind (integral_cp 298.15 coeffs) (\<lambda>h_ref.
           res_bind (aget GAS_MW (int i)) (\<lambda>mw.
           res_bind (fdiv ((h - h_ref) * 1000) mw) (\<lambda>h_spec.
           Inr (h_total + w_i * h_spec))))))
         else Inr h_total)) 0 = Inr (\<Sum>i < length ws. species_enthalpy T ws i)"
    using assms gas_mw_positive gas_rows
    by (intro fold_range_sum)
      (simp add: aget_nat species_enthalpy_def integral_cp_value gas_row fdiv_ok less_imp_neq [THEN not_sym])
  then show ?thesis using assms
    by (simp add: calculate_stream_enthalpy_jit_def liquid_enthalpy_def integral_cp_value gas_rows_positive(2)
        LIQ_MW_def fdiv_ok)
qed

lemma species_enthalpy_mono:
  assumes "0 \<le> T" "T < T'" "T' \<le> 1500" "i < 7"
  shows "species_enthalpy T ws i \<le> species_enthalpy T' ws i"
    and "1 / 10 ^ 12 < ws ! i \<Longrightarrow> species_enthalpy T ws i < species_enthalpy T' ws i"
  using icp_increasing [OF gas_row [OF assms(4)] assms(1-3)] gas_mw_positive [OF assms(4)]
  by (auto simp: species_enthalpy_def divide_right_mono divide_strict_right_mono mult_left_mono)

lemma liquid_enthalpy_mono:
  assumes "0 \<le> T" "T < T'" "T' \<le> 1500"
  shows "liquid_enthalpy T l \<le> liquid_enthalpy T' l"
    and "1 / 10 ^ 12 < l \<Longrightarrow> liquid_enthalpy T l < liquid_enthalpy T' l"
  using icp_increasing [OF gas_rows_positive(2) assms]
  by (auto simp: liquid_enthalpy_def LIQ_MW_def divide_right_mono divide_strict_right_mono mult_left_mono)

text \<open>
  Sensible enthalpy is measured from 298.15 K, where every stream has enthalpy 0, and for any stream
  that is not empty it strictly rises with temperature up to 1500 K: the temperature of a stream is
  determined by its enthalpy.
\<close>

theorem stream_enthalpy_increasing:
  assumes "length ws \<le> 7" and "0 < T" "T < T'" "T' \<le> 1500"
    and "1 / 10 ^ 12 < l \<or> (\<exists>w \<in> set ws. 1 / 10 ^ 12 < w)"
  shows "\<exists>h h'. calculate_stream_enthalpy_jit T ws l = Inr h \<and> calculate_stream_enthalpy_jit T' ws l = Inr h'
    \<and> h < h' \<and> calculate_stream_enthalpy_jit 298.15 ws l = Inr 0"
proof -
  let ?s = "\<lambda>T. \<Sum>i < length ws. species_enthalpy T ws i"
  have le: "?s T \<le> ?s T'" using species_enthalpy_mono(1) assms by (intro sum_mono) auto
  have "?s T + liquid_enthalpy T l < ?s T' + liquid_enthalpy T' l"
  proof (cases "1 / 10 ^ 12 < l")
    case True
    then show ?thesis using le liquid_enthalpy_mono(2) [of T T' l] assms by simp
  next
    case False
    then obtain i where i: "i < length ws" "1 / 10 ^ 12 < ws ! i" using assms(5) by (auto simp: in_set_conv_nth)
    have "?s T < ?s T'"
      by (intro sum_strict_mono_ex1 ballI bexI [of _ i])
        (use i species_enthalpy_mono [of T T'] assms in auto)
    then show ?thesis using liquid_enthalpy_mono(1) [of T T' l] assms by simp
  qed
  moreover have "?s 298.15 + liquid_enthalpy 298.15 l = 0"
    by (simp add: species_enthalpy_def liquid_enthalpy_def cong: if_cong)
  ultimately show ?thesis
    using stream_enthalpy_value [OF assms(1), of T l] stream_enthalpy_value [OF assms(1), of T' l]
      stream_enthalpy_value [OF assms(1), of "298.15" l] assms by simp
qed

theorem stream_enthalpy_increasing_witness:
  "\<exists>h h'. calculate_stream_enthalpy_jit 300 [0.9, 0, 0, 0, 0, 0.1] 0 = Inr h
    \<and> calculate_stream_enthalpy_jit 350 [0.9, 0, 0, 0, 0, 0.1] 0 = Inr h' \<and> h < h'"
  using stream_enthalpy_increasing [of "[0.9, 0, 0, 0, 0, 0.1]" 300 350 0] by auto

section \<open>Composition\<close>

definition moles :: "real list \<Rightarrow> nat \<Rightarrow> real" where
  "moles ws i = (if ws ! i > 0 then ws ! i / mw_arr ! i else 0)"

lemma mw_arr_positive: "i < 7 \<Longrightarrow> 0 < mw_arr ! i" and mw_arr_length: "length mw_arr = 7"
  by (auto simp: mw_arr_def less_Suc_eq numeral_eq_Suc nth_Cons')

lemma moles_of_value: "length ws \<le> 7 \<Longrightarrow> i < length ws \<Longrightarrow> moles_of ws i = Inr (moles ws i)"
  using mw_arr_positive [of i] by (simp add: moles_of_def moles_def aget_nat mw_arr_length fdiv_ok)

lemma moles_nonneg: "length ws \<le> 7 \<Longrightarrow> i < length ws \<Longrightarrow> 0 \<le> moles ws i"
  using mw_arr_positive [of i] by (simp add: moles_def)

lemma moles_list:
  assumes "length ws \<le> 7"
  shows "map_res (moles_of ws) [0..<length ws] = Inr (map (moles ws) [0..<length ws])"
proof -
  have "map_res (moles_of ws) is = Inr (map (moles ws) is)" if "\<forall>i \<in> set is. i < length ws" for "is"
    using that moles_of_value [OF assms] by (induction "is") simp_all
  then show ?thesis by simp
qed

lemma composition_value:
  assumes "length ws \<le> 7" and "1 / 10 ^ 15 < (\<Sum>i < length ws. moles ws i)"
  defines "tot \<equiv> (\<Sum>i < length ws. moles ws i)"
  shows "fast_composition_properties ws =
    Inr (map (\<lambda>i. moles ws i / tot) [0..<length ws], (\<Sum>i < length ws. moles ws i / tot * mw_arr ! i),
      (\<Sum>i < length ws. if moles ws i > 0 then moles ws i / tot * ln (moles ws i / tot) else 0))"
proof -
  let ?n = "length ws" and ?y = "\<lambda>i. moles ws i / tot"
  let ?ms = "map (moles ws) [0..<?n]"
  have t: "0 < tot" using assms(2,3) order_less_trans [of 0 "1 / 10 ^ 15 :: real" tot] by simp
  define I where "I = (\<lambda>j st. st = (map ?y [0..<j] @ replicate (?n - j) 0, (\<Sum>i < j. ?y i * mw_arr ! i),
      (\<Sum>i < j. if moles ws i > 0 then ?y i * ln (?y i) else 0)))"
  have s: "sum_list ?ms = tot" by (simp add: tot_def interv_sum_list_conv_sum_set_nat lessThan_atLeast0)
  let ?body = "\<lambda>i (mole_fracs, M_mix, sum_ylny).
            res_bind (aget ?ms (int i)) (\<lambda>m.
            if m > 0 then
              let y = m * (1 / tot) in
              res_bind (aget mw_arr (int i)) (\<lambda>mw.
              res_bind (np_log y) (\<lambda>ln_y.
              Inr (mole_fracs[i := y], M_mix + y * mw, sum_ylny + y * ln_y)))
            else Inr (mole_fracs, M_mix, sum_ylny))"
  have loop: "\<exists>st'. fold_range ?n ?body (replicate ?n 0, 0, 0) = Inr st' \<and> I (0 + ?n) st'"
  proof (rule fold_from_total_inv)
    show "I 0 (replicate ?n 0, 0, 0)" by (simp add: I_def)
    fix j st assume j: "j < 0 + ?n" "I j st"
    have "(map ?y [0..<j] @ replicate (?n - j) 0)[j := v] = map ?y [0..<j] @ v # replicate (?n - Suc j) 0" for v :: real
      using j(1) by (simp add: list_update_append Suc_diff_Suc [symmetric])
    moreover have "replicate (?n - j) 0 = (0 :: real) # replicate (?n - Suc j) 0"
      using j(1) by (simp add: Suc_diff_Suc [symmetric])
    ultimately show "\<exists>st'. ?body j st = Inr st' \<and> I (Suc j) st'"
      using j t assms(1) moles_nonneg [OF assms(1), of j] by (auto simp: I_def aget_nat mw_arr_length np_log_ok Let_def)
  qed
  then have "fold_range ?n ?body (replicate ?n 0, 0, 0) = Inr (map ?y [0..<?n], \<Sum>i < ?n. ?y i * mw_arr ! i,
      \<Sum>i < ?n. if moles ws i > 0 then ?y i * ln (?y i) else 0)"
    by (auto simp: I_def)
  then show ?thesis unfolding fast_composition_properties_def Let_def moles_list [OF assms(1)] res_bind.simps s
    using assms(2) by (simp only: tot_def [symmetric] if_True)
qed

lemma total_moles_large:
  assumes "length ws \<le> 7" and "\<forall>w \<in> set ws. 0 \<le> w" and "\<exists>w \<in> set ws. 1 / 10 ^ 12 \<le> w"
  shows "1 / 10 ^ 15 < (\<Sum>i < length ws. moles ws i)" "0 < sum_list ws"
proof -
  obtain k where k: "k < length ws" "1 / 10 ^ 12 \<le> ws ! k" using assms(3) by (auto simp: in_set_conv_nth)
  have small: "mw_arr ! k \<le> 1" using k(1) assms(1) by (auto simp: mw_arr_def less_Suc_eq numeral_eq_Suc nth_Cons')
  have wk: "0 < ws ! k" using k(2) by (simp add: order_less_le_trans [of 0 "1 / 10 ^ 12"])
  have "0 < mw_arr ! k" using mw_arr_positive assms(1) k(1) by simp
  then have "ws ! k \<le> moles ws k" using small wk by (simp add: moles_def pos_le_divide_eq mult_left_le)
  also have "moles ws k \<le> (\<Sum>i < length ws. moles ws i)"
    using k(1) moles_nonneg [OF assms(1)] by (intro member_le_sum) auto
  finally show "1 / 10 ^ 15 < (\<Sum>i < length ws. moles ws i)" using k(2) by simp
  have "ws ! k \<le> sum_list ws" using k(1) assms(2) by (simp add: member_le_sum_list)
  with wk show "0 < sum_list ws" by simp
qed

lemma moles_mass:
  assumes "length ws \<le> 7" and "\<forall>w \<in> set ws. 0 \<le> w" "i < length ws"
  shows "moles ws i * mw_arr ! i = ws ! i"
proof -
  have "0 < mw_arr ! i" using mw_arr_positive assms(1,3) by simp
  then show ?thesis using assms(2,3) by (force simp: moles_def not_less order.antisym)
qed

lemma mixing_term_nonpos:
  fixes y :: "nat \<Rightarrow> real"
  assumes "\<And>i. i < n \<Longrightarrow> 0 \<le> y i \<and> y i \<le> 1" "\<And>i. i < n \<Longrightarrow> m i > 0 \<Longrightarrow> 0 < y i"
  shows "(\<Sum>i < n. if m i > 0 then y i * ln (y i) else 0) \<le> 0"
proof (rule sum_nonpos)
  fix i assume "i \<in> {..<n}"
  then show "(if m i > 0 then y i * ln (y i) else 0) \<le> 0"
    using assms [of i] by (auto intro: mult_nonneg_nonpos)
qed

text \<open>
  C40: the composition kernel is a proper change of basis: mole fractions are between 0 and 1 and sum to
  1, weighting them by molar mass and dividing by the mean molar mass gives back the share of every
  species in the mass, and the mixing term is never positive.
\<close>

theorem composition_roundtrip:
  assumes "length ws \<le> 7" and "\<forall>w \<in> set ws. 0 \<le> w" and "\<exists>w \<in> set ws. 1 / 10 ^ 12 \<le> w"
  shows "\<exists>ys M s. fast_composition_properties ws = Inr (ys, M, s) \<and> length ys = length ws
    \<and> (\<forall>y \<in> set ys. 0 \<le> y \<and> y \<le> 1) \<and> sum_list ys = 1 \<and> 0 < M \<and> s \<le> 0
    \<and> (\<forall>i < length ws. ys ! i * mw_arr ! i / M = ws ! i / sum_list ws)"
proof -
  define tot where "tot = (\<Sum>i < length ws. moles ws i)"
  let ?n = "length ws" and ?y = "\<lambda>i. moles ws i / tot"
  note nn = moles_nonneg [OF assms(1)] and w = moles_mass [OF assms(1,2)]
  have t: "1 / 10 ^ 15 < tot" using total_moles_large [OF assms] by (simp add: tot_def)
  then have tp: "0 < tot" by (simp add: order_less_trans [of 0 "1 / 10 ^ 15"])
  have y: "0 \<le> ?y i \<and> ?y i \<le> 1" if "i < ?n" for i
  proof -
    have "moles ws i \<le> tot" unfolding tot_def using that nn by (intro member_le_sum) auto
    then show ?thesis using nn that tp by simp
  qed
  define M where "M = (\<Sum>i < ?n. ?y i * mw_arr ! i)"
  have "M * tot = (\<Sum>i < ?n. ws ! i)"
    unfolding M_def sum_distrib_right using w tp by (intro sum.cong) auto
  then have M: "M = sum_list ws / tot" using tp by (simp add: sum_list_sum_nth lessThan_atLeast0 eq_divide_eq)
  then have "0 < M" using total_moles_large(2) [OF assms] tp by simp
  moreover have "(\<Sum>i < ?n. if moles ws i > 0 then ?y i * ln (?y i) else 0) \<le> 0"
    by (rule mixing_term_nonpos) (use y tp in auto)
  moreover have "sum_list (map ?y [0..<?n]) = (\<Sum>i < ?n. moles ws i) / tot"
    by (simp add: interv_sum_list_conv_sum_set_nat lessThan_atLeast0 sum_divide_distrib)
  then have "sum_list (map ?y [0..<?n]) = 1" using tp by (simp add: tot_def [symmetric])
  moreover have "?y i * mw_arr ! i / M = ws ! i / sum_list ws" if "i < ?n" for i
    using w [OF that] tp by (simp add: M)
  moreover have "fast_composition_properties ws = Inr (map ?y [0..<?n], M,
      \<Sum>i < ?n. if moles ws i > 0 then ?y i * ln (?y i) else 0)"
    using composition_value [OF assms(1)] t unfolding tot_def M_def by blast
  moreover have "\<forall>y \<in> set (map ?y [0..<?n]). 0 \<le> y \<and> y \<le> 1" using y by auto
  ultimately show ?thesis
    by (intro exI [of _ "map ?y [0..<?n]"] exI [of _ M] exI conjI) (assumption | simp)+
qed

theorem composition_roundtrip_witness:
  "\<exists>ys M s. fast_composition_properties [0.9, 0, 0.1] = Inr (ys, M, s) \<and> sum_list ys = 1 \<and> s \<le> 0"
  using composition_roundtrip [of "[0.9, 0, 0.1]"] by auto

text \<open>
  The temperature correction of Henry's constant has the wrong sign: with the constants of hydrogen
  and oxygen, and any positive one, the computed solubility grows with the temperature.
\<close>

theorem dissolved_gas_grows_with_temperature:
  assumes "0 < H298" "0 < C" "0 < mw" "0 < p" and "0 < T" "T < T'"
  shows "\<exists>c c'. calculate_dissolved_gas_mg_kg_jit T p H298 C mw = Inr c
    \<and> calculate_dissolved_gas_mg_kg_jit T' p H298 C mw = Inr c' \<and> 0 < c \<and> c < c'"
proof -
  have "1 / T' < 1 / T" using assms by (simp add: frac_less2)
  then have "C * (1 / T' - 1 / 298.15) < C * (1 / T - 1 / 298.15)"
    using assms(2) by (intro mult_strict_left_mono) auto
  then have lt: "p / 101325 / (H298 * exp (C * (1 / T - 1 / 298.15))) * (mw * 1000) * 1000
      < p / 101325 / (H298 * exp (C * (1 / T' - 1 / 298.15))) * (mw * 1000) * 1000" (is "?c T < ?c T'")
    using assms by (intro mult_strict_right_mono divide_strict_left_mono mult_strict_left_mono) auto
  have "calculate_dissolved_gas_mg_kg_jit t p H298 C mw = Inr (?c t)" if "0 < t" for t
    using assms that by (simp add: calculate_dissolved_gas_mg_kg_jit_def fdiv_ok Let_def)
  moreover have "0 < ?c T" using assms by simp
  ultimately show ?thesis using lt assms(5,6) by (intro exI [of _ "?c T"] exI [of _ "?c T'"]) simp
qed

theorem dissolved_gas_grows_with_temperature_witness:
  "\<exists>c c'. calculate_dissolved_gas_mg_kg_jit 300 100000 1300 500 0.002016 = Inr c
    \<and> calculate_dissolved_gas_mg_kg_jit 350 100000 1300 500 0.002016 = Inr c' \<and> c < c'"
  using dissolved_gas_grows_with_temperature [of 1300 500 "0.002016" 100000 300 350] by auto

end
