(* ===== verification/HeatExchange.thy ===== *)
theory HeatExchange
  imports Prelude
begin

text \<open>
  Heat transfer kernels: effectiveness of the dry cooler and of the counter-flow exchanger, Reynolds and
  Nusselt numbers, and the overall coefficient of a fouled tube.
\<close>

section \<open>Kernels\<close>

definition dry_cooler_ntu_effectiveness :: "real \<Rightarrow> real \<Rightarrow> real res" where
  "dry_cooler_ntu_effectiveness ntu r =
     (if ntu \<le> 0 then Inr 0
      else if \<bar>r - 1\<bar> < 1 / 10 ^ 6 then fdiv ntu (1 + ntu)
      else let term = exp (- ntu * (1 + r)) in fdiv (1 - term) (1 + r * term))"

definition counter_flow_ntu_effectiveness :: "real \<Rightarrow> real \<Rightarrow> real res" where
  "counter_flow_ntu_effectiveness ntu r =
     (if ntu \<le> 0 then Inr 0
      else if \<bar>r - 1\<bar> < 1 / 10 ^ 6 then fdiv ntu (1 + ntu)
      else let term = exp (- ntu * (1 - r)) in fdiv (1 - term) (1 - r * term))"

definition calculate_reynolds_flux :: "real \<Rightarrow> real \<Rightarrow> real \<Rightarrow> real \<Rightarrow> real res" where
  "calculate_reynolds_flux mass_flow_kg_s flow_area_m2 d_hydraulic visc_pa_s =
     (if flow_area_m2 \<le> 1 / 10 ^ 9 \<or> visc_pa_s \<le> 1 / 10 ^ 9 then Inr 0
      else res_bind (fdiv mass_flow_kg_s flow_area_m2) (\<lambda>G. fdiv (G * d_hydraulic) visc_pa_s))"

definition calculate_nusselt_dittus_boelter :: "real \<Rightarrow> real \<Rightarrow> bool \<Rightarrow> real res" where
  "calculate_nusselt_dittus_boelter re pr is_heating =
     (if re < 2300 then Inr 3.66
      else res_bind (fpow re 0.8) (\<lambda>a. res_bind (fpow pr (if is_heating then 0.4 else 0.3)) (\<lambda>b.
        Inr (0.023 * a * b))))"

definition calculate_nusselt_crossflow :: "real \<Rightarrow> real \<Rightarrow> real res" where
  "calculate_nusselt_crossflow re pr =
     (if re < 100 then Inr 1
      else res_bind (fpow re 0.63) (\<lambda>a. res_bind (fpow pr 0.33) (\<lambda>b. Inr (0.27 * a * b))))"

definition calculate_dynamic_u_fouled ::
    "real \<Rightarrow> real \<Rightarrow> real \<Rightarrow> real \<Rightarrow> real \<Rightarrow> real \<Rightarrow> real \<Rightarrow> real res" where
  "calculate_dynamic_u_fouled h_in h_out d_in d_out k_wall r_foul_in r_foul_out =
     (if h_in \<le> 1 / 10 ^ 6 \<or> h_out \<le> 1 / 10 ^ 6 then Inr 0
      else if d_in \<le> 0 \<or> d_out < d_in then Inr 0
      else res_bind (if \<bar>d_out - d_in\<bar> < 1 / 10 ^ 9 then res_bind (fdiv 0.002 k_wall) (\<lambda>r_wall. Inr (1, r_wall))
           else res_bind (fdiv d_out d_in) (\<lambda>area_ratio. res_bind (np_log area_ratio) (\<lambda>l.
             res_bind (fdiv (d_out * l) (2 * k_wall)) (\<lambda>r_wall. Inr (area_ratio, r_wall))))) (\<lambda>(area_ratio, r_wall).
      res_bind (fdiv area_ratio h_in) (\<lambda>r_conv_in.
      res_bind (fdiv 1 h_out) (\<lambda>r_conv_out.
      let r_total = r_conv_in + r_foul_in * area_ratio + r_wall + r_foul_out + r_conv_out in
      if r_total > 0 then fdiv 1 r_total else Inr 0))))"

section \<open>Effectiveness\<close>

lemma exp_below_rational:
  fixes y :: real
  assumes "0 < y"
  shows "exp (- y) < 1 / (1 + y)"
proof -
  have "1 + y < exp y" using exp_ge_add_one_self [of "y / 2"] assms
  proof -
    have "1 + y / 2 \<le> exp (y / 2)" by (rule exp_ge_add_one_self)
    then have "(1 + y / 2) * (1 + y / 2) \<le> exp (y / 2) * exp (y / 2)" using assms by (intro mult_mono) auto
    moreover have "exp (y / 2) * exp (y / 2) = exp y" by (simp flip: exp_add)
    moreover have "0 < y * y" using assms by simp
    ultimately show ?thesis by (simp add: algebra_simps)
  qed
  then show ?thesis using assms by (simp add: exp_minus divide_simps)
qed

lemma dry_cooler_above:
  fixes ntu r :: real
  assumes "0 < ntu" "0 \<le> r"
  defines "t \<equiv> exp (- ntu * (1 + r))"
  shows "ntu / (1 + ntu) < (1 - t) / (1 + r * t)" and "(1 - t) / (1 + r * t) < 1"
proof -
  have y: "0 < ntu * (1 + r)" using assms by simp
  have t: "0 < t" "t < 1 / (1 + ntu * (1 + r))" using exp_below_rational [OF y] by (simp_all add: t_def)
  then have "t * (1 + ntu * (1 + r)) < 1" using y by (simp add: pos_less_divide_eq)
  then have "ntu * (1 + r * t) < (1 - t) * (1 + ntu)" by (simp add: algebra_simps)
  then show "ntu / (1 + ntu) < (1 - t) / (1 + r * t)"
    using assms(1,2) t(1) by (simp add: divide_simps add_nonneg_pos add_pos_nonneg mult.commute)
  have "0 \<le> r * t" using assms(2) t(1) by simp
  then show "(1 - t) / (1 + r * t) < 1" using t(1) by (simp add: divide_less_eq)
qed

lemma counter_flow_above:
  fixes ntu r :: real
  assumes "0 < ntu" "0 \<le> r" "r < 1"
  defines "t \<equiv> exp (- ntu * (1 - r))"
  shows "ntu / (1 + ntu) < (1 - t) / (1 - r * t)" and "(1 - t) / (1 - r * t) < 1"
proof -
  have y: "0 < ntu * (1 - r)" using assms by simp
  have t: "0 < t" "t < 1 / (1 + ntu * (1 - r))" using exp_below_rational [OF y] by (simp_all add: t_def)
  then have "t * (1 + ntu * (1 - r)) < 1" using y by (simp add: pos_less_divide_eq)
  then have lt: "ntu * (1 - r * t) < (1 - t) * (1 + ntu)" by (simp add: algebra_simps)
  have "t < 1" using y by (simp add: t_def)
  moreover have "r * t < t" using mult_strict_right_mono [OF assms(3) t(1)] by simp
  ultimately have rt: "r * t < t" "0 < 1 - r * t" by simp_all
  then show "ntu / (1 + ntu) < (1 - t) / (1 - r * t)"
    using lt assms(1) by (simp add: divide_simps mult.commute)
  show "(1 - t) / (1 - r * t) < 1" using rt by (simp add: divide_less_eq)
qed

text \<open>
  Both effectiveness kernels return, for every flow ratio, a value between NTU / (1 + NTU), the
  balanced counter-flow exchanger, and 1: no exchanger transfers more than all the heat there is.
\<close>

theorem effectiveness_range:
  assumes "0 < ntu" "0 \<le> r" "r \<le> 1"
  shows "\<exists>e e'. dry_cooler_ntu_effectiveness ntu r = Inr e \<and> counter_flow_ntu_effectiveness ntu r = Inr e'
    \<and> ntu / (1 + ntu) \<le> e \<and> e < 1 \<and> ntu / (1 + ntu) \<le> e' \<and> e' < 1"
proof (cases "\<bar>r - 1\<bar> < 1 / 10 ^ 6")
  case True
  then show ?thesis using assms by (simp add: dry_cooler_ntu_effectiveness_def counter_flow_ntu_effectiveness_def fdiv_ok)
next
  case False
  then have r: "r < 1" using assms by auto
  let ?t = "exp (- ntu * (1 + r))" and ?u = "exp (- ntu * (1 - r))"
  have "0 < 1 + r * ?t" using assms(2) by (simp add: add_pos_nonneg)
  moreover have "r * ?u < 1" using assms r mult_less_le_imp_less [of r 1 ?u 1] by simp
  ultimately have "dry_cooler_ntu_effectiveness ntu r = Inr ((1 - ?t) / (1 + r * ?t))"
    "counter_flow_ntu_effectiveness ntu r = Inr ((1 - ?u) / (1 - r * ?u))"
    using assms False by (simp_all add: dry_cooler_ntu_effectiveness_def counter_flow_ntu_effectiveness_def fdiv_ok Let_def)
  then show ?thesis
    using dry_cooler_above [OF assms(1,2)] counter_flow_above [OF assms(1,2) r] by (auto intro: less_imp_le)
qed

theorem effectiveness_range_witness:
  "\<exists>e e'. dry_cooler_ntu_effectiveness 2 0.5 = Inr e \<and> counter_flow_ntu_effectiveness 2 0.5 = Inr e'
    \<and> 2 / 3 \<le> e \<and> e < 1 \<and> 2 / 3 \<le> e' \<and> e' < 1"
  using effectiveness_range [of 2 "0.5"] by simp

text \<open>
  The dry cooler's special case does not continue its formula: with equal capacity rates it answers
  the counter-flow value, which is below what the formula gives for every other ratio, however close.
\<close>

theorem dry_cooler_dips_when_balanced:
  assumes "0 < ntu" and "0 \<le> r" and "1 / 10 ^ 6 \<le> \<bar>r - 1\<bar>"
  shows "\<exists>e e1. dry_cooler_ntu_effectiveness ntu r = Inr e \<and> dry_cooler_ntu_effectiveness ntu 1 = Inr e1 \<and> e1 < e"
proof -
  let ?t = "exp (- ntu * (1 + r))"
  have "0 < 1 + r * ?t" using assms(2) by (simp add: add_pos_nonneg)
  then have "dry_cooler_ntu_effectiveness ntu r = Inr ((1 - ?t) / (1 + r * ?t))"
    "dry_cooler_ntu_effectiveness ntu 1 = Inr (ntu / (1 + ntu))"
    using assms by (simp_all add: dry_cooler_ntu_effectiveness_def fdiv_ok Let_def)
  then show ?thesis using dry_cooler_above(1) [OF assms(1,2)] by blast
qed

theorem dry_cooler_dips_when_balanced_witness:
  "\<exists>e e1. dry_cooler_ntu_effectiveness 1 0.999 = Inr e \<and> dry_cooler_ntu_effectiveness 1 1 = Inr e1 \<and> e1 < e"
  using dry_cooler_dips_when_balanced [of 1 "0.999"] by simp

section \<open>Correlations and the overall coefficient\<close>

lemma nusselt_at_transition:
  fixes pr :: real
  assumes "0.7 \<le> pr" and "n \<in> {0.3, 0.4 :: real}" and "2300 \<le> re"
  shows "3.66 < 0.023 * re powr 0.8 * pr powr n"
proof -
  have "(1024::real) powr 0.8 = (2 powr 10) powr 0.8" by simp
  also have "\<dots> = 2 powr 8" unfolding powr_powr by simp
  finally have "(256::real) = 1024 powr 0.8" by simp
  also have "\<dots> \<le> re powr 0.8" using assms(3) by (intro powr_mono2) auto
  finally have a: "256 \<le> re powr 0.8" .
  have "0.7 \<le> pr powr n"
  proof (cases "pr \<le> 1")
    case True
    then have "pr powr 1 \<le> pr powr n" using assms(1,2) by (intro powr_mono') auto
    then show ?thesis using assms(1) by simp
  next
    case False
    then have "1 \<le> pr powr n" using assms(2) by (intro ge_one_powr_ge_zero) auto
    then show ?thesis by simp
  qed
  with a have "256 * 0.7 \<le> re powr 0.8 * pr powr n" by (intro mult_mono) auto
  then show ?thesis by simp
qed

text \<open>
  The Dittus-Boelter kernel never loses heat transfer by more flow: for the Prandtl numbers of gases
  and liquids the Nusselt number is positive and does not fall when the Reynolds number grows, across
  the switch from the laminar constant to the turbulent law too.
\<close>

theorem nusselt_monotone:
  assumes "0.7 \<le> pr" and "re \<le> re'"
  shows "\<exists>nu nu'. calculate_nusselt_dittus_boelter re pr heating = Inr nu
    \<and> calculate_nusselt_dittus_boelter re' pr heating = Inr nu' \<and> 0 < nu \<and> nu \<le> nu' \<and> 3.66 \<le> nu"
proof -
  let ?n = "if heating then 0.4 else 0.3 :: real"
  have v: "calculate_nusselt_dittus_boelter x pr heating
      = Inr (if x < 2300 then 3.66 else 0.023 * x powr 0.8 * pr powr ?n)" for x
    using assms(1) by (simp add: calculate_nusselt_dittus_boelter_def fpow_pos)
  have big: "3.66 < 0.023 * x powr 0.8 * pr powr ?n" if "2300 \<le> x" for x
    by (rule nusselt_at_transition) (use assms that in auto)
  have "re powr 0.8 \<le> re' powr 0.8" if "2300 \<le> re" using that assms(2) by (intro powr_mono2) auto
  then have "0.023 * re powr 0.8 * pr powr ?n \<le> 0.023 * re' powr 0.8 * pr powr ?n" if "2300 \<le> re"
    using that by (intro mult_right_mono) auto
  then have "0 < (if re < 2300 then 3.66 else 0.023 * re powr 0.8 * pr powr ?n)
      \<and> (if re < 2300 then 3.66 else 0.023 * re powr 0.8 * pr powr ?n)
        \<le> (if re' < 2300 then 3.66 else 0.023 * re' powr 0.8 * pr powr ?n)
      \<and> 3.66 \<le> (if re < 2300 then 3.66 else 0.023 * re powr 0.8 * pr powr ?n)"
    using big [of re] big [of re'] assms(2) by (cases "re < 2300"; cases "re' < 2300") auto
  then show ?thesis using v by blast
qed

theorem nusselt_monotone_witness:
  "\<exists>nu nu'. calculate_nusselt_dittus_boelter 2000 7 True = Inr nu
    \<and> calculate_nusselt_dittus_boelter 2500 7 True = Inr nu' \<and> nu \<le> nu'"
  using nusselt_monotone [of 7 2000 2500 True] by auto

definition wall :: "real \<Rightarrow> real \<Rightarrow> real \<Rightarrow> real \<times> real" where
  "wall d_in d_out k_wall = (if \<bar>d_out - d_in\<bar> < 1 / 10 ^ 9 then (1, 0.002 / k_wall)
     else (d_out / d_in, d_out * ln (d_out / d_in) / (2 * k_wall)))"

lemma u_fouled_value:
  assumes "1 / 10 ^ 6 < h_in" "1 / 10 ^ 6 < h_out" "0 < d_in" "d_in \<le> d_out" "0 < k_wall" "0 \<le> f_in" "0 \<le> f_out"
  obtains a w where "wall d_in d_out k_wall = (a, w)" and "1 \<le> a" and "0 \<le> w"
    and "calculate_dynamic_u_fouled h_in h_out d_in d_out k_wall f_in f_out
      = Inr (1 / (a / h_in + f_in * a + w + f_out + 1 / h_out))"
    and "0 < a / h_in + f_in * a + w + f_out + 1 / h_out"
proof -
  obtain a w where aw: "wall d_in d_out k_wall = (a, w)" by fastforce
  have a: "1 \<le> a" "0 \<le> w" using assms aw by (auto simp: wall_def divide_nonneg_nonneg split: if_splits)
  have h: "0 < h_in" "0 < h_out" using assms(1,2) by (auto intro: less_trans [of 0 "1 / 10 ^ 6"])
  then have pos: "0 < a / h_in + f_in * a + w + f_out + 1 / h_out"
    using a assms(6,7) by (intro add_nonneg_pos add_nonneg_nonneg) auto
  have r: "(if \<bar>d_out - d_in\<bar> < 1 / 10 ^ 9 then res_bind (fdiv 0.002 k_wall) (\<lambda>r_wall. Inr (1, r_wall))
           else res_bind (fdiv d_out d_in) (\<lambda>area_ratio. res_bind (np_log area_ratio) (\<lambda>l.
             res_bind (fdiv (d_out * l) (2 * k_wall)) (\<lambda>r_wall. Inr (area_ratio, r_wall))))) = Inr (a, w)"
    using aw assms by (auto simp: wall_def fdiv_ok np_log_ok split: if_splits)
  have "calculate_dynamic_u_fouled h_in h_out d_in d_out k_wall f_in f_out
      = Inr (1 / (a / h_in + f_in * a + w + f_out + 1 / h_out))"
    unfolding calculate_dynamic_u_fouled_def r Let_def using assms h pos by (simp add: fdiv_ok)
  then show ?thesis using that aw a pos by blast
qed

text \<open>
  Fouling only costs: for a tube with positive coefficients the overall coefficient is defined and
  positive, never above the outer film coefficient nor, per inner area, above the inner one, and it does
  not rise when either side fouls further.
\<close>

theorem fouling_lowers_u:
  assumes "1 / 10 ^ 6 < h_in" "1 / 10 ^ 6 < h_out" "0 < d_in" "d_in \<le> d_out" "0 < k_wall"
    and "0 \<le> f_in" "f_in \<le> f_in'" "0 \<le> f_out" "f_out \<le> f_out'"
  shows "\<exists>U U'. calculate_dynamic_u_fouled h_in h_out d_in d_out k_wall f_in f_out = Inr U
    \<and> calculate_dynamic_u_fouled h_in h_out d_in d_out k_wall f_in' f_out' = Inr U'
    \<and> 0 < U' \<and> U' \<le> U \<and> U \<le> h_out \<and> U \<le> h_in"
proof -
  have h: "0 < h_in" "0 < h_out" using assms(1,2) by (auto intro: less_trans [of 0 "1 / 10 ^ 6"])
  obtain a w where aw: "wall d_in d_out k_wall = (a, w)" "1 \<le> a" "0 \<le> w"
    and u: "calculate_dynamic_u_fouled h_in h_out d_in d_out k_wall f_in f_out
      = Inr (1 / (a / h_in + f_in * a + w + f_out + 1 / h_out))" "0 < a / h_in + f_in * a + w + f_out + 1 / h_out"
    by (rule u_fouled_value [OF assms(1-6,8)])
  have f: "0 \<le> f_in'" "0 \<le> f_out'" using assms by auto
  obtain a' w' where "wall d_in d_out k_wall = (a', w')" and u': "calculate_dynamic_u_fouled h_in h_out d_in d_out k_wall f_in' f_out'
      = Inr (1 / (a' / h_in + f_in' * a' + w' + f_out' + 1 / h_out))" "0 < a' / h_in + f_in' * a' + w' + f_out' + 1 / h_out"
    by (rule u_fouled_value [OF assms(1-5) f])
  then have e: "a' = a" "w' = w" using aw(1) by simp_all
  define R where "R = a / h_in + f_in * a + w + f_out + 1 / h_out"
  define R' where "R' = a / h_in + f_in' * a + w + f_out' + 1 / h_out"
  have "f_in * a \<le> f_in' * a" using assms(7) aw(2) by (intro mult_right_mono) auto
  then have le: "R \<le> R'" using assms(9) by (simp add: R_def R'_def)
  have "0 \<le> f_in * a" using assms(6) aw(2) by simp
  moreover have "1 / h_in \<le> a / h_in" using aw(2) h by (intro divide_right_mono) auto
  moreover have "0 < 1 / h_in" "0 < 1 / h_out" using h by simp_all
  ultimately have "1 / h_out \<le> R" "1 / h_in \<le> R" using assms(8) aw(3) unfolding R_def by linarith+
  moreover have Rp: "0 < R" using u(2) by (simp only: R_def)
  ultimately have "1 / R \<le> h_out" "1 / R \<le> h_in" using h by (simp_all add: field_simps)
  moreover have "1 / R' \<le> 1 / R" "0 < 1 / R'" using le Rp by (simp_all add: frac_le)
  ultimately show ?thesis using u(1) u'(1) unfolding e R_def [symmetric] R'_def [symmetric] by blast
qed

theorem fouling_lowers_u_witness:
  "\<exists>U U'. calculate_dynamic_u_fouled 500 80 0.02 0.025 15 0 0 = Inr U
    \<and> calculate_dynamic_u_fouled 500 80 0.02 0.025 15 0.001 0 = Inr U' \<and> 0 < U' \<and> U' \<le> U \<and> U \<le> 80"
  using fouling_lowers_u [of 500 80 "0.02" "0.025" 15 0 "0.001" 0 0] by auto

end
