(* ===== verification/Boiler.thy ===== *)
theory Boiler
  imports Interp Iteration
begin

text \<open>
  The electric boiler: outlet enthalpy, the Newton inversion of an enthalpy table, the water and steam
  flash over the saturation line, and the batch run over a time series.
\<close>

section \<open>Kernels\<close>

definition calc_boiler_outlet_enthalpy :: "real \<Rightarrow> real \<Rightarrow> real \<Rightarrow> real \<Rightarrow> real res" where
  "calc_boiler_outlet_enthalpy h_in_j_kg mass_flow_kg_h power_input_w efficiency =
     (if mass_flow_kg_h \<le> 1 / 10 ^ 6 then Inr h_in_j_kg
      else let q_net_w = power_input_w * efficiency; q_net_j_h = q_net_w * 3600
           in res_bind (fdiv q_net_j_h mass_flow_kg_h) (\<lambda>delta_h. Inr (h_in_j_kg + delta_h)))"

definition calc_boiler_batch_scenario :: "real list \<Rightarrow> real list \<Rightarrow> real list \<Rightarrow> real \<Rightarrow> real list res" where
  "calc_boiler_batch_scenario h_in_array flow_array power_array efficiency =
     map_res (\<lambda>i. res_bind (aget h_in_array (int i)) (\<lambda>h. res_bind (aget flow_array (int i)) (\<lambda>f.
       res_bind (aget power_array (int i)) (\<lambda>p. calc_boiler_outlet_enthalpy h f p efficiency))))
       [0..<length h_in_array]"

text \<open>The linear searches for a bracket: the first index from 1 whose grid point is not below the key.\<close>

definition bracket_index :: "real list \<Rightarrow> real \<Rightarrow> nat" where
  "bracket_index grid x =
     (case find (\<lambda>idx. grid ! idx \<ge> x) [1..<length grid] of None \<Rightarrow> 0 | Some idx \<Rightarrow> idx)"

definition bracket_weight :: "real list \<Rightarrow> int \<Rightarrow> real \<Rightarrow> real res" where
  "bracket_weight grid i x =
     res_bind (aget grid (i - 1)) (\<lambda>x0. res_bind (aget grid i) (\<lambda>x1.
       if x1 \<noteq> x0 then fdiv (x - x0) (x1 - x0) else Inr 0))"

definition clamp_to_grid :: "real list \<Rightarrow> real \<Rightarrow> real res" where
  "clamp_to_grid grid x =
     res_bind (aget grid 0) (\<lambda>lo. res_bind (aget grid (- 1)) (\<lambda>hi. Inr (min (max x lo) hi)))"

definition bilinear_mix :: "ptable \<Rightarrow> int \<Rightarrow> int \<Rightarrow> real \<Rightarrow> real \<Rightarrow> real res" where
  "bilinear_mix lut ip it wp wt =
     res_bind (cell_at lut (ip - 1) (it - 1)) (\<lambda>v00. res_bind (cell_at lut (ip - 1) it) (\<lambda>v01.
     res_bind (cell_at lut ip (it - 1)) (\<lambda>v10. res_bind (cell_at lut ip it) (\<lambda>v11.
     Inr (v00 * (1 - wp) * (1 - wt) + v10 * wp * (1 - wt) + v01 * (1 - wp) * wt + v11 * wp * wt)))))"

definition table_at :: "real list \<Rightarrow> int \<Rightarrow> real \<Rightarrow> real \<Rightarrow> ptable \<Rightarrow> ptable \<Rightarrow> (real \<times> real) res" where
  "table_at T_grid ip wp T H_lut C_lut =
     res_bind (clamp_to_grid T_grid T) (\<lambda>T_clamped.
     let it0 = bracket_index T_grid T_clamped; it = (if it0 = 0 then 1 else int it0) in
     res_bind (bracket_weight T_grid it T_clamped) (\<lambda>wt.
     res_bind (bilinear_mix H_lut ip it wp wt) (\<lambda>h_current.
     res_bind (bilinear_mix C_lut ip it wp wt) (\<lambda>cp_current. Inr (h_current, cp_current)))))"

definition enthalpy_newton_step ::
    "real \<Rightarrow> real list \<Rightarrow> int \<Rightarrow> real \<Rightarrow> ptable \<Rightarrow> ptable \<Rightarrow> real \<Rightarrow> real \<Rightarrow> real \<Rightarrow> (real, real) ctl res" where
  "enthalpy_newton_step h_target T_grid ip wp H_lut C_lut cp_default tol T =
     res_bind (table_at T_grid ip wp T H_lut C_lut) (\<lambda>(h_current, cp_current0).
     let cp_current = (if cp_current0 < 100 then cp_default else cp_current0);
         residual = h_target - h_current
     in res_bind (fdiv residual cp_current) (\<lambda>dT.
        let T_new = min (max (T + dT) 273.15) 1200 in
        Inr (if \<bar>T_new - T\<bar> < tol then Return T_new else Next T_new)))"

definition solve_temperature_from_enthalpy_jit ::
    "real \<Rightarrow> real \<Rightarrow> real \<Rightarrow> real list \<Rightarrow> real list \<Rightarrow> ptable \<Rightarrow> ptable \<Rightarrow> real \<Rightarrow> real \<Rightarrow> nat \<Rightarrow> real res" where
  "solve_temperature_from_enthalpy_jit h_target pressure_pa T_guess P_grid T_grid H_lut C_lut cp_default tol max_iter =
     res_bind (clamp_to_grid P_grid pressure_pa) (\<lambda>P_clamped.
     let ip0 = bracket_index P_grid P_clamped; ip = (if ip0 = 0 then 1 else int ip0) in
     res_bind (bracket_weight P_grid ip P_clamped) (\<lambda>wp.
     res_bind (for_range max_iter (\<lambda>_. enthalpy_newton_step h_target T_grid ip wp H_lut C_lut cp_default tol) T_guess)
       (\<lambda>c. case c of Next T \<Rightarrow> Inr T | Break T \<Rightarrow> Inr T | Return T \<Rightarrow> Inr T)))"

record saturation_line =
  sat_P_grid :: "real list"
  sat_T_grid :: "real list"
  sat_H_liq :: "real list"
  sat_H_vap :: "real list"

definition saturation_node :: "saturation_line \<Rightarrow> int \<Rightarrow> (real \<times> real \<times> real) res" where
  "saturation_node sat i =
     res_bind (aget (sat_T_grid sat) i) (\<lambda>t. res_bind (aget (sat_H_liq sat) i) (\<lambda>l.
     res_bind (aget (sat_H_vap sat) i) (\<lambda>v. Inr (t, l, v))))"

definition saturation_at :: "saturation_line \<Rightarrow> real \<Rightarrow> (real \<times> real \<times> real) res" where
  "saturation_at sat pressure_pa =
     res_bind (aget (sat_P_grid sat) 0) (\<lambda>P_min. res_bind (aget (sat_P_grid sat) (- 1)) (\<lambda>P_max.
     if pressure_pa \<le> P_min then saturation_node sat 0
     else if pressure_pa \<ge> P_max then saturation_node sat (- 1)
     else let idx = int (bracket_index (sat_P_grid sat) pressure_pa) in
          res_bind (bracket_weight (sat_P_grid sat) idx pressure_pa) (\<lambda>w.
          res_bind (saturation_node sat (idx - 1)) (\<lambda>(t0, l0, v0). res_bind (saturation_node sat idx) (\<lambda>(t1, l1, v1).
          Inr (t0 * (1 - w) + t1 * w, l0 * (1 - w) + l1 * w, v0 * (1 - w) + v1 * w))))))"

definition calc_boiler_flash_jit ::
    "real \<Rightarrow> real \<Rightarrow> saturation_line \<Rightarrow> real list \<Rightarrow> real list \<Rightarrow> ptable \<Rightarrow> ptable \<Rightarrow> (real \<times> real \<times> int) res" where
  "calc_boiler_flash_jit h_out pressure_pa sat P_grid T_grid H_lut C_lut =
     res_bind (saturation_at sat pressure_pa) (\<lambda>(t_sat, h_sat_liq, h_sat_vap).
     if h_out < h_sat_liq then
       res_bind (solve_temperature_from_enthalpy_jit h_out pressure_pa (t_sat - 10) P_grid T_grid H_lut C_lut 4180 0.01 20)
         (\<lambda>T_out. Inr (T_out, 0, 0))
     else if h_out > h_sat_vap then
       res_bind (solve_temperature_from_enthalpy_jit h_out pressure_pa (t_sat + 10) P_grid T_grid H_lut C_lut 2080 0.01 20)
         (\<lambda>T_out. Inr (T_out, 1, 2))
     else let denom = h_sat_vap - h_sat_liq in
       res_bind (if denom > 1 / 10 ^ 6 then fdiv (h_out - h_sat_liq) denom else Inr 0) (\<lambda>vapor_frac.
       Inr (t_sat, vapor_frac, 1)))"

definition boiler_point ::
    "real \<Rightarrow> real \<Rightarrow> real \<Rightarrow> real \<Rightarrow> real \<Rightarrow> real \<Rightarrow> bool \<Rightarrow> saturation_line \<Rightarrow> real list \<Rightarrow> real list \<Rightarrow> ptable \<Rightarrow> ptable
      \<Rightarrow> real \<Rightarrow> (real \<times> real \<times> real \<times> int) res" where
  "boiler_point h_in flow power_w pressure T_in efficiency is_water sat P_grid T_grid H_lut C_lut cp_gas =
     res_bind (calc_boiler_outlet_enthalpy h_in flow power_w efficiency) (\<lambda>h_out.
     if is_water then
       res_bind (calc_boiler_flash_jit h_out pressure sat P_grid T_grid H_lut C_lut) (\<lambda>(T_out, vapor_frac, phase).
       Inr (h_out, T_out, vapor_frac, phase))
     else res_bind (fdiv (h_out - h_in) cp_gas) (\<lambda>dT. Inr (h_out, T_in + dT, 0, 2)))"

definition calc_boiler_batch_full ::
    "real list \<Rightarrow> real list \<Rightarrow> real list \<Rightarrow> real list \<Rightarrow> real list \<Rightarrow> real \<Rightarrow> bool \<Rightarrow> saturation_line \<Rightarrow> real list
      \<Rightarrow> real list \<Rightarrow> ptable \<Rightarrow> ptable \<Rightarrow> real \<Rightarrow> (real \<times> real \<times> real \<times> int) list res" where
  "calc_boiler_batch_full h_in_array flow_array power_array pressure_array T_in_array efficiency is_water sat
      P_grid T_grid H_lut C_lut cp_gas =
     map_res (\<lambda>i. res_bind (aget h_in_array (int i)) (\<lambda>h. res_bind (aget flow_array (int i)) (\<lambda>f.
       res_bind (aget power_array (int i)) (\<lambda>p. res_bind (aget pressure_array (int i)) (\<lambda>pr.
       res_bind (aget T_in_array (int i)) (\<lambda>T_in.
       boiler_point h f p pr T_in efficiency is_water sat P_grid T_grid H_lut C_lut cp_gas))))))
       [0..<length h_in_array]"

section \<open>The inlined lookup is the table lookup\<close>

context sorted_grid
begin

lemma bracket_law:
  assumes "g ! 0 \<le> x" and "x \<le> last g"
  obtains k where "bracket_index g x = Suc k" and "Suc k < length g" and "g ! k \<le> x" and "x \<le> g ! Suc k"
    and "k = 0 \<or> g ! k < x"
proof -
  let ?P = "\<lambda>idx. g ! idx \<ge> x"
  let ?is = "[1..<length g]"
  have "\<exists>i \<in> set ?is. ?P i" using assms(2) two last_nth by (intro bexI [of _ "length g - 1"]) auto
  then obtain i where i: "find ?P ?is = Some i" by (metis find_None_iff not_Some_eq)
  then obtain j where j: "j < length ?is" "?P (?is ! j)" "i = ?is ! j" "\<forall>l < j. \<not> ?P (?is ! l)"
    by (auto simp: find_Some_iff)
  then have "i = Suc j" "Suc j < length g" by auto
  moreover have "j = 0 \<or> g ! j < x"
  proof (cases j)
    case (Suc l)
    then show ?thesis using j(1,4) by (auto simp: not_le)
  qed simp
  moreover have "g ! j \<le> x" using calculation(3) assms(1) by auto
  ultimately show ?thesis using that [of j] i j(2) by (auto simp: bracket_index_def)
qed

lemma clamped:
  "clamp_to_grid g x = Inr (min (max x (g ! 0)) (last g))"
  "g ! 0 \<le> min (max x (g ! 0)) (last g)" "min (max x (g ! 0)) (last g) \<le> last g"
  using first_less_last by (simp_all add: clamp_to_grid_def)

lemma bracket_is_axis:
  assumes "axis_weight g x = Inr (int i, w)"
  shows "bracket_index g (min (max x (g ! 0)) (last g)) = Suc i"
    and "bracket_weight g (int (Suc i)) (min (max x (g ! 0)) (last g)) = Inr w"
proof -
  let ?x = "min (max x (g ! 0)) (last g)"
  obtain k where k: "bracket_index g ?x = Suc k" "Suc k < length g" "g ! k \<le> ?x" "?x \<le> g ! Suc k" "k = 0 \<or> g ! k < ?x"
    using bracket_law [OF clamped(2,3)] by blast
  have gap: "g ! k < g ! Suc k" using nth_less [of k "Suc k"] k(2) by simp
  have bw: "bracket_weight g (int (Suc k)) ?x = Inr ((?x - g ! k) / (g ! Suc k - g ! k))"
    using k(2) gap aget_nat [of k g] aget_nat [of "Suc k" g] by (simp add: bracket_weight_def fdiv_ok)
  have "axis_weight g x = Inr (int k, (?x - g ! k) / (g ! Suc k - g ! k))"
  proof -
    consider "x \<le> g ! 0" | "last g \<le> x" "g ! 0 < x" | "g ! 0 < x" "x < last g" by linarith
    then show ?thesis
    proof cases
      case 1
      then have "?x = g ! 0" using first_less_last by simp
      moreover have "k = 0"
        using k(5) nth_le [of 0 k] k(2) calculation by (metis Suc_lessD le0 not_less)
      ultimately show ?thesis using axis_weight_low [OF 1] by simp
    next
      case 2
      then have x: "?x = last g" by simp
      have "Suc k = length g - 1"
      proof (rule ccontr)
        assume "Suc k \<noteq> length g - 1"
        then have "g ! Suc k < last g" using nth_less [of "Suc k" "length g - 1"] k(2) by (simp add: last_nth)
        then show False using k(4) x by simp
      qed
      then have "k = length g - 2" "g ! Suc k = last g" using two by (auto simp: last_nth)
      then show ?thesis using axis_weight_high [OF 2(1)] x gap by simp
    next
      case 3
      then have x: "?x = x" by simp
      obtain k' where k': "axis_weight g x = Inr (int k', (x - g ! k') / (g ! Suc k' - g ! k'))"
          "Suc k' < length g" "g ! k' < x" "x \<le> g ! Suc k'"
        using axis_weight_mid [OF 3] by metis
      have "g ! k < x" using k(5) 3 x by auto
      have "k' = k"
      proof (rule ccontr)
        assume "k' \<noteq> k"
        then consider "Suc k \<le> k'" | "Suc k' \<le> k" by linarith
        then show False
        proof cases
          case 1
          then show False using nth_le [of "Suc k" k'] k(4) k'(2,3) x by simp
        next
          case 2
          then show False using nth_le [of "Suc k'" k] k'(4) k(2) \<open>g ! k < x\<close> by simp
        qed
      qed
      then show ?thesis using k'(1) x by simp
    qed
  qed
  then show "bracket_index g ?x = Suc i" "bracket_weight g (int (Suc i)) ?x = Inr w"
    using assms k(1) bw by auto
qed

end

text \<open>The solver's view of the two tables at a pressure, in terms of the two-phase lookup.\<close>

lemma bilinear_mix_lookup:
  assumes "table_for gx gy data" and "Suc i < length gx" and "Suc j < length gy"
  shows "bilinear_mix data (int (Suc i)) (int (Suc j)) wx wy = interp_from_weights_jit data (int i) (int j) wx wy"
  using assms cell_at_table [OF assms(1), of i j] cell_at_table [OF assms(1), of "Suc i" j]
    cell_at_table [OF assms(1), of i "Suc j"] cell_at_table [OF assms(1), of "Suc i" "Suc j"]
    interp_from_weights_lerp [OF assms, of wx wy]
  by (simp add: bilinear_mix_def algebra_simps)

lemma table_at_lookup:
  assumes "sorted_grid P_grid" "sorted_grid T_grid" "table_for P_grid T_grid H" "table_for P_grid T_grid C"
    and "axis_weight P_grid p = Inr (int i, wp)" "Suc i < length P_grid"
  obtains h c where "table_at T_grid (int (Suc i)) wp T H C = Inr (h, c)"
    and "interpolate_2d P_grid T_grid H p T = Inr h" and "interpolate_2d P_grid T_grid C p T = Inr c"
proof -
  obtain j wt where j: "axis_weight T_grid T = Inr (int j, wt)" "Suc j < length T_grid"
    using sorted_grid.axis_weight_law [OF assms(2)] by metis
  note b = sorted_grid.bracket_is_axis [OF assms(2) j(1)]
  note e = sorted_grid.clamped [OF assms(2)]
  obtain h where h: "interp_from_weights_jit H (int i) (int j) wp wt = Inr h"
    using interp_from_weights_lerp [OF assms(3,6) j(2)] by blast
  obtain c where c: "interp_from_weights_jit C (int i) (int j) wp wt = Inr c"
    using interp_from_weights_lerp [OF assms(4,6) j(2)] by blast
  have "table_at T_grid (int (Suc i)) wp T H C = Inr (h, c)"
    using h c bilinear_mix_lookup [OF assms(3,6) j(2), of wp wt] bilinear_mix_lookup [OF assms(4,6) j(2), of wp wt]
    unfolding table_at_def e(1) res_bind.simps Let_def b(1) by (simp add: b(2) del: of_nat_Suc)
  moreover have "interpolate_2d P_grid T_grid H p T = Inr h" "interpolate_2d P_grid T_grid C p T = Inr c"
    using h c j(1) assms(5) by (simp_all add: interpolate_2d_def get_interp_weights_jit_def)
  ultimately show ?thesis using that by blast
qed

section \<open>The Newton inversion\<close>

text \<open>
  What makes the inversion work: from the guess and from every temperature in range, the tabulated
  enthalpy is within the share \<open>q\<close> of the line of slope cp through the solution.
\<close>

definition nearly_linear ::
    "real list \<Rightarrow> real list \<Rightarrow> ptable \<Rightarrow> ptable \<Rightarrow> real \<Rightarrow> real \<Rightarrow> real \<Rightarrow> real \<Rightarrow> real \<Rightarrow> bool" where
  "nearly_linear P_grid T_grid H C p h_target T_guess T_star q \<longleftrightarrow>
     (\<forall>T h c. (T = T_guess \<or> 273.15 \<le> T \<and> T \<le> 1200) \<and> interpolate_2d P_grid T_grid H p T = Inr h
        \<and> interpolate_2d P_grid T_grid C p T = Inr c \<longrightarrow>
        100 \<le> c \<and> \<bar>h - h_target - c * (T - T_star)\<bar> \<le> q * c * \<bar>T - T_star\<bar>)"

definition inverting ::
    "real list \<Rightarrow> real list \<Rightarrow> ptable \<Rightarrow> ptable \<Rightarrow> real \<Rightarrow> real \<Rightarrow> real \<Rightarrow> real \<Rightarrow> real \<Rightarrow> real \<Rightarrow> real \<Rightarrow> bool" where
  "inverting P_grid T_grid H C p h_target T_guess T_star q tol T \<longleftrightarrow>
     sorted_grid P_grid \<and> sorted_grid T_grid \<and> table_for P_grid T_grid H \<and> table_for P_grid T_grid C
     \<and> nearly_linear P_grid T_grid H C p h_target T_guess T_star q
     \<and> 0 \<le> q \<and> q < 1 \<and> 273.15 \<le> T_star \<and> T_star \<le> 1200 \<and> (T = T_guess \<or> 273.15 \<le> T \<and> T \<le> 1200)"

lemma enthalpy_step_value:
  assumes "inverting P_grid T_grid H C p h_target T_guess T_star q tol T"
    and "axis_weight P_grid p = Inr (int i, wp)" "Suc i < length P_grid"
  obtains T' where "\<bar>T' - T_star\<bar> \<le> q * \<bar>T - T_star\<bar>" and "273.15 \<le> T'" and "T' \<le> 1200"
    and "enthalpy_newton_step h_target T_grid (int (Suc i)) wp H C cp_default tol T
      = Inr (if \<bar>T' - T\<bar> < tol then Return T' else Next T')"
proof -
  note a = assms(1) [unfolded inverting_def]
  obtain h c where hc: "table_at T_grid (int (Suc i)) wp T H C = Inr (h, c)"
      "interpolate_2d P_grid T_grid H p T = Inr h" "interpolate_2d P_grid T_grid C p T = Inr c"
    using table_at_lookup [of P_grid T_grid H C p i wp T] a assms(2,3) by metis
  then have n: "100 \<le> c" "\<bar>h - h_target - c * (T - T_star)\<bar> \<le> q * c * \<bar>T - T_star\<bar>"
    using a unfolding nearly_linear_def by blast+
  define T' where "T' = min (max (T + (h_target - h) / c) 273.15) 1200"
  have "T' = clamp 273.15 1200 (T + (h_target - h) / c)" by (auto simp: T'_def clamp_def)
  then have "\<bar>T' - T_star\<bar> \<le> \<bar>T + (h_target - h) / c - T_star\<bar>" using a by (auto intro: clamp_nonexpansive)
  also have "\<dots> \<le> q * \<bar>T - T_star\<bar>" by (rule newton_contracts [OF _ n(2)]) (use n(1) in simp)
  finally have "\<bar>T' - T_star\<bar> \<le> q * \<bar>T - T_star\<bar>" .
  moreover have "enthalpy_newton_step h_target T_grid (int (Suc i)) wp H C cp_default tol T
      = Inr (if \<bar>T' - T\<bar> < tol then Return T' else Next T')"
    unfolding enthalpy_newton_step_def hc(1) using n(1) by (simp add: fdiv_ok T'_def)
  moreover have "273.15 \<le> T'" "T' \<le> 1200" by (auto simp: T'_def)
  ultimately show ?thesis by (intro that)
qed

interpretation enthalpy_search: contraction "enthalpy_newton_step h_target T_grid (int (Suc i)) wp H C cp_default tol"
    "\<lambda>T. inverting P_grid T_grid H C p h_target T_guess T_star q tol T
      \<and> axis_weight P_grid p = Inr (int i, wp) \<and> Suc i < length P_grid"
    T_star q "q * tol / (1 - q)"
  for h_target T_grid i wp H C cp_default tol P_grid p T_guess T_star q
proof
  fix T assume T: "inverting P_grid T_grid H C p h_target T_guess T_star q tol T
      \<and> axis_weight P_grid p = Inr (int i, wp) \<and> Suc i < length P_grid"
  then obtain T' where T': "\<bar>T' - T_star\<bar> \<le> q * \<bar>T - T_star\<bar>" "273.15 \<le> T'" "T' \<le> 1200"
      "enthalpy_newton_step h_target T_grid (int (Suc i)) wp H C cp_default tol T
        = Inr (if \<bar>T' - T\<bar> < tol then Return T' else Next T')"
    using enthalpy_step_value by metis
  have q: "0 \<le> q" "q < 1" using T by (auto simp: inverting_def)
  have "inverting P_grid T_grid H C p h_target T_guess T_star q tol T'" using T T'(2,3) by (auto simp: inverting_def)
  then show "0 \<le> q \<and> (\<exists>c. enthalpy_newton_step h_target T_grid (int (Suc i)) wp H C cp_default tol T = Inr c
      \<and> (inverting P_grid T_grid H C p h_target T_guess T_star q tol (ctl_value c) \<and> axis_weight P_grid p = Inr (int i, wp)
        \<and> Suc i < length P_grid)
      \<and> (case c of Next y \<Rightarrow> \<bar>y - T_star\<bar> \<le> q * \<bar>T - T_star\<bar>
         | Break y \<Rightarrow> \<bar>y - T_star\<bar> \<le> q * tol / (1 - q) | Return y \<Rightarrow> \<bar>y - T_star\<bar> \<le> q * tol / (1 - q)))"
    using T T' q short_step_close [OF T'(1) _ q, of tol] by auto
qed

lemma solve_T_unfold:
  assumes "sorted_grid P_grid" and "axis_weight P_grid p = Inr (int i, wp)"
  shows "solve_temperature_from_enthalpy_jit h p T P_grid T_grid H C cpd tol n =
    res_bind (for_range n (\<lambda>_. enthalpy_newton_step h T_grid (int (Suc i)) wp H C cpd tol) T)
      (\<lambda>c. case c of Next T \<Rightarrow> Inr T | Break T \<Rightarrow> Inr T | Return T \<Rightarrow> Inr T)"
  unfolding solve_temperature_from_enthalpy_jit_def sorted_grid.clamped(1) [OF assms(1)] res_bind.simps Let_def
    sorted_grid.bracket_is_axis(1) [OF assms]
  using sorted_grid.bracket_is_axis(2) [OF assms] by (simp del: of_nat_Suc)



section \<open>Energy and flash\<close>

text \<open>
  The flash splits the enthalpy exactly: in the two-phase region the temperature is the saturation
  temperature, and liquid and vapour at saturation, mixed in the returned fraction, have the given
  enthalpy; below and above it the fraction is 0 and 1; the phase code says which of the three it is.
\<close>

theorem boiler_flash_exact:
  assumes "saturation_at sat p = Inr (t_sat, h_liq, h_vap)" and "h_liq + 1 / 10 ^ 6 < h_vap"
    and "calc_boiler_flash_jit h p sat P_grid T_grid H C = Inr (T, x, phase)"
  shows "0 \<le> x \<and> x \<le> 1
    \<and> (phase = 1 \<longleftrightarrow> h_liq \<le> h \<and> h \<le> h_vap) \<and> (phase = 0 \<longleftrightarrow> h < h_liq) \<and> (phase = 2 \<longleftrightarrow> h_vap < h)
    \<and> (phase = 1 \<longrightarrow> T = t_sat \<and> (1 - x) * h_liq + x * h_vap = h)
    \<and> (phase = 0 \<longrightarrow> x = 0) \<and> (phase = 2 \<longrightarrow> x = 1)"
proof -
  have d: "0 < h_vap - h_liq" using assms(2) by (simp add: less_trans [of h_liq "h_liq + 1 / 10 ^ 6"])
  define y where "y = (h - h_liq) / (h_vap - h_liq)"
  have "y * (h_vap - h_liq) = h - h_liq" using d by (simp add: y_def)
  then have "(1 - y) * h_liq + y * h_vap = h" by (simp add: algebra_simps)
  moreover have "0 \<le> y \<and> y \<le> 1" if "h_liq \<le> h" "h \<le> h_vap" using that d by (simp add: y_def)
  ultimately show ?thesis using assms d
    by (auto simp: calc_boiler_flash_jit_def fdiv_ok y_def [symmetric] Let_def split: if_splits)
qed

theorem boiler_flash_exact_witness:
  "calc_boiler_flash_jit 1500000 100000 \<lparr>sat_P_grid = [50000, 100000], sat_T_grid = [354.5, 372.8],
      sat_H_liq = [340000, 417000], sat_H_vap = [2645000, 2675000]\<rparr> [] [] [] [] = Inr (372.8, 1083 / 2258, 1)
    \<and> (1 - 1083 / 2258) * 417000 + 1083 / 2258 * 2675000 = (1500000 :: real)"
proof -
  let ?s = "\<lparr>sat_P_grid = [50000, 100000], sat_T_grid = [354.5, 372.8],
      sat_H_liq = [340000, 417000], sat_H_vap = [2645000, 2675000]\<rparr>"
  have s: "saturation_at ?s 100000 = Inr (372.8, 417000, 2675000)"
    by (simp add: saturation_at_def saturation_node_def aget_def py_index_def)
  have f: "calc_boiler_flash_jit 1500000 100000 ?s [] [] [] [] = Inr (372.8, 1083 / 2258, 1)"
    unfolding calc_boiler_flash_jit_def s by (simp add: fdiv_ok)
  from boiler_flash_exact [OF s _ f] show ?thesis using f by simp
qed

text \<open>
  The batch run is the point calculation at every time step, and every step with flow balances
  energy: mass flow times the rise of enthalpy is the electrical power times the efficiency.
\<close>

theorem boiler_batch_pointwise:
  assumes "calc_boiler_batch_full hs fs pws prs Ts eff is_water sat P_grid T_grid H C cp_gas = Inr out"
    and "i < length hs" and "out ! i = (h_out, T_out, x, phase)" and "1 / 10 ^ 6 < fs ! i"
  shows "length out = length hs
    \<and> boiler_point (hs ! i) (fs ! i) (pws ! i) (prs ! i) (Ts ! i) eff is_water sat P_grid T_grid H C cp_gas
        = Inr (h_out, T_out, x, phase)
    \<and> fs ! i * (h_out - hs ! i) = pws ! i * eff * 3600"
proof -
  have at: "aget xs (int i) = Inr v \<Longrightarrow> v = xs ! i" for xs :: "real list" and v
    by (auto simp: aget_def py_index_def split: option.splits if_splits)
  note m = assms(1) [unfolded calc_boiler_batch_full_def]
  have len: "length out = length hs" using map_res_length [OF m] by simp
  have p: "boiler_point (hs ! i) (fs ! i) (pws ! i) (prs ! i) (Ts ! i) eff is_water sat P_grid T_grid H C cp_gas
        = Inr (h_out, T_out, x, phase)"
    using map_res_nth [OF m, of i] assms(2,3) by (auto dest!: at)
  then have "calc_boiler_outlet_enthalpy (hs ! i) (fs ! i) (pws ! i) eff = Inr h_out"
    by (auto simp: boiler_point_def split: if_splits)
  then have "h_out = hs ! i + pws ! i * eff * 3600 / fs ! i" "0 < fs ! i"
    using assms(4) less_trans [of 0 "1 / 10 ^ 6" "fs ! i"] by (auto simp: calc_boiler_outlet_enthalpy_def Let_def)
  then show ?thesis using len p by simp
qed

theorem boiler_batch_pointwise_witness:
  "calc_boiler_batch_full [100, 200] [3600, 7200] [1000, 2000] [1, 1] [300, 300] 0.9 False
      \<lparr>sat_P_grid = [], sat_T_grid = [], sat_H_liq = [], sat_H_vap = []\<rparr> [] [] [] [] 1000
      = Inr [(1000, 300.9, 0, 2), (1100, 300.9, 0, 2)] \<and> 7200 * (1100 - 200) = 2000 * 0.9 * (3600 :: real)"
proof -
  have f: "calc_boiler_batch_full [100, 200] [3600, 7200] [1000, 2000] [1, 1] [300, 300] 0.9 False
      \<lparr>sat_P_grid = [], sat_T_grid = [], sat_H_liq = [], sat_H_vap = []\<rparr> [] [] [] [] 1000
      = Inr [(1000, 300.9, 0, 2), (1100, 300.9, 0, 2)]"
    by (simp add: calc_boiler_batch_full_def boiler_point_def calc_boiler_outlet_enthalpy_def fdiv_ok upt_rec
        aget_def py_index_def)
  from boiler_batch_pointwise [OF f, of 1 1100 "300.9" 0 2] show ?thesis using f by simp
qed

end
