(* ===== verification/Electrolyzer.thy ===== *)
theory Electrolyzer
  imports Prelude
begin

text \<open>
  The PEM electrolyzer kernels: cell voltage and the Newton solver for the current density of a power
  setpoint.
\<close>

section \<open>Kernels\<close>

text \<open>The electrochemical parameters both kernels take.\<close>

record pem_params =
  pp_T :: real
  pp_P_op :: real
  pp_R :: real
  pp_F :: real
  pp_z :: int
  pp_alpha :: real
  pp_j0 :: real
  pp_j_lim :: real
  pp_delta_mem :: real
  pp_sigma_base :: real
  pp_P_ref :: real

definition pem_U_rev :: "pem_params \<Rightarrow> real res" where
  "pem_U_rev p =
     res_bind (fdiv (pp_P_op p) (pp_P_ref p)) (\<lambda>pressure_ratio.
     res_bind (fdiv (pp_R p * pp_T p) (of_int (pp_z p) * pp_F p)) (\<lambda>q.
     res_bind (fpow pressure_ratio 1.5) (\<lambda>a. res_bind (np_log a) (\<lambda>l.
     Inr (1.229 - 0.9 / 10 ^ 3 * (pp_T p - 298.15) + q * l)))))"

definition pem_eta_conc :: "pem_params \<Rightarrow> real \<Rightarrow> real res" where
  "pem_eta_conc p j =
     (if j \<ge> pp_j_lim p then Inr 100
      else res_bind (fdiv (pp_R p * pp_T p) (of_int (pp_z p) * pp_F p)) (\<lambda>q.
        res_bind (fdiv (pp_j_lim p) (pp_j_lim p - max j (1 / 10 ^ 10))) (\<lambda>r.
        res_bind (np_log r) (\<lambda>l. Inr (q * l)))))"

definition calculate_pem_voltage_jit :: "real \<Rightarrow> pem_params \<Rightarrow> real res" where
  "calculate_pem_voltage_jit j p =
     res_bind (pem_U_rev p) (\<lambda>U_rev.
     let j_safe = max j (1 / 10 ^ 10) in
     res_bind (fdiv (pp_R p * pp_T p) (pp_alpha p * of_int (pp_z p) * pp_F p)) (\<lambda>b.
     res_bind (fdiv j_safe (pp_j0 p)) (\<lambda>r.
     res_bind (np_log r) (\<lambda>l.
     res_bind (fdiv (pp_delta_mem p) (pp_sigma_base p)) (\<lambda>asr.
     res_bind (pem_eta_conc p j) (\<lambda>eta_conc.
     Inr (U_rev + b * l + j * asr + eta_conc)))))))"

definition pem_power :: "real \<Rightarrow> real \<Rightarrow> real \<Rightarrow> pem_params \<Rightarrow> real \<Rightarrow> real res" where
  "pem_power Area_Total P_bop_fixo k_bop_var p x =
     res_bind (calculate_pem_voltage_jit x p) (\<lambda>V_c. Inr (x * Area_Total * V_c * (1 + k_bop_var) + P_bop_fixo))"

definition pem_newton_step ::
    "real \<Rightarrow> real \<Rightarrow> real \<Rightarrow> real \<Rightarrow> pem_params \<Rightarrow> real \<Rightarrow> real \<Rightarrow> (real, real) ctl res" where
  "pem_newton_step target_power_W Area_Total P_bop_fixo k_bop_var p tol x =
     res_bind (pem_power Area_Total P_bop_fixo k_bop_var p x) (\<lambda>P_total.
     let fx = P_total - target_power_W in
     if \<bar>fx\<bar> < tol then Inr (Return x)
     else let delta = 1 / 10 ^ 5 in
       res_bind (pem_power Area_Total P_bop_fixo k_bop_var p (x + delta)) (\<lambda>P_total_d.
       let dfx = ((P_total_d - target_power_W) - fx) / delta in
       if dfx = 0 then Inr (Break x)
       else res_bind (fdiv fx dfx) (\<lambda>step.
         let x1 = x - step;
             x2 = (if x1 < 1 / 10 ^ 6 then 1 / 10 ^ 6 else x1);
             x3 = (if x2 > pp_j_lim p - 0.01 then pp_j_lim p - 0.01 else x2)
         in Inr (Next x3))))"

definition solve_pem_j_jit ::
    "real \<Rightarrow> real \<Rightarrow> real \<Rightarrow> real \<Rightarrow> real \<Rightarrow> pem_params \<Rightarrow> nat \<Rightarrow> real \<Rightarrow> real res" where
  "solve_pem_j_jit target_power_W Area_Total P_bop_fixo k_bop_var j_guess p max_iter tol =
     res_bind (for_range max_iter (\<lambda>_. pem_newton_step target_power_W Area_Total P_bop_fixo k_bop_var p tol) j_guess)
       (\<lambda>c. case c of Next x \<Rightarrow> Inr x | Break x \<Rightarrow> Inr x | Return x \<Rightarrow> Inr x)"

section \<open>The voltage\<close>

definition pem_ok :: "pem_params \<Rightarrow> bool" where
  "pem_ok p \<longleftrightarrow> 0 < pp_T p \<and> pp_T p \<le> 1000 \<and> 0 < pp_P_ref p \<and> pp_P_ref p \<le> pp_P_op p \<and> 0 < pp_R p \<and> 0 < pp_F p
     \<and> 0 < pp_z p \<and> 0 < pp_alpha p \<and> 1 / 10 ^ 10 \<le> pp_j0 p \<and> pp_j0 p < pp_j_lim p
     \<and> 0 \<le> pp_delta_mem p \<and> 0 < pp_sigma_base p"

definition pem_voltage :: "pem_params \<Rightarrow> real \<Rightarrow> real" where
  "pem_voltage p j =
     (1.229 - 0.9 / 10 ^ 3 * (pp_T p - 298.15)
        + pp_R p * pp_T p / (of_int (pp_z p) * pp_F p) * ln ((pp_P_op p / pp_P_ref p) powr 1.5))
     + pp_R p * pp_T p / (pp_alpha p * of_int (pp_z p) * pp_F p) * ln (max j (1 / 10 ^ 10) / pp_j0 p)
     + j * (pp_delta_mem p / pp_sigma_base p)
     + (if j \<ge> pp_j_lim p then 100
        else pp_R p * pp_T p / (of_int (pp_z p) * pp_F p) * ln (pp_j_lim p / (pp_j_lim p - max j (1 / 10 ^ 10))))"

lemma pem_voltage_value:
  assumes "pem_ok p"
  shows "calculate_pem_voltage_jit j p = Inr (pem_voltage p j)"
proof -
  have p: "0 < pp_P_op p / pp_P_ref p" "of_int (pp_z p) * pp_F p \<noteq> 0" "pp_alpha p * of_int (pp_z p) * pp_F p \<noteq> 0"
      "pp_sigma_base p \<noteq> 0" "pp_P_ref p \<noteq> 0" "0 < pp_j0 p" "1 / 10 ^ 10 < pp_j_lim p"
    using assms by (auto simp: pem_ok_def)
  have jr: "0 < max j (1 / 10 ^ 10) / pp_j0 p" "pp_j0 p \<noteq> 0" using p(6) by (simp_all add: less_max_iff_disj)
  have u: "pem_U_rev p = Inr (1.229 - 0.9 / 10 ^ 3 * (pp_T p - 298.15)
        + pp_R p * pp_T p / (of_int (pp_z p) * pp_F p) * ln ((pp_P_op p / pp_P_ref p) powr 1.5))"
    unfolding pem_U_rev_def fdiv_ok [OF p(5)] res_bind.simps fdiv_ok [OF p(2)] fpow_pos [OF p(1)]
    using p(1) by (subst np_log_ok) auto
  have e: "pem_eta_conc p j = Inr (if j \<ge> pp_j_lim p then 100
        else pp_R p * pp_T p / (of_int (pp_z p) * pp_F p) * ln (pp_j_lim p / (pp_j_lim p - max j (1 / 10 ^ 10))))"
  proof (cases "pp_j_lim p \<le> j")
    case False
    then have d: "pp_j_lim p - max j (1 / 10 ^ 10) \<noteq> 0" "0 < pp_j_lim p / (pp_j_lim p - max j (1 / 10 ^ 10))"
      using p(7) by (auto simp: less_trans [of 0 "1 / 10 ^ 10" "pp_j_lim p"])
    show ?thesis unfolding pem_eta_conc_def fdiv_ok [OF p(2)] fdiv_ok [OF d(1)] res_bind.simps np_log_ok [OF d(2)]
      using False by simp
  qed (simp add: pem_eta_conc_def)
  show ?thesis
    unfolding calculate_pem_voltage_jit_def u e Let_def res_bind.simps fdiv_ok [OF p(3)] fdiv_ok [OF p(4)]
      fdiv_ok [OF jr(2)] np_log_ok [OF jr(1)] pem_voltage_def by simp
qed

lemma pem_ok_consts:
  assumes "pem_ok p"
  shows "0 < pp_R p * pp_T p / (of_int (pp_z p) * pp_F p)" "0 < pp_R p * pp_T p / (pp_alpha p * of_int (pp_z p) * pp_F p)"
    "0 \<le> pp_delta_mem p / pp_sigma_base p"
  using assms by (simp_all add: pem_ok_def)

lemma pem_voltage_strict:
  assumes "pem_ok p" and "pp_j0 p \<le> j" "j < j'" "j' < pp_j_lim p"
  shows "pem_voltage p j < pem_voltage p j'"
proof -
  have j: "max j (1 / 10 ^ 10) = j" "max j' (1 / 10 ^ 10) = j'" "0 < pp_j0 p"
    using assms by (auto simp: pem_ok_def max_def less_le_trans [of 0 "1 / 10 ^ 10"])
  have "ln (j / pp_j0 p) < ln (j' / pp_j0 p)" using assms j by (simp add: divide_strict_right_mono)
  moreover have "ln (pp_j_lim p / (pp_j_lim p - j)) < ln (pp_j_lim p / (pp_j_lim p - j'))"
    using assms j by (simp add: frac_less2)
  moreover have "j * (pp_delta_mem p / pp_sigma_base p) \<le> j' * (pp_delta_mem p / pp_sigma_base p)"
    using assms pem_ok_consts(3) [OF assms(1)] by (intro mult_right_mono) auto
  moreover note mult_strict_left_mono [OF calculation(1) pem_ok_consts(2) [OF assms(1)]]
    mult_strict_left_mono [OF calculation(2) pem_ok_consts(1) [OF assms(1)]]
  ultimately show ?thesis using assms unfolding pem_voltage_def j by simp
qed

lemma pem_voltage_floor:
  assumes "pem_ok p" and "pp_j0 p \<le> j"
  shows "0.59 \<le> pem_voltage p j"
proof -
  have j: "max j (1 / 10 ^ 10) = j" "0 < pp_j0 p" "0 < j"
    using assms by (auto simp: pem_ok_def max_def less_le_trans [of 0 "1 / 10 ^ 10"])
  have "1 \<le> pp_P_op p / pp_P_ref p" using assms(1) by (simp add: pem_ok_def)
  then have "0 \<le> ln ((pp_P_op p / pp_P_ref p) powr 1.5)" by (simp add: ge_one_powr_ge_zero)
  moreover have "0 \<le> ln (j / pp_j0 p)" using assms(2) j by simp
  moreover have "0 \<le> j * (pp_delta_mem p / pp_sigma_base p)" by (rule mult_nonneg_nonneg [OF less_imp_le [OF j(3)] pem_ok_consts(3) [OF assms(1)]])
  moreover note c = pem_ok_consts(1,2) [OF assms(1), THEN less_imp_le]
  moreover have "0 \<le> (if j \<ge> pp_j_lim p then 100
      else pp_R p * pp_T p / (of_int (pp_z p) * pp_F p) * ln (pp_j_lim p / (pp_j_lim p - j)))"
    using j c(1) by (cases "j \<ge> pp_j_lim p") (simp, simp only: if_False, intro mult_nonneg_nonneg, auto)
  moreover note mult_nonneg_nonneg [OF c(1) calculation(1)] mult_nonneg_nonneg [OF c(2) calculation(2)]
  moreover have "0.59 \<le> 1.229 - 0.9 / 10 ^ 3 * (pp_T p - 298.15)"
  proof -
    have "pp_T p \<le> 1000" using assms(1) by (simp add: pem_ok_def)
    then show ?thesis by (simp add: field_simps)
  qed
  ultimately show ?thesis unfolding pem_voltage_def j by linarith
qed

text \<open>
  Between the exchange and the limiting current density the cell voltage is defined, at least
  0.59 V, and strictly rises with the current density.
\<close>

theorem pem_voltage_increasing:
  assumes "pem_ok p" and "pp_j0 p \<le> j" "j < j'" "j' < pp_j_lim p"
  shows "\<exists>V V'. calculate_pem_voltage_jit j p = Inr V \<and> calculate_pem_voltage_jit j' p = Inr V' \<and> 0.59 \<le> V \<and> V < V'"
  using pem_voltage_value [OF assms(1)] pem_voltage_floor [OF assms(1,2)] pem_voltage_strict [OF assms] assms(3,4)
  by simp

definition nominal_pem :: pem_params where
  "nominal_pem = \<lparr>pp_T = 333, pp_P_op = 3000000, pp_R = 8.314, pp_F = 96485, pp_z = 2, pp_alpha = 0.5, pp_j0 = 1 / 10 ^ 6,
     pp_j_lim = 4, pp_delta_mem = 0.01, pp_sigma_base = 0.1, pp_P_ref = 100000\<rparr>"

lemma nominal_pem_ok: "pem_ok nominal_pem"
  by (simp add: pem_ok_def nominal_pem_def)

theorem pem_voltage_increasing_witness:
  "\<exists>V V'. calculate_pem_voltage_jit 1 nominal_pem = Inr V \<and> calculate_pem_voltage_jit 2 nominal_pem = Inr V'
    \<and> 0.59 \<le> V \<and> V < V'"
  by (rule pem_voltage_increasing [OF nominal_pem_ok]) (simp_all add: nominal_pem_def)

section \<open>The solver\<close>

lemma pem_power_value:
  "pem_ok p \<Longrightarrow> pem_power A B k p x = Inr (x * A * pem_voltage p x * (1 + k) + B)"
  by (simp add: pem_power_def pem_voltage_value)

lemma pem_power_gap:
  assumes "pem_ok p" and "0 < A" "0 \<le> k" and "pp_j0 p \<le> x" "x \<le> y" "y < pp_j_lim p"
  shows "0.59 * A * (1 + k) * (y - x) \<le> y * A * pem_voltage p y * (1 + k) - x * A * pem_voltage p x * (1 + k)"
proof -
  have x: "0 < pp_j0 p" "0 < y" using assms by (auto simp: pem_ok_def less_le_trans [of 0 "1 / 10 ^ 10"])
  have v: "0.59 \<le> pem_voltage p x" "pem_voltage p x \<le> pem_voltage p y"
    using pem_voltage_floor [OF assms(1,4)] pem_voltage_strict [OF assms(1,4)] assms(5,6) by (cases "x = y"; force)+
  have "0.59 * (y - x) \<le> pem_voltage p x * (y - x)" using v(1) assms(5) by (intro mult_right_mono) auto
  also have "\<dots> \<le> y * pem_voltage p y - x * pem_voltage p x"
    using mult_left_mono [OF v(2), of y] x(2) by (simp add: algebra_simps)
  finally have "A * (1 + k) * (0.59 * (y - x)) \<le> A * (1 + k) * (y * pem_voltage p y - x * pem_voltage p x)"
    using assms(2,3) by (intro mult_left_mono) auto
  then show ?thesis by (simp add: algebra_simps)
qed

lemma pem_solver_run:
  fixes target A B k tol guess :: real and p :: pem_params
  defines "in_range \<equiv> \<lambda>x. x = guess \<or> 1 / 10 ^ 6 \<le> x \<and> x \<le> pp_j_lim p - 0.01"
  assumes "pem_ok p" and "1 / 10 ^ 6 \<le> pp_j_lim p - 0.01"
  shows "\<exists>c. for_range n (\<lambda>_. pem_newton_step target A B k p tol) guess = Inr c
    \<and> ctl_all in_range (\<lambda>x. in_range x \<and> \<bar>x * A * pem_voltage p x * (1 + k) + B - target\<bar> < tol) c"
proof (rule for_from_total)
  show "\<exists>c. pem_newton_step target A B k p tol x = Inr c
      \<and> ctl_all in_range (\<lambda>x. in_range x \<and> \<bar>x * A * pem_voltage p x * (1 + k) + B - target\<bar> < tol) c" if "in_range x" for x
  proof -
    define P where "P = (\<lambda>x. x * A * pem_voltage p x * (1 + k) + B)"
    define df where "df = (P (x + 1 / 10 ^ 5) - target - (P x - target)) / (1 / 10 ^ 5)"
    show ?thesis using that assms(3) unfolding in_range_def
      unfolding pem_newton_step_def pem_power_value [OF assms(2)] res_bind.simps Let_def P_def [symmetric] df_def [symmetric]
      by (cases "\<bar>P x - target\<bar> < tol"; cases "df = 0") (simp_all add: fdiv_ok)
  qed
qed (simp add: in_range_def)



end
