(* ===== verification/Deoxo.thy ===== *)
theory Deoxo
  imports Prelude
begin

text \<open>
  The catalytic deoxidation reactor: gradients and Runge-Kutta step of the plug flow, the adaptive
  single-bed integration and the multi-zone integration with its profiles.
\<close>

section \<open>Gradients and the Runge-Kutta step\<close>

record reactor =
  rx_P_in_pa :: real
  rx_molar_flow_total :: real
  rx_Ea :: real
  rx_R :: real
  rx_delta_H :: real
  rx_T_jacket :: real
  rx_Area :: real
  rx_Cp_mix :: real

definition reaction_rate :: "reactor \<Rightarrow> real \<Rightarrow> real \<Rightarrow> real \<Rightarrow> real \<Rightarrow> real res" where
  "reaction_rate rx k0 y_o2 x_c t_c =
     res_bind (fdiv (- rx_Ea rx) (rx_R rx * t_c)) (\<lambda>e.
     let k_eff = k0 * exp e; y_loc = max 0 (y_o2 * (1 - x_c))
     in res_bind (fdiv (rx_P_in_pa rx * y_loc) (rx_R rx * t_c)) (\<lambda>C_o2. Inr (k_eff * C_o2)))"

definition get_grads_local ::
    "reactor \<Rightarrow> real \<Rightarrow> real \<Rightarrow> real \<Rightarrow> real \<Rightarrow> real \<times> real \<Rightarrow> (real \<times> real) res" where
  "get_grads_local rx k0 U_a y_o2 F_o2_in state = (case state of (x_c, t_c) \<Rightarrow>
     res_bind (fdiv (rx_Area rx) (rx_molar_flow_total rx * rx_Cp_mix rx)) (\<lambda>q.
     if x_c \<ge> 1 then Inr (0, q * (- U_a * (t_c - rx_T_jacket rx)))
     else res_bind (reaction_rate rx k0 y_o2 x_c t_c) (\<lambda>r.
       res_bind (fdiv (rx_Area rx) F_o2_in) (\<lambda>a.
       let gen = - rx_delta_H rx * r; rem = U_a * (t_c - rx_T_jacket rx)
       in Inr (a * r, q * (gen - rem))))))"

definition rk4_step ::
    "reactor \<Rightarrow> real \<Rightarrow> real \<Rightarrow> real \<Rightarrow> real \<Rightarrow> real \<Rightarrow> real \<times> real \<Rightarrow> (real \<times> real) res" where
  "rk4_step rx k0 U_a y_o2 F_o2_in dL state = (case state of (X, T) \<Rightarrow>
     let grads = get_grads_local rx k0 U_a y_o2 F_o2_in in
     res_bind (grads (X, T)) (\<lambda>(k1_X, k1_T).
     res_bind (grads (X + 0.5 * dL * k1_X, T + 0.5 * dL * k1_T)) (\<lambda>(k2_X, k2_T).
     res_bind (grads (X + 0.5 * dL * k2_X, T + 0.5 * dL * k2_T)) (\<lambda>(k3_X, k3_T).
     res_bind (grads (X + dL * k3_X, T + dL * k3_T)) (\<lambda>(k4_X, k4_T).
     Inr (X + (dL / 6) * (k1_X + 2 * k2_X + 2 * k3_X + k4_X), T + (dL / 6) * (k1_T + 2 * k2_T + 2 * k3_T + k4_T)))))))"

section \<open>The single bed\<close>

type_synonym profile = "(real \<times> real \<times> real) list"

record pfr_state =
  pf_L :: real
  pf_X :: real
  pf_T :: real
  pf_T_max :: real
  pf_hist :: profile

definition record_history :: "pfr_state \<Rightarrow> pfr_state" where
  "record_history s =
     (if length (pf_hist s) < 10000 then s\<lparr>pf_hist := pf_hist s @ [(pf_L s, pf_T s, pf_X s)]\<rparr> else s)"

definition adaptive_dL :: "real \<Rightarrow> real \<Rightarrow> real \<times> real \<Rightarrow> real res" where
  "adaptive_dL L_total L_curr est = (case est of (dx_est, dt_est) \<Rightarrow>
     res_bind (if dx_est > 1 / 10 ^ 9 then fdiv 0.005 dx_est else Inr (L_total * 0.1)) (\<lambda>dL_target.
     res_bind (if \<bar>dt_est\<bar> > 1 / 10 ^ 9 then res_bind (fdiv 5 \<bar>dt_est\<bar>) (\<lambda>dL_temp. Inr (min dL_target dL_temp))
               else Inr dL_target) (\<lambda>dL_target'.
     Inr (max (min dL_target' (L_total - L_curr)) (1 / 10 ^ 6)))))"

definition pfr_body ::
    "reactor \<Rightarrow> real \<Rightarrow> real \<Rightarrow> real \<Rightarrow> real \<Rightarrow> real \<Rightarrow> pfr_state \<Rightarrow> (pfr_state, unit) ctl res" where
  "pfr_body rx k0 U_a y_o2_in y_o2_target L_total s =
     (let F_o2_in = rx_molar_flow_total rx * y_o2_in; X = pf_X s; T = pf_T s in
      if pf_L s \<ge> L_total then Inr (Break s)
      else if y_o2_target > 0 \<and> y_o2_in * (1 - X) \<le> y_o2_target then
        res_bind (if U_a > 0 then res_bind (fdiv (rx_Area rx) (rx_molar_flow_total rx * rx_Cp_mix rx)) (\<lambda>q.
                    Inr (q * (- U_a * (T - rx_T_jacket rx)))) else Inr 0) (\<lambda>dt_est.
        let dL = min (L_total - pf_L s) (L_total / 100) in
        Inr (Next (record_history (s\<lparr>pf_T := T + dt_est * dL, pf_L := pf_L s + dL\<rparr>))))
      else
        res_bind (get_grads_local rx k0 U_a y_o2_in F_o2_in (X, T)) (\<lambda>est.
        res_bind (adaptive_dL L_total (pf_L s) est) (\<lambda>dL.
        res_bind (rk4_step rx k0 U_a y_o2_in F_o2_in dL (X, T)) (\<lambda>(X_next, T_next).
        Inr (Next (record_history (s\<lparr>pf_X := min 1 X_next, pf_T := T_next,
          pf_T_max := (if T_next > pf_T_max s then T_next else pf_T_max s), pf_L := pf_L s + dL\<rparr>)))))))"

definition solve_deoxo_pfr_step ::
    "real \<Rightarrow> real \<Rightarrow> reactor \<Rightarrow> real \<Rightarrow> real \<Rightarrow> real \<Rightarrow> real \<Rightarrow> (real \<times> real \<times> real \<times> profile) res" where
  "solve_deoxo_pfr_step L_total T_in rx y_o2_in k0 U_a y_o2_target =
     (if rx_molar_flow_total rx * y_o2_in \<le> 1 / 10 ^ 12 then Inr (0, T_in, T_in, [(0, T_in, 0)])
      else res_bind (for_range 10000 (\<lambda>_. pfr_body rx k0 U_a y_o2_in y_o2_target L_total)
             \<lparr>pf_L = 0, pf_X = 0, pf_T = T_in, pf_T_max = T_in, pf_hist = [(0, T_in, 0)]\<rparr>) (\<lambda>c.
        res_bind (loop_state c) (\<lambda>s. Inr (pf_X s, pf_T s, pf_T_max s, pf_hist s))))"

section \<open>The zones\<close>

record zone_state =
  zs_offset :: real
  zs_T :: real
  zs_y :: real
  zs_T_max :: real
  zs_X :: real
  zs_hist :: profile

text \<open>Writing at the current index of arrays of fixed size.\<close>

definition append_point :: "nat \<Rightarrow> real \<times> real \<times> real \<Rightarrow> profile \<Rightarrow> profile res" where
  "append_point total_max_points p hist = (if length hist < total_max_points then Inr (hist @ [p]) else Inl IndexError)"

definition zone_step ::
    "reactor \<Rightarrow> real \<Rightarrow> real \<Rightarrow> real \<Rightarrow> real \<Rightarrow> real \<Rightarrow> nat \<Rightarrow> real \<Rightarrow> real
      \<Rightarrow> real \<times> real \<times> real \<times> real \<times> profile \<Rightarrow> (real \<times> real \<times> real \<times> real \<times> profile) res" where
  "zone_step rx k0 U_a y_o2 F dL total_max_points offset X_global st = (case st of (X_local, T_local, L_local, T_max, hist) \<Rightarrow>
     res_bind (rk4_step rx k0 U_a y_o2 F dL (X_local, T_local)) (\<lambda>(X_next, T_next).
     let X_local' = min 1 (max 0 X_next); L_local' = L_local + dL;
         T_max' = (if T_next > T_max then T_next else T_max);
         current_global_X = 1 - (1 - X_global) * (1 - X_local')
     in res_bind (append_point total_max_points (offset + L_local', T_next, current_global_X) hist) (\<lambda>hist'.
        Inr (X_local', T_next, L_local', T_max', hist'))))"

definition zone_body ::
    "reactor \<Rightarrow> real list \<Rightarrow> real list \<Rightarrow> real list \<Rightarrow> nat \<Rightarrow> nat \<Rightarrow> nat \<Rightarrow> zone_state \<Rightarrow> zone_state res" where
  "zone_body rx L_zones k0_zones U_a_zones max_steps total_max_points z s =
     res_bind (aget L_zones (int z)) (\<lambda>L_zone.
     if L_zone \<le> 1 / 10 ^ 6 then Inr s
     else res_bind (aget k0_zones (int z)) (\<lambda>k0. res_bind (aget U_a_zones (int z)) (\<lambda>U_a.
       let F = rx_molar_flow_total rx * zs_y s; flow_Cp = rx_molar_flow_total rx * rx_Cp_mix rx in
       if F \<le> 1 / 10 ^ 12 then
         let offset = zs_offset s + L_zone in
         res_bind (if U_a > 0 \<and> flow_Cp > 0 then
                     res_bind (fdiv (U_a * rx_Area rx * L_zone) flow_Cp) (\<lambda>NTU.
                     Inr (rx_T_jacket rx + (zs_T s - rx_T_jacket rx) * exp (- NTU)))
                   else Inr (zs_T s)) (\<lambda>T_curr.
         res_bind (append_point total_max_points (offset, T_curr, zs_X s) (zs_hist s)) (\<lambda>hist.
         Inr (s\<lparr>zs_offset := offset, zs_T := T_curr, zs_hist := hist\<rparr>)))
       else
         res_bind (fdiv L_zone (real max_steps)) (\<lambda>dL.
         res_bind (fold_range max_steps (\<lambda>_. zone_step rx k0 U_a (zs_y s) F dL total_max_points (zs_offset s) (zs_X s))
             (0, zs_T s, 0, zs_T_max s, zs_hist s)) (\<lambda>(X_local, T_local, L_local, T_max, hist).
         Inr (s\<lparr>zs_offset := zs_offset s + L_zone, zs_T := T_local, zs_T_max := T_max,
                zs_X := 1 - (1 - zs_X s) * (1 - X_local), zs_y := zs_y s * (1 - X_local), zs_hist := hist\<rparr>))))))"

definition solve_deoxo_multizone_jit ::
    "real list \<Rightarrow> real list \<Rightarrow> real list \<Rightarrow> real \<Rightarrow> reactor \<Rightarrow> real \<Rightarrow> nat \<Rightarrow> (real \<times> real \<times> real \<times> profile) res" where
  "solve_deoxo_multizone_jit L_zones k0_zones U_a_zones T_in rx y_o2_in max_steps =
     (let num_zones = length L_zones; total_max_points = num_zones * (max_steps + 1) + 1 in
      res_bind (fold_range num_zones (zone_body rx L_zones k0_zones U_a_zones max_steps total_max_points)
        \<lparr>zs_offset = 0, zs_T = T_in, zs_y = y_o2_in, zs_T_max = T_in, zs_X = 0, zs_hist = [(0, T_in, 0)]\<rparr>) (\<lambda>s.
      Inr (zs_X s, zs_T s, zs_T_max s, zs_hist s)))"

section \<open>The adiabatic bed\<close>

definition adiabatic :: "reactor \<Rightarrow> real \<Rightarrow> real \<Rightarrow> bool" where
  "adiabatic rx k0 y_o2_in \<longleftrightarrow> 0 \<le> rx_P_in_pa rx \<and> 0 < rx_molar_flow_total rx \<and> 0 < rx_R rx \<and> rx_delta_H rx \<le> 0
     \<and> 0 < rx_Area rx \<and> 0 < rx_Cp_mix rx \<and> 0 \<le> k0 \<and> 0 < y_o2_in"

definition rise_per_conversion :: "reactor \<Rightarrow> real \<Rightarrow> real" where
  "rise_per_conversion rx y_o2_in = - rx_delta_H rx * y_o2_in / rx_Cp_mix rx"

lemma rise_nonneg: "adiabatic rx k0 y \<Longrightarrow> 0 \<le> rise_per_conversion rx y"
  by (simp add: adiabatic_def rise_per_conversion_def divide_nonpos_pos mult_nonpos_nonneg)

lemma adiabatic_grads:
  assumes "adiabatic rx k0 y" and "0 < T"
  obtains dx where "get_grads_local rx k0 0 y (rx_molar_flow_total rx * y) (X, T)
      = Inr (dx, rise_per_conversion rx y * dx)" and "0 \<le> dx" and "1 \<le> X \<Longrightarrow> dx = 0"
proof (cases "1 \<le> X")
  case True
  then show ?thesis using assms that [of 0] by (simp add: get_grads_local_def adiabatic_def fdiv_ok)
next
  case False
  define r where "r = k0 * exp (- rx_Ea rx / (rx_R rx * T)) * (rx_P_in_pa rx * max 0 (y * (1 - X)) / (rx_R rx * T))"
  have RT: "rx_R rx * T \<noteq> 0" using assms by (auto simp: adiabatic_def)
  have r: "reaction_rate rx k0 y X T = Inr r"
    unfolding reaction_rate_def fdiv_ok [OF RT] by (simp add: r_def)
  have pos: "0 < rx_molar_flow_total rx" "0 < y" "0 < rx_Cp_mix rx" "0 < rx_Area rx"
    using assms(1) by (auto simp: adiabatic_def)
  have "0 \<le> r" using assms by (simp add: r_def adiabatic_def)
  then have "0 \<le> rx_Area rx / (rx_molar_flow_total rx * y) * r" using pos by simp
  moreover have "rx_Area rx / (rx_molar_flow_total rx * rx_Cp_mix rx) * (- rx_delta_H rx * r)
      = rise_per_conversion rx y * (rx_Area rx / (rx_molar_flow_total rx * y) * r)"
    using pos by (simp add: rise_per_conversion_def mult.commute mult.left_commute)
  ultimately show ?thesis
    using that [of "rx_Area rx / (rx_molar_flow_total rx * y) * r"] False pos
    unfolding get_grads_local_def prod.case r by (simp add: fdiv_ok)
qed

lemma adiabatic_rk4:
  assumes "adiabatic rx k0 y" and "0 < T" and "0 \<le> dL"
  obtains dX where "rk4_step rx k0 0 y (rx_molar_flow_total rx * y) dL (X, T)
      = Inr (X + dX, T + rise_per_conversion rx y * dX)" and "0 \<le> dX"
proof -
  let ?g = "get_grads_local rx k0 0 y (rx_molar_flow_total rx * y)" and ?k = "rise_per_conversion rx y"
  have k: "0 \<le> ?k" using rise_nonneg [OF assms(1)] .
  obtain d1 where d1: "?g (X, T) = Inr (d1, ?k * d1)" "0 \<le> d1" using adiabatic_grads [OF assms(1,2)] by metis
  have "0 < T + 0.5 * dL * (?k * d1)" using assms(2,3) k d1(2) by (simp add: add_pos_nonneg)
  then obtain d2 where d2: "?g (X + 0.5 * dL * d1, T + 0.5 * dL * (?k * d1)) = Inr (d2, ?k * d2)" "0 \<le> d2"
    using adiabatic_grads [OF assms(1)] by metis
  have "0 < T + 0.5 * dL * (?k * d2)" using assms(2,3) k d2(2) by (simp add: add_pos_nonneg)
  then obtain d3 where d3: "?g (X + 0.5 * dL * d2, T + 0.5 * dL * (?k * d2)) = Inr (d3, ?k * d3)" "0 \<le> d3"
    using adiabatic_grads [OF assms(1)] by metis
  have "0 < T + dL * (?k * d3)" using assms(2,3) k d3(2) by (simp add: add_pos_nonneg)
  then obtain d4 where d4: "?g (X + dL * d3, T + dL * (?k * d3)) = Inr (d4, ?k * d4)" "0 \<le> d4"
    using adiabatic_grads [OF assms(1)] by metis
  let ?d = "dL / 6 * (d1 + 2 * d2 + 2 * d3 + d4)"
  have "0 \<le> ?d" using assms(3) d1(2) d2(2) d3(2) d4(2) by simp
  moreover have "rk4_step rx k0 0 y (rx_molar_flow_total rx * y) dL (X, T) = Inr (X + ?d, T + ?k * ?d)"
    unfolding rk4_step_def prod.case Let_def d1(1) res_bind.simps d2(1) d3(1) d4(1) by (simp add: algebra_simps)
  ultimately show ?thesis using that by blast
qed

text \<open>The loop invariant of the adiabatic bed.\<close>

definition adiabatic_inv :: "reactor \<Rightarrow> real \<Rightarrow> real \<Rightarrow> pfr_state \<Rightarrow> bool" where
  "adiabatic_inv rx y T_in s \<longleftrightarrow> 0 \<le> pf_X s \<and> pf_X s \<le> 1
     \<and> T_in + rise_per_conversion rx y * pf_X s \<le> pf_T s \<and> (pf_X s < 1 \<longrightarrow> pf_T s = T_in + rise_per_conversion rx y * pf_X s)
     \<and> pf_T_max s = pf_T s"

lemma record_history_simps [simp]:
  "pf_X (record_history s) = pf_X s" "pf_T (record_history s) = pf_T s" "pf_T_max (record_history s) = pf_T_max s"
  "pf_L (record_history s) = pf_L s"
  by (simp_all add: record_history_def)

lemma adaptive_dL_positive: "\<exists>dL. adaptive_dL L_total L est = Inr dL \<and> 0 \<le> dL"
proof (cases est)
  case (Pair dx dt)
  show ?thesis
    by (cases "dx > 1 / 10 ^ 9"; cases "\<bar>dt\<bar> > 1 / 10 ^ 9") (auto simp: adaptive_dL_def Pair fdiv_def)
qed

lemma pfr_body_adiabatic:
  assumes "adiabatic rx k0 y" and "0 < T_in" and "adiabatic_inv rx y T_in s"
  shows "\<exists>c. pfr_body rx k0 0 y target L_total s = Inr c \<and> ctl_all (adiabatic_inv rx y T_in) (\<lambda>_. False) c"
proof -
  have k: "0 \<le> rise_per_conversion rx y" using rise_nonneg [OF assms(1)] .
  have i: "0 \<le> pf_X s" "pf_X s \<le> 1" "T_in + rise_per_conversion rx y * pf_X s \<le> pf_T s" "pf_T_max s = pf_T s"
    "pf_X s < 1 \<Longrightarrow> pf_T s = T_in + rise_per_conversion rx y * pf_X s"
    using assms(3) by (auto simp: adiabatic_inv_def)
  have T: "0 < pf_T s" using i(3) assms(2) mult_nonneg_nonneg [OF k i(1)] by linarith
  consider "L_total \<le> pf_L s" | "pf_L s < L_total" "target > 0 \<and> y * (1 - pf_X s) \<le> target"
    | "pf_L s < L_total" "\<not> (target > 0 \<and> y * (1 - pf_X s) \<le> target)" by linarith
  then show ?thesis
  proof cases
    case 3
    obtain est where est: "get_grads_local rx k0 0 y (rx_molar_flow_total rx * y) (pf_X s, pf_T s) = Inr est"
      using adiabatic_grads [OF assms(1) T] by metis
    obtain dL where dL: "adaptive_dL L_total (pf_L s) est = Inr dL" "0 \<le> dL" using adaptive_dL_positive by metis
    obtain dX where dX: "rk4_step rx k0 0 y (rx_molar_flow_total rx * y) dL (pf_X s, pf_T s)
        = Inr (pf_X s + dX, pf_T s + rise_per_conversion rx y * dX)" "0 \<le> dX"
      by (rule adiabatic_rk4 [OF assms(1) T dL(2)])
    let ?s' = "record_history (s\<lparr>pf_X := min 1 (pf_X s + dX), pf_T := pf_T s + rise_per_conversion rx y * dX,
          pf_T_max := (if pf_T s + rise_per_conversion rx y * dX > pf_T_max s
            then pf_T s + rise_per_conversion rx y * dX else pf_T_max s), pf_L := pf_L s + dL\<rparr>)"
    have "pfr_body rx k0 0 y target L_total s = Inr (Next ?s')"
    proof -
      have c: "(pf_L s \<ge> L_total) = False" "(target > 0 \<and> y * (1 - pf_X s) \<le> target) = False" using 3 by auto
      show ?thesis unfolding pfr_body_def Let_def est res_bind.simps dL(1) dX(1) prod.case c if_False ..
    qed
    moreover have "adiabatic_inv rx y T_in ?s'"
    proof -
      have kd: "0 \<le> rise_per_conversion rx y * dX" using k dX(2) by simp
      have "T_in + rise_per_conversion rx y * min 1 (pf_X s + dX) \<le> pf_T s + rise_per_conversion rx y * dX"
      proof -
        have "rise_per_conversion rx y * min 1 (pf_X s + dX) \<le> rise_per_conversion rx y * (pf_X s + dX)"
          using k by (intro mult_left_mono) auto
        then show ?thesis using i(3) by (simp add: distrib_left)
      qed
      moreover have "pf_T s + rise_per_conversion rx y * dX = T_in + rise_per_conversion rx y * min 1 (pf_X s + dX)"
        if "min 1 (pf_X s + dX) < 1"
        using that i(5) dX(2) by (auto simp: min_def distrib_left split: if_splits)
      ultimately show ?thesis using i(1,4) dX(2) kd by (auto simp: adiabatic_inv_def)
    qed
    ultimately show ?thesis by simp
  qed (use assms(3) in \<open>auto simp: pfr_body_def Let_def adiabatic_inv_def\<close>)
qed


definition pilot_reactor :: reactor where
  "pilot_reactor = \<lparr>rx_P_in_pa = 3000000, rx_molar_flow_total = 10, rx_Ea = 50000, rx_R = 8.314, rx_delta_H = - 480000,
     rx_T_jacket = 300, rx_Area = 0.1, rx_Cp_mix = 30\<rparr>"


section \<open>Profiles of the zones\<close>

text \<open>Computations that can only fail by a division by zero.\<close>

definition sound :: "('a \<Rightarrow> bool) \<Rightarrow> 'a res \<Rightarrow> bool" where
  "sound P r \<longleftrightarrow> (case r of Inr x \<Rightarrow> P x | Inl e \<Rightarrow> e = ZeroDivisionError)"

lemma sound_Inr [simp]: "sound P (Inr x) = P x"
  by (simp add: sound_def)

lemma sound_fdiv: "sound (\<lambda>_. True) (fdiv a b)"
  by (simp add: sound_def fdiv_def)

lemma sound_bind: "sound P r \<Longrightarrow> (\<And>x. P x \<Longrightarrow> sound Q (f x)) \<Longrightarrow> sound Q (res_bind r f)"
  by (cases r) (auto simp: sound_def)

lemma sound_fold:
  assumes "\<And>j s. i \<le> j \<Longrightarrow> j < i + n \<Longrightarrow> I j s \<Longrightarrow> sound (I (Suc j)) (body j s)" and "I i s"
  shows "sound (I (i + n)) (fold_from i n body s)"
  using assms
proof (induction n arbitrary: i s)
  case (Suc n)
  have "sound (I (Suc i + n)) (fold_from (Suc i) n body s')" if "I (Suc i) s'" for s'
    by (rule Suc.IH) (use Suc.prems that in auto)
  moreover have "sound (I (Suc i)) (body i s)" by (rule Suc.prems) (use Suc.prems(2) in auto)
  ultimately show ?case by (auto intro: sound_bind)
qed simp

lemma sound_grads: "sound (\<lambda>_. True) (get_grads_local rx k0 U y F st)"
  by (auto simp: sound_def get_grads_local_def reaction_rate_def fdiv_def Let_def split: prod.splits)

lemma sound_rk4: "sound (\<lambda>_. True) (rk4_step rx k0 U y F dL st)"
  unfolding rk4_step_def Let_def case_prod_unfold
  by (intro sound_bind [OF sound_grads]) simp

definition step_inv ::
    "real \<Rightarrow> real \<Rightarrow> real \<Rightarrow> profile \<Rightarrow> nat \<Rightarrow> real \<times> real \<times> real \<times> real \<times> profile \<Rightarrow> bool" where
  "step_inv dL offset T_in h j st \<longleftrightarrow> (case st of (X, T, L, T_max, hist) \<Rightarrow>
     0 \<le> X \<and> X \<le> 1 \<and> L = real j * dL \<and> T_in \<le> T_max \<and> length hist = length h + j \<and> hist \<noteq> []
     \<and> (\<forall>(L, T, X) \<in> set hist. 0 \<le> X \<and> X \<le> 1) \<and> fst (last hist) = offset + L)"

lemma global_conversion:
  fixes X Y :: real
  assumes "0 \<le> X" "X \<le> 1" "0 \<le> Y" "Y \<le> 1"
  shows "0 \<le> 1 - (1 - X) * (1 - Y)" "1 - (1 - X) * (1 - Y) \<le> 1" "X \<le> 1 - (1 - X) * (1 - Y)"
proof -
  have "(1 - X) * (1 - Y) \<le> (1 - X) * 1" using assms by (intro mult_left_mono) auto
  then show "X \<le> 1 - (1 - X) * (1 - Y)" "0 \<le> 1 - (1 - X) * (1 - Y)" using assms(1) by auto
  show "1 - (1 - X) * (1 - Y) \<le> 1" using assms by simp
qed

lemma zone_step_sound:
  assumes "step_inv dL offset T_in h j st" and "length h + j < n" and "0 \<le> X_global" "X_global \<le> 1"
  shows "sound (step_inv dL offset T_in h (Suc j)) (zone_step rx k0 U y F dL n offset X_global st)"
proof -
  obtain X T L Tm hist where st: "st = (X, T, L, Tm, hist)" by (metis prod_cases5)
  have i: "length hist < n" using assms(1,2) by (simp add: step_inv_def st)
  have X: "0 \<le> min 1 (max 0 z) \<and> min 1 (max 0 z) \<le> 1" for z :: real by simp
  show ?thesis unfolding st zone_step_def prod.case
  proof (rule sound_bind [OF sound_rk4])
    fix z :: "real \<times> real"
    obtain X_next T_next where z: "z = (X_next, T_next)" by fastforce
    show "sound (step_inv dL offset T_in h (Suc j)) (case z of (X_next, T_next) \<Rightarrow>
        let X_local' = min 1 (max 0 X_next); L_local' = L + dL;
            T_max' = (if T_next > Tm then T_next else Tm);
            current_global_X = 1 - (1 - X_global) * (1 - X_local')
        in res_bind (append_point n (offset + L_local', T_next, current_global_X) hist) (\<lambda>hist'.
           Inr (X_local', T_next, L_local', T_max', hist')))"
      using assms(1) i global_conversion(1,2) [OF assms(3,4), of "min 1 (max 0 X_next)"]
      by (auto simp: z st Let_def append_point_def step_inv_def algebra_simps)
  qed
qed

definition zones_inv :: "real list \<Rightarrow> real \<Rightarrow> real \<Rightarrow> nat \<Rightarrow> nat \<Rightarrow> zone_state \<Rightarrow> bool" where
  "zones_inv L_zones T_in y_o2_in max_steps z s \<longleftrightarrow>
     0 \<le> zs_X s \<and> zs_X s \<le> 1 \<and> zs_y s = y_o2_in * (1 - zs_X s) \<and> T_in \<le> zs_T_max s
     \<and> length (zs_hist s) \<le> z * (max_steps + 1) + 1 \<and> zs_hist s \<noteq> []
     \<and> (\<forall>(L, T, X) \<in> set (zs_hist s). 0 \<le> X \<and> X \<le> 1)
     \<and> zs_offset s = (\<Sum>i < z. if L_zones ! i \<le> 1 / 10 ^ 6 then 0 else L_zones ! i)
     \<and> fst (last (zs_hist s)) = zs_offset s"

lemma zone_body_sound:
  assumes "zones_inv L_zones T_in y max_steps z s" and "z < length L_zones" and "0 < max_steps"
    and "length k0_zones = length L_zones" "length U_a_zones = length L_zones"
  shows "sound (zones_inv L_zones T_in y max_steps (Suc z))
    (zone_body rx L_zones k0_zones U_a_zones max_steps (length L_zones * (max_steps + 1) + 1) z s)"
proof -
  let ?n = "length L_zones * (max_steps + 1) + 1" and ?L = "L_zones ! z"
  let ?F = "rx_molar_flow_total rx * zs_y s" and ?C = "rx_molar_flow_total rx * rx_Cp_mix rx"
  note i = assms(1) [unfolded zones_inv_def]
  have "Suc z * (max_steps + 1) \<le> length L_zones * (max_steps + 1)" using assms(2) by (intro mult_le_mono1) simp
  then have room: "length (zs_hist s) + max_steps < ?n" using i by simp
  have g: "aget L_zones (int z) = Inr ?L" "aget k0_zones (int z) = Inr (k0_zones ! z)"
      "aget U_a_zones (int z) = Inr (U_a_zones ! z)"
    using assms(2,4,5) by (simp_all add: aget_nat)
  consider "?L \<le> 1 / 10 ^ 6" | "1 / 10 ^ 6 < ?L" "?F \<le> 1 / 10 ^ 12" | "1 / 10 ^ 6 < ?L" "1 / 10 ^ 12 < ?F" by linarith
  then show ?thesis
  proof cases
    case 1
    then show ?thesis using i unfolding zone_body_def g by (simp add: zones_inv_def)
  next
    case 2
    then have c: "(?L \<le> 1 / 10 ^ 6) = False" "(?F \<le> 1 / 10 ^ 12) = True" by auto
    have "sound (\<lambda>_. True) (if U_a_zones ! z > 0 \<and> ?C > 0 then
            res_bind (fdiv (U_a_zones ! z * rx_Area rx * ?L) ?C) (\<lambda>NTU.
            Inr (rx_T_jacket rx + (zs_T s - rx_T_jacket rx) * exp (- NTU))) else Inr (zs_T s))"
      by (simp add: sound_def fdiv_def)
    then show ?thesis unfolding zone_body_def g res_bind.simps Let_def c if_False if_True
      by (rule sound_bind) (use i room c in \<open>auto simp: append_point_def zones_inv_def\<close>)
  next
    case 3
    then have c: "(?L \<le> 1 / 10 ^ 6) = False" "(?F \<le> 1 / 10 ^ 12) = False" by auto
    have m: "real max_steps \<noteq> 0" using assms(3) by simp
    let ?dL = "?L / real max_steps"
    have "step_inv ?dL (zs_offset s) T_in (zs_hist s) 0 (0, zs_T s, 0, zs_T_max s, zs_hist s)"
      using i by (auto simp: step_inv_def)
    then have "sound (step_inv ?dL (zs_offset s) T_in (zs_hist s) (0 + max_steps))
        (fold_range max_steps (\<lambda>_. zone_step rx (k0_zones ! z) (U_a_zones ! z) (zs_y s) ?F ?dL ?n (zs_offset s) (zs_X s))
          (0, zs_T s, 0, zs_T_max s, zs_hist s))"
      by (intro sound_fold zone_step_sound) (use i room in auto)
    then show ?thesis unfolding zone_body_def g res_bind.simps Let_def c if_False fdiv_ok [OF m]
    proof (rule sound_bind)
      fix r assume r: "step_inv ?dL (zs_offset s) T_in (zs_hist s) (0 + max_steps) r"
      obtain X T L Tm hist where e: "r = (X, T, L, Tm, hist)" by (metis prod_cases5)
      have "0 \<le> X" "X \<le> 1" using r by (auto simp: step_inv_def e)
      then show "sound (zones_inv L_zones T_in y max_steps (Suc z)) (case r of (X_local, T_local, L_local, T_max, hist) \<Rightarrow>
          Inr (s\<lparr>zs_offset := zs_offset s + ?L, zs_T := T_local, zs_T_max := T_max,
                zs_X := 1 - (1 - zs_X s) * (1 - X_local), zs_y := zs_y s * (1 - X_local), zs_hist := hist\<rparr>))"
        using r i c m global_conversion [of "zs_X s" X] by (auto simp: e step_inv_def zones_inv_def)
    qed
  qed
qed

text \<open>
  C39: the multi-zone profile is sound: with one kinetic factor and one transfer coefficient per zone the
  run never writes outside its arrays and fails only by a division by zero; when it returns, the overall
  conversion and every point of the profile are between 0 and 1, the hot spot is not below the inlet,
  and the last point lies at the summed length of the zones that are long enough to count.
\<close>

theorem multizone_profile_sound:
  assumes "0 < max_steps" and "length k0_zones = length L_zones" "length U_a_zones = length L_zones"
  shows "solve_deoxo_multizone_jit L_zones k0_zones U_a_zones T_in rx y max_steps = Inl ZeroDivisionError
    \<or> (\<exists>X T T_peak hist. solve_deoxo_multizone_jit L_zones k0_zones U_a_zones T_in rx y max_steps = Inr (X, T, T_peak, hist)
        \<and> 0 \<le> X \<and> X \<le> 1 \<and> T_in \<le> T_peak \<and> (\<forall>(L, T, X) \<in> set hist. 0 \<le> X \<and> X \<le> 1)
        \<and> 0 < length hist \<and> length hist \<le> length L_zones * (max_steps + 1) + 1
        \<and> fst (last hist) = (\<Sum>i < length L_zones. if L_zones ! i \<le> 1 / 10 ^ 6 then 0 else L_zones ! i))"
proof -
  let ?s0 = "\<lparr>zs_offset = 0, zs_T = T_in, zs_y = y, zs_T_max = T_in, zs_X = 0, zs_hist = [(0, T_in, 0)]\<rparr>"
  let ?b = "zone_body rx L_zones k0_zones U_a_zones max_steps (length L_zones * (max_steps + 1) + 1)"
  have "zones_inv L_zones T_in y max_steps 0 ?s0" by (simp add: zones_inv_def)
  then have "sound (zones_inv L_zones T_in y max_steps (0 + length L_zones)) (fold_range (length L_zones) ?b ?s0)"
    by (intro sound_fold zone_body_sound) (use assms in auto)
  then show ?thesis
    by (cases "fold_range (length L_zones) ?b ?s0")
      (auto simp: solve_deoxo_multizone_jit_def sound_def zones_inv_def)
qed

theorem multizone_profile_sound_witness:
  "\<exists>X T hist. solve_deoxo_multizone_jit [2] [0] [0] 350 (pilot_reactor\<lparr>rx_molar_flow_total := 0.5, rx_Cp_mix := 30\<rparr>) 0 50 = Inr (X, T, 350, hist)
    \<and> fst (last hist) = 2"
  using multizone_profile_sound [of 50 "[0]" "[2]" "[0]" 350 "pilot_reactor\<lparr>rx_molar_flow_total := 0.5, rx_Cp_mix := 30\<rparr>" 0]
  by (auto simp: solve_deoxo_multizone_jit_def zone_body_def aget_def py_index_def append_point_def)

end
