(* ===== verification/Flash.thy ===== *)
theory Flash
  imports LutManager Thermo
begin

text \<open>
  The iterative flash solvers: temperature from internal energy (UV) and from enthalpy (PH), the remapping
  of stream compositions to table order, and the interchanger outlet by bisection over the flash of its
  water.
\<close>

section \<open>Newton solvers over the mixture enthalpy\<close>

definition uv_newton_step ::
    "real \<Rightarrow> real list \<Rightarrow> real list \<Rightarrow> real list list \<Rightarrow> real \<Rightarrow> real \<Rightarrow> real \<Rightarrow> (real, real) ctl res" where
  "uv_newton_step target_u_molar ys hs m R_gas tol T =
     res_bind (calculate_mixture_enthalpy T ys hs m 298.15) (\<lambda>h_mix.
     let u_calc = h_mix - R_gas * T; f = u_calc - target_u_molar in
     if \<bar>f\<bar> < tol then Inr (Return T)
     else res_bind (calculate_mixture_cp T ys m) (\<lambda>cp_mix.
       let df = cp_mix - R_gas in
       if df = 0 then Inr (Break T)
       else res_bind (fdiv f df) (\<lambda>step.
         let T1 = T - step;
             T2 = (if T1 < 10 then 10 else T1);
             T_new = (if T2 > 5000 then 5000 else T2)
         in Inr (if \<bar>T_new - T\<bar> < tol then Return T_new else Next T_new))))"

definition solve_uv_flash ::
    "real \<Rightarrow> real \<Rightarrow> real \<Rightarrow> real list \<Rightarrow> real list \<Rightarrow> real list list \<Rightarrow> real \<Rightarrow> real \<Rightarrow> real \<Rightarrow> nat \<Rightarrow> real res" where
  "solve_uv_flash target_u_molar volume_m3 total_moles ys hs m T_guess R_gas tol max_iter =
     (if total_moles \<le> 0 \<or> volume_m3 \<le> 0 then Inr T_guess
      else res_bind (for_range max_iter (\<lambda>_. uv_newton_step target_u_molar ys hs m R_gas tol) T_guess)
        (\<lambda>c. Inr (ctl_value c)))"

definition ph_newton_step ::
    "real \<Rightarrow> real list \<Rightarrow> real list \<Rightarrow> real list list \<Rightarrow> real \<Rightarrow> real \<Rightarrow> (real, real) ctl res" where
  "ph_newton_step h_target_molar ys hs m tol T =
     res_bind (calculate_mixture_enthalpy T ys hs m 298.15) (\<lambda>h_calc.
     res_bind (calculate_mixture_cp T ys m) (\<lambda>cp_calc.
     if \<bar>cp_calc\<bar> < 1 / 10 ^ 4 then Inr (Break T)
     else res_bind (fdiv (h_target_molar - h_calc) cp_calc) (\<lambda>delta_T.
       let T_new = T + delta_T in
       Inr (if \<bar>delta_T\<bar> < tol then Break T_new
            else Next (if T_new < 275 then 275 else if T_new > 5000 then 5000 else T_new)))))"

definition solve_ph_flash_jit ::
    "real \<Rightarrow> real list \<Rightarrow> real list \<Rightarrow> real list list \<Rightarrow> real \<Rightarrow> real \<Rightarrow> nat \<Rightarrow> real res" where
  "solve_ph_flash_jit h_target_molar ys hs m T_guess tol max_iter =
     res_bind (for_range max_iter (\<lambda>_. ph_newton_step h_target_molar ys hs m tol) T_guess) (\<lambda>c. Inr (ctl_value c))"

section \<open>Table order\<close>

definition remap_canonical_to_lut :: "real list \<Rightarrow> real \<Rightarrow> int list \<Rightarrow> real list res" where
  "remap_canonical_to_lut canonical_fracs h2o_liq_frac species_map =
     res_bind (map_res (\<lambda>idx. if idx \<ge> 0 then aget canonical_fracs idx else Inr 0) species_map) (\<lambda>lut_fracs.
     Inr (case find (\<lambda>i. species_map ! i = 5) [0..<length species_map] of
            None \<Rightarrow> lut_fracs
          | Some i \<Rightarrow> lut_fracs[i := lut_fracs ! i + h2o_liq_frac]))"

section \<open>The interchanger outlet\<close>

definition antoine_psat :: "real \<Rightarrow> real res" where
  "antoine_psat T_k =
     (let T_C0 = T_k - 273.15; T_C = (if T_C0 < 0.01 then 0.01 else T_C0) in
      res_bind (fdiv 1730.63 (233.426 + T_C)) (\<lambda>q.
      res_bind (fpow 10 (8.07131 - q)) (\<lambda>p_mmhg. Inr (p_mmhg * 133.322))))"

text \<open>A coordinate held inside a grid, and whether that changed it.\<close>

definition grid_lookup :: "real list \<Rightarrow> real \<Rightarrow> (real \<times> bool) res" where
  "grid_lookup g x =
     res_bind (aget g 0) (\<lambda>lo. res_bind (aget g (- 1)) (\<lambda>hi.
     Inr (if x < lo then (lo, True) else if x > hi then (hi, True) else (x, False))))"

definition inerts_mw :: "real \<Rightarrow> real \<Rightarrow> real res" where
  "inerts_mw z_h2o_mole M_mix_feed =
     (if 1 - z_h2o_mole > 1 / 10 ^ 9 then fdiv (M_mix_feed - z_h2o_mole * 0.018015) (1 - z_h2o_mole) else Inr 0.028)"

text \<open>The flash of the water and its masses: vapor fraction, gas and liquid mass shares, water in the gas.\<close>

definition phase_split :: "real \<Rightarrow> real \<Rightarrow> real \<Rightarrow> real \<Rightarrow> (real \<times> real \<times> real \<times> real \<times> real) res" where
  "phase_split z_h2o_mole mw_inerts_avg P_system T_mid =
     res_bind (antoine_psat T_mid) (\<lambda>P_sat.
     res_bind (fdiv P_sat P_system) (\<lambda>K_w.
     res_bind (if K_w \<ge> 1 \<or> z_h2o_mole < 1 / 10 ^ 12 \<or> z_h2o_mole \<le> K_w then Inr 1
               else res_bind (fdiv (1 - z_h2o_mole) (1 - K_w)) (\<lambda>b. Inr (if b < 0 then 0 else if b > 1 then 1 else b))) (\<lambda>beta.
     let y_w = (if beta < 0.9999 \<and> K_w < 1 then K_w else z_h2o_mole);
         mw_gas = y_w * 0.018015 + (1 - y_w) * mw_inerts_avg;
         mass_gas = beta * mw_gas;
         mass_liq = (1 - beta) * 0.018015
     in res_bind (if mass_gas + mass_liq > 0 then fdiv mass_gas (mass_gas + mass_liq) else Inr 1) (\<lambda>psi_gas.
        res_bind (if mw_gas > 0 then fdiv (y_w * 0.018015) mw_gas else Inr 0) (\<lambda>w_w_gas.
        Inr (beta, psi_gas, 1 - psi_gas, y_w, w_w_gas))))))"

definition inert_enthalpy ::
    "real list \<Rightarrow> ptable list \<Rightarrow> int \<Rightarrow> int \<Rightarrow> real \<Rightarrow> real \<Rightarrow> real res" where
  "inert_enthalpy lut_mass_fracs stacked_H ix_p iy_t wp wt =
     res_bind (fold_range (length stacked_H) (\<lambda>i (h_inert_spec, total_w_inert).
         res_bind (aget lut_mass_fracs (int i)) (\<lambda>w_i.
         if w_i < 1 / 10 ^ 12 \<or> i = 5 then Inr (h_inert_spec, total_w_inert)
         else res_bind (aget stacked_H (int i)) (\<lambda>H_table.
           res_bind (interp_from_weights_jit H_table ix_p iy_t wp wt) (\<lambda>h_i.
           Inr (h_inert_spec + w_i * h_i, total_w_inert + w_i))))) (0, 0)) (\<lambda>(h, w).
     if w > 0 then fdiv h w else Inr h)"

text \<open>The outlet enthalpy at a candidate temperature, with the flash it rests on.\<close>

record interchanger =
  ic_z_h2o_mole :: real
  ic_M_mix_feed :: real
  ic_P_system :: real
  ic_lut_mass_fracs :: "real list"
  ic_stacked_H :: "ptable list"
  ic_P_grid :: "real list"
  ic_T_grid :: "real list"

definition outlet_enthalpy :: "interchanger \<Rightarrow> real \<Rightarrow> int \<Rightarrow> real \<Rightarrow> real \<Rightarrow> (real \<times> real \<times> bool) res" where
  "outlet_enthalpy ic mw_inerts_avg ix_p wp T_mid =
     res_bind (phase_split (ic_z_h2o_mole ic) mw_inerts_avg (ic_P_system ic) T_mid) (\<lambda>(beta, psi_gas, psi_liq, y_w, w_w_gas).
     res_bind (grid_lookup (ic_T_grid ic) T_mid) (\<lambda>(T_lookup, T_clamped).
     res_bind (axis_weight (ic_T_grid ic) T_lookup) (\<lambda>(iy_t, wt).
     res_bind (inert_enthalpy (ic_lut_mass_fracs ic) (ic_stacked_H ic) ix_p iy_t wp wt) (\<lambda>h_inert_spec.
     res_bind (aget (ic_P_grid ic) 0) (\<lambda>p_first. res_bind (aget (ic_P_grid ic) (- 1)) (\<lambda>p_last.
     let p0 = max p_first (ic_P_system ic * max y_w (1 / 10 ^ 6));
         p_h2o = (if p0 > p_last then p_last else p0)
     in res_bind (axis_weight (ic_P_grid ic) p_h2o) (\<lambda>(ix_pw, wpw).
        res_bind (aget (ic_stacked_H ic) 5) (\<lambda>H_w.
        res_bind (interp_from_weights_jit H_w ix_pw iy_t wpw wt) (\<lambda>h_vap_w.
        res_bind (interp_from_weights_jit H_w ix_p iy_t wp wt) (\<lambda>h_liq_w.
        let h_gas_spec = w_w_gas * h_vap_w + (1 - w_w_gas) * h_inert_spec
        in Inr (psi_gas * h_gas_spec + psi_liq * h_liq_w, beta, T_clamped)))))))))))"

record ic_state =
  is_T_lo :: real
  is_T_hi :: real
  is_T_sol :: real
  is_beta_sol :: real
  is_was_clamped :: bool

definition interchanger_step ::
    "interchanger \<Rightarrow> real \<Rightarrow> int \<Rightarrow> real \<Rightarrow> real \<Rightarrow> real \<Rightarrow> ic_state \<Rightarrow> (ic_state, unit) ctl res" where
  "interchanger_step ic mw_inerts_avg ix_p wp h_target tol s =
     (let T_mid = 0.5 * (is_T_lo s + is_T_hi s) in
      res_bind (outlet_enthalpy ic mw_inerts_avg ix_p wp T_mid) (\<lambda>(h_calc, beta, T_clamped).
      let s1 = s\<lparr>is_T_sol := T_mid, is_beta_sol := beta, is_was_clamped := is_was_clamped s \<or> T_clamped\<rparr> in
      Inr (if \<bar>h_calc - h_target\<bar> < tol then Break s1
           else if h_calc > h_target then Next (s1\<lparr>is_T_hi := T_mid\<rparr>)
           else Next (s1\<lparr>is_T_lo := T_mid\<rparr>))))"

definition solve_interchanger_flash_jit ::
    "interchanger \<Rightarrow> real \<Rightarrow> real \<Rightarrow> nat \<Rightarrow> real \<Rightarrow> (real \<times> real \<times> bool) res" where
  "solve_interchanger_flash_jit ic h_target T_h_in max_iter tol =
     res_bind (grid_lookup (ic_P_grid ic) (ic_P_system ic)) (\<lambda>(P_lookup, P_clamped).
     res_bind (axis_weight (ic_P_grid ic) P_lookup) (\<lambda>(ix_p, wp).
     res_bind (inerts_mw (ic_z_h2o_mole ic) (ic_M_mix_feed ic)) (\<lambda>mw_inerts_avg.
     res_bind (for_range max_iter (\<lambda>_. interchanger_step ic mw_inerts_avg ix_p wp h_target tol)
         \<lparr>is_T_lo = 273.16, is_T_hi = max T_h_in 500, is_T_sol = T_h_in, is_beta_sol = 1, is_was_clamped = P_clamped\<rparr>) (\<lambda>c.
     res_bind (loop_state c) (\<lambda>s. Inr (is_T_sol s, is_beta_sol s, is_was_clamped s))))))"

section \<open>The flash of the water\<close>

definition psat :: "real \<Rightarrow> real" where
  "psat T = 10 powr (8.07131 - 1730.63 / (233.426 + max (T - 273.15) 0.01)) * 133.322"

lemma antoine_value: "antoine_psat T = Inr (psat T)"
proof -
  have p: "233.426 + max (T - 273.15) 0.01 \<noteq> (0::real)" by (auto simp: max_def)
  have m: "(if T - 273.15 < 0.01 then 0.01 else T - 273.15) = max (T - 273.15) (0.01::real)" by (simp add: max_def)
  show ?thesis unfolding antoine_psat_def Let_def m fdiv_ok [OF p] res_bind.simps
    by (simp add: fpow_pos psat_def del: divide_const_simps)
qed

lemma psat_pos: "0 < psat T"
  by (simp add: psat_def)

lemma phase_split_value:
  assumes "0 < P"
  obtains beta psi y w g where "phase_split z mw P T = Inr (beta, psi, 1 - psi, y, w)"
    and "solve_rachford_rice_single_condensable z (psat T / P) = Inr beta" and "0 \<le> beta" and "beta \<le> 1"
    and "y = (if beta < 0.9999 \<and> psat T / P < 1 then psat T / P else z)"
    and "g = y * 0.018015 + (1 - y) * mw"
    and "psi = (if beta * g + (1 - beta) * 0.018015 > 0 then beta * g / (beta * g + (1 - beta) * 0.018015) else 1)"
    and "w = (if g > 0 then y * 0.018015 / g else 0)"
proof -
  let ?K = "psat T / P"
  obtain beta where b: "solve_rachford_rice_single_condensable z ?K = Inr beta" "0 \<le> beta" "beta \<le> 1"
      "(if ?K \<ge> 1 \<or> z < 1 / 10 ^ 12 \<or> z \<le> ?K then Inr 1
        else res_bind (fdiv (1 - z) (1 - ?K)) (\<lambda>b. Inr (if b < 0 then 0 else if b > 1 then 1 else b))) = Inr beta"
  proof (cases "?K \<ge> 1 \<or> z < 1 / 10 ^ 12 \<or> z \<le> ?K")
    case True
    then show ?thesis using that [of 1] by (auto simp: solve_rachford_rice_single_condensable_def)
  next
    case False
    let ?q = "(1 - z) / (1 - ?K)"
    have K: "1 - ?K \<noteq> 0" using False by auto
    show ?thesis
      by (rule that [of "if ?q < 0 then 0 else if ?q > 1 then 1 else ?q"])
        (use False in \<open>simp_all add: solve_rachford_rice_single_condensable_def fdiv_ok [OF K]\<close>)
  qed
  define y where "y = (if beta < 0.9999 \<and> ?K < 1 then ?K else z)"
  define g where "g = y * 0.018015 + (1 - y) * mw"
  define psi where "psi = (if beta * g + (1 - beta) * 0.018015 > 0 then beta * g / (beta * g + (1 - beta) * 0.018015) else 1)"
  define w where "w = (if g > 0 then y * 0.018015 / g else 0)"
  have f: "(if beta * g + (1 - beta) * 0.018015 > 0 then fdiv (beta * g) (beta * g + (1 - beta) * 0.018015) else Inr 1) = Inr psi"
      "(if g > 0 then fdiv (y * 0.018015) g else Inr 0) = Inr w"
    by (simp_all add: psi_def w_def fdiv_def)
  have "phase_split z mw P T = Inr (beta, psi, 1 - psi, y, w)"
    using assms unfolding phase_split_def antoine_value res_bind.simps
    by (simp only: fdiv_ok [of P] res_bind.simps b(4) Let_def y_def [symmetric] g_def [symmetric] f simp_thms less_imp_neq [symmetric])
  then show ?thesis by (rule that [OF _ b(1-3) y_def g_def psi_def w_def])
qed

lemma split_masses:
  fixes b :: real
  shows "b * (y * W + (1 - y) * m) + (1 - b) * W = (b * y + (1 - b)) * W + (b * (1 - y)) * m"
  by (simp add: algebra_simps)

lemma split_share: "psi = a / M \<Longrightarrow> a + b = M \<Longrightarrow> M \<noteq> 0 \<Longrightarrow> 1 - psi = b / (M :: real)"
  by (auto simp: field_simps)

lemma rachford_rice_balance:
  assumes "solve_rachford_rice_single_condensable z K = Inr beta" "0 < K" "z < 1" "beta < 0.9999 \<or> beta = 1"
    and y: "y = (if beta < 0.9999 \<and> K < 1 then K else z)"
  shows "beta * y + (1 - beta) = z \<and> beta * (1 - y) = 1 - z"
proof (cases "beta = 1")
  case True
  then show ?thesis using y by simp
next
  case False
  then have nb: "K < 1" "1 / 10 ^ 12 \<le> z" "K < z" "beta < 0.9999"
    using assms(1,4) by (auto simp: solve_rachford_rice_single_condensable_def split: if_splits)
  have q: "0 \<le> (1 - z) / (1 - K)" "(1 - z) / (1 - K) \<le> 1" "1 - K \<noteq> 0"
    using nb assms(3) by (simp_all add: pos_divide_le_eq)
  have "beta = (1 - z) / (1 - K)"
    using assms(1) nb q(1,2) unfolding solve_rachford_rice_single_condensable_def fdiv_ok [OF q(3)] by (auto split: if_splits)
  then have "beta * (1 - K) = 1 - z"
    using nonzero_divide_eq_eq [OF q(3), of "1 - z" beta] by metis
  then show ?thesis using y nb by (simp add: algebra_simps)
qed

lemma split_water:
  fixes beta y g mw psi w M z :: real
  assumes "beta * y + (1 - beta) = z" "beta * (1 - y) = 1 - z" "(1 - z) * mw = M - z * W" "0 < M" "0 < g"
    and g: "g = y * W + (1 - y) * mw" and psi: "psi = beta * g / (beta * g + (1 - beta) * W)" and w: "w = y * W / g"
  shows "psi * w + (1 - psi) = z * W / M"
proof -
  have "beta * g + (1 - beta) * W = (beta * y + (1 - beta)) * W + (beta * (1 - y)) * mw"
    unfolding g by (rule split_masses)
  also have "\<dots> = M" using assms(1-3) by simp
  finally have m: "beta * g + (1 - beta) * W = M" .
  have p: "psi = beta * g / M" using psi m by simp
  have "psi * w = beta * y * W / M" using p w assms(5) by simp
  moreover have "1 - psi = (1 - beta) * W / M" using split_share [OF p m] assms(4) by simp
  ultimately have "psi * w + (1 - psi) = (beta * y + (1 - beta)) * W / M"
    by (simp add: add_divide_distrib [symmetric] distrib_right)
  then show ?thesis using assms(1) by simp
qed

text \<open>
  The phase split conserves water: for a feed with inert gas the split returns, its vapor fraction is
  the flash of the feed at the saturation pressure over the system pressure, the mass shares are shares,
  and whenever the vapor fraction is one or below 0.9999 the water in gas and liquid adds up to the mass
  fraction of water in the feed.
\<close>

theorem phase_split_conserves_water:
  assumes "0 < z" and "z < 1 - 1 / 10 ^ 9" and "z * 0.018015 < M" and "0 < P"
  shows "\<exists>mw beta psi_gas psi_liq y w. inerts_mw z M = Inr mw \<and> phase_split z mw P T = Inr (beta, psi_gas, psi_liq, y, w)
    \<and> solve_rachford_rice_single_condensable z (psat T / P) = Inr beta
    \<and> 0 \<le> psi_gas \<and> psi_gas \<le> 1 \<and> psi_gas + psi_liq = 1 \<and> 0 \<le> w \<and> w \<le> 1
    \<and> (beta < 0.9999 \<or> beta = 1 \<longrightarrow> psi_gas * w + psi_liq = z * 0.018015 / M)"
proof -
  let ?K = "psat T / P"
  have z1: "z < 1" using assms(2) by simp
  define mw where "mw = (M - z * 0.018015) / (1 - z)"
  have mw: "inerts_mw z M = Inr mw" "0 < mw" "(1 - z) * mw = M - z * 0.018015"
    using assms by (simp_all add: inerts_mw_def mw_def fdiv_ok)
  have M: "0 < M" by (rule less_trans [OF _ assms(3)]) (use assms(1) in simp)
  have K: "0 < ?K" using psat_pos assms(4) by simp
  obtain beta psi y w g where s: "phase_split z mw P T = Inr (beta, psi, 1 - psi, y, w)"
      "solve_rachford_rice_single_condensable z ?K = Inr beta" "0 \<le> beta" "beta \<le> 1"
      "y = (if beta < 0.9999 \<and> ?K < 1 then ?K else z)"
      "g = y * 0.018015 + (1 - y) * mw"
      "psi = (if beta * g + (1 - beta) * 0.018015 > 0 then beta * g / (beta * g + (1 - beta) * 0.018015) else 1)"
      "w = (if g > 0 then y * 0.018015 / g else 0)"
    by (rule phase_split_value [OF assms(4), of z mw T])
  note g_def = s(6)
  have y: "0 < y" "y \<le> 1" using s(5) K assms(1,2) by auto
  have i: "0 \<le> (1 - y) * mw" using y(2) mw(2) by simp
  then have g: "0 < g" "y * 0.018015 \<le> g" using y(1) by (auto simp: g_def)
  have tot: "0 < beta * g + (1 - beta) * 0.018015"
    using s(3,4) g(1) by (cases "beta = 0") (auto intro: add_pos_nonneg)
  have psi: "psi = beta * g / (beta * g + (1 - beta) * 0.018015)" and w: "w = y * 0.018015 / g"
    using s(7,8) tot g(1) by simp_all
  have "0 \<le> psi" "psi \<le> 1" using psi tot s(3,4) g(1) by (simp_all add: divide_le_eq)
  moreover have "0 \<le> w" "w \<le> 1" using w g y(1) by (simp_all add: divide_le_eq)
  moreover have "psi + (1 - psi) = 1" by simp
  moreover have "psi * w + (1 - psi) = z * 0.018015 / M" if b: "beta < 0.9999 \<or> beta = 1"
    using rachford_rice_balance [OF s(2) K z1 b s(5)] split_water [OF _ _ mw(3) M g(1) g_def psi w] by blast
  moreover note mw(1) s(1,2)
  ultimately show ?thesis
    apply -
    apply (rule exI [of _ mw], rule exI [of _ beta], rule exI [of _ psi], rule exI [of _ "1 - psi"], rule exI [of _ y],
        rule exI [of _ w])
    apply (intro conjI impI; assumption?)
    done
qed

theorem phase_split_conserves_water_witness:
  "\<exists>mw beta psi_gas psi_liq y w. inerts_mw 0.5 0.01 = Inr mw \<and> phase_split 0.5 mw 3000000 320 = Inr (beta, psi_gas, psi_liq, y, w)
    \<and> psi_gas + psi_liq = 1"
  using phase_split_conserves_water [of "0.5" "0.01" 3000000 320] by auto

section \<open>The outlet enthalpy is defined\<close>

definition interchanger_ok :: "interchanger \<Rightarrow> bool" where
  "interchanger_ok ic \<longleftrightarrow> sorted_grid (ic_P_grid ic) \<and> sorted_grid (ic_T_grid ic) \<and> 0 < ic_P_system ic
     \<and> 6 \<le> length (ic_stacked_H ic) \<and> length (ic_stacked_H ic) \<le> length (ic_lut_mass_fracs ic)
     \<and> (\<forall>tab \<in> set (ic_stacked_H ic). table_for (ic_P_grid ic) (ic_T_grid ic) tab)"

lemma inert_enthalpy_total:
  assumes "interchanger_ok ic" and "Suc i < length (ic_P_grid ic)" and "Suc j < length (ic_T_grid ic)"
  shows "\<exists>h. inert_enthalpy (ic_lut_mass_fracs ic) (ic_stacked_H ic) (int i) (int j) wp wt = Inr h"
proof -
  let ?body = "\<lambda>i' (h_inert_spec, total_w_inert).
         res_bind (aget (ic_lut_mass_fracs ic) (int i')) (\<lambda>w_i.
         if w_i < 1 / 10 ^ 12 \<or> i' = 5 then Inr (h_inert_spec, total_w_inert)
         else res_bind (aget (ic_stacked_H ic) (int i')) (\<lambda>H_table.
           res_bind (interp_from_weights_jit H_table (int i) (int j) wp wt) (\<lambda>h_i.
           Inr (h_inert_spec + w_i * h_i, total_w_inert + w_i))))"
  have "\<exists>s'. fold_range (length (ic_stacked_H ic)) ?body (0, 0) = Inr s' \<and> True"
  proof (rule fold_from_total_inv)
    fix k and s :: "real \<times> real" assume "k < 0 + length (ic_stacked_H ic)"
    then have k: "k < length (ic_stacked_H ic)" "k < length (ic_lut_mass_fracs ic)"
      using assms(1) by (auto simp: interchanger_ok_def)
    then have "table_for (ic_P_grid ic) (ic_T_grid ic) (ic_stacked_H ic ! k)"
      using assms(1) by (simp add: interchanger_ok_def)
    from interp_from_weights_lerp [OF this assms(2,3)] k show "\<exists>s'. ?body k s = Inr s' \<and> True"
      by (cases s) (simp add: aget_nat)
  qed simp
  then obtain h w where hw: "fold_range (length (ic_stacked_H ic)) ?body (0, 0) = Inr (h, w)" by auto
  show ?thesis unfolding inert_enthalpy_def hw res_bind.simps prod.case by (auto simp: fdiv_def)
qed

lemma grid_lookup_value:
  "sorted_grid g \<Longrightarrow> grid_lookup g x = Inr (clamp (g ! 0) (last g) x, x < g ! 0 \<or> last g < x)"
  using sorted_grid.first_less_last [of g] by (auto simp: grid_lookup_def sorted_grid.ends clamp_def)

lemma outlet_enthalpy_total:
  assumes ok: "interchanger_ok ic" and "Suc i < length (ic_P_grid ic)"
  shows "\<exists>h beta. outlet_enthalpy ic mw (int i) wp T
      = Inr (h, beta, T < ic_T_grid ic ! 0 \<or> last (ic_T_grid ic) < T) \<and> 0 \<le> beta \<and> beta \<le> 1"
proof -
  have g: "sorted_grid (ic_P_grid ic)" "sorted_grid (ic_T_grid ic)" and P: "0 < ic_P_system ic"
    and len: "5 < length (ic_stacked_H ic)"
    using ok by (auto simp: interchanger_ok_def)
  obtain beta psi y w where s: "phase_split (ic_z_h2o_mole ic) mw (ic_P_system ic) T = Inr (beta, psi, 1 - psi, y, w)"
      "0 \<le> beta" "beta \<le> 1"
    using phase_split_value [OF P] by metis
  obtain j wt where j: "axis_weight (ic_T_grid ic) (clamp (ic_T_grid ic ! 0) (last (ic_T_grid ic)) T) = Inr (int j, wt)"
      "Suc j < length (ic_T_grid ic)"
    using sorted_grid.axis_weight_law [OF g(2)] by metis
  obtain h_in where h: "inert_enthalpy (ic_lut_mass_fracs ic) (ic_stacked_H ic) (int i) (int j) wp wt = Inr h_in"
    using inert_enthalpy_total [OF ok assms(2) j(2)] by blast
  let ?p0 = "max (ic_P_grid ic ! 0) (ic_P_system ic * max y (1 / 10 ^ 6))"
  obtain k wpw where k: "axis_weight (ic_P_grid ic) (if ?p0 > last (ic_P_grid ic) then last (ic_P_grid ic) else ?p0) = Inr (int k, wpw)"
      "Suc k < length (ic_P_grid ic)"
    using sorted_grid.axis_weight_law [OF g(1)] by metis
  have H5: "aget (ic_stacked_H ic) 5 = Inr (ic_stacked_H ic ! 5)" using len by (simp add: aget_nonneg)
  have t: "table_for (ic_P_grid ic) (ic_T_grid ic) (ic_stacked_H ic ! 5)" using ok len by (auto simp: interchanger_ok_def)
  obtain hv where hv: "interp_from_weights_jit (ic_stacked_H ic ! 5) (int k) (int j) wpw wt = Inr hv"
    using interp_from_weights_lerp [OF t k(2) j(2)] by blast
  obtain hl where hl: "interp_from_weights_jit (ic_stacked_H ic ! 5) (int i) (int j) wp wt = Inr hl"
    using interp_from_weights_lerp [OF t assms(2) j(2)] by blast
  have "outlet_enthalpy ic mw (int i) wp T
      = Inr (psi * (w * hv + (1 - w) * h_in) + (1 - psi) * hl, beta, T < ic_T_grid ic ! 0 \<or> last (ic_T_grid ic) < T)"
    unfolding outlet_enthalpy_def s(1) grid_lookup_value [OF g(2)] res_bind.simps prod.case j(1) h
      sorted_grid.ends [OF g(1)] Let_def k(1) H5 hv hl ..
  then show ?thesis using s(2,3) by blast
qed

section \<open>The search for the outlet temperature\<close>

lemma inerts_mw_total: "\<exists>mw. inerts_mw z M = Inr mw"
proof (cases "1 - z > 1 / 10 ^ 9")
  case True
  then show ?thesis by (auto simp: inerts_mw_def fdiv_def)
next
  case False
  then show ?thesis by (simp only: inerts_mw_def if_False) blast
qed

text \<open>The outlet enthalpy as a function of the temperature alone, with its vapor fraction.\<close>

definition outlet_curve :: "interchanger \<Rightarrow> real \<Rightarrow> (real \<times> real \<times> bool) res" where
  "outlet_curve ic T =
     res_bind (grid_lookup (ic_P_grid ic) (ic_P_system ic)) (\<lambda>(P_lookup, _).
     res_bind (axis_weight (ic_P_grid ic) P_lookup) (\<lambda>(ix_p, wp).
     res_bind (inerts_mw (ic_z_h2o_mole ic) (ic_M_mix_feed ic)) (\<lambda>mw. outlet_enthalpy ic mw ix_p wp T)))"

definition outlet_is :: "(real \<Rightarrow> (real \<times> real \<times> bool) res) \<Rightarrow> real \<Rightarrow> (real \<Rightarrow> real \<Rightarrow> bool) \<Rightarrow> bool" where
  "outlet_is curve T Q \<longleftrightarrow> (\<exists>h beta c. curve T = Inr (h, beta, c) \<and> Q h beta)"

lemma outlet_is_mono: "outlet_is curve T Q \<Longrightarrow> (\<And>h b. Q h b \<Longrightarrow> R h b) \<Longrightarrow> outlet_is curve T R"
  by (auto simp: outlet_is_def)

lemma outlet_is_bounds: "outlet_is curve T Q \<Longrightarrow> (\<And>h b. Q h b \<Longrightarrow> R) \<Longrightarrow> R"
  by (auto simp: outlet_is_def)

text \<open>What is known of the bracket and of the last candidate.\<close>

definition searching ::
    "interchanger \<Rightarrow> int \<Rightarrow> (real \<Rightarrow> (real \<times> real \<times> bool) res) \<Rightarrow> real \<Rightarrow> real \<Rightarrow> bool \<Rightarrow> ic_state \<Rightarrow> bool" where
  "searching ic ix curve target T_high P_clamped s \<longleftrightarrow>
     interchanger_ok ic \<and> 0 \<le> ix \<and> nat ix + 1 < length (ic_P_grid ic) \<and> 273.16 < T_high
     \<and> 273.16 \<le> is_T_lo s \<and> is_T_lo s < is_T_hi s \<and> is_T_hi s \<le> T_high
     \<and> (is_T_lo s = 273.16 \<or> outlet_is curve (is_T_lo s) (\<lambda>h _. h \<le> target))
     \<and> (is_T_hi s = T_high \<or> outlet_is curve (is_T_hi s) (\<lambda>h _. target < h))
     \<and> (is_T_hi s - is_T_lo s = T_high - 273.16
        \<or> is_T_sol s \<in> {is_T_lo s, is_T_hi s} \<and> outlet_is curve (is_T_sol s) (\<lambda>_ beta. beta = is_beta_sol s \<and> 0 \<le> beta \<and> beta \<le> 1))
     \<and> (\<not> P_clamped \<and> ic_T_grid ic ! 0 \<le> 273.16 \<and> T_high \<le> last (ic_T_grid ic) \<longrightarrow> \<not> is_was_clamped s)"

definition hit ::
    "interchanger \<Rightarrow> (real \<Rightarrow> (real \<times> real \<times> bool) res) \<Rightarrow> real \<Rightarrow> real \<Rightarrow> real \<Rightarrow> bool \<Rightarrow> ic_state \<Rightarrow> bool" where
  "hit ic curve target tol T_high P_clamped s \<longleftrightarrow> 273.16 \<le> is_T_sol s \<and> is_T_sol s \<le> T_high
     \<and> outlet_is curve (is_T_sol s) (\<lambda>h beta. \<bar>h - target\<bar> < tol \<and> beta = is_beta_sol s \<and> 0 \<le> beta \<and> beta \<le> 1)
     \<and> (\<not> P_clamped \<and> ic_T_grid ic ! 0 \<le> 273.16 \<and> T_high \<le> last (ic_T_grid ic) \<longrightarrow> \<not> is_was_clamped s)"

interpretation interchanger_search: bisection "\<lambda>_. interchanger_step ic mw ix wp target tol" "\<lambda>s. is_T_hi s - is_T_lo s"
    "searching ic ix (outlet_enthalpy ic mw ix wp) target T_high P_clamped"
    "hit ic (outlet_enthalpy ic mw ix wp) target tol T_high P_clamped" "\<lambda>_. False"
  for ic mw ix wp target tol T_high P_clamped
proof
  fix s :: ic_state and i :: nat
  assume I: "searching ic ix (outlet_enthalpy ic mw ix wp) target T_high P_clamped s"
  note I' = I [unfolded searching_def]
  define m where "m = 0.5 * (is_T_lo s + is_T_hi s)"
  have m: "is_T_lo s < m" "m < is_T_hi s" "is_T_hi s - m = (is_T_hi s - is_T_lo s) / 2" "m - is_T_lo s = (is_T_hi s - is_T_lo s) / 2"
    using I' by (simp_all add: m_def field_simps)
  have "\<exists>h beta. outlet_enthalpy ic mw (int (nat ix)) wp m
      = Inr (h, beta, m < ic_T_grid ic ! 0 \<or> last (ic_T_grid ic) < m) \<and> 0 \<le> beta \<and> beta \<le> 1"
    by (rule outlet_enthalpy_total) (use I' in auto)
  then obtain h beta where h: "outlet_enthalpy ic mw ix wp m = Inr (h, beta, m < ic_T_grid ic ! 0 \<or> last (ic_T_grid ic) < m)"
      "0 \<le> beta" "beta \<le> 1"
    using I' by auto
  let ?s1 = "s\<lparr>is_T_sol := m, is_beta_sol := beta,
      is_was_clamped := is_was_clamped s \<or> m < ic_T_grid ic ! 0 \<or> last (ic_T_grid ic) < m\<rparr>"
  have step: "interchanger_step ic mw ix wp target tol s = Inr (if \<bar>h - target\<bar> < tol then Break ?s1
      else if h > target then Next (?s1\<lparr>is_T_hi := m\<rparr>) else Next (?s1\<lparr>is_T_lo := m\<rparr>))"
    unfolding interchanger_step_def Let_def m_def [symmetric] h(1) res_bind.simps prod.case ..
  have cl: "is_was_clamped ?s1 = False"
    if "\<not> P_clamped \<and> ic_T_grid ic ! 0 \<le> 273.16 \<and> T_high \<le> last (ic_T_grid ic)"
    using that I' m(1,2) by auto
  have "hit ic (outlet_enthalpy ic mw ix wp) target tol T_high P_clamped ?s1" if "\<bar>h - target\<bar> < tol"
    using that cl h I' m(1,2) unfolding hit_def outlet_is_def by auto
  moreover have "searching ic ix (outlet_enthalpy ic mw ix wp) target T_high P_clamped (?s1\<lparr>is_T_hi := m\<rparr>)" if "h > target"
    using that cl h I' m(1,2) unfolding searching_def outlet_is_def by auto
  moreover have "searching ic ix (outlet_enthalpy ic mw ix wp) target T_high P_clamped (?s1\<lparr>is_T_lo := m\<rparr>)" if "\<not> h > target"
    using that cl h I' m(1,2) unfolding searching_def outlet_is_def by auto
  ultimately show "\<exists>c. interchanger_step ic mw ix wp target tol s = Inr c \<and> (case c of
      Next s' \<Rightarrow> searching ic ix (outlet_enthalpy ic mw ix wp) target T_high P_clamped s'
        \<and> is_T_hi s' - is_T_lo s' = (is_T_hi s - is_T_lo s) / 2
      | Break s' \<Rightarrow> hit ic (outlet_enthalpy ic mw ix wp) target tol T_high P_clamped s' | Return r \<Rightarrow> False)"
    unfolding step by (simp add: m(3,4))
qed

text \<open>What the solver promises of its answer, for a bracket of a given final width.\<close>

definition interchanger_answer ::
    "interchanger \<Rightarrow> real \<Rightarrow> real \<Rightarrow> real \<Rightarrow> real \<Rightarrow> bool \<Rightarrow> real \<Rightarrow> real \<Rightarrow> bool \<Rightarrow> bool" where
  "interchanger_answer ic target tol T_high width P_clamped T beta cl \<longleftrightarrow>
     273.16 \<le> T \<and> T \<le> T_high \<and> 0 \<le> beta \<and> beta \<le> 1
     \<and> outlet_is (outlet_curve ic) T (\<lambda>h b. b = beta \<and> (\<bar>h - target\<bar> < tol
         \<or> (\<exists>lo hi. T \<in> {lo, hi} \<and> hi - lo = width
             \<and> (lo = 273.16 \<or> outlet_is (outlet_curve ic) lo (\<lambda>h _. h \<le> target))
             \<and> (hi = T_high \<or> outlet_is (outlet_curve ic) hi (\<lambda>h _. target < h)))))
     \<and> (\<not> P_clamped \<and> ic_T_grid ic ! 0 \<le> 273.16 \<and> T_high \<le> last (ic_T_grid ic) \<longrightarrow> \<not> cl)"

lemma searching_answer:
  assumes "searching ic ip (outlet_curve ic) target T_high pc s" "is_T_hi s - is_T_lo s = width" "width \<noteq> T_high - 273.16"
  shows "interchanger_answer ic target tol T_high width pc (is_T_sol s) (is_beta_sol s) (is_was_clamped s)"
proof -
  note s1 = assms(1) [unfolded searching_def]
  have sol: "is_T_sol s \<in> {is_T_lo s, is_T_hi s}"
      "outlet_is (outlet_curve ic) (is_T_sol s) (\<lambda>_ b. b = is_beta_sol s \<and> 0 \<le> b \<and> b \<le> 1)"
    using s1 assms(2,3) by blast+
  let ?E = "\<exists>lo hi. is_T_sol s \<in> {lo, hi} \<and> hi - lo = width
        \<and> (lo = 273.16 \<or> outlet_is (outlet_curve ic) lo (\<lambda>h _. h \<le> target))
        \<and> (hi = T_high \<or> outlet_is (outlet_curve ic) hi (\<lambda>h _. target < h))"
  have E: ?E using s1 assms(2) sol(1) by blast
  have "outlet_is (outlet_curve ic) (is_T_sol s) (\<lambda>h b. b = is_beta_sol s \<and> (\<bar>h - target\<bar> < tol \<or> ?E))"
    using sol(2) by (rule outlet_is_mono) (use E in blast)
  moreover have "273.16 \<le> is_T_sol s" "is_T_sol s \<le> T_high" using s1 sol(1) by auto
  moreover have "0 \<le> is_beta_sol s \<and> is_beta_sol s \<le> 1" using sol(2) by (rule outlet_is_bounds) auto
  ultimately show ?thesis using s1 unfolding interchanger_answer_def by blast
qed

lemma hit_answer:
  assumes "hit ic (outlet_curve ic) target tol T_high pc s"
  shows "interchanger_answer ic target tol T_high width pc (is_T_sol s) (is_beta_sol s) (is_was_clamped s)"
proof -
  note s1 = assms [unfolded hit_def]
  have o: "outlet_is (outlet_curve ic) (is_T_sol s) (\<lambda>h b. \<bar>h - target\<bar> < tol \<and> b = is_beta_sol s \<and> 0 \<le> b \<and> b \<le> 1)"
    using s1 by blast
  have "0 \<le> is_beta_sol s \<and> is_beta_sol s \<le> 1" using o by (rule outlet_is_bounds) auto
  moreover have "outlet_is (outlet_curve ic) (is_T_sol s) (\<lambda>h b. b = is_beta_sol s \<and> (\<bar>h - target\<bar> < tol \<or> Q))" for Q
    using o by (rule outlet_is_mono) blast
  ultimately show ?thesis using s1 unfolding interchanger_answer_def by blast
qed

lemma interchanger_flash_answer:
  assumes "interchanger_ok ic" and "0 < n"
    and "pc \<longleftrightarrow> ic_P_system ic < ic_P_grid ic ! 0 \<or> last (ic_P_grid ic) < ic_P_system ic"
  shows "\<exists>T beta cl. solve_interchanger_flash_jit ic target T_h_in n tol = Inr (T, beta, cl)
    \<and> interchanger_answer ic target tol (max T_h_in 500) ((max T_h_in 500 - 273.16) / 2 ^ n) pc T beta cl"
proof -
  have g: "sorted_grid (ic_P_grid ic)" using assms(1) by (simp add: interchanger_ok_def)
  obtain mw where mw: "inerts_mw (ic_z_h2o_mole ic) (ic_M_mix_feed ic) = Inr mw" using inerts_mw_total by blast
  let ?P = "clamp (ic_P_grid ic ! 0) (last (ic_P_grid ic)) (ic_P_system ic)"
  obtain i wp where i: "axis_weight (ic_P_grid ic) ?P = Inr (int i, wp)" "Suc i < length (ic_P_grid ic)"
    using sorted_grid.axis_weight_law [OF g] by metis
  have curve: "outlet_curve ic = outlet_enthalpy ic mw (int i) wp"
    unfolding outlet_curve_def grid_lookup_value [OF g] res_bind.simps prod.case i(1) mw ..
  let ?s0 = "\<lparr>is_T_lo = 273.16, is_T_hi = max T_h_in 500, is_T_sol = T_h_in, is_beta_sol = 1, is_was_clamped = pc\<rparr>"
  have "searching ic (int i) (outlet_curve ic) target (max T_h_in 500) pc ?s0"
    using assms(1) i(2) by (simp add: searching_def)
  from interchanger_search.loop [OF this [unfolded curve], of 0 n tol] obtain c where
    c: "for_range n (\<lambda>_. interchanger_step ic mw (int i) wp target tol) ?s0 = Inr c"
      "case c of Next s' \<Rightarrow> searching ic (int i) (outlet_curve ic) target (max T_h_in 500) pc s'
          \<and> is_T_hi s' - is_T_lo s' = (max T_h_in 500 - 273.16) / 2 ^ n
       | Break s' \<Rightarrow> hit ic (outlet_curve ic) target tol (max T_h_in 500) pc s' | Return r \<Rightarrow> False"
    unfolding curve ic_state.select_convs by blast
  have solve: "solve_interchanger_flash_jit ic target T_h_in n tol
      = res_bind (loop_state c) (\<lambda>s. Inr (is_T_sol s, is_beta_sol s, is_was_clamped s))"
    unfolding solve_interchanger_flash_jit_def grid_lookup_value [OF g] res_bind.simps prod.case i(1) mw
      assms(3) [symmetric] c(1) ..
  have "(1::real) < 2 ^ n" using assms(2) by simp
  moreover have "0 < (max T_h_in 500 - 273.16 :: real)" by (simp add: max_def)
  ultimately have w: "(max T_h_in 500 - 273.16) / 2 ^ n \<noteq> (max T_h_in 500 - 273.16 :: real)"
    by (simp add: divide_eq_eq)
  show ?thesis
  proof (cases c)
    case (Next s)
    then show ?thesis using c(2) solve searching_answer [OF _ _ w] by auto
  next
    case (Break s)
    then show ?thesis using c(2) solve hit_answer by auto
  qed (use c(2) in simp)
qed


definition humid_hydrogen :: interchanger where
  "humid_hydrogen = \<lparr>ic_z_h2o_mole = 0.2, ic_M_mix_feed = 0.0052, ic_P_system = 3000000,
     ic_lut_mass_fracs = [0.3, 0, 0, 0, 0, 0.7, 0],
     ic_stacked_H = replicate 7 (values_of [[1000000, 6000000], [1000000, 6000000]]),
     ic_P_grid = [50000, 4500000], ic_T_grid = [250, 600]\<rparr>"


section \<open>Composition in table order\<close>

lemma index_of_nth: "index_of x xs = Some k \<Longrightarrow> k < length xs \<and> xs ! k = x"
  by (induction xs arbitrary: k) (auto split: if_splits)

lemma index_of_member: "x \<in> set xs \<Longrightarrow> \<exists>k. index_of x xs = Some k"
  by (induction xs) auto

lemma index_of_nth_distinct: "distinct xs \<Longrightarrow> k < length xs \<Longrightarrow> index_of (xs ! k) xs = Some k"
proof (induction xs arbitrary: k)
  case (Cons x xs)
  then show ?case by (cases k) auto
qed simp

definition slot_value :: "real list \<Rightarrow> real \<Rightarrow> string \<Rightarrow> real" where
  "slot_value fracs liq fluid = (case index_of fluid CANONICAL_FLUID_ORDER of None \<Rightarrow> 0 | Some k \<Rightarrow> fracs ! k)
     + (if fluid = ''H2O'' then liq else 0)"

lemma canonical_water: "k < length CANONICAL_FLUID_ORDER \<Longrightarrow> CANONICAL_FLUID_ORDER ! k = ''H2O'' \<longleftrightarrow> k = 5"
  by (auto simp: CANONICAL_FLUID_ORDER_def less_Suc_eq nth_Cons split: nat.splits)

lemma species_map_water:
  "i < length (cfg_fluids (lm_config m)) \<Longrightarrow> get_species_map m ! i = 5 \<longleftrightarrow> cfg_fluids (lm_config m) ! i = ''H2O''"
proof -
  assume i: "i < length (cfg_fluids (lm_config m))"
  let ?f = "cfg_fluids (lm_config m) ! i"
  show ?thesis
  proof (cases "index_of ?f CANONICAL_FLUID_ORDER")
    case None
    then have "?f \<noteq> ''H2O''" using index_of_member [of "''H2O''" CANONICAL_FLUID_ORDER] by (auto simp: CANONICAL_FLUID_ORDER_def)
    then show ?thesis using None i by (simp add: get_species_map_def)
  next
    case (Some k)
    then show ?thesis using i index_of_nth [OF Some] canonical_water [of k] by (auto simp: get_species_map_def)
  qed
qed

lemma map_res_map: "(\<And>x. x \<in> set xs \<Longrightarrow> f (g x) = Inr (h x)) \<Longrightarrow> map_res f (map g xs) = Inr (map h xs)"
  by (induction xs) auto

lemma remap_value:
  assumes "length fracs = length CANONICAL_FLUID_ORDER" and "distinct (cfg_fluids (lm_config m))"
  shows "remap_canonical_to_lut fracs liq (get_species_map m) = Inr (map (slot_value fracs liq) (cfg_fluids (lm_config m)))"
proof -
  let ?F = "cfg_fluids (lm_config m)"
  define base where "base = (\<lambda>fluid. case index_of fluid CANONICAL_FLUID_ORDER of None \<Rightarrow> 0 | Some k \<Rightarrow> fracs ! k)"
  have b: "(if idx \<ge> 0 then aget fracs idx else Inr 0) = Inr (base fluid)"
    if "idx = (case index_of fluid CANONICAL_FLUID_ORDER of None \<Rightarrow> - 1 | Some k \<Rightarrow> int k)" for idx fluid
    using that index_of_nth [of fluid CANONICAL_FLUID_ORDER] assms(1)
    by (auto simp: base_def aget_nat split: option.splits)
  have r: "map_res (\<lambda>idx. if idx \<ge> 0 then aget fracs idx else Inr 0) (get_species_map m) = Inr (map base ?F)"
    unfolding get_species_map_def by (rule map_res_map) (rule b [OF refl])
  have len: "length (get_species_map m) = length ?F" by (simp add: get_species_map_def)
  show ?thesis
  proof (cases "find (\<lambda>i. get_species_map m ! i = 5) [0..<length (get_species_map m)]")
    case None
    then have "fluid \<noteq> ''H2O''" if "fluid \<in> set ?F" for fluid
      using that species_map_water [of _ m] len by (auto simp: find_None_iff in_set_conv_nth)
    then have "map base ?F = map (slot_value fracs liq) ?F" by (simp add: slot_value_def base_def)
    then show ?thesis unfolding remap_canonical_to_lut_def r None by simp
  next
    case (Some i)
    then have i: "i < length ?F" "?F ! i = ''H2O''"
      using species_map_water [of _ m] len by (auto simp: find_Some_iff)
    have "(map base ?F)[i := map base ?F ! i + liq] = map (slot_value fracs liq) ?F"
    proof (rule nth_equalityI)
      fix j assume "j < length ((map base ?F)[i := map base ?F ! i + liq])"
      then have j: "j < length ?F" by simp
      have "?F ! j = ''H2O'' \<longleftrightarrow> j = i"
        using nth_eq_iff_index_eq [OF assms(2) j i(1)] unfolding i(2) .
      then show "(map base ?F)[i := map base ?F ! i + liq] ! j = map (slot_value fracs liq) ?F ! j"
        using i j by (auto simp: slot_value_def base_def)
    qed simp
    then show ?thesis unfolding remap_canonical_to_lut_def r Some by simp
  qed
qed

text \<open>
  Remapping a stream to the table order of a manager conserves mass: if the manager's fluids are
  distinct and contain all canonical species, the result has one entry per fluid, each fluid gets its own
  fraction, water the liquid on top, any other fluid nothing, and the sum is the stream's total.
\<close>

theorem remap_conserves:
  assumes "length fracs = 6" and "distinct (cfg_fluids (lm_config m))"
    and "set CANONICAL_FLUID_ORDER \<subseteq> set (cfg_fluids (lm_config m))"
  shows "\<exists>lut. remap_canonical_to_lut fracs liq (get_species_map m) = Inr lut
    \<and> length lut = length (cfg_fluids (lm_config m)) \<and> sum_list lut = sum_list fracs + liq
    \<and> (\<forall>i < length lut. \<forall>k < 6. cfg_fluids (lm_config m) ! i = CANONICAL_FLUID_ORDER ! k \<longrightarrow>
        lut ! i = fracs ! k + (if k = 5 then liq else 0))
    \<and> (\<forall>i < length lut. cfg_fluids (lm_config m) ! i \<notin> set CANONICAL_FLUID_ORDER \<longrightarrow> lut ! i = 0)"
proof -
  let ?F = "cfg_fluids (lm_config m)" and ?C = CANONICAL_FLUID_ORDER and ?v = "slot_value fracs liq"
  have C: "distinct ?C" "length ?C = 6" by (simp_all add: CANONICAL_FLUID_ORDER_def)
  have on: "?v (?C ! k) = fracs ! k + (if k = 5 then liq else 0)" if "k < 6" for k
    using index_of_nth_distinct [OF C(1)] canonical_water [of k] that C(2) by (simp add: slot_value_def)
  have off: "?v fluid = 0" if "fluid \<notin> set ?C" for fluid
  proof -
    have "index_of fluid ?C = None" using that index_of_nth [of fluid ?C] by (cases "index_of fluid ?C") auto
    then show ?thesis using that by (auto simp: slot_value_def CANONICAL_FLUID_ORDER_def)
  qed
  have "sum_list (map ?v ?F) = (\<Sum>f \<in> set ?F. ?v f)" using assms(2) by (simp add: sum_list_distinct_conv_sum_set)
  also have "\<dots> = (\<Sum>f \<in> set ?C. ?v f)" using assms(3) off by (intro sum.mono_neutral_right) auto
  also have "\<dots> = sum_list (map ?v ?C)" using C(1) by (simp add: sum_list_distinct_conv_sum_set)
  also have "\<dots> = (\<Sum>k < 6. ?v (?C ! k))" by (simp add: sum_list_sum_nth C(2) atLeast0LessThan)
  also have "\<dots> = (\<Sum>k < 6. fracs ! k + (if k = 5 then liq else 0))" using on by (intro sum.cong) auto
  also have "\<dots> = (\<Sum>k < 6. fracs ! k) + liq" by (simp add: sum.distrib)
  also have "(\<Sum>k < 6. fracs ! k) = sum_list fracs" by (simp add: sum_list_sum_nth assms(1) atLeast0LessThan)
  finally have s: "sum_list (map ?v ?F) = sum_list fracs + liq" .
  have "remap_canonical_to_lut fracs liq (get_species_map m) = Inr (map ?v ?F)"
    using assms(1,2) C(2) by (intro remap_value) auto
  then show ?thesis using s on off by auto
qed

theorem remap_conserves_witness:
  "\<exists>lut. remap_canonical_to_lut [0.1, 0.2, 0.3, 0, 0, 0.15] 0.25 (get_species_map (new_lut_manager LUTConfig None Map.empty None)) = Inr lut
    \<and> sum_list lut = 1"
proof -
  let ?m = "new_lut_manager LUTConfig None Map.empty None"
  have "cfg_fluids (lm_config ?m) = [''H2'', ''O2'', ''N2'', ''CO2'', ''CH4'', ''H2O'', ''CO'']"
    by (simp add: new_lut_manager_def LUTConfig_def)
  then have "distinct (cfg_fluids (lm_config ?m))" "set CANONICAL_FLUID_ORDER \<subseteq> set (cfg_fluids (lm_config ?m))"
    by (simp_all add: CANONICAL_FLUID_ORDER_def)
  from remap_conserves [OF _ this, of "[0.1, 0.2, 0.3, 0, 0, 0.15]" "0.25"] show ?thesis by force
qed

section \<open>The Newton solvers converge\<close>

text \<open>
  The situation of both solvers: a solution whose neighbourhood, as wide as the guess is away, lies where
  the heat capacity less \<open>R\<close> is between \<open>a\<close> and \<open>b\<close>; the iterate is in that neighbourhood.
\<close>

definition closing ::
    "real list \<Rightarrow> real list \<Rightarrow> real list list \<Rightarrow> real \<Rightarrow> real \<Rightarrow> real \<Rightarrow> real \<Rightarrow> real \<Rightarrow> real \<Rightarrow> real \<Rightarrow> bool" where
  "closing ys hs m R a b target T_star r T \<longleftrightarrow>
     cp_table (length ys) m \<and> length ys \<le> length hs \<and> 0 < a \<and> b < 2 * a \<and> 0 < T_star - r
     \<and> (\<forall>t. \<bar>t - T_star\<bar> \<le> r \<longrightarrow> a \<le> mix_cp ys m t - R \<and> mix_cp ys m t - R \<le> b)
     \<and> mix_enthalpy ys hs m 298.15 T_star - R * T_star = target \<and> \<bar>T - T_star\<bar> \<le> r"

lemma closing_share: "closing ys hs m R a b target T_star r T \<Longrightarrow> 0 \<le> b / a - 1 \<and> b / a - 1 < 1"
proof -
  assume c: "closing ys hs m R a b target T_star r T"
  then have "a \<le> b" unfolding closing_def by fastforce
  then show ?thesis using c by (simp add: closing_def le_divide_eq divide_less_eq)
qed

lemma closing_step:
  assumes "closing ys hs m R a b target T_star r T"
  defines "f \<equiv> mix_enthalpy ys hs m 298.15 T - R * T - target" and "c \<equiv> mix_cp ys m T - R"
  shows "a \<le> c" and "\<bar>T - f / c - T_star\<bar> \<le> (b / a - 1) * \<bar>T - T_star\<bar>" and "a * \<bar>T - T_star\<bar> \<le> \<bar>f\<bar>"
proof -
  note a = assms(1) [unfolded closing_def]
  let ?g = "\<lambda>t. mix_enthalpy ys hs m 298.15 t - R * t" and ?d = "\<lambda>t. mix_cp ys m t - R"
  have slope: "(?g has_real_derivative ?d t) (at t) \<and> a \<le> ?d t \<and> ?d t \<le> b"
    if "min T T_star \<le> t" "t \<le> max T T_star" for t
  proof -
    have n: "\<bar>t - T_star\<bar> \<le> r" using that a by (auto simp: min_def max_def split: if_splits)
    then have "0 < t" using a by auto
    then have "(?g has_real_derivative ?d t) (at t)"
      by (auto intro!: derivative_eq_intros mix_enthalpy_slope)
    then show ?thesis using a n by auto
  qed
  obtain k where k: "?g T - ?g T_star = k * (T - T_star)" "a \<le> k" "k \<le> b"
    using slope_between [of T T_star ?g ?d a b] slope by blast
  have f: "f = k * (T - T_star)" using k(1) a by (simp add: f_def)
  show c: "a \<le> c" using slope [of T] by (simp add: c_def)
  have cb: "c \<le> b" using slope [of T] by (simp add: c_def)
  have c0: "0 < c" using c a by simp
  have "\<bar>k * (T - T_star) - c * (T - T_star)\<bar> \<le> (b / a - 1) * c * \<bar>T - T_star\<bar>"
    by (rule newton_share) (use a k c cb in auto)
  then have "\<bar>(f + target) - target - c * (T - T_star)\<bar> \<le> (b / a - 1) * c * \<bar>T - T_star\<bar>" by (simp add: f)
  from newton_contracts [OF c0 this] show "\<bar>T - f / c - T_star\<bar> \<le> (b / a - 1) * \<bar>T - T_star\<bar>" by simp
  have "a * \<bar>T - T_star\<bar> \<le> k * \<bar>T - T_star\<bar>" using k(2) by (intro mult_right_mono) auto
  then show "a * \<bar>T - T_star\<bar> \<le> \<bar>f\<bar>" using k(2) a by (simp add: f abs_mult)
qed

lemma closing_next:
  assumes "closing ys hs m R a b target T_star r T" and "\<bar>T' - T_star\<bar> \<le> (b / a - 1) * \<bar>T - T_star\<bar>"
  shows "closing ys hs m R a b target T_star r T'"
proof -
  have "(b / a - 1) * \<bar>T - T_star\<bar> \<le> 1 * \<bar>T - T_star\<bar>"
    using closing_share [OF assms(1)] by (intro mult_right_mono) auto
  then show ?thesis using assms by (simp add: closing_def)
qed

interpretation ph_search: contraction "ph_newton_step target ys hs m tol"
    "\<lambda>T. closing ys hs m 0 a b target T_star r T \<and> 1 / 10 ^ 4 \<le> a \<and> 275 \<le> T_star \<and> T_star \<le> 5000"
    T_star "b / a - 1" "(b / a - 1) * tol / (1 - (b / a - 1))"
  for target ys hs m tol a b T_star r
proof
  fix T assume T: "closing ys hs m 0 a b target T_star r T \<and> 1 / 10 ^ 4 \<le> a \<and> 275 \<le> T_star \<and> T_star \<le> 5000"
  then have ok: "closing ys hs m 0 a b target T_star r T" by blast
  let ?q = "b / a - 1" and ?c = "mix_cp ys m T"
  have q: "0 \<le> ?q" "?q < 1" using closing_share [OF ok] by auto
  define T' where "T' = T + (target - mix_enthalpy ys hs m 298.15 T) / ?c"
  have s: "a \<le> ?c" "\<bar>T' - T_star\<bar> \<le> ?q * \<bar>T - T_star\<bar>"
    using closing_step [OF ok] by (simp_all add: T'_def diff_divide_distrib algebra_simps)
  define T2 where "T2 = (if T' < 275 then 275 else if T' > 5000 then 5000 else T')"
  have "\<bar>T2 - T_star\<bar> \<le> \<bar>T' - T_star\<bar>" using T by (auto simp: T2_def)
  then have t2: "\<bar>T2 - T_star\<bar> \<le> ?q * \<bar>T - T_star\<bar>" using s(2) by linarith
  have v: "calculate_mixture_enthalpy T ys hs m 298.15 = Inr (mix_enthalpy ys hs m 298.15 T)"
      "calculate_mixture_cp T ys m = Inr ?c"
    using ok by (auto simp: closing_def intro: mixture_enthalpy_value mixture_cp_value)
  have c: "\<not> \<bar>?c\<bar> < 1 / 10 ^ 4" "?c \<noteq> 0" using s(1) T by auto
  have step: "ph_newton_step target ys hs m tol T = Inr (if \<bar>T' - T\<bar> < tol then Break T' else Next T2)"
    unfolding ph_newton_step_def v res_bind.simps if_not_P [OF c(1)] fdiv_ok [OF c(2)] Let_def T'_def [symmetric] T2_def [symmetric]
    by (simp add: T'_def)
  have "closing ys hs m 0 a b target T_star r T'" "closing ys hs m 0 a b target T_star r T2"
    using closing_next [OF ok] s(2) t2 by auto
  then show "0 \<le> ?q \<and> (\<exists>c. ph_newton_step target ys hs m tol T = Inr c \<and>
      (closing ys hs m 0 a b target T_star r (ctl_value c) \<and> 1 / 10 ^ 4 \<le> a \<and> 275 \<le> T_star \<and> T_star \<le> 5000) \<and>
      (case c of Next y \<Rightarrow> \<bar>y - T_star\<bar> \<le> ?q * \<bar>T - T_star\<bar> | Break y \<Rightarrow> \<bar>y - T_star\<bar> \<le> ?q * tol / (1 - ?q)
       | Return y \<Rightarrow> \<bar>y - T_star\<bar> \<le> ?q * tol / (1 - ?q)))"
    unfolding step using T q t2 short_step_close [OF s(2) _ q, of tol] by auto
qed

interpretation uv_search: contraction "uv_newton_step target ys hs m R tol"
    "\<lambda>T. closing ys hs m R a b target T_star r T \<and> 10 \<le> T_star \<and> T_star \<le> 5000"
    T_star "b / a - 1" "max ((b / a - 1) * tol / (1 - (b / a - 1))) (tol / a)"
  for target ys hs m R tol a b T_star r
proof
  fix T assume T: "closing ys hs m R a b target T_star r T \<and> 10 \<le> T_star \<and> T_star \<le> 5000"
  then have ok: "closing ys hs m R a b target T_star r T" by blast
  let ?q = "b / a - 1" and ?c = "mix_cp ys m T - R" and ?f = "mix_enthalpy ys hs m 298.15 T - R * T - target"
  have q: "0 \<le> ?q" "?q < 1" using closing_share [OF ok] by auto
  have a: "0 < a" using ok by (simp add: closing_def)
  define T2 where "T2 = clamp 10 5000 (T - ?f / ?c)"
  have s: "a \<le> ?c" "\<bar>T - ?f / ?c - T_star\<bar> \<le> ?q * \<bar>T - T_star\<bar>" "a * \<bar>T - T_star\<bar> \<le> \<bar>?f\<bar>"
    using closing_step [OF ok] by simp_all
  have "\<bar>T2 - T_star\<bar> \<le> \<bar>T - ?f / ?c - T_star\<bar>" unfolding T2_def using T by (intro clamp_nonexpansive) auto
  then have t2: "\<bar>T2 - T_star\<bar> \<le> ?q * \<bar>T - T_star\<bar>" using s(2) by linarith
  have v: "calculate_mixture_enthalpy T ys hs m 298.15 = Inr (mix_enthalpy ys hs m 298.15 T)"
      "calculate_mixture_cp T ys m = Inr (mix_cp ys m T)"
    using ok by (auto simp: closing_def intro: mixture_enthalpy_value mixture_cp_value)
  have c: "?c \<noteq> 0" using s(1) a by auto
  have cl: "(if (if x < 10 then 10 else x) > 5000 then 5000 else (if x < 10 then 10 else x)) = clamp 10 5000 (x :: real)" for x
    by (auto simp: clamp_def)
  have step: "uv_newton_step target ys hs m R tol T = Inr (if \<bar>?f\<bar> < tol then Return T
      else if \<bar>T2 - T\<bar> < tol then Return T2 else Next T2)"
    unfolding uv_newton_step_def v res_bind.simps Let_def if_not_P [OF c] fdiv_ok [OF c] cl T2_def by simp
  have near: "\<bar>T - T_star\<bar> \<le> tol / a" if "\<bar>?f\<bar> < tol"
    using that s(3) a by (simp add: le_divide_eq mult.commute)
  have "closing ys hs m R a b target T_star r T2" using closing_next [OF ok] t2 by auto
  then show "0 \<le> ?q \<and> (\<exists>c. uv_newton_step target ys hs m R tol T = Inr c \<and>
      (closing ys hs m R a b target T_star r (ctl_value c) \<and> 10 \<le> T_star \<and> T_star \<le> 5000) \<and>
      (case c of Next y \<Rightarrow> \<bar>y - T_star\<bar> \<le> ?q * \<bar>T - T_star\<bar>
       | Break y \<Rightarrow> \<bar>y - T_star\<bar> \<le> max (?q * tol / (1 - ?q)) (tol / a)
       | Return y \<Rightarrow> \<bar>y - T_star\<bar> \<le> max (?q * tol / (1 - ?q)) (tol / a)))"
    unfolding step using T q t2 near short_step_close [OF t2 _ q, of tol] by (auto simp: le_max_iff_disj)
qed

text \<open>
  The enthalpy flash converges: if the mixture has the target enthalpy at some temperature within the
  solver's limits and its heat capacity, over the neighbourhood of that solution that reaches to the
  guess, lies between a and b < 2 a, the solver returns a temperature whose distance from the solution
  is at most the initial distance shrunk by b / a - 1 per iteration, or, when it stops on a short step,
  the matching share of the tolerance.
\<close>

theorem ph_flash_converges:
  assumes "cp_table (length ys) m" and "length ys \<le> length hs"
    and "calculate_mixture_enthalpy T_star ys hs m 298.15 = Inr target"
    and "\<And>t c. \<bar>t - T_star\<bar> \<le> \<bar>T_guess - T_star\<bar> \<Longrightarrow> calculate_mixture_cp t ys m = Inr c \<Longrightarrow> a \<le> c \<and> c \<le> b"
    and "1 / 10 ^ 4 \<le> a" "b < 2 * a" and "275 \<le> T_star" "T_star \<le> 5000" and "\<bar>T_guess - T_star\<bar> < T_star"
  shows "\<exists>T. solve_ph_flash_jit target ys hs m T_guess tol n = Inr T
    \<and> \<bar>T - T_star\<bar> \<le> max ((b / a - 1) ^ n * \<bar>T_guess - T_star\<bar>) ((b / a - 1) * tol / (2 - b / a))"
proof -
  have "closing ys hs m 0 a b target T_star \<bar>T_guess - T_star\<bar> T_guess"
    using assms mixture_enthalpy_value [OF assms(1,2), of T_star "298.15"] mixture_cp_value [OF assms(1)]
    by (auto simp: closing_def)
  then obtain c where "for_range n (\<lambda>_. ph_newton_step target ys hs m tol) T_guess = Inr c"
      "\<bar>ctl_value c - T_star\<bar> \<le> max ((b / a - 1) ^ n * \<bar>T_guess - T_star\<bar>) ((b / a - 1) * tol / (1 - (b / a - 1)))"
    using ph_search.loop [of ys hs m a b target T_star "\<bar>T_guess - T_star\<bar>" T_guess 0 n tol] assms(5,7,8) by blast
  then show ?thesis by (simp add: solve_ph_flash_jit_def)
qed

lemma hydrogen_cp_range:
  assumes "300 \<le> t" "t \<le> 340"
  shows "28 \<le> mix_cp [1] [GAS_CP_COEFFS ! 0] t" "mix_cp [1] [GAS_CP_COEFFS ! 0] t \<le> 30"
proof -
  have p: "t ^ 2 \<le> 115600" "t ^ 3 \<le> 39304000"
    using power_mono [of t 340 2] power_mono [of t 340 3] assms by auto
  have z: "0 \<le> t ^ 2" "0 \<le> t ^ 3" using assms by auto
  have v: "mix_cp [1] [GAS_CP_COEFFS ! 0] t
      = 2911 / 100 - 479 * t / 250000 + 4003 * t ^ 2 / 1000000000 - 17 * t ^ 3 / 19531250000"
    by (simp add: mix_cp_def species_cp_def cp_of_def GAS_CP_COEFFS_def)
  show "28 \<le> mix_cp [1] [GAS_CP_COEFFS ! 0] t" "mix_cp [1] [GAS_CP_COEFFS ! 0] t \<le> 30"
    unfolding v using p z assms by linarith+
qed

theorem ph_flash_converges_witness:
  "\<exists>T. solve_ph_flash_jit (mix_enthalpy [1] [0] [GAS_CP_COEFFS ! 0] 298.15 320) [1] [0] [GAS_CP_COEFFS ! 0] 300 0.05 10 = Inr T
    \<and> \<bar>T - 320\<bar> \<le> 0.01"
proof -
  have m: "cp_table (length [1::real]) [GAS_CP_COEFFS ! 0]" by (simp add: cp_table_def GAS_CP_COEFFS_def)
  have cp: "28 \<le> c \<and> c \<le> 30"
    if "\<bar>t - 320\<bar> \<le> \<bar>300 - 320\<bar>" "calculate_mixture_cp t [1] [GAS_CP_COEFFS ! 0] = Inr c" for t c
  proof -
    have "300 \<le> t" "t \<le> 340" using that(1) by auto
    then show ?thesis using hydrogen_cp_range [of t] that(2) mixture_cp_value [OF m, of t] by simp
  qed
  have n: "max ((30 / 28 - 1) ^ 10 * \<bar>300 - 320\<bar>) ((30 / 28 - 1) * 0.05 / (2 - 30 / 28)) \<le> (0.01 :: real)"
    by (rule max.boundedI) (simp_all add: power_divide)
  have h: "calculate_mixture_enthalpy 320 [1] [0] [GAS_CP_COEFFS ! 0] 298.15 = Inr (mix_enthalpy [1] [0] [GAS_CP_COEFFS ! 0] 298.15 320)"
    by (rule mixture_enthalpy_value [OF m]) simp
  have "\<exists>T. solve_ph_flash_jit (mix_enthalpy [1] [0] [GAS_CP_COEFFS ! 0] 298.15 320) [1] [0] [GAS_CP_COEFFS ! 0] 300 0.05 10 = Inr T
      \<and> \<bar>T - 320\<bar> \<le> max ((30 / 28 - 1) ^ 10 * \<bar>300 - 320\<bar>) ((30 / 28 - 1) * 0.05 / (2 - 30 / 28))"
    by (rule ph_flash_converges [OF m _ h]) (use cp in \<open>simp_all\<close>)
  then show ?thesis using n by (meson order.trans)
qed

text \<open>
  The internal-energy flash converges in the same sense for a gas of positive volume and amount, with
  the heat capacity less the gas constant between a and b < 2 a; when it stops because the energy fits,
  the distance is at most the tolerance over a.
\<close>

theorem uv_flash_converges:
  assumes "cp_table (length ys) m" and "length ys \<le> length hs" and "0 < volume" "0 < amount"
    and "calculate_mixture_enthalpy T_star ys hs m 298.15 = Inr (target + R * T_star)"
    and "\<And>t c. \<bar>t - T_star\<bar> \<le> \<bar>T_guess - T_star\<bar> \<Longrightarrow> calculate_mixture_cp t ys m = Inr c \<Longrightarrow> a \<le> c - R \<and> c - R \<le> b"
    and "0 < a" "b < 2 * a" and "10 \<le> T_star" "T_star \<le> 5000" and "\<bar>T_guess - T_star\<bar> < T_star"
  shows "\<exists>T. solve_uv_flash target volume amount ys hs m T_guess R tol n = Inr T
    \<and> \<bar>T - T_star\<bar> \<le> max ((b / a - 1) ^ n * \<bar>T_guess - T_star\<bar>) (max ((b / a - 1) * tol / (2 - b / a)) (tol / a))"
proof -
  have "closing ys hs m R a b target T_star \<bar>T_guess - T_star\<bar> T_guess"
    using assms mixture_enthalpy_value [OF assms(1,2), of T_star "298.15"] mixture_cp_value [OF assms(1)]
    by (auto simp: closing_def)
  then obtain c where "for_range n (\<lambda>_. uv_newton_step target ys hs m R tol) T_guess = Inr c"
      "\<bar>ctl_value c - T_star\<bar> \<le> max ((b / a - 1) ^ n * \<bar>T_guess - T_star\<bar>)
         (max ((b / a - 1) * tol / (1 - (b / a - 1))) (tol / a))"
    using uv_search.loop [of ys hs m R a b target T_star "\<bar>T_guess - T_star\<bar>" T_guess 0 n tol] assms(9,10) by blast
  then show ?thesis using assms(3,4) by (simp add: solve_uv_flash_def)
qed

theorem uv_flash_converges_witness:
  "\<exists>T. solve_uv_flash (mix_enthalpy [1] [0] [GAS_CP_COEFFS ! 0] 298.15 320 - 8 * 320) 1 1 [1] [0] [GAS_CP_COEFFS ! 0] 300 8 0.0001 50
      = Inr T \<and> \<bar>T - 320\<bar> \<le> 0.0001"
proof -
  have m: "cp_table (length [1::real]) [GAS_CP_COEFFS ! 0]" by (simp add: cp_table_def GAS_CP_COEFFS_def)
  have cp: "20 \<le> c - 8 \<and> c - 8 \<le> 22"
    if "\<bar>t - 320\<bar> \<le> \<bar>300 - 320\<bar>" "calculate_mixture_cp t [1] [GAS_CP_COEFFS ! 0] = Inr c" for t c
  proof -
    have "300 \<le> t" "t \<le> 340" using that(1) by auto
    then show ?thesis using hydrogen_cp_range [of t] that(2) mixture_cp_value [OF m, of t] by simp
  qed
  have n: "max ((22 / 20 - 1) ^ 50 * \<bar>300 - 320\<bar>) (max ((22 / 20 - 1) * 0.0001 / (2 - 22 / 20)) (0.0001 / 20)) \<le> (0.0001 :: real)"
    by (intro max.boundedI) (simp_all add: power_divide)
  have h: "calculate_mixture_enthalpy 320 [1] [0] [GAS_CP_COEFFS ! 0] 298.15
      = Inr (mix_enthalpy [1] [0] [GAS_CP_COEFFS ! 0] 298.15 320 - 8 * 320 + 8 * 320)"
    using mixture_enthalpy_value [OF m, of "[0]" 320 "298.15"] by simp
  have "\<exists>T. solve_uv_flash (mix_enthalpy [1] [0] [GAS_CP_COEFFS ! 0] 298.15 320 - 8 * 320) 1 1 [1] [0] [GAS_CP_COEFFS ! 0] 300 8 0.0001 50 = Inr T
      \<and> \<bar>T - 320\<bar> \<le> max ((22 / 20 - 1) ^ 50 * \<bar>300 - 320\<bar>) (max ((22 / 20 - 1) * 0.0001 / (2 - 22 / 20)) (0.0001 / 20))"
    by (rule uv_flash_converges [OF m _ _ _ h]) (use cp in \<open>simp_all\<close>)
  then show ?thesis using n by (meson order.trans)
qed

end
