(* ===== verification/Compression.thy ===== *)
theory Compression
  imports Boiler
begin

text \<open>
  Compression over property tables: the pure gas with its isentropic outlet from a pressure-entropy table,
  the mixture with its Newton search at constant entropy, and the highest outlet pressure that respects a
  temperature limit.
\<close>

section \<open>Pure gas\<close>

record gas_tables =
  gt_P_grid :: "real list"
  gt_T_grid :: "real list"
  gt_S_grid :: "real list"
  gt_H_lut :: ptable
  gt_S_lut :: ptable
  gt_C_lut :: ptable
  gt_H_from_PS_lut :: ptable

definition calculate_compression_realgas_jit ::
    "real \<Rightarrow> real \<Rightarrow> real \<Rightarrow> real \<Rightarrow> gas_tables \<Rightarrow> (real \<times> real \<times> real) res" where
  "calculate_compression_realgas_jit p_in_pa p_out_pa T_in_k efficiency g =
     res_bind (bilinear_interp_jit (gt_P_grid g) (gt_T_grid g) (gt_S_lut g) p_in_pa T_in_k) (\<lambda>s_in.
     res_bind (bilinear_interp_jit (gt_P_grid g) (gt_T_grid g) (gt_H_lut g) p_in_pa T_in_k) (\<lambda>h_in.
     res_bind (bilinear_interp_jit (gt_P_grid g) (gt_S_grid g) (gt_H_from_PS_lut g) p_out_pa s_in) (\<lambda>h_out_isen.
     let w_isen = h_out_isen - h_in in
     res_bind (fdiv w_isen efficiency) (\<lambda>w_actual.
     let h_out_actual = h_in + w_actual; gamma = 1.41; exponent = (gamma - 1) / gamma in
     res_bind (fdiv p_out_pa p_in_pa) (\<lambda>ratio. res_bind (fpow ratio exponent) (\<lambda>f.
     let T_guess = max 273.15 (min (T_in_k * f) 1200) in
     res_bind (solve_temperature_from_enthalpy_jit h_out_actual p_out_pa T_guess (gt_P_grid g) (gt_T_grid g)
         (gt_H_lut g) (gt_C_lut g) 4180 0.01 20) (\<lambda>T_out_k.
     Inr (w_actual, T_out_k, h_out_actual))))))))"

section \<open>Mixture\<close>

record gas_mixture =
  mx_P_grid :: "real list"
  mx_T_grid :: "real list"
  mx_H_luts :: "ptable list"
  mx_S_luts :: "ptable list"
  mx_C_luts :: "ptable list"
  mx_weights :: "real list"
  mx_M_mix_kg_mol :: real
  mx_sum_ylny :: real

definition mix_enthalpy_at :: "gas_mixture \<Rightarrow> real \<Rightarrow> real \<Rightarrow> real res" where
  "mix_enthalpy_at mx p T =
     res_bind (get_interp_weights_jit (mx_P_grid mx) (mx_T_grid mx) p T) (\<lambda>(ix, iy, wx, wy).
     get_mix_enthalpy_fast_jit (mx_H_luts mx) (mx_weights mx) ix iy wx wy)"

definition mix_entropy_at :: "gas_mixture \<Rightarrow> real \<Rightarrow> real \<Rightarrow> real res" where
  "mix_entropy_at mx p T =
     res_bind (get_interp_weights_jit (mx_P_grid mx) (mx_T_grid mx) p T) (\<lambda>(ix, iy, wx, wy).
     get_mix_entropy_fast_jit (mx_S_luts mx) (mx_weights mx) (mx_M_mix_kg_mol mx) (mx_sum_ylny mx) ix iy wx wy)"

definition mix_cp_at :: "gas_mixture \<Rightarrow> real \<Rightarrow> real \<Rightarrow> real res" where
  "mix_cp_at mx p T =
     res_bind (get_interp_weights_jit (mx_P_grid mx) (mx_T_grid mx) p T) (\<lambda>(ix, iy, wx, wy).
     res_bind (get_mix_cp_jit (mx_C_luts mx) (mx_weights mx) ix iy wx wy) (\<lambda>cp.
     Inr (if \<bar>cp\<bar> < 1 / 10 ^ 9 then 14000 else cp)))"

definition hold :: "real \<Rightarrow> real \<Rightarrow> real \<Rightarrow> real" where
  "hold lo hi x = (let x' = (if x < lo then lo else x) in if x' > hi then hi else x')"

definition limit_step :: "real \<Rightarrow> real \<Rightarrow> real" where
  "limit_step max_dT d = (let d' = (if d > max_dT then max_dT else d) in if d' < - max_dT then - max_dT else d')"

text \<open>One step towards the temperature of the inlet's entropy at the outlet pressure.\<close>

definition isentropic_step ::
    "gas_mixture \<Rightarrow> real \<Rightarrow> real \<Rightarrow> real \<Rightarrow> real \<Rightarrow> real \<Rightarrow> real \<Rightarrow> (real, unit) ctl res" where
  "isentropic_step mx p_out_pa s_in tol max_dT T_cap T_guess =
     res_bind (mix_entropy_at mx p_out_pa T_guess) (\<lambda>s_guess.
     let diff = s_guess - s_in in
     if \<bar>diff\<bar> < tol then Inr (Break T_guess)
     else res_bind (mix_cp_at mx p_out_pa T_guess) (\<lambda>cp_mix.
       res_bind (fdiv cp_mix T_guess) (\<lambda>ds_dt. res_bind (fdiv diff ds_dt) (\<lambda>delta_T.
       Inr (Next (hold 100 T_cap (T_guess - limit_step max_dT delta_T)))))))"

text \<open>The inlet state, the isentropic outlet, the work and the outlet enthalpy.\<close>

definition isentropic_work ::
    "gas_mixture \<Rightarrow> nat \<Rightarrow> real \<Rightarrow> real \<Rightarrow> real \<Rightarrow> real \<Rightarrow> real \<Rightarrow> real \<Rightarrow> real \<Rightarrow> (real \<times> real \<times> real) res" where
  "isentropic_work mx n tol max_dT T_cap p_in_pa p_out_pa T_in_k efficiency =
     res_bind (mix_entropy_at mx p_in_pa T_in_k) (\<lambda>s_in.
     res_bind (mix_enthalpy_at mx p_in_pa T_in_k) (\<lambda>h_in.
     res_bind (fdiv p_out_pa p_in_pa) (\<lambda>ratio. res_bind (fpow ratio 0.286) (\<lambda>f.
     res_bind (for_range n (\<lambda>_. isentropic_step mx p_out_pa s_in tol max_dT T_cap) (hold 200 1200 (T_in_k * f))) (\<lambda>c.
     res_bind (loop_state c) (\<lambda>T_guess.
     res_bind (mix_enthalpy_at mx p_out_pa T_guess) (\<lambda>h_out_isen.
     let w_isen = h_out_isen - h_in in
     res_bind (fdiv w_isen efficiency) (\<lambda>w_actual. Inr (w_actual, T_guess, h_in + w_actual)))))))))"

definition match_step :: "gas_mixture \<Rightarrow> real \<Rightarrow> real \<Rightarrow> real \<Rightarrow> (real, unit) ctl res" where
  "match_step mx p_out_pa h_out_actual T_act =
     res_bind (mix_enthalpy_at mx p_out_pa T_act) (\<lambda>h_val.
     res_bind (mix_cp_at mx p_out_pa T_act) (\<lambda>cp_val.
     let diff = h_val - h_out_actual in
     if \<bar>diff\<bar> < 1 then Inr (Break T_act)
     else res_bind (fdiv diff cp_val) (\<lambda>delta_T.
       Inr (Next (hold 100 2000 (T_act - limit_step 50 delta_T))))))"

definition calculate_mixture_compression_jit ::
    "real \<Rightarrow> real \<Rightarrow> real \<Rightarrow> real \<Rightarrow> gas_mixture \<Rightarrow> (real \<times> real \<times> real) res" where
  "calculate_mixture_compression_jit p_in_pa p_out_pa T_in_k efficiency mx =
     res_bind (isentropic_work mx 8 (1 / 10 ^ 4) 50 2000 p_in_pa p_out_pa T_in_k efficiency) (\<lambda>(w_actual, T_guess, h_out_actual).
     res_bind (for_range 8 (\<lambda>_. match_step mx p_out_pa h_out_actual) T_guess) (\<lambda>c.
     res_bind (loop_state c) (\<lambda>T_act. Inr (w_actual, T_act, h_out_actual))))"

section \<open>The temperature limit\<close>

definition light_match_step :: "gas_mixture \<Rightarrow> real \<Rightarrow> real \<Rightarrow> real \<Rightarrow> (real, unit) ctl res" where
  "light_match_step mx p_out_pa h_out_actual T_act =
     res_bind (mix_enthalpy_at mx p_out_pa T_act) (\<lambda>h_val.
     let diff = h_val - h_out_actual in
     if \<bar>diff\<bar> < 10 then Inr (Break T_act)
     else res_bind (mix_cp_at mx p_out_pa T_act) (\<lambda>cp_val. res_bind (fdiv diff cp_val) (\<lambda>delta_T.
       Inr (Next (hold 100 2000 (T_act - limit_step 30 delta_T))))))"

definition compute_T_out_for_P_jit :: "real \<Rightarrow> real \<Rightarrow> real \<Rightarrow> real \<Rightarrow> gas_mixture \<Rightarrow> real res" where
  "compute_T_out_for_P_jit p_in_pa p_out_pa T_in_k efficiency mx =
     res_bind (isentropic_work mx 6 (1 / 10 ^ 3) 30 1500 p_in_pa p_out_pa T_in_k efficiency) (\<lambda>(_, T_guess, h_out_actual).
     res_bind (for_range 6 (\<lambda>_. light_match_step mx p_out_pa h_out_actual) T_guess) loop_state)"

definition limit_bisect_step ::
    "(real \<Rightarrow> real res) \<Rightarrow> real \<Rightarrow> real \<times> real \<Rightarrow> (real \<times> real, unit) ctl res" where
  "limit_bisect_step T_out T_max_k bracket = (case bracket of (p_low, p_high) \<Rightarrow>
     let p_mid = (p_low + p_high) * 0.5 in
     res_bind (T_out p_mid) (\<lambda>T_mid.
     let p_low' = (if T_mid \<le> T_max_k then p_mid else p_low);
         p_high' = (if T_mid \<le> T_max_k then p_high else p_mid)
     in res_bind (fdiv \<bar>p_high' - p_low'\<bar> p_low') (\<lambda>gap.
        Inr (if gap < 0.001 then Break (p_low', p_high') else Next (p_low', p_high')))))"

definition solve_temp_limited_pressure_jit ::
    "real \<Rightarrow> real \<Rightarrow> real \<Rightarrow> real \<Rightarrow> real \<Rightarrow> gas_mixture \<Rightarrow> (real \<times> real \<times> real) res" where
  "solve_temp_limited_pressure_jit p_in_pa p_max_pa T_in_k T_max_k efficiency mx =
     res_bind (compute_T_out_for_P_jit p_in_pa p_max_pa T_in_k efficiency mx) (\<lambda>T_at_max.
     if T_at_max \<le> T_max_k then
       res_bind (calculate_mixture_compression_jit p_in_pa p_max_pa T_in_k efficiency mx) (\<lambda>(w_act, T_out, _).
       Inr (p_max_pa, T_out, w_act))
     else
       res_bind (for_range 25 (\<lambda>_. limit_bisect_step (\<lambda>p. compute_T_out_for_P_jit p_in_pa p T_in_k efficiency mx) T_max_k)
           (p_in_pa, p_max_pa)) (\<lambda>c.
       res_bind (loop_state c) (\<lambda>(p_out_final, _).
       res_bind (calculate_mixture_compression_jit p_in_pa p_out_final T_in_k efficiency mx) (\<lambda>(w_act, T_out, _).
       Inr (p_out_final, T_out, w_act)))))"

section \<open>Compression of a pure gas\<close>

lemma solve_T_total:
  assumes gx: "sorted_grid P_grid" and gy: "sorted_grid T_grid" and "table_for P_grid T_grid H" "table_for P_grid T_grid C"
    and "cp_default \<noteq> 0" and "273.15 \<le> T_guess" "T_guess \<le> 1200"
  shows "\<exists>T. solve_temperature_from_enthalpy_jit h_target p T_guess P_grid T_grid H C cp_default tol n = Inr T
    \<and> 273.15 \<le> T \<and> T \<le> 1200"
proof -
  obtain i wp where i: "axis_weight P_grid p = Inr (int i, wp)" "Suc i < length P_grid"
    using sorted_grid.axis_weight_law [OF gx] by metis
  let ?step = "enthalpy_newton_step h_target T_grid (int (Suc i)) wp H C cp_default tol"
  let ?I = "\<lambda>T. 273.15 \<le> T \<and> T \<le> (1200 :: real)"
  have "\<exists>c. for_range n (\<lambda>_. ?step) T_guess = Inr c \<and> ctl_all ?I ?I c"
  proof (rule for_from_total)
    fix k :: nat and T assume "?I T"
    obtain h c where hc: "table_at T_grid (int (Suc i)) wp T H C = Inr (h, c)"
      using table_at_lookup [OF gx gy assms(3,4) i] by metis
    have "(if c < 100 then cp_default else c) \<noteq> 0" using assms(5) by auto
    then show "\<exists>c. ?step T = Inr c \<and> ctl_all ?I ?I c"
      unfolding enthalpy_newton_step_def hc by (auto simp: fdiv_ok Let_def min_def max_def)
  qed (use assms in simp)
  then obtain c where c: "for_range n (\<lambda>_. ?step) T_guess = Inr c" "ctl_all ?I ?I c" by blast
  show ?thesis
    unfolding solve_T_unfold [OF gx i(1)] c(1) res_bind.simps using c(2) by (cases c) auto
qed

text \<open>
  The compression of a pure gas obeys the first law: on complete tables, positive pressures and a
  non-zero efficiency it always returns; the outlet enthalpy is the inlet enthalpy plus the work, the work
  times the efficiency is the enthalpy rise at the inlet's entropy, and the outlet temperature is the
  inverse of the outlet enthalpy, within the range of the tables.
\<close>

theorem realgas_compression_first_law:
  assumes "sorted_grid (gt_P_grid g)" "sorted_grid (gt_T_grid g)" "sorted_grid (gt_S_grid g)"
    and "\<forall>tab \<in> {gt_H_lut g, gt_S_lut g, gt_C_lut g}. table_for (gt_P_grid g) (gt_T_grid g) tab"
    and "table_for (gt_P_grid g) (gt_S_grid g) (gt_H_from_PS_lut g)"
    and "0 < p_in" "0 < p_out" "efficiency \<noteq> 0"
  shows "\<exists>w T h s_in h_in h_isen. calculate_compression_realgas_jit p_in p_out T_in efficiency g = Inr (w, T, h)
    \<and> bilinear_interp_jit (gt_P_grid g) (gt_T_grid g) (gt_S_lut g) p_in T_in = Inr s_in
    \<and> bilinear_interp_jit (gt_P_grid g) (gt_T_grid g) (gt_H_lut g) p_in T_in = Inr h_in
    \<and> bilinear_interp_jit (gt_P_grid g) (gt_S_grid g) (gt_H_from_PS_lut g) p_out s_in = Inr h_isen
    \<and> h = h_in + w \<and> efficiency * w = h_isen - h_in \<and> 273.15 \<le> T \<and> T \<le> 1200"
proof -
  note t = bilinear_interp_total [OF assms(1,2)] bilinear_interp_total [OF assms(1,3,5)]
  obtain s_in where s: "bilinear_interp_jit (gt_P_grid g) (gt_T_grid g) (gt_S_lut g) p_in T_in = Inr s_in" using t(1) assms(4) by blast
  obtain h_in where h: "bilinear_interp_jit (gt_P_grid g) (gt_T_grid g) (gt_H_lut g) p_in T_in = Inr h_in" using t(1) assms(4) by blast
  obtain h_isen where hi: "bilinear_interp_jit (gt_P_grid g) (gt_S_grid g) (gt_H_from_PS_lut g) p_out s_in = Inr h_isen" using t(2) by blast
  define w where "w = (h_isen - h_in) / efficiency"
  define ex :: real where "ex = (1.41 - 1) / 1.41"
  have r: "fdiv p_out p_in = Inr (p_out / p_in)" "fpow (p_out / p_in) ex = Inr ((p_out / p_in) powr ex)"
    using assms(6,7) by (simp_all add: fdiv_ok fpow_def)
  define T_guess where "T_guess = max 273.15 (min (T_in * (p_out / p_in) powr ex) 1200)"
  have g: "273.15 \<le> T_guess" "T_guess \<le> 1200" by (auto simp: T_guess_def)
  obtain T where T: "solve_temperature_from_enthalpy_jit (h_in + w) p_out T_guess (gt_P_grid g) (gt_T_grid g)
      (gt_H_lut g) (gt_C_lut g) 4180 0.01 20 = Inr T" "273.15 \<le> T" "T \<le> 1200"
    using solve_T_total [OF assms(1,2) _ _ _ g] assms(4) by force
  have "calculate_compression_realgas_jit p_in p_out T_in efficiency g = Inr (w, T, h_in + w)"
    unfolding calculate_compression_realgas_jit_def s h hi res_bind.simps Let_def fdiv_ok [OF assms(8)]
      w_def [symmetric] ex_def [symmetric] r T_guess_def [symmetric] T(1) ..
  moreover have "efficiency * w = h_isen - h_in" using assms(8) by (simp add: w_def)
  ultimately show ?thesis using s h hi T(2,3) by blast
qed

theorem realgas_compression_first_law_witness:
  "\<exists>w T h. calculate_compression_realgas_jit 100000 3000000 300 0.75
     \<lparr>gt_P_grid = [100000, 5000000], gt_T_grid = [250, 600], gt_S_grid = [40000, 70000],
      gt_H_lut = values_of [[0, 5000000], [0, 5000000]], gt_S_lut = values_of [[60000, 70000], [40000, 50000]],
      gt_C_lut = values_of [[14000, 14600], [14000, 14600]], gt_H_from_PS_lut = values_of [[0, 5000000], [5000000, 9000000]]\<rparr>
     = Inr (w, T, h) \<and> 273.15 \<le> T \<and> T \<le> 1200"
  using realgas_compression_first_law [of "\<lparr>gt_P_grid = [100000, 5000000], gt_T_grid = [250, 600], gt_S_grid = [40000, 70000],
      gt_H_lut = values_of [[0, 5000000], [0, 5000000]], gt_S_lut = values_of [[60000, 70000], [40000, 50000]],
      gt_C_lut = values_of [[14000, 14600], [14000, 14600]], gt_H_from_PS_lut = values_of [[0, 5000000], [5000000, 9000000]]\<rparr>"
      100000 3000000 "0.75" 300]
  by (auto simp: sorted_grid_def)

section \<open>Lookups are defined\<close>

definition mixture_ok :: "gas_mixture \<Rightarrow> bool" where
  "mixture_ok mx \<longleftrightarrow> sorted_grid (mx_P_grid mx) \<and> sorted_grid (mx_T_grid mx)
     \<and> (\<forall>luts \<in> {mx_H_luts mx, mx_S_luts mx, mx_C_luts mx}. length (mx_weights mx) \<le> length luts
         \<and> (\<forall>tab \<in> set luts. table_for (mx_P_grid mx) (mx_T_grid mx) tab))"

lemma mixture_weights:
  assumes "mixture_ok mx"
  obtains i j wx wy where "get_interp_weights_jit (mx_P_grid mx) (mx_T_grid mx) p T = Inr (int i, int j, wx, wy)"
    and "Suc i < length (mx_P_grid mx)" and "Suc j < length (mx_T_grid mx)"
proof -
  obtain i wx where "axis_weight (mx_P_grid mx) p = Inr (int i, wx)" "Suc i < length (mx_P_grid mx)"
    using sorted_grid.axis_weight_law [of "mx_P_grid mx"] assms unfolding mixture_ok_def by metis
  moreover obtain j wy where "axis_weight (mx_T_grid mx) T = Inr (int j, wy)" "Suc j < length (mx_T_grid mx)"
    using sorted_grid.axis_weight_law [of "mx_T_grid mx"] assms unfolding mixture_ok_def by metis
  ultimately show ?thesis using that by (simp add: get_interp_weights_jit_def)
qed

lemma mixture_lookups_total:
  assumes ok: "mixture_ok mx"
  shows "\<exists>h. mix_enthalpy_at mx p T = Inr h" and "\<exists>s. mix_entropy_at mx p T = Inr s"
    and "\<exists>c. mix_cp_at mx p T = Inr c \<and> c \<noteq> 0"
proof -
  obtain i j wx wy where w: "get_interp_weights_jit (mx_P_grid mx) (mx_T_grid mx) p T = Inr (int i, int j, wx, wy)"
      "Suc i < length (mx_P_grid mx)" "Suc j < length (mx_T_grid mx)"
    by (rule mixture_weights [OF ok])
  have t: "\<exists>v. weighted_sum luts (mx_weights mx) (int i) (int j) wx wy = Inr v"
    if "luts \<in> {mx_H_luts mx, mx_S_luts mx, mx_C_luts mx}" for luts
    using weighted_sum_total [OF _ _ w(2,3)] ok that unfolding mixture_ok_def by blast
  show "\<exists>h. mix_enthalpy_at mx p T = Inr h"
    using t [of "mx_H_luts mx"] by (simp add: mix_enthalpy_at_def w(1) get_mix_enthalpy_fast_jit_def)
  show "\<exists>s. mix_entropy_at mx p T = Inr s"
    using t [of "mx_S_luts mx"] by (auto simp: mix_entropy_at_def w(1) get_mix_entropy_fast_jit_def Let_def)
  obtain v where "weighted_sum (mx_C_luts mx) (mx_weights mx) (int i) (int j) wx wy = Inr v" using t by blast
  then show "\<exists>c. mix_cp_at mx p T = Inr c \<and> c \<noteq> 0"
    by (cases "\<bar>v\<bar> < 1 / 10 ^ 9") (auto simp: mix_cp_at_def w(1) get_mix_cp_jit_def)
qed

section \<open>Compression of a mixture\<close>

lemma hold_range: "lo \<le> hi \<Longrightarrow> lo \<le> hold lo hi x \<and> hold lo hi x \<le> hi"
  by (auto simp: hold_def)

lemma isentropic_loop:
  assumes "mixture_ok mx" and "100 \<le> T" "T \<le> cap" "100 \<le> cap"
  shows "\<exists>c T'. for_range n (\<lambda>_. isentropic_step mx p s_in tol max_dT cap) T = Inr c \<and> loop_state c = Inr T' \<and> 100 \<le> T' \<and> T' \<le> cap"
proof -
  let ?I = "\<lambda>T. 100 \<le> T \<and> T \<le> cap"
  have "\<exists>c. for_range n (\<lambda>_. isentropic_step mx p s_in tol max_dT cap) T = Inr c \<and> ctl_all ?I (\<lambda>_. False) c"
  proof (rule for_from_total)
    fix i :: nat and T assume T: "?I T"
    obtain s where s: "mix_entropy_at mx p T = Inr s" using mixture_lookups_total [OF assms(1)] by blast
    obtain c where c: "mix_cp_at mx p T = Inr c" "c \<noteq> 0" using mixture_lookups_total [OF assms(1)] by blast
    have "T \<noteq> 0" "c / T \<noteq> 0" using T c(2) by auto
    then show "\<exists>c. isentropic_step mx p s_in tol max_dT cap T = Inr c \<and> ctl_all ?I (\<lambda>_. False) c"
      using T hold_range [OF assms(4)] by (auto simp: isentropic_step_def s c(1) fdiv_ok Let_def)
  qed (use assms in simp)
  then obtain c where c: "for_range n (\<lambda>_. isentropic_step mx p s_in tol max_dT cap) T = Inr c" "ctl_all ?I (\<lambda>_. False) c" by blast
  then show ?thesis by (cases c) auto
qed

lemma isentropic_work_value:
  assumes "mixture_ok mx" and "0 < p_in" "0 < p_out" and "efficiency \<noteq> 0" and "1200 \<le> cap"
  obtains w T h h_in h_iso where "isentropic_work mx n tol max_dT cap p_in p_out T_in efficiency = Inr (w, T, h)"
    and "mix_enthalpy_at mx p_in T_in = Inr h_in" and "mix_enthalpy_at mx p_out T = Inr h_iso"
    and "h = h_in + w" and "efficiency * w = h_iso - h_in" and "100 \<le> T" and "T \<le> cap"
proof -
  obtain s_in where s: "mix_entropy_at mx p_in T_in = Inr s_in" using mixture_lookups_total [OF assms(1)] by blast
  obtain h_in where h: "mix_enthalpy_at mx p_in T_in = Inr h_in" using mixture_lookups_total [OF assms(1)] by blast
  have r: "fdiv p_out p_in = Inr (p_out / p_in)" "fpow (p_out / p_in) 0.286 = Inr ((p_out / p_in) powr 0.286)"
    using assms(2,3) by (simp_all add: fdiv_ok fpow_pos)
  define T0 where "T0 = hold 200 1200 (T_in * (p_out / p_in) powr 0.286)"
  have T0: "100 \<le> T0" "T0 \<le> cap" "100 \<le> cap"
    using hold_range [of 200 1200 "T_in * (p_out / p_in) powr 0.286"] assms(5) unfolding T0_def by linarith+
  obtain c T where c: "for_range n (\<lambda>_. isentropic_step mx p_out s_in tol max_dT cap) T0 = Inr c" "loop_state c = Inr T" "100 \<le> T" "T \<le> cap"
    using isentropic_loop [OF assms(1) T0] by blast
  obtain h_iso where hi: "mix_enthalpy_at mx p_out T = Inr h_iso" using mixture_lookups_total [OF assms(1)] by blast
  have "isentropic_work mx n tol max_dT cap p_in p_out T_in efficiency
      = Inr ((h_iso - h_in) / efficiency, T, h_in + (h_iso - h_in) / efficiency)"
    unfolding isentropic_work_def s h r res_bind.simps T0_def [symmetric] c(1,2) hi Let_def fdiv_ok [OF assms(4)] ..
  then show ?thesis by (rule that [OF _ h hi]) (use assms(4) c(3,4) in auto)
qed

lemma match_loop:
  assumes "mixture_ok mx" and "100 \<le> T" "T \<le> 2000"
    and step: "\<And>T c h. mix_cp_at mx p T = Inr c \<Longrightarrow> c \<noteq> 0 \<Longrightarrow> mix_enthalpy_at mx p T = Inr h \<Longrightarrow>
      \<exists>T'. step T = Inr (if \<bar>h - h_out\<bar> < tol then Break T else Next (hold 100 2000 T'))"
  shows "\<exists>c T'. for_range n (\<lambda>_. step) T = Inr c \<and> loop_state c = Inr T' \<and> 100 \<le> T' \<and> T' \<le> 2000
    \<and> (\<forall>h. mix_enthalpy_at mx p T = Inr h \<and> \<bar>h - h_out\<bar> < tol \<longrightarrow> T' = T)"
proof -
  let ?I = "\<lambda>T. 100 \<le> T \<and> T \<le> (2000 :: real)"
  have "\<exists>c. for_range n (\<lambda>_. step) T = Inr c \<and> ctl_all ?I (\<lambda>_. False) c"
  proof (rule for_from_total)
    fix i :: nat and T assume T: "?I T"
    obtain h where h: "mix_enthalpy_at mx p T = Inr h" using mixture_lookups_total [OF assms(1)] by blast
    obtain c where c: "mix_cp_at mx p T = Inr c" "c \<noteq> 0" using mixture_lookups_total [OF assms(1)] by blast
    show "\<exists>c. step T = Inr c \<and> ctl_all ?I (\<lambda>_. False) c"
      using step [OF c h] T hold_range [of 100 2000] by auto
  qed (use assms in simp)
  then obtain c where c: "for_range n (\<lambda>_. step) T = Inr c" "ctl_all ?I (\<lambda>_. False) c" by blast
  moreover have "loop_state c = Inr T" if h: "mix_enthalpy_at mx p T = Inr h" "\<bar>h - h_out\<bar> < tol" for h
  proof -
    obtain cp where cp: "mix_cp_at mx p T = Inr cp" "cp \<noteq> 0" using mixture_lookups_total [OF assms(1)] by blast
    have "step T = Inr (Break T)" using step [OF cp h(1)] h(2) by simp
    then show ?thesis using c(1) by (cases n) auto
  qed
  ultimately show ?thesis by (cases c) auto
qed

lemma match_step_shape:
  assumes "mix_cp_at mx p T = Inr c" "c \<noteq> 0" "mix_enthalpy_at mx p T = Inr h"
  shows "\<exists>T'. match_step mx p h_out T = Inr (if \<bar>h - h_out\<bar> < 1 then Break T else Next (hold 100 2000 T'))"
    and "\<exists>T'. light_match_step mx p h_out T = Inr (if \<bar>h - h_out\<bar> < 10 then Break T else Next (hold 100 2000 T'))"
  using assms by (auto simp: match_step_def light_match_step_def fdiv_ok Let_def)

lemma mixture_compression_total:
  assumes "mixture_ok mx" and "0 < p_in" "0 < p_out" and "efficiency \<noteq> 0"
  shows "\<exists>w T h. calculate_mixture_compression_jit p_in p_out T_in efficiency mx = Inr (w, T, h)"
proof -
  have cap: "(1200 :: real) \<le> 2000" by simp
  obtain w T h h_in h_iso where iso: "isentropic_work mx 8 (1 / 10 ^ 4) 50 2000 p_in p_out T_in efficiency = Inr (w, T, h)"
      "100 \<le> T" "T \<le> 2000"
    using isentropic_work_value [OF assms cap, of 8 "1 / 10 ^ 4" 50 T_in] by metis
  obtain c T' where "for_range 8 (\<lambda>_. match_step mx p_out h) T = Inr c" "loop_state c = Inr T'"
    using match_loop [OF assms(1) iso(2,3), of p_out "match_step mx p_out h" h 1 8] match_step_shape(1) by blast
  then show ?thesis using iso(1) by (simp add: calculate_mixture_compression_jit_def)
qed


definition demo_mixture :: gas_mixture where
  "demo_mixture = \<lparr>mx_P_grid = [100000, 5000000], mx_T_grid = [250, 600],
     mx_H_luts = [values_of [[0, 5000000], [0, 5000000]]], mx_S_luts = [values_of [[60000, 70000], [40000, 50000]]],
     mx_C_luts = [values_of [[14000, 14600], [14000, 14600]]], mx_weights = [1], mx_M_mix_kg_mol = 0.002016, mx_sum_ylny = 0\<rparr>"

lemma demo_mixture_ok: "mixture_ok demo_mixture"
  by (simp add: mixture_ok_def demo_mixture_def sorted_grid_def)


text \<open>
  The entropy of mixing plays no part in the compression: whatever molar mass and composition term the
  caller passes, the result is the same, errors included.
\<close>

theorem compression_ignores_mixing_entropy:
  fixes mx :: gas_mixture
  shows "calculate_mixture_compression_jit p_in p_out T_in efficiency (mx\<lparr>mx_M_mix_kg_mol := M, mx_sum_ylny := s\<rparr>)
    = calculate_mixture_compression_jit p_in p_out T_in efficiency mx"
proof -
  let ?mx' = "mx\<lparr>mx_M_mix_kg_mol := M, mx_sum_ylny := s\<rparr>"
  define mixing where "mixing = (\<lambda>mx :: gas_mixture. if mx_M_mix_kg_mol mx > 1 / 10 ^ 9 then - (8.314462618 / mx_M_mix_kg_mol mx) * mx_sum_ylny mx else 0)"
  define base where "base = (\<lambda>p T. res_bind (get_interp_weights_jit (mx_P_grid mx) (mx_T_grid mx) p T)
      (\<lambda>(ix, iy, wx, wy). weighted_sum (mx_S_luts mx) (mx_weights mx) ix iy wx wy))"
  have e: "mix_entropy_at m p T = res_bind (base p T) (\<lambda>b. Inr (b + mixing m))"
    if "m \<in> {mx, ?mx'}" for m p T
    using that by (auto simp: mix_entropy_at_def get_mix_entropy_fast_jit_def base_def mixing_def Let_def res_bind_assoc case_prod_unfold)
  have same: "mix_cp_at ?mx' = mix_cp_at mx" "mix_enthalpy_at ?mx' = mix_enthalpy_at mx"
    by (auto simp: mix_cp_at_def mix_enthalpy_at_def fun_eq_iff)
  have step: "isentropic_step ?mx' p (b + mixing ?mx') tol d cap = isentropic_step mx p (b + mixing mx) tol d cap" for p b tol d cap
    by (rule ext) (auto simp: isentropic_step_def e same res_bind_assoc Let_def intro!: res_bind_cong)
  have "isentropic_work ?mx' n tol d cap p_in p_out T_in efficiency = isentropic_work mx n tol d cap p_in p_out T_in efficiency" for n tol d cap
    by (cases "base p_in T_in") (simp_all add: isentropic_work_def e same step)
  moreover have "match_step ?mx' = match_step mx" by (simp add: match_step_def same fun_eq_iff)
  ultimately show ?thesis unfolding calculate_mixture_compression_jit_def by simp
qed

section \<open>The temperature limit\<close>

lemma compute_T_out_total:
  assumes "mixture_ok mx" and "0 < p_in" "0 < p" and "efficiency \<noteq> 0"
  shows "\<exists>T. compute_T_out_for_P_jit p_in p T_in efficiency mx = Inr T \<and> 100 \<le> T \<and> T \<le> 2000"
proof -
  have cap: "(1200 :: real) \<le> 1500" by simp
  obtain w T_iso h h_in h_iso where iso: "isentropic_work mx 6 (1 / 10 ^ 3) 30 1500 p_in p T_in efficiency = Inr (w, T_iso, h)"
      "mix_enthalpy_at mx p T_iso = Inr h_iso" "100 \<le> T_iso" "T_iso \<le> 1500"
    by (rule isentropic_work_value [OF assms cap]) blast
  have "T_iso \<le> 2000" using iso(4) by simp
  then have "\<exists>c T'. for_range 6 (\<lambda>_. light_match_step mx p h) T_iso = Inr c \<and> loop_state c = Inr T' \<and> 100 \<le> T' \<and> T' \<le> 2000
      \<and> (\<forall>h'. mix_enthalpy_at mx p T_iso = Inr h' \<and> \<bar>h' - h\<bar> < 10 \<longrightarrow> T' = T_iso)"
    by (rule match_loop [OF assms(1) iso(3) _ match_step_shape(2)])
  then obtain c T' where c: "for_range 6 (\<lambda>_. light_match_step mx p h) T_iso = Inr c" "loop_state c = Inr T'"
      "100 \<le> T'" "T' \<le> 2000" by blast
  have "compute_T_out_for_P_jit p_in p T_in efficiency mx = Inr T'"
    unfolding compute_T_out_for_P_jit_def iso(1) res_bind.simps prod.case c(1,2) ..
  then show ?thesis using c(3,4) by blast
qed

text \<open>What the bisection knows of its bracket.\<close>

definition limited :: "(real \<Rightarrow> real res) \<Rightarrow> real \<Rightarrow> real \<Rightarrow> real \<Rightarrow> real \<times> real \<Rightarrow> bool" where
  "limited T_out T_max p_in p_max bracket \<longleftrightarrow> (case bracket of (lo, hi) \<Rightarrow>
     0 < p_in \<and> p_in \<le> lo \<and> lo \<le> hi \<and> hi \<le> p_max
     \<and> (\<forall>p. p_in \<le> p \<and> p \<le> p_max \<longrightarrow> (\<exists>T. T_out p = Inr T))
     \<and> (lo = p_in \<or> (\<exists>T. T_out lo = Inr T \<and> T \<le> T_max)) \<and> (\<exists>T. T_out hi = Inr T \<and> T_max < T))"

interpretation limit_search: bisection "\<lambda>_. limit_bisect_step T_out T_max" "\<lambda>(lo, hi). hi - lo"
    "limited T_out T_max p_in p_max" "\<lambda>(lo, hi). limited T_out T_max p_in p_max (lo, hi) \<and> hi - lo < 0.001 * lo" "\<lambda>_. False"
  for T_out T_max p_in p_max
proof
  fix s :: "real \<times> real" and i :: nat assume "limited T_out T_max p_in p_max s"
  moreover obtain lo hi where s: "s = (lo, hi)" by (cases s)
  ultimately have I: "0 < p_in" "p_in \<le> lo" "lo \<le> hi" "hi \<le> p_max"
      "\<And>p. p_in \<le> p \<Longrightarrow> p \<le> p_max \<Longrightarrow> \<exists>T. T_out p = Inr T"
      "lo = p_in \<or> (\<exists>T. T_out lo = Inr T \<and> T \<le> T_max)" "\<exists>T. T_out hi = Inr T \<and> T_max < T"
    by (auto simp: limited_def)
  define mid where "mid = (lo + hi) * 0.5"
  have mid: "lo \<le> mid" "mid \<le> hi" "hi - mid = (hi - lo) / 2" "mid - lo = (hi - lo) / 2"
    using I(3) by (simp_all add: mid_def field_simps)
  obtain T where T: "T_out mid = Inr T" using I(2,4,5) mid by (meson order.trans)
  define s' where "s' = (if T \<le> T_max then (mid, hi) else (lo, mid))"
  have s': "limited T_out T_max p_in p_max s'" using I mid T by (auto simp: limited_def s'_def)
  have w: "snd s' - fst s' = (hi - lo) / 2" using mid by (simp add: s'_def)
  have pos: "0 < fst s'" "fst s' \<le> snd s'" using I mid by (auto simp: s'_def)
  have "limit_bisect_step T_out T_max s = Inr (if \<bar>snd s' - fst s'\<bar> / fst s' < 0.001 then Break s' else Next s')"
  proof -
    have ne: "mid \<noteq> 0" "lo \<noteq> 0" using I mid by auto
    show ?thesis
      by (cases "T \<le> T_max") (simp_all only: limit_bisect_step_def s prod.case Let_def mid_def [symmetric] T res_bind.simps
        s'_def if_True if_False fdiv_ok [OF ne(1)] fdiv_ok [OF ne(2)] fst_conv snd_conv simp_thms)
  qed
  moreover have "\<bar>snd s' - fst s'\<bar> / fst s' < 0.001 \<longleftrightarrow> snd s' - fst s' < 0.001 * fst s'"
    using pos by (simp only: abs_of_nonneg diff_ge_0_iff_ge pos_divide_less_eq)
  ultimately have step: "limit_bisect_step T_out T_max s = Inr (if snd s' - fst s' < 0.001 * fst s' then Break s' else Next s')"
    by (simp only:)
  show "\<exists>c. limit_bisect_step T_out T_max s = Inr c \<and> (case c of
      Next s' \<Rightarrow> limited T_out T_max p_in p_max s' \<and> (case s' of (lo, hi) \<Rightarrow> hi - lo) = (case s of (lo, hi) \<Rightarrow> hi - lo) / 2
      | Break s' \<Rightarrow> (case s' of (lo, hi) \<Rightarrow> limited T_out T_max p_in p_max (lo, hi) \<and> hi - lo < 0.001 * lo)
      | Return r \<Rightarrow> False)"
    unfolding step using s' w by (simp add: s case_prod_unfold)
qed



end
