(* ===== verification/Cooler.thy ===== *)
theory Cooler
  imports HeatExchange
begin

text \<open>
  Two fused process kernels: the axial multi-cyclone separator, with its cut size and pressure drop, and the
  dry cooler, a counter-flow exchanger whose glycol is cooled by ambient air in a cross-flow exchanger.
\<close>

section \<open>Cyclone\<close>

definition solve_cyclone_mechanics ::
    "real \<Rightarrow> real \<Rightarrow> real \<Rightarrow> real \<Rightarrow> real \<Rightarrow> real \<Rightarrow> int \<Rightarrow> (real \<times> real \<times> real \<times> real) res" where
  "solve_cyclone_mechanics Q_gas_m3s rho_g rho_l mu_g D_element_m vane_angle_rad N_tubes =
     (if N_tubes \<le> 0 \<or> Q_gas_m3s \<le> 1 / 10 ^ 9 then Inr (0, 0, 0, 0)
      else let D_hub = 0.3 * D_element_m; Area_annulus = (pi / 4) * (D_element_m ^ 2 - D_hub ^ 2) in
      res_bind (fdiv Q_gas_m3s (real_of_int N_tubes * Area_annulus)) (\<lambda>v_axial.
      let v_tan = v_axial * tan vane_angle_rad; r_mean = (D_element_m + D_hub) / 4 in
      res_bind (fdiv (v_tan ^ 2) r_mean) (\<lambda>g_spin.
      let L_sep = 3 * D_element_m in
      res_bind (if v_axial > 1 / 10 ^ 9 then fdiv L_sep v_axial else Inr 1000000) (\<lambda>t_res.
      let s_drift = (D_element_m - D_hub) / 2; density_diff = rho_l - rho_g in
      res_bind (if density_diff > 0 \<and> g_spin > 0 \<and> t_res > 0
                then res_bind (fdiv (18 * mu_g * s_drift) (density_diff * g_spin * t_res)) (\<lambda>d50_sq.
                     res_bind (np_sqrt d50_sq) (\<lambda>d. Inr (d * 1000000)))
                else Inr 0) (\<lambda>d50_microns.
      let delta_P_pa = 4.8 * 0.5 * rho_g * v_axial ^ 2 in Inr (d50_microns, delta_P_pa, v_axial, v_tan))))))"

section \<open>Dry cooler\<close>

record cooler_stream =
  cs_m_dot_gas :: real
  cs_cp_gas :: real
  cs_T_gas_in_k :: real
  cs_glycol_flow_kg_s :: real
  cs_glycol_cp :: real
  cs_T_glycol_in_k :: real
  cs_T_air_in_k :: real
  cs_dc_air_flow_kg_s :: real
  cs_cp_air :: real

record cooler_size =
  cz_tqc_u :: real
  cz_tqc_area :: real
  cz_dc_u :: real
  cz_dc_area :: real
  cz_use_dc :: bool

record tube_data =
  td_flow_area_gas :: real
  td_flow_area_glycol :: real
  td_d_tube_in :: real
  td_d_tube_out :: real
  td_mu_gas :: real
  td_k_gas :: real
  td_pr_gas :: real
  td_mu_glycol :: real
  td_k_glycol :: real
  td_pr_glycol :: real
  td_k_tube_wall :: real
  td_r_foul_glycol :: real
  td_use_dynamic_u :: bool

text \<open>The film coefficient of one side: Dittus-Boelter with the side's exponent, or the laminar limit.\<close>

definition film_coefficient :: "real \<Rightarrow> real \<Rightarrow> real \<Rightarrow> real \<Rightarrow> real \<Rightarrow> real \<Rightarrow> real \<Rightarrow> real \<Rightarrow> real res" where
  "film_coefficient flow area d mu k pr n h_default =
     res_bind (fdiv flow area) (\<lambda>G.
     res_bind (if mu > 0 then fdiv (G * d) mu else Inr 0) (\<lambda>Re.
     res_bind (if Re > 0 \<and> pr > 0 then res_bind (fpow Re 0.8) (\<lambda>a. res_bind (fpow pr n) (\<lambda>b. Inr (0.023 * a * b)))
               else Inr 3.66) (\<lambda>Nu.
     if d > 0 then fdiv (Nu * k) d else Inr h_default)))"

definition dynamic_u :: "cooler_stream \<Rightarrow> cooler_size \<Rightarrow> tube_data \<Rightarrow> real res" where
  "dynamic_u cs cz td =
     (if td_use_dynamic_u td \<and> td_flow_area_gas td > 0 \<and> td_flow_area_glycol td > 0 then
        res_bind (film_coefficient (cs_m_dot_gas cs) (td_flow_area_gas td) (td_d_tube_in td) (td_mu_gas td)
          (td_k_gas td) (td_pr_gas td) 0.3 500) (\<lambda>h_gas.
        res_bind (film_coefficient (cs_glycol_flow_kg_s cs) (td_flow_area_glycol td) (td_d_tube_out td) (td_mu_glycol td)
          (td_k_glycol td) (td_pr_glycol td) 0.4 200) (\<lambda>h_gly.
        let r_in = td_d_tube_in td / 2; r_out = td_d_tube_out td / 2 in
        if h_gas > 0 \<and> h_gly > 0 \<and> td_k_tube_wall td > 0 then
          res_bind (fdiv 1 h_gas) (\<lambda>a. res_bind (fdiv r_out r_in) (\<lambda>q. res_bind (np_log q) (\<lambda>l.
          res_bind (fdiv (r_in * l) (td_k_tube_wall td)) (\<lambda>b. res_bind (fdiv r_in r_out) (\<lambda>q'. res_bind (fdiv q' h_gly) (\<lambda>c.
          let R_total = a + b + c + td_r_foul_glycol td in
          if R_total > 0 then fdiv 1 R_total else Inr (cz_tqc_u cz)))))))
        else Inr (cz_tqc_u cz)))
      else Inr (cz_tqc_u cz))"

text \<open>The counter-flow exchanger: effectiveness and heat.\<close>

definition counter_flow_stage :: "real \<Rightarrow> real \<Rightarrow> real \<Rightarrow> real \<Rightarrow> (real \<times> real) res" where
  "counter_flow_stage UA C_hot C_cold dT =
     (let C_min = min C_hot C_cold; C_max = max C_hot C_cold in
      if C_min > 1 / 10 ^ 9 then
        res_bind (if C_max > 1 / 10 ^ 9 then fdiv C_min C_max else Inr 0) (\<lambda>R.
        res_bind (fdiv UA C_min) (\<lambda>NTU.
        res_bind (if \<bar>R - 1\<bar> < 1 / 10 ^ 9 then fdiv NTU (1 + NTU)
                  else let exp_val = exp (- NTU * (1 - R)); denom = 1 - R * exp_val in
                       if \<bar>denom\<bar> > 1 / 10 ^ 12 then fdiv (1 - exp_val) denom else Inr 1) (\<lambda>eff.
        Inr (eff, eff * (C_min * dT)))))
      else Inr (0, 0))"

text \<open>The cross-flow exchanger, both streams unmixed.\<close>

definition cross_flow_stage :: "real \<Rightarrow> real \<Rightarrow> real \<Rightarrow> real \<Rightarrow> (real \<times> real) res" where
  "cross_flow_stage UA C_cold C_air dT =
     (let C_min = min C_cold C_air; C_max = max C_cold C_air in
      if C_min > 1 / 10 ^ 9 then
        res_bind (if C_max > 1 / 10 ^ 9 then fdiv C_min C_max else Inr 0) (\<lambda>R.
        res_bind (fdiv UA C_min) (\<lambda>NTU.
        res_bind (if NTU > 0 \<and> R > 0 then
                    res_bind (fpow NTU 0.22) (\<lambda>a. res_bind (fdiv a R) (\<lambda>b. res_bind (fpow NTU 0.78) (\<lambda>c.
                    Inr (1 - exp (b * (exp (- R * c) - 1))))))
                  else Inr (if NTU > 0 then 1 - exp (- NTU) else 0)) (\<lambda>eff.
        Inr (eff, eff * (C_min * dT)))))
      else Inr (0, 0))"

text \<open>The temperature of a stream that takes up the heat \<open>Q\<close>.\<close>

definition stream_out :: "real \<Rightarrow> real \<Rightarrow> real \<Rightarrow> real res" where
  "stream_out T_in Q C = (if C > 1 / 10 ^ 9 then res_bind (fdiv Q C) (\<lambda>q. Inr (T_in + q)) else Inr T_in)"

definition solve_dry_cooler_thermal_jit ::
    "cooler_stream \<Rightarrow> cooler_size \<Rightarrow> tube_data \<Rightarrow> (real \<times> real \<times> real \<times> real \<times> real \<times> real \<times> real) res" where
  "solve_dry_cooler_thermal_jit cs cz td =
     res_bind (dynamic_u cs cz td) (\<lambda>u_tqc.
     let C_hot = cs_m_dot_gas cs * cs_cp_gas cs; C_cold = cs_glycol_flow_kg_s cs * cs_glycol_cp cs in
     res_bind (counter_flow_stage (u_tqc * cz_tqc_area cz) C_hot C_cold (cs_T_gas_in_k cs - cs_T_glycol_in_k cs)) (\<lambda>(eff_tqc, Q_tqc).
     res_bind (stream_out (cs_T_gas_in_k cs) (- Q_tqc) C_hot) (\<lambda>T_gas_out_k.
     res_bind (stream_out (cs_T_glycol_in_k cs) Q_tqc C_cold) (\<lambda>T_glycol_hot_k.
     if cz_use_dc cz then
       res_bind (cross_flow_stage (cz_dc_u cz * cz_dc_area cz) C_cold (cs_dc_air_flow_kg_s cs * cs_cp_air cs)
         (T_glycol_hot_k - cs_T_air_in_k cs)) (\<lambda>(eff_dc, Q_dc).
       res_bind (stream_out T_glycol_hot_k (- Q_dc) C_cold) (\<lambda>T_glycol_cold_k.
       Inr (T_gas_out_k, T_glycol_hot_k, T_glycol_cold_k, Q_tqc, Q_dc, eff_tqc, eff_dc)))
     else Inr (T_gas_out_k, T_glycol_hot_k, T_glycol_hot_k, Q_tqc, 0, eff_tqc, 0)))))"

section \<open>Cut size and pressure drop\<close>

lemma cyclone_value:
  assumes "0 < N" "1 / 10 ^ 9 < Q" "0 < D" "0 \<le> mu_g"
    and "1 / 10 ^ 9 < v" and "0 < tan a" and "rho_g < rho_l"
    and vQ: "v = Q / (real_of_int N * A)" and A_eq: "A = pi / 4 * (D ^ 2 - (0.3 * D) ^ 2)"
  shows "solve_cyclone_mechanics Q rho_g rho_l mu_g D a N = Inr
     (sqrt (18 * mu_g * (0.35 * D) / ((rho_l - rho_g) * ((v * tan a) ^ 2 / (0.325 * D)) * (3 * D / v))) * 1000000,
      4.8 * 0.5 * rho_g * v ^ 2, v, v * tan a)"
proof -
  have "D ^ 2 - (0.3 * D) ^ 2 = 0.91 * D ^ 2" by (simp add: power2_eq_square)
  then have A: "0 < A" using assms(3) by (simp only: A_eq) simp
  have v: "0 < v" by (rule less_trans [OF _ assms(5)]) simp
  define g where "g = (v * tan a) ^ 2 / (0.325 * D)"
  define t where "t = 3 * D / v"
  have pos: "0 < g" "0 < t" using v assms(3,6) by (simp_all add: g_def t_def)
  define x where "x = 18 * mu_g * (0.35 * D) / ((rho_l - rho_g) * g * t)"
  have x: "0 \<le> x" unfolding x_def using assms(3,4,7) pos by (intro divide_nonneg_pos mult_nonneg_nonneg mult_pos_pos) auto
  have f: "fdiv Q (real_of_int N * A) = Inr v" "fdiv ((v * tan a) ^ 2) ((D + 0.3 * D) / 4) = Inr g" "fdiv (3 * D) v = Inr t"
      "fdiv (18 * mu_g * ((D - 0.3 * D) / 2)) ((rho_l - rho_g) * g * t) = Inr x" "np_sqrt x = Inr (sqrt x)"
    using A assms(1,3,7) v pos x by (auto simp: vQ g_def t_def x_def fdiv_def)
  have "\<not> (N \<le> 0 \<or> Q \<le> 1 / 10 ^ 9)" "rho_l - rho_g > 0 \<and> g > 0 \<and> t > 0" using assms pos by auto
  then show ?thesis
    unfolding solve_cyclone_mechanics_def A_eq [symmetric] Let_def
    by (simp only: f if_False if_True res_bind.simps assms(5) if_P x_def [symmetric] g_def [symmetric] t_def [symmetric] simp_thms)
qed

text \<open>
  The cyclone trades pressure for separation: with the density order and the vanes as they should be,
  doubling the throughput in the same tubes quadruples the pressure drop and shrinks the cut size by the
  square root of two; more tubes have the opposite effect.
\<close>

theorem cyclone_tradeoff:
  assumes "0 < N" "0 < D" "0 \<le> mu_g" "rho_g < rho_l" "0 < tan a" "0 < k"
    and "1 / 10 ^ 9 < Q" "1 / 10 ^ 9 < k * Q"
    and "1 / 10 ^ 9 < Q / (real_of_int N * (pi / 4 * (D ^ 2 - (0.3 * D) ^ 2)))"
    and "1 / 10 ^ 9 < k * Q / (real_of_int N * (pi / 4 * (D ^ 2 - (0.3 * D) ^ 2)))"
  shows "\<exists>d50 dP v v_tan. solve_cyclone_mechanics Q rho_g rho_l mu_g D a N = Inr (d50, dP, v, v_tan)
    \<and> solve_cyclone_mechanics (k * Q) rho_g rho_l mu_g D a N = Inr (d50 / sqrt k, k ^ 2 * dP, k * v, k * v_tan)
    \<and> 0 \<le> d50 \<and> 0 < v \<and> v_tan = v * tan a"
proof -
  define A where "A = pi / 4 * (D ^ 2 - (0.3 * D) ^ 2)"
  define v where "v = Q / (real_of_int N * A)"
  have kv: "k * Q / (real_of_int N * A) = k * v" by (simp add: v_def)
  have big: "1 / 10 ^ 9 < v" "1 / 10 ^ 9 < k * v" using assms(9,10) unfolding A_def [symmetric] by (simp_all add: v_def)
  have v: "0 < v" by (rule less_trans [OF _ big(1)]) simp
  define x where "x = (\<lambda>v. 18 * mu_g * (0.35 * D) / ((rho_l - rho_g) * ((v * tan a) ^ 2 / (0.325 * D)) * (3 * D / v)))"
  have xk: "x (k * v) = x v / k"
    using v assms(2,4,5,6) unfolding x_def by (simp add: power2_eq_square divide_simps)
  have a: "solve_cyclone_mechanics Q rho_g rho_l mu_g D a N = Inr (sqrt (x v) * 1000000, 4.8 * 0.5 * rho_g * v ^ 2, v, v * tan a)"
    unfolding x_def by (rule cyclone_value [OF assms(1,7,2,3) big(1) assms(5,4) v_def A_def])
  have b: "solve_cyclone_mechanics (k * Q) rho_g rho_l mu_g D a N
      = Inr (sqrt (x (k * v)) * 1000000, 4.8 * 0.5 * rho_g * (k * v) ^ 2, k * v, k * v * tan a)"
    unfolding x_def by (rule cyclone_value [OF assms(1,8,2,3) big(2) assms(5,4) kv [symmetric] A_def])
  have "0 \<le> x v" unfolding x_def using assms(2,3,4,5) v
    by (intro divide_nonneg_pos mult_nonneg_nonneg mult_pos_pos divide_pos_pos) auto
  then have "0 \<le> sqrt (x v) * 1000000" by simp
  moreover have "solve_cyclone_mechanics (k * Q) rho_g rho_l mu_g D a N
      = Inr (sqrt (x v) * 1000000 / sqrt k, k ^ 2 * (4.8 * 0.5 * rho_g * v ^ 2), k * v, k * (v * tan a))"
    unfolding b xk real_sqrt_divide by (simp add: power_mult_distrib mult.assoc mult.left_commute)
  ultimately show ?thesis using a v by blast
qed

theorem cyclone_tradeoff_witness:
  "\<exists>d50 dP v v_tan. solve_cyclone_mechanics (2 * 1) 5 1000 (1 / 100000) 0.1 (pi / 4) 10 = Inr (d50, dP, v, v_tan) \<and> 0 < v"
proof -
  have A: "0 < pi / 4 * ((0.1 :: real) ^ 2 - (0.3 * 0.1) ^ 2)" "pi / 4 * ((0.1 :: real) ^ 2 - (0.3 * 0.1) ^ 2) < 0.0091"
    using pi_less_4 by (simp_all add: power2_eq_square)
  have "1 / 10 ^ 9 < (1 :: real) / (real_of_int 10 * (pi / 4 * (0.1 ^ 2 - (0.3 * 0.1) ^ 2)))"
       "1 / 10 ^ 9 < 2 * (1 :: real) / (real_of_int 10 * (pi / 4 * (0.1 ^ 2 - (0.3 * 0.1) ^ 2)))"
    using A pi_less_4 pi_gt_zero by (simp_all add: field_simps)
  then have "\<exists>d50 dP v v_tan. solve_cyclone_mechanics 1 5 1000 (1 / 100000) 0.1 (pi / 4) 10 = Inr (d50, dP, v, v_tan)
      \<and> solve_cyclone_mechanics (2 * 1) 5 1000 (1 / 100000) 0.1 (pi / 4) 10 = Inr (d50 / sqrt 2, 2 ^ 2 * dP, 2 * v, 2 * v_tan)
      \<and> 0 \<le> d50 \<and> 0 < v \<and> v_tan = v * tan (pi / 4)"
    by (intro cyclone_tradeoff) (simp_all add: tan_45)
  then show ?thesis by fastforce
qed


section \<open>The dry cooler's balance\<close>

text \<open>An effectiveness between 0 and 1 over the smaller capacity keeps both outlets between the inlets.\<close>

lemma exchange_bounds:
  fixes eff C Ch Cc :: real
  assumes "0 \<le> eff" "eff \<le> 1" and "C = min Ch Cc" and "1 / 10 ^ 9 < C" and "Tc \<le> Th"
  defines "Q \<equiv> eff * (C * (Th - Tc))"
  shows "stream_out Th (- Q) Ch = Inr (Th - Q / Ch)" and "stream_out Tc Q Cc = Inr (Tc + Q / Cc)"
    and "0 \<le> Q" and "Tc \<le> Th - Q / Ch" and "Th - Q / Ch \<le> Th" and "Tc \<le> Tc + Q / Cc" and "Tc + Q / Cc \<le> Th"
proof -
  have C: "1 / 10 ^ 9 < Ch" "1 / 10 ^ 9 < Cc" "C \<le> Ch" "C \<le> Cc" using assms(3,4) by auto
  have p: "0 < C" "0 < Ch" "0 < Cc" using assms(4) C by (auto intro: less_trans [of 0 "1 / 10 ^ 9"])
  show "stream_out Th (- Q) Ch = Inr (Th - Q / Ch)" "stream_out Tc Q Cc = Inr (Tc + Q / Cc)"
    using C(1,2) p by (simp_all add: stream_out_def fdiv_ok)
  show Q: "0 \<le> Q" using assms(1,5) p by (simp add: Q_def)
  have d: "0 \<le> Th - Tc" using assms(5) by simp
  have "Q \<le> 1 * (C * (Th - Tc))" unfolding Q_def using assms(2) d p by (intro mult_right_mono) simp_all
  then have "Q \<le> Ch * (Th - Tc)" "Q \<le> Cc * (Th - Tc)"
    using mult_right_mono [OF C(3) d] mult_right_mono [OF C(4) d] by linarith+
  then have "Q / Ch \<le> Th - Tc" "Q / Cc \<le> Th - Tc" using p by (simp_all add: pos_divide_le_eq mult.commute)
  moreover have "0 \<le> Q / Ch" "0 \<le> Q / Cc" using Q p by simp_all
  ultimately show "Tc \<le> Th - Q / Ch" "Th - Q / Ch \<le> Th" "Tc \<le> Tc + Q / Cc" "Tc + Q / Cc \<le> Th" by linarith+
qed

lemma counter_flow_stage_value:
  assumes "1 / 10 ^ 9 < min Ch Cc" and "0 \<le> UA"
  shows "\<exists>eff. counter_flow_stage UA Ch Cc dT = Inr (eff, eff * (min Ch Cc * dT)) \<and> 0 \<le> eff \<and> eff \<le> 1"
proof -
  define C where "C = min Ch Cc"
  define M where "M = max Ch Cc"
  have C: "1 / 10 ^ 9 < C" "1 / 10 ^ 9 < M" "C \<le> M" using assms(1) by (auto simp: C_def M_def)
  then have p: "0 < C" "0 < M" by (auto intro: less_trans [of 0 "1 / 10 ^ 9"])
  define R where "R = C / M"
  define N where "N = UA / C"
  have R: "0 < R" "R \<le> 1" using C(3) p by (simp_all add: R_def)
  have N: "0 \<le> N" using assms(2) p by (simp add: N_def)
  define e where "e = exp (- N * (1 - R))"
  have e: "0 < e" "e \<le> 1" using N R by (simp_all add: e_def)
  let ?E = "if \<bar>R - 1\<bar> < 1 / 10 ^ 9 then N / (1 + N) else if \<bar>1 - R * e\<bar> > 1 / 10 ^ 12 then (1 - e) / (1 - R * e) else 1"
  have Re: "R * e \<le> e" using R e by (simp add: mult_left_le_one_le)
  have "0 \<le> ?E \<and> ?E \<le> 1"
  proof (cases "\<bar>R - 1\<bar> < 1 / 10 ^ 9")
    case False
    then have "R < 1" using R by auto
    then have "0 < 1 - R * e" using e R Re by (smt (verit) mult_left_le)
    then show ?thesis using False e Re by (auto simp: divide_le_eq)
  qed (use N in \<open>auto simp: divide_le_eq\<close>)
  moreover have "counter_flow_stage UA Ch Cc dT = Inr (?E, ?E * (C * dT))"
  proof -
    have "1 + N \<noteq> 0" using N by simp
    have s: "1 - R * e \<noteq> 0" if "\<bar>1 - R * e\<bar> > 1 / 10 ^ 12" using that by auto
    show ?thesis
      unfolding counter_flow_stage_def C_def [symmetric] M_def [symmetric] Let_def if_P [OF C(1)] if_P [OF C(2)]
        fdiv_ok [OF less_imp_neq [OF p(1), symmetric]] fdiv_ok [OF less_imp_neq [OF p(2), symmetric]]
        R_def [symmetric] N_def [symmetric] res_bind.simps e_def [symmetric]
      using s \<open>1 + N \<noteq> 0\<close> by (simp add: fdiv_ok)
  qed
  ultimately show ?thesis unfolding C_def by blast
qed

lemma cross_flow_stage_value:
  assumes "1 / 10 ^ 9 < min Cc Ca" and "0 \<le> UA"
  shows "\<exists>eff. cross_flow_stage UA Cc Ca dT = Inr (eff, eff * (min Cc Ca * dT)) \<and> 0 \<le> eff \<and> eff \<le> 1"
proof -
  define C where "C = min Cc Ca"
  define M where "M = max Cc Ca"
  have C: "1 / 10 ^ 9 < C" "1 / 10 ^ 9 < M" using assms(1) by (auto simp: C_def M_def)
  then have p: "0 < C" "0 < M" by (auto intro: less_trans [of 0 "1 / 10 ^ 9"])
  define R where "R = C / M"
  define N where "N = UA / C"
  have R: "0 < R" and N: "0 \<le> N" using assms(2) p by (simp_all add: R_def N_def)
  let ?E = "if N > 0 then 1 - exp (N powr 0.22 / R * (exp (- R * N powr 0.78) - 1)) else 0"
  have "exp (- R * N powr 0.78) \<le> 1" using R by simp
  then have "N powr 0.22 / R * (exp (- R * N powr 0.78) - 1) \<le> 0"
    using R by (intro mult_nonneg_nonpos) simp_all
  then have "0 \<le> ?E \<and> ?E \<le> 1" by simp
  moreover have "cross_flow_stage UA Cc Ca dT = Inr (?E, ?E * (C * dT))"
    unfolding cross_flow_stage_def C_def [symmetric] M_def [symmetric] Let_def if_P [OF C(1)] if_P [OF C(2)]
      fdiv_ok [OF less_imp_neq [OF p(1), symmetric]] fdiv_ok [OF less_imp_neq [OF p(2), symmetric]]
      R_def [symmetric] N_def [symmetric] res_bind.simps
    using R N by (simp add: fdiv_ok fpow_def)
  ultimately show ?thesis unfolding C_def by blast
qed

definition tubes_ok :: "cooler_stream \<Rightarrow> tube_data \<Rightarrow> bool" where
  "tubes_ok cs td \<longleftrightarrow> (td_use_dynamic_u td \<longrightarrow> 0 \<le> cs_m_dot_gas cs \<and> 0 \<le> cs_glycol_flow_kg_s cs
     \<and> 0 < td_d_tube_in td \<and> td_d_tube_in td \<le> td_d_tube_out td \<and> 0 \<le> td_r_foul_glycol td)"

lemma film_coefficient_total:
  assumes "0 \<le> flow" "0 < area" "0 < d"
  shows "\<exists>h. film_coefficient flow area d mu k pr n h0 = Inr h"
proof -
  have nu: "\<exists>Nu. (if Re > 0 \<and> pr > 0 then res_bind (fpow Re 0.8) (\<lambda>a. res_bind (fpow pr n) (\<lambda>b. Inr (0.023 * a * b))) else Inr 3.66) = Inr Nu" for Re
  proof (cases "Re > 0 \<and> pr > 0")
    case True
    then show ?thesis unfolding if_P [OF True] fpow_def if_P [OF True [THEN conjunct1]] if_P [OF True [THEN conjunct2]] res_bind.simps by blast
  next
    case False
    show ?thesis unfolding if_not_P [OF False] by blast
  qed
  have re: "\<exists>Re. (if mu > 0 then fdiv (flow / area * d) mu else Inr 0) = Inr Re" by (auto simp: fdiv_def)
  obtain Re where Re: "(if mu > 0 then fdiv (flow / area * d) mu else Inr 0) = Inr Re" using re by blast
  obtain Nu where Nu: "(if Re > 0 \<and> pr > 0 then res_bind (fpow Re 0.8) (\<lambda>a. res_bind (fpow pr n) (\<lambda>b. Inr (0.023 * a * b))) else Inr 3.66) = Inr Nu"
    using nu by blast
  have "area \<noteq> 0" "d \<noteq> 0" using assms by auto
  then show ?thesis
    unfolding film_coefficient_def fdiv_ok [OF \<open>area \<noteq> 0\<close>] res_bind.simps Re Nu if_P [OF assms(3)] fdiv_ok [OF \<open>d \<noteq> 0\<close>] by blast
qed

lemma dynamic_u_value:
  assumes "tubes_ok cs td" and "0 \<le> cz_tqc_u cz"
  shows "\<exists>u. dynamic_u cs cz td = Inr u \<and> 0 \<le> u"
proof (cases "td_use_dynamic_u td \<and> td_flow_area_gas td > 0 \<and> td_flow_area_glycol td > 0")
  case True
  then have t: "0 \<le> cs_m_dot_gas cs" "0 \<le> cs_glycol_flow_kg_s cs" "0 < td_d_tube_in td" "0 < td_d_tube_out td"
      "td_d_tube_in td \<le> td_d_tube_out td" "0 < td_flow_area_gas td" "0 < td_flow_area_glycol td"
    using assms(1) by (auto simp: tubes_ok_def)
  obtain hg where hg: "film_coefficient (cs_m_dot_gas cs) (td_flow_area_gas td) (td_d_tube_in td) (td_mu_gas td)
      (td_k_gas td) (td_pr_gas td) 0.3 500 = Inr hg" using film_coefficient_total t by blast
  obtain hl where hl: "film_coefficient (cs_glycol_flow_kg_s cs) (td_flow_area_glycol td) (td_d_tube_out td) (td_mu_glycol td)
      (td_k_glycol td) (td_pr_glycol td) 0.4 200 = Inr hl" using film_coefficient_total t by blast
  have f: "0 < (td_d_tube_out td / 2) / (td_d_tube_in td / 2)" "td_d_tube_in td / 2 \<noteq> 0" "td_d_tube_out td / 2 \<noteq> 0" using t by auto
  show ?thesis
  proof (cases "hg > 0 \<and> hl > 0 \<and> td_k_tube_wall td > 0")
    case wall: True
    then have n: "hg \<noteq> 0" "hl \<noteq> 0" "td_k_tube_wall td \<noteq> 0" by auto
    define R where "R = 1 / hg + td_d_tube_in td / 2 * ln ((td_d_tube_out td / 2) / (td_d_tube_in td / 2)) / td_k_tube_wall td
      + (td_d_tube_in td / 2) / (td_d_tube_out td / 2) / hl + td_r_foul_glycol td"
    have "dynamic_u cs cz td = (if R > 0 then fdiv 1 R else Inr (cz_tqc_u cz))"
      unfolding dynamic_u_def if_P [OF True] hg hl res_bind.simps Let_def if_P [OF wall] np_log_ok [OF f(1)]
        fdiv_ok [OF n(1)] fdiv_ok [OF n(2)] fdiv_ok [OF n(3)] fdiv_ok [OF f(2)] fdiv_ok [OF f(3)] R_def ..
    then show ?thesis using assms(2) by (auto simp: fdiv_ok)
  next
    case False
    have "dynamic_u cs cz td = Inr (cz_tqc_u cz)"
      unfolding dynamic_u_def if_P [OF True] hg hl res_bind.simps Let_def if_not_P [OF False] ..
    then show ?thesis using assms(2) by blast
  qed
qed (use assms in \<open>auto simp: dynamic_u_def\<close>)




end
