(* ===== verification/Cython.thy ===== *)
theory Cython
  imports Interp
begin

text \<open>
  What the compiled kernels of \<open>physical_engine/optimization/_numba_ops_core.pyx\<close> are made of. The module
  is built with \<open>boundscheck=False\<close>, \<open>wraparound=False\<close> and \<open>cdivision=True\<close>: an index is used as it is,
  a division by zero does not raise. Here the first is \<open>UndefinedBehaviour\<close> when the index is outside the array, the
  second ends in \<open>NonFinite\<close>, as every other computation that leaves the finite numbers. C \<open>int\<close>s hold
  array sizes and are kept as \<open>int\<close>; a conversion from a double is undefined outside 32 bits.

  A compiled kernel is meant to agree with the Python one wherever that returns; \<open>compiles\<close> says so,
  and the rules collected as \<open>compile\<close> take it through the constructs the kernels use.
\<close>

section \<open>Arithmetic and memory\<close>

definition cdiv :: "real \<Rightarrow> real \<Rightarrow> real res" where
  "cdiv a b = (if b = 0 then Inl NonFinite else Inr (a / b))"

definition cget :: "'a list \<Rightarrow> int \<Rightarrow> 'a res" where
  "cget xs i = (if 0 \<le> i \<and> i < int (length xs) then Inr (xs ! nat i) else Inl UndefinedBehaviour)"

definition cset :: "'a list \<Rightarrow> int \<Rightarrow> 'a \<Rightarrow> 'a list res" where
  "cset xs i v = (if 0 \<le> i \<and> i < int (length xs) then Inr (xs[nat i := v]) else Inl UndefinedBehaviour)"

definition cget2 :: "'a list list \<Rightarrow> int \<Rightarrow> int \<Rightarrow> 'a res" where
  "cget2 d i j = res_bind (cget d i) (\<lambda>row. cget row j)"

definition ccell :: "ptable \<Rightarrow> int \<Rightarrow> int \<Rightarrow> real res" where
  "ccell d i j = res_bind (cget2 d i j) (\<lambda>c. case c of None \<Rightarrow> Inl NonFinite | Some v \<Rightarrow> Inr v)"

text \<open>\<open><int>x\<close>: truncation towards zero, undefined outside the range of a C int.\<close>

definition cint :: "real \<Rightarrow> int res" where
  "cint x = (let k = (if x < 0 then \<lceil>x\<rceil> else \<lfloor>x\<rfloor>) in
     if - (2 ^ 31) \<le> k \<and> k < 2 ^ 31 then Inr k else Inl UndefinedBehaviour)"

lemma cdiv_ok: "b \<noteq> 0 \<Longrightarrow> cdiv a b = Inr (a / b)"
  by (simp add: cdiv_def)

lemma cget_nat: "k < length xs \<Longrightarrow> cget xs (int k) = Inr (xs ! k)"
  by (simp add: cget_def)

section \<open>Agreement with Python\<close>

definition compiles :: "'a res \<Rightarrow> 'a res \<Rightarrow> bool" where
  "compiles c p \<longleftrightarrow> (\<forall>v. p = Inr v \<longrightarrow> c = Inr v)"

named_theorems compile \<open>agreement of a compiled construct with the Python one\<close>

lemma compilesD: "compiles c p \<Longrightarrow> p = Inr v \<Longrightarrow> c = Inr v"
  by (simp add: compiles_def)

lemma compiles_refl [compile]: "compiles p p"
  by (simp add: compiles_def)

lemma compiles_error [compile]: "compiles c (Inl e)"
  by (simp add: compiles_def)

lemma compiles_bind [compile]:
  "compiles c p \<Longrightarrow> (\<And>v. p = Inr v \<Longrightarrow> compiles (f v) (g v)) \<Longrightarrow> compiles (res_bind c f) (res_bind p g)"
  by (auto simp: compiles_def)

lemma compiles_if [compile]:
  "b = b' \<Longrightarrow> (b' \<Longrightarrow> compiles c p) \<Longrightarrow> (\<not> b' \<Longrightarrow> compiles c' p') \<Longrightarrow> compiles (if b then c else c') (if b' then p else p')"
  by simp

lemma compiles_prod [compile]:
  "(\<And>a b. x = (a, b) \<Longrightarrow> compiles (f a b) (g a b)) \<Longrightarrow> compiles (case x of (a, b) \<Rightarrow> f a b) (case x of (a, b) \<Rightarrow> g a b)"
  by (cases x) simp

lemma compiles_option [compile]:
  "(x = None \<Longrightarrow> compiles c p) \<Longrightarrow> (\<And>a. x = Some a \<Longrightarrow> compiles (f a) (g a))
    \<Longrightarrow> compiles (case x of None \<Rightarrow> c | Some a \<Rightarrow> f a) (case x of None \<Rightarrow> p | Some a \<Rightarrow> g a)"
  by (cases x) simp_all

lemma compiles_ctl [compile]:
  "(\<And>s. x = Next s \<Longrightarrow> compiles (f s) (f' s)) \<Longrightarrow> (\<And>s. x = Break s \<Longrightarrow> compiles (g s) (g' s))
    \<Longrightarrow> (\<And>r. x = Return r \<Longrightarrow> compiles (h r) (h' r))
    \<Longrightarrow> compiles (case x of Next s \<Rightarrow> f s | Break s \<Rightarrow> g s | Return r \<Rightarrow> h r)
          (case x of Next s \<Rightarrow> f' s | Break s \<Rightarrow> g' s | Return r \<Rightarrow> h' r)"
  by (cases x) simp_all

lemma compiles_cdiv [compile]: "compiles (cdiv a b) (fdiv a b)"
  by (simp add: compiles_def cdiv_def)

lemma compiles_cget [compile]: "0 \<le> i \<Longrightarrow> compiles (cget xs i) (aget xs i)"
  by (auto simp: compiles_def cget_def aget_def py_index_def Let_def split: if_splits)

lemma compiles_cget_last [compile]: "compiles (cget xs (int (length xs) - 1)) (aget xs (- 1))"
  by (auto simp: compiles_def cget_def aget_def py_index_def Let_def nat_diff_distrib split: if_splits)

lemma compiles_cset [compile]: "0 \<le> i \<Longrightarrow> compiles (cset xs i v) (aset xs i v)"
  by (auto simp: compiles_def cset_def aset_def py_index_def Let_def split: if_splits)

lemma compiles_cget2 [compile]: "0 \<le> i \<Longrightarrow> 0 \<le> j \<Longrightarrow> compiles (cget2 d i j) (aget2 d i j)"
  unfolding cget2_def aget2_def by (intro compile)

lemma compiles_ccell [compile]: "0 \<le> i \<Longrightarrow> 0 \<le> j \<Longrightarrow> compiles (ccell d i j) (cell_at d i j)"
  unfolding ccell_def cell_at_def by (intro compile)

lemma compiles_for [compile]:
  assumes "\<And>i s. compiles (body i s) (body' i s)"
  shows "compiles (for_from i n body s) (for_from i n body' s)"
proof (induction n arbitrary: i s)
  case (Suc n)
  show ?case unfolding for_from.simps by (intro compile assms Suc.IH)
qed (simp add: compile)

lemma compiles_for_inv:
  assumes "\<And>i s. I s \<Longrightarrow> compiles (body i s) (body' i s)" and "\<And>i s s'. I s \<Longrightarrow> body' i s = Inr (Next s') \<Longrightarrow> I s'"
    and "I s"
  shows "compiles (for_from i n body s) (for_from i n body' s)"
  using assms(3)
proof (induction n arbitrary: i s)
  case (Suc n)
  show ?case unfolding for_from.simps
    by (intro compile assms(1) Suc.prems Suc.IH assms(2) [OF Suc.prems]) auto
qed (simp add: compile)

lemma compiles_fold [compile]:
  assumes "\<And>i s. compiles (body i s) (body' i s)"
  shows "compiles (fold_from i n body s) (fold_from i n body' s)"
proof (induction n arbitrary: i s)
  case (Suc n)
  show ?case unfolding fold_from.simps by (intro compile assms Suc.IH)
qed (simp add: compile)

lemma compiles_map [compile]:
  assumes "\<And>x. compiles (f x) (g x)"
  shows "compiles (map_res f xs) (map_res g xs)"
proof (induction xs)
  case (Cons x xs)
  show ?case unfolding map_res.simps by (intro compile assms Cons.IH)
qed (simp add: compile)

section \<open>Binary search\<close>

function bisect_from :: "real list \<Rightarrow> real \<Rightarrow> int \<Rightarrow> int \<Rightarrow> int res" where
  "bisect_from arr val lo hi =
     (if lo < hi then
        let mid = (lo + hi) div 2 in
        res_bind (cget arr mid) (\<lambda>x. if x < val then bisect_from arr val (mid + 1) hi else bisect_from arr val lo mid)
      else Inr lo)"
  by pat_completeness auto
termination by (relation "measure (\<lambda>(arr, val, lo, hi). nat (hi - lo))") auto

declare bisect_from.simps [simp del]

definition bisect_left :: "real list \<Rightarrow> real \<Rightarrow> int \<Rightarrow> int res" where
  "bisect_left arr val n = bisect_from arr val 0 n"

lemma bisect_from_correct:
  assumes "0 \<le> lo" "lo \<le> hi" "hi \<le> int (length arr)" and "sorted_wrt (\<le>) arr"
    and "\<forall>i. i < nat lo \<longrightarrow> arr ! i < val" and "\<forall>i. nat hi \<le> i \<and> i < length arr \<longrightarrow> val \<le> arr ! i"
  shows "\<exists>k. bisect_from arr val lo hi = Inr (int k) \<and> k \<le> length arr
    \<and> (\<forall>i < k. arr ! i < val) \<and> (\<forall>i. k \<le> i \<and> i < length arr \<longrightarrow> val \<le> arr ! i)"
  using assms
proof (induction arr val lo hi rule: bisect_from.induct)
  case (1 arr val lo hi)
  show ?case
  proof (cases "lo < hi")
    case True
    define mid where "mid = (lo + hi) div 2"
    have m: "lo \<le> mid" "mid < hi" "0 \<le> mid" using True 1(3) by (auto simp: mid_def)
    have len: "nat mid < length arr" using m 1(5) by linarith
    then have g: "cget arr mid = Inr (arr ! nat mid)" using m(3) by (simp add: cget_def)
    have mono: "i \<le> j \<Longrightarrow> j < length arr \<Longrightarrow> arr ! i \<le> arr ! j" for i j
      using 1(6) sorted_wrt_nth_less [of "(\<le>)" arr i j] by (cases "i = j") auto
    show ?thesis
    proof (cases "arr ! nat mid < val")
      case below: True
      have "arr ! i < val" if i: "i < nat (mid + 1)" for i
      proof -
        have "i \<le> nat mid" using i m(3) by linarith
        then show ?thesis using mono [of i "nat mid"] len below by linarith
      qed
      then have "\<exists>k. bisect_from arr val (mid + 1) hi = Inr (int k) \<and> k \<le> length arr
          \<and> (\<forall>i < k. arr ! i < val) \<and> (\<forall>i. k \<le> i \<and> i < length arr \<longrightarrow> val \<le> arr ! i)"
        using "1.IH"(1) [OF True mid_def g below] m 1(5,6,8) by auto
      then show ?thesis using True g below by (simp add: bisect_from.simps [of arr val lo hi] mid_def [symmetric] Let_def)
    next
      case above: False
      have "\<forall>i. nat mid \<le> i \<and> i < length arr \<longrightarrow> val \<le> arr ! i" using mono [of "nat mid"] above by fastforce
      then have "\<exists>k. bisect_from arr val lo mid = Inr (int k) \<and> k \<le> length arr
          \<and> (\<forall>i < k. arr ! i < val) \<and> (\<forall>i. k \<le> i \<and> i < length arr \<longrightarrow> val \<le> arr ! i)"
        using "1.IH"(2) [OF True mid_def g above] m len 1(3,6,7) by auto
      then show ?thesis using True g above by (simp add: bisect_from.simps [of arr val lo hi] mid_def [symmetric] Let_def)
    qed
  next
    case False
    then have "lo = hi" using 1(4) by simp
    have "bisect_from arr val lo hi = Inr lo" using False by (subst bisect_from.simps) simp
    then show ?thesis using \<open>lo = hi\<close> 1(3,5,7,8) by (intro exI [of _ "nat lo"]) auto
  qed
qed

lemma bisect_left_sorted:
  assumes "sorted_wrt (\<le>) arr"
  shows "bisect_left arr val (int (length arr)) = Inr (searchsorted arr val)"
proof -
  obtain k where k: "bisect_left arr val (int (length arr)) = Inr (int k)" "k \<le> length arr" "\<forall>i < k. arr ! i < val"
      "\<forall>i. k \<le> i \<and> i < length arr \<longrightarrow> val \<le> arr ! i"
    using bisect_from_correct [of 0 "int (length arr)" arr val] assms by (auto simp: bisect_left_def)
  have "takeWhile (\<lambda>v. v < val) arr = take k arr"
    by (rule takeWhile_eq_take_P_nth) (use k in auto)
  then show ?thesis using k(1,2) by (simp add: searchsorted_def)
qed




context sorted_grid
begin

lemma bisect_grid [simp]: "bisect_left g x (int (length g)) = Inr (searchsorted g x)"
  by (rule bisect_left_sorted) (rule sorted_wrt_mono_rel [OF _ strict], simp)

lemma searchsorted_pos: "g ! 0 < x \<Longrightarrow> 1 \<le> searchsorted g x"
  using nonempty by (cases g) (auto simp: searchsorted_def)

end

end
