(* ===== verification/CyLookup.thy ===== *)
theory CyLookup
  imports Cython
begin

text \<open>
  The compiled lookup kernels of \<open>_numba_ops_core.pyx\<close> (its phases A and B, the spline and the enthalpy of a
  mixture), and their agreement with the Python kernels on sorted grids.
\<close>

section \<open>Bilinear lookups\<close>

definition axis_weight_c :: "real list \<Rightarrow> real \<Rightarrow> (int \<times> real) res" where
  "axis_weight_c g x =
     (let n = int (length g) in
      res_bind (cget g 0) (\<lambda>g0.
      if x \<le> g0 then Inr (0, 0)
      else res_bind (cget g (n - 1)) (\<lambda>gl.
        if x \<ge> gl then Inr (n - 2, 1)
        else res_bind (bisect_left g x n) (\<lambda>k.
          let ix = k - 1 in
          res_bind (cget g ix) (\<lambda>x0. res_bind (cget g (ix + 1)) (\<lambda>x1.
          res_bind (cdiv (x - x0) (x1 - x0)) (\<lambda>wx. Inr (ix, wx))))))))"

definition get_interp_weights_jit_c ::
    "real list \<Rightarrow> real list \<Rightarrow> real \<Rightarrow> real \<Rightarrow> (int \<times> int \<times> real \<times> real) res" where
  "get_interp_weights_jit_c grid_x grid_y x y =
     res_bind (axis_weight_c grid_x x) (\<lambda>(ix, wx).
     res_bind (axis_weight_c grid_y y) (\<lambda>(iy, wy). Inr (ix, iy, wx, wy)))"

definition interp_from_weights_jit_c :: "ptable \<Rightarrow> int \<Rightarrow> int \<Rightarrow> real \<Rightarrow> real \<Rightarrow> real res" where
  "interp_from_weights_jit_c data ix iy wx wy =
     res_bind (ccell data ix iy) (\<lambda>f00.
     res_bind (ccell data (ix + 1) iy) (\<lambda>f10.
     res_bind (ccell data ix (iy + 1)) (\<lambda>f01.
     res_bind (ccell data (ix + 1) (iy + 1)) (\<lambda>f11.
     Inr ((1 - wx) * (1 - wy) * f00 + wx * (1 - wy) * f10 + (1 - wx) * wy * f01 + wx * wy * f11)))))"

definition bilinear_index_c :: "real list \<Rightarrow> real \<Rightarrow> int res" where
  "bilinear_index_c g x =
     (let n = int (length g) in
      res_bind (cget g 0) (\<lambda>g0.
      if x \<le> g0 then Inr 1
      else res_bind (cget g (n - 1)) (\<lambda>gl.
        if x \<ge> gl then Inr (n - 1)
        else res_bind (bisect_left g x n) (\<lambda>ix. Inr (if ix = 0 then 1 else ix)))))"

definition bilinear_weight_c :: "real list \<Rightarrow> int \<Rightarrow> real \<Rightarrow> real res" where
  "bilinear_weight_c g ix x =
     res_bind (cget g (ix - 1)) (\<lambda>x0. res_bind (cget g ix) (\<lambda>x1.
     let dx = x1 - x0 in Inr (if dx = 0 then 0 else (x - x0) / dx)))"

definition bilinear_interp_jit_c :: "real list \<Rightarrow> real list \<Rightarrow> ptable \<Rightarrow> real \<Rightarrow> real \<Rightarrow> real res" where
  "bilinear_interp_jit_c grid_x grid_y data x y =
     res_bind (bilinear_index_c grid_x x) (\<lambda>ix.
     res_bind (bilinear_index_c grid_y y) (\<lambda>iy.
     res_bind (bilinear_weight_c grid_x ix x) (\<lambda>wx.
     res_bind (bilinear_weight_c grid_y iy y) (\<lambda>wy.
     res_bind (ccell data (ix - 1) (iy - 1)) (\<lambda>q00.
     res_bind (ccell data (ix - 1) iy) (\<lambda>q01.
     res_bind (ccell data ix (iy - 1)) (\<lambda>q10.
     res_bind (ccell data ix iy) (\<lambda>q11.
     Inr (q00 * (1 - wx) * (1 - wy) + q10 * wx * (1 - wy) + q01 * (1 - wx) * wy + q11 * wx * wy)))))))))"

definition batch_bilinear_interp_jit_c ::
    "real list \<Rightarrow> real list \<Rightarrow> ptable \<Rightarrow> real list \<Rightarrow> real list \<Rightarrow> real list res" where
  "batch_bilinear_interp_jit_c grid_x grid_y data x_arr y_arr =
     fold_range (length x_arr) (\<lambda>i results.
         res_bind (cget x_arr (int i)) (\<lambda>x. res_bind (cget y_arr (int i)) (\<lambda>y.
         res_bind (bilinear_interp_jit_c grid_x grid_y data x y) (\<lambda>v.
         Inr (results[i := v]))))) (replicate (length x_arr) 0)"

definition bilinear_interp_liquid_c :: "real list \<Rightarrow> real list \<Rightarrow> ptable \<Rightarrow> real \<Rightarrow> real \<Rightarrow> real res" where
  "bilinear_interp_liquid_c grid_p grid_t data p t =
     (let p1 = (if p < 100000 then 100000 else p); p_safe = (if p1 > 2000000 then 2000000 else p1);
          t1 = (if t < 273.15 then 273.15 else t); t_safe = (if t1 > 373.15 then 373.15 else t1)
      in bilinear_interp_jit_c grid_p grid_t data p_safe t_safe)"

section \<open>Mixtures\<close>

definition weighted_sum_c :: "ptable list \<Rightarrow> real list \<Rightarrow> int \<Rightarrow> int \<Rightarrow> real \<Rightarrow> real \<Rightarrow> real res" where
  "weighted_sum_c luts weights ix iy wx wy =
     fold_range (length weights) (\<lambda>i acc.
         res_bind (cget weights (int i)) (\<lambda>w.
         if w > 1 / 10 ^ 9 then
           res_bind (cget luts (int i)) (\<lambda>tab.
           res_bind (interp_from_weights_jit_c tab ix iy wx wy) (\<lambda>v. Inr (acc + w * v)))
         else Inr acc)) 0"

definition get_mix_cp_jit_c :: "ptable list \<Rightarrow> real list \<Rightarrow> int \<Rightarrow> int \<Rightarrow> real \<Rightarrow> real \<Rightarrow> real res" where
  "get_mix_cp_jit_c C_luts weights ix iy wx wy = weighted_sum_c C_luts weights ix iy wx wy"

definition get_mix_enthalpy_fast_jit_c :: "ptable list \<Rightarrow> real list \<Rightarrow> int \<Rightarrow> int \<Rightarrow> real \<Rightarrow> real \<Rightarrow> real res" where
  "get_mix_enthalpy_fast_jit_c H_luts weights ix iy wx wy = weighted_sum_c H_luts weights ix iy wx wy"

definition get_mix_density_jit_c :: "ptable list \<Rightarrow> real list \<Rightarrow> int \<Rightarrow> int \<Rightarrow> real \<Rightarrow> real \<Rightarrow> real res" where
  "get_mix_density_jit_c D_luts weights ix iy wx wy =
     res_bind (fold_range (length weights) (\<lambda>i sum_vol_spec.
         res_bind (cget weights (int i)) (\<lambda>w.
         if w > 1 / 10 ^ 9 then
           res_bind (cget D_luts (int i)) (\<lambda>tab.
           res_bind (interp_from_weights_jit_c tab ix iy wx wy) (\<lambda>rho_i.
           if rho_i > 1 / 10 ^ 6 then res_bind (cdiv w rho_i) (\<lambda>q. Inr (sum_vol_spec + q)) else Inr sum_vol_spec))
         else Inr sum_vol_spec)) 0) (\<lambda>sum_vol_spec.
     if sum_vol_spec > 1 / 10 ^ 9 then cdiv 1 sum_vol_spec else Inr 0)"

definition calculate_mixture_density_jit_c ::
    "real \<Rightarrow> real \<Rightarrow> real list \<Rightarrow> real list \<Rightarrow> ptable list \<Rightarrow> real list \<Rightarrow> real res" where
  "calculate_mixture_density_jit_c p_pa T_k P_grid T_grid D_luts weights =
     res_bind (get_interp_weights_jit_c P_grid T_grid p_pa T_k)
       (\<lambda>(ix, iy, wx, wy). get_mix_density_jit_c D_luts weights ix iy wx wy)"

definition get_mix_entropy_fast_jit_c ::
    "ptable list \<Rightarrow> real list \<Rightarrow> real \<Rightarrow> real \<Rightarrow> int \<Rightarrow> int \<Rightarrow> real \<Rightarrow> real \<Rightarrow> real res" where
  "get_mix_entropy_fast_jit_c S_luts weights M_mix_kg_mol sum_ylny ix iy wx wy =
     res_bind (weighted_sum_c S_luts weights ix iy wx wy) (\<lambda>s_base.
     res_bind (if M_mix_kg_mol > 1 / 10 ^ 9
               then res_bind (cdiv 8.314462618 M_mix_kg_mol) (\<lambda>R_mix. Inr (- R_mix * sum_ylny)) else Inr 0) (\<lambda>s_mixing.
     Inr (s_base + s_mixing)))"

definition fast_index_c :: "real list \<Rightarrow> real \<Rightarrow> int res" where
  "fast_index_c g x =
     (let n = int (length g) in
      res_bind (bisect_left g x n) (\<lambda>ix. Inr (if ix = 0 then 1 else if ix \<ge> n then n - 1 else ix)))"

definition fast_weight_c :: "real list \<Rightarrow> int \<Rightarrow> real \<Rightarrow> real res" where
  "fast_weight_c g ix x =
     res_bind (cget g (ix - 1)) (\<lambda>x0. res_bind (cget g ix) (\<lambda>x1.
     if x1 \<noteq> x0 then cdiv (x - x0) (x1 - x0) else Inr 0))"

definition get_mixture_enthalpy_fast_c ::
    "ptable list \<Rightarrow> real list \<Rightarrow> real list \<Rightarrow> real list \<Rightarrow> real \<Rightarrow> real \<Rightarrow> real res" where
  "get_mixture_enthalpy_fast_c stacked_H P_grid T_grid mass_fracs P_sys T_k =
     res_bind (cget P_grid 0) (\<lambda>p_min. res_bind (cget P_grid (int (length P_grid) - 1)) (\<lambda>p_max.
     res_bind (cget T_grid 0) (\<lambda>t_min. res_bind (cget T_grid (int (length T_grid) - 1)) (\<lambda>t_max.
     let P_lookup = (if P_sys < p_min then p_min else if P_sys > p_max then p_max else P_sys);
         T_lookup = (if T_k < t_min then t_min else if T_k > t_max then t_max else T_k)
     in res_bind (fast_index_c P_grid P_lookup) (\<lambda>ix. res_bind (fast_index_c T_grid T_lookup) (\<lambda>iy.
        res_bind (fast_weight_c P_grid ix P_lookup) (\<lambda>wp. res_bind (fast_weight_c T_grid iy T_lookup) (\<lambda>wt.
        fold_range (length mass_fracs) (\<lambda>i h_mix.
            res_bind (cget mass_fracs (int i)) (\<lambda>w_i.
            if w_i < 1 / 10 ^ 12 then Inr h_mix
            else res_bind (cget stacked_H (int i)) (\<lambda>tab.
              res_bind (ccell tab (ix - 1) (iy - 1)) (\<lambda>q00. res_bind (ccell tab (ix - 1) iy) (\<lambda>q01.
              res_bind (ccell tab ix (iy - 1)) (\<lambda>q10. res_bind (ccell tab ix iy) (\<lambda>q11.
              Inr (h_mix + w_i * (q00 * (1 - wp) * (1 - wt) + q10 * wp * (1 - wt)
                                  + q01 * (1 - wp) * wt + q11 * wp * wt))))))))) 0))))))))"

section \<open>The cubic spline\<close>

definition spline_poly_c :: "real list list \<Rightarrow> int \<Rightarrow> real \<Rightarrow> real res" where
  "spline_poly_c coeffs idx dx =
     res_bind (cget2 coeffs idx 0) (\<lambda>a. res_bind (cget2 coeffs idx 1) (\<lambda>b.
     res_bind (cget2 coeffs idx 2) (\<lambda>c. res_bind (cget2 coeffs idx 3) (\<lambda>d.
     Inr (a + dx * (b + dx * (c + dx * d)))))))"

definition eval_cubic_spline_c :: "real \<Rightarrow> real list \<Rightarrow> real list list \<Rightarrow> real res" where
  "eval_cubic_spline_c x_val breaks coeffs =
     (let n_breaks = int (length breaks) in
      res_bind (cget breaks 0) (\<lambda>b0.
      if x_val \<le> b0 then cget2 coeffs 0 0
      else res_bind (cget breaks (n_breaks - 1)) (\<lambda>bl.
        if x_val \<ge> bl then
          let idx = n_breaks - 2 in res_bind (cget breaks idx) (\<lambda>bi. spline_poly_c coeffs idx (bl - bi))
        else res_bind (bisect_left breaks x_val n_breaks) (\<lambda>k.
          let i1 = (if k - 1 < 0 then 0 else k - 1); idx = (if i1 \<ge> n_breaks - 1 then n_breaks - 2 else i1)
          in res_bind (cget breaks idx) (\<lambda>x_i. spline_poly_c coeffs idx (x_val - x_i))))))"

definition calculate_h2_production_dynamic_c ::
    "real list \<Rightarrow> real \<Rightarrow> real list \<Rightarrow> real list list \<Rightarrow> real list \<Rightarrow> real \<Rightarrow> real res" where
  "calculate_h2_production_dynamic_c powers_mw nominal_mw breaks coeffs deg_factors dt =
     (let energy_factor = dt * 1000 in
      fold_range (length powers_mw) (\<lambda>i total_h2.
          res_bind (cget powers_mw (int i)) (\<lambda>p_mw.
          if p_mw < 0.01 then Inr total_h2
          else res_bind (cdiv p_mw nominal_mw) (\<lambda>q.
            res_bind (eval_cubic_spline_c (q * 100) breaks coeffs) (\<lambda>base_sec.
            res_bind (cget deg_factors (int i)) (\<lambda>deg.
            let sec = base_sec * deg; actual_sec = (if sec < 1 then 1 else sec)
            in res_bind (cdiv (p_mw * energy_factor) actual_sec) (\<lambda>h2_kg. Inr (total_h2 + h2_kg))))))) 0)"

section \<open>Agreement of the lookups\<close>

context sorted_grid
begin

lemma axis_weight_compiles: "compiles (axis_weight_c g x) (axis_weight g x)"
  unfolding axis_weight_c_def axis_weight_def Let_def bisect_grid res_bind.simps
  by (intro compile) (use searchsorted_pos [of x] in auto)

lemma axis_weight_index: "axis_weight g x = Inr (ix, w) \<Longrightarrow> 0 \<le> ix \<and> ix + 1 < int (length g)"
  by (rule axis_weight_law [of x]) auto

lemma bilinear_index_compiles: "compiles (bilinear_index_c g x) (bilinear_index g x)"
  unfolding bilinear_index_c_def bilinear_index_def Let_def bisect_grid res_bind.simps by (intro compile) auto

lemma bilinear_index_pos: "bilinear_index g x = Inr ix \<Longrightarrow> 1 \<le> ix"
  using two by (auto simp: bilinear_index_def Let_def searchsorted_def Suc_le_eq split: if_splits)

lemma fast_index_value: "fast_index_c g x = Inr (fast_index g x)"
  by (auto simp: fast_index_c_def fast_index_def Let_def)

lemma fast_index_pos: "1 \<le> fast_index g x"
  using two by (auto simp: fast_index_def Let_def searchsorted_def Suc_le_eq)

end

lemma bilinear_weight_compiles: "1 \<le> ix \<Longrightarrow> compiles (bilinear_weight_c g ix x) (bilinear_weight g ix x)"
  unfolding bilinear_weight_c_def bilinear_weight_def Let_def by (intro compile) auto

lemma fast_weight_compiles: "1 \<le> ix \<Longrightarrow> compiles (fast_weight_c g ix x) (bilinear_weight g ix x)"
  unfolding fast_weight_c_def bilinear_weight_def Let_def by (intro compile) (auto simp: cdiv_def compiles_def)

lemma interp_from_weights_compiles [compile]:
  "0 \<le> ix \<Longrightarrow> 0 \<le> iy \<Longrightarrow> compiles (interp_from_weights_jit_c data ix iy wx wy) (interp_from_weights_jit data ix iy wx wy)"
  unfolding interp_from_weights_jit_c_def interp_from_weights_jit_def by (intro compile) auto


lemma get_interp_weights_compiles:
  assumes "sorted_grid gx" "sorted_grid gy"
  shows "compiles (get_interp_weights_jit_c gx gy x y) (get_interp_weights_jit gx gy x y)"
  unfolding get_interp_weights_jit_c_def get_interp_weights_jit_def
  by (intro compile sorted_grid.axis_weight_compiles assms)

lemma get_interp_weights_range:
  assumes "sorted_grid gx" "sorted_grid gy" and "get_interp_weights_jit gx gy x y = Inr (ix, iy, wx, wy)"
  shows "0 \<le> ix" "0 \<le> iy"
  using assms sorted_grid.axis_weight_index by (fastforce simp: get_interp_weights_jit_def)+

lemma bilinear_interp_compiles:
  assumes "sorted_grid gx" "sorted_grid gy"
  shows "compiles (bilinear_interp_jit_c gx gy data x y) (bilinear_interp_jit gx gy data x y)"
  unfolding bilinear_interp_jit_c_def bilinear_interp_jit_def
  by (intro compile sorted_grid.bilinear_index_compiles assms bilinear_weight_compiles)
    (use sorted_grid.bilinear_index_pos [OF assms(1)] sorted_grid.bilinear_index_pos [OF assms(2)] in fastforce)+

lemma batch_bilinear_compiles:
  assumes "sorted_grid gx" "sorted_grid gy"
  shows "compiles (batch_bilinear_interp_jit_c gx gy data xs ys) (batch_bilinear_interp_jit gx gy data xs ys)"
  unfolding batch_bilinear_interp_jit_c_def batch_bilinear_interp_jit_def
  by (intro compile bilinear_interp_compiles assms) auto

lemma bilinear_liquid_compiles:
  assumes "sorted_grid gp" "sorted_grid gt"
  shows "compiles (bilinear_interp_liquid_c gp gt data p t) (bilinear_interp_liquid gp gt data p t)"
  unfolding bilinear_interp_liquid_c_def bilinear_interp_liquid_def Let_def by (rule bilinear_interp_compiles [OF assms])

lemma weighted_sum_compiles [compile]:
  "0 \<le> ix \<Longrightarrow> 0 \<le> iy \<Longrightarrow> compiles (weighted_sum_c luts ws ix iy wx wy) (weighted_sum luts ws ix iy wx wy)"
  unfolding weighted_sum_c_def weighted_sum_def by (intro compile) auto

lemma mix_compiles [compile]:
  assumes "0 \<le> ix" "0 \<le> iy"
  shows "compiles (get_mix_cp_jit_c luts ws ix iy wx wy) (get_mix_cp_jit luts ws ix iy wx wy)"
    and "compiles (get_mix_enthalpy_fast_jit_c luts ws ix iy wx wy) (get_mix_enthalpy_fast_jit luts ws ix iy wx wy)"
    and "compiles (get_mix_entropy_fast_jit_c luts ws M s ix iy wx wy) (get_mix_entropy_fast_jit luts ws M s ix iy wx wy)"
    and "compiles (get_mix_density_jit_c luts ws ix iy wx wy) (get_mix_density_jit luts ws ix iy wx wy)"
proof -
  show "compiles (get_mix_cp_jit_c luts ws ix iy wx wy) (get_mix_cp_jit luts ws ix iy wx wy)"
    "compiles (get_mix_enthalpy_fast_jit_c luts ws ix iy wx wy) (get_mix_enthalpy_fast_jit luts ws ix iy wx wy)"
    unfolding get_mix_cp_jit_c_def get_mix_cp_jit_def get_mix_enthalpy_fast_jit_c_def get_mix_enthalpy_fast_jit_def
    by (intro compile assms)+
  show "compiles (get_mix_entropy_fast_jit_c luts ws M s ix iy wx wy) (get_mix_entropy_fast_jit luts ws M s ix iy wx wy)"
    unfolding get_mix_entropy_fast_jit_c_def get_mix_entropy_fast_jit_def Let_def
    by (intro compile assms) (auto simp: compiles_def cdiv_def)
  show "compiles (get_mix_density_jit_c luts ws ix iy wx wy) (get_mix_density_jit luts ws ix iy wx wy)"
    unfolding get_mix_density_jit_c_def get_mix_density_jit_def
    by (intro compile assms) (auto simp: compiles_def cdiv_def)
qed

lemma mixture_density_compiles:
  assumes "sorted_grid P" "sorted_grid T"
  shows "compiles (calculate_mixture_density_jit_c p t P T luts ws) (calculate_mixture_density_jit p t P T luts ws)"
  unfolding calculate_mixture_density_jit_c_def calculate_mixture_density_jit_def
  by (intro compile get_interp_weights_compiles assms) (use get_interp_weights_range [OF assms] in auto)

lemma mixture_enthalpy_fast_compiles:
  assumes "sorted_grid P" "sorted_grid T"
  shows "compiles (get_mixture_enthalpy_fast_c H P T ws p t) (get_mixture_enthalpy_fast H P T ws p t)"
proof -
  have i: "1 \<le> fast_index P x" "0 \<le> fast_index P x - 1" "0 \<le> fast_index P x" for x
    using sorted_grid.fast_index_pos [OF assms(1), of x] by simp_all
  have j: "1 \<le> fast_index T x" "0 \<le> fast_index T x - 1" "0 \<le> fast_index T x" for x
    using sorted_grid.fast_index_pos [OF assms(2), of x] by simp_all
  show ?thesis
    unfolding get_mixture_enthalpy_fast_c_def get_mixture_enthalpy_fast_def Let_def
      sorted_grid.fast_index_value [OF assms(1)] sorted_grid.fast_index_value [OF assms(2)] res_bind.simps
    by (intro compile fast_weight_compiles i j) auto
qed

lemma spline_poly_compiles [compile]: "0 \<le> idx \<Longrightarrow> compiles (spline_poly_c cs idx dx) (spline_poly cs idx dx)"
  unfolding spline_poly_c_def spline_poly_def by (intro compile) auto

lemma eval_cubic_spline_compiles:
  assumes "sorted_grid breaks"
  shows "compiles (eval_cubic_spline_c x breaks coeffs) (eval_cubic_spline x breaks coeffs)"
  unfolding eval_cubic_spline_c_def eval_cubic_spline_def Let_def sorted_grid.bisect_grid [OF assms] res_bind.simps
  by (intro compile) (use sorted_grid.two [OF assms] in auto)

lemma h2_production_compiles:
  assumes "sorted_grid breaks"
  shows "compiles (calculate_h2_production_dynamic_c ps nom breaks coeffs deg dt)
    (calculate_h2_production_dynamic ps nom breaks coeffs deg dt)"
  unfolding calculate_h2_production_dynamic_c_def calculate_h2_production_dynamic_def Let_def
  by (intro compile eval_cubic_spline_compiles assms) (auto simp: compiles_def cdiv_def)



end
