(* ===== verification/CyTanks.thy ===== *)
theory CyTanks
  imports Cython Tanks StorageMPC
begin

text \<open>
  The compiled tank bank and storage controller of \<open>_numba_ops_core.pyx\<close>. The loops go over array indices and
  write the memory views in place. The port numbers the tank states its own way: full is 3 and empty is 4,
  while the Python module has them the other way round. Up to that renumbering the kernels agree; on the
  codes the rest of the engine uses they do not.
\<close>

section \<open>States\<close>

definition TANK_STATE_IDLE_C :: int where "TANK_STATE_IDLE_C = 0"
definition TANK_STATE_FULL_C :: int where "TANK_STATE_FULL_C = 3"
definition TANK_STATE_EMPTY_C :: int where "TANK_STATE_EMPTY_C = 4"

lemmas tank_state_c_defs = TANK_STATE_IDLE_C_def TANK_STATE_FULL_C_def TANK_STATE_EMPTY_C_def

abbreviation accepts_c :: "int \<Rightarrow> bool" where
  "accepts_c s \<equiv> s = TANK_STATE_IDLE_C \<or> s = TANK_STATE_EMPTY_C"

abbreviation dischargeable_c :: "int \<Rightarrow> bool" where
  "dischargeable_c s \<equiv> s = TANK_STATE_IDLE_C \<or> s = TANK_STATE_FULL_C"

text \<open>From one numbering to the other, and back.\<close>

definition renumber :: "int \<Rightarrow> int" where
  "renumber s = (if s = 3 then 4 else if s = 4 then 3 else s)"

lemma renumber_renumber [simp]: "renumber (renumber s) = s"
  by (simp add: renumber_def)

lemma renumber_states [simp]:
  "accepts (renumber s) \<longleftrightarrow> accepts_c s" "dischargeable (renumber s) \<longleftrightarrow> dischargeable_c s"
  "renumber TANK_STATE_FULL = TANK_STATE_FULL_C" "renumber TANK_STATE_FULL_C = TANK_STATE_FULL"
  "renumber TANK_STATE_EMPTY = TANK_STATE_EMPTY_C" "renumber TANK_STATE_EMPTY_C = TANK_STATE_EMPTY"
  by (auto simp: renumber_def tank_state_defs tank_state_c_defs)

lemma renumber_comp [simp]: "renumber \<circ> renumber = id"
  by (simp add: fun_eq_iff)

section \<open>Selection\<close>

definition find_available_tank_c :: "int list \<Rightarrow> real list \<Rightarrow> real list \<Rightarrow> real \<Rightarrow> int res" where
  "find_available_tank_c states masses capacities min_capacity =
     res_bind (for_range (length states) (\<lambda>i _.
         res_bind (cget capacities (int i)) (\<lambda>c. res_bind (cget masses (int i)) (\<lambda>m. res_bind (cget states (int i)) (\<lambda>s.
         let available_capacity = c - m in
         Inr (if accepts_c s \<and> available_capacity \<ge> min_capacity then Return (int i) else Next ()))))) ()) (\<lambda>c.
     Inr (case c of Return i \<Rightarrow> i | _ \<Rightarrow> - 1))"

definition find_fullest_tank_c :: "int list \<Rightarrow> real list \<Rightarrow> real \<Rightarrow> int res" where
  "find_fullest_tank_c states masses min_mass =
     res_bind (fold_range (length states) (\<lambda>i (max_mass, best_idx).
         res_bind (cget states (int i)) (\<lambda>s.
         if dischargeable_c s then
           res_bind (cget masses (int i)) (\<lambda>m.
           Inr (if m \<ge> min_mass \<and> m > max_mass then (m, int i) else (max_mass, best_idx)))
         else Inr (max_mass, best_idx))) (- 1, - 1))
       (\<lambda>(_, best_idx). Inr best_idx)"

definition calculate_total_mass_by_state_c :: "int list \<Rightarrow> real list \<Rightarrow> int \<Rightarrow> real res" where
  "calculate_total_mass_by_state_c states masses target_state =
     fold_range (length states) (\<lambda>i acc.
         res_bind (cget states (int i)) (\<lambda>s.
         if s = target_state then res_bind (cget masses (int i)) (\<lambda>m. Inr (acc + m)) else Inr acc)) 0"

section \<open>Distribution\<close>

definition distribute_mass_step ::
    "real list \<Rightarrow> nat \<Rightarrow> int list \<times> real list \<times> real \<Rightarrow> (int list \<times> real list \<times> real, unit) ctl res" where
  "distribute_mass_step capacities i st = (case st of (states, masses, remaining) \<Rightarrow>
     if remaining \<le> 0 then Inr (Break st)
     else res_bind (cget states (int i)) (\<lambda>s.
       if \<not> accepts_c s then Inr (Next st)
       else res_bind (cget capacities (int i)) (\<lambda>c. res_bind (cget masses (int i)) (\<lambda>m.
         let available_capacity = c - m;
             mass_to_add = (if remaining < available_capacity then remaining else available_capacity);
             m' = m + mass_to_add
         in res_bind (cset masses (int i) m') (\<lambda>masses'.
            res_bind (if m' \<ge> c * 0.99 then cset states (int i) TANK_STATE_FULL_C else Inr states) (\<lambda>states'.
            Inr (Next (states', masses', remaining - mass_to_add))))))))"

definition distribute_mass_to_tanks_c ::
    "real \<Rightarrow> int list \<Rightarrow> real list \<Rightarrow> real list \<Rightarrow> (int list \<times> real list \<times> real) res" where
  "distribute_mass_to_tanks_c total_mass states masses capacities =
     res_bind (for_range (length masses) (distribute_mass_step capacities) (states, masses, total_mass)) loop_state"

definition simulate_filling_timestep_c ::
    "real \<Rightarrow> real \<Rightarrow> int list \<Rightarrow> real list \<Rightarrow> real list \<Rightarrow> (int list \<times> real list \<times> real \<times> real) res" where
  "simulate_filling_timestep_c production_rate dt tank_states tank_masses tank_capacities =
     (let production = production_rate * dt in
      res_bind (distribute_mass_to_tanks_c production tank_states tank_masses tank_capacities)
        (\<lambda>(ss, ms, overflow). let stored = production - overflow in Inr (ss, ms, stored, overflow)))"

definition mixed_temperature_c :: "real \<Rightarrow> real \<Rightarrow> real \<Rightarrow> real \<Rightarrow> real \<Rightarrow> real res" where
  "mixed_temperature_c m_old T_old mass_to_add gamma T_in =
     (if m_old > 0 then
        let numerator = (m_old * T_old) + (mass_to_add * gamma * T_in); denom = m_old + mass_to_add in cdiv numerator denom
      else let T_new = gamma * T_in in Inr (if T_new > 500 then 500 else T_new))"

definition distribute_energy_step ::
    "real \<Rightarrow> real list \<Rightarrow> real \<Rightarrow> nat \<Rightarrow> int list \<times> real list \<times> real list \<times> real
      \<Rightarrow> (int list \<times> real list \<times> real list \<times> real, unit) ctl res" where
  "distribute_energy_step T_in capacities gamma i st = (case st of (states, masses, temperatures, remaining) \<Rightarrow>
     if remaining \<le> 0 then Inr (Break st)
     else res_bind (cget states (int i)) (\<lambda>s.
       if \<not> accepts_c s then Inr (Next st)
       else res_bind (cget capacities (int i)) (\<lambda>c. res_bind (cget masses (int i)) (\<lambda>m_old.
         let available_capacity = c - m_old;
             mass_to_add = (if remaining < available_capacity then remaining else available_capacity)
         in if mass_to_add > 0 then
              res_bind (cget temperatures (int i)) (\<lambda>T_old.
              res_bind (mixed_temperature_c m_old T_old mass_to_add gamma T_in) (\<lambda>T_new.
              let m' = m_old + mass_to_add in
              res_bind (cset masses (int i) m') (\<lambda>masses'.
              res_bind (cset temperatures (int i) T_new) (\<lambda>temperatures'.
              res_bind (if m' \<ge> c * 0.99 then cset states (int i) TANK_STATE_FULL_C else Inr states) (\<lambda>states'.
              Inr (Next (states', masses', temperatures', remaining - mass_to_add)))))))
            else Inr (Next st)))))"

definition distribute_mass_and_energy_c ::
    "real \<Rightarrow> real \<Rightarrow> int list \<Rightarrow> real list \<Rightarrow> real list \<Rightarrow> real list \<Rightarrow> real
      \<Rightarrow> (int list \<times> real list \<times> real list \<times> real) res" where
  "distribute_mass_and_energy_c total_mass T_in states masses temperatures capacities gamma =
     res_bind (for_range (length masses) (distribute_energy_step T_in capacities gamma)
       (states, masses, temperatures, total_mass)) loop_state"

section \<open>Pressure and temperature updates\<close>

definition batch_pressure_update_c :: "real list \<Rightarrow> real list \<Rightarrow> real list \<Rightarrow> real \<Rightarrow> real \<Rightarrow> real list res" where
  "batch_pressure_update_c masses volumes pressures temperature gas_constant =
     fold_range (length masses) (\<lambda>i pressures.
         res_bind (cget volumes (int i)) (\<lambda>v.
         if v > 0 then res_bind (cget masses (int i)) (\<lambda>m. res_bind (cdiv m v) (\<lambda>density.
           cset pressures (int i) (density * gas_constant * temperature)))
         else cset pressures (int i) 0)) pressures"

definition batch_pressure_update_vector_T_c ::
    "real list \<Rightarrow> real list \<Rightarrow> real list \<Rightarrow> real list \<Rightarrow> real \<Rightarrow> real list res" where
  "batch_pressure_update_vector_T_c masses volumes pressures temperatures gas_constant =
     fold_range (length masses) (\<lambda>i pressures.
         res_bind (cget volumes (int i)) (\<lambda>v.
         if v > 0 then res_bind (cget masses (int i)) (\<lambda>m. res_bind (cdiv m v) (\<lambda>density.
           res_bind (cget temperatures (int i)) (\<lambda>t. cset pressures (int i) (density * gas_constant * t))))
         else cset pressures (int i) 0)) pressures"

definition apply_heat_loss_batch_c :: "real list \<Rightarrow> real list \<Rightarrow> real \<Rightarrow> real \<Rightarrow> real \<Rightarrow> real \<Rightarrow> real list res" where
  "apply_heat_loss_batch_c temperatures masses T_amb dt_seconds UA Cv =
     fold_range (length temperatures) (\<lambda>i temperatures.
         res_bind (cget masses (int i)) (\<lambda>m.
         if m > 1 / 10 ^ 6 then
           res_bind (cdiv (m * Cv) UA) (\<lambda>tau.
           if tau < 1 / 10 ^ 9 then cset temperatures (int i) T_amb
           else res_bind (cdiv (- dt_seconds) tau) (\<lambda>x. res_bind (cget temperatures (int i)) (\<lambda>t.
             let decay = exp x in cset temperatures (int i) (T_amb + (t - T_amb) * decay))))
         else cset temperatures (int i) T_amb)) temperatures"

section \<open>Storage controller\<close>

definition mpc_step_c :: "real \<Rightarrow> real \<Rightarrow> real \<Rightarrow> real \<Rightarrow> real \<Rightarrow> mpc_state \<Rightarrow> mpc_state res" where
  "mpc_step_c total_capacity_kg dt_hours soc_limit_high prd dem st =
     (let step_prod_kg = prd * dt_hours;
          cum = cum_potential_production_kg st + step_prod_kg;
          delta_mass = (prd - dem) * dt_hours
      in res_bind (cdiv delta_mass total_capacity_kg) (\<lambda>delta_soc.
         let soc1 = sim_soc st + delta_soc;
             current_excess_soc = (if soc1 > 1 then soc1 - 1 else 0);
             soc2 = (if soc1 > 1 then 1 else soc1);
             limit_violation_soc = (if soc2 > soc_limit_high then soc2 - soc_limit_high else 0);
             total_violation_soc = limit_violation_soc + current_excess_soc;
             total_violation_kg = total_violation_soc * total_capacity_kg
         in Inr \<lparr>sim_soc = soc2,
                 max_violation_kg = (if total_violation_kg > max_violation_kg st then total_violation_kg else max_violation_kg st),
                 cum_potential_production_kg = cum\<rparr>))"

definition calculate_storage_mpc_factor_c ::
    "real \<Rightarrow> real \<Rightarrow> real list \<Rightarrow> real list \<Rightarrow> real \<Rightarrow> real \<Rightarrow> int \<Rightarrow> real res" where
  "calculate_storage_mpc_factor_c current_soc total_capacity_kg production demand dt_hours soc_limit_high horizon_steps =
     (if total_capacity_kg \<le> 1 / 10 ^ 6 then Inr 0
      else let prod_len = int (length production); demand_len = int (length demand);
               steps = (if prod_len < horizon_steps then prod_len else horizon_steps) in
        res_bind (fold_range (nat steps) (\<lambda>i st.
            res_bind (cget production (int i)) (\<lambda>prd.
            res_bind (if int i < demand_len then cget demand (int i) else Inr 0) (\<lambda>dem.
            mpc_step_c total_capacity_kg dt_hours soc_limit_high prd dem st)))
          \<lparr>sim_soc = current_soc, max_violation_kg = 0, cum_potential_production_kg = 0\<rparr>) (\<lambda>st.
        if max_violation_kg st \<le> 1 / 10 ^ 6 then Inr 1
        else if cum_potential_production_kg st \<le> 1 / 10 ^ 6 then Inr 0
        else res_bind (cdiv (max_violation_kg st) (cum_potential_production_kg st)) (\<lambda>reduction_ratio.
          let factor = 1 - reduction_ratio in
          Inr (if factor < 0 then 0 else if factor > 1 then 1 else factor))))"

lemma mpc_step_compiles [compile]: "compiles (mpc_step_c cap dt l prd dem st) (mpc_step cap dt l prd dem st)"
  unfolding mpc_step_c_def mpc_step_def Let_def by (intro compile)

lemma storage_mpc_compiles:
  "compiles (calculate_storage_mpc_factor_c soc cap production demand dt l h) (calculate_storage_mpc_factor soc cap production demand dt l h)"
proof -
  have n: "nat (min (int (length production)) h) = nat (if int (length production) < h then int (length production) else h)"
    by simp
  show ?thesis
    unfolding calculate_storage_mpc_factor_c_def calculate_storage_mpc_factor_def mpc_rollout_def mpc_init_def mpc_factor_def Let_def n
    by (intro compile) auto
qed

section \<open>Loops over arrays\<close>

lemma cget_here [simp]: "length xs = i \<Longrightarrow> cget (xs @ y # ys) (int i) = Inr y"
  by (auto simp: cget_def nth_append)

lemma cset_here [simp]: "length xs = i \<Longrightarrow> cset (xs @ y # ys) (int i) v = Inr (xs @ v # ys)"
  by (auto simp: cset_def)

lemma distribute_loop:
  assumes "length ss = length ms" "length cs = length ms" and "length spre = i" "length mpre = i" "length cpre = i"
    and "distribute_mass_to_tanks r (map renumber ss) ms cs = Inr (ss', ms', r')"
  shows "res_bind (for_from i (length ms) (distribute_mass_step (cpre @ cs)) (spre @ ss, mpre @ ms, r)) loop_state
    = Inr (spre @ map renumber ss', mpre @ ms', r')"
  using assms
proof (induction ms arbitrary: ss cs spre mpre cpre r ss' ms' r' i)
  case (Cons m ms)
  obtain s ss1 c cs1 where l: "ss = s # ss1" "cs = c # cs1" using Cons.prems(1,2) by (cases ss; cases cs) auto
  show ?case
  proof (cases "r \<le> 0")
    case True
    then show ?thesis using Cons.prems(6) by (auto simp: distribute_mass_step_def)
  next
    case r: False
    show ?thesis
    proof (cases "accepts_c s")
      case False
      then obtain ss2 ms2 where rec: "distribute_mass_to_tanks r (map renumber ss1) ms cs1 = Inr (ss2, ms2, r')"
          "ss' = renumber s # ss2" "ms' = m # ms2"
        using Cons.prems(6) r renumber_states(1) [of s] unfolding l by auto
      show ?thesis
        using Cons.IH [of ss1 cs1 "spre @ [s]" "Suc i" "mpre @ [m]" "cpre @ [c]", OF _ _ _ _ _ rec(1)] Cons.prems(1-5) False r rec(2,3)
        unfolding l by (simp add: distribute_mass_step_def)
    next
      case True
      define a where "a = min r (c - m)"
      define s1 where "s1 = (if m + a \<ge> c * 0.99 then TANK_STATE_FULL_C else s)"
      obtain ss2 ms2 where rec: "distribute_mass_to_tanks (r - a) (map renumber ss1) ms cs1 = Inr (ss2, ms2, r')"
          "ss' = renumber s1 # ss2" "ms' = (m + a) # ms2"
        using Cons.prems(6) r renumber_states(1) [of s] True unfolding l
        by (auto simp: a_def s1_def Let_def simp del: renumber_states(1))
      have "distribute_mass_step ((cpre @ [c]) @ cs1) i (spre @ s # ss1, mpre @ m # ms, r)
          = Inr (Next ((spre @ [s1]) @ ss1, (mpre @ [m + a]) @ ms, r - a))"
        using Cons.prems(3-5) r True by (auto simp: distribute_mass_step_def Let_def a_def s1_def min_def)
      then show ?thesis
        using Cons.IH [of ss1 cs1 "spre @ [s1]" "Suc i" "mpre @ [m + a]" "cpre @ [c]", OF _ _ _ _ _ rec(1)] Cons.prems(1-5) rec(2,3)
        unfolding l by simp
    qed
  qed
qed auto


lemma energy_loop:
  assumes "length ss = length ms" "length cs = length ms" "length ts = length ms"
    and "length spre = i" "length mpre = i" "length cpre = i" "length tpre = i"
    and "distribute_mass_and_energy r T_in (map renumber ss) ms ts cs gamma = Inr (ss', ms', ts', r')"
  shows "res_bind (for_from i (length ms) (distribute_energy_step T_in (cpre @ cs) gamma) (spre @ ss, mpre @ ms, tpre @ ts, r)) loop_state
    = Inr (spre @ map renumber ss', mpre @ ms', tpre @ ts', r')"
  using assms
proof (induction ms arbitrary: ss cs ts spre mpre cpre tpre r ss' ms' ts' r' i)
  case (Cons m ms)
  obtain s ss1 c cs1 t ts1 where l: "ss = s # ss1" "cs = c # cs1" "ts = t # ts1"
    using Cons.prems(1-3) by (cases ss; cases cs; cases ts) auto
  have step: "distribute_energy_step T_in ((cpre @ [c]) @ cs1) gamma i (spre @ s # ss1, mpre @ m # ms, tpre @ t # ts1, r)
      = (if r \<le> 0 then Inr (Break (spre @ s # ss1, mpre @ m # ms, tpre @ t # ts1, r))
         else let a = min r (c - m); s1 = (if m + a \<ge> c * 0.99 then TANK_STATE_FULL_C else s) in
         if \<not> accepts_c s \<or> \<not> a > 0 then Inr (Next ((spre @ [s]) @ ss1, (mpre @ [m]) @ ms, (tpre @ [t]) @ ts1, r))
         else Inr (Next ((spre @ [s1]) @ ss1, (mpre @ [m + a]) @ ms, (tpre @ [mixed_temperature m t a gamma T_in]) @ ts1, r - a)))"
    using Cons.prems(4-7) by (auto simp: distribute_energy_step_def mixed_temperature_c_def mixed_temperature_def cdiv_def Let_def min_def)
  show ?case
  proof (cases "r \<le> 0")
    case True
    then show ?thesis using Cons.prems(8) step unfolding l by auto
  next
    case r: False
    define a where "a = min r (c - m)"
    show ?thesis
    proof (cases "accepts_c s \<and> a > 0")
      case False
      then obtain ss2 ms2 ts2 where rec: "distribute_mass_and_energy r T_in (map renumber ss1) ms ts1 cs1 gamma = Inr (ss2, ms2, ts2, r')"
          "ss' = renumber s # ss2" "ms' = m # ms2" "ts' = t # ts2"
        using Cons.prems(8) r renumber_states(1) [of s] unfolding l by (auto simp: Let_def a_def split: if_splits)
      have "distribute_energy_step T_in ((cpre @ [c]) @ cs1) gamma i (spre @ s # ss1, mpre @ m # ms, tpre @ t # ts1, r)
          = Inr (Next ((spre @ [s]) @ ss1, (mpre @ [m]) @ ms, (tpre @ [t]) @ ts1, r))"
        using step r False by (auto simp: a_def Let_def)
      then show ?thesis
        using Cons.IH [of ss1 cs1 ts1 "spre @ [s]" "Suc i" "mpre @ [m]" "cpre @ [c]" "tpre @ [t]", OF _ _ _ _ _ _ _ rec(1)]
          Cons.prems(1-7) rec(2-4) unfolding l by simp
    next
      case True
      define s1 where "s1 = (if m + a \<ge> c * 0.99 then TANK_STATE_FULL_C else s)"
      obtain ss2 ms2 ts2 where rec: "distribute_mass_and_energy (r - a) T_in (map renumber ss1) ms ts1 cs1 gamma = Inr (ss2, ms2, ts2, r')"
          "ss' = renumber s1 # ss2" "ms' = (m + a) # ms2" "ts' = mixed_temperature m t a gamma T_in # ts2"
        using Cons.prems(8) r renumber_states(1) [of s] True unfolding l
        by (auto simp: a_def s1_def Let_def simp del: renumber_states(1))
      have "distribute_energy_step T_in ((cpre @ [c]) @ cs1) gamma i (spre @ s # ss1, mpre @ m # ms, tpre @ t # ts1, r)
          = Inr (Next ((spre @ [s1]) @ ss1, (mpre @ [m + a]) @ ms, (tpre @ [mixed_temperature m t a gamma T_in]) @ ts1, r - a))"
        using step r True by (simp add: a_def s1_def Let_def)
      then show ?thesis
        using Cons.IH [of ss1 cs1 ts1 "spre @ [s1]" "Suc i" "mpre @ [m + a]" "cpre @ [c]"
            "tpre @ [mixed_temperature m t a gamma T_in]", OF _ _ _ _ _ _ _ rec(1)]
          Cons.prems(1-7) rec(2-4) unfolding l by simp
    qed
  qed
qed auto

lemma find_available_loop:
  assumes "length ms = length ss" "length cs = length ss" "length spre = i" "length mpre = i" "length cpre = i"
  shows "res_bind (for_from i (length ss) (\<lambda>i _.
         res_bind (cget (cpre @ cs) (int i)) (\<lambda>c. res_bind (cget (mpre @ ms) (int i)) (\<lambda>m. res_bind (cget (spre @ ss) (int i)) (\<lambda>s.
         let available_capacity = c - m in
         Inr (if accepts_c s \<and> available_capacity \<ge> k then Return (int i) else Next ()))))) ()) (\<lambda>c.
     Inr (case c of Return i \<Rightarrow> i | _ \<Rightarrow> - 1)) = find_available_from (int i) (map renumber ss) ms cs k"
  using assms
proof (induction ss arbitrary: ms cs spre mpre cpre i)
  case (Cons s ss)
  obtain m ms1 c cs1 where l: "ms = m # ms1" "cs = c # cs1" using Cons.prems(1,2) by (cases ms; cases cs) auto
  show ?case
    using Cons.IH [of ms1 cs1 "spre @ [s]" "Suc i" "mpre @ [m]" "cpre @ [c]"] Cons.prems unfolding l
    by (simp add: Let_def add.commute)
qed simp

lemma find_fullest_loop:
  assumes "length ms = length ss" "length spre = i" "length mpre = i"
  shows "res_bind (fold_from i (length ss) (\<lambda>i (max_mass, best_idx).
         res_bind (cget (spre @ ss) (int i)) (\<lambda>s.
         if dischargeable_c s then
           res_bind (cget (mpre @ ms) (int i)) (\<lambda>m.
           Inr (if m \<ge> k \<and> m > max_mass then (m, int i) else (max_mass, best_idx)))
         else Inr (max_mass, best_idx))) (mx, b))
       (\<lambda>(_, best_idx). Inr best_idx) = find_fullest_from (int i) (map renumber ss) ms k mx b"
  using assms
proof (induction ss arbitrary: ms spre mpre i mx b)
  case (Cons s ss)
  obtain m ms1 where l: "ms = m # ms1" using Cons.prems(1) by (cases ms) auto
  show ?case
    using Cons.IH [of ms1 "spre @ [s]" "Suc i" "mpre @ [m]" m "int i", unfolded append_assoc append_Cons append_Nil] Cons.IH [of ms1 "spre @ [s]" "Suc i" "mpre @ [m]" mx b, unfolded append_assoc append_Cons append_Nil]
      Cons.prems unfolding l by (auto simp: add.commute)
qed simp

lemma total_by_state_loop:
  assumes "length ms = length ss" "length spre = i" "length mpre = i"
  shows "fold_from i (length ss) (\<lambda>i acc. res_bind (cget (spre @ ss) (int i)) (\<lambda>s.
         if s = target then res_bind (cget (mpre @ ms) (int i)) (\<lambda>m. Inr (acc + m)) else Inr acc)) acc
    = res_bind (calculate_total_mass_by_state ss ms target) (\<lambda>t. Inr (acc + t))"
  using assms
proof (induction ss arbitrary: ms spre mpre i acc)
  case (Cons s ss)
  obtain m ms1 where l: "ms = m # ms1" using Cons.prems(1) by (cases ms) auto
  show ?case
    using Cons.IH [of ms1 "spre @ [s]" "Suc i" "mpre @ [m]" "acc + m", unfolded append_assoc append_Cons append_Nil] Cons.IH [of ms1 "spre @ [s]" "Suc i" "mpre @ [m]" acc, unfolded append_assoc append_Cons append_Nil]
      Cons.prems unfolding l by (auto simp: res_bind_assoc add.assoc)
qed simp

lemma pressure_loop:
  assumes "length vs = length ms" "length ps = length ms" "length ts = length ms"
    and "length mpre = i" "length vpre = i" "length ppre = i" "length tpre = i"
  shows "fold_from i (length ms) (\<lambda>i ps. res_bind (cget (vpre @ vs) (int i)) (\<lambda>v.
         if v > 0 then res_bind (cget (mpre @ ms) (int i)) (\<lambda>m. res_bind (cdiv m v) (\<lambda>density.
           res_bind (cget (tpre @ ts) (int i)) (\<lambda>t. cset ps (int i) (density * R * t))))
         else cset ps (int i) 0)) (ppre @ ps)
    = res_bind (batch_pressure_update_vector_T ms vs ps ts R) (\<lambda>ps'. Inr (ppre @ ps'))"
  using assms
proof (induction ms arbitrary: vs ps ts mpre vpre ppre tpre i)
  case (Cons m ms)
  obtain v vs1 p ps1 t ts1 where l: "vs = v # vs1" "ps = p # ps1" "ts = t # ts1"
    using Cons.prems(1-3) by (cases vs; cases ps; cases ts) auto
  show ?case
    using Cons.IH [of vs1 ps1 ts1 "mpre @ [m]" "Suc i" "vpre @ [v]" "ppre @ [m / v * R * t]" "tpre @ [t]", unfolded append_assoc append_Cons append_Nil]
      Cons.IH [of vs1 ps1 ts1 "mpre @ [m]" "Suc i" "vpre @ [v]" "ppre @ [0]" "tpre @ [t]", unfolded append_assoc append_Cons append_Nil] Cons.prems unfolding l
    by (auto simp: cdiv_def res_bind_assoc)
qed simp

lemma heat_loss_loop:
  assumes "length ms = length ts" "length tpre = i" "length mpre = i"
  shows "compiles (fold_from i (length ts) (\<lambda>i ts. res_bind (cget (mpre @ ms) (int i)) (\<lambda>m.
         if m > 1 / 10 ^ 6 then
           res_bind (cdiv (m * Cv) UA) (\<lambda>tau.
           if tau < 1 / 10 ^ 9 then cset ts (int i) T_amb
           else res_bind (cdiv (- dt) tau) (\<lambda>x. res_bind (cget ts (int i)) (\<lambda>t.
             let decay = exp x in cset ts (int i) (T_amb + (t - T_amb) * decay))))
         else cset ts (int i) T_amb)) (tpre @ ts))
    (res_bind (apply_heat_loss_batch ts ms T_amb dt UA Cv) (\<lambda>ts'. Inr (tpre @ ts')))"
  using assms
proof (induction ts arbitrary: ms tpre mpre i)
  case (Cons t ts)
  obtain m ms1 where l: "ms = m # ms1" using Cons.prems(1) by (cases ms) auto
  have c: "compiles (res_bind (heat_loss_one t m T_amb dt UA Cv) (\<lambda>t'. Inr (tpre @ t' # ts)))
      (res_bind (heat_loss_one t m T_amb dt UA Cv) (\<lambda>t'. Inr (tpre @ t' # ts)))" by (rule compile)
  show ?case
    using Cons.IH [of ms1 "tpre @ [t']" "Suc i" "mpre @ [m]" for t', unfolded append_assoc append_Cons append_Nil] Cons.prems unfolding l
    by (auto simp: heat_loss_one_def compiles_def cdiv_def Let_def)
qed (simp add: compile)


lemma pressure_loop_scalar:
  assumes "length vs = length ms" "length ps = length ms" and "length mpre = i" "length vpre = i" "length ppre = i"
  shows "fold_from i (length ms) (\<lambda>i ps. res_bind (cget (vpre @ vs) (int i)) (\<lambda>v.
         if v > 0 then res_bind (cget (mpre @ ms) (int i)) (\<lambda>m. res_bind (cdiv m v) (\<lambda>density.
           cset ps (int i) (density * R * T)))
         else cset ps (int i) 0)) (ppre @ ps)
    = res_bind (batch_pressure_update ms vs ps T R) (\<lambda>ps'. Inr (ppre @ ps'))"
  using assms
proof (induction ms arbitrary: vs ps mpre vpre ppre i)
  case (Cons m ms)
  obtain v vs1 p ps1 where l: "vs = v # vs1" "ps = p # ps1" using Cons.prems(1,2) by (cases vs; cases ps) auto
  show ?case
    using Cons.IH [of vs1 ps1 "mpre @ [m]" "Suc i" "vpre @ [v]" "ppre @ [m / v * R * T]", unfolded append_assoc append_Cons append_Nil]
      Cons.IH [of vs1 ps1 "mpre @ [m]" "Suc i" "vpre @ [v]" "ppre @ [0]", unfolded append_assoc append_Cons append_Nil] Cons.prems
    unfolding l by (auto simp: cdiv_def res_bind_assoc)
qed simp

section \<open>Agreement up to the numbering\<close>

lemma distribute_c_value:
  assumes "length ss = length ms" "length cs = length ms"
  obtains ss' ms' r' where "distribute_mass_to_tanks r (map renumber ss) ms cs = Inr (map renumber ss', ms', r')"
    and "distribute_mass_to_tanks_c r ss ms cs = Inr (ss', ms', r')"
proof -
  obtain ss' ms' r' where d: "distribute_mass_to_tanks r (map renumber ss) ms cs = Inr (ss', ms', r')"
    using distribute_total [of "map renumber ss" ms cs r] assms by auto
  have "distribute_mass_to_tanks_c r ss ms cs = Inr (map renumber ss', ms', r')"
    using distribute_loop [OF assms, of "[]" 0 "[]" "[]", OF _ _ _ d] by (simp add: distribute_mass_to_tanks_c_def)
  moreover have "ss' = map renumber (map renumber ss')" by simp
  ultimately show ?thesis using that d by metis
qed

lemma batch_updates_agree:
  assumes "length vs = length ms" "length ps = length ms" "length ts = length ms"
  shows "batch_pressure_update_c ms vs ps T R = batch_pressure_update ms vs ps T R"
    and "batch_pressure_update_vector_T_c ms vs ps ts R = batch_pressure_update_vector_T ms vs ps ts R"
    and "compiles (apply_heat_loss_batch_c ts ms T_amb dt UA Cv) (apply_heat_loss_batch ts ms T_amb dt UA Cv)"
proof -
  have id: "res_bind m Inr = m" for m :: "real list res" by (cases m) auto
  show "batch_pressure_update_c ms vs ps T R = batch_pressure_update ms vs ps T R"
    using pressure_loop_scalar [OF assms(1,2), of "[]" 0 "[]" "[]"] unfolding batch_pressure_update_c_def append_Nil id by simp
  show "batch_pressure_update_vector_T_c ms vs ps ts R = batch_pressure_update_vector_T ms vs ps ts R"
    using pressure_loop [OF assms, of "[]" 0 "[]" "[]" "[]"] unfolding batch_pressure_update_vector_T_c_def append_Nil id by simp
  show "compiles (apply_heat_loss_batch_c ts ms T_amb dt UA Cv) (apply_heat_loss_batch ts ms T_amb dt UA Cv)"
    using heat_loss_loop [OF assms(3) [symmetric], of "[]" 0 "[]"] unfolding apply_heat_loss_batch_c_def append_Nil id by simp
qed

text \<open>
  C2: up to the numbering of the states the compiled bank is the Python bank: on arrays of equal length both
  distribution kernels and both selections return what the Python ones return on the renumbered states.
\<close>

theorem compiled_bank_agrees_renumbered:
  assumes "length ss = length ms" "length cs = length ms" "length ts = length ms"
  shows "\<exists>ss' ms' rest ss2 ms2 ts2 rest2 a f.
    distribute_mass_to_tanks r (map renumber ss) ms cs = Inr (map renumber ss', ms', rest)
    \<and> distribute_mass_to_tanks_c r ss ms cs = Inr (ss', ms', rest)
    \<and> distribute_mass_and_energy r T_in (map renumber ss) ms ts cs gamma = Inr (map renumber ss2, ms2, ts2, rest2)
    \<and> distribute_mass_and_energy_c r T_in ss ms ts cs gamma = Inr (ss2, ms2, ts2, rest2)
    \<and> find_available_tank (map renumber ss) ms cs k = a \<and> find_available_tank_c ss ms cs k = a
    \<and> find_fullest_tank (map renumber ss) ms k = f \<and> find_fullest_tank_c ss ms k = f"
proof -
  obtain ss' ms' r' where d: "distribute_mass_to_tanks r (map renumber ss) ms cs = Inr (map renumber ss', ms', r')"
      "distribute_mass_to_tanks_c r ss ms cs = Inr (ss', ms', r')"
    by (rule distribute_c_value [OF assms(1,2)])
  obtain ss2 ms2 ts2 r2 where e: "distribute_mass_and_energy r T_in (map renumber ss) ms ts cs gamma = Inr (ss2, ms2, ts2, r2)"
    using energy_total [of "map renumber ss" ms cs ts r T_in gamma] assms by auto
  have ec: "distribute_mass_and_energy_c r T_in ss ms ts cs gamma = Inr (map renumber ss2, ms2, ts2, r2)"
    using energy_loop [OF assms, of "[]" 0 "[]" "[]" "[]", OF _ _ _ _ e] by (simp add: distribute_mass_and_energy_c_def)
  have e': "distribute_mass_and_energy r T_in (map renumber ss) ms ts cs gamma = Inr (map renumber (map renumber ss2), ms2, ts2, r2)"
    using e by simp
  have "find_available_tank_c ss ms cs k = find_available_tank (map renumber ss) ms cs k"
    using find_available_loop [of ms ss cs "[]" 0 "[]" "[]" k] assms by (simp add: find_available_tank_c_def find_available_tank_def)
  moreover have "find_fullest_tank_c ss ms k = find_fullest_tank (map renumber ss) ms k"
    using find_fullest_loop [of ms ss "[]" 0 "[]" k "- 1" "- 1", unfolded append_Nil] assms by (simp add: find_fullest_tank_c_def find_fullest_tank_def)
  ultimately show ?thesis using d e' ec by blast
qed

theorem compiled_bank_agrees_renumbered_witness:
  "\<exists>ss' ms' rest. distribute_mass_to_tanks 5 (map renumber [0, 4, 3]) [1, 0, 9] [3, 8, 9] = Inr (map renumber ss', ms', rest)
     \<and> distribute_mass_to_tanks_c 5 [0, 4, 3] [1, 0, 9] [3, 8, 9] = Inr (ss', ms', rest)"
  using compiled_bank_agrees_renumbered [of "[0, 4, 3]" "[1, 0, 9]" "[3, 8, 9]" "[300, 300, 300]" 5 300 "1.41" 0] by auto

section \<open>The compiled bank as an allocator\<close>

definition alloc_mass_c :: "real \<Rightarrow> tank_bank \<Rightarrow> (tank_bank \<times> real) res" where
  "alloc_mass_c r b =
     res_bind (distribute_mass_to_tanks_c r (tb_states b) (tb_masses b) (tb_capacities b))
       (\<lambda>(ss, ms, rest). Inr (b\<lparr>tb_states := ss, tb_masses := ms\<rparr>, rest))"

definition renumber_bank :: "tank_bank \<Rightarrow> tank_bank" where
  "renumber_bank b = b\<lparr>tb_states := map renumber (tb_states b)\<rparr>"

lemma renumber_bank_facts [simp]:
  "bank_ok (renumber_bank b) \<longleftrightarrow> bank_ok b" "bank_mass (renumber_bank b) = bank_mass b" "bank_room (renumber_bank b) = bank_room b"
  by (simp_all add: renumber_bank_def bank_ok_def bank_mass_def bank_room_def)

text \<open>The compiled allocation simulates the Python one through the renumbering.\<close>

lemma alloc_mass_c_simulates:
  assumes "bank_ok b"
  obtains b' rest where "alloc_mass_c r b = Inr (b', rest)" and "alloc_mass r (renumber_bank b) = Inr (renumber_bank b', rest)"
proof -
  have "length (tb_states b) = length (tb_masses b)" "length (tb_capacities b) = length (tb_masses b)"
    using assms fits_length by (auto simp: bank_ok_def)
  then obtain ss ms r' where
      "distribute_mass_to_tanks r (map renumber (tb_states b)) (tb_masses b) (tb_capacities b) = Inr (map renumber ss, ms, r')"
      "distribute_mass_to_tanks_c r (tb_states b) (tb_masses b) (tb_capacities b) = Inr (ss, ms, r')"
    by (rule distribute_c_value)
  then show ?thesis using that by (simp add: alloc_mass_c_def alloc_mass_def renumber_bank_def)
qed

interpretation compiled_bank: mass_allocator alloc_mass_c bank_mass bank_room bank_ok
proof
  fix b b' r rest
  assume ok: "bank_ok b" and r: "0 \<le> (r::real)"
  obtain b1 rest1 where s: "alloc_mass_c r b = Inr (b1, rest1)" "alloc_mass r (renumber_bank b) = Inr (renumber_bank b1, rest1)"
    by (rule alloc_mass_c_simulates [OF ok])
  show "\<exists>x. alloc_mass_c r b = Inr x" using s(1) by blast
  assume a: "alloc_mass_c r b = Inr (b', rest)"
  have m: "alloc_mass r (renumber_bank b) = Inr (renumber_bank b', rest)" using a s by simp
  have ok': "bank_ok (renumber_bank b)" using ok by simp
  show "bank_ok b' \<and> bank_room b' = bank_room b" using mass_bank.keeps [OF ok' r m] by simp
  show "bank_mass b' + rest = bank_mass b + r" using mass_bank.conserves [OF ok' r m] by simp
  show "0 \<le> rest \<and> rest \<le> r" using mass_bank.rest_range [OF ok' r m] by simp
qed (rule bank_bounded)

section \<open>Disagreement on the engine's numbering\<close>

lemma fill_open:
  assumes "fits ms cs" "0 \<le> r" and "length ss = length ms" and "\<forall>s \<in> set ss. accepts s"
    and d: "distribute_mass_to_tanks r ss ms cs = Inr (ss', ms', r')"
  shows "sum_list ms' = min (sum_list ms + r) (sum_list cs)"
proof -
  have f: "fits ms' cs" "0 \<le> r'" using distribute_fits [OF d assms(1,2)] by auto
  have c: "sum_list ms' + r' = sum_list ms + r" "length ms' = length ms" using distribute_conserves [OF d] by auto
  have le: "sum_list ms' \<le> sum_list cs" using fits_sums [OF f(1)] by simp
  show ?thesis
  proof (cases "0 < r'")
    case True
    have "ms' = cs" using distribute_greedy [OF d True fits_length [OF assms(1)]] assms(3,4) c(2) fits_length [OF assms(1)]
      by (intro nth_equalityI) auto
    then show ?thesis using c True by simp
  next
    case False
    then show ?thesis using c f(2) le by simp
  qed
qed

lemma distribute_closed:
  assumes "length ss = length ms" "length cs = length ms" and "\<forall>s \<in> set ss. \<not> accepts s"
  shows "distribute_mass_to_tanks r ss ms cs = Inr (ss, ms, r)"
  using assms
proof (induction ms arbitrary: ss cs)
  case (Cons m ms)
  then obtain s ss1 c cs1 where "ss = s # ss1" "cs = c # cs1" by (cases ss; cases cs) auto
  then show ?case using Cons by auto
qed simp

text \<open>
  C3: on the state codes of the engine the compiled bank works upside down: tanks marked empty take no gas, all
  of it is handed back, while tanks marked full are filled; the Python bank does it the other way round.
\<close>

theorem compiled_bank_swaps_full_and_empty:
  assumes "fits ms cs" "0 \<le> r"
  defines "vacant \<equiv> replicate (length ms) TANK_STATE_EMPTY" and "filled \<equiv> replicate (length ms) TANK_STATE_FULL"
  shows "\<exists>ss1 ms1 r1 ss2 ms2 r2. distribute_mass_to_tanks r vacant ms cs = Inr (ss1, ms1, r1)
    \<and> sum_list ms1 = min (sum_list ms + r) (sum_list cs)
    \<and> distribute_mass_to_tanks_c r vacant ms cs = Inr (vacant, ms, r)
    \<and> distribute_mass_to_tanks_c r filled ms cs = Inr (ss2, ms2, r2)
    \<and> sum_list ms2 = min (sum_list ms + r) (sum_list cs)
    \<and> distribute_mass_to_tanks r filled ms cs = Inr (filled, ms, r)"
proof -
  have l: "length vacant = length ms" "length filled = length ms" "length cs = length ms"
    using fits_length [OF assms(1)] by (simp_all add: vacant_def filled_def)
  have s: "\<forall>s \<in> set vacant. accepts s" "\<forall>s \<in> set filled. \<not> accepts s" by (auto simp: vacant_def filled_def tank_state_defs)
  have swap: "map renumber vacant = filled" "map renumber filled = vacant"
    by (simp_all add: vacant_def filled_def renumber_def tank_state_defs)
  obtain ss1 ms1 r1 where p: "distribute_mass_to_tanks r vacant ms cs = Inr (ss1, ms1, r1)"
    using distribute_total [OF l(1,3), of r] by auto
  note sum = fill_open [OF assms(1,2) l(1) s(1) p]
  have closed: "distribute_mass_to_tanks r filled ms cs = Inr (filled, ms, r)" by (rule distribute_closed [OF l(2,3) s(2)])
  obtain ss' ms' r' where c: "distribute_mass_to_tanks r (map renumber vacant) ms cs = Inr (map renumber ss', ms', r')"
      "distribute_mass_to_tanks_c r vacant ms cs = Inr (ss', ms', r')" by (rule distribute_c_value [OF l(1,3)])
  then have "map renumber ss' = filled" "ms' = ms" "r' = r" using closed unfolding swap by simp_all
  then have "map renumber (map renumber ss') = vacant" using swap by simp
  then have "distribute_mass_to_tanks_c r vacant ms cs = Inr (vacant, ms, r)" using c(2) \<open>ms' = ms\<close> \<open>r' = r\<close> by simp
  moreover obtain ss2 ms2 r2 where "distribute_mass_to_tanks_c r filled ms cs = Inr (ss2, ms2, r2)" "ms2 = ms1"
  proof -
    obtain ss2 ms2 r2 where "distribute_mass_to_tanks r (map renumber filled) ms cs = Inr (map renumber ss2, ms2, r2)"
        "distribute_mass_to_tanks_c r filled ms cs = Inr (ss2, ms2, r2)" by (rule distribute_c_value [OF l(2,3)])
    then show ?thesis using that p swap by simp
  qed
  ultimately show ?thesis using p sum closed by blast
qed

theorem compiled_bank_swaps_full_and_empty_witness:
  "distribute_mass_to_tanks_c 5 (replicate (length [0, 1 :: real]) TANK_STATE_EMPTY) [0, 1] [10, 10]
    = Inr (replicate (length [0, 1 :: real]) TANK_STATE_EMPTY, [0, 1], 5)"
  using compiled_bank_swaps_full_and_empty [of "[0, 1]" "[10, 10]" 5] by auto

end
