(* ===== verification/CyThermo.thy ===== *)
theory CyThermo
  imports CyLookup Thermo Flash Cooler
begin

text \<open>
  The compiled thermodynamics of \<open>_numba_ops_core.pyx\<close>: composition and enthalpy of a stream, the molar enthalpy
  and heat capacity of a mixture, the flash solvers, the interchanger outlet and the cyclone, with their
  agreement with the Python kernels. They differ in one place: at a temperature that is not positive.
\<close>

section \<open>Composition and streams\<close>

definition GAS_CP_COEFFS_C :: "real list list" where
  "GAS_CP_COEFFS_C = [
     [29.11, - 0.1916 / 10 ^ 2, 0.4003 / 10 ^ 5, - 0.8704 / 10 ^ 9, 0],
     [29.96, 4.18 / 10 ^ 3, - 1.67 / 10 ^ 6, 0, 0],
     [28.98, - 0.1571 / 10 ^ 2, 0.8081 / 10 ^ 5, - 2.873 / 10 ^ 9, 0],
     [22.26, 5.98 / 10 ^ 2, - 3.50 / 10 ^ 5, 7.47 / 10 ^ 9, 0],
     [19.89, 5.02 / 10 ^ 2, 1.27 / 10 ^ 5, - 1.10 / 10 ^ 8, 0],
     [32.24, 1.92 / 10 ^ 3, 1.06 / 10 ^ 5, - 3.60 / 10 ^ 9, 0],
     [29.14, - 0.1571 / 10 ^ 2, 0.8081 / 10 ^ 5, - 2.873 / 10 ^ 9, 0]]"

definition GAS_MW_C :: "real list" where
  "GAS_MW_C = [2.016, 32, 28.014, 44.01, 16.04, 18.015, 28.01]"

definition LIQ_CP_COEFFS_C :: "real list" where
  "LIQ_CP_COEFFS_C = [75.3, 0, 0, 0, 0]"

definition LIQ_MW_C :: real where
  "LIQ_MW_C = 18.015"

definition mw_arr_c :: "real list" where
  "mw_arr_c = [0.002016, 0.032, 0.028014, 0.04401, 0.01604, 0.018015, 0.02801]"

definition calculate_dissolved_gas_mg_kg_jit_c :: "real \<Rightarrow> real \<Rightarrow> real \<Rightarrow> real \<Rightarrow> real \<Rightarrow> real res" where
  "calculate_dissolved_gas_mg_kg_jit_c temperature_k gas_partial_pressure_pa species_H298 species_C species_MW_kg_mol =
     (if temperature_k \<le> 0 \<or> gas_partial_pressure_pa \<le> 0 then Inr 0
      else res_bind (cdiv 1 temperature_k) (\<lambda>inv_T.
        let H_T = species_H298 * exp (species_C * (inv_T - 1 / 298.15));
            p_atm = gas_partial_pressure_pa / 101325
        in res_bind (cdiv p_atm H_T) (\<lambda>c_mol_L.
           let mw_g_mol = species_MW_kg_mol * 1000 in Inr (c_mol_L * mw_g_mol * 1000))))"

definition moles_of_c :: "real list \<Rightarrow> nat \<Rightarrow> real res" where
  "moles_of_c mass_fracs i =
     res_bind (cget mass_fracs (int i)) (\<lambda>w.
     if w > 0 then res_bind (cget mw_arr_c (int i)) (\<lambda>mw. cdiv w mw) else Inr 0)"

definition fast_composition_properties_c :: "real list \<Rightarrow> (real list \<times> real \<times> real) res" where
  "fast_composition_properties_c mass_fracs =
     (let n = length mass_fracs in
      res_bind (map_res (moles_of_c mass_fracs) [0..<n]) (\<lambda>moles.
      let total_moles = sum_list moles in
      if total_moles > 1 / 10 ^ 15 then
        fold_range n (\<lambda>i (mole_fracs, M_mix, sum_ylny).
            res_bind (cget moles (int i)) (\<lambda>m.
            if m > 0 then
              let y = m * (1 / total_moles) in
              res_bind (cget mw_arr_c (int i)) (\<lambda>mw.
              res_bind (np_log y) (\<lambda>ln_y.
              Inr (mole_fracs[i := y], M_mix + y * mw, sum_ylny + y * ln_y)))
            else Inr (mole_fracs, M_mix, sum_ylny)))
          (replicate n 0, 0, 0)
      else Inr (replicate n 0, 0.028, 0)))"

definition integral_cp_c :: "real \<Rightarrow> real list \<Rightarrow> real res" where
  "integral_cp_c t coeffs =
     res_bind (cget coeffs 0) (\<lambda>A. res_bind (cget coeffs 1) (\<lambda>B. res_bind (cget coeffs 2) (\<lambda>C.
     res_bind (cget coeffs 3) (\<lambda>D. res_bind (cget coeffs 4) (\<lambda>E. res_bind (cdiv E t) (\<lambda>e.
     Inr (A * t + B * t * t / 2 + C * t * t * t / 3 + D * t * t * t * t / 4 - e)))))))"

definition calculate_stream_enthalpy_jit_c :: "real \<Rightarrow> real list \<Rightarrow> real \<Rightarrow> real res" where
  "calculate_stream_enthalpy_jit_c T_k mass_fracs h2o_liq_frac =
     res_bind (fold_range (length mass_fracs) (\<lambda>i h_total.
         res_bind (cget mass_fracs (int i)) (\<lambda>w_i.
         if w_i > 1 / 10 ^ 12 then
           res_bind (cget GAS_CP_COEFFS_C (int i)) (\<lambda>coeffs.
           res_bind (integral_cp_c T_k coeffs) (\<lambda>h.
           res_bind (integral_cp_c 298.15 coeffs) (\<lambda>h_ref.
           res_bind (cget GAS_MW_C (int i)) (\<lambda>mw.
           res_bind (cdiv ((h - h_ref) * 1000) mw) (\<lambda>h_spec.
           Inr (h_total + w_i * h_spec))))))
         else Inr h_total)) 0) (\<lambda>h_total.
     if h2o_liq_frac > 1 / 10 ^ 12 then
       res_bind (integral_cp_c T_k LIQ_CP_COEFFS_C) (\<lambda>h.
       res_bind (integral_cp_c 298.15 LIQ_CP_COEFFS_C) (\<lambda>h_ref.
       res_bind (cdiv ((h - h_ref) * 1000) LIQ_MW_C) (\<lambda>h_liq.
       Inr (h_total + h2o_liq_frac * h_liq))))
     else Inr h_total)"

definition remap_canonical_to_lut_c :: "real list \<Rightarrow> real \<Rightarrow> int list \<Rightarrow> real list res" where
  "remap_canonical_to_lut_c canonical_fracs h2o_liq_frac species_map =
     res_bind (map_res (\<lambda>idx. if idx \<ge> 0 then cget canonical_fracs idx else Inr 0) species_map) (\<lambda>lut_fracs.
     Inr (case find (\<lambda>i. species_map ! i = 5) [0..<length species_map] of
            None \<Rightarrow> lut_fracs
          | Some i \<Rightarrow> lut_fracs[i := lut_fracs ! i + h2o_liq_frac]))"

section \<open>Molar enthalpy and the flash solvers\<close>

definition cp_row_c :: "real list list \<Rightarrow> nat \<Rightarrow> (real \<times> real \<times> real \<times> real \<times> real) res" where
  "cp_row_c m i =
     res_bind (cget2 m (int i) 0) (\<lambda>A. res_bind (cget2 m (int i) 1) (\<lambda>B.
     res_bind (cget2 m (int i) 2) (\<lambda>C. res_bind (cget2 m (int i) 3) (\<lambda>D.
     res_bind (cget2 m (int i) 4) (\<lambda>E. Inr (A, B, C, D, E))))))"

definition delta_enthalpy_c :: "real \<Rightarrow> real \<Rightarrow> real \<times> real \<times> real \<times> real \<times> real \<Rightarrow> real res" where
  "delta_enthalpy_c T T_ref row = (case row of (A, B, C, D, E) \<Rightarrow>
     let T2 = T * T; T3 = T2 * T; T4 = T3 * T; Tr2 = T_ref * T_ref; Tr3 = Tr2 * T_ref; Tr4 = Tr3 * T_ref in
     if T > 0 \<and> T_ref > 0 then
       res_bind (cdiv 1 T) (\<lambda>inv_T. res_bind (cdiv 1 T_ref) (\<lambda>inv_Tr.
       Inr (A * (T - T_ref) + 0.5 * B * (T2 - Tr2) + (1 / 3) * C * (T3 - Tr3) + 0.25 * D * (T4 - Tr4) - E * (inv_T - inv_Tr))))
     else Inr (A * (T - T_ref) + 0.5 * B * (T2 - Tr2) + (1 / 3) * C * (T3 - Tr3) + 0.25 * D * (T4 - Tr4)))"

definition calculate_mixture_enthalpy_c ::
    "real \<Rightarrow> real list \<Rightarrow> real list \<Rightarrow> real list list \<Rightarrow> real \<Rightarrow> real res" where
  "calculate_mixture_enthalpy_c temperature mole_fractions h_formations cp_coeffs_matrix T_ref =
     fold_range (length mole_fractions) (\<lambda>i h_mix.
       res_bind (cget mole_fractions (int i)) (\<lambda>y.
       if y < 1 / 10 ^ 12 then Inr h_mix
       else res_bind (cget h_formations (int i)) (\<lambda>h_form.
         res_bind (cp_row_c cp_coeffs_matrix i) (\<lambda>row.
         res_bind (delta_enthalpy_c temperature T_ref row) (\<lambda>delta_h.
         Inr (h_mix + y * (h_form + delta_h))))))) 0"

definition species_cp_c :: "real \<Rightarrow> real \<times> real \<times> real \<times> real \<times> real \<Rightarrow> real res" where
  "species_cp_c T row = (case row of (A, B, C, D, E) \<Rightarrow>
     if T > 0 then res_bind (cdiv E (T * T)) (\<lambda>e. Inr (A + B * T + C * (T * T) + D * (T * T * T) + e))
     else Inr (A + B * T + C * (T * T) + D * (T * T * T)))"

definition calculate_mixture_cp_c :: "real \<Rightarrow> real list \<Rightarrow> real list list \<Rightarrow> real res" where
  "calculate_mixture_cp_c temperature mole_fractions cp_coeffs_matrix =
     fold_range (length mole_fractions) (\<lambda>i cp_mix.
       res_bind (cget mole_fractions (int i)) (\<lambda>y.
       if y < 1 / 10 ^ 12 then Inr cp_mix
       else res_bind (cp_row_c cp_coeffs_matrix i) (\<lambda>row.
         res_bind (species_cp_c temperature row) (\<lambda>cp_species. Inr (cp_mix + y * cp_species))))) 0"

definition calculate_water_psat_jit_c :: "real \<Rightarrow> real res" where
  "calculate_water_psat_jit_c T_k =
     (let (A, B, C) = (if T_k < 373.15 then (5.40221, 1838.675, - 31.737) else (5.20389, 1733.926, - 39.485))
      in res_bind (cdiv B (T_k + C)) (\<lambda>q. res_bind (fpow 10 (A - q)) (\<lambda>p_bar. Inr (p_bar * 100000))))"

definition water_T_step_c :: "real \<Rightarrow> real \<Rightarrow> (real, real) ctl" where
  "water_T_step_c target_h_j_kg T_iter =
     (let h_calc = 4184 * (T_iter - 273.15);
          error = h_calc - target_h_j_kg
      in if \<bar>error\<bar> < 0.01 * 4184 then Return T_iter
         else let T1 = T_iter - error / 4184;
                  T2 = (if T1 < 273.15 then 273.15 else T1);
                  T3 = (if T2 > 647 then 647 else T2)
              in Next T3)"

definition solve_water_T_from_H_jit_c :: "real \<Rightarrow> real \<Rightarrow> real \<Rightarrow> real res" where
  "solve_water_T_from_H_jit_c target_h_j_kg P_pa T_guess_k =
     res_bind (for_range 10 (\<lambda>_ T_iter. Inr (water_T_step_c target_h_j_kg T_iter)) T_guess_k) (\<lambda>c.
       case c of Next T \<Rightarrow> Inr T | Break T \<Rightarrow> Inr T | Return T \<Rightarrow> Inr T)"

definition solve_rachford_rice_single_condensable_c :: "real \<Rightarrow> real \<Rightarrow> real res" where
  "solve_rachford_rice_single_condensable_c z_condensable K_value =
     (if K_value \<ge> 1 then Inr 1
      else if z_condensable < 1 / 10 ^ 12 then Inr 1
      else if z_condensable \<le> K_value then Inr 1
      else res_bind (cdiv (1 - z_condensable) (1 - K_value)) (\<lambda>beta.
        Inr (if beta < 0 then 0 else if beta > 1 then 1 else beta)))"

definition uv_newton_step_c ::
    "real \<Rightarrow> real list \<Rightarrow> real list \<Rightarrow> real list list \<Rightarrow> real \<Rightarrow> real \<Rightarrow> real \<Rightarrow> (real, real) ctl res" where
  "uv_newton_step_c target_u_molar ys hs m R_gas tol T =
     res_bind (calculate_mixture_enthalpy_c T ys hs m 298.15) (\<lambda>h_mix.
     let u_calc = h_mix - R_gas * T; f = u_calc - target_u_molar in
     if \<bar>f\<bar> < tol then Inr (Return T)
     else res_bind (calculate_mixture_cp_c T ys m) (\<lambda>cp_mix.
       let df = cp_mix - R_gas in
       if df = 0 then Inr (Break T)
       else res_bind (cdiv f df) (\<lambda>step.
         let T1 = T - step;
             T2 = (if T1 < 10 then 10 else T1);
             T_new = (if T2 > 5000 then 5000 else T2)
         in Inr (if \<bar>T_new - T\<bar> < tol then Return T_new else Next T_new))))"

definition solve_uv_flash_c ::
    "real \<Rightarrow> real \<Rightarrow> real \<Rightarrow> real list \<Rightarrow> real list \<Rightarrow> real list list \<Rightarrow> real \<Rightarrow> real \<Rightarrow> real \<Rightarrow> nat \<Rightarrow> real res" where
  "solve_uv_flash_c target_u_molar volume_m3 total_moles ys hs m T_guess R_gas tol max_iter =
     (if total_moles \<le> 0 \<or> volume_m3 \<le> 0 then Inr T_guess
      else res_bind (for_range max_iter (\<lambda>_. uv_newton_step_c target_u_molar ys hs m R_gas tol) T_guess)
        (\<lambda>c. Inr (ctl_value c)))"

definition ph_newton_step_c ::
    "real \<Rightarrow> real list \<Rightarrow> real list \<Rightarrow> real list list \<Rightarrow> real \<Rightarrow> real \<Rightarrow> (real, real) ctl res" where
  "ph_newton_step_c h_target_molar ys hs m tol T =
     res_bind (calculate_mixture_enthalpy_c T ys hs m 298.15) (\<lambda>h_calc.
     res_bind (calculate_mixture_cp_c T ys m) (\<lambda>cp_calc.
     if \<bar>cp_calc\<bar> < 1 / 10 ^ 4 then Inr (Break T)
     else res_bind (cdiv (h_target_molar - h_calc) cp_calc) (\<lambda>delta_T.
       let T_new = T + delta_T in
       Inr (if \<bar>delta_T\<bar> < tol then Break T_new
            else Next (if T_new < 275 then 275 else if T_new > 5000 then 5000 else T_new)))))"

definition solve_ph_flash_jit_c ::
    "real \<Rightarrow> real list \<Rightarrow> real list \<Rightarrow> real list list \<Rightarrow> real \<Rightarrow> real \<Rightarrow> nat \<Rightarrow> real res" where
  "solve_ph_flash_jit_c h_target_molar ys hs m T_guess tol max_iter =
     res_bind (for_range max_iter (\<lambda>_. ph_newton_step_c h_target_molar ys hs m tol) T_guess) (\<lambda>c. Inr (ctl_value c))"

section \<open>Interchanger outlet and cyclone\<close>

definition antoine_psat_c :: "real \<Rightarrow> real res" where
  "antoine_psat_c T_k =
     (let T_C0 = T_k - 273.15; T_C = (if T_C0 < 0.01 then 0.01 else T_C0) in
      res_bind (cdiv 1730.63 (233.426 + T_C)) (\<lambda>q.
      res_bind (fpow 10 (8.07131 - q)) (\<lambda>p_mmhg. Inr (p_mmhg * 133.322))))"

definition grid_lookup_c :: "real list \<Rightarrow> real \<Rightarrow> (real \<times> bool) res" where
  "grid_lookup_c g x =
     res_bind (cget g 0) (\<lambda>lo. res_bind (cget g (int (length g) - 1)) (\<lambda>hi.
     Inr (if x < lo then (lo, True) else if x > hi then (hi, True) else (x, False))))"

definition inerts_mw_c :: "real \<Rightarrow> real \<Rightarrow> real res" where
  "inerts_mw_c z_h2o_mole M_mix_feed =
     (if 1 - z_h2o_mole > 1 / 10 ^ 9 then cdiv (M_mix_feed - z_h2o_mole * 0.018015) (1 - z_h2o_mole) else Inr 0.028)"

definition phase_split_c :: "real \<Rightarrow> real \<Rightarrow> real \<Rightarrow> real \<Rightarrow> (real \<times> real \<times> real \<times> real \<times> real) res" where
  "phase_split_c z_h2o_mole mw_inerts_avg P_system T_mid =
     res_bind (antoine_psat_c T_mid) (\<lambda>P_sat.
     res_bind (cdiv P_sat P_system) (\<lambda>K_w.
     res_bind (if K_w \<ge> 1 \<or> z_h2o_mole < 1 / 10 ^ 12 \<or> z_h2o_mole \<le> K_w then Inr 1
               else res_bind (cdiv (1 - z_h2o_mole) (1 - K_w)) (\<lambda>b. Inr (if b < 0 then 0 else if b > 1 then 1 else b))) (\<lambda>beta.
     let y_w = (if beta < 0.9999 \<and> K_w < 1 then K_w else z_h2o_mole);
         mw_gas = y_w * 0.018015 + (1 - y_w) * mw_inerts_avg;
         mass_gas = beta * mw_gas;
         mass_liq = (1 - beta) * 0.018015
     in res_bind (if mass_gas + mass_liq > 0 then cdiv mass_gas (mass_gas + mass_liq) else Inr 1) (\<lambda>psi_gas.
        res_bind (if mw_gas > 0 then cdiv (y_w * 0.018015) mw_gas else Inr 0) (\<lambda>w_w_gas.
        Inr (beta, psi_gas, 1 - psi_gas, y_w, w_w_gas))))))"

definition inert_enthalpy_c ::
    "real list \<Rightarrow> ptable list \<Rightarrow> int \<Rightarrow> int \<Rightarrow> real \<Rightarrow> real \<Rightarrow> real res" where
  "inert_enthalpy_c lut_mass_fracs stacked_H ix_p iy_t wp wt =
     res_bind (fold_range (length stacked_H) (\<lambda>i (h_inert_spec, total_w_inert).
         res_bind (cget lut_mass_fracs (int i)) (\<lambda>w_i.
         if w_i < 1 / 10 ^ 12 \<or> i = 5 then Inr (h_inert_spec, total_w_inert)
         else res_bind (cget stacked_H (int i)) (\<lambda>H_table.
           res_bind (interp_from_weights_jit_c H_table ix_p iy_t wp wt) (\<lambda>h_i.
           Inr (h_inert_spec + w_i * h_i, total_w_inert + w_i))))) (0, 0)) (\<lambda>(h, w).
     if w > 0 then cdiv h w else Inr h)"

definition outlet_enthalpy_c :: "interchanger \<Rightarrow> real \<Rightarrow> int \<Rightarrow> real \<Rightarrow> real \<Rightarrow> (real \<times> real \<times> bool) res" where
  "outlet_enthalpy_c ic mw_inerts_avg ix_p wp T_mid =
     res_bind (phase_split_c (ic_z_h2o_mole ic) mw_inerts_avg (ic_P_system ic) T_mid) (\<lambda>(beta, psi_gas, psi_liq, y_w, w_w_gas).
     res_bind (grid_lookup_c (ic_T_grid ic) T_mid) (\<lambda>(T_lookup, T_clamped).
     res_bind (axis_weight_c (ic_T_grid ic) T_lookup) (\<lambda>(iy_t, wt).
     res_bind (inert_enthalpy_c (ic_lut_mass_fracs ic) (ic_stacked_H ic) ix_p iy_t wp wt) (\<lambda>h_inert_spec.
     res_bind (cget (ic_P_grid ic) 0) (\<lambda>p_first. res_bind (cget (ic_P_grid ic) (int (length (ic_P_grid ic)) - 1)) (\<lambda>p_last.
     let p_w = ic_P_system ic * (if y_w > 1 / 10 ^ 6 then y_w else 1 / 10 ^ 6);
         p0 = (if p_first > p_w then p_first else p_w);
         p_h2o = (if p0 > p_last then p_last else p0)
     in res_bind (axis_weight_c (ic_P_grid ic) p_h2o) (\<lambda>(ix_pw, wpw).
        res_bind (cget (ic_stacked_H ic) 5) (\<lambda>H_w.
        res_bind (interp_from_weights_jit_c H_w ix_pw iy_t wpw wt) (\<lambda>h_vap_w.
        res_bind (interp_from_weights_jit_c H_w ix_p iy_t wp wt) (\<lambda>h_liq_w.
        let h_gas_spec = w_w_gas * h_vap_w + (1 - w_w_gas) * h_inert_spec
        in Inr (psi_gas * h_gas_spec + psi_liq * h_liq_w, beta, T_clamped)))))))))))"

definition interchanger_step_c ::
    "interchanger \<Rightarrow> real \<Rightarrow> int \<Rightarrow> real \<Rightarrow> real \<Rightarrow> real \<Rightarrow> ic_state \<Rightarrow> (ic_state, unit) ctl res" where
  "interchanger_step_c ic mw_inerts_avg ix_p wp h_target tol s =
     (let T_mid = 0.5 * (is_T_lo s + is_T_hi s) in
      res_bind (outlet_enthalpy_c ic mw_inerts_avg ix_p wp T_mid) (\<lambda>(h_calc, beta, T_clamped).
      let s1 = s\<lparr>is_T_sol := T_mid, is_beta_sol := beta, is_was_clamped := is_was_clamped s \<or> T_clamped\<rparr> in
      Inr (if \<bar>h_calc - h_target\<bar> < tol then Break s1
           else if h_calc > h_target then Next (s1\<lparr>is_T_hi := T_mid\<rparr>)
           else Next (s1\<lparr>is_T_lo := T_mid\<rparr>))))"

definition solve_interchanger_flash_jit_c ::
    "interchanger \<Rightarrow> real \<Rightarrow> real \<Rightarrow> nat \<Rightarrow> real \<Rightarrow> (real \<times> real \<times> bool) res" where
  "solve_interchanger_flash_jit_c ic h_target T_h_in max_iter tol =
     res_bind (grid_lookup_c (ic_P_grid ic) (ic_P_system ic)) (\<lambda>(P_lookup, P_clamped).
     res_bind (axis_weight_c (ic_P_grid ic) P_lookup) (\<lambda>(ix_p, wp).
     res_bind (inerts_mw_c (ic_z_h2o_mole ic) (ic_M_mix_feed ic)) (\<lambda>mw_inerts_avg.
     res_bind (for_range max_iter (\<lambda>_. interchanger_step_c ic mw_inerts_avg ix_p wp h_target tol)
         \<lparr>is_T_lo = 273.16, is_T_hi = (if T_h_in > 500 then T_h_in else 500), is_T_sol = T_h_in, is_beta_sol = 1, is_was_clamped = P_clamped\<rparr>) (\<lambda>c.
     res_bind (loop_state c) (\<lambda>s. Inr (is_T_sol s, is_beta_sol s, is_was_clamped s))))))"

definition solve_cyclone_mechanics_c ::
    "real \<Rightarrow> real \<Rightarrow> real \<Rightarrow> real \<Rightarrow> real \<Rightarrow> real \<Rightarrow> int \<Rightarrow> (real \<times> real \<times> real \<times> real) res" where
  "solve_cyclone_mechanics_c Q_gas_m3s rho_g rho_l mu_g D_element_m vane_angle_rad N_tubes =
     (if N_tubes \<le> 0 \<or> Q_gas_m3s \<le> 1 / 10 ^ 9 then Inr (0, 0, 0, 0)
      else let D_hub = 0.3 * D_element_m; Area_annulus = (pi / 4) * (D_element_m * D_element_m - D_hub * D_hub) in
      res_bind (cdiv Q_gas_m3s (real_of_int N_tubes * Area_annulus)) (\<lambda>v_axial.
      let v_tan = v_axial * tan vane_angle_rad; r_mean = (D_element_m + D_hub) / 4 in
      res_bind (cdiv (v_tan * v_tan) r_mean) (\<lambda>g_spin.
      let L_sep = 3 * D_element_m in
      res_bind (if v_axial > 1 / 10 ^ 9 then cdiv L_sep v_axial else Inr 1000000) (\<lambda>t_res.
      let s_drift = (D_element_m - D_hub) / 2; density_diff = rho_l - rho_g in
      res_bind (if density_diff > 0 \<and> g_spin > 0 \<and> t_res > 0
                then res_bind (cdiv (18 * mu_g * s_drift) (density_diff * g_spin * t_res)) (\<lambda>d50_sq.
                     res_bind (np_sqrt d50_sq) (\<lambda>d. Inr (d * 1000000)))
                else Inr 0) (\<lambda>d50_microns.
      let delta_P_pa = 4.8 * 0.5 * rho_g * (v_axial * v_axial) in Inr (d50_microns, delta_P_pa, v_axial, v_tan))))))"

section \<open>Agreement\<close>

lemma compiled_constants: "GAS_CP_COEFFS_C = GAS_CP_COEFFS" "GAS_MW_C = GAS_MW" "LIQ_CP_COEFFS_C = LIQ_CP_COEFFS"
    "LIQ_MW_C = LIQ_MW" "mw_arr_c = mw_arr"
  unfolding GAS_CP_COEFFS_C_def GAS_CP_COEFFS_def GAS_MW_C_def GAS_MW_def LIQ_CP_COEFFS_C_def LIQ_CP_COEFFS_def
    LIQ_MW_C_def LIQ_MW_def mw_arr_c_def mw_arr_def by (rule refl)+

lemma dissolved_gas_compiles:
  "compiles (calculate_dissolved_gas_mg_kg_jit_c T P h c mw) (calculate_dissolved_gas_mg_kg_jit T P h c mw)"
  unfolding calculate_dissolved_gas_mg_kg_jit_c_def calculate_dissolved_gas_mg_kg_jit_def Let_def
  by (auto simp: compiles_def cdiv_def split: if_splits)

lemma composition_compiles: "compiles (fast_composition_properties_c ws) (fast_composition_properties ws)"
  unfolding fast_composition_properties_c_def fast_composition_properties_def moles_of_c_def moles_of_def Let_def
    compiled_constants by (intro compile) auto

lemma integral_cp_compiles: "compiles (integral_cp_c t coeffs) (integral_cp t coeffs)"
  by (auto simp: compiles_def integral_cp_def integral_cp_c_def cget_def cdiv_def power2_eq_square power3_eq_cube
      power4_eq_xxxx split: list.splits if_splits)

lemma stream_enthalpy_compiles:
  "compiles (calculate_stream_enthalpy_jit_c T ws l) (calculate_stream_enthalpy_jit T ws l)"
  unfolding calculate_stream_enthalpy_jit_c_def calculate_stream_enthalpy_jit_def compiled_constants
  by (intro compile integral_cp_compiles) auto

lemma remap_compiles: "compiles (remap_canonical_to_lut_c ws l sm) (remap_canonical_to_lut ws l sm)"
  unfolding remap_canonical_to_lut_c_def remap_canonical_to_lut_def by (intro compile) auto

lemma cp_row_compiles: "compiles (cp_row_c m i) (cp_row m i)"
  unfolding cp_row_c_def cp_row_def by (intro compile) auto

lemma delta_enthalpy_value:
  assumes "0 < T" "0 < T_ref"
  shows "delta_enthalpy_c T T_ref row = Inr (delta_enthalpy T T_ref row)"
  using assms by (auto simp: delta_enthalpy_c_def delta_enthalpy_def cdiv_def power2_eq_square power3_eq_cube
      power4_eq_xxxx Let_def split: prod.splits)

lemma mixture_enthalpy_compiles:
  assumes "0 < T" "0 < T_ref"
  shows "compiles (calculate_mixture_enthalpy_c T ys hs m T_ref) (calculate_mixture_enthalpy T ys hs m T_ref)"
  unfolding calculate_mixture_enthalpy_c_def calculate_mixture_enthalpy_def delta_enthalpy_value [OF assms] res_bind.simps
  by (intro compile cp_row_compiles) auto

lemma species_cp_value: "species_cp_c T row = Inr (species_cp T row)"
  by (auto simp: species_cp_c_def species_cp_def cdiv_def power2_eq_square power3_eq_cube split: prod.splits)

lemma mixture_cp_compiles: "compiles (calculate_mixture_cp_c T ys m) (calculate_mixture_cp T ys m)"
  unfolding calculate_mixture_cp_c_def calculate_mixture_cp_def species_cp_value res_bind.simps
  by (intro compile cp_row_compiles) auto

lemma water_psat_compiles: "compiles (calculate_water_psat_jit_c T) (calculate_water_psat_jit T)"
  unfolding calculate_water_psat_jit_c_def calculate_water_psat_jit_def Let_def by (intro compile)

lemma water_T_compiles: "compiles (solve_water_T_from_H_jit_c h p T) (solve_water_T_from_H_jit h p T)"
  unfolding solve_water_T_from_H_jit_c_def solve_water_T_from_H_jit_def water_T_step_c_def water_T_step_def
  by (rule compiles_refl)

lemma rachford_rice_compiles:
  "compiles (solve_rachford_rice_single_condensable_c z k) (solve_rachford_rice_single_condensable z k)"
  unfolding solve_rachford_rice_single_condensable_c_def solve_rachford_rice_single_condensable_def
  by (intro compile) (auto simp: compiles_def min_def max_def)

lemma uv_step_compiles:
  assumes "0 < T"
  shows "compiles (uv_newton_step_c target ys hs m R_gas tol T) (uv_newton_step target ys hs m R_gas tol T)"
  unfolding uv_newton_step_c_def uv_newton_step_def Let_def
  by (intro compile mixture_enthalpy_compiles mixture_cp_compiles assms) auto

lemma ph_step_compiles:
  assumes "0 < T"
  shows "compiles (ph_newton_step_c target ys hs m tol T) (ph_newton_step target ys hs m tol T)"
  unfolding ph_newton_step_c_def ph_newton_step_def Let_def
  by (intro compile mixture_enthalpy_compiles mixture_cp_compiles assms) auto

lemma uv_flash_compiles:
  assumes "0 < T"
  shows "compiles (solve_uv_flash_c target vol amount ys hs m T R_gas tol n) (solve_uv_flash target vol amount ys hs m T R_gas tol n)"
  unfolding solve_uv_flash_c_def solve_uv_flash_def
  by (intro compile compiles_for_inv [where I = "\<lambda>T. 0 < T"] uv_step_compiles assms)
    (auto simp: uv_newton_step_def Let_def split: if_splits)

lemma ph_flash_compiles:
  assumes "0 < T"
  shows "compiles (solve_ph_flash_jit_c target ys hs m T tol n) (solve_ph_flash_jit target ys hs m T tol n)"
  unfolding solve_ph_flash_jit_c_def solve_ph_flash_jit_def
  by (intro compile compiles_for_inv [where I = "\<lambda>T. 0 < T"] ph_step_compiles assms)
    (auto simp: ph_newton_step_def Let_def split: if_splits)

section \<open>Interchanger and cyclone\<close>

lemma grid_lookup_compiles [compile]: "compiles (grid_lookup_c g x) (grid_lookup g x)"
  unfolding grid_lookup_c_def grid_lookup_def by (intro compile) auto

lemma inerts_mw_compiles [compile]: "compiles (inerts_mw_c z M) (inerts_mw z M)"
  unfolding inerts_mw_c_def inerts_mw_def by (intro compile) auto

lemma phase_split_compiles [compile]: "compiles (phase_split_c z mw P T) (phase_split z mw P T)"
  unfolding phase_split_c_def phase_split_def antoine_psat_c_def antoine_psat_def Let_def by (intro compile) auto

lemma inert_enthalpy_compiles [compile]:
  "0 \<le> ix \<Longrightarrow> 0 \<le> iy \<Longrightarrow> compiles (inert_enthalpy_c ws H ix iy wp wt) (inert_enthalpy ws H ix iy wp wt)"
  unfolding inert_enthalpy_c_def inert_enthalpy_def by (intro compile) auto

lemma outlet_enthalpy_compiles:
  assumes "sorted_grid (ic_P_grid ic)" "sorted_grid (ic_T_grid ic)" "0 \<le> ix"
  shows "compiles (outlet_enthalpy_c ic mw ix wp T) (outlet_enthalpy ic mw ix wp T)"
proof -
  have m: "(if a > b then a else b) = max b a" for a b :: real by (simp add: max_def)
  show ?thesis
    unfolding outlet_enthalpy_c_def outlet_enthalpy_def Let_def m max.commute [of "_ * _"] max.commute [of "1 / 10 ^ 6"]
    by (intro compile sorted_grid.axis_weight_compiles assms)
      (use sorted_grid.axis_weight_index [OF assms(1)] sorted_grid.axis_weight_index [OF assms(2)] assms(3) in fastforce)+
qed

lemma interchanger_compiles:
  assumes "sorted_grid (ic_P_grid ic)" "sorted_grid (ic_T_grid ic)"
  shows "compiles (solve_interchanger_flash_jit_c ic h T n tol) (solve_interchanger_flash_jit ic h T n tol)"
proof -
  have m: "(if T > 500 then T else 500) = max T 500" by (simp add: max_def)
  have "0 \<le> ix" if "axis_weight (ic_P_grid ic) x = Inr (ix, w)" for x ix w
    using sorted_grid.axis_weight_index [OF assms(1)] that by blast
  then show ?thesis
    unfolding solve_interchanger_flash_jit_c_def solve_interchanger_flash_jit_def interchanger_step_c_def
      interchanger_step_def Let_def m
    by (intro compile sorted_grid.axis_weight_compiles outlet_enthalpy_compiles assms) auto
qed

lemma cyclone_compiles:
  "compiles (solve_cyclone_mechanics_c Q rho_g rho_l mu D a N) (solve_cyclone_mechanics Q rho_g rho_l mu D a N)"
  unfolding solve_cyclone_mechanics_c_def solve_cyclone_mechanics_def Let_def power2_eq_square by (intro compile) auto

text \<open>
  The compiled flash solvers return what the Python ones return: the two temperature searches from any
  positive guess and the interchanger outlet on sorted axes; likewise the stream composition and enthalpy,
  and the cyclone, on all inputs.
\<close>

theorem compiled_flash_agrees:
  assumes "0 < T_guess" and "sorted_grid (ic_P_grid ic)" "sorted_grid (ic_T_grid ic)"
  shows "compiles (solve_uv_flash_c u vol amount ys hs m T_guess R_gas tol n) (solve_uv_flash u vol amount ys hs m T_guess R_gas tol n)
    \<and> compiles (solve_ph_flash_jit_c h ys hs m T_guess tol n) (solve_ph_flash_jit h ys hs m T_guess tol n)
    \<and> compiles (solve_interchanger_flash_jit_c ic h T_guess n tol) (solve_interchanger_flash_jit ic h T_guess n tol)
    \<and> compiles (calculate_stream_enthalpy_jit_c T_guess ws liq) (calculate_stream_enthalpy_jit T_guess ws liq)
    \<and> compiles (fast_composition_properties_c ws) (fast_composition_properties ws)
    \<and> compiles (solve_cyclone_mechanics_c Q rho_g rho_l mu D a N) (solve_cyclone_mechanics Q rho_g rho_l mu D a N)"
  by (intro conjI uv_flash_compiles ph_flash_compiles interchanger_compiles stream_enthalpy_compiles
      composition_compiles cyclone_compiles assms)

theorem compiled_flash_agrees_witness:
  "solve_ph_flash_jit_c 200 [1] [0] [[10, 0, 0, 0, 0]] 300 0.05 2 = Inr (318.15)"
proof -
  have t: "cp_table (length [1 :: real]) [[10, 0, 0, 0, 0]]" by (simp add: cp_table_def)
  have h: "0 < T \<Longrightarrow> calculate_mixture_enthalpy T [1] [0] [[10, 0, 0, 0, 0]] 298.15 = Inr (10 * (T - 298.15))" for T
    using mixture_enthalpy_value [OF t, of "[0]" T "298.15"] by (simp add: mix_enthalpy_def delta_enthalpy_def cp_of_def)
  have cp: "calculate_mixture_cp T [1] [[10, 0, 0, 0, 0]] = Inr 10" for T
    using mixture_cp_value [OF t, of T] by (simp add: mix_cp_def species_cp_def cp_of_def)
  have T: "solve_ph_flash_jit 200 [1] [0] [[10, 0, 0, 0, 0]] 300 0.05 2 = Inr (318.15)"
    using h [of 300] h [of "318.15"] cp
    by (simp add: solve_ph_flash_jit_def ph_newton_step_def Let_def fdiv_def numeral_2_eq_2)
  define ic where "ic = \<lparr>ic_z_h2o_mole = 0, ic_M_mix_feed = 0.002, ic_P_system = 1, ic_lut_mass_fracs = [],
      ic_stacked_H = [], ic_P_grid = [1, 2], ic_T_grid = [1, 2]\<rparr>"
  have g: "sorted_grid (ic_P_grid ic)" "sorted_grid (ic_T_grid ic)" by (simp_all add: ic_def sorted_grid_def)
  have "compiles (solve_ph_flash_jit_c 200 [1] [0] [[10, 0, 0, 0, 0]] 300 0.05 2)
      (solve_ph_flash_jit 200 [1] [0] [[10, 0, 0, 0, 0]] 300 0.05 2)"
    using compiled_flash_agrees [OF _ g, of 300] by simp
  then show ?thesis by (rule compilesD [OF _ T])
qed

section \<open>Where the port differs\<close>

definition unconditional_terms :: "real \<Rightarrow> real \<Rightarrow> real \<times> real \<times> real \<times> real \<times> real \<Rightarrow> real" where
  "unconditional_terms T T_ref row = (case row of (A, B, C, D, E) \<Rightarrow>
     A * (T - T_ref) + B / 2 * (T ^ 2 - T_ref ^ 2) + C / 3 * (T ^ 3 - T_ref ^ 3) + D / 4 * (T ^ 4 - T_ref ^ 4))"

lemma delta_enthalpy_compiled:
  assumes "0 < T_ref"
  shows "delta_enthalpy_c T T_ref row
    = Inr (delta_enthalpy T T_ref row + (if 0 < T then 0 else unconditional_terms T T_ref row))"
  using assms delta_enthalpy_value [of T T_ref row]
  by (cases row) (auto simp: delta_enthalpy_c_def delta_enthalpy_def unconditional_terms_def power2_eq_square
      power3_eq_cube power4_eq_xxxx Let_def)

text \<open>
  The compiled enthalpy of a mixture is the Python one at every positive temperature and another one at the others:
  Python's conditional takes the whole sum, so the mixture keeps its heat of formation; the port
  leaves out the last term only.
\<close>

theorem mixture_enthalpy_port_differs:
  assumes "cp_table (length ys) m" "length ys \<le> length hs" "0 < T_ref"
  shows "\<exists>h. calculate_mixture_enthalpy T ys hs m T_ref = Inr h
    \<and> calculate_mixture_enthalpy_c T ys hs m T_ref = Inr (h + (\<Sum>i < length ys.
         if 0 < T \<or> ys ! i < 1 / 10 ^ 12 then 0 else ys ! i * unconditional_terms T T_ref (cp_of m i)))"
proof -
  have c: "calculate_mixture_enthalpy_c T ys hs m T_ref = Inr (\<Sum>i < length ys. if ys ! i < 1 / 10 ^ 12 then 0
      else ys ! i * (hs ! i + (delta_enthalpy T T_ref (cp_of m i)
        + (if 0 < T then 0 else unconditional_terms T T_ref (cp_of m i)))))"
    unfolding calculate_mixture_enthalpy_c_def
    by (rule fold_range_sum) (use assms compilesD [OF cp_row_compiles cp_row_value [OF assms(1)]] in
        \<open>auto simp: cget_nat delta_enthalpy_compiled [OF assms(3)]\<close>)
  show ?thesis
    unfolding c mixture_enthalpy_value [OF assms(1,2)] mix_enthalpy_def
    by (intro exI conjI refl arg_cong [where f = Inr])
      (auto simp: sum.distrib [symmetric] algebra_simps intro!: sum.cong)
qed

theorem mixture_enthalpy_port_differs_witness:
  "calculate_mixture_enthalpy (- 1) [1] [0] [[10, 0, 0, 0, 0]] 99 = Inr 0
   \<and> calculate_mixture_enthalpy_c (- 1) [1] [0] [[10, 0, 0, 0, 0]] 99 = Inr (- 1000)"
proof -
  have t: "cp_table (length [1 :: real]) [[10, 0, 0, 0, 0]]" by (simp add: cp_table_def)
  have "calculate_mixture_enthalpy (- 1) [1] [0] [[10, 0, 0, 0, 0]] 99 = Inr 0"
    using mixture_enthalpy_value [OF t, of "[0]" "- 1" 99] by (simp add: mix_enthalpy_def delta_enthalpy_def cp_of_def)
  then show ?thesis
    using mixture_enthalpy_port_differs [OF t, of "[0]" 99 "- 1"] by (auto simp: unconditional_terms_def cp_of_def)
qed

end
