(* ===== verification/CyHeat.thy ===== *)
theory CyHeat
  imports Cython HeatExchange Electrolyzer Cooler H2Storage
begin

text \<open>
  The compiled heat transfer correlations, dry cooler, storage compression work and PEM electrolyzer of
  \<open>_numba_ops_core.pyx\<close>. They are the Python kernels but for the electrolyzer's power solver, which has
  lost the limit on the current density.
\<close>

section \<open>Kernels\<close>

definition dry_cooler_ntu_effectiveness_c :: "real \<Rightarrow> real \<Rightarrow> real res" where
  "dry_cooler_ntu_effectiveness_c ntu r =
     (if ntu \<le> 0 then Inr 0
      else if \<bar>r - 1\<bar> < 1 / 10 ^ 6 then cdiv ntu (1 + ntu)
      else let term = exp (- ntu * (1 + r)) in cdiv (1 - term) (1 + r * term))"

definition counter_flow_ntu_effectiveness_c :: "real \<Rightarrow> real \<Rightarrow> real res" where
  "counter_flow_ntu_effectiveness_c ntu r =
     (if ntu \<le> 0 then Inr 0
      else if \<bar>r - 1\<bar> < 1 / 10 ^ 6 then cdiv ntu (1 + ntu)
      else let term = exp (- ntu * (1 - r)) in cdiv (1 - term) (1 - r * term))"

definition calculate_reynolds_flux_c :: "real \<Rightarrow> real \<Rightarrow> real \<Rightarrow> real \<Rightarrow> real res" where
  "calculate_reynolds_flux_c mass_flow_kg_s flow_area_m2 d_hydraulic visc_pa_s =
     (if flow_area_m2 \<le> 1 / 10 ^ 9 \<or> visc_pa_s \<le> 1 / 10 ^ 9 then Inr 0
      else res_bind (cdiv mass_flow_kg_s flow_area_m2) (\<lambda>G. cdiv (G * d_hydraulic) visc_pa_s))"

definition calculate_nusselt_dittus_boelter_c :: "real \<Rightarrow> real \<Rightarrow> bool \<Rightarrow> real res" where
  "calculate_nusselt_dittus_boelter_c re pr is_heating =
     (if re < 2300 then Inr 3.66
      else res_bind (fpow re 0.8) (\<lambda>a. res_bind (fpow pr (if is_heating then 0.4 else 0.3)) (\<lambda>b.
        Inr (0.023 * a * b))))"

definition calculate_nusselt_crossflow_c :: "real \<Rightarrow> real \<Rightarrow> real res" where
  "calculate_nusselt_crossflow_c re pr =
     (if re < 100 then Inr 1
      else res_bind (fpow re 0.63) (\<lambda>a. res_bind (fpow pr 0.33) (\<lambda>b. Inr (0.27 * a * b))))"

definition calculate_dynamic_u_fouled_c ::
    "real \<Rightarrow> real \<Rightarrow> real \<Rightarrow> real \<Rightarrow> real \<Rightarrow> real \<Rightarrow> real \<Rightarrow> real res" where
  "calculate_dynamic_u_fouled_c h_in h_out d_in d_out k_wall r_foul_in r_foul_out =
     (if h_in \<le> 1 / 10 ^ 6 \<or> h_out \<le> 1 / 10 ^ 6 then Inr 0
      else if d_in \<le> 0 \<or> d_out < d_in then Inr 0
      else res_bind (if \<bar>d_out - d_in\<bar> < 1 / 10 ^ 9 then res_bind (cdiv 0.002 k_wall) (\<lambda>r_wall. Inr (1, r_wall))
           else res_bind (cdiv d_out d_in) (\<lambda>area_ratio. res_bind (np_log area_ratio) (\<lambda>l.
             res_bind (cdiv (d_out * l) (2 * k_wall)) (\<lambda>r_wall. Inr (area_ratio, r_wall))))) (\<lambda>(area_ratio, r_wall).
      res_bind (cdiv area_ratio h_in) (\<lambda>r_conv_in.
      res_bind (cdiv 1 h_out) (\<lambda>r_conv_out.
      let r_total = r_conv_in + r_foul_in * area_ratio + r_wall + r_foul_out + r_conv_out in
      if r_total > 0 then cdiv 1 r_total else Inr 0))))"

definition pem_U_rev_c :: "pem_params \<Rightarrow> real res" where
  "pem_U_rev_c p =
     res_bind (cdiv (pp_P_op p) (pp_P_ref p)) (\<lambda>pressure_ratio.
     res_bind (cdiv (pp_R p * pp_T p) (of_int (pp_z p) * pp_F p)) (\<lambda>q.
     res_bind (fpow pressure_ratio 1.5) (\<lambda>a. res_bind (np_log a) (\<lambda>l.
     Inr (1.229 - 0.9 / 10 ^ 3 * (pp_T p - 298.15) + q * l)))))"

definition pem_eta_conc_c :: "pem_params \<Rightarrow> real \<Rightarrow> real res" where
  "pem_eta_conc_c p j =
     (if j \<ge> pp_j_lim p then Inr 100
      else res_bind (cdiv (pp_R p * pp_T p) (of_int (pp_z p) * pp_F p)) (\<lambda>q.
        res_bind (cdiv (pp_j_lim p) (pp_j_lim p - (if j > 1 / 10 ^ 10 then j else 1 / 10 ^ 10))) (\<lambda>r.
        res_bind (np_log r) (\<lambda>l. Inr (q * l)))))"

definition calculate_pem_voltage_jit_c :: "real \<Rightarrow> pem_params \<Rightarrow> real res" where
  "calculate_pem_voltage_jit_c j p =
     res_bind (pem_U_rev_c p) (\<lambda>U_rev.
     let j_safe = (if j > 1 / 10 ^ 10 then j else 1 / 10 ^ 10) in
     res_bind (cdiv (pp_R p * pp_T p) (pp_alpha p * of_int (pp_z p) * pp_F p)) (\<lambda>b.
     res_bind (cdiv j_safe (pp_j0 p)) (\<lambda>r.
     res_bind (np_log r) (\<lambda>l.
     res_bind (cdiv (pp_delta_mem p) (pp_sigma_base p)) (\<lambda>asr.
     res_bind (pem_eta_conc_c p j) (\<lambda>eta_conc.
     Inr (U_rev + b * l + j * asr + eta_conc)))))))"

definition pem_power_c :: "real \<Rightarrow> real \<Rightarrow> real \<Rightarrow> pem_params \<Rightarrow> real \<Rightarrow> real res" where
  "pem_power_c Area_Total P_bop_fixo k_bop_var p x =
     res_bind (calculate_pem_voltage_jit_c x p) (\<lambda>V_c. Inr (x * Area_Total * V_c * (1 + k_bop_var) + P_bop_fixo))"

definition pem_newton_step_c ::
    "real \<Rightarrow> real \<Rightarrow> real \<Rightarrow> real \<Rightarrow> pem_params \<Rightarrow> real \<Rightarrow> real \<Rightarrow> (real, real) ctl res" where
  "pem_newton_step_c target_power_W Area_Total P_bop_fixo k_bop_var p tol x =
     res_bind (pem_power_c Area_Total P_bop_fixo k_bop_var p x) (\<lambda>P_total.
     let fx = P_total - target_power_W in
     if \<bar>fx\<bar> < tol then Inr (Return x)
     else let delta = 1 / 10 ^ 5 in
       res_bind (pem_power_c Area_Total P_bop_fixo k_bop_var p (x + delta)) (\<lambda>P_total_d.
       let dfx = ((P_total_d - target_power_W) - fx) / delta in
       if dfx = 0 then Inr (Break x)
       else res_bind (cdiv fx dfx) (\<lambda>step.
         let x1 = x - step;
             x2 = (if x1 < 1 / 10 ^ 6 then 1 / 10 ^ 6 else x1)
         in Inr (Next x2))))"

definition solve_pem_j_jit_c ::
    "real \<Rightarrow> real \<Rightarrow> real \<Rightarrow> real \<Rightarrow> real \<Rightarrow> pem_params \<Rightarrow> nat \<Rightarrow> real \<Rightarrow> real res" where
  "solve_pem_j_jit_c target_power_W Area_Total P_bop_fixo k_bop_var j_guess p max_iter tol =
     res_bind (for_range max_iter (\<lambda>_. pem_newton_step_c target_power_W Area_Total P_bop_fixo k_bop_var p tol) j_guess)
       (\<lambda>c. case c of Next x \<Rightarrow> Inr x | Break x \<Rightarrow> Inr x | Return x \<Rightarrow> Inr x)"

definition film_coefficient_c :: "real \<Rightarrow> real \<Rightarrow> real \<Rightarrow> real \<Rightarrow> real \<Rightarrow> real \<Rightarrow> real \<Rightarrow> real \<Rightarrow> real res" where
  "film_coefficient_c flow area d mu k pr n h_default =
     res_bind (cdiv flow area) (\<lambda>G.
     res_bind (if mu > 0 then cdiv (G * d) mu else Inr 0) (\<lambda>Re.
     res_bind (if Re > 0 \<and> pr > 0 then res_bind (fpow Re 0.8) (\<lambda>a. res_bind (fpow pr n) (\<lambda>b. Inr (0.023 * a * b)))
               else Inr 3.66) (\<lambda>Nu.
     if d > 0 then cdiv (Nu * k) d else Inr h_default)))"

definition dynamic_u_c :: "cooler_stream \<Rightarrow> cooler_size \<Rightarrow> tube_data \<Rightarrow> real res" where
  "dynamic_u_c cs cz td =
     (if td_use_dynamic_u td \<and> td_flow_area_gas td > 0 \<and> td_flow_area_glycol td > 0 then
        res_bind (film_coefficient_c (cs_m_dot_gas cs) (td_flow_area_gas td) (td_d_tube_in td) (td_mu_gas td)
          (td_k_gas td) (td_pr_gas td) 0.3 500) (\<lambda>h_gas.
        res_bind (film_coefficient_c (cs_glycol_flow_kg_s cs) (td_flow_area_glycol td) (td_d_tube_out td) (td_mu_glycol td)
          (td_k_glycol td) (td_pr_glycol td) 0.4 200) (\<lambda>h_gly.
        let r_in = td_d_tube_in td / 2; r_out = td_d_tube_out td / 2 in
        if h_gas > 0 \<and> h_gly > 0 \<and> td_k_tube_wall td > 0 then
          res_bind (cdiv 1 h_gas) (\<lambda>a. res_bind (cdiv r_out r_in) (\<lambda>q. res_bind (np_log q) (\<lambda>l.
          res_bind (cdiv (r_in * l) (td_k_tube_wall td)) (\<lambda>b. res_bind (cdiv r_in r_out) (\<lambda>q'. res_bind (cdiv q' h_gly) (\<lambda>c.
          let R_total = a + b + c + td_r_foul_glycol td in
          if R_total > 0 then cdiv 1 R_total else Inr (cz_tqc_u cz)))))))
        else Inr (cz_tqc_u cz)))
      else Inr (cz_tqc_u cz))"

definition counter_flow_stage_c :: "real \<Rightarrow> real \<Rightarrow> real \<Rightarrow> real \<Rightarrow> (real \<times> real) res" where
  "counter_flow_stage_c UA C_hot C_cold dT =
     (let C_min = (if C_hot < C_cold then C_hot else C_cold); C_max = (if C_hot > C_cold then C_hot else C_cold) in
      if C_min > 1 / 10 ^ 9 then
        res_bind (if C_max > 1 / 10 ^ 9 then cdiv C_min C_max else Inr 0) (\<lambda>R.
        res_bind (cdiv UA C_min) (\<lambda>NTU.
        res_bind (if \<bar>R - 1\<bar> < 1 / 10 ^ 9 then cdiv NTU (1 + NTU)
                  else let exp_val = exp (- NTU * (1 - R)); denom = 1 - R * exp_val in
                       if \<bar>denom\<bar> > 1 / 10 ^ 12 then cdiv (1 - exp_val) denom else Inr 1) (\<lambda>eff.
        Inr (eff, eff * (C_min * dT)))))
      else Inr (0, 0))"

definition cross_flow_stage_c :: "real \<Rightarrow> real \<Rightarrow> real \<Rightarrow> real \<Rightarrow> (real \<times> real) res" where
  "cross_flow_stage_c UA C_cold C_air dT =
     (let C_min = (if C_cold < C_air then C_cold else C_air); C_max = (if C_cold > C_air then C_cold else C_air) in
      if C_min > 1 / 10 ^ 9 then
        res_bind (if C_max > 1 / 10 ^ 9 then cdiv C_min C_max else Inr 0) (\<lambda>R.
        res_bind (cdiv UA C_min) (\<lambda>NTU.
        res_bind (if NTU > 0 \<and> R > 0 then
                    res_bind (fpow NTU 0.22) (\<lambda>a. res_bind (cdiv a R) (\<lambda>b. res_bind (fpow NTU 0.78) (\<lambda>c.
                    Inr (1 - exp (b * (exp (- R * c) - 1))))))
                  else Inr (if NTU > 0 then 1 - exp (- NTU) else 0)) (\<lambda>eff.
        Inr (eff, eff * (C_min * dT)))))
      else Inr (0, 0))"

definition stream_out_c :: "real \<Rightarrow> real \<Rightarrow> real \<Rightarrow> real res" where
  "stream_out_c T_in Q C = (if C > 1 / 10 ^ 9 then res_bind (cdiv Q C) (\<lambda>q. Inr (T_in + q)) else Inr T_in)"

definition solve_dry_cooler_thermal_jit_c ::
    "cooler_stream \<Rightarrow> cooler_size \<Rightarrow> tube_data \<Rightarrow> (real \<times> real \<times> real \<times> real \<times> real \<times> real \<times> real) res" where
  "solve_dry_cooler_thermal_jit_c cs cz td =
     res_bind (dynamic_u_c cs cz td) (\<lambda>u_tqc.
     let C_hot = cs_m_dot_gas cs * cs_cp_gas cs; C_cold = cs_glycol_flow_kg_s cs * cs_glycol_cp cs in
     res_bind (counter_flow_stage_c (u_tqc * cz_tqc_area cz) C_hot C_cold (cs_T_gas_in_k cs - cs_T_glycol_in_k cs)) (\<lambda>(eff_tqc, Q_tqc).
     res_bind (stream_out_c (cs_T_gas_in_k cs) (- Q_tqc) C_hot) (\<lambda>T_gas_out_k.
     res_bind (stream_out_c (cs_T_glycol_in_k cs) Q_tqc C_cold) (\<lambda>T_glycol_hot_k.
     if cz_use_dc cz then
       res_bind (cross_flow_stage_c (cz_dc_u cz * cz_dc_area cz) C_cold (cs_dc_air_flow_kg_s cs * cs_cp_air cs)
         (T_glycol_hot_k - cs_T_air_in_k cs)) (\<lambda>(eff_dc, Q_dc).
       res_bind (stream_out_c T_glycol_hot_k (- Q_dc) C_cold) (\<lambda>T_glycol_cold_k.
       Inr (T_gas_out_k, T_glycol_hot_k, T_glycol_cold_k, Q_tqc, Q_dc, eff_tqc, eff_dc)))
     else Inr (T_gas_out_k, T_glycol_hot_k, T_glycol_hot_k, Q_tqc, 0, eff_tqc, 0)))))"

definition calculate_compression_work_c ::
    "real \<Rightarrow> real \<Rightarrow> real \<Rightarrow> real \<Rightarrow> real \<Rightarrow> real \<Rightarrow> real \<Rightarrow> real res" where
  "calculate_compression_work_c p1 p2 mass temperature efficiency gamma gas_constant =
     (if p1 \<le> 0 then Inr 0
      else res_bind (cdiv p2 p1) (\<lambda>pressure_ratio.
        res_bind (cdiv (gamma - 1) gamma) (\<lambda>ex.
        res_bind (cdiv gamma (gamma - 1)) (\<lambda>g.
        res_bind (cdiv (mass * gas_constant * temperature) efficiency) (\<lambda>q.
        res_bind (fpow pressure_ratio ex) (\<lambda>r. Inr (g * q * (r - 1))))))))"

section \<open>Agreement\<close>

lemma ntu_compiles:
  "compiles (dry_cooler_ntu_effectiveness_c ntu r) (dry_cooler_ntu_effectiveness ntu r)"
  "compiles (counter_flow_ntu_effectiveness_c ntu r) (counter_flow_ntu_effectiveness ntu r)"
  unfolding dry_cooler_ntu_effectiveness_c_def dry_cooler_ntu_effectiveness_def counter_flow_ntu_effectiveness_c_def
    counter_flow_ntu_effectiveness_def Let_def by (intro compile refl)+

lemma correlations_compile:
  "compiles (calculate_reynolds_flux_c m a d v) (calculate_reynolds_flux m a d v)"
  "compiles (calculate_nusselt_dittus_boelter_c re pr heating) (calculate_nusselt_dittus_boelter re pr heating)"
  "compiles (calculate_nusselt_crossflow_c re pr) (calculate_nusselt_crossflow re pr)"
  unfolding calculate_reynolds_flux_c_def calculate_reynolds_flux_def calculate_nusselt_dittus_boelter_c_def
    calculate_nusselt_dittus_boelter_def calculate_nusselt_crossflow_c_def calculate_nusselt_crossflow_def Let_def
  by (intro compile refl)+

lemma fouled_u_compiles:
  "compiles (calculate_dynamic_u_fouled_c a b c d e f g) (calculate_dynamic_u_fouled a b c d e f g)"
  unfolding calculate_dynamic_u_fouled_c_def calculate_dynamic_u_fouled_def Let_def by (intro compile refl)

lemma film_coefficient_compiles [compile]:
  "compiles (film_coefficient_c m a d mu k pr n h) (film_coefficient m a d mu k pr n h)"
  unfolding film_coefficient_c_def film_coefficient_def by (intro compile refl)

lemma dynamic_u_compiles [compile]: "compiles (dynamic_u_c cs cz td) (dynamic_u cs cz td)"
  unfolding dynamic_u_c_def dynamic_u_def Let_def by (intro compile refl)

lemma stages_compile [compile]:
  "compiles (counter_flow_stage_c UA a b dT) (counter_flow_stage UA a b dT)"
  "compiles (cross_flow_stage_c UA a b dT) (cross_flow_stage UA a b dT)"
  "compiles (stream_out_c T Q C) (stream_out T Q C)"
proof -
  have m: "(if a < b then a else b) = min a b" "(if a > b then a else b) = max a b" for a b :: real
    by (simp_all add: min_def max_def)
  show "compiles (counter_flow_stage_c UA a b dT) (counter_flow_stage UA a b dT)"
    unfolding counter_flow_stage_c_def counter_flow_stage_def Let_def m by (intro compile refl)
  show "compiles (cross_flow_stage_c UA a b dT) (cross_flow_stage UA a b dT)"
    unfolding cross_flow_stage_c_def cross_flow_stage_def Let_def m by (intro compile refl)
  show "compiles (stream_out_c T Q C) (stream_out T Q C)"
    unfolding stream_out_c_def stream_out_def by (intro compile refl)
qed

lemma dry_cooler_compiles: "compiles (solve_dry_cooler_thermal_jit_c cs cz td) (solve_dry_cooler_thermal_jit cs cz td)"
  unfolding solve_dry_cooler_thermal_jit_c_def solve_dry_cooler_thermal_jit_def Let_def by (intro compile refl)

lemma compression_work_compiles:
  "compiles (calculate_compression_work_c p1 p2 m T e g R) (calculate_compression_work p1 p2 m T e g R)"
  unfolding calculate_compression_work_c_def calculate_compression_work_def Let_def by (intro compile refl)

lemma pem_voltage_compiles [compile]: "compiles (calculate_pem_voltage_jit_c j p) (calculate_pem_voltage_jit j p)"
proof -
  have m: "(if a > b then a else b) = max a b" for a b :: real by (simp add: max_def)
  show ?thesis
    unfolding calculate_pem_voltage_jit_c_def calculate_pem_voltage_jit_def pem_U_rev_c_def pem_U_rev_def
      pem_eta_conc_c_def pem_eta_conc_def Let_def m
    by (intro compile refl)
qed

lemma pem_power_compiles [compile]: "compiles (pem_power_c A B k p x) (pem_power A B k p x)"
  unfolding pem_power_c_def pem_power_def by (intro compile)

text \<open>
  The compiled heat transfer kernels, the dry cooler, the storage compression work and the cell voltage agree
  with the Python ones on all inputs.
\<close>

theorem compiled_heat_transfer_agrees:
  "compiles (solve_dry_cooler_thermal_jit_c cs cz td) (solve_dry_cooler_thermal_jit cs cz td)
   \<and> compiles (counter_flow_ntu_effectiveness_c ntu r) (counter_flow_ntu_effectiveness ntu r)
   \<and> compiles (calculate_dynamic_u_fouled_c hi ho di d_o k fi fo) (calculate_dynamic_u_fouled hi ho di d_o k fi fo)
   \<and> compiles (calculate_compression_work_c p1 p2 mass T e g R) (calculate_compression_work p1 p2 mass T e g R)
   \<and> compiles (calculate_pem_voltage_jit_c j p) (calculate_pem_voltage_jit j p)"
  by (intro conjI dry_cooler_compiles ntu_compiles fouled_u_compiles compression_work_compiles pem_voltage_compiles)

section \<open>The lost current limit\<close>

definition pem_load :: "real \<Rightarrow> real \<Rightarrow> real \<Rightarrow> pem_params \<Rightarrow> real \<Rightarrow> real" where
  "pem_load A B k p x = x * A * pem_voltage p x * (1 + k) + B"

lemma pem_power_c_value: "pem_ok p \<Longrightarrow> pem_power_c A B k p x = Inr (pem_load A B k p x)"
  using compilesD [OF pem_power_compiles pem_power_value] by (simp add: pem_load_def)

definition pem_slope :: "real \<Rightarrow> real \<Rightarrow> real \<Rightarrow> pem_params \<Rightarrow> real \<Rightarrow> real" where
  "pem_slope A B k p x = (pem_load A B k p (x + 1 / 10 ^ 5) - pem_load A B k p x) / (1 / 10 ^ 5)"

text \<open>Past the limiting current density the load is a smooth convex curve.\<close>

definition log_load :: "real \<Rightarrow> real \<Rightarrow> real \<Rightarrow> real \<Rightarrow> real \<Rightarrow> real \<Rightarrow> real \<Rightarrow> real" where
  "log_load V b r L a B x = x * a * (V + b * (ln x - ln L) + (x - L) * r) + B"

definition log_slope :: "real \<Rightarrow> real \<Rightarrow> real \<Rightarrow> real \<Rightarrow> real \<Rightarrow> real \<Rightarrow> real" where
  "log_slope V b r L a x = a * (V + b * (ln x - ln L + 1) + (2 * x - L) * r)"

lemma log_load_derivative:
  "0 < x \<Longrightarrow> (log_load V b r L a B has_real_derivative log_slope V b r L a x) (at x)"
  unfolding log_load_def log_slope_def by (auto intro!: derivative_eq_intros simp: algebra_simps)

lemma log_slope_mono:
  assumes "0 < b" "0 \<le> r" "0 < a" "0 < x" "x \<le> y"
  shows "log_slope V b r L a x \<le> log_slope V b r L a y"
  unfolding log_slope_def using assms by (intro mult_right_mono mult_left_mono add_mono) auto

lemma limit_above: "pem_ok p \<Longrightarrow> 1 / 10 ^ 10 < pp_j_lim p \<and> 0 < pp_j_lim p \<and> 0 < pp_j0 p"
  by (auto simp: pem_ok_def less_le_trans [of 0 "1 / 10 ^ 10"])

lemma pem_load_beyond:
  assumes "pem_ok p"
  shows "\<exists>V b r. 0 < b \<and> 0 \<le> r \<and> (\<forall>x \<ge> pp_j_lim p. pem_load A B k p x = log_load V b r (pp_j_lim p) (A * (1 + k)) B x)"
proof -
  define b where "b = pp_R p * pp_T p / (pp_alpha p * of_int (pp_z p) * pp_F p)"
  define r where "r = pp_delta_mem p / pp_sigma_base p"
  have l: "1 / 10 ^ 10 < pp_j_lim p" "0 < pp_j_lim p" "0 < pp_j0 p" using limit_above [OF assms] by auto
  have "pem_load A B k p x = log_load (pem_voltage p (pp_j_lim p)) b r (pp_j_lim p) (A * (1 + k)) B x"
    if x: "pp_j_lim p \<le> x" for x
  proof -
    have m: "max x (1 / 10 ^ 10) = x" "max (pp_j_lim p) (1 / 10 ^ 10) = pp_j_lim p" "0 < x" using x l by auto
    have d: "ln (x / pp_j0 p) = ln x - ln (pp_j0 p)" "ln (pp_j_lim p / pp_j0 p) = ln (pp_j_lim p) - ln (pp_j0 p)"
      using l m(3) by (simp_all add: ln_div)
    have "pem_voltage p x = pem_voltage p (pp_j_lim p) + b * (ln x - ln (pp_j_lim p)) + (x - pp_j_lim p) * r"
      unfolding pem_voltage_def m d b_def [symmetric] r_def [symmetric] using x by (simp add: algebra_simps)
    then show ?thesis by (simp add: pem_load_def log_load_def)
  qed
  moreover have "0 < b" "0 \<le> r" using pem_ok_consts(2,3) [OF assms] by (simp_all add: b_def r_def)
  ultimately show ?thesis by blast
qed

text \<open>A secant to the right of a point is at least as steep as one to its left.\<close>

lemma secants_increase:
  assumes "pem_ok p" "0 < A" "0 \<le> k" and "pp_j_lim p < x" "0 < d"
  shows "(pem_load A B k p x - pem_load A B k p (pp_j_lim p)) / (x - pp_j_lim p)
    \<le> (pem_load A B k p (x + d) - pem_load A B k p x) / d"
proof -
  obtain V b r where v: "0 < b" "0 \<le> r" and g: "\<And>y. pp_j_lim p \<le> y \<Longrightarrow> pem_load A B k p y = log_load V b r (pp_j_lim p) (A * (1 + k)) B y"
    using pem_load_beyond [OF assms(1), of A B k] by blast
  let ?L = "pp_j_lim p" and ?a = "A * (1 + k)"
  let ?g = "log_load V b r ?L ?a B"
  have L: "0 < ?L" using limit_above [OF assms(1)] by blast
  have der: "(?g has_real_derivative log_slope V b r ?L ?a t) (at t)" if "?L \<le> t" for t
    using L that by (intro log_load_derivative) simp
  obtain s where s: "?L < s" "s < x" "?g x - ?g ?L = (x - ?L) * log_slope V b r ?L ?a s"
    using MVT2 [OF assms(4), of ?g "log_slope V b r ?L ?a"] der by auto
  obtain t where t: "x < t" "t < x + d" "?g (x + d) - ?g x = d * log_slope V b r ?L ?a t"
    using MVT2 [of x "x + d" ?g "log_slope V b r ?L ?a"] der assms(4,5) by auto
  have "log_slope V b r ?L ?a s \<le> log_slope V b r ?L ?a t"
    by (rule log_slope_mono) (use v s t L assms(2,3) in auto)
  then show ?thesis
    using s(3) t(3) assms(4,5) by (simp add: g)
qed

lemma pem_load_rises:
  assumes "pem_ok p" "0 < A" "0 \<le> k" and "pp_j0 p \<le> x" "x < y" and "y < pp_j_lim p \<or> pp_j_lim p \<le> x"
  shows "pem_load A B k p x < pem_load A B k p y"
proof -
  have f: "0.59 \<le> pem_voltage p x" "0 < x"
    using pem_voltage_floor [OF assms(1,4)] limit_above [OF assms(1)] assms(4) by auto
  have "pem_voltage p x \<le> pem_voltage p y"
  proof (cases "y < pp_j_lim p")
    case True
    then show ?thesis using pem_voltage_strict [OF assms(1,4,5)] by simp
  next
    case False
    define b r where "b = pp_R p * pp_T p / (pp_alpha p * of_int (pp_z p) * pp_F p)" and "r = pp_delta_mem p / pp_sigma_base p"
    have l: "ln (x / pp_j0 p) \<le> ln (y / pp_j0 p)"
      using limit_above [OF assms(1)] assms(5) f(2) by (simp add: divide_right_mono)
    have m: "max x (1 / 10 ^ 10) = x" "max y (1 / 10 ^ 10) = y" "pp_j_lim p \<le> x" "pp_j_lim p \<le> y"
      using False assms(5,6) limit_above [OF assms(1)] by auto
    have "0 < b" "0 \<le> r" using pem_ok_consts(2,3) [OF assms(1)] by (simp_all only: b_def r_def)
    then have "b * ln (x / pp_j0 p) \<le> b * ln (y / pp_j0 p)" "x * r \<le> y * r" using l assms(5) by (simp_all add: mult_left_mono mult_right_mono)
    then show ?thesis unfolding pem_voltage_def b_def [symmetric] r_def [symmetric] using m by simp
  qed
  then have "x * pem_voltage p x < y * pem_voltage p y" using f assms(5) by (intro mult_strict_right_mono [THEN less_le_trans] mult_left_mono) auto
  then have "A * (1 + k) * (x * pem_voltage p x) < A * (1 + k) * (y * pem_voltage p y)" using assms(2,3) by simp
  then show ?thesis by (simp add: pem_load_def algebra_simps)
qed

lemma compiled_step_value:
  assumes "pem_ok p"
  shows "pem_newton_step_c target A B k p tol x = Inr (
    let fx = pem_load A B k p x - target; dfx = pem_slope A B k p x; x1 = x - fx / dfx in
    if \<bar>fx\<bar> < tol then Return x else if dfx = 0 then Break x else Next (if x1 < 1 / 10 ^ 6 then 1 / 10 ^ 6 else x1))"
  unfolding pem_newton_step_c_def pem_power_c_value [OF assms] res_bind.simps Let_def
  by (simp add: cdiv_def pem_slope_def diff_diff_eq2)

lemma compiled_step_stays_beyond:
  assumes "pem_ok p" "0 < A" "0 \<le> k" and "pp_j_lim p \<le> x" "pem_load A B k p (pp_j_lim p) \<le> target"
    and "1 / 10 ^ 6 \<le> pp_j_lim p"
  shows "\<exists>c. pem_newton_step_c target A B k p tol x = Inr c \<and> ctl_all (\<lambda>y. pp_j_lim p \<le> y) (\<lambda>y. pp_j_lim p \<le> y) c"
proof -
  define fx dfx where "fx = pem_load A B k p x - target" and "dfx = pem_slope A B k p x"
  have "pp_j0 p \<le> x" using assms(1,4) by (simp add: pem_ok_def)
  from pem_load_rises [OF assms(1-3) this, of "x + 1 / 10 ^ 5" B] assms(4) have d: "0 < dfx" by (simp add: dfx_def pem_slope_def)
  have "pp_j_lim p \<le> x - fx / dfx"
  proof (cases "fx \<le> 0")
    case True
    then show ?thesis using d assms(4) by (simp add: divide_le_0_iff order_trans)
  next
    case False
    then have x: "pp_j_lim p < x" using assms(4,5) by (cases "x = pp_j_lim p") (auto simp: fx_def)
    have "fx / (x - pp_j_lim p) \<le> (pem_load A B k p x - pem_load A B k p (pp_j_lim p)) / (x - pp_j_lim p)"
      using assms(5) x by (simp add: fx_def divide_right_mono)
    also have "\<dots> \<le> dfx" unfolding dfx_def pem_slope_def by (rule secants_increase [OF assms(1-3) x]) simp
    finally have "fx / (x - pp_j_lim p) \<le> dfx" .
    then have "fx \<le> dfx * (x - pp_j_lim p)" using x by (simp add: field_simps)
    then have "fx / dfx \<le> x - pp_j_lim p" using d by (simp add: field_simps)
    then show ?thesis by simp
  qed
  moreover from this have "\<not> x - fx / dfx < 1 / 10 ^ 6" using assms(6) by linarith
  ultimately show ?thesis
    unfolding compiled_step_value [OF assms(1)] fx_def [symmetric] dfx_def [symmetric] Let_def using assms(4) d by simp
qed

text \<open>
  C19: the compiled power solver has lost the limit on the current density: from any guess below it, for every setpoint
  beyond some power, the Python solver stays below the limit, and the compiled one returns a current density
  at or past the limit, whatever the number of iterations.
\<close>

theorem pem_port_overshoots:
  assumes "pem_ok p" "1 / 10 ^ 6 \<le> pp_j_lim p - 0.01" "0 < A" "0 \<le> k" and "pp_j0 p \<le> guess" "guess \<le> pp_j_lim p - 0.01"
  shows "\<exists>P. \<forall>target \<ge> P. \<forall>n. \<exists>x y. solve_pem_j_jit target A B k guess p (Suc n) tol = Inr x \<and> x \<le> pp_j_lim p - 0.01
    \<and> solve_pem_j_jit_c target A B k guess p (Suc n) tol = Inr y \<and> pp_j_lim p \<le> y"
proof -
  let ?f = "pem_load A B k p" and ?L = "pp_j_lim p"
  define s where "s = pem_slope A B k p guess"
  define P where "P = max (?f ?L) (max (?f guess + \<bar>tol\<bar>) (?f guess + s * (?L - guess)))"
  have s: "0 < s"
    using pem_load_rises [OF assms(1,3,4,5), of "guess + 1 / 10 ^ 5" B] assms(6) by (simp add: s_def pem_slope_def)
  have "\<exists>x y. solve_pem_j_jit target A B k guess p (Suc n) tol = Inr x \<and> x \<le> ?L - 0.01
    \<and> solve_pem_j_jit_c target A B k guess p (Suc n) tol = Inr y \<and> ?L \<le> y" if T: "P \<le> target" for target n
  proof -
    have t: "?f ?L \<le> target" "?f guess + \<bar>tol\<bar> \<le> target" "s * (?L - guess) \<le> target - ?f guess" using T by (simp_all add: P_def)
    define x1 where "x1 = guess - (?f guess - target) / s"
    have "?L - guess \<le> (target - ?f guess) / s" using t(3) s by (simp add: field_simps)
    then have x1: "?L \<le> x1" by (simp add: x1_def diff_divide_distrib)
    have "\<not> \<bar>?f guess - target\<bar> < tol" using t(2) by linarith
    then have first: "pem_newton_step_c target A B k p tol guess = Inr (Next x1)"
      unfolding compiled_step_value [OF assms(1)] s_def [symmetric] Let_def x1_def [symmetric] using s x1 assms(2) by simp
    obtain c where c: "for_from 1 n (\<lambda>_. pem_newton_step_c target A B k p tol) x1 = Inr c" "ctl_all (\<lambda>y. ?L \<le> y) (\<lambda>y. ?L \<le> y) c"
      using for_from_total [of "\<lambda>y. ?L \<le> y" "\<lambda>_. pem_newton_step_c target A B k p tol" "\<lambda>y. ?L \<le> y" x1 1 n]
        compiled_step_stays_beyond [OF assms(1,3,4) _ t(1)] x1 assms(2) by auto
    have "\<exists>y. solve_pem_j_jit_c target A B k guess p (Suc n) tol = Inr y \<and> ?L \<le> y"
      unfolding solve_pem_j_jit_c_def for_from.simps first using c by (cases c) simp_all
    moreover have "\<exists>x. solve_pem_j_jit target A B k guess p (Suc n) tol = Inr x \<and> (x = guess \<or> x \<le> ?L - 0.01)"
    proof -
      obtain d where d: "for_range (Suc n) (\<lambda>_. pem_newton_step target A B k p tol) guess = Inr d"
          "ctl_all (\<lambda>x. x = guess \<or> 1 / 10 ^ 6 \<le> x \<and> x \<le> ?L - 0.01)
            (\<lambda>x. (x = guess \<or> 1 / 10 ^ 6 \<le> x \<and> x \<le> ?L - 0.01) \<and> \<bar>x * A * pem_voltage p x * (1 + k) + B - target\<bar> < tol) d"
        using pem_solver_run [OF assms(1,2)] by blast
      then show ?thesis unfolding solve_pem_j_jit_def d(1) by (cases d) auto
    qed
    ultimately show ?thesis using assms(6) by auto
  qed
  then show ?thesis by blast
qed


theorem pem_port_overshoots_witness:
  "\<exists>target x y. solve_pem_j_jit target 1000000 10000 0.05 1 nominal_pem 50 (1 / 10 ^ 4) = Inr x \<and> x \<le> 4 - 0.01
    \<and> solve_pem_j_jit_c target 1000000 10000 0.05 1 nominal_pem 50 (1 / 10 ^ 4) = Inr y \<and> 4 \<le> y"
proof -
  have r: "1 / 10 ^ 6 \<le> pp_j_lim nominal_pem - 0.01" "pp_j0 nominal_pem \<le> 1" "1 \<le> pp_j_lim nominal_pem - 0.01"
    by (simp_all add: nominal_pem_def)
  obtain P where "\<forall>target \<ge> P. \<forall>n. \<exists>x y. solve_pem_j_jit target 1000000 10000 0.05 1 nominal_pem (Suc n) (1 / 10 ^ 4) = Inr x
      \<and> x \<le> pp_j_lim nominal_pem - 0.01
      \<and> solve_pem_j_jit_c target 1000000 10000 0.05 1 nominal_pem (Suc n) (1 / 10 ^ 4) = Inr y \<and> pp_j_lim nominal_pem \<le> y"
    using pem_port_overshoots [OF nominal_pem_ok r(1) _ _ r(2,3), of 1000000 "0.05" 10000 "1 / 10 ^ 4"] by auto
  then have "\<exists>x y. solve_pem_j_jit P 1000000 10000 0.05 1 nominal_pem (Suc 49) (1 / 10 ^ 4) = Inr x
      \<and> x \<le> pp_j_lim nominal_pem - 0.01
      \<and> solve_pem_j_jit_c P 1000000 10000 0.05 1 nominal_pem (Suc 49) (1 / 10 ^ 4) = Inr y \<and> pp_j_lim nominal_pem \<le> y" by blast
  moreover have e: "Suc 49 = 50" "pp_j_lim nominal_pem = 4" by (simp_all add: nominal_pem_def)
  ultimately show ?thesis unfolding e by blast
qed

end
