(* ===== verification/CyBoiler.thy ===== *)
theory CyBoiler
  imports Cython Boiler
begin

text \<open>
  The compiled electric boiler of \<open>_numba_ops_core.pyx\<close>: outlet enthalpy, the inversion of the property table,
  the flash on the saturation line and the two batch kernels. The last node of the line is found by the
  length of the pressure array in every array, where Python takes the last element of each.
\<close>

section \<open>Kernels\<close>

definition calc_boiler_outlet_enthalpy_c :: "real \<Rightarrow> real \<Rightarrow> real \<Rightarrow> real \<Rightarrow> real res" where
  "calc_boiler_outlet_enthalpy_c h_in_j_kg mass_flow_kg_h power_input_w efficiency =
     (if mass_flow_kg_h \<le> 1 / 10 ^ 6 then Inr h_in_j_kg
      else let q_net_w = power_input_w * efficiency; q_net_j_h = q_net_w * 3600
           in res_bind (cdiv q_net_j_h mass_flow_kg_h) (\<lambda>delta_h. Inr (h_in_j_kg + delta_h)))"

definition calc_boiler_batch_scenario_c :: "real list \<Rightarrow> real list \<Rightarrow> real list \<Rightarrow> real \<Rightarrow> real list res" where
  "calc_boiler_batch_scenario_c h_in_array flow_array power_array efficiency =
     map_res (\<lambda>i. res_bind (cget h_in_array (int i)) (\<lambda>h. res_bind (cget flow_array (int i)) (\<lambda>f.
       res_bind (cget power_array (int i)) (\<lambda>p. calc_boiler_outlet_enthalpy_c h f p efficiency))))
       [0..<length h_in_array]"

definition bracket_weight_c :: "real list \<Rightarrow> int \<Rightarrow> real \<Rightarrow> real res" where
  "bracket_weight_c grid i x =
     res_bind (cget grid (i - 1)) (\<lambda>x0. res_bind (cget grid i) (\<lambda>x1.
       if x1 \<noteq> x0 then cdiv (x - x0) (x1 - x0) else Inr 0))"

definition clamp_to_grid_c :: "real list \<Rightarrow> real \<Rightarrow> real res" where
  "clamp_to_grid_c grid x =
     res_bind (cget grid 0) (\<lambda>lo. res_bind (cget grid (int (length grid) - 1)) (\<lambda>hi. Inr (let x1 = (if x < lo then lo else x) in if x1 > hi then hi else x1)))"

definition bilinear_mix_c :: "ptable \<Rightarrow> int \<Rightarrow> int \<Rightarrow> real \<Rightarrow> real \<Rightarrow> real res" where
  "bilinear_mix_c lut ip it wp wt =
     res_bind (ccell lut (ip - 1) (it - 1)) (\<lambda>v00. res_bind (ccell lut (ip - 1) it) (\<lambda>v01.
     res_bind (ccell lut ip (it - 1)) (\<lambda>v10. res_bind (ccell lut ip it) (\<lambda>v11.
     Inr (v00 * (1 - wp) * (1 - wt) + v10 * wp * (1 - wt) + v01 * (1 - wp) * wt + v11 * wp * wt)))))"

definition table_at_c :: "real list \<Rightarrow> int \<Rightarrow> real \<Rightarrow> real \<Rightarrow> ptable \<Rightarrow> ptable \<Rightarrow> (real \<times> real) res" where
  "table_at_c T_grid ip wp T H_lut C_lut =
     res_bind (clamp_to_grid_c T_grid T) (\<lambda>T_clamped.
     let it0 = bracket_index T_grid T_clamped; it = (if it0 = 0 then 1 else int it0) in
     res_bind (bracket_weight_c T_grid it T_clamped) (\<lambda>wt.
     res_bind (bilinear_mix_c H_lut ip it wp wt) (\<lambda>h_current.
     res_bind (bilinear_mix_c C_lut ip it wp wt) (\<lambda>cp_current. Inr (h_current, cp_current)))))"

definition enthalpy_newton_step_c ::
    "real \<Rightarrow> real list \<Rightarrow> int \<Rightarrow> real \<Rightarrow> ptable \<Rightarrow> ptable \<Rightarrow> real \<Rightarrow> real \<Rightarrow> real \<Rightarrow> (real, real) ctl res" where
  "enthalpy_newton_step_c h_target T_grid ip wp H_lut C_lut cp_default tol T =
     res_bind (table_at_c T_grid ip wp T H_lut C_lut) (\<lambda>(h_current, cp_current0).
     let cp_current = (if cp_current0 < 100 then cp_default else cp_current0);
         residual = h_target - h_current
     in res_bind (cdiv residual cp_current) (\<lambda>dT.
        let T1 = T + dT; T2 = (if T1 < 273.15 then 273.15 else T1); T_new = (if T2 > 1200 then 1200 else T2) in
        Inr (if \<bar>T_new - T\<bar> < tol then Return T_new else Next T_new)))"

definition solve_temperature_from_enthalpy_jit_c ::
    "real \<Rightarrow> real \<Rightarrow> real \<Rightarrow> real list \<Rightarrow> real list \<Rightarrow> ptable \<Rightarrow> ptable \<Rightarrow> real \<Rightarrow> real \<Rightarrow> nat \<Rightarrow> real res" where
  "solve_temperature_from_enthalpy_jit_c h_target pressure_pa T_guess P_grid T_grid H_lut C_lut cp_default tol max_iter =
     res_bind (clamp_to_grid_c P_grid pressure_pa) (\<lambda>P_clamped.
     let ip0 = bracket_index P_grid P_clamped; ip = (if ip0 = 0 then 1 else int ip0) in
     res_bind (bracket_weight_c P_grid ip P_clamped) (\<lambda>wp.
     res_bind (for_range max_iter (\<lambda>_. enthalpy_newton_step_c h_target T_grid ip wp H_lut C_lut cp_default tol) T_guess)
       (\<lambda>c. case c of Next T \<Rightarrow> Inr T | Break T \<Rightarrow> Inr T | Return T \<Rightarrow> Inr T)))"

definition saturation_node_c :: "saturation_line \<Rightarrow> int \<Rightarrow> (real \<times> real \<times> real) res" where
  "saturation_node_c sat i =
     res_bind (cget (sat_T_grid sat) i) (\<lambda>t. res_bind (cget (sat_H_liq sat) i) (\<lambda>l.
     res_bind (cget (sat_H_vap sat) i) (\<lambda>v. Inr (t, l, v))))"

definition saturation_at_c :: "saturation_line \<Rightarrow> real \<Rightarrow> (real \<times> real \<times> real) res" where
  "saturation_at_c sat pressure_pa =
     res_bind (cget (sat_P_grid sat) 0) (\<lambda>P_min. res_bind (cget (sat_P_grid sat) (int (length (sat_P_grid sat)) - 1)) (\<lambda>P_max.
     if pressure_pa \<le> P_min then saturation_node_c sat 0
     else if pressure_pa \<ge> P_max then saturation_node_c sat (int (length (sat_P_grid sat)) - 1)
     else let idx = int (bracket_index (sat_P_grid sat) pressure_pa) in
          res_bind (bracket_weight_c (sat_P_grid sat) idx pressure_pa) (\<lambda>w.
          res_bind (saturation_node_c sat (idx - 1)) (\<lambda>(t0, l0, v0). res_bind (saturation_node_c sat idx) (\<lambda>(t1, l1, v1).
          Inr (t0 * (1 - w) + t1 * w, l0 * (1 - w) + l1 * w, v0 * (1 - w) + v1 * w))))))"

definition calc_boiler_flash_jit_c ::
    "real \<Rightarrow> real \<Rightarrow> saturation_line \<Rightarrow> real list \<Rightarrow> real list \<Rightarrow> ptable \<Rightarrow> ptable \<Rightarrow> (real \<times> real \<times> int) res" where
  "calc_boiler_flash_jit_c h_out pressure_pa sat P_grid T_grid H_lut C_lut =
     res_bind (saturation_at_c sat pressure_pa) (\<lambda>(t_sat, h_sat_liq, h_sat_vap).
     if h_out < h_sat_liq then
       res_bind (solve_temperature_from_enthalpy_jit_c h_out pressure_pa (t_sat - 10) P_grid T_grid H_lut C_lut 4180 0.01 20)
         (\<lambda>T_out. Inr (T_out, 0, 0))
     else if h_out > h_sat_vap then
       res_bind (solve_temperature_from_enthalpy_jit_c h_out pressure_pa (t_sat + 10) P_grid T_grid H_lut C_lut 2080 0.01 20)
         (\<lambda>T_out. Inr (T_out, 1, 2))
     else let denom = h_sat_vap - h_sat_liq in
       res_bind (if denom > 1 / 10 ^ 6 then cdiv (h_out - h_sat_liq) denom else Inr 0) (\<lambda>vapor_frac.
       Inr (t_sat, vapor_frac, 1)))"

definition boiler_point_c ::
    "real \<Rightarrow> real \<Rightarrow> real \<Rightarrow> real \<Rightarrow> real \<Rightarrow> real \<Rightarrow> bool \<Rightarrow> saturation_line \<Rightarrow> real list \<Rightarrow> real list \<Rightarrow> ptable \<Rightarrow> ptable
      \<Rightarrow> real \<Rightarrow> (real \<times> real \<times> real \<times> int) res" where
  "boiler_point_c h_in flow power_w pressure T_in efficiency is_water sat P_grid T_grid H_lut C_lut cp_gas =
     res_bind (calc_boiler_outlet_enthalpy_c h_in flow power_w efficiency) (\<lambda>h_out.
     if is_water then
       res_bind (calc_boiler_flash_jit_c h_out pressure sat P_grid T_grid H_lut C_lut) (\<lambda>(T_out, vapor_frac, phase).
       Inr (h_out, T_out, vapor_frac, phase))
     else res_bind (cdiv (h_out - h_in) cp_gas) (\<lambda>dT. Inr (h_out, T_in + dT, 0, 2)))"

definition calc_boiler_batch_full_c ::
    "real list \<Rightarrow> real list \<Rightarrow> real list \<Rightarrow> real list \<Rightarrow> real list \<Rightarrow> real \<Rightarrow> bool \<Rightarrow> saturation_line \<Rightarrow> real list
      \<Rightarrow> real list \<Rightarrow> ptable \<Rightarrow> ptable \<Rightarrow> real \<Rightarrow> (real \<times> real \<times> real \<times> int) list res" where
  "calc_boiler_batch_full_c h_in_array flow_array power_array pressure_array T_in_array efficiency is_water sat
      P_grid T_grid H_lut C_lut cp_gas =
     map_res (\<lambda>i. res_bind (cget h_in_array (int i)) (\<lambda>h. res_bind (cget flow_array (int i)) (\<lambda>f.
       res_bind (cget power_array (int i)) (\<lambda>p. res_bind (cget pressure_array (int i)) (\<lambda>pr.
       res_bind (cget T_in_array (int i)) (\<lambda>T_in.
       boiler_point_c h f p pr T_in efficiency is_water sat P_grid T_grid H_lut C_lut cp_gas))))))
       [0..<length h_in_array]"

section \<open>Agreement\<close>

lemma outlet_enthalpy_boiler_compiles:
  "compiles (calc_boiler_outlet_enthalpy_c h m P e) (calc_boiler_outlet_enthalpy h m P e)"
  unfolding calc_boiler_outlet_enthalpy_c_def calc_boiler_outlet_enthalpy_def Let_def by (intro compile refl)

lemma batch_scenario_compiles:
  "compiles (calc_boiler_batch_scenario_c hs ms Ps e) (calc_boiler_batch_scenario hs ms Ps e)"
  unfolding calc_boiler_batch_scenario_c_def calc_boiler_batch_scenario_def
  by (intro compile outlet_enthalpy_boiler_compiles) auto

lemma bracket_weight_compiles [compile]: "1 \<le> i \<Longrightarrow> compiles (bracket_weight_c g i x) (bracket_weight g i x)"
  unfolding bracket_weight_c_def bracket_weight_def by (intro compile refl) auto

lemma clamp_to_grid_compiles [compile]: "compiles (clamp_to_grid_c g x) (clamp_to_grid g x)"
proof -
  have "(let x1 = (if x < lo then lo else x) in if x1 > hi then hi else x1) = min (max x lo) hi" for lo hi :: real
    by (auto simp: Let_def min_def max_def)
  then show ?thesis unfolding clamp_to_grid_c_def clamp_to_grid_def by (simp only:) (intro compile order_refl)
qed

lemma bilinear_mix_compiles [compile]:
  "1 \<le> ip \<Longrightarrow> 1 \<le> it \<Longrightarrow> compiles (bilinear_mix_c lut ip it wp wt) (bilinear_mix lut ip it wp wt)"
  unfolding bilinear_mix_c_def bilinear_mix_def by (intro compile) auto

lemma table_at_compiles [compile]:
  "1 \<le> ip \<Longrightarrow> compiles (table_at_c T_grid ip wp T H C) (table_at T_grid ip wp T H C)"
  unfolding table_at_c_def table_at_def Let_def by (intro compile) auto

lemma enthalpy_step_compiles [compile]:
  assumes "1 \<le> ip"
  shows "compiles (enthalpy_newton_step_c h T_grid ip wp H C cp tol T) (enthalpy_newton_step h T_grid ip wp H C cp tol T)"
proof -
  have m: "(let T2 = (if T1 < 273.15 then 273.15 else T1) in if T2 > 1200 then 1200 else T2) = min (max T1 273.15) 1200" for T1 :: real
    by (auto simp: Let_def min_def max_def)
  show ?thesis unfolding enthalpy_newton_step_c_def enthalpy_newton_step_def Let_def m [unfolded Let_def]
    by (intro compile assms refl)
qed

lemma temperature_inversion_compiles:
  "compiles (solve_temperature_from_enthalpy_jit_c h p T P_grid T_grid H C cp tol n)
     (solve_temperature_from_enthalpy_jit h p T P_grid T_grid H C cp tol n)"
  unfolding solve_temperature_from_enthalpy_jit_c_def solve_temperature_from_enthalpy_jit_def Let_def
  by (intro compile) auto

definition aligned :: "saturation_line \<Rightarrow> bool" where
  "aligned sat \<longleftrightarrow> length (sat_T_grid sat) = length (sat_P_grid sat) \<and> length (sat_H_liq sat) = length (sat_P_grid sat)
     \<and> length (sat_H_vap sat) = length (sat_P_grid sat)"

lemma saturation_node_compiles [compile]: "0 \<le> i \<Longrightarrow> compiles (saturation_node_c sat i) (saturation_node sat i)"
  unfolding saturation_node_c_def saturation_node_def by (intro compile) auto

lemma last_saturation_node_compiles:
  assumes "aligned sat"
  shows "compiles (saturation_node_c sat (int (length (sat_P_grid sat)) - 1)) (saturation_node sat (- 1))"
proof -
  have l: "int (length (sat_P_grid sat)) - 1 = int (length (sat_T_grid sat)) - 1"
    "int (length (sat_P_grid sat)) - 1 = int (length (sat_H_liq sat)) - 1"
    "int (length (sat_P_grid sat)) - 1 = int (length (sat_H_vap sat)) - 1" using assms by (auto simp: aligned_def)
  show ?thesis unfolding saturation_node_c_def saturation_node_def
    by (intro compile compiles_cget_last [of "sat_T_grid sat", folded l] compiles_cget_last [of "sat_H_liq sat", folded l]
        compiles_cget_last [of "sat_H_vap sat", folded l])
qed

lemma bracket_found:
  assumes "aget g 0 = Inr a" "aget g (- 1) = Inr b" "a < x" "x < b"
  shows "1 \<le> bracket_index g x"
proof -
  have g: "g \<noteq> []" "a = g ! 0" "b = g ! (length g - 1)"
  proof -
    have "nat (int (length g) - 1) = length g - 1" by linarith
    then show "g \<noteq> []" "a = g ! 0" "b = g ! (length g - 1)"
      using assms(1,2) by (auto simp: aget_def py_index_def Let_def split: if_splits)
  qed
  then have "1 \<le> length g - 1" using assms(3,4) by (cases "length g - 1") auto
  then have "\<exists>i \<in> set [1..<length g]. x \<le> g ! i" using assms(4) g by (intro bexI [of _ "length g - 1"]) auto
  then obtain i where i: "find (\<lambda>idx. x \<le> g ! idx) [1..<length g] = Some i"
    by (cases "find (\<lambda>idx. x \<le> g ! idx) [1..<length g]") (auto simp: find_None_iff)
  then have "1 \<le> i" by (auto simp: find_Some_iff)
  then show ?thesis unfolding bracket_index_def i by simp
qed

lemma saturation_at_compiles:
  assumes "aligned sat"
  shows "compiles (saturation_at_c sat p) (saturation_at sat p)"
  unfolding saturation_at_c_def saturation_at_def Let_def
  by (intro compile last_saturation_node_compiles assms) (use bracket_found in \<open>fastforce simp: not_le\<close>)+

lemma boiler_flash_compiles:
  assumes "aligned sat"
  shows "compiles (calc_boiler_flash_jit_c h p sat P_grid T_grid H C) (calc_boiler_flash_jit h p sat P_grid T_grid H C)"
  unfolding calc_boiler_flash_jit_c_def calc_boiler_flash_jit_def Let_def
  by (intro compile saturation_at_compiles assms temperature_inversion_compiles refl)

lemma boiler_batch_compiles:
  assumes "aligned sat"
  shows "compiles (calc_boiler_batch_full_c hs ms Ps ps Ts e w sat P_grid T_grid H C cp)
    (calc_boiler_batch_full hs ms Ps ps Ts e w sat P_grid T_grid H C cp)"
  unfolding calc_boiler_batch_full_c_def calc_boiler_batch_full_def boiler_point_c_def boiler_point_def
  by (intro compile outlet_enthalpy_boiler_compiles boiler_flash_compiles assms) auto

end
