(* ===== verification/CyCompression.thy ===== *)
theory CyCompression
  imports CyLookup CyBoiler Compression
begin

text \<open>
  The compiled compression kernels of \<open>_numba_ops_core.pyx\<close>, single gas and mixture, and the search for the
  pressure a temperature limit allows.
\<close>

section \<open>Kernels\<close>

definition calculate_compression_realgas_jit_c ::
    "real \<Rightarrow> real \<Rightarrow> real \<Rightarrow> real \<Rightarrow> gas_tables \<Rightarrow> (real \<times> real \<times> real) res" where
  "calculate_compression_realgas_jit_c p_in_pa p_out_pa T_in_k efficiency g =
     res_bind (bilinear_interp_jit_c (gt_P_grid g) (gt_T_grid g) (gt_S_lut g) p_in_pa T_in_k) (\<lambda>s_in.
     res_bind (bilinear_interp_jit_c (gt_P_grid g) (gt_T_grid g) (gt_H_lut g) p_in_pa T_in_k) (\<lambda>h_in.
     res_bind (bilinear_interp_jit_c (gt_P_grid g) (gt_S_grid g) (gt_H_from_PS_lut g) p_out_pa s_in) (\<lambda>h_out_isen.
     let w_isen = h_out_isen - h_in in
     res_bind (cdiv w_isen efficiency) (\<lambda>w_actual.
     let h_out_actual = h_in + w_actual; gamma = 1.41; exponent = (gamma - 1) / gamma in
     res_bind (cdiv p_out_pa p_in_pa) (\<lambda>ratio. res_bind (fpow ratio exponent) (\<lambda>f.
     let T0 = T_in_k * f; T1 = (if T0 < 273.15 then 273.15 else T0); T_guess = (if T1 > 1200 then 1200 else T1) in
     res_bind (solve_temperature_from_enthalpy_jit_c h_out_actual p_out_pa T_guess (gt_P_grid g) (gt_T_grid g)
         (gt_H_lut g) (gt_C_lut g) 4180 0.01 20) (\<lambda>T_out_k.
     Inr (w_actual, T_out_k, h_out_actual))))))))"

definition mix_enthalpy_at_c :: "gas_mixture \<Rightarrow> real \<Rightarrow> real \<Rightarrow> real res" where
  "mix_enthalpy_at_c mx p T =
     res_bind (get_interp_weights_jit_c (mx_P_grid mx) (mx_T_grid mx) p T) (\<lambda>(ix, iy, wx, wy).
     get_mix_enthalpy_fast_jit_c (mx_H_luts mx) (mx_weights mx) ix iy wx wy)"

definition mix_entropy_at_c :: "gas_mixture \<Rightarrow> real \<Rightarrow> real \<Rightarrow> real res" where
  "mix_entropy_at_c mx p T =
     res_bind (get_interp_weights_jit_c (mx_P_grid mx) (mx_T_grid mx) p T) (\<lambda>(ix, iy, wx, wy).
     get_mix_entropy_fast_jit_c (mx_S_luts mx) (mx_weights mx) (mx_M_mix_kg_mol mx) (mx_sum_ylny mx) ix iy wx wy)"

definition mix_cp_at_c :: "gas_mixture \<Rightarrow> real \<Rightarrow> real \<Rightarrow> real res" where
  "mix_cp_at_c mx p T =
     res_bind (get_interp_weights_jit_c (mx_P_grid mx) (mx_T_grid mx) p T) (\<lambda>(ix, iy, wx, wy).
     res_bind (get_mix_cp_jit_c (mx_C_luts mx) (mx_weights mx) ix iy wx wy) (\<lambda>cp.
     Inr (if \<bar>cp\<bar> < 1 / 10 ^ 9 then 14000 else cp)))"

definition isentropic_step_c ::
    "gas_mixture \<Rightarrow> real \<Rightarrow> real \<Rightarrow> real \<Rightarrow> real \<Rightarrow> real \<Rightarrow> real \<Rightarrow> (real, unit) ctl res" where
  "isentropic_step_c mx p_out_pa s_in tol max_dT T_cap T_guess =
     res_bind (mix_entropy_at_c mx p_out_pa T_guess) (\<lambda>s_guess.
     let diff = s_guess - s_in in
     if \<bar>diff\<bar> < tol then Inr (Break T_guess)
     else res_bind (mix_cp_at_c mx p_out_pa T_guess) (\<lambda>cp_mix.
       res_bind (cdiv cp_mix T_guess) (\<lambda>ds_dt. res_bind (cdiv diff ds_dt) (\<lambda>delta_T.
       Inr (Next (hold 100 T_cap (T_guess - limit_step max_dT delta_T)))))))"

definition isentropic_work_c ::
    "gas_mixture \<Rightarrow> nat \<Rightarrow> real \<Rightarrow> real \<Rightarrow> real \<Rightarrow> real \<Rightarrow> real \<Rightarrow> real \<Rightarrow> real \<Rightarrow> (real \<times> real \<times> real) res" where
  "isentropic_work_c mx n tol max_dT T_cap p_in_pa p_out_pa T_in_k efficiency =
     res_bind (mix_entropy_at_c mx p_in_pa T_in_k) (\<lambda>s_in.
     res_bind (mix_enthalpy_at_c mx p_in_pa T_in_k) (\<lambda>h_in.
     res_bind (cdiv p_out_pa p_in_pa) (\<lambda>ratio. res_bind (fpow ratio 0.286) (\<lambda>f.
     res_bind (for_range n (\<lambda>_. isentropic_step_c mx p_out_pa s_in tol max_dT T_cap) (hold 200 1200 (T_in_k * f))) (\<lambda>c.
     res_bind (loop_state c) (\<lambda>T_guess.
     res_bind (mix_enthalpy_at_c mx p_out_pa T_guess) (\<lambda>h_out_isen.
     let w_isen = h_out_isen - h_in in
     res_bind (cdiv w_isen efficiency) (\<lambda>w_actual. Inr (w_actual, T_guess, h_in + w_actual)))))))))"

definition match_step_c :: "gas_mixture \<Rightarrow> real \<Rightarrow> real \<Rightarrow> real \<Rightarrow> (real, unit) ctl res" where
  "match_step_c mx p_out_pa h_out_actual T_act =
     res_bind (mix_enthalpy_at_c mx p_out_pa T_act) (\<lambda>h_val.
     res_bind (mix_cp_at_c mx p_out_pa T_act) (\<lambda>cp_val.
     let diff = h_val - h_out_actual in
     if \<bar>diff\<bar> < 1 then Inr (Break T_act)
     else res_bind (cdiv diff cp_val) (\<lambda>delta_T.
       Inr (Next (hold 100 2000 (T_act - limit_step 50 delta_T))))))"

definition calculate_mixture_compression_jit_c ::
    "real \<Rightarrow> real \<Rightarrow> real \<Rightarrow> real \<Rightarrow> gas_mixture \<Rightarrow> (real \<times> real \<times> real) res" where
  "calculate_mixture_compression_jit_c p_in_pa p_out_pa T_in_k efficiency mx =
     res_bind (isentropic_work_c mx 8 (1 / 10 ^ 4) 50 2000 p_in_pa p_out_pa T_in_k efficiency) (\<lambda>(w_actual, T_guess, h_out_actual).
     res_bind (for_range 8 (\<lambda>_. match_step_c mx p_out_pa h_out_actual) T_guess) (\<lambda>c.
     res_bind (loop_state c) (\<lambda>T_act. Inr (w_actual, T_act, h_out_actual))))"

definition light_match_step_c :: "gas_mixture \<Rightarrow> real \<Rightarrow> real \<Rightarrow> real \<Rightarrow> (real, unit) ctl res" where
  "light_match_step_c mx p_out_pa h_out_actual T_act =
     res_bind (mix_enthalpy_at_c mx p_out_pa T_act) (\<lambda>h_val.
     let diff = h_val - h_out_actual in
     if \<bar>diff\<bar> < 10 then Inr (Break T_act)
     else res_bind (mix_cp_at_c mx p_out_pa T_act) (\<lambda>cp_val. res_bind (cdiv diff cp_val) (\<lambda>delta_T.
       Inr (Next (hold 100 2000 (T_act - limit_step 30 delta_T))))))"

definition compute_T_out_for_P_jit_c :: "real \<Rightarrow> real \<Rightarrow> real \<Rightarrow> real \<Rightarrow> gas_mixture \<Rightarrow> real res" where
  "compute_T_out_for_P_jit_c p_in_pa p_out_pa T_in_k efficiency mx =
     res_bind (isentropic_work_c mx 6 (1 / 10 ^ 3) 30 1500 p_in_pa p_out_pa T_in_k efficiency) (\<lambda>(_, T_guess, h_out_actual).
     res_bind (for_range 6 (\<lambda>_. light_match_step_c mx p_out_pa h_out_actual) T_guess) loop_state)"

definition limit_bisect_step_c ::
    "(real \<Rightarrow> real res) \<Rightarrow> real \<Rightarrow> real \<times> real \<Rightarrow> (real \<times> real, unit) ctl res" where
  "limit_bisect_step_c T_out T_max_k bracket = (case bracket of (p_low, p_high) \<Rightarrow>
     let p_mid = (p_low + p_high) * 0.5 in
     res_bind (T_out p_mid) (\<lambda>T_mid.
     let p_low' = (if T_mid \<le> T_max_k then p_mid else p_low);
         p_high' = (if T_mid \<le> T_max_k then p_high else p_mid)
     in res_bind (cdiv \<bar>p_high' - p_low'\<bar> p_low') (\<lambda>gap.
        Inr (if gap < 0.001 then Break (p_low', p_high') else Next (p_low', p_high')))))"

definition solve_temp_limited_pressure_jit_c ::
    "real \<Rightarrow> real \<Rightarrow> real \<Rightarrow> real \<Rightarrow> real \<Rightarrow> gas_mixture \<Rightarrow> (real \<times> real \<times> real) res" where
  "solve_temp_limited_pressure_jit_c p_in_pa p_max_pa T_in_k T_max_k efficiency mx =
     res_bind (compute_T_out_for_P_jit_c p_in_pa p_max_pa T_in_k efficiency mx) (\<lambda>T_at_max.
     if T_at_max \<le> T_max_k then
       res_bind (calculate_mixture_compression_jit_c p_in_pa p_max_pa T_in_k efficiency mx) (\<lambda>(w_act, T_out, _).
       Inr (p_max_pa, T_out, w_act))
     else
       res_bind (for_range 25 (\<lambda>_. limit_bisect_step_c (\<lambda>p. compute_T_out_for_P_jit_c p_in_pa p T_in_k efficiency mx) T_max_k)
           (p_in_pa, p_max_pa)) (\<lambda>c.
       res_bind (loop_state c) (\<lambda>(p_out_final, _).
       res_bind (calculate_mixture_compression_jit_c p_in_pa p_out_final T_in_k efficiency mx) (\<lambda>(w_act, T_out, _).
       Inr (p_out_final, T_out, w_act)))))"

section \<open>Agreement\<close>

lemma realgas_compiles:
  assumes "sorted_grid (gt_P_grid g)" "sorted_grid (gt_T_grid g)" "sorted_grid (gt_S_grid g)"
  shows "compiles (calculate_compression_realgas_jit_c p1 p2 T e g) (calculate_compression_realgas_jit p1 p2 T e g)"
proof -
  have m: "(if (if a < 273.15 then 273.15 else a) > 1200 then 1200 else if a < 273.15 then 273.15 else a) = max 273.15 (min a 1200)"
    for a :: real by (auto simp: min_def max_def)
  show ?thesis
    unfolding calculate_compression_realgas_jit_c_def calculate_compression_realgas_jit_def Let_def m
    by (intro compile bilinear_interp_compiles temperature_inversion_compiles assms)
qed

lemma mix_at_compiles:
  assumes "sorted_grid (mx_P_grid mx)" "sorted_grid (mx_T_grid mx)"
  shows "compiles (mix_enthalpy_at_c mx p T) (mix_enthalpy_at mx p T)"
    "compiles (mix_entropy_at_c mx p T) (mix_entropy_at mx p T)"
    "compiles (mix_cp_at_c mx p T) (mix_cp_at mx p T)"
proof -
  note r = get_interp_weights_range [OF assms]
  show "compiles (mix_enthalpy_at_c mx p T) (mix_enthalpy_at mx p T)"
    unfolding mix_enthalpy_at_c_def mix_enthalpy_at_def by (intro compile get_interp_weights_compiles assms) (auto intro: r)
  show "compiles (mix_entropy_at_c mx p T) (mix_entropy_at mx p T)"
    unfolding mix_entropy_at_c_def mix_entropy_at_def by (intro compile get_interp_weights_compiles assms) (auto intro: r)
  show "compiles (mix_cp_at_c mx p T) (mix_cp_at mx p T)"
    unfolding mix_cp_at_c_def mix_cp_at_def by (intro compile get_interp_weights_compiles assms) (auto intro: r)
qed

lemma isentropic_work_compiles:
  assumes "sorted_grid (mx_P_grid mx)" "sorted_grid (mx_T_grid mx)"
  shows "compiles (isentropic_work_c mx n tol dT T_cap p1 p2 T e) (isentropic_work mx n tol dT T_cap p1 p2 T e)"
  unfolding isentropic_work_c_def isentropic_work_def isentropic_step_c_def isentropic_step_def Let_def
  by (intro compile mix_at_compiles assms refl)

lemma mixture_compression_compiles:
  assumes "sorted_grid (mx_P_grid mx)" "sorted_grid (mx_T_grid mx)"
  shows "compiles (calculate_mixture_compression_jit_c p1 p2 T e mx) (calculate_mixture_compression_jit p1 p2 T e mx)"
  unfolding calculate_mixture_compression_jit_c_def calculate_mixture_compression_jit_def match_step_c_def match_step_def Let_def
  by (intro compile isentropic_work_compiles mix_at_compiles assms refl)

lemma T_out_compiles:
  assumes "sorted_grid (mx_P_grid mx)" "sorted_grid (mx_T_grid mx)"
  shows "compiles (compute_T_out_for_P_jit_c p1 p2 T e mx) (compute_T_out_for_P_jit p1 p2 T e mx)"
  unfolding compute_T_out_for_P_jit_c_def compute_T_out_for_P_jit_def light_match_step_c_def light_match_step_def Let_def
  by (intro compile isentropic_work_compiles mix_at_compiles assms refl)

lemma limit_search_compiles:
  assumes "sorted_grid (mx_P_grid mx)" "sorted_grid (mx_T_grid mx)"
  shows "compiles (solve_temp_limited_pressure_jit_c p1 p2 T Tm e mx) (solve_temp_limited_pressure_jit p1 p2 T Tm e mx)"
  unfolding solve_temp_limited_pressure_jit_c_def solve_temp_limited_pressure_jit_def limit_bisect_step_c_def
    limit_bisect_step_def Let_def
  by (intro compile mixture_compression_compiles T_out_compiles assms refl)

text \<open>
  The compiled compressors and boiler agree with the Python ones on sorted property grids and a saturation line
  with arrays of one length: the mixture compressor returns in both, with the same work, outlet
  temperature and enthalpy, and whenever the Python single-gas compressor, limited-pressure search or
  boiler batch returns, the compiled one returns the same and touches nothing outside its arrays.
\<close>

theorem compiled_compression_agrees:
  assumes "sorted_grid (gt_P_grid g)" "sorted_grid (gt_T_grid g)" "sorted_grid (gt_S_grid g)" and "mixture_ok mx"
    and "aligned sat" and "0 < p1" "0 < p2" "e \<noteq> 0"
  shows "\<exists>w T_out h. calculate_mixture_compression_jit p1 p2 T e mx = Inr (w, T_out, h)
    \<and> calculate_mixture_compression_jit_c p1 p2 T e mx = Inr (w, T_out, h)
    \<and> compiles (calculate_compression_realgas_jit_c p1 p2 T e g) (calculate_compression_realgas_jit p1 p2 T e g)
    \<and> compiles (solve_temp_limited_pressure_jit_c p1 p2 T T_max e mx) (solve_temp_limited_pressure_jit p1 p2 T T_max e mx)
    \<and> compiles (calc_boiler_batch_full_c hs ms Ps ps Ts eta w_boiler sat P_grid T_grid H C cp)
        (calc_boiler_batch_full hs ms Ps ps Ts eta w_boiler sat P_grid T_grid H C cp)"
proof -
  have mx: "sorted_grid (mx_P_grid mx)" "sorted_grid (mx_T_grid mx)" using assms(4) by (simp_all add: mixture_ok_def)
  obtain w T_out h where m: "calculate_mixture_compression_jit p1 p2 T e mx = Inr (w, T_out, h)"
    using mixture_compression_total [OF assms(4,6,7,8)] by blast
  show ?thesis
    by (intro exI [of _ w] exI [of _ T_out] exI [of _ h] conjI m compilesD [OF mixture_compression_compiles [OF mx] m] realgas_compiles limit_search_compiles
        boiler_batch_compiles assms mx)
qed

theorem compiled_compression_agrees_witness:
  "\<exists>w T h. calculate_mixture_compression_jit_c 100000 3000000 300 0.75 demo_mixture = Inr (w, T, h)
     \<and> calculate_mixture_compression_jit 100000 3000000 300 0.75 demo_mixture = Inr (w, T, h)"
proof -
  define g where "g = \<lparr>gt_P_grid = [1, 2], gt_T_grid = [1, 2], gt_S_grid = [1, 2], gt_H_lut = [], gt_S_lut = [],
      gt_C_lut = [], gt_H_from_PS_lut = []\<rparr>"
  have g: "sorted_grid (gt_P_grid g)" "sorted_grid (gt_T_grid g)" "sorted_grid (gt_S_grid g)"
    by (simp_all add: g_def sorted_grid_def)
  have s: "aligned \<lparr>sat_P_grid = [], sat_T_grid = [], sat_H_liq = [], sat_H_vap = []\<rparr>" by (simp add: aligned_def)
  have p: "(0 :: real) < 100000" "(0 :: real) < 3000000" "(0.75 :: real) \<noteq> 0" by simp_all
  from compiled_compression_agrees [OF g demo_mixture_ok s p] show ?thesis by blast
qed

end
