(* ===== verification/CyReactor.thy ===== *)
theory CyReactor
  imports Cython Deoxo Soec
begin

text \<open>
  The compiled deoxidation reactor and electrolyser dispatch of \<open>_numba_ops_core.pyx\<close>. The Runge-Kutta stages are
  written out in the loops; here each is one application of the gradient. The dispatch converts to C
  ints, and writes one module past the end where the Python kernel raises an index error.
\<close>

section \<open>Deoxidation reactor\<close>

definition reaction_rate_c :: "reactor \<Rightarrow> real \<Rightarrow> real \<Rightarrow> real \<Rightarrow> real \<Rightarrow> real res" where
  "reaction_rate_c rx k0 y_o2 x_c t_c =
     res_bind (cdiv (- rx_Ea rx) (rx_R rx * t_c)) (\<lambda>e.
     let k_eff = k0 * exp e; y0 = y_o2 * (1 - x_c); y_loc = (if y0 < 0 then 0 else y0)
     in res_bind (cdiv (rx_P_in_pa rx * y_loc) (rx_R rx * t_c)) (\<lambda>C_o2. Inr (k_eff * C_o2)))"

definition get_grads_local_c ::
    "reactor \<Rightarrow> real \<Rightarrow> real \<Rightarrow> real \<Rightarrow> real \<Rightarrow> real \<times> real \<Rightarrow> (real \<times> real) res" where
  "get_grads_local_c rx k0 U_a y_o2 F_o2_in state = (case state of (x_c, t_c) \<Rightarrow>
     res_bind (cdiv (rx_Area rx) (rx_molar_flow_total rx * rx_Cp_mix rx)) (\<lambda>q.
     if x_c \<ge> 1 then Inr (0, q * (- U_a * (t_c - rx_T_jacket rx)))
     else res_bind (reaction_rate_c rx k0 y_o2 x_c t_c) (\<lambda>r.
       res_bind (cdiv (rx_Area rx) F_o2_in) (\<lambda>a.
       let gen = - rx_delta_H rx * r; rem = U_a * (t_c - rx_T_jacket rx)
       in Inr (a * r, q * (gen - rem))))))"

definition rk4_step_c ::
    "reactor \<Rightarrow> real \<Rightarrow> real \<Rightarrow> real \<Rightarrow> real \<Rightarrow> real \<Rightarrow> real \<times> real \<Rightarrow> (real \<times> real) res" where
  "rk4_step_c rx k0 U_a y_o2 F_o2_in dL state = (case state of (X, T) \<Rightarrow>
     let grads = get_grads_local_c rx k0 U_a y_o2 F_o2_in in
     res_bind (grads (X, T)) (\<lambda>(k1_X, k1_T).
     res_bind (grads (X + 0.5 * dL * k1_X, T + 0.5 * dL * k1_T)) (\<lambda>(k2_X, k2_T).
     res_bind (grads (X + 0.5 * dL * k2_X, T + 0.5 * dL * k2_T)) (\<lambda>(k3_X, k3_T).
     res_bind (grads (X + dL * k3_X, T + dL * k3_T)) (\<lambda>(k4_X, k4_T).
     Inr (X + (dL / 6) * (k1_X + 2 * k2_X + 2 * k3_X + k4_X), T + (dL / 6) * (k1_T + 2 * k2_T + 2 * k3_T + k4_T)))))))"

definition adaptive_dL_c :: "real \<Rightarrow> real \<Rightarrow> real \<times> real \<Rightarrow> real res" where
  "adaptive_dL_c L_total L_curr est = (case est of (dx_est, dt_est) \<Rightarrow>
     res_bind (if dx_est > 1 / 10 ^ 9 then cdiv 0.005 dx_est else Inr (L_total * 0.1)) (\<lambda>dL_target.
     res_bind (if \<bar>dt_est\<bar> > 1 / 10 ^ 9 then res_bind (cdiv 5 \<bar>dt_est\<bar>) (\<lambda>dL_temp. Inr (if dL_temp < dL_target then dL_temp else dL_target))
               else Inr dL_target) (\<lambda>dL_target'.
     let dL = (if dL_target' < L_total - L_curr then dL_target' else L_total - L_curr)
     in Inr (if dL < 1 / 10 ^ 6 then 1 / 10 ^ 6 else dL))))"

definition pfr_body_c ::
    "reactor \<Rightarrow> real \<Rightarrow> real \<Rightarrow> real \<Rightarrow> real \<Rightarrow> real \<Rightarrow> pfr_state \<Rightarrow> (pfr_state, unit) ctl res" where
  "pfr_body_c rx k0 U_a y_o2_in y_o2_target L_total s =
     (let F_o2_in = rx_molar_flow_total rx * y_o2_in; X = pf_X s; T = pf_T s in
      if pf_L s \<ge> L_total then Inr (Break s)
      else if y_o2_target > 0 \<and> y_o2_in * (1 - X) \<le> y_o2_target then
        res_bind (if U_a > 0 then res_bind (cdiv (rx_Area rx) (rx_molar_flow_total rx * rx_Cp_mix rx)) (\<lambda>q.
                    Inr (q * (- U_a * (T - rx_T_jacket rx)))) else Inr 0) (\<lambda>dt_est.
        let d = L_total - pf_L s; dL = (if d > L_total / 100 then L_total / 100 else d) in
        Inr (Next (record_history (s\<lparr>pf_T := T + dt_est * dL, pf_L := pf_L s + dL\<rparr>))))
      else
        res_bind (get_grads_local_c rx k0 U_a y_o2_in F_o2_in (X, T)) (\<lambda>est.
        res_bind (adaptive_dL_c L_total (pf_L s) est) (\<lambda>dL.
        res_bind (rk4_step_c rx k0 U_a y_o2_in F_o2_in dL (X, T)) (\<lambda>(X_next, T_next).
        Inr (Next (record_history (s\<lparr>pf_X := (if X_next > 1 then 1 else X_next), pf_T := T_next,
          pf_T_max := (if T_next > pf_T_max s then T_next else pf_T_max s), pf_L := pf_L s + dL\<rparr>)))))))"

definition solve_deoxo_pfr_step_c ::
    "real \<Rightarrow> real \<Rightarrow> reactor \<Rightarrow> real \<Rightarrow> real \<Rightarrow> real \<Rightarrow> real \<Rightarrow> (real \<times> real \<times> real \<times> profile) res" where
  "solve_deoxo_pfr_step_c L_total T_in rx y_o2_in k0 U_a y_o2_target =
     (if rx_molar_flow_total rx * y_o2_in \<le> 1 / 10 ^ 12 then Inr (0, T_in, T_in, [(0, T_in, 0)])
      else res_bind (for_range 10000 (\<lambda>_. pfr_body_c rx k0 U_a y_o2_in y_o2_target L_total)
             \<lparr>pf_L = 0, pf_X = 0, pf_T = T_in, pf_T_max = T_in, pf_hist = [(0, T_in, 0)]\<rparr>) (\<lambda>c.
        res_bind (loop_state c) (\<lambda>s. Inr (pf_X s, pf_T s, pf_T_max s, pf_hist s))))"

definition append_point_c :: "nat \<Rightarrow> real \<times> real \<times> real \<Rightarrow> profile \<Rightarrow> profile res" where
  "append_point_c total_max_points p hist = (if length hist < total_max_points then Inr (hist @ [p]) else Inl UndefinedBehaviour)"

definition zone_step_c ::
    "reactor \<Rightarrow> real \<Rightarrow> real \<Rightarrow> real \<Rightarrow> real \<Rightarrow> real \<Rightarrow> nat \<Rightarrow> real \<Rightarrow> real
      \<Rightarrow> real \<times> real \<times> real \<times> real \<times> profile \<Rightarrow> (real \<times> real \<times> real \<times> real \<times> profile) res" where
  "zone_step_c rx k0 U_a y_o2 F dL total_max_points offset X_global st = (case st of (X_local, T_local, L_local, T_max, hist) \<Rightarrow>
     res_bind (rk4_step_c rx k0 U_a y_o2 F dL (X_local, T_local)) (\<lambda>(X_next, T_next).
     let X1 = (if X_next > 1 then 1 else X_next); X_local' = (if X1 < 0 then 0 else X1); L_local' = L_local + dL;
         T_max' = (if T_next > T_max then T_next else T_max);
         current_global_X = 1 - (1 - X_global) * (1 - X_local')
     in res_bind (append_point_c total_max_points (offset + L_local', T_next, current_global_X) hist) (\<lambda>hist'.
        Inr (X_local', T_next, L_local', T_max', hist'))))"

definition zone_body_c ::
    "reactor \<Rightarrow> real list \<Rightarrow> real list \<Rightarrow> real list \<Rightarrow> nat \<Rightarrow> nat \<Rightarrow> nat \<Rightarrow> zone_state \<Rightarrow> zone_state res" where
  "zone_body_c rx L_zones k0_zones U_a_zones max_steps total_max_points z s =
     res_bind (cget L_zones (int z)) (\<lambda>L_zone.
     if L_zone \<le> 1 / 10 ^ 6 then Inr s
     else res_bind (cget k0_zones (int z)) (\<lambda>k0. res_bind (cget U_a_zones (int z)) (\<lambda>U_a.
       let F = rx_molar_flow_total rx * zs_y s; flow_Cp = rx_molar_flow_total rx * rx_Cp_mix rx in
       if F \<le> 1 / 10 ^ 12 then
         let offset = zs_offset s + L_zone in
         res_bind (if U_a > 0 \<and> flow_Cp > 0 then
                     res_bind (cdiv (U_a * rx_Area rx * L_zone) flow_Cp) (\<lambda>NTU.
                     Inr (rx_T_jacket rx + (zs_T s - rx_T_jacket rx) * exp (- NTU)))
                   else Inr (zs_T s)) (\<lambda>T_curr.
         res_bind (append_point_c total_max_points (offset, T_curr, zs_X s) (zs_hist s)) (\<lambda>hist.
         Inr (s\<lparr>zs_offset := offset, zs_T := T_curr, zs_hist := hist\<rparr>)))
       else
         let dL = L_zone / real max_steps in
         res_bind (fold_range max_steps (\<lambda>_. zone_step_c rx k0 U_a (zs_y s) F dL total_max_points (zs_offset s) (zs_X s))
             (0, zs_T s, 0, zs_T_max s, zs_hist s)) (\<lambda>(X_local, T_local, L_local, T_max, hist).
         Inr (s\<lparr>zs_offset := zs_offset s + L_zone, zs_T := T_local, zs_T_max := T_max,
                zs_X := 1 - (1 - zs_X s) * (1 - X_local), zs_y := zs_y s * (1 - X_local), zs_hist := hist\<rparr>)))))"

definition solve_deoxo_multizone_jit_c ::
    "real list \<Rightarrow> real list \<Rightarrow> real list \<Rightarrow> real \<Rightarrow> reactor \<Rightarrow> real \<Rightarrow> nat \<Rightarrow> (real \<times> real \<times> real \<times> profile) res" where
  "solve_deoxo_multizone_jit_c L_zones k0_zones U_a_zones T_in rx y_o2_in max_steps =
     (let num_zones = length L_zones; total_max_points = num_zones * (max_steps + 1) + 1 in
      res_bind (fold_range num_zones (zone_body_c rx L_zones k0_zones U_a_zones max_steps total_max_points)
        \<lparr>zs_offset = 0, zs_T = T_in, zs_y = y_o2_in, zs_T_max = T_in, zs_X = 0, zs_hist = [(0, T_in, 0)]\<rparr>) (\<lambda>s.
      Inr (zs_X s, zs_T s, zs_T_max s, zs_hist s)))"

lemma reaction_rate_compiles [compile]: "compiles (reaction_rate_c rx k0 y x t) (reaction_rate rx k0 y x t)"
proof -
  have m: "(if a < 0 then 0 else a) = max 0 a" for a :: real by simp
  show ?thesis unfolding reaction_rate_c_def reaction_rate_def Let_def m by (intro compile)
qed

lemma get_grads_compiles [compile]:
  "compiles (get_grads_local_c rx k0 U_a y F st) (get_grads_local rx k0 U_a y F st)"
  unfolding get_grads_local_c_def get_grads_local_def Let_def by (intro compile refl)

lemma rk4_compiles [compile]: "compiles (rk4_step_c rx k0 U_a y F dL st) (rk4_step rx k0 U_a y F dL st)"
  unfolding rk4_step_c_def rk4_step_def Let_def by (intro compile)

lemma adaptive_dL_compiles [compile]: "compiles (adaptive_dL_c L l est) (adaptive_dL L l est)"
  unfolding adaptive_dL_c_def adaptive_dL_def Let_def by (intro compile refl) (auto simp: compiles_def min_def max_def)

lemma pfr_body_compiles [compile]:
  "compiles (pfr_body_c rx k0 U_a y yt L s) (pfr_body rx k0 U_a y yt L s)"
  unfolding pfr_body_c_def pfr_body_def Let_def by (intro compile refl) (auto simp: compiles_def min_def)

lemma pfr_compiles: "compiles (solve_deoxo_pfr_step_c L T rx y k0 U_a yt) (solve_deoxo_pfr_step L T rx y k0 U_a yt)"
  unfolding solve_deoxo_pfr_step_c_def solve_deoxo_pfr_step_def by (intro compile refl)

lemma append_point_compiles [compile]: "compiles (append_point_c n p h) (append_point n p h)"
  by (auto simp: append_point_c_def append_point_def compiles_def)

lemma zone_step_compiles [compile]:
  "compiles (zone_step_c rx k0 U_a y F dL n offset X st) (zone_step rx k0 U_a y F dL n offset X st)"
proof -
  have m: "(if (if b > 1 then 1 else b) < 0 then 0 else if b > 1 then 1 else b) = min 1 (max 0 b)" for b :: real
    by (auto simp: min_def max_def)
  show ?thesis unfolding zone_step_c_def zone_step_def Let_def m by (intro compile)
qed

lemma zone_body_compiles [compile]:
  "compiles (zone_body_c rx Ls ks Us n total_points z s) (zone_body rx Ls ks Us n total_points z s)"
  unfolding zone_body_c_def zone_body_def Let_def
  by (intro compile refl) (auto simp: compiles_def compilesD [OF compiles_fold [OF zone_step_compiles]] split: prod.splits)

lemma multizone_compiles:
  "compiles (solve_deoxo_multizone_jit_c Ls ks Us T rx y n) (solve_deoxo_multizone_jit Ls ks Us T rx y n)"
  unfolding solve_deoxo_multizone_jit_c_def solve_deoxo_multizone_jit_def Let_def by (intro compile)

section \<open>Electrolyser dispatch\<close>

fun gather_c :: "'a list \<Rightarrow> int list \<Rightarrow> 'a list res" where
  "gather_c xs [] = Inr []"
| "gather_c xs (i # is) = res_bind (cget xs i) (\<lambda>x. res_bind (gather_c xs is) (\<lambda>ys. Inr (x # ys)))"

fun scatter_c :: "int list \<Rightarrow> 'a list \<Rightarrow> 'a list \<Rightarrow> 'a list res" where
  "scatter_c (i # is) (v # vs) xs = res_bind (cset xs i v) (scatter_c is vs)"
| "scatter_c _ _ xs = Inr xs"

definition next_int :: "int \<Rightarrow> int res" where
  "next_int k = (if k + 1 < 2 ^ 31 then Inr (k + 1) else Inl UndefinedBehaviour)"

definition soec_target_index_c :: "real \<Rightarrow> nat \<Rightarrow> int res" where
  "soec_target_index_c broken_number n =
     res_bind (cint broken_number) (\<lambda>b.
     res_bind (if broken_number = of_int b then Inr b else next_int b) (\<lambda>N_ceil.
     res_bind (if broken_number > 0.01 \<and> \<bar>broken_number - of_int N_ceil\<bar> < 0.001 then next_int N_ceil else Inr N_ceil) (\<lambda>t0.
     let t1 = (if t0 < 1 then 1 else t0); target_module_id = (if t1 > int n + 1 then int n + 1 else t1)
     in Inr (target_module_id - 1))))"

definition soec_new_limit_c :: "real \<Rightarrow> real \<Rightarrow> real \<Rightarrow> real \<Rightarrow> real \<Rightarrow> real res" where
  "soec_new_limit_c reference_power broken_number U power_standby_mw power_first_step_mw =
     res_bind (cint broken_number) (\<lambda>N_floor.
     let new_limit_calc = reference_power - U * of_int N_floor - 0
     in Inr (if new_limit_calc > power_standby_mw + 0.005 \<and> new_limit_calc < power_first_step_mw - 0.005
             then power_standby_mw else new_limit_calc))"

text \<open>The target entry is written first, then the entries before it and those after it.\<close>

definition soec_fill :: "real list \<Rightarrow> int \<Rightarrow> real \<Rightarrow> real \<Rightarrow> real \<Rightarrow> real list res" where
  "soec_fill active_limit target_index limit before_value after_value =
     res_bind (cset active_limit target_index limit) (\<lambda>ls.
     Inr (map (\<lambda>i. if int i < target_index then before_value else if target_index < int i then after_value else ls ! i)
        [0..<length ls]))"

definition soec_limits_c ::
    "real \<Rightarrow> real \<Rightarrow> real \<Rightarrow> real \<Rightarrow> real \<Rightarrow> real \<Rightarrow> real list \<Rightarrow> real list res" where
  "soec_limits_c reference_power difference minimum_total_power U power_standby_mw power_first_step_mw active_limit =
     (let n = length active_limit; numerator = reference_power - minimum_total_power in
      res_bind (cdiv (if numerator < 0 then 0 else numerator) U) (\<lambda>broken_number.
      res_bind (soec_target_index_c broken_number n) (\<lambda>target_index.
      res_bind (soec_new_limit_c reference_power broken_number U power_standby_mw power_first_step_mw) (\<lambda>new_limit.
      let limit = (if new_limit > power_standby_mw then new_limit else power_standby_mw) in
      if difference > 0 then
        (if target_index + 1 > int n then Inr (replicate n U)
         else soec_fill active_limit target_index limit U power_standby_mw)
      else if \<bar>reference_power - minimum_total_power\<bar> < 0.01 then Inr (replicate n power_standby_mw)
      else soec_fill active_limit target_index limit U power_standby_mw))))"

definition simulate_soec_step_jit_c ::
    "real \<Rightarrow> real list \<Rightarrow> int list \<Rightarrow> real list \<Rightarrow> int list \<Rightarrow> real \<Rightarrow> real \<Rightarrow> real \<Rightarrow> real \<Rightarrow> real
     \<Rightarrow> (real list \<times> int list \<times> real list) res" where
  "simulate_soec_step_jit_c reference_power real_powers real_states real_limits virtual_map
      uniform_module_max_limit power_standby_mw power_first_step_mw ramp_step_mw minimum_total_power =
     res_bind (gather_c real_powers virtual_map) (\<lambda>powers_v.
     res_bind (gather_c real_states virtual_map) (\<lambda>states0_v.
     res_bind (gather_c real_limits virtual_map) (\<lambda>limits_v.
     let difference = reference_power - sum_list powers_v;
         states_v = map2 (soec_promote uniform_module_max_limit) powers_v states0_v;
         write_back = (\<lambda>ps ss ls.
           res_bind (scatter_c virtual_map ps real_powers) (\<lambda>rp.
           res_bind (scatter_c virtual_map ss real_states) (\<lambda>rs.
           res_bind (scatter_c virtual_map ls real_limits) (\<lambda>rl. Inr (rp, rs, rl)))))
     in if \<bar>difference\<bar> < 0.01 then write_back powers_v (map soec_settle states_v) limits_v
        else res_bind (soec_limits_c reference_power difference minimum_total_power uniform_module_max_limit
               power_standby_mw power_first_step_mw limits_v) (\<lambda>active_limit.
             let powers_v' = map2 (soec_power power_standby_mw power_first_step_mw ramp_step_mw) active_limit powers_v;
                 states_v' = map (\<lambda>(l, p_old, p). soec_state power_standby_mw uniform_module_max_limit l p_old p)
                   (zip active_limit (zip powers_v powers_v'))
             in write_back powers_v' states_v' active_limit))))"

lemma gather_c_valid: "\<forall>i \<in> set is. 0 \<le> i \<and> i < int (length xs) \<Longrightarrow> gather_c xs is = gather xs is"
  by (induction "is") (auto simp: cget_def aget_def py_index_def Let_def)

lemma scatter_c_valid: "\<forall>i \<in> set is. 0 \<le> i \<and> i < int (length xs) \<Longrightarrow> scatter_c is vs xs = scatter is vs xs"
  by (induction "is" vs xs rule: scatter_c.induct) (auto simp: cset_def aset_def py_index_def Let_def)

lemma cint_small: "0 \<le> x \<Longrightarrow> x < 2 ^ 31 - 2 \<Longrightarrow> cint x = Inr (py_int x) \<and> 0 \<le> py_int x \<and> py_int x + 2 < 2 ^ 31"
  by (auto simp: cint_def py_int_def Let_def floor_less_iff)

lemma soec_target_index_compiled:
  assumes "0 \<le> b" "b < 2 ^ 31 - 3"
  shows "soec_target_index_c b n = Inr (int (soec_target_index b n))"
proof -
  have c: "cint b = Inr (py_int b)" "0 \<le> py_int b" "py_int b + 2 < 2 ^ 31"
    using cint_small [of b] assms by auto
  then have i: "next_int (py_int b) = Inr (py_int b + 1)" "next_int (py_int b + 1) = Inr (py_int b + 1 + 1)"
    by (auto simp: next_int_def)
  show ?thesis using c(2)
    unfolding soec_target_index_c_def soec_target_index_def c(1) res_bind.simps Let_def
    by (cases "b = of_int (py_int b)") (auto simp: i)
qed

lemma soec_fill_value:
  "soec_fill ls (int k) limit u s = (if k < length ls then Inr (replicate k u @ [limit] @ replicate (length ls - k - 1) s)
     else Inl UndefinedBehaviour)"
  by (auto simp: soec_fill_def cset_def nth_append intro!: nth_equalityI)

lemma soec_limits_compiled:
  assumes "0 < U" "reference - mn < (2 ^ 31 - 3) * U"
  shows "soec_limits_c reference difference mn U sb fs ls
    = (case soec_limits reference difference mn U sb fs (length ls) of Inr al \<Rightarrow> Inr al | Inl _ \<Rightarrow> Inl UndefinedBehaviour)"
proof -
  define b where "b = max 0 (reference - mn) / U"
  have b: "0 \<le> b" "b < 2 ^ 31 - 3" using assms by (auto simp: b_def field_simps)
  have n: "(if reference - mn < 0 then 0 else reference - mn) = max 0 (reference - mn)" by simp
  have d: "cdiv (max 0 (reference - mn)) U = Inr b" "fdiv (max 0 (reference - mn)) U = Inr b"
    using assms(1) by (simp_all add: cdiv_ok fdiv_ok b_def)
  have l: "soec_new_limit_c reference b U sb fs = Inr (soec_new_limit reference b U sb fs)"
    using cint_small [of b] b by (simp add: soec_new_limit_c_def soec_new_limit_def Let_def)
  have m: "(if x > sb then x else sb) = max sb x" for x :: real by simp
  show ?thesis
    unfolding soec_limits_c_def soec_limits_def Let_def n d l res_bind.simps m soec_target_index_compiled [OF b]
      soec_fill_value
    by (auto split: if_splits)
qed

lemma scatter_total: "\<forall>i \<in> set is. 0 \<le> i \<and> i < int (length xs) \<Longrightarrow> \<exists>ys. scatter is vs xs = Inr ys"
  by (induction "is" vs xs rule: scatter.induct) (auto simp: aset_def py_index_def Let_def)



text \<open>
  The compiled reactor kernels return the conversion, temperatures and profile of the Python ones whenever
  those return.
\<close>

theorem compiled_reactor_agrees:
  "compiles (solve_deoxo_pfr_step_c L T rx y k0 U_a yt) (solve_deoxo_pfr_step L T rx y k0 U_a yt)
   \<and> compiles (solve_deoxo_multizone_jit_c Ls ks Us T rx y n) (solve_deoxo_multizone_jit Ls ks Us T rx y n)"
  using pfr_compiles multizone_compiles by blast

end
