(* ===== verification/Shim.thy ===== *)
theory Shim
  imports Prelude
begin

text \<open>
  \<open>optimization/numba_ops.py\<close>, the choice between the compiled kernels and the Python ones. A module is a table
  from names to values, which are of any type; importing it can fail as a whole or for a name.
\<close>

section \<open>Modules and imports\<close>

text \<open>A module that could be loaded: its names in order, their values, \<open>__all__\<close> if it declares one, and its file.\<close>

record 'v pymodule =
  md_names :: "string list"
  md_value :: "string \<Rightarrow> 'v option"
  md_all :: "string list option"
  md_file :: "string option"

datatype import_failure = ImportError | MissingName

definition private_name :: "string \<Rightarrow> bool" where
  "private_name n \<longleftrightarrow> take 1 n = ''_''"

text \<open>Binding names one after the other; what was bound before a failure stays bound.\<close>

fun bind_names :: "'v pymodule \<Rightarrow> string list \<Rightarrow> (string \<rightharpoonup> 'v) \<Rightarrow> bool \<times> (string \<rightharpoonup> 'v)" where
  "bind_names m [] ns = (True, ns)"
| "bind_names m (n # names) ns = (case md_value m n of None \<Rightarrow> (False, ns) | Some v \<Rightarrow> bind_names m names (ns(n \<mapsto> v)))"

definition star_names :: "'v pymodule \<Rightarrow> string list" where
  "star_names m = (case md_all m of None \<Rightarrow> filter (\<lambda>n. \<not> private_name n) (md_names m) | Some names \<Rightarrow> names)"

definition PRIVATE_HELPERS :: "string list" where
  "PRIVATE_HELPERS = [''_antoine_psat_water'', ''_compute_T_out_for_P_jit'', ''_integral_cp'']"

text \<open>A star import followed by the private helpers; a name that \<open>__all__\<close> promises and the module lacks is no ImportError.\<close>

definition import_kernels :: "'v pymodule \<Rightarrow> (string \<rightharpoonup> 'v) \<Rightarrow> (import_failure + unit) \<times> (string \<rightharpoonup> 'v)" where
  "import_kernels m ns =
     (let (ok, ns) = bind_names m (star_names m) ns in
      if \<not> ok then (Inl MissingName, ns)
      else let (ok, ns) = bind_names m PRIVATE_HELPERS ns in if ok then (Inr (), ns) else (Inl ImportError, ns))"

section \<open>The shim\<close>

record 'v shim =
  sh_names :: "string \<rightharpoonup> 'v"
  sh_compiled :: bool
  sh_core_path :: "string option"

definition python_fallback :: "'v pymodule option \<Rightarrow> bool \<Rightarrow> (string \<rightharpoonup> 'v) \<Rightarrow> import_failure + 'v shim" where
  "python_fallback python hardened ns =
     (if hardened then Inl ImportError
      else case python of None \<Rightarrow> Inl ImportError
      | Some m \<Rightarrow> (case import_kernels m ns of (Inl e, _) \<Rightarrow> Inl e
          | (Inr _, ns) \<Rightarrow> if md_all m = None then Inl ImportError
              else Inr \<lparr>sh_names = ns, sh_compiled = False, sh_core_path = None\<rparr>))"

text \<open>\<open>None\<close> is a module that cannot be loaded.\<close>

definition import_shim :: "'v pymodule option \<Rightarrow> 'v pymodule option \<Rightarrow> bool \<Rightarrow> import_failure + 'v shim" where
  "import_shim core python hardened =
     (case core of None \<Rightarrow> python_fallback python hardened Map.empty
      | Some m \<Rightarrow> (case import_kernels m Map.empty of
          (Inr _, ns) \<Rightarrow> Inr \<lparr>sh_names = ns, sh_compiled = True, sh_core_path = md_file m\<rparr>
        | (Inl ImportError, ns) \<Rightarrow> python_fallback python hardened ns
        | (Inl MissingName, ns) \<Rightarrow> Inl MissingName))"

definition compiled_core_status :: "'v shim \<Rightarrow> bool \<times> string option" where
  "compiled_core_status sh = (sh_compiled sh, sh_core_path sh)"

text \<open>The kernels and constants that the shim exports, which are also those of the Python module.\<close>

definition KERNEL_NAMES :: "string list" where
  "KERNEL_NAMES = [
     ''GAS_CP_COEFFS'', ''GAS_MW'', ''GAS_MW_KG_MOL'', ''HENRY_H2_C'', ''HENRY_H2_H298'', ''HENRY_H2_MW'',
     ''HENRY_O2_C'', ''HENRY_O2_H298'', ''HENRY_O2_MW'', ''LIQ_CP_COEFFS'', ''LIQ_MW'', ''_antoine_psat_water'',
     ''_compute_T_out_for_P_jit'', ''_integral_cp'', ''apply_heat_loss_batch'', ''batch_bilinear_interp_jit'',
     ''batch_pressure_update'', ''batch_pressure_update_vector_T'', ''bilinear_interp_jit'',
     ''bilinear_interp_liquid'', ''calc_boiler_batch_full'', ''calc_boiler_batch_scenario'',
     ''calc_boiler_flash_jit'', ''calc_boiler_outlet_enthalpy'', ''calculate_compression_realgas_jit'',
     ''calculate_compression_work'', ''calculate_dissolved_gas_mg_kg_jit'', ''calculate_dynamic_u_fouled'',
     ''calculate_h2_production_dynamic'', ''calculate_mixture_compression_jit'', ''calculate_mixture_cp'',
     ''calculate_mixture_density_jit'', ''calculate_mixture_enthalpy'', ''calculate_nusselt_crossflow'',
     ''calculate_nusselt_dittus_boelter'', ''calculate_pem_voltage_jit'', ''calculate_reynolds_flux'',
     ''calculate_storage_mpc_factor'', ''calculate_stream_enthalpy_jit'', ''calculate_total_mass_by_state'',
     ''calculate_water_psat_jit'', ''counter_flow_ntu_effectiveness'', ''distribute_mass_and_energy'',
     ''distribute_mass_to_tanks'', ''dry_cooler_ntu_effectiveness'', ''eval_cubic_spline'',
     ''fast_composition_properties'', ''find_available_tank'', ''find_fullest_tank'',
     ''get_interp_weights_jit'', ''get_mix_cp_jit'', ''get_mix_density_jit'', ''get_mix_enthalpy_fast_jit'',
     ''get_mix_entropy_fast_jit'', ''get_mixture_enthalpy_fast'', ''interp_from_weights_jit'',
     ''remap_canonical_to_lut'', ''simulate_filling_timestep'', ''simulate_soec_step_jit'',
     ''solve_cyclone_mechanics'', ''solve_deoxo_multizone_jit'', ''solve_deoxo_pfr_step'',
     ''solve_dry_cooler_thermal_jit'', ''solve_interchanger_flash_jit'', ''solve_pem_j_jit'',
     ''solve_ph_flash_jit'', ''solve_rachford_rice_single_condensable'', ''solve_temp_limited_pressure_jit'',
     ''solve_temperature_from_enthalpy_jit'', ''solve_uv_flash'', ''solve_water_T_from_H_jit'',
     ''warmup_jit_kernels'']"

section \<open>Facts\<close>

lemma bind_names_ok: "bind_names m names ns = (True, ns') \<Longrightarrow>
    ns' n = (if n \<in> set names then md_value m n else ns n) \<and> (n \<in> set names \<longrightarrow> md_value m n \<noteq> None)"
  by (induction m names ns rule: bind_names.induct) (auto split: option.splits if_splits)

lemma import_kernels_ok:
  "import_kernels m ns = (Inr (), ns') \<Longrightarrow>
     ns' n = (if n \<in> set (star_names m) \<union> set PRIVATE_HELPERS then md_value m n else ns n)"
  by (auto simp: import_kernels_def split: prod.splits if_splits dest!: bind_names_ok [of _ _ _ _ n])

lemma bind_names_iff: "fst (bind_names m names ns) \<longleftrightarrow> (\<forall>n\<in>set names. md_value m n \<noteq> None)"
proof (induction names arbitrary: ns)
  case (Cons n names)
  then show ?case
    by (cases "md_value m n") simp_all
qed simp

lemma import_kernels_iff:
  "fst (import_kernels m ns) = Inr () \<longleftrightarrow> (\<forall>n\<in>set (star_names m) \<union> set PRIVATE_HELPERS. md_value m n \<noteq> None)"
proof -
  obtain b ns' where b: "bind_names m (star_names m) ns = (b, ns')"
    by fastforce
  obtain b' ns'' where b': "bind_names m PRIVATE_HELPERS ns' = (b', ns'')"
    by fastforce
  have "b \<longleftrightarrow> (\<forall>n\<in>set (star_names m). md_value m n \<noteq> None)" "b' \<longleftrightarrow> (\<forall>n\<in>set PRIVATE_HELPERS. md_value m n \<noteq> None)"
    using bind_names_iff [of m "star_names m" ns] bind_names_iff [of m PRIVATE_HELPERS ns'] by (simp_all only: b b' fst_conv)
  then show ?thesis
    unfolding import_kernels_def b ball_Un by (cases b; cases b') (simp_all add: b')
qed

text \<open>A compiled module declares no \<open>__all__\<close>, and has the values of its names.\<close>

definition compiled_module :: "'v pymodule \<Rightarrow> bool" where
  "compiled_module m \<longleftrightarrow> md_all m = None \<and> (\<forall>n. n \<in> set (md_names m) \<longleftrightarrow> md_value m n \<noteq> None)"

lemma compiled_star: "compiled_module m \<Longrightarrow> fst (bind_names m (star_names m) ns)"
  by (auto simp: bind_names_iff star_names_def compiled_module_def)

lemma kernel_names_private: "n \<in> set KERNEL_NAMES \<Longrightarrow> private_name n \<Longrightarrow> n \<in> set PRIVATE_HELPERS"
proof -
  have "list_all (\<lambda>n. \<not> private_name n \<or> n \<in> set PRIVATE_HELPERS) KERNEL_NAMES"
    by code_simp
  then show "n \<in> set KERNEL_NAMES \<Longrightarrow> private_name n \<Longrightarrow> n \<in> set PRIVATE_HELPERS"
    by (auto simp: list_all_iff)
qed

lemma python_fallback_names:
  assumes "python_fallback (Some m) hardened ns = Inr sh" "md_all m = Some KERNEL_NAMES" "n \<in> set KERNEL_NAMES"
  shows "sh_names sh n = md_value m n \<and> \<not> sh_compiled sh \<and> \<not> hardened"
  using assms import_kernels_ok [of m ns _ n]
  by (auto simp: python_fallback_def star_names_def split: if_splits prod.splits sum.splits unit.splits)

lemma compiled_names:
  assumes "compiled_module m" "import_kernels m ns = (Inr (), ns')" "n \<in> set KERNEL_NAMES" "ns n = None"
  shows "ns' n = md_value m n"
  using import_kernels_ok [OF assms(2), of n] assms(1,3,4) kernel_names_private [of n]
  by (auto simp: star_names_def compiled_module_def split: if_splits)

definition has_helpers :: "'v pymodule \<Rightarrow> bool" where
  "has_helpers m \<longleftrightarrow> (\<forall>n\<in>set PRIVATE_HELPERS. md_value m n \<noteq> None)"

text \<open>A compiled module is loaded exactly when it has the helpers; without them its import is an ImportError.\<close>

lemma compiled_import:
  assumes "compiled_module m"
  shows "has_helpers m \<Longrightarrow> \<exists>ns. import_kernels m Map.empty = (Inr (), ns) \<and> (\<forall>n\<in>set KERNEL_NAMES. ns n = md_value m n)"
    and "\<not> has_helpers m \<Longrightarrow> \<exists>ns. import_kernels m Map.empty = (Inl ImportError, ns)"
proof -
  have star: "\<forall>n\<in>set (star_names m). md_value m n \<noteq> None"
    using compiled_star [OF assms, of Map.empty] by (simp add: bind_names_iff)
  obtain r ns where r: "import_kernels m Map.empty = (r, ns)"
    by fastforce
  have "r = Inr () \<longleftrightarrow> has_helpers m"
    using import_kernels_iff [of m Map.empty] r star by (auto simp: has_helpers_def)
  moreover have "r \<noteq> Inl MissingName"
    using r compiled_star [OF assms, of Map.empty] by (auto simp: import_kernels_def split: prod.splits if_splits)
  moreover have "r = Inr () \<or> r = Inl ImportError \<or> r = Inl MissingName"
    by (cases r; cases "projl r") auto
  ultimately show "has_helpers m \<Longrightarrow> \<exists>ns. import_kernels m Map.empty = (Inr (), ns) \<and> (\<forall>n\<in>set KERNEL_NAMES. ns n = md_value m n)"
      "\<not> has_helpers m \<Longrightarrow> \<exists>ns. import_kernels m Map.empty = (Inl ImportError, ns)"
    using r compiled_names [OF assms, of Map.empty ns] by auto
qed

lemma fallback_is_python:
  assumes "python_fallback python hardened ns = Inr sh" "\<forall>m. python = Some m \<longrightarrow> md_all m = Some KERNEL_NAMES"
  shows "\<not> sh_compiled sh \<and> \<not> hardened \<and> (\<forall>n\<in>set KERNEL_NAMES. sh_names sh n = md_value (the python) n)"
proof -
  obtain m where m: "python = Some m"
    using assms(1) by (cases python) (auto simp: python_fallback_def split: if_splits)
  have "''bilinear_interp_jit'' \<in> set KERNEL_NAMES"
    by code_simp
  then show ?thesis
    using assms m python_fallback_names [of m hardened ns sh] by auto
qed

text \<open>
  C8: the shim never mixes the implementations. When it loads, every exported kernel is the compiled module's or every one
  is the Python module's, also when a compiled module that lacks a private helper had already bound its names; it
  is the compiled one exactly when that can be loaded and has the helpers, and always so in hardened mode.
\<close>

theorem shim_never_mixes:
  assumes "import_shim core python hardened = Inr sh" "\<forall>m. core = Some m \<longrightarrow> compiled_module m"
    "\<forall>m. python = Some m \<longrightarrow> md_all m = Some KERNEL_NAMES"
  shows "(sh_compiled sh \<longleftrightarrow> (\<exists>m. core = Some m \<and> (\<forall>n\<in>set PRIVATE_HELPERS. md_value m n \<noteq> None)))
    \<and> (\<forall>n\<in>set KERNEL_NAMES. sh_names sh n = (if sh_compiled sh then md_value (the core) n else md_value (the python) n))
    \<and> (hardened \<longrightarrow> sh_compiled sh)"
proof (cases "\<exists>m. core = Some m \<and> has_helpers m")
  case True
  then obtain m ns where m: "core = Some m" "has_helpers m"
      and ns: "import_kernels m Map.empty = (Inr (), ns)" "\<forall>n\<in>set KERNEL_NAMES. ns n = md_value m n"
    using assms(2) compiled_import(1) by metis
  then have "sh = \<lparr>sh_names = ns, sh_compiled = True, sh_core_path = md_file m\<rparr>"
    using assms(1) by (simp add: import_shim_def)
  then show ?thesis
    using m ns(2) by (simp add: has_helpers_def)
next
  case False
  then obtain ns where "python_fallback python hardened ns = Inr sh"
    using assms(1,2) compiled_import(2) by (cases core) (force simp: import_shim_def)+
  from fallback_is_python [OF this assms(3)] False show ?thesis
    by (auto simp: has_helpers_def)
qed

definition module_of :: "string list \<Rightarrow> string list option \<Rightarrow> 'v \<Rightarrow> 'v pymodule" where
  "module_of names declared v = \<lparr>md_names = names, md_value = \<lambda>n. if n \<in> set names then Some v else None,
     md_all = declared, md_file = Some ''core.so''\<rparr>"

text \<open>At a stale compiled module without its private helpers: all kernels are the Python module's.\<close>

theorem shim_never_mixes_witness:
  "\<exists>sh. import_shim (Some (module_of [''bilinear_interp_jit''] None ''C'')) (Some (module_of KERNEL_NAMES (Some KERNEL_NAMES) ''Python'')) False
      = Inr sh \<and> \<not> sh_compiled sh \<and> sh_names sh ''bilinear_interp_jit'' = Some ''Python''"
proof -
  define core where "core = module_of [''bilinear_interp_jit''] None ''C''"
  define python where "python = module_of KERNEL_NAMES (Some KERNEL_NAMES) ''Python''"
  have k: "set PRIVATE_HELPERS \<subseteq> set KERNEL_NAMES" "''bilinear_interp_jit'' \<in> set KERNEL_NAMES"
    "''_integral_cp'' \<in> set PRIVATE_HELPERS"
    by (simp_all add: KERNEL_NAMES_def PRIVATE_HELPERS_def)
  have nocore: "\<not> (\<forall>n\<in>set PRIVATE_HELPERS. md_value core n \<noteq> None)"
    by (simp add: core_def module_of_def PRIVATE_HELPERS_def)
  have c: "compiled_module core"
    by (auto simp: core_def compiled_module_def module_of_def)
  have a: "md_all python = Some KERNEL_NAMES" and v: "md_value python ''bilinear_interp_jit'' = Some ''Python''"
    using k(2) by (simp_all add: python_def module_of_def)
  have "fst (import_kernels python ns) = Inr ()" for ns
    unfolding import_kernels_iff using k by (auto simp: python_def module_of_def star_names_def)
  then have p: "\<exists>ns'. import_kernels python ns = (Inr (), ns')" for ns
    by (metis prod.collapse)
  have "\<exists>sh. python_fallback (Some python) False ns = Inr sh" for ns
  proof -
    obtain ns' where "import_kernels python ns = (Inr (), ns')"
      using p by blast
    then have "python_fallback (Some python) False ns = Inr \<lparr>sh_names = ns', sh_compiled = False, sh_core_path = None\<rparr>"
      using a by (simp add: python_fallback_def)
    then show ?thesis
      by blast
  qed
  moreover have "\<exists>ns. import_kernels core Map.empty = (Inl ImportError, ns)"
    by (simp add: import_kernels_def core_def module_of_def star_names_def private_name_def PRIVATE_HELPERS_def)
  ultimately obtain ns sh where "import_kernels core Map.empty = (Inl ImportError, ns)" "python_fallback (Some python) False ns = Inr sh"
    by blast
  then have sh: "import_shim (Some core) (Some python) False = Inr sh"
    by (simp add: import_shim_def)
  then have "\<not> sh_compiled sh \<and> sh_names sh ''bilinear_interp_jit'' = Some ''Python''"
    using shim_never_mixes [of "Some core" "Some python" False sh] c nocore k(2) a v by auto
  with sh show ?thesis
    unfolding core_def python_def by blast
qed

end
