(* ===== verification/Sample.thy ===== *)
theory Sample
  imports Prelude
begin

text \<open>Mean and maximum of a sample, as numpy and pandas compute them for a sample with at least one value.\<close>

definition mean :: "real list \<Rightarrow> real" where
  "mean xs = sum_list xs / real (length xs)"

definition max_list :: "real list \<Rightarrow> real" where
  "max_list xs = foldl max (hd xs) (tl xs)"

lemma foldl_max: "foldl max (m::real) xs \<ge> m \<and> (\<forall>x\<in>set xs. x \<le> foldl max m xs) \<and> foldl max m xs \<in> insert m (set xs)"
proof (induction xs arbitrary: m)
  case (Cons x xs)
  show ?case
    using Cons.IH [of "max m x"] by (simp, elim conjE disjE) (simp_all add: max_def split: if_splits)
qed simp

lemma max_list_greatest: "xs \<noteq> [] \<Longrightarrow> max_list xs \<in> set xs \<and> (\<forall>x\<in>set xs. x \<le> max_list xs)"
  using foldl_max [of "hd xs" "tl xs"] by (cases xs) (auto simp: max_list_def)

lemma sum_list_bounds:
  "(\<forall>x\<in>set xs. lo \<le> f x \<and> f x \<le> hi) \<Longrightarrow> real (length xs) * lo \<le> (\<Sum>x\<leftarrow>xs. f x) \<and> (\<Sum>x\<leftarrow>xs. f x) \<le> real (length xs) * hi"
  by (induction xs) (auto simp: algebra_simps)

lemma mean_between: "xs \<noteq> [] \<Longrightarrow> \<forall>x\<in>set xs. lo \<le> x \<and> x \<le> hi \<Longrightarrow> lo \<le> mean xs \<and> mean xs \<le> hi"
  using sum_list_bounds [of xs lo "\<lambda>x. x" hi] by (auto simp: mean_def field_simps)

end
