(* ===== verification/Regex.thy ===== *)
theory Regex
  imports Prelude
begin

text \<open>
  The part of Python's \<open>re\<close> module the scripts use: patterns that are sequences of fixed texts, single characters of a
  class, and greedy or lazy repetitions of a class. The matcher returns every match in the order in which a
  backtracking search finds them; \<open>search\<close>, \<open>findall\<close> and \<open>sub\<close> take the first one at the leftmost place.
\<close>

section \<open>Patterns\<close>

fun strip_prefix :: "string \<Rightarrow> string \<Rightarrow> string option" where
  "strip_prefix [] s = Some s"
| "strip_prefix (p # ps) (c # s) = (if p = c then strip_prefix ps s else None)"
| "strip_prefix (p # ps) [] = None"

datatype item = Lit string | One "char \<Rightarrow> bool" | Many "char \<Rightarrow> bool" | Few "char \<Rightarrow> bool"

text \<open>The ways to match an item at the start of a text: what it takes and what it leaves.\<close>

fun item_match :: "item \<Rightarrow> string \<Rightarrow> (string \<times> string) list" where
  "item_match (Lit l) s = (case strip_prefix l s of None \<Rightarrow> [] | Some r \<Rightarrow> [(l, r)])"
| "item_match (One P) s = (case s of [] \<Rightarrow> [] | c # r \<Rightarrow> if P c then [([c], r)] else [])"
| "item_match (Few P) s = map (\<lambda>n. (take n s, drop n s)) [0..<Suc (length (takeWhile P s))]"
| "item_match (Many P) s = map (\<lambda>n. (take n s, drop n s)) (rev [0..<Suc (length (takeWhile P s))])"

text \<open>A match of a pattern: what each item takes, and what is left.\<close>

fun rx_match :: "item list \<Rightarrow> string \<Rightarrow> (string list \<times> string) list" where
  "rx_match [] s = [([], s)]"
| "rx_match (i # is) s = concat (map (\<lambda>(p, r). map (\<lambda>(ps, r'). (p # ps, r')) (rx_match is r)) (item_match i s))"

text \<open>The first match at the leftmost place: the text before it, the match, and the text after it.\<close>

fun rx_search :: "item list \<Rightarrow> string \<Rightarrow> (string \<times> string list \<times> string) option" where
  "rx_search is s = (case rx_match is s of
     (ps, r) # _ \<Rightarrow> Some ([], ps, r)
   | [] \<Rightarrow> (case s of [] \<Rightarrow> None | c # t \<Rightarrow> map_option (\<lambda>(pre, m). (c # pre, m)) (rx_search is t)))"

declare rx_search.simps [simp del]

text \<open>
  The text cut at its matches, which do not overlap: each match with the text before it, and what follows the last. The patterns
  used never match the empty text.
\<close>

fun rx_cut :: "item list \<Rightarrow> string \<Rightarrow> (string \<times> string list) list \<times> string" where
  "rx_cut is s = (case rx_search is s of
     None \<Rightarrow> ([], s)
   | Some (pre, ps, r) \<Rightarrow>
       if length r < length s then (let (segments, end_text) = rx_cut is r in ((pre, ps) # segments, end_text)) else ([], s))"

declare rx_cut.simps [simp del]

definition rx_findall :: "item list \<Rightarrow> string \<Rightarrow> string list list" where
  "rx_findall is s = map snd (fst (rx_cut is s))"

definition rx_sub :: "item list \<Rightarrow> (string list \<Rightarrow> string) \<Rightarrow> string \<Rightarrow> string" where
  "rx_sub is rep s = concat (map (\<lambda>(pre, ps). pre @ rep ps) (fst (rx_cut is s))) @ snd (rx_cut is s)"

section \<open>What a match is\<close>

fun item_ok :: "item \<Rightarrow> string \<Rightarrow> bool" where
  "item_ok (Lit l) p \<longleftrightarrow> p = l"
| "item_ok (One P) p \<longleftrightarrow> (\<exists>c. p = [c] \<and> P c)"
| "item_ok (Many P) p \<longleftrightarrow> list_all P p"
| "item_ok (Few P) p \<longleftrightarrow> list_all P p"

lemma strip_prefix_Some: "strip_prefix p s = Some r \<longleftrightarrow> s = p @ r"
  by (induction p s rule: strip_prefix.induct) auto

lemma strip_prefix_append [simp]: "strip_prefix p (p @ r) = Some r"
  by (simp add: strip_prefix_Some)

lemma strip_prefix_length: "strip_prefix p s = Some r \<Longrightarrow> length s = length p + length r"
  by (simp add: strip_prefix_Some)

lemma takeWhile_prefix: "list_all P (take n s) \<Longrightarrow> n \<le> length s \<Longrightarrow> n \<le> length (takeWhile P s)"
proof (induction s arbitrary: n)
  case (Cons c s)
  then show ?case by (cases n) auto
qed simp

lemma list_all_take_takeWhile: "n \<le> length (takeWhile P s) \<Longrightarrow> list_all P (take n s)"
  by (metis list_all_iff set_takeWhileD takeWhile_eq_take take_take min.absorb1 set_take_subset subsetD)

lemma class_prefixes:
  "(\<exists>n \<le> length (takeWhile P s). p = take n s \<and> r = drop n s) \<longleftrightarrow> s = p @ r \<and> list_all P p"
proof
  assume "s = p @ r \<and> list_all P p"
  then show "\<exists>n \<le> length (takeWhile P s). p = take n s \<and> r = drop n s"
    using takeWhile_prefix [of P "length p" s] by (intro exI [of _ "length p"]) auto
qed (auto simp: list_all_take_takeWhile)

lemma in_splits: "(p, r) \<in> (\<lambda>n. (take n s, drop n s)) ` {0..<Suc (length (takeWhile P s))} \<longleftrightarrow> s = p @ r \<and> list_all P p"
  unfolding class_prefixes [symmetric] image_iff Bex_def by (auto simp: less_Suc_eq_le)

lemma item_match_iff: "(p, r) \<in> set (item_match i s) \<longleftrightarrow> s = p @ r \<and> item_ok i p"
proof (cases i)
  case (Lit l)
  then show ?thesis by (cases "strip_prefix l s") (use strip_prefix_Some [of l s] in \<open>auto\<close>)
next
  case (One P)
  then show ?thesis by (auto split: list.splits)
qed (simp_all only: item_match.simps set_map set_rev set_upt in_splits item_ok.simps)

text \<open>The matcher finds exactly the ways to divide the text among the items.\<close>

lemma rx_match_iff: "(ps, r) \<in> set (rx_match is s) \<longleftrightarrow> s = concat ps @ r \<and> list_all2 item_ok is ps"
proof (induction "is" arbitrary: s ps)
  case (Cons i "is")
  have "(ps, r) \<in> set (rx_match (i # is) s) \<longleftrightarrow> (\<exists>p r'. (p, r') \<in> set (item_match i s) \<and> (\<exists>ps'. ps = p # ps' \<and> (ps', r) \<in> set (rx_match is r')))"
    (is "?l \<longleftrightarrow> ?r")
  proof
    assume ?l
    then show ?r
      by auto
  next
    assume ?r
    then obtain p r' ps' where "(p, r') \<in> set (item_match i s)" "ps = p # ps'" "(ps', r) \<in> set (rx_match is r')"
      by blast
    then show ?l
      by (auto intro!: bexI [of _ "(p, r')"] image_eqI [of _ _ "(ps', r)"])
  qed
  also have "\<dots> \<longleftrightarrow> (\<exists>p ps'. ps = p # ps' \<and> s = p @ concat ps' @ r \<and> item_ok i p \<and> list_all2 item_ok is ps')"
    unfolding item_match_iff Cons.IH by blast
  finally show ?case
    by (auto simp: list_all2_Cons1)
qed auto

definition matches_at :: "item list \<Rightarrow> string \<Rightarrow> bool" where
  "matches_at is s \<longleftrightarrow> (\<exists>ps r. s = concat ps @ r \<and> list_all2 item_ok is ps)"

lemma matches_at_iff: "matches_at is s \<longleftrightarrow> rx_match is s \<noteq> []"
  by (metis matches_at_def rx_match_iff list.set_intros(1) neq_Nil_conv surj_pair empty_iff list.set(1))

lemma rx_search_None: "rx_search is s = None \<longleftrightarrow> (\<forall>pre t. s = pre @ t \<longrightarrow> \<not> matches_at is t)"
proof (induction s)
  case Nil
  then show ?case
    by (subst rx_search.simps) (auto simp: matches_at_iff split: list.splits prod.splits)
next
  case (Cons c s)
  have "(\<forall>pre t. c # s = pre @ t \<longrightarrow> \<not> matches_at is t) \<longleftrightarrow> \<not> matches_at is (c # s) \<and> (\<forall>pre t. s = pre @ t \<longrightarrow> \<not> matches_at is t)"
    by (auto simp: Cons_eq_append_conv)
  moreover have "rx_search is (c # s) = None \<longleftrightarrow> \<not> matches_at is (c # s) \<and> rx_search is s = None"
    by (subst rx_search.simps) (auto simp: matches_at_iff split: list.splits prod.splits)
  ultimately show ?case
    using Cons.IH by simp
qed

lemma rx_search_Some:
  "rx_search is s = Some (pre, ps, r) \<Longrightarrow>
     s = pre @ concat ps @ r \<and> list_all2 item_ok is ps \<and> hd (rx_match is (concat ps @ r)) = (ps, r)
     \<and> (\<forall>u v. pre = u @ v \<and> v \<noteq> [] \<longrightarrow> \<not> matches_at is (v @ concat ps @ r))"
proof (induction s arbitrary: pre)
  case Nil
  then show ?case
    using rx_match_iff [of ps r "is" "[]"]
    by (subst (asm) rx_search.simps) (auto split: list.splits prod.splits simp del: concat_eq_Nil_conv)
next
  case (Cons c s)
  show ?case
  proof (cases "rx_match is (c # s)")
    case Nil
    with Cons.prems obtain pre' where "pre = c # pre'" "rx_search is s = Some (pre', ps, r)"
      by (subst (asm) rx_search.simps) auto
    with Cons.IH [of pre'] Nil show ?thesis
      by (auto simp: matches_at_iff Cons_eq_append_conv)
  next
    case (Cons m ms)
    with Cons.prems have "pre = []" "m = (ps, r)"
      by (auto simp: rx_search.simps [of "is" "c # s"] split: prod.splits)
    with Cons rx_match_iff [of ps r "is" "c # s"] show ?thesis
      by auto
  qed
qed

section \<open>All matches of a text\<close>

lemma rx_cut_next:
  "rx_search is s = Some (pre, ps, r) \<Longrightarrow> length r < length s \<Longrightarrow> rx_cut is s = ((pre, ps) # fst (rx_cut is r), snd (rx_cut is r))"
  by (subst rx_cut.simps) (simp add: split_beta)

lemma rx_cut_cases:
  obtains (Halt) "rx_cut is s = ([], s)"
    | (Next) pre ps r where "rx_search is s = Some (pre, ps, r)" "length r < length s"
proof (cases "rx_search is s")
  case None
  then show ?thesis
    using Halt by (simp add: rx_cut.simps [of "is" s])
next
  case (Some m)
  obtain pre ps r where "m = (pre, ps, r)"
    by (rule prod_cases3)
  with Some have m: "rx_search is s = Some (pre, ps, r)"
    by simp
  show ?thesis
  proof (cases "length r < length s")
    case False
    then show ?thesis
      using Halt m by (simp add: rx_cut.simps [of "is" s])
  qed (use Next m in blast)
qed

lemma rx_cut_induct [case_names Halt Next]:
  assumes "\<And>s. rx_cut is s = ([], s) \<Longrightarrow> P s"
    and "\<And>s pre ps r. rx_search is s = Some (pre, ps, r) \<Longrightarrow>
      rx_cut is s = ((pre, ps) # fst (rx_cut is r), snd (rx_cut is r)) \<Longrightarrow> P r \<Longrightarrow> P s"
  shows "P s"
proof (induction "length s" arbitrary: s rule: less_induct)
  case less
  show ?case
    by (cases "is" s rule: rx_cut_cases) (use assms less rx_cut_next in blast)+
qed

lemma rx_cut_law:
  "concat (map (\<lambda>(pre, ps). pre @ concat ps) (fst (rx_cut is s))) @ snd (rx_cut is s) = s
   \<and> (\<forall>(pre, ps)\<in>set (fst (rx_cut is s)). list_all2 item_ok is ps)"
  by (induction s rule: rx_cut_induct [of "is"]) (auto dest!: rx_search_Some)

text \<open>What \<open>findall\<close> finds occurs in the text, divided as the first match there divides it.\<close>

lemma rx_findall_sound:
  "ps \<in> set (rx_findall is s) \<Longrightarrow>
     \<exists>pre r. s = pre @ concat ps @ r \<and> list_all2 item_ok is ps \<and> hd (rx_match is (concat ps @ r)) = (ps, r)"
proof (induction s rule: rx_cut_induct [of "is"])
  case (Halt s)
  then show ?case by (simp add: rx_findall_def)
next
  case (Next s pre ps' r)
  note found = rx_search_Some [OF Next(1)]
  from Next(2) Next.prems have "ps = ps' \<or> ps \<in> set (rx_findall is r)"
    by (auto simp: rx_findall_def)
  then show ?case
  proof
    assume "ps \<in> set (rx_findall is r)"
    with Next.IH obtain pre' r' where "r = pre' @ concat ps @ r'" "list_all2 item_ok is ps"
        "hd (rx_match is (concat ps @ r')) = (ps, r')"
      by blast
    then show ?thesis
      using found by (intro exI [of _ "pre @ concat ps' @ pre'"] exI [of _ r']) auto
  qed (use found in blast)
qed

text \<open>
  A pattern is anchored at a character when each of its matches starts with it and contains it nowhere else: then no
  match overlaps another, and \<open>findall\<close> misses none.
\<close>

fun item_avoids :: "char \<Rightarrow> item \<Rightarrow> bool" where
  "item_avoids c (Lit l) \<longleftrightarrow> c \<notin> set l"
| "item_avoids c (One P) \<longleftrightarrow> \<not> P c"
| "item_avoids c (Many P) \<longleftrightarrow> \<not> P c"
| "item_avoids c (Few P) \<longleftrightarrow> \<not> P c"

definition anchored :: "char \<Rightarrow> item list \<Rightarrow> bool" where
  "anchored c is \<longleftrightarrow> (\<exists>l js. is = Lit (c # l) # js \<and> c \<notin> set l \<and> list_all (item_avoids c) js)"

lemma avoided: "item_avoids c i \<Longrightarrow> item_ok i p \<Longrightarrow> c \<notin> set p"
  by (cases i) (auto simp: list_all_iff)

lemma anchored_match:
  assumes "anchored c is" "list_all2 item_ok is ps"
  shows "\<exists>u. concat ps = c # u \<and> c \<notin> set u"
proof -
  obtain l js qs where a: "is = Lit (c # l) # js" "c \<notin> set l" "list_all (item_avoids c) js" "ps = (c # l) # qs" "list_all2 item_ok js qs"
    using assms by (auto simp: anchored_def list_all2_Cons1)
  have "c \<notin> set (concat qs)"
    using a(5,3) by (induction rule: list_all2_induct) (auto dest: avoided)
  with a show ?thesis
    by auto
qed

lemma anchored_found:
  assumes "anchored c is" "matches_at is t"
  shows "fst (hd (rx_match is t)) \<in> set (rx_findall is (pre @ t))"
proof (induction "length pre" arbitrary: pre rule: less_induct)
  case less
  let ?s = "pre @ t"
  obtain pre' ps r where m: "rx_search is ?s = Some (pre', ps, r)"
    using rx_search_None [of "is" ?s] assms(2) by (cases "rx_search is ?s") auto
  note found = rx_search_Some [OF m]
  obtain u where u: "concat ps = c # u" "c \<notin> set u"
    using anchored_match [OF assms(1), of ps] found by auto
  have cut: "rx_findall is ?s = ps # rx_findall is r"
    using rx_cut_next [OF m] arg_cong [of _ _ length, OF found [THEN conjunct1]] u(1) by (simp add: rx_findall_def)
  obtain qs r0 where "t = concat qs @ r0" "list_all2 item_ok is qs"
    using assms(2) unfolding matches_at_def by blast
  then obtain t' where t: "t = c # t'"
    using anchored_match [OF assms(1), of qs] by auto
  have eq: "pre @ t = pre' @ concat ps @ r"
    using found by simp
  then obtain v where "pre = pre' @ v \<and> v @ t = concat ps @ r \<or> pre' = pre @ v \<and> t = v @ concat ps @ r"
    unfolding append_eq_append_conv2 by blast
  then consider (same) "pre = pre'" "t = concat ps @ r" | (later) "pre = pre' @ v" "v \<noteq> []" "v @ t = concat ps @ r"
    | (earlier) "pre' = pre @ v" "v \<noteq> []" "t = v @ concat ps @ r"
    by (elim disjE conjE; cases "v = []"; simp)
  then show ?case
  proof cases
    case same
    then show ?thesis
      using cut found by simp
  next
    case later
    then obtain v' where v': "v = c # v'" "v' @ t = u @ r"
      using u(1) by (cases v) auto
    obtain w where "v' = u @ w \<and> w @ t = r \<or> v' @ w = u \<and> t = w @ r"
      using v'(2) by (auto simp: append_eq_append_conv2)
    then obtain w where "r = w @ t" "v' = u @ w"
      using u(2) t by (cases w) auto
    then show ?thesis
      using less [of w] later(1) v'(1) cut by simp
  next
    case earlier
    then show ?thesis
      using found assms(2) by auto
  qed
qed

end
