(* ===== verification/Experiment.thy ===== *)
theory Experiment
  imports Sample Regex
begin

text \<open>
  The comparison of the two control architectures: \<open>experiments/run_prosa_vs_adacor.py\<close>, which launches the runs in
  batches and turns the history database into one row of metrics per run, and
  \<open>experiments/analyze_results.py\<close>, which tests and sizes their difference. Launching the simulator and the
  statistical tests of the scientific library are parameters.
\<close>

section \<open>Energy cost of a run\<close>

text \<open>A row of the EnergyTelemetry table, ordered by time; a missing value is nan.\<close>

record energy_row =
  en_sim_time :: "real option"
  en_price_eur_mwh :: "real option"
  en_power_kw :: "real option"

definition cost_rate :: "energy_row \<Rightarrow> real option" where
  "cost_rate r = (case (en_power_kw r, en_price_eur_mwh r) of (Some p, Some c) \<Rightarrow> Some (p * c / 1000) | _ \<Rightarrow> None)"

definition dt_hours :: "energy_row \<Rightarrow> energy_row \<Rightarrow> real" where
  "dt_hours prev r = (case (en_sim_time prev, en_sim_time r) of (Some t0, Some t) \<Rightarrow> (t - t0) / 3600 | _ \<Rightarrow> 0)"

definition trapezoid :: "energy_row \<Rightarrow> energy_row \<Rightarrow> real option" where
  "trapezoid prev r = (case (cost_rate r, cost_rate prev) of
     (Some c, Some c0) \<Rightarrow> Some ((c + c0) / 2 * dt_hours prev r) | _ \<Rightarrow> None)"

fun sum_trapezoids :: "energy_row list \<Rightarrow> real" where
  "sum_trapezoids (r0 # r # rs) = (case trapezoid r0 r of None \<Rightarrow> 0 | Some v \<Rightarrow> v) + sum_trapezoids (r # rs)"
| "sum_trapezoids _ = 0"

text \<open>\<open>None\<close> is a query that failed.\<close>

definition compute_energy_cost :: "energy_row list option \<Rightarrow> real" where
  "compute_energy_cost query = (case query of None \<Rightarrow> 0 | Some e \<Rightarrow> if length e < 2 then 0 else sum_trapezoids e)"

section \<open>Metrics of a run\<close>

record order_row =
  or_run_id :: int
  or_event_type :: string
  or_order_id :: string
  or_sim_time :: real

record quality_row =
  ql_run_id :: int
  ql_defect :: real

record run_metrics =
  rm_schema :: string
  rm_run_id :: int
  rm_throughput :: real
  rm_tardiness_mean :: real
  rm_tardiness_max :: real
  rm_tardiness_std :: real
  rm_wip_mean :: real
  rm_submitted_count :: nat
  rm_completed_count :: nat
  rm_defect_rate :: real
  rm_energy_cost_eur :: real

definition std0 :: "real list \<Rightarrow> real" where
  "std0 xs = sqrt (mean (map (\<lambda>x. (x - mean xs) ^ 2) xs))"

text \<open>The inner join of the submitted and the completed rows on the order identifier, as cycle times.\<close>

definition cycle_times :: "order_row list \<Rightarrow> order_row list \<Rightarrow> real list" where
  "cycle_times submitted completed =
     concat (map (\<lambda>s. map (\<lambda>c. or_sim_time c - or_sim_time s) (filter (\<lambda>c. or_order_id c = or_order_id s) completed)) submitted)"

definition run_row ::
    "string \<Rightarrow> order_row list \<Rightarrow> quality_row list \<Rightarrow> (int \<Rightarrow> energy_row list option) \<Rightarrow> int \<Rightarrow> run_metrics" where
  "run_row schema_name orders quality energy run_id =
     (let run_orders = filter (\<lambda>o'. or_run_id o' = run_id) orders;
          run_quality = filter (\<lambda>q. ql_run_id q = run_id) quality;
          submitted = filter (\<lambda>o'. or_event_type o' = ''SUBMITTED'') run_orders;
          completed = filter (\<lambda>o'. or_event_type o' = ''COMPLETED'') run_orders;
          defect_rate = (if run_quality = [] then 0 else mean (map ql_defect run_quality));
          energy_cost_eur = compute_energy_cost (energy run_id);
          cycle = cycle_times submitted completed;
          row = \<lparr>rm_schema = schema_name, rm_run_id = run_id, rm_throughput = 0, rm_tardiness_mean = 0, rm_tardiness_max = 0,
            rm_tardiness_std = 0, rm_wip_mean = 0, rm_submitted_count = length submitted,
            rm_completed_count = length completed, rm_defect_rate = defect_rate, rm_energy_cost_eur = energy_cost_eur\<rparr>
      in if cycle = [] then row
         else let max_time = max_list (map or_sim_time run_orders) in
           row\<lparr>rm_throughput := (if max_time > 0 then real (length cycle) / max_time else 0),
               rm_tardiness_mean := mean cycle, rm_tardiness_max := max_list cycle, rm_tardiness_std := std0 cycle,
               rm_wip_mean := (if max_time > 0 then sum_list cycle / max_time else 0)\<rparr>)"

text \<open>The tables of the history database; without the quality table it counts as empty.\<close>

record history =
  hs_orders :: "order_row list option"
  hs_quality :: "quality_row list option"
  hs_energy :: "int \<Rightarrow> energy_row list option"

definition extract_metrics :: "int \<Rightarrow> string \<Rightarrow> history \<Rightarrow> run_metrics list res" where
  "extract_metrics RUN_COUNT schema_name db =
     (case hs_orders db of None \<Rightarrow> Inl RuntimeError
      | Some orders \<Rightarrow> Inr (map (run_row schema_name orders (case hs_quality db of None \<Rightarrow> [] | Some q \<Rightarrow> q) (hs_energy db))
          [0..RUN_COUNT - 1]))"


subsection \<open>Facts on the energy cost\<close>

definition complete_row :: "energy_row \<Rightarrow> bool" where
  "complete_row r \<longleftrightarrow> en_sim_time r \<noteq> None \<and> en_price_eur_mwh r \<noteq> None \<and> en_power_kw r \<noteq> None"

definition row_time :: "energy_row \<Rightarrow> real" where
  "row_time r = the (en_sim_time r)"

definition rate_between :: "real \<Rightarrow> real \<Rightarrow> energy_row \<Rightarrow> bool" where
  "rate_between lo hi r \<longleftrightarrow> complete_row r \<and> lo \<le> the (cost_rate r) \<and> the (cost_rate r) \<le> hi"

lemma complete_cost_rate: "complete_row r \<Longrightarrow> \<exists>c. cost_rate r = Some c"
  unfolding complete_row_def cost_rate_def by (elim conjE) (auto simp only: not_None_eq prod.case option.case)

lemma trapezoid_bounds:
  assumes "rate_between lo hi r0" "rate_between lo hi r" "row_time r0 \<le> row_time r"
  shows "\<exists>v. trapezoid r0 r = Some v \<and> lo * ((row_time r - row_time r0) / 3600) \<le> v
    \<and> v \<le> hi * ((row_time r - row_time r0) / 3600)"
proof -
  obtain c0 c where c: "cost_rate r0 = Some c0" "cost_rate r = Some c"
    using assms complete_cost_rate unfolding rate_between_def by metis
  then have b: "lo \<le> (c + c0) / 2" "(c + c0) / 2 \<le> hi"
    using assms by (auto simp: rate_between_def)
  have dt: "dt_hours r0 r = (row_time r - row_time r0) / 3600" "0 \<le> (row_time r - row_time r0) / 3600"
    using assms by (auto simp: rate_between_def complete_row_def dt_hours_def row_time_def)
  show ?thesis
    using mult_right_mono [OF b(1) dt(2)] mult_right_mono [OF b(2) dt(2)]
    by (intro exI [of _ "(c + c0) / 2 * dt_hours r0 r"]) (simp add: trapezoid_def c dt(1))
qed

lemma sum_trapezoids_bounds:
  "list_all (rate_between lo hi) (r0 # rs) \<Longrightarrow> sorted (map row_time (r0 # rs)) \<Longrightarrow>
     lo * ((row_time (last (r0 # rs)) - row_time r0) / 3600) \<le> sum_trapezoids (r0 # rs)
     \<and> sum_trapezoids (r0 # rs) \<le> hi * ((row_time (last (r0 # rs)) - row_time r0) / 3600)"
proof (induction rs arbitrary: r0)
  case Nil
  then show ?case by simp
next
  case (Cons r rs)
  define T where "T = row_time (last (r # rs))"
  have IH: "lo * ((T - row_time r) / 3600) \<le> sum_trapezoids (r # rs)" "sum_trapezoids (r # rs) \<le> hi * ((T - row_time r) / 3600)"
    using Cons.IH [of r] Cons.prems by (auto simp: T_def)
  obtain v where v: "trapezoid r0 r = Some v" "lo * ((row_time r - row_time r0) / 3600) \<le> v"
      "v \<le> hi * ((row_time r - row_time r0) / 3600)"
    using trapezoid_bounds [of lo hi r0 r] Cons.prems by auto
  have s: "k * ((T - row_time r0) / 3600) = k * ((row_time r - row_time r0) / 3600) + k * ((T - row_time r) / 3600)" for k :: real
    by (simp add: field_simps)
  have l: "last (r0 # r # rs) = last (r # rs)"
    by simp
  show ?case
    unfolding l T_def [symmetric] s sum_trapezoids.simps v(1) option.case using IH v(2,3) by simp
qed

text \<open>
  Over complete telemetry in the order of time, the energy cost lies between the lowest and the highest cost
  rate of the run, each times the hours from the first row to the last, however irregular the rows are.
\<close>

theorem energy_cost_between_rates:
  assumes "list_all (rate_between lo hi) rows" "sorted (map row_time rows)" "2 \<le> length rows"
  shows "lo * ((row_time (last rows) - row_time (hd rows)) / 3600) \<le> compute_energy_cost (Some rows)
    \<and> compute_energy_cost (Some rows) \<le> hi * ((row_time (last rows) - row_time (hd rows)) / 3600)"
proof -
  obtain r0 rs where "rows = r0 # rs"
    using assms(3) by (cases rows) auto
  then show ?thesis
    using sum_trapezoids_bounds [of lo hi r0 rs] assms by (auto simp: compute_energy_cost_def)
qed

abbreviation energy_at :: "real \<Rightarrow> real \<Rightarrow> real \<Rightarrow> energy_row" where
  "energy_at t price kw \<equiv> \<lparr>en_sim_time = Some t, en_price_eur_mwh = Some price, en_power_kw = Some kw\<rparr>"

theorem energy_cost_between_rates_witness:
  "2 \<le> compute_energy_cost (Some [energy_at 0 100 20, energy_at 1800 200 10, energy_at 3600 50 80])
   \<and> compute_energy_cost (Some [energy_at 0 100 20, energy_at 1800 200 10, energy_at 3600 50 80]) \<le> 4"
  using energy_cost_between_rates [of 2 4 "[energy_at 0 100 20, energy_at 1800 200 10, energy_at 3600 50 80]"]
  by (simp add: rate_between_def complete_row_def cost_rate_def row_time_def)

subsection \<open>Facts on the metrics of a run\<close>

lemma length_cycle_times:
  "length (cycle_times ss cs) = (\<Sum>s\<leftarrow>ss. length (filter (\<lambda>c. or_order_id c = or_order_id s) cs))"
  by (simp add: cycle_times_def length_concat comp_def)

lemma sum_matches_le:
  "distinct (map or_order_id ss) \<Longrightarrow> (\<Sum>s\<leftarrow>ss. length (filter (\<lambda>c. or_order_id c = or_order_id s) cs)) \<le> length cs"
proof (induction ss arbitrary: cs)
  case Nil
  then show ?case by simp
next
  case (Cons s ss)
  define cs' where "cs' = filter (\<lambda>c. or_order_id c \<noteq> or_order_id s) cs"
  have "filter (\<lambda>c. or_order_id c = or_order_id s') cs = filter (\<lambda>c. or_order_id c = or_order_id s') cs'" if "s' \<in> set ss" for s'
  proof -
    have "or_order_id s' \<noteq> or_order_id s"
      using Cons.prems that by (auto simp: image_iff)
    then show ?thesis
      unfolding cs'_def filter_filter by (intro filter_cong) auto
  qed
  then have "map (\<lambda>s'. length (filter (\<lambda>c. or_order_id c = or_order_id s') cs)) ss
      = map (\<lambda>s'. length (filter (\<lambda>c. or_order_id c = or_order_id s') cs')) ss"
    by simp
  then have "(\<Sum>s'\<leftarrow>ss. length (filter (\<lambda>c. or_order_id c = or_order_id s') cs)) \<le> length cs'"
    using Cons.IH [of cs'] Cons.prems by (simp del: map_eq_conv)
  moreover have "length (filter (\<lambda>c. or_order_id c = or_order_id s) cs) + length cs' = length cs"
    unfolding cs'_def by (rule sum_length_filter_compl)
  ultimately show ?case
    by simp
qed

definition run_events :: "int \<Rightarrow> string \<Rightarrow> order_row list \<Rightarrow> order_row list" where
  "run_events run_id ev orders = filter (\<lambda>o'. or_event_type o' = ev) (filter (\<lambda>o'. or_run_id o' = run_id) orders)"

text \<open>
  The row of a run counts its submitted and completed orders, obeys Little's law (the mean work in progress is the
  throughput times the mean cycle time), and when no order is submitted twice the throughput counts no order
  that was not completed.
\<close>

theorem run_row_littles_law:
  "rm_wip_mean (run_row name orders quality energy k)
     = rm_throughput (run_row name orders quality energy k) * rm_tardiness_mean (run_row name orders quality energy k)
   \<and> rm_submitted_count (run_row name orders quality energy k) = length (run_events k ''SUBMITTED'' orders)
   \<and> rm_completed_count (run_row name orders quality energy k) = length (run_events k ''COMPLETED'' orders)
   \<and> (distinct (map or_order_id (run_events k ''SUBMITTED'' orders)) \<longrightarrow>
       rm_throughput (run_row name orders quality energy k) * max_list (map or_sim_time (filter (\<lambda>o'. or_run_id o' = k) orders))
         \<le> real (rm_completed_count (run_row name orders quality energy k))
       \<or> max_list (map or_sim_time (filter (\<lambda>o'. or_run_id o' = k) orders)) \<le> 0)"
proof -
  define cyc where "cyc = cycle_times (run_events k ''SUBMITTED'' orders) (run_events k ''COMPLETED'' orders)"
  define T where "T = max_list (map or_sim_time (filter (\<lambda>o'. or_run_id o' = k) orders))"
  have "distinct (map or_order_id (run_events k ''SUBMITTED'' orders)) \<Longrightarrow>
      length cyc \<le> length (run_events k ''COMPLETED'' orders)"
    unfolding cyc_def length_cycle_times by (rule sum_matches_le)
  moreover have "rm_throughput (run_row name orders quality energy k) = (if cyc = [] \<or> T \<le> 0 then 0 else real (length cyc) / T)"
      "rm_wip_mean (run_row name orders quality energy k) = (if cyc = [] \<or> T \<le> 0 then 0 else sum_list cyc / T)"
      "rm_tardiness_mean (run_row name orders quality energy k) = (if cyc = [] then 0 else mean cyc)"
      "rm_submitted_count (run_row name orders quality energy k) = length (run_events k ''SUBMITTED'' orders)"
      "rm_completed_count (run_row name orders quality energy k) = length (run_events k ''COMPLETED'' orders)"
    by (simp_all add: run_row_def run_events_def cyc_def T_def Let_def)
  ultimately show ?thesis
    unfolding T_def [symmetric] by (auto simp: mean_def)
qed

section \<open>The template of the factory\<close>

text \<open>The whitespace of a regular expression, over characters below 256.\<close>

definition is_space :: "char \<Rightarrow> bool" where
  "is_space c \<longleftrightarrow> of_char c \<in> {9::nat, 10, 11, 12, 13, 28, 29, 30, 31, 32, 133, 160}"

text \<open>At least one character of a class, and as many as there are.\<close>

definition skip_some :: "(char \<Rightarrow> bool) \<Rightarrow> string \<Rightarrow> string option" where
  "skip_some p s = (if takeWhile p s = [] then None else Some (dropWhile p s))"

text \<open>
  The pattern of the line that places the price artifact, from the first character; the result is the text after the
  match. No repeated class contains the character that follows it, so the greedy match is the only one.
\<close>

definition quote :: char where "quote = CHR 0x22"

definition match_price_artifact :: "string \<Rightarrow> string option" where
  "match_price_artifact s =
     Option.bind (strip_prefix ''artifact'' s) (\<lambda>s. Option.bind (skip_some is_space s) (\<lambda>s.
     Option.bind (strip_prefix ''energy_price'' s) (\<lambda>s. Option.bind (strip_prefix '':'' (dropWhile is_space s)) (\<lambda>s.
     Option.bind (strip_prefix (''factory.EnergyPriceArtifact('' @ [quote]) (dropWhile is_space s)) (\<lambda>s.
     Option.bind (skip_some (\<lambda>c. c \<noteq> quote) s) (\<lambda>s. Option.bind (strip_prefix [quote] s) (\<lambda>s.
     strip_prefix '','' (dropWhile is_space s))))))))"

lemma skip_some_length: "skip_some p s = Some r \<Longrightarrow> length r < length s"
  by (cases s) (auto simp: skip_some_def split: if_splits intro: le_imp_less_Suc length_dropWhile_le)

lemma match_price_artifact_shorter:
  assumes "match_price_artifact s = Some r" shows "length r < length s"
proof -
  have p: "length r \<le> length t" if "strip_prefix p t = Some r" for p t r :: string
    using strip_prefix_length [OF that] by simp
  have d: "length r \<le> length t" if "strip_prefix p (dropWhile q t) = Some r" for p q t r
    using p [OF that] length_dropWhile_le [of q t] by linarith
  have "strip_prefix ''artifact'' s = Some t \<Longrightarrow> length t < length s" for t
    by (drule strip_prefix_length) simp
  then show ?thesis
    using assms unfolding match_price_artifact_def Option.bind_eq_Some_conv
    by (elim exE conjE) (meson d p skip_some_length le_less_trans less_imp_le_nat order.trans)
qed

text \<open>The substitution over the whole text, from the left.\<close>

function price_sub :: "string \<Rightarrow> string \<Rightarrow> string" where
  "price_sub rep [] = []"
| "price_sub rep (c # s) = (case match_price_artifact (c # s) of
     Some rest \<Rightarrow> rep @ price_sub rep rest | None \<Rightarrow> c # price_sub rep s)"
  by pat_completeness auto
termination
  by (relation "measure (\<lambda>(rep, s). length s)") (auto dest: match_price_artifact_shorter)

definition price_line :: "string \<Rightarrow> string" where
  "price_line csv_name = ''artifact energy_price    : factory.EnergyPriceArtifact('' @ [quote] @ csv_name @ [quote] @ '',''"

lemma price_sub_template_line:
  "price_sub (price_line ''b.csv'') (''  artifact energy_price: factory.EnergyPriceArtifact('' @ [quote] @ ''a.csv'' @ [quote] @ '', 7)'')
     = ''  '' @ price_line ''b.csv'' @ '' 7)''"
  by code_simp

section \<open>The experiment\<close>

text \<open>
  The files of the experiment: the template and everything else, of a type of its own. The environment of a batch is
  that of the process with the entries the experiment sets. What the experiment runs and reads is given by
  \<open>tools\<close>: launching a batch (which also checks its exit code), deleting the database files, reading the tables,
  saving the results and running the analysis.
\<close>

record 'w files =
  jcm_template :: string
  outside :: 'w

record launch_env =
  le_run_start_id :: "int option"
  le_run_count :: int
  le_adacor_enabled :: "bool option"
  le_telemetry_secret :: string
  le_other :: "string \<rightharpoonup> string"

record 'w tools =
  launch_phase4 :: "launch_env \<Rightarrow> ('w files, unit) meth"
  delete_database :: "'w \<Rightarrow> 'w"
  read_history :: "'w \<Rightarrow> history"
  save_results :: "run_metrics list \<Rightarrow> ('w files, unit) meth"
  run_analysis :: "('w files, unit) meth"

definition resolve_telemetry_secret :: "(string \<rightharpoonup> string) \<Rightarrow> string \<Rightarrow> string" where
  "resolve_telemetry_secret environ fresh = (case environ ''TELEMETRY_HMAC_SECRET'' of
     None \<Rightarrow> fresh | Some value \<Rightarrow> if value \<noteq> [] then value else fresh)"

definition set_jcm_csv :: "string \<Rightarrow> ('w files, unit) meth" where
  "set_jcm_csv csv_name = updates (\<lambda>s. s\<lparr>jcm_template := price_sub (price_line csv_name) (jcm_template s)\<rparr>)"

definition batch_size :: int where "batch_size = 5"

definition batch_starts :: "int \<Rightarrow> int list" where
  "batch_starts RUN_COUNT = map (\<lambda>k. batch_size * k) [0..(RUN_COUNT + batch_size - 1) div batch_size - 1]"

definition batch_env :: "int \<Rightarrow> launch_env \<Rightarrow> int \<Rightarrow> launch_env" where
  "batch_env RUN_COUNT env start_id =
     env\<lparr>le_run_start_id := Some start_id, le_run_count := min batch_size (RUN_COUNT - start_id)\<rparr>"

fun run_batches :: "'w tools \<Rightarrow> int \<Rightarrow> launch_env \<Rightarrow> int list \<Rightarrow> ('w files, unit) meth" where
  "run_batches tools RUN_COUNT env [] = ret ()"
| "run_batches tools RUN_COUNT env (start_id # ids) =
     seq (launch_phase4 tools (batch_env RUN_COUNT env start_id)) (\<lambda>_. run_batches tools RUN_COUNT env ids)"

definition run_arm :: "'w tools \<Rightarrow> int \<Rightarrow> launch_env \<Rightarrow> string \<Rightarrow> bool \<Rightarrow> ('w files, run_metrics list) meth" where
  "run_arm tools RUN_COUNT env schema_name adacor =
     seq (updates (\<lambda>s. s\<lparr>outside := delete_database tools (outside s)\<rparr>)) (\<lambda>_.
     seq (run_batches tools RUN_COUNT (env\<lparr>le_adacor_enabled := Some adacor\<rparr>) (batch_starts RUN_COUNT)) (\<lambda>_.
     seq (reads (\<lambda>s. read_history tools (outside s))) (\<lambda>db.
     pure_res (extract_metrics RUN_COUNT schema_name db))))"

definition run_arms :: "'w tools \<Rightarrow> int \<Rightarrow> launch_env \<Rightarrow> ('w files, unit) meth" where
  "run_arms tools RUN_COUNT env =
     seq (set_jcm_csv ''price_series_spike_test.csv'') (\<lambda>_.
     seq (run_arm tools RUN_COUNT env ''PROSA'' False) (\<lambda>df_prosa.
     seq (run_arm tools RUN_COUNT env ''ADACOR'' True) (\<lambda>df_adacor.
     seq (save_results tools (df_prosa @ df_adacor)) (\<lambda>_. run_analysis tools))))"

definition experiment_main :: "'w tools \<Rightarrow> int \<Rightarrow> (string \<rightharpoonup> string) \<Rightarrow> string \<Rightarrow> ('w files, unit) meth" where
  "experiment_main tools RUN_COUNT environ fresh s =
     (let env = \<lparr>le_run_start_id = None, le_run_count = RUN_COUNT, le_adacor_enabled = None,
            le_telemetry_secret = resolve_telemetry_secret environ fresh, le_other = environ\<rparr>;
          original_jcm = jcm_template s;
          (outcome, s1) = run_arms tools RUN_COUNT env s
      in (outcome, s1\<lparr>jcm_template := original_jcm\<rparr>))"

subsection \<open>What the experiment does\<close>

lemma upto_pred_append: "a \<le> b \<Longrightarrow> b \<le> c \<Longrightarrow> [a..b - 1] @ [b..c - 1] = [a..c - 1]" for a b c :: int
  using upto_split1 [of a b "c - 1"] by (cases "b = c") auto

text \<open>
  The batches of an arm run every run exactly once, in order, and none of them is empty or larger than five.
\<close>

theorem batches_run_every_run_once:
  "concat (map (\<lambda>start. [start..start + le_run_count (batch_env n env start) - 1]) (batch_starts n)) = [0..n - 1]
   \<and> (\<forall>start\<in>set (batch_starts n). 1 \<le> le_run_count (batch_env n env start) \<and> le_run_count (batch_env n env start) \<le> 5)"
proof -
  have "concat (map (\<lambda>start. [start..start + min 5 (n - start) - 1]) (map (\<lambda>k. 5 * k) [0..int j - 1])) = [0..min n (5 * int j) - 1]"
    if "int j \<le> (n + 4) div 5" for j
    using that
  proof (induction j)
    case 0
    then show ?case by simp
  next
    case (Suc j)
    have "5 * int j \<le> n - 1"
      using Suc.prems by simp
    moreover have "[0..int (Suc j) - 1] = [0..int j - 1] @ [int j]"
      by (simp add: upto_rec2)
    ultimately show ?case
      using Suc upto_pred_append [of 0 "5 * int j" "5 * int j + min 5 (n - 5 * int j)"]
      by (simp add: min_def algebra_simps)
  qed
  from this [of "nat ((n + 4) div 5)"]
  have "concat (map (\<lambda>start. [start..start + min 5 (n - start) - 1]) (map (\<lambda>k. 5 * k) [0..(n + 4) div 5 - 1])) = [0..n - 1]"
    by (cases "0 \<le> (n + 4) div 5") (auto simp: min_def)
  moreover have "1 \<le> n - 5 * k" if "k \<le> (n + 4) div 5 - 1" for k
    using that by linarith
  ultimately show ?thesis
    by (auto simp: batch_starts_def batch_env_def batch_size_def add.commute [of 4 n])
qed

lemmas experiment_steps = experiment_main_def run_arms_def run_arm_def set_jcm_csv_def Let_def

text \<open>
  Whatever a run of the simulator, the database or the analysis does, and whether the experiment succeeds or
  fails, the template of the factory is afterwards what it was.
\<close>

theorem experiment_restores_template:
  "jcm_template (snd (experiment_main tools n environ fresh s)) = jcm_template s"
  by (simp add: experiment_main_def Let_def split: prod.split)

lemma run_arm_rows:
  assumes "run_arm tools n env name adacor s = (Inr rows, s1)"
  shows "\<exists>orders quality energy. rows = map (run_row name orders quality energy) [0..n - 1]"
  using assms unfolding run_arm_def seq_Inr by (auto simp: pure_res_def extract_metrics_def split: option.splits simp del: map_eq_conv)

lemma run_row_identity [simp]:
  "rm_run_id (run_row name orders quality energy k) = k" "rm_schema (run_row name orders quality energy k) = name"
  by (simp_all add: run_row_def Let_def)

text \<open>
  An experiment that succeeds has saved one row per run and arm, the PROSA runs before the ADACOR runs and each
  arm in the order of its runs, and then analysed them.
\<close>

theorem experiment_saves_both_arms:
  assumes "experiment_main tools n environ fresh s = (Inr (), s')"
  shows "\<exists>rows s1 s2. save_results tools rows s1 = (Inr (), s2) \<and> fst (run_analysis tools s2) = Inr ()
    \<and> map (\<lambda>r. (rm_schema r, rm_run_id r)) rows = map (Pair ''PROSA'') [0..n - 1] @ map (Pair ''ADACOR'') [0..n - 1]"
proof -
  obtain env s'' where "run_arms tools n env s = (Inr (), s'')"
    using assms by (auto simp: experiment_main_def Let_def split: prod.splits)
  then obtain p a s0 s1 s2 s3 where arms: "run_arm tools n env ''PROSA'' False s0 = (Inr p, s1)"
      "run_arm tools n env ''ADACOR'' True s1 = (Inr a, s2)"
      and r: "save_results tools (p @ a) s2 = (Inr (), s3)" "run_analysis tools s3 = (Inr (), s'')"
    by (auto simp: run_arms_def seq_Inr)
  have "map (\<lambda>r. (rm_schema r, rm_run_id r)) (p @ a) = map (Pair ''PROSA'') [0..n - 1] @ map (Pair ''ADACOR'') [0..n - 1]"
    using run_arm_rows [OF arms(1)] run_arm_rows [OF arms(2)] by auto
  with r show ?thesis
    by (metis fst_conv)
qed

definition idle_tools :: "order_row list \<Rightarrow> run_metrics list tools" where
  "idle_tools orders = \<lparr>launch_phase4 = \<lambda>env. ret (), delete_database = \<lambda>w. w,
     read_history = \<lambda>w. \<lparr>hs_orders = Some orders, hs_quality = None, hs_energy = \<lambda>k. Some []\<rparr>,
     save_results = \<lambda>rows. updates (\<lambda>s. s\<lparr>outside := rows\<rparr>), run_analysis = ret ()\<rparr>"

theorem experiment_saves_both_arms_witness:
  "\<exists>rows s1 s2. save_results (idle_tools []) rows s1 = (Inr (), s2) \<and> fst (run_analysis (idle_tools []) s2) = Inr ()
    \<and> map (\<lambda>r. (rm_schema r, rm_run_id r)) rows = [(''PROSA'', 0), (''ADACOR'', 0)]"
proof -
  have "\<exists>s'. experiment_main (idle_tools []) 1 (\<lambda>_. None) ''secret'' \<lparr>jcm_template = [], outside = []\<rparr> = (Inr (), s')"
    by (simp add: experiment_steps idle_tools_def meth_defs batch_starts_def batch_size_def extract_metrics_def
        run_row_def cycle_times_def compute_energy_cost_def)
  then obtain s' where "experiment_main (idle_tools []) 1 (\<lambda>_. None) ''secret'' \<lparr>jcm_template = [], outside = []\<rparr> = (Inr (), s')"
    by blast
  then show ?thesis
    using experiment_saves_both_arms [of "idle_tools []" 1 "\<lambda>_. None" "''secret''" "\<lparr>jcm_template = [], outside = []\<rparr>" s']
    by simp
qed

end
