(* ===== verification/Analysis.thy ===== *)
theory Analysis
  imports Experiment
begin

text \<open>
  \<open>experiments/analyze_results.py\<close>: the statistics of the two arms of the experiment. The tests of the scientific
  library are parameters; what the analysis computes itself, the effect sizes and the diagnostic of runs that
  completed almost nothing, is modelled in full. Writing the report as text is not.
\<close>

section \<open>Statistics of a metric\<close>

text \<open>The functions of the library; a value that may be nan is an option.\<close>

record stat_lib =
  sem :: "real list \<Rightarrow> real"
  t_ppf :: "real \<Rightarrow> nat \<Rightarrow> real"
  bootstrap :: "real list \<Rightarrow> nat \<Rightarrow> real \<Rightarrow> real option \<times> real option"
  shapiro_p :: "real list \<Rightarrow> real option"
  ttest_ind :: "real list \<Rightarrow> real list \<Rightarrow> real option \<times> real option"
  mannwhitneyu :: "real list \<Rightarrow> real list \<Rightarrow> real \<times> real"

definition bootstrap_ci :: "stat_lib \<Rightarrow> real list \<Rightarrow> nat \<Rightarrow> real \<Rightarrow> real option \<times> real option" where
  "bootstrap_ci lib sample n_resamples confidence =
     (if length sample < 3
      then if length sample < 2 then (None, None)
           else let m = mean sample; se = sem lib sample; t_crit = t_ppf lib ((1 + confidence) / 2) (length sample - 1)
             in (Some (m - t_crit * se), Some (m + t_crit * se))
      else bootstrap lib sample n_resamples confidence)"

text \<open>The variance with one degree of freedom less, nan for fewer than two values.\<close>

definition var1 :: "real list \<Rightarrow> real option" where
  "var1 a = (if length a < 2 then None else Some (sum_list (map (\<lambda>x. (x - mean a) ^ 2) a) / (real (length a) - 1)))"

definition cohens_d :: "real list \<Rightarrow> real list \<Rightarrow> real option" where
  "cohens_d a b =
     Option.bind (var1 a) (\<lambda>va. Option.bind (var1 b) (\<lambda>vb.
       let na = real (length a); nb = real (length b);
           pooled_sd = sqrt (((na - 1) * va + (nb - 1) * vb) / (na + nb - 2))
       in if pooled_sd = 0 then None else Some ((mean a - mean b) / pooled_sd)))"

definition rank_biserial_r :: "real \<Rightarrow> nat \<Rightarrow> nat \<Rightarrow> real option" where
  "rank_biserial_r u_stat na nb = (if na * nb = 0 then None else Some (1 - (2 * u_stat) / real (na * nb)))"

datatype stat_test = Welch_t | Mann_Whitney_U
datatype effect = Cohens_d | Rank_biserial_r

record metric_result =
  mr_metric :: string
  mr_prosa_n :: nat
  mr_adacor_n :: nat
  mr_prosa_mean :: real
  mr_adacor_mean :: real
  mr_prosa_std :: real
  mr_adacor_std :: real
  mr_prosa_ci95 :: "real option \<times> real option"
  mr_adacor_ci95 :: "real option \<times> real option"
  mr_shapiro_p_prosa :: "real option"
  mr_shapiro_p_adacor :: "real option"
  mr_test :: stat_test
  mr_test_statistic :: "real option"
  mr_p_value :: "real option"
  mr_effect_size_name :: effect
  mr_effect_size :: "real option"

definition std1 :: "real list \<Rightarrow> real" where
  "std1 a = (case var1 a of None \<Rightarrow> 0 | Some v \<Rightarrow> sqrt v)"

definition exceeds :: "real option \<Rightarrow> real \<Rightarrow> bool" where
  "exceeds p x \<longleftrightarrow> (case p of None \<Rightarrow> False | Some v \<Rightarrow> v > x)"

text \<open>For samples with at least one value each; the caller skips the others.\<close>

definition analyze_metric :: "stat_lib \<Rightarrow> real list \<Rightarrow> real list \<Rightarrow> string \<Rightarrow> metric_result" where
  "analyze_metric lib prosa adacor metric_name =
     (let enough = length prosa \<ge> 3 \<and> length adacor \<ge> 3;
          p_prosa_norm = (if enough then shapiro_p lib prosa else None);
          p_adacor_norm = (if enough then shapiro_p lib adacor else None);
          both_normal = (enough \<and> exceeds p_prosa_norm 0.05 \<and> exceeds p_adacor_norm 0.05);
          t = ttest_ind lib prosa adacor;
          u = mannwhitneyu lib prosa adacor
      in \<lparr>mr_metric = metric_name, mr_prosa_n = length prosa, mr_adacor_n = length adacor,
          mr_prosa_mean = mean prosa, mr_adacor_mean = mean adacor, mr_prosa_std = std1 prosa, mr_adacor_std = std1 adacor,
          mr_prosa_ci95 = bootstrap_ci lib prosa 9999 0.95, mr_adacor_ci95 = bootstrap_ci lib adacor 9999 0.95,
          mr_shapiro_p_prosa = p_prosa_norm, mr_shapiro_p_adacor = p_adacor_norm,
          mr_test = (if both_normal then Welch_t else Mann_Whitney_U),
          mr_test_statistic = (if both_normal then fst t else Some (fst u)),
          mr_p_value = (if both_normal then snd t else Some (snd u)),
          mr_effect_size_name = (if both_normal then Cohens_d else Rank_biserial_r),
          mr_effect_size = (if both_normal then cohens_d prosa adacor
            else rank_biserial_r (fst u) (length prosa) (length adacor))\<rparr>)"

section \<open>The report\<close>

text \<open>A table of results: its columns, and per row the values of the metrics that are not missing.\<close>

record result_row =
  rr_schema :: string
  rr_run_id :: int
  rr_completed_count :: nat
  rr_metric :: "string \<rightharpoonup> real"

record diagnostic =
  dg_total_runs :: nat
  dg_near_zero_runs :: nat
  dg_near_zero_fraction :: real
  dg_near_zero_run_ids :: "int list"

definition NEAR_ZERO_COMPLETION_THRESHOLD :: nat where "NEAR_ZERO_COMPLETION_THRESHOLD = 1"

definition METRICS :: "string list" where
  "METRICS = [''throughput'', ''tardiness_mean'', ''tardiness_max'', ''wip_mean'', ''energy_cost_eur'', ''defect_rate'']"

fun unique_from :: "'a list \<Rightarrow> 'a list \<Rightarrow> 'a list" where
  "unique_from seen [] = []"
| "unique_from seen (x # xs) = (if x \<in> set seen then unique_from seen xs else x # unique_from (x # seen) xs)"

definition near_zero_completion_diagnostic :: "result_row list \<Rightarrow> (string \<times> diagnostic) list" where
  "near_zero_completion_diagnostic df =
     map (\<lambda>schema. let sub = filter (\<lambda>r. rr_schema r = schema) df;
                        near_zero = filter (\<lambda>r. rr_completed_count r \<le> NEAR_ZERO_COMPLETION_THRESHOLD) sub
       in (schema, \<lparr>dg_total_runs = length sub, dg_near_zero_runs = length near_zero,
          dg_near_zero_fraction = (if length sub > 0 then real (length near_zero) / real (length sub) else 0),
          dg_near_zero_run_ids = map rr_run_id near_zero\<rparr>))
       (unique_from [] (map rr_schema df))"

definition metric_values :: "string \<Rightarrow> string \<Rightarrow> result_row list \<Rightarrow> real list" where
  "metric_values metric schema df = List.map_filter (\<lambda>r. rr_metric r metric) (filter (\<lambda>r. rr_schema r = schema) df)"

definition analyze_results :: "stat_lib \<Rightarrow> string list \<Rightarrow> result_row list \<Rightarrow> (string \<times> diagnostic) list \<times> metric_result list" where
  "analyze_results lib columns df =
     (near_zero_completion_diagnostic df,
      map (\<lambda>metric. analyze_metric lib (metric_values metric ''PROSA'' df) (metric_values metric ''ADACOR'' df) metric)
        (filter (\<lambda>metric. metric \<in> set columns \<and> metric_values metric ''PROSA'' df \<noteq> []
           \<and> metric_values metric ''ADACOR'' df \<noteq> []) METRICS))"

definition caution :: "(string \<times> diagnostic) list \<Rightarrow> bool" where
  "caution diagnostics = list_ex (\<lambda>(schema, d). dg_near_zero_fraction d > 0.15) diagnostics"

section \<open>Facts\<close>

lemma set_unique_from: "set (unique_from seen xs) = set xs - set seen"
  by (induction seen xs rule: unique_from.induct) auto

lemma distinct_unique_from: "distinct (unique_from seen xs)"
  by (induction seen xs rule: unique_from.induct) (auto simp: set_unique_from)

lemma sum_groups:
  "distinct ks \<Longrightarrow> (\<forall>x\<in>set xs. f x \<in> set ks) \<Longrightarrow> (\<Sum>k\<leftarrow>ks. length (filter (\<lambda>x. f x = k) xs)) = length xs"
proof (induction xs)
  case Nil
  then show ?case by simp
next
  case (Cons x xs)
  have "(\<Sum>k\<leftarrow>ks. if f x = k then 1 else 0) = (1::nat)"
    using Cons.prems by (simp add: sum_list_distinct_conv_sum_set)
  moreover have "(\<Sum>k\<leftarrow>ks. length (filter (\<lambda>y. f y = k) (x # xs)))
      = (\<Sum>k\<leftarrow>ks. (if f x = k then 1 else 0) + length (filter (\<lambda>y. f y = k) xs))"
    by (intro arg_cong [where f = sum_list] map_cong) auto
  ultimately show ?case
    using Cons by (simp add: sum_list_addf)
qed

text \<open>
  The diagnostic has one entry per schema, its entries partition the runs, and every share is between 0 and 1.
\<close>

theorem diagnostic_partitions_runs:
  "distinct (map fst (near_zero_completion_diagnostic df))
   \<and> set (map fst (near_zero_completion_diagnostic df)) = rr_schema ` set df
   \<and> (\<Sum>d\<leftarrow>near_zero_completion_diagnostic df. dg_total_runs (snd d)) = length df
   \<and> list_all (\<lambda>d. 0 \<le> dg_near_zero_fraction (snd d) \<and> dg_near_zero_fraction (snd d) \<le> 1)
       (near_zero_completion_diagnostic df)"
proof -
  define ks where "ks = unique_from [] (map rr_schema df)"
  have ks: "distinct ks" "set ks = rr_schema ` set df"
    by (auto simp: ks_def distinct_unique_from set_unique_from)
  have fs: "map fst (near_zero_completion_diagnostic df) = ks"
    by (simp add: near_zero_completion_diagnostic_def ks_def Let_def comp_def)
  have "(\<Sum>d\<leftarrow>near_zero_completion_diagnostic df. dg_total_runs (snd d)) = (\<Sum>k\<leftarrow>ks. length (filter (\<lambda>r. rr_schema r = k) df))"
    by (simp add: near_zero_completion_diagnostic_def ks_def Let_def comp_def)
  also have "\<dots> = length df"
    by (rule sum_groups) (auto simp: ks)
  finally have total_runs: "(\<Sum>d\<leftarrow>near_zero_completion_diagnostic df. dg_total_runs (snd d)) = length df" .
  have share: "real (length (filter p xs)) / real (length xs) \<le> 1" for p :: "result_row \<Rightarrow> bool" and xs
    by (simp add: divide_le_eq_1)
  have "list_all (\<lambda>d. 0 \<le> dg_near_zero_fraction (snd d) \<and> dg_near_zero_fraction (snd d) \<le> 1) (near_zero_completion_diagnostic df)"
    using share by (simp add: near_zero_completion_diagnostic_def list_all_iff Let_def del: filter_filter)
  with total_runs ks show ?thesis
    unfolding fs by simp
qed

text \<open>The U statistic of the first sample, as the library documents it: the pairs it wins, ties counted half.\<close>

definition wins :: "real \<Rightarrow> real \<Rightarrow> real" where
  "wins x y = (if x > y then 1 else if x = y then 1 / 2 else 0)"

definition u_first :: "real list \<Rightarrow> real list \<Rightarrow> real" where
  "u_first a b = (\<Sum>x\<leftarrow>a. \<Sum>y\<leftarrow>b. wins x y)"

lemma sum_list_const_eq: "(\<forall>x\<in>set xs. f x = c) \<Longrightarrow> (\<Sum>x\<leftarrow>xs. f x) = real (length xs) * c"
  by (induction xs) (auto simp: algebra_simps)

lemma u_first_bounds: "0 \<le> u_first a b \<and> u_first a b \<le> real (length a * length b)"
proof -
  have "0 \<le> (\<Sum>y\<leftarrow>b. wins x y) \<and> (\<Sum>y\<leftarrow>b. wins x y) \<le> real (length b)" for x
    using sum_list_bounds [of b 0 "wins x" 1] by (simp add: wins_def)
  then show ?thesis
    using sum_list_bounds [of a 0 "\<lambda>x. \<Sum>y\<leftarrow>b. wins x y" "real (length b)"] by (simp add: u_first_def)
qed

lemma u_first_dominates: "\<forall>x\<in>set a. \<forall>y\<in>set b. y < x \<Longrightarrow> u_first a b = real (length a * length b)"
  unfolding u_first_def by (simp add: sum_list_const_eq [of b _ 1] sum_list_const_eq [of a _ "real (length b)"] wins_def)

lemma mean_dominates:
  assumes "a \<noteq> []" "b \<noteq> []" "\<forall>x\<in>set a. \<forall>y\<in>set b. y < x"
  shows "mean b < mean a"
proof -
  have "mean b \<le> Max (set b)" "Min (set a) \<le> mean a"
    using mean_between [of b "Min (set b)" "Max (set b)"] mean_between [of a "Min (set a)" "Max (set a)"] assms by auto
  moreover have "Max (set b) < Min (set a)"
    using assms by simp
  ultimately show ?thesis by simp
qed

lemma cohens_d_sign:
  assumes "cohens_d a b = Some d" "mean b < mean a" shows "0 < d"
proof -
  obtain va vb where v: "var1 a = Some va" "var1 b = Some vb"
    and d: "(let na = real (length a); nb = real (length b); pooled_sd = sqrt (((na - 1) * va + (nb - 1) * vb) / (na + nb - 2))
       in if pooled_sd = 0 then None else Some ((mean a - mean b) / pooled_sd)) = Some d"
    using assms(1) by (auto simp: cohens_d_def Option.bind_eq_Some_conv)
  define sd where "sd = sqrt (((real (length a) - 1) * va + (real (length b) - 1) * vb) / (real (length a) + real (length b) - 2))"
  have n: "2 \<le> length a" "2 \<le> length b"
    using v by (auto simp: var1_def split: if_splits)
  moreover have "0 \<le> va" "0 \<le> vb"
    using v n by (auto simp: var1_def intro!: divide_nonneg_nonneg sum_list_nonneg)
  ultimately have "0 \<le> sd"
    by (auto simp: sd_def intro!: divide_nonneg_nonneg add_nonneg_nonneg mult_nonneg_nonneg)
  moreover have "sd \<noteq> 0" "d = (mean a - mean b) / sd"
    using d [unfolded Let_def, folded sd_def] by (auto split: if_splits)
  ultimately show ?thesis
    using assms(2) by simp
qed

lemma analyze_metric_effect:
  "\<exists>normal. mr_effect_size_name (analyze_metric lib a b name) = (if normal then Cohens_d else Rank_biserial_r)
    \<and> mr_effect_size (analyze_metric lib a b name)
      = (if normal then cohens_d a b else rank_biserial_r (fst (mannwhitneyu lib a b)) (length a) (length b))"
  unfolding analyze_metric_def Let_def metric_result.simps by (intro exI conjI) (rule refl)+

text \<open>
  C23: the sign of the reported effect depends on the test that was chosen. If every value of the first arm exceeds every
  value of the second, Cohen's d is positive, but the rank-biserial correlation is -1, given the statistic of the
  first sample that the library documents.
\<close>

theorem effect_sign_depends_on_test:
  assumes "mannwhitneyu lib a b = (u_first a b, p)" "a \<noteq> []" "b \<noteq> []" "\<forall>x\<in>set a. \<forall>y\<in>set b. y < x"
  shows "mr_effect_size_name (analyze_metric lib a b name) = Cohens_d \<and>
      (\<forall>d. mr_effect_size (analyze_metric lib a b name) = Some d \<longrightarrow> 0 < d)
    \<or> mr_effect_size_name (analyze_metric lib a b name) = Rank_biserial_r
      \<and> mr_effect_size (analyze_metric lib a b name) = Some (- 1)"
proof -
  have "rank_biserial_r (u_first a b) (length a) (length b) = Some (- 1)"
    using assms(2,3) by (simp add: rank_biserial_r_def u_first_dominates [OF assms(4)])
  moreover have "\<forall>d. cohens_d a b = Some d \<longrightarrow> 0 < d"
    using cohens_d_sign mean_dominates [OF assms(2,3,4)] by blast
  moreover obtain normal where "mr_effect_size_name (analyze_metric lib a b name) = (if normal then Cohens_d else Rank_biserial_r)"
      "mr_effect_size (analyze_metric lib a b name)
        = (if normal then cohens_d a b else rank_biserial_r (u_first a b) (length a) (length b))"
    using analyze_metric_effect [of lib a b name] unfolding assms(1) fst_conv by blast
  ultimately show ?thesis
    by (cases normal) simp_all
qed

definition lib_with_p :: "real \<Rightarrow> stat_lib" where
  "lib_with_p p = \<lparr>sem = \<lambda>a. 0, t_ppf = \<lambda>q n. 0, bootstrap = \<lambda>a n c. (None, None), shapiro_p = \<lambda>a. Some p,
     ttest_ind = \<lambda>a b. (None, None), mannwhitneyu = \<lambda>a b. (u_first a b, p)\<rparr>"

theorem effect_sign_depends_on_test_witness:
  "(\<exists>d. mr_effect_size (analyze_metric (lib_with_p (1 / 2)) [5, 6, 7] [1, 2, 3] ''wip_mean'') = Some d \<and> 0 < d)
   \<and> mr_effect_size (analyze_metric (lib_with_p (1 / 100)) [5, 6, 7] [1, 2, 3] ''wip_mean'') = Some (- 1)"
proof -
  have "cohens_d [5, 6, 7] [1, 2, 3] = Some 4"
    by (simp add: cohens_d_def var1_def mean_def Let_def)
  then have "\<exists>d. mr_effect_size (analyze_metric (lib_with_p (1 / 2)) [5, 6, 7] [1, 2, 3] ''wip_mean'') = Some d"
    by (simp add: lib_with_p_def analyze_metric_def exceeds_def Let_def)
  then show ?thesis
    using effect_sign_depends_on_test [of "lib_with_p (1 / 2)" "[5, 6, 7]" "[1, 2, 3]" "1 / 2" "''wip_mean''"]
      effect_sign_depends_on_test [of "lib_with_p (1 / 100)" "[5, 6, 7]" "[1, 2, 3]" "1 / 100" "''wip_mean''"]
    by (auto simp: lib_with_p_def analyze_metric_def exceeds_def Let_def)
qed

end
