(* ===== verification/Calibration.thy ===== *)
theory Calibration
  imports Stations CellPhysics
begin

text \<open>
  The calibration checks the modules carry (\<open>run_calibration_sanity_checks\<close> of the microstructure and of the four
  stations): named verdicts on nominal and on bad operation. The entries that only report a value are left out.
\<close>

type_synonym verdicts = "(string \<times> bool) list"

definition microstructure_checks :: "verdicts res" where
  "microstructure_checks =
     (let rc_nom = compute_contact_resistance P_NOMINAL_MPA 0.78 R_CONTACT_0;
          rc_under = compute_contact_resistance 2 0.78 R_CONTACT_0;
          rc_over = compute_contact_resistance 6 0.78 R_CONTACT_0;
          sigma_bulk = 100
      in res_bind (compute_effective_porosity_conductivity sigma_bulk 0.4 BRUGGEMAN_EXP) (\<lambda>sigma_eff_low_porosity.
         res_bind (compute_effective_porosity_conductivity sigma_bulk 0.8 BRUGGEMAN_EXP) (\<lambda>sigma_eff_high_porosity.
         Inr [(''r_contact_nominal_matches'', \<bar>rc_nom - R_CONTACT_0\<bar> < 1 / 10 ^ 6),
              (''r_contact_ushaped_curve'', rc_under > rc_nom \<and> rc_over > rc_nom),
              (''bruggeman_porosity_scaling'',
                 sigma_eff_low_porosity > sigma_eff_high_porosity \<and> sigma_eff_high_porosity > 0)])))"

definition station1_checks :: "verdicts res" where
  "station1_checks =
     res_bind (simulate_stage1_mea_prep_safe T_PRESS_NOMINAL_K DWELL_TIME_NOMINAL_S K_TIME_ACCELERATED) (\<lambda>r_nom.
     res_bind (simulate_stage1_mea_prep_safe 403.15 DWELL_TIME_NOMINAL_S K_TIME_ACCELERATED) (\<lambda>r_cold.
     Inr [(''station1_nominal_cure_in_range'', \<not> s1_is_defective r_nom
             \<and> ALPHA_MIN_BOND \<le> s1_alpha_final r_nom \<and> s1_alpha_final r_nom \<le> ALPHA_MAX_SAFE),
          (''station1_under_cure_detected'', s1_is_defective r_cold \<and> s1_alpha_final r_cold < ALPHA_MIN_BOND)]))"

definition station2_checks :: "verdicts res" where
  "station2_checks =
     res_bind (simulate_stage2_catalyst_deposition_safe V_COAT_NOMINAL_M_S MU_SLURRY_NOMINAL_PA_S K_TIME_ACCELERATED) (\<lambda>r_nom.
     res_bind (simulate_stage2_catalyst_deposition_safe 0.3 MU_SLURRY_NOMINAL_PA_S K_TIME_ACCELERATED) (\<lambda>r_fast.
     Inr [(''station2_nominal_ecsa_pristine'', \<not> s2_is_defective r_nom \<and> s2_ecsa_ratio r_nom \<ge> 0.98),
          (''station2_high_speed_defect_detected'', s2_is_defective r_fast \<and> s2_ecsa_ratio r_fast < ECSA_RATIO_MIN_ACCEPTABLE)]))"

text \<open>The forces are those of the random generator: a parameter, never empty in the code.\<close>

definition stamping_defect_rate :: "real list \<Rightarrow> real res" where
  "stamping_defect_rate forces =
     res_bind (map_res (\<lambda>f. simulate_stage1_stamping (max 0 f) 0 0.05 False K_TIME_ACCELERATED) forces) (\<lambda>rs.
     fdiv (real (length (filter s3_is_defective rs))) (real (length forces)))"

definition station3_checks :: "real list \<Rightarrow> verdicts res" where
  "station3_checks forces =
     res_bind (simulate_stage1_stamping_safe F_NOM_S3 0 0.05 False K_TIME_ACCELERATED) (\<lambda>r.
     res_bind (stamping_defect_rate forces) (\<lambda>rate.
     Inr [(''stage1_nominal_nao_defeituoso'', \<not> s3_is_defective r \<and> s3_damage_index r < 1),
          (''stage1_taxa_defeito_proxima_do_alvo_real_S3'', 0 \<le> rate \<and> rate \<le> 0.01)]))"

definition station4_checks :: "verdicts res" where
  "station4_checks =
     (let friction_default = replicate 8 0.15; torques_nominais = replicate 4 TORQUE_NOMINAL_NM in
      res_bind (simulate_stage2_clamping_safe torques_nominais friction_default True K_TIME_ACCELERATED) (\<lambda>r2.
      Inr [(''stage2_torque_nominal_dentro_da_faixa'',
             \<not> s4_is_defective r2 \<and> 3 \<le> s4_p_clamp_mpa r2 \<and> s4_p_clamp_mpa r2 \<le> 5.5)]))"

definition all_pass :: "verdicts \<Rightarrow> bool" where
  "all_pass vs = list_all snd vs"

section \<open>The deterministic checks\<close>

lemma microstructure_checks_pass: "\<exists>vs. microstructure_checks = Inr vs \<and> all_pass vs"
proof -
  have "(2 / 10) powr 1.5 < (6 / 10) powr (1.5::real)"
    by (rule powr_less_mono2) simp_all
  then show ?thesis
    by (simp add: microstructure_checks_def compute_contact_resistance_def compute_effective_porosity_conductivity_def
      Let_def P_NOMINAL_MPA_def R_CONTACT_0_def BRUGGEMAN_EXP_def fpow_pos all_pass_def power2_eq_square)
qed

lemma station2_checks_pass: "\<exists>vs. station2_checks = Inr vs \<and> all_pass vs"
  by (simp add: station2_checks_def simulate_stage2_catalyst_deposition_safe_def simulate_stage2_catalyst_deposition_def
    Let_def V_COAT_NOMINAL_M_S_def MU_SLURRY_NOMINAL_PA_S_def ECSA_RATIO_MIN_ACCEPTABLE_def all_pass_def power2_eq_square)

lemma nominal_bolt_force:
  "\<exists>f. (\<forall>i<4. bolt_force (replicate 4 46) (replicate 8 0.15) i = Inr f) \<and> 26900 \<le> f \<and> f \<le> 29800"
proof -
  define T where "T = P_BOLT / (2 * pi)"
  define Q where "Q = 0.15 * D2_THREAD / (2 * cos BETA_RAD)"
  define d where "d = T + Q + 0.15 * R_BEARING"
  have c: "cos BETA_RAD = sqrt 3 / 2"
    using cos_30 by (simp add: BETA_RAD_def)
  have "P_BOLT / 8 \<le> T" "T \<le> P_BOLT / 4"
    using pi_ge_two pi_less_4 by (auto simp: T_def P_BOLT_def intro!: divide_left_mono)
  moreover have s: "1.732 \<le> sqrt 3" "sqrt 3 \<le> 1.7321"
    using real_le_rsqrt [of "1.732" 3] real_le_lsqrt [of "1.7321" 3] by (simp_all add: power2_eq_square)
  have "0.15 * D2_THREAD / 1.7321 \<le> Q" "Q \<le> 0.15 * D2_THREAD / 1.732"
    unfolding Q_def c using s by (simp_all add: D2_THREAD_def pos_divide_le_eq pos_le_divide_eq)
  ultimately have d: "0.001545 < d" "d < 0.00171"
    by (simp_all add: d_def P_BOLT_def D2_THREAD_def R_BEARING_def)
  have "26900 \<le> 46 / d \<and> 46 / d \<le> 29800"
    using d by (simp add: field_simps)
  moreover have "bolt_force (replicate 4 46) (replicate 8 0.15) i = fdiv 46 d" if "i < 4" for i
    using that aget_nat [of i "replicate 8 (0.15::real)"] aget_nat [of "i + 4" "replicate 8 (0.15::real)"]
      aget_nat [of i "replicate 4 (46::real)"] by (simp add: bolt_force_def d_def T_def Q_def Let_def)
  ultimately show ?thesis
    using d by (intro exI [of _ "46 / d"]) (simp add: fdiv_def)
qed

lemma station4_checks_pass: "\<exists>vs. station4_checks = Inr vs \<and> all_pass vs"
proof -
  obtain f where f: "\<forall>i<4. bolt_force (replicate 4 46) (replicate 8 0.15) i = Inr f" "26900 \<le> f" "f \<le> 29800"
    using nominal_bolt_force by blast
  have "map_res (bolt_force (replicate 4 46) (replicate 8 0.15)) [0, 1, 2, 3] = Inr [f, f, f, f]"
    using f(1) by simp
  moreover define P where "P = 4 * (f - 0.18 * f) / 0.0225 / 10 ^ 6"
  ultimately have c: "clamp_pressure (replicate 4 46) (replicate 8 (3 / 20)) = Inr P"
    using f(2) by (simp add: clamp_pressure_def ELASTIC_COUPLING_COEF_def A_STACK_def Let_def del: map_res.simps)
  have b: "3 \<le> P" "P \<le> 5.5"
    using f(2,3) by (simp_all add: P_def)
  then have "0 \<le> P"
    by linarith
  then obtain e where e: "compressed_porosity P = Inr e"
    using compressed_porosity_total by blast
  have t: "torque_std (replicate 4 46) = Inr 0"
    by (simp add: torque_std_def aget_def py_index_def np_sqrt_def Let_def numeral_eq_Suc)
  show ?thesis
    unfolding station4_checks_def Let_def TORQUE_NOMINAL_NM_def simulate_stage2_clamping_safe_def simulate_stage2_clamping_def
    using b by (simp add: c e t all_pass_def list_ex_iff)
qed


section \<open>When stamping begins to fail\<close>

text \<open>The damage of a press at its first stroke, as a function of the force over the nominal one.\<close>

definition first_damage :: "real \<Rightarrow> real" where
  "first_damage r = (100 / 1280 * exp (0.1425 * THETA_DIE_RAD) * r * (0.1456 * r) powr 0.57 + 0.1456 * r) / 0.1995"

lemma first_damage_value:
  assumes "1 / 10 ^ 4 < 0.1456 * r"
  shows "stamping_damage (120 * r) 0.05 = Inr (min 2 (first_damage r))"
proof -
  define e where "e = 0.1456 * r"
  have e: "1 / 10 ^ 4 < e" "0 < e"
    using assms by (simp_all add: e_def)
  have m: "max e (1 / 10 ^ 6) = e"
    using e by (simp add: max_def)
  have pw: "e powr 0.43 * e powr 0.57 = e"
    using e powr_add [of e "0.43" "0.57"] by simp
  have eps: "EPS_P_SCALE * (120 * r / F_NOM_S3) = e"
    by (simp add: EPS_P_SCALE_def F_NOM_S3_def e_def)
  have sm: "(120 * r * 1000 / A_TOTAL_CHANNELS_M2) / 10 ^ 6 = 100 * r"
    by (simp add: A_TOTAL_CHANNELS_M2_def)
  have mu: "MU0_FRICTION + ALPHA_F_FRICTION * 0.05 = 0.1425"
    by (simp add: MU0_FRICTION_def ALPHA_F_FRICTION_def)
  have n: "1 - N_HARDENING_316L = 0.57"
    by (simp add: N_HARDENING_316L_def)
  define E where "E = exp (0.1425 * THETA_DIE_RAD)"
  have "(100 * r * E + 1280 * e powr 0.43) / 1280 * e powr 0.57 = 100 / 1280 * E * r * e powr 0.57 + e powr 0.43 * e powr 0.57"
    by (simp add: field_simps)
  then have "(100 * r * E + 1280 * e powr 0.43) / 1280 * e powr 0.57 / 0.57 / 0.35 = first_damage r"
    unfolding first_damage_def pw E_def [symmetric] e_def [symmetric] by simp
  moreover have "0 \<le> r"
    using assms by simp
  then have "0 \<le> first_damage r"
    by (simp add: first_damage_def)
  ultimately show ?thesis
    unfolding stamping_damage_def Let_def eps sm mu m E_def [symmetric] n
    using e by (simp add: fpow_pos N_HARDENING_316L_def K_STRENGTH_316L_def C_CRIT_NCL_def max_def)
qed

lemma first_damage_none:
  assumes "0 \<le> r" "0.1456 * r \<le> 1 / 10 ^ 4"
  shows "stamping_damage (120 * r) 0.05 = Inr 0"
  using assms by (simp add: stamping_damage_def Let_def fpow_pos EPS_P_SCALE_def F_NOM_S3_def less_max_iff_disj)

lemma first_damage_mono: "0 \<le> r \<Longrightarrow> r \<le> s \<Longrightarrow> first_damage r \<le> first_damage s"
  unfolding first_damage_def by (intro divide_right_mono add_mono mult_mono powr_mono2) auto

lemma first_damage_135: "first_damage 1.125 < 1"
proof -
  define y where "y = (0.1638::real) powr (9 / 16)"
  have "y ^ 16 = 0.1638 ^ 9"
    unfolding y_def by (simp add: powr_powr flip: powr_numeral)
  also have "\<dots> \<le> (0.39::real) ^ 16"
    by (simp add: power_divide)
  finally have "y \<le> 0.39"
    by (simp add: y_def power_mono_iff)
  moreover have "(0.1638::real) powr 0.57 \<le> y"
    unfolding y_def by (rule powr_mono') simp_all
  ultimately have x: "(0.1638::real) powr 0.57 \<le> 0.39"
    by linarith
  define u where "u = 0.1425 * THETA_DIE_RAD"
  have u: "u \<le> 0.032" "0 \<le> u"
    using pi_less_4 by (simp_all add: u_def THETA_DIE_RAD_def)
  have "1 - u \<le> exp (- u)"
    using exp_ge_add_one_self [of "- u"] by simp
  then have "exp u * (1 - u) \<le> exp u * exp (- u)"
    by (rule mult_left_mono) simp
  then have "exp u * (1 - u) \<le> 1"
    by (simp add: exp_minus)
  moreover have "121 / 125 * exp u \<le> exp u * (1 - u)"
    using u mult_left_mono [of "121 / 125" "1 - u" "exp u"] by (simp add: mult.commute)
  ultimately have "exp u \<le> 517 / 500"
    by linarith
  then have "exp u * (0.1638::real) powr 0.57 \<le> 517 / 500 * 0.39"
    using x by (intro mult_mono) simp_all
  then show ?thesis
    unfolding first_damage_def u_def [symmetric] by simp
qed

lemma first_damage_144: "1 < first_damage 1.2"
proof -
  define y where "y = (0.17472::real) powr (2 / 3)"
  have "(0.3::real) ^ 3 \<le> 0.17472 ^ 2"
    by (simp add: power2_eq_square power3_eq_cube)
  also have "\<dots> = y ^ 3"
    unfolding y_def by (simp add: powr_powr flip: powr_numeral)
  finally have "0.3 \<le> y"
    by (simp add: y_def power_mono_iff)
  moreover define p where "p = (0.17472::real) powr 0.57"
  moreover have "y \<le> p"
    unfolding y_def p_def by (rule powr_mono') simp_all
  moreover define E where "E = exp (0.1425 * THETA_DIE_RAD)"
  moreover have "1 \<le> E"
    by (simp add: E_def THETA_DIE_RAD_def)
  then have "1 * p \<le> E * p"
    by (rule mult_right_mono) (simp add: p_def)
  ultimately have "0.3 \<le> E * p"
    by linarith
  then show ?thesis
    unfolding first_damage_def E_def [symmetric] by (simp add: p_def)
qed

text \<open>
  A new die stamps without defect at every force up to 135 kN and with a defect at every force from 144 kN on.
\<close>

lemma stamping_force_window:
  assumes "0 \<le> F"
  shows "\<exists>r. simulate_stage1_stamping F 0 0.05 False k_time = Inr r
    \<and> (F \<le> 135 \<longrightarrow> \<not> s3_is_defective r \<and> s3_damage_index r < 1) \<and> (144 \<le> F \<longrightarrow> s3_is_defective r)"
proof -
  define r where "r = F / 120"
  have F: "F = 120 * r" and r: "0 \<le> r"
    using assms by (simp_all add: r_def)
  have w: "stamping_wear (120 * r) 0 0.05 False = Inr 0.05"
    using r by (simp add: stamping_wear_value)
  have "\<exists>d. stamping_damage (120 * r) 0.05 = Inr d \<and> (r \<le> 1.125 \<longrightarrow> d < 1) \<and> (1.2 \<le> r \<longrightarrow> 1 < d)"
  proof (cases "1 / 10 ^ 4 < 0.1456 * r")
    case True
    have "r \<le> 1.125 \<longrightarrow> first_damage r < 1" "1.2 \<le> r \<longrightarrow> 1 < first_damage r"
      using first_damage_mono [of r "1.125"] first_damage_mono [of "1.2" r] first_damage_135 first_damage_144 r by linarith+
    then show ?thesis
      using first_damage_value [OF True] by auto
  next
    case False
    then show ?thesis
      using first_damage_none [of r] r by auto
  qed
  then obtain d where d: "stamping_damage (120 * r) 0.05 = Inr d" "r \<le> 1.125 \<longrightarrow> d < 1" "1.2 \<le> r \<longrightarrow> 1 < d"
    by blast
  show ?thesis
    unfolding F using d by (auto simp: simulate_stage1_stamping_def w [simplified] Let_def W_CRIT_def)
qed

lemma stamping_defects_above_135:
  "\<exists>rs. map_res (\<lambda>f. simulate_stage1_stamping (max 0 f) 0 0.05 False k_time) forces = Inr rs
    \<and> length (filter s3_is_defective rs) \<le> length (filter (\<lambda>f. 135 < f) forces)"
proof (induction forces)
  case Nil
  then show ?case by simp
next
  case (Cons f forces)
  obtain r where r: "simulate_stage1_stamping (max 0 f) 0 0.05 False k_time = Inr r"
      "max 0 f \<le> 135 \<longrightarrow> \<not> s3_is_defective r"
    using stamping_force_window [of "max 0 f" k_time] by auto
  obtain rs where rs: "map_res (\<lambda>f. simulate_stage1_stamping (max 0 f) 0 0.05 False k_time) forces = Inr rs"
      "length (filter s3_is_defective rs) \<le> length (filter (\<lambda>f. 135 < f) forces)"
    using Cons by blast
  have "s3_is_defective r \<longrightarrow> 135 < f"
    using r(2) by (auto simp: max_def split: if_splits)
  then show ?case
    unfolding map_res.simps r(1) rs(1) res_bind.simps using rs(2) by auto
qed

text \<open>
  The calibration checks of the microstructure, the catalyst deposition and the clamping pass, and those of the
  stamping pass on every sample of forces of which at most one in a hundred exceeds 135 kN.
\<close>

theorem calibration_checks_pass:
  assumes "forces \<noteq> []" "real (length (filter (\<lambda>f. 135 < f) forces)) \<le> 0.01 * real (length forces)"
  shows "\<forall>checks\<in>{microstructure_checks, station2_checks, station3_checks forces, station4_checks}.
    \<exists>vs. checks = Inr vs \<and> all_pass vs"
proof -
  obtain r where r: "simulate_stage1_stamping_safe F_NOM_S3 0 0.05 False K_TIME_ACCELERATED = Inr r"
      "\<not> s3_is_defective r" "s3_damage_index r < 1"
    using stamping_force_window [of F_NOM_S3 K_TIME_ACCELERATED] by (auto simp: simulate_stage1_stamping_safe_def F_NOM_S3_def)
  obtain rs where rs: "map_res (\<lambda>f. simulate_stage1_stamping (max 0 f) 0 0.05 False K_TIME_ACCELERATED) forces = Inr rs"
      "length (filter s3_is_defective rs) \<le> length (filter (\<lambda>f. 135 < f) forces)"
    using stamping_defects_above_135 by blast
  define rate where "rate = real (length (filter s3_is_defective rs)) / real (length forces)"
  have "stamping_defect_rate forces = Inr rate"
    unfolding stamping_defect_rate_def rs(1) using assms(1) by (simp add: rate_def)
  moreover have "0 \<le> rate" "rate \<le> 0.01"
    using rs(2) assms by (simp_all add: rate_def pos_divide_le_eq)
  ultimately have "\<exists>vs. station3_checks forces = Inr vs \<and> all_pass vs"
    using r by (simp add: station3_checks_def all_pass_def)
  then show ?thesis
    using microstructure_checks_pass station2_checks_pass station4_checks_pass by blast
qed

theorem calibration_checks_pass_witness:
  "\<exists>vs. station3_checks [118.5, 120, 127] = Inr vs \<and> all_pass vs"
  using calibration_checks_pass [of "[118.5, 120, 127]"] by simp

end
