(* ===== verification/RunIsolation.thy ===== *)
theory RunIsolation
  imports Experiment
begin

text \<open>
  How \<open>scripts/generate_factory_jcm.py\<close> isolates the runs that share one agent platform: every canonical name in the
  agents' sources and in the template gets the run's number, and the result is validated.
\<close>

section \<open>Words of a text\<close>

text \<open>The word characters of a regular expression, over characters below 256.\<close>

definition is_word :: "char \<Rightarrow> bool" where
  "is_word c = (let n = of_char c :: nat in
     (48 \<le> n \<and> n \<le> 57) \<or> (65 \<le> n \<and> n \<le> 90) \<or> n = 95 \<or> (97 \<le> n \<and> n \<le> 122) \<or>
     n \<in> {170, 178, 179, 181, 185, 186, 188, 189, 190} \<or> (192 \<le> n \<and> n \<le> 255 \<and> n \<noteq> 215 \<and> n \<noteq> 247))"

definition starts_word :: "string \<Rightarrow> bool" where
  "starts_word s = (case s of [] \<Rightarrow> False | c # _ \<Rightarrow> is_word c)"

text \<open>
  The pattern of a name between word boundaries, at a place before which there is a word character or not; a name
  is a non-empty list of word characters, so the boundaries are where the neighbours are none.
\<close>

definition match_word :: "string \<Rightarrow> bool \<Rightarrow> string \<Rightarrow> string option" where
  "match_word tok after_word s =
     (if after_word \<or> tok = [] then None
      else case strip_prefix tok s of None \<Rightarrow> None | Some rest \<Rightarrow> if starts_word rest then None else Some rest)"

lemma match_word_shorter: "match_word tok w s = Some rest \<Longrightarrow> length rest < length s"
  by (auto simp: match_word_def dest!: strip_prefix_length split: if_splits option.splits)

function word_sub :: "string \<Rightarrow> string \<Rightarrow> bool \<Rightarrow> string \<Rightarrow> string" where
  "word_sub tok rep after_word [] = []"
| "word_sub tok rep after_word (c # s) = (case match_word tok after_word (c # s) of
     Some rest \<Rightarrow> rep @ word_sub tok rep True rest | None \<Rightarrow> c # word_sub tok rep (is_word c) s)"
  by pat_completeness auto
termination
  by (relation "measure (\<lambda>(tok, rep, w, s). length s)") (auto dest: match_word_shorter)

fun word_search :: "string \<Rightarrow> bool \<Rightarrow> string \<Rightarrow> bool" where
  "word_search tok after_word [] = False"
| "word_search tok after_word (c # s) =
     (match_word tok after_word (c # s) \<noteq> None \<or> word_search tok (is_word c) s)"

section \<open>Renaming\<close>

fun str_nat :: "nat \<Rightarrow> string" where
  "str_nat n = (if n < 10 then [char_of (48 + n)] else str_nat (n div 10) @ [char_of (48 + n mod 10)])"

declare str_nat.simps [simp del]

definition CANONICAL_TOKENS :: "string list" where
  "CANONICAL_TOKENS = [''supervisor'', ''order_1'', ''order_2'', ''order_3'', ''order_4'', ''order_5'',
     ''station_1'', ''station_2'', ''station_3'', ''station_4'', ''station_5'', ''amr_1'', ''amr_2'', ''factory_ws'',
     ''factory_prosa_org'', ''factory_adacor_org'', ''adaptive_factory'']"

definition renamed :: "string \<Rightarrow> nat \<Rightarrow> string" where
  "renamed token run_id = token @ ''_'' @ str_nat run_id"

definition rewrite_content :: "string \<Rightarrow> nat \<Rightarrow> string" where
  "rewrite_content content run_id =
     fold (\<lambda>token content. word_sub token (renamed token run_id) False content) CANONICAL_TOKENS content"

text \<open>Validation ends the generator when it finds a canonical name.\<close>

definition validate_asl :: "string \<Rightarrow> bool" where
  "validate_asl content = list_all (\<lambda>token. \<not> word_search token False content) CANONICAL_TOKENS"

text \<open>The replacement of a fixed text; the pattern is never empty.\<close>

function replace_all :: "string \<Rightarrow> string \<Rightarrow> string \<Rightarrow> string" where
  "replace_all pat rep [] = []"
| "replace_all pat rep (c # s) = (case (if pat = [] then None else strip_prefix pat (c # s)) of
     Some rest \<Rightarrow> rep @ replace_all pat rep rest | None \<Rightarrow> c # replace_all pat rep s)"
  by pat_completeness auto
termination
  by (relation "measure (\<lambda>(pat, rep, s). length s)") (auto dest!: strip_prefix_length split: if_splits)

definition render_jcm :: "string \<Rightarrow> nat \<Rightarrow> string" where
  "render_jcm template_inner run_id =
     (let rendered_jcm = rewrite_content (replace_all ''{{RUN_ID}}'' (str_nat run_id) template_inner) run_id;
          sup = renamed ''supervisor'' run_id
      in replace_all (sup @ ''  '' @ sup) (sup @ ''  supervisor'') rendered_jcm)"

text \<open>
  The agents' sources of a run, as the names and contents of the files: each rewritten, validated and written in turn, up to
  the first that fails. \<open>False\<close> is the exit with status 1; the paths are relative to the directory of the output.
\<close>

definition asl_path :: "nat \<Rightarrow> string \<Rightarrow> string" where
  "asl_path run_id name = ''run_'' @ str_nat run_id @ ''/'' @ name"

fun write_sources :: "nat \<Rightarrow> (string \<times> string) list \<Rightarrow> bool \<times> (string \<times> string) list" where
  "write_sources run_id [] = (True, [])"
| "write_sources run_id ((name, content) # files) =
     (let rewritten_content = rewrite_content content run_id in
      if validate_asl rewritten_content
      then (let (ok, written) = write_sources run_id files in (ok, (asl_path run_id name, rewritten_content) # written))
      else (False, []))"

section \<open>Maximal runs of word characters\<close>

text \<open>The reference: a text as its words and the characters between them.\<close>

function word_map :: "(string \<Rightarrow> string) \<Rightarrow> string \<Rightarrow> string" where
  "word_map f [] = []"
| "word_map f (c # s) = (if is_word c then f (takeWhile is_word (c # s)) @ word_map f (dropWhile is_word s)
     else c # word_map f s)"
  by pat_completeness auto
termination
  by (relation "measure (\<lambda>(f, s). length s)") (auto intro: le_imp_less_Suc length_dropWhile_le)

function words_of :: "string \<Rightarrow> string list" where
  "words_of [] = []"
| "words_of (c # s) = (if is_word c then takeWhile is_word (c # s) # words_of (dropWhile is_word s) else words_of s)"
  by pat_completeness auto
termination
  by (relation "measure length") (auto intro: le_imp_less_Suc length_dropWhile_le)

definition word_like :: "string \<Rightarrow> bool" where
  "word_like w \<longleftrightarrow> w \<noteq> [] \<and> list_all is_word w"

lemma starts_word_drop [simp]: "\<not> starts_word (dropWhile is_word s)"
  by (induction s) (auto simp: starts_word_def)

lemma take_word: "list_all is_word w \<Longrightarrow> \<not> starts_word r \<Longrightarrow> takeWhile is_word (w @ r) = w \<and> dropWhile is_word (w @ r) = r"
  by (induction w) (auto simp: starts_word_def split: list.splits)

lemma word_cases:
  obtains (Nil) "s = []" | (Gap) c t where "s = c # t" "\<not> is_word c"
    | (Word) w r where "s = w @ r" "word_like w" "\<not> starts_word r" "length r < length s"
proof (cases s)
  case (Cons c t)
  then show ?thesis
  proof (cases "is_word c")
    case True
    have "s = takeWhile is_word s @ dropWhile is_word s" "word_like (takeWhile is_word s)"
      using Cons True by (auto simp: word_like_def list_all_iff dest: set_takeWhileD)
    moreover have "length (dropWhile is_word s) < length s"
      using Cons True by (auto intro: le_imp_less_Suc length_dropWhile_le)
    ultimately show ?thesis
      using Word starts_word_drop by blast
  qed (use Gap in blast)
qed (use Nil in blast)

lemma word_induct [case_names Nil Gap Word]:
  assumes "P []" "\<And>c t. \<not> is_word c \<Longrightarrow> P t \<Longrightarrow> P (c # t)"
    "\<And>w r. word_like w \<Longrightarrow> \<not> starts_word r \<Longrightarrow> P r \<Longrightarrow> P (w @ r)"
  shows "P s"
proof (induction "length s" arbitrary: s rule: less_induct)
  case less
  show ?case
    by (cases s rule: word_cases) (use assms less in auto)
qed

lemma word_like_Cons: "word_like w \<longleftrightarrow> (\<exists>c t. w = c # t \<and> is_word c \<and> list_all is_word t)"
  by (cases w) (auto simp: word_like_def)

lemma word_map_word: "word_like w \<Longrightarrow> \<not> starts_word r \<Longrightarrow> word_map f (w @ r) = f w @ word_map f r"
  unfolding word_like_Cons by (elim exE conjE) (simp add: take_word)

lemma words_of_word: "word_like w \<Longrightarrow> \<not> starts_word r \<Longrightarrow> words_of (w @ r) = w # words_of r"
  unfolding word_like_Cons by (elim exE conjE) (simp add: take_word)

lemma word_map_gap [simp]: "\<not> is_word c \<Longrightarrow> word_map f (c # t) = c # word_map f t"
  by simp

lemma words_of_gap [simp]: "\<not> is_word c \<Longrightarrow> words_of (c # t) = words_of t"
  by simp

declare word_map.simps(2) [simp del] words_of.simps(2) [simp del]

lemma starts_word_map [simp]: "\<not> starts_word r \<Longrightarrow> \<not> starts_word (word_map f r)"
  by (cases r) (auto simp: starts_word_def)

lemma word_map_map:
  assumes "\<And>w. word_like w \<Longrightarrow> word_like (f w)"
  shows "word_map g (word_map f s) = word_map (\<lambda>w. g (f w)) s" "words_of (word_map f s) = map f (words_of s)"
  using assms by (induction s rule: word_induct) (simp_all add: word_map_word words_of_word)

lemma word_map_cong: "(\<And>w. w \<in> set (words_of s) \<Longrightarrow> f w = g w) \<Longrightarrow> word_map f s = word_map g s"
  by (induction s rule: word_induct) (simp_all add: word_map_word words_of_word)

lemma words_of_word_like: "w \<in> set (words_of s) \<Longrightarrow> word_like w"
  by (induction s rule: word_induct) (auto simp: words_of_word)

subsection \<open>The pattern is equality of words\<close>

lemma match_word_word:
  assumes "word_like tok" "word_like w" "\<not> starts_word r"
  shows "match_word tok False (w @ r) = (if w = tok then Some r else None)"
proof -
  have "w = tok" if "w @ r = tok @ rest" "\<not> starts_word rest" for rest
  proof -
    have "w = takeWhile is_word (w @ r)" "tok = takeWhile is_word (tok @ rest)"
      using take_word [of w r] take_word [of tok rest] assms that(2) by (simp_all add: word_like_def)
    then show ?thesis
      using that(1) by metis
  qed
  then have "starts_word rest" if "w @ r = tok @ rest" "w \<noteq> tok" for rest
    using that by blast
  then show ?thesis
    using assms unfolding match_word_def word_like_def
    by (cases "w = tok"; cases "strip_prefix tok (w @ r)") (simp_all add: strip_prefix_Some)
qed

lemma match_word_gap: "word_like tok \<Longrightarrow> \<not> is_word c \<Longrightarrow> match_word tok w (c # t) = None"
  by (cases tok) (auto simp: match_word_def word_like_def)

lemma match_word_inside [simp]: "match_word tok True s = None"
  by (simp add: match_word_def)

lemma word_sub_inside:
  "word_like tok \<Longrightarrow> list_all is_word w \<Longrightarrow> \<not> starts_word r \<Longrightarrow>
     word_sub tok rep True (w @ r) = w @ word_sub tok rep False r"
proof (induction w)
  case Nil
  then show ?case
    by (cases r) (auto simp: starts_word_def match_word_gap)
qed auto

lemma word_search_inside:
  "word_like tok \<Longrightarrow> list_all is_word w \<Longrightarrow> \<not> starts_word r \<Longrightarrow>
     word_search tok True (w @ r) = word_search tok False r"
proof (induction w)
  case Nil
  then show ?case
    by (cases r) (auto simp: starts_word_def match_word_gap)
qed auto

lemma word_sub_is_word_map:
  assumes "word_like tok"
  shows "word_sub tok rep False s = word_map (\<lambda>w. if w = tok then rep else w) s"
proof (induction s rule: word_induct)
  case (Word w r)
  obtain c t where w: "w = c # t" "is_word c" "list_all is_word t"
    using Word(1) by (cases w) (auto simp: word_like_def)
  have m: "match_word tok False (c # (t @ r)) = (if w = tok then Some r else None)"
    using match_word_word [OF assms Word(1,2)] w(1) by simp
  have i: "word_sub tok rep True (v @ r) = v @ word_sub tok rep False r" if "list_all is_word v" for v
    using word_sub_inside [OF assms that Word(2)] .
  show ?case
    unfolding word_map_word [OF Word(1,2)] using m i [of t] i [of "[]"] w Word(3) by auto
qed (simp_all add: match_word_gap [OF assms])

lemma word_search_is_member:
  assumes "word_like tok"
  shows "word_search tok False s \<longleftrightarrow> tok \<in> set (words_of s)"
proof (induction s rule: word_induct)
  case (Word w r)
  obtain c t where w: "w = c # t" "is_word c" "list_all is_word t"
    using Word(1) by (cases w) (auto simp: word_like_def)
  have m: "match_word tok False (c # (t @ r)) = (if w = tok then Some r else None)"
    using match_word_word [OF assms Word(1,2)] w(1) by simp
  show ?case
    unfolding words_of_word [OF Word(1,2)] using m word_search_inside [OF assms w(3) Word(2)] w Word(3) by auto
qed (simp_all add: match_word_gap [OF assms])

subsection \<open>Renamed names\<close>

definition is_digit_char :: "char \<Rightarrow> bool" where
  "is_digit_char c \<longleftrightarrow> c \<in> set ''0123456789''"

lemma digit_char [simp]: "d < 10 \<Longrightarrow> is_digit_char (char_of (48 + d :: nat))"
proof -
  assume "d < 10"
  then have "d \<in> set [0, 1, 2, 3, 4, 5, 6, 7, 8, 9]"
    by auto
  moreover have "list_all (\<lambda>d. is_digit_char (char_of (48 + d :: nat))) [0, 1, 2, 3, 4, 5, 6, 7, 8, 9]"
    by code_simp
  ultimately show "is_digit_char (char_of (48 + d :: nat))"
    unfolding list_all_iff by blast
qed

lemma digit_char_props: "is_digit_char c \<Longrightarrow> is_word c \<and> c \<noteq> CHR ''_''"
  by (auto simp: is_digit_char_def is_word_def)

lemma str_nat_digits: "list_all is_digit_char (str_nat n) \<and> str_nat n \<noteq> []"
proof (induction n rule: str_nat.induct)
  case (1 n)
  then show ?case
    using str_nat.simps [of n] by (cases "n < 10") auto
qed

lemma digit_inj: "d < 10 \<Longrightarrow> e < 10 \<Longrightarrow> char_of (48 + d :: nat) = (char_of (48 + e) :: char) \<Longrightarrow> d = e"
  by (drule arg_cong [where f = "of_char :: char \<Rightarrow> nat"]) simp

lemma str_nat_inj: "str_nat m = str_nat n \<Longrightarrow> m = n"
proof (induction m arbitrary: n rule: str_nat.induct)
  case (1 m)
  show ?case
  proof (cases "m < 10 \<longleftrightarrow> n < 10")
    case True
    have d: "m mod 10 = n mod 10" if "\<not> m < 10" "\<not> n < 10"
      using 1(2) that str_nat.simps [of m] str_nat.simps [of n] digit_inj [of "m mod 10" "n mod 10"] by simp
    have q: "m div 10 = n div 10" if "\<not> m < 10" "\<not> n < 10"
      using 1 that str_nat.simps [of m] str_nat.simps [of n] by simp
    show ?thesis
      using True d q 1(2) str_nat.simps [of m] str_nat.simps [of n] digit_inj [of m n]
      by (metis div_mult_mod_eq list.inject)
  next
    case False
    then show ?thesis
      using 1(2) str_nat.simps [of m] str_nat.simps [of n] str_nat_digits [of "m div 10"] str_nat_digits [of "n div 10"]
      by (auto split: if_splits)
  qed
qed

text \<open>The name a renamed one comes from: everything before its last underscore.\<close>

definition stem :: "string \<Rightarrow> string" where
  "stem w = rev (tl (dropWhile (\<lambda>c. c \<noteq> CHR ''_'') (rev w)))"

definition suffix :: "string \<Rightarrow> string" where
  "suffix w = rev (takeWhile (\<lambda>c. c \<noteq> CHR ''_'') (rev w))"

lemma renamed_parts: "stem (renamed t k) = t" "suffix (renamed t k) = str_nat k"
proof -
  have "\<forall>c\<in>set (rev (str_nat k)). c \<noteq> CHR ''_''"
    using str_nat_digits [of k] digit_char_props by (auto simp: list_all_iff)
  then have "dropWhile (\<lambda>c. c \<noteq> CHR ''_'') (rev (str_nat k) @ CHR ''_'' # rev t) = CHR ''_'' # rev t"
      "takeWhile (\<lambda>c. c \<noteq> CHR ''_'') (rev (str_nat k) @ CHR ''_'' # rev t) = rev (str_nat k)"
    by (simp_all add: dropWhile_append takeWhile_append)
  then show "stem (renamed t k) = t" "suffix (renamed t k) = str_nat k"
    by (simp_all add: renamed_def stem_def suffix_def)
qed

lemma renamed_inj: "renamed t i = renamed u j \<Longrightarrow> t = u \<and> i = j"
  by (metis renamed_parts str_nat_inj)

lemma tokens_word_like: "t \<in> set CANONICAL_TOKENS \<Longrightarrow> word_like t"
proof -
  have "list_all (\<lambda>t. t \<noteq> [] \<and> list_all is_word t) CANONICAL_TOKENS"
    by code_simp
  then show "t \<in> set CANONICAL_TOKENS \<Longrightarrow> word_like t"
    by (simp add: list_all_iff word_like_def)
qed

lemma renamed_not_canonical: "t \<in> set CANONICAL_TOKENS \<Longrightarrow> renamed t k \<notin> set CANONICAL_TOKENS"
proof -
  have "list_all (\<lambda>u. list_all (\<lambda>t. stem u \<noteq> t) CANONICAL_TOKENS) CANONICAL_TOKENS"
    by code_simp
  then have "\<forall>u\<in>set CANONICAL_TOKENS. stem u \<notin> set CANONICAL_TOKENS"
    by (auto simp: list_all_iff)
  then show "t \<in> set CANONICAL_TOKENS \<Longrightarrow> renamed t k \<notin> set CANONICAL_TOKENS"
    using renamed_parts(1) by metis
qed

lemma renamed_word_like: "word_like t \<Longrightarrow> word_like (renamed t k)"
  using str_nat_digits [of k] digit_char_props by (auto simp: renamed_def word_like_def list_all_iff is_word_def)

definition rename_word :: "nat \<Rightarrow> string \<Rightarrow> string" where
  "rename_word k w = (if w \<in> set CANONICAL_TOKENS then renamed w k else w)"

text \<open>
  Rewriting a text renames exactly its words that are canonical names, all at once, and leaves the rest of the text
  alone, although the code replaces one name after the other in the text it has already changed.
\<close>

lemma rewrite_content_renames_words: "rewrite_content s k = word_map (rename_word k) s"
proof -
  define f where "f = (\<lambda>t w. if w = t then renamed t k else w)"
  have wl: "word_like (fold f ts w)" if "word_like w" "\<forall>t\<in>set ts. word_like t" for ts w
    using that by (induction ts arbitrary: w) (auto simp: f_def renamed_word_like)
  have "fold (\<lambda>t. word_sub t (renamed t k) False) ts s = word_map (fold f ts) s" if "\<forall>t\<in>set ts. word_like t" for ts
    using that
  proof (induction ts rule: rev_induct)
    case Nil
    have "word_map (\<lambda>w. w) s = s"
      by (induction s rule: word_induct) (simp_all add: word_map_word)
    then show ?case
      by (simp add: id_def)
  next
    case (snoc t ts)
    then show ?case
      using wl by (simp add: word_sub_is_word_map word_map_map(1) f_def)
  qed
  then have "rewrite_content s k = word_map (fold f CANONICAL_TOKENS) s"
    using tokens_word_like by (simp add: rewrite_content_def)
  moreover have "fold f ts w = (if w \<in> set ts then renamed w k else w)"
    if "\<forall>t\<in>set ts. renamed t k \<notin> set ts" for ts w
    using that
  proof (induction ts rule: rev_induct)
    case (snoc t ts)
    then show ?case
      by (auto simp: f_def)
  qed simp
  then have "fold f CANONICAL_TOKENS = rename_word k"
    using renamed_not_canonical by (intro ext) (simp add: rename_word_def)
  ultimately show ?thesis
    by simp
qed

lemma rewritten_words: "words_of (rewrite_content s k) = map (rename_word k) (words_of s)"
  unfolding rewrite_content_renames_words
  by (rule word_map_map(2)) (simp add: rename_word_def renamed_word_like)

lemma validate_rewritten: "validate_asl (rewrite_content s k)"
proof -
  have "t \<notin> set (words_of (rewrite_content s k))" if "t \<in> set CANONICAL_TOKENS" for t
    using that renamed_not_canonical by (auto simp: rewritten_words rename_word_def)
  then show ?thesis
    by (simp add: validate_asl_def list_all_iff word_search_is_member tokens_word_like)
qed

lemma sources_written:
  "write_sources k files = (True, map (\<lambda>(name, content). (asl_path k name, rewrite_content content k)) files)"
  by (induction files) (auto simp: validate_rewritten)

text \<open>
  Rewriting a text renames exactly its words that are canonical names, all at once, and leaves the rest of the text
  alone, although the code replaces one name after the other in the text it has already changed; so the
  validation never fails, and the sources of every run are rewritten.
\<close>

theorem rewriting_validates:
  "rewrite_content s k = word_map (rename_word k) s \<and> validate_asl (rewrite_content s k)
   \<and> write_sources k files = (True, map (\<lambda>(name, content). (asl_path k name, rewrite_content content k)) files)"
  by (simp add: rewrite_content_renames_words [symmetric] validate_rewritten sources_written)

text \<open>
  Runs are isolated: a word that the rewritten texts of two different runs share is one that both texts had before and
  that is not a canonical name, unless one of the texts already contained a name renamed for the other run.
\<close>

theorem runs_share_no_canonical_name:
  assumes "i \<noteq> j" "w \<in> set (words_of (rewrite_content s i))" "w \<in> set (words_of (rewrite_content s' j))"
    "\<forall>t\<in>set CANONICAL_TOKENS. renamed t i \<notin> set (words_of s') \<and> renamed t j \<notin> set (words_of s)"
  shows "w \<in> set (words_of s) \<and> w \<in> set (words_of s') \<and> w \<notin> set CANONICAL_TOKENS"
proof -
  obtain v v' where v: "v \<in> set (words_of s)" "w = rename_word i v" "v' \<in> set (words_of s')" "w = rename_word j v'"
    using assms(2,3) by (auto simp: rewritten_words)
  have "\<not> (v \<in> set CANONICAL_TOKENS \<and> v' \<in> set CANONICAL_TOKENS)"
    using renamed_inj [of v i v' j] v(2,4) assms(1) by (auto simp: rename_word_def)
  moreover have "\<not> (v \<in> set CANONICAL_TOKENS \<and> v' \<notin> set CANONICAL_TOKENS)"
    using v assms(4) unfolding rename_word_def by metis
  moreover have "\<not> (v \<notin> set CANONICAL_TOKENS \<and> v' \<in> set CANONICAL_TOKENS)"
    using v assms(4) unfolding rename_word_def by metis
  ultimately show ?thesis
    using v by (auto simp: rename_word_def)
qed

theorem runs_share_no_canonical_name_witness:
  "''tell'' \<in> set (words_of ''tell amr_1'') \<and> ''tell'' \<notin> set CANONICAL_TOKENS"
proof -
  have ws: "words_of ''tell amr_1'' = [''tell'', ''amr_1'']"
    by code_simp
  have "''tell'' \<notin> set CANONICAL_TOKENS" "suffix ''tell'' = ''tell''" "suffix ''amr_1'' = ''1''" "str_nat 3 = ''3''" "str_nat 4 = ''4''"
    by code_simp+
  then have r: "rename_word k ''tell'' = ''tell''" and n: "k = 3 \<or> k = 4 \<Longrightarrow> renamed t k \<noteq> ''tell'' \<and> renamed t k \<noteq> ''amr_1''" for t k
    using renamed_parts(2) [of t k] by (auto simp: rename_word_def)
  have "''tell'' = rename_word k ''tell'' \<or> Q" for k Q
    by (simp add: r)
  note this [simp]
  show ?thesis
    using runs_share_no_canonical_name [of 3 4 "''tell''" "''tell amr_1''" "''tell amr_1''"] n by (simp add: rewritten_words ws)
qed

end
