(* ===== verification/JcmAssembly.thy ===== *)
theory JcmAssembly
  imports RunIsolation
begin

text \<open>
  The rest of \<open>scripts/generate_factory_jcm.py\<close>: the blocks of every run's rendered template become one file for all
  runs, and the generator checks that the targets of the agents' messages are declared in it. The files the sources come from
  are parameters, in the order in which the directory lists them.
\<close>

section \<open>The patterns\<close>

definition is_ident :: "char \<Rightarrow> bool" where
  "is_ident c = (let n = of_char c :: nat in
     (97 \<le> n \<and> n \<le> 122) \<or> (65 \<le> n \<and> n \<le> 90) \<or> (48 \<le> n \<and> n \<le> 57) \<or> n = 95)"

definition is_blank :: "char \<Rightarrow> bool" where
  "is_blank c \<longleftrightarrow> c = CHR '' '' \<or> c = CHR 0x09"

definition is_upper :: "char \<Rightarrow> bool" where
  "is_upper c = (let n = of_char c :: nat in 65 \<le> n \<and> n \<le> 90)"

definition template_pattern :: "item list" where
  "template_pattern = [Lit ''mas'', One is_space, Many is_space, Lit ''factory_twin'', One is_space, Many is_space,
     Lit ''{'', Many (\<lambda>_. True), Lit ''}'']"

definition header_pattern :: "string \<Rightarrow> item list" where
  "header_pattern keyword = [Lit keyword, One is_space, Many is_space, One is_ident, Many is_ident, Many is_space]"

definition file_pattern :: "string \<Rightarrow> item list" where
  "file_pattern extension = [Lit '':'', Many is_space, One (\<lambda>c. is_ident c \<or> c = CHR ''.''),
     Many (\<lambda>c. is_ident c \<or> c = CHR ''.''), Lit extension]"

definition braces_pattern :: "item list" where
  "braces_pattern = [Lit ''{'', One (\<lambda>c. c \<noteq> CHR ''}''), Many (\<lambda>c. c \<noteq> CHR ''}''), Lit ''}'']"

definition agent_block_pattern :: "item list" where
  "agent_block_pattern = header_pattern ''agent'' @ file_pattern ''.asl'' @ Many is_space # braces_pattern"

definition workspace_pattern :: "item list" where
  "workspace_pattern = header_pattern ''workspace'' @ braces_pattern"

definition organisation_pattern :: "item list" where
  "organisation_pattern = header_pattern ''organisation'' @ file_pattern ''.xml'' @
     [Many is_space, Lit ''{'', Few (\<lambda>_. True), Lit (CHR 0x0A # ''    }'')]"

definition agent_file_pattern :: "item list" where
  "agent_file_pattern = header_pattern ''agent'' @ file_pattern ''.asl''"

definition agent_name_pattern :: "item list" where
  "agent_name_pattern = header_pattern ''agent'' @ [Lit '':'']"

definition send_pattern :: "item list" where
  "send_pattern = [Lit ''.send('', Many is_blank, One is_ident, Many is_ident, Many is_blank, Lit '','']"

section \<open>The combined file\<close>

text \<open>The blocks of a run: agents, workspaces and organisations; the path of an agent's source is put before its name.\<close>

definition relocate :: "nat \<Rightarrow> string \<Rightarrow> string" where
  "relocate run_id ab = rx_sub agent_file_pattern
     (\<lambda>ps. concat (take 8 ps) @ ''build/phase4_asl/run_'' @ str_nat run_id @ ''/'' @ concat (drop 8 ps)) ab"

definition run_blocks :: "string \<Rightarrow> nat \<Rightarrow> string list \<times> string list \<times> string list" where
  "run_blocks template_inner run_id =
     (let rendered_jcm = render_jcm template_inner run_id in
      (map (\<lambda>ps. relocate run_id (concat ps)) (rx_findall agent_block_pattern rendered_jcm),
       map concat (rx_findall workspace_pattern rendered_jcm), map concat (rx_findall organisation_pattern rendered_jcm)))"

fun join :: "string \<Rightarrow> string list \<Rightarrow> string" where
  "join sep [] = []"
| "join sep [x] = x"
| "join sep (x # xs) = x @ sep @ join sep xs"

definition full_jcm :: "(string list \<times> string list \<times> string list) list \<Rightarrow> string" where
  "full_jcm blocks = (let gap = [CHR 0x0A, CHR 0x0A] in
     ''mas factory_twin_phase4 {'' @ gap @
     join gap (concat (map fst blocks)) @ gap @
     join gap (concat (map (fst \<circ> snd) blocks)) @ gap @
     join gap (concat (map (snd \<circ> snd) blocks)) @ gap @ ''}'' @ [CHR 0x0A])"

section \<open>The targets of messages\<close>

definition jcm_agents :: "string \<Rightarrow> string list" where
  "jcm_agents jcm_content = map (\<lambda>ps. ps ! 3 @ ps ! 4) (rx_findall agent_name_pattern jcm_content)"

definition send_targets :: "string \<Rightarrow> string list" where
  "send_targets content = map (\<lambda>ps. ps ! 2 @ ps ! 3) (rx_findall send_pattern content)"

definition validate_structural :: "string \<Rightarrow> string list \<Rightarrow> bool" where
  "validate_structural jcm_content contents = list_all (\<lambda>content. list_all (\<lambda>target.
     is_upper (hd target) \<or> hd target = CHR ''['' \<or> target \<in> set (jcm_agents jcm_content)) (send_targets content)) contents"

section \<open>The generator\<close>

text \<open>The runs in turn, up to the first whose sources fail: whether all succeeded, the files written, and the blocks.\<close>

fun write_runs :: "string \<Rightarrow> (string \<times> string) list \<Rightarrow> nat list \<Rightarrow>
    bool \<times> (string \<times> string) list \<times> (string list \<times> string list \<times> string list) list" where
  "write_runs template_inner sources [] = (True, [], [])"
| "write_runs template_inner sources (run_id # run_ids) =
     (let (ok, written) = write_sources run_id sources in
      if \<not> ok then (False, written, [])
      else (let (ok', written', blocks) = write_runs template_inner sources run_ids
        in (ok', written @ written', run_blocks template_inner run_id # blocks)))"

text \<open>What a run of the generator leaves: whether it returned or exited with status 1, and the files it wrote.\<close>

record generated =
  gen_success :: bool
  gen_asl :: "(string \<times> string) list"
  gen_jcm :: "string option"

definition generate :: "string \<Rightarrow> (string \<times> string) list \<Rightarrow> nat \<Rightarrow> nat \<Rightarrow> generated" where
  "generate template sources run_start_id run_count =
     (case rx_search template_pattern template of
        None \<Rightarrow> \<lparr>gen_success = False, gen_asl = [], gen_jcm = None\<rparr>
      | Some (_, ps, _) \<Rightarrow>
          (let template_inner = ps ! 7;
               (ok, written, blocks) = write_runs template_inner sources [run_start_id..<run_start_id + run_count]
           in if \<not> ok then \<lparr>gen_success = False, gen_asl = written, gen_jcm = None\<rparr>
              else (let full_jcm_content = full_jcm blocks
                in \<lparr>gen_success = validate_structural full_jcm_content (map snd written), gen_asl = written,
                  gen_jcm = Some full_jcm_content\<rparr>)))"

section \<open>What the check of the targets finds\<close>

text \<open>A text that sends a message to a name, and a text that declares an agent.\<close>

definition sends :: "string \<Rightarrow> string \<Rightarrow> bool" where
  "sends content name \<longleftrightarrow> name \<noteq> [] \<and> list_all is_ident name \<and> (\<exists>u b b' v. content = u @ ''.send('' @ b @ name @ b' @ '','' @ v
     \<and> list_all is_blank b \<and> list_all is_blank b')"

definition declares_agent :: "string \<Rightarrow> string \<Rightarrow> bool" where
  "declares_agent content name \<longleftrightarrow> name \<noteq> [] \<and> list_all is_ident name \<and> (\<exists>u b b' v. content = u @ ''agent'' @ b @ name @ b' @ '':'' @ v
     \<and> b \<noteq> [] \<and> list_all is_space b \<and> list_all is_space b')"

lemma jcm_agents_declared:
  assumes "name \<in> set (jcm_agents jcm)" shows "declares_agent jcm name"
proof -
  obtain ps where ps: "ps \<in> set (rx_findall agent_name_pattern jcm)" "name = ps ! 3 @ ps ! 4"
    using assms by (auto simp: jcm_agents_def)
  then obtain u v where s: "jcm = u @ concat ps @ v" "list_all2 item_ok agent_name_pattern ps"
    using rx_findall_sound by blast
  then obtain c b d n b' where p: "ps = [''agent'', [c], b, [d], n, b', '':'']" "is_space c" "list_all is_space b" "is_ident d"
      "list_all is_ident n" "list_all is_space b'"
    by (auto simp: agent_name_pattern_def header_pattern_def list_all2_Cons1)
  show ?thesis
    unfolding declares_agent_def s(1) p(1)
    using p(2-) by (simp add: ps(2) p(1)) (intro exI [of _ u] exI [of _ "c # b"] exI [of _ b'] exI [of _ v], simp)
qed

lemma class_split:
  "list_all P a \<Longrightarrow> list_all P a' \<Longrightarrow> a @ c # s = a' @ c' # s' \<Longrightarrow> \<not> P c \<Longrightarrow> \<not> P c' \<Longrightarrow> a = a' \<and> c = c' \<and> s = s'"
proof (induction a arbitrary: a')
  case Nil
  then show ?case by (cases a') auto
next
  case (Cons x a)
  then show ?case by (cases a') auto
qed

lemma char_classes:
  "is_ident c \<Longrightarrow> is_word c \<and> \<not> is_blank c \<and> c \<noteq> CHR ''.'' \<and> c \<noteq> CHR '','' \<and> c \<noteq> CHR ''[''"
  "is_blank c \<Longrightarrow> \<not> is_word c \<and> c \<noteq> CHR ''.'' \<and> c \<noteq> CHR '',''"
  by (auto simp: is_ident_def is_blank_def is_word_def Let_def)

lemma send_anchored: "anchored CHR ''.'' send_pattern"
  by (auto simp: anchored_def send_pattern_def is_ident_def is_blank_def)

text \<open>The text divides in one way, so the target that is found is the one that is written.\<close>

lemma send_target_unique:
  assumes "''.send('' @ b @ name @ b' @ '','' @ v = concat ps @ r" "list_all2 item_ok send_pattern ps"
    and "list_all is_blank b" "list_all is_blank b'" "name \<noteq> []" "list_all is_ident name"
  shows "ps ! 2 @ ps ! 3 = name"
proof -
  obtain e d n e' where p: "ps = [''.send('', e, [d], n, e', '','']" "list_all is_blank e" "is_ident d" "list_all is_ident n"
      "list_all is_blank e'"
    using assms(2) by (auto simp: send_pattern_def list_all2_Cons1)
  obtain x t where x: "name = x # t" "is_ident x" "list_all is_ident t"
    using assms(5,6) by (cases name) auto
  have "b @ x # t @ b' @ '','' @ v = e @ d # n @ e' @ '','' @ r"
    using assms(1) by (simp add: p(1) x(1))
  then have t: "x = d" "t @ b' @ '','' @ v = n @ e' @ '','' @ r"
    using class_split [of is_blank b e x "t @ b' @ '','' @ v" d "n @ e' @ '','' @ r"] assms(3) p(2,3) x(2) char_classes by auto
  obtain y y' z z' where "b' @ '','' @ v = y # z" "e' @ '','' @ r = y' # z'" "\<not> is_ident y" "\<not> is_ident y'"
    using assms(4) p(5) char_classes [of "CHR '',''"] by (cases b'; cases e') (auto dest: char_classes)
  then have "t = n"
    using class_split [of is_ident t n y z y' z'] t(2) x(3) p(4) by simp
  with t x p(1) show ?thesis
    by simp
qed

lemma send_targets_complete:
  assumes "sends content name" shows "name \<in> set (send_targets content)"
proof -
  obtain u b b' v where c: "content = u @ ''.send('' @ b @ name @ b' @ '','' @ v" "list_all is_blank b" "list_all is_blank b'"
      "name \<noteq> []" "list_all is_ident name"
    using assms by (auto simp: sends_def)
  let ?t = "''.send('' @ b @ name @ b' @ '','' @ v"
  have "matches_at send_pattern ?t"
    unfolding matches_at_def send_pattern_def using c(2-)
    by (intro exI [of _ "[''.send('', b, [hd name], tl name, b', '','']"] exI [of _ v]) (cases name; auto)
  then obtain ps r where m: "hd (rx_match send_pattern ?t) = (ps, r)" "(ps, r) \<in> set (rx_match send_pattern ?t)"
    unfolding matches_at_iff by (metis list.set_sel(1) surj_pair)
  have "ps \<in> set (rx_findall send_pattern content)"
    using anchored_found [OF send_anchored \<open>matches_at send_pattern ?t\<close>, of u] m(1) c(1) by simp
  moreover have "ps ! 2 @ ps ! 3 = name"
    using send_target_unique [OF _ _ c(2,3,4,5)] m(2) unfolding rx_match_iff by blast
  ultimately show ?thesis
    by (force simp: send_targets_def)
qed

section \<open>Rewritten messages\<close>

lemma word_map_append: "\<not> starts_word t \<Longrightarrow> word_map f (s @ t) = word_map f s @ word_map f t"
proof (induction s rule: word_induct)
  case (Word w r)
  have "\<not> starts_word (r @ t)"
    using Word by (cases r) (auto simp: starts_word_def)
  then show ?case
    using Word by (simp add: word_map_word)
qed simp_all

lemma word_map_split:
  "\<not> is_word c \<Longrightarrow> word_map f (s @ c # t) = word_map f s @ c # word_map f t"
  by (subst word_map_append) (simp_all add: starts_word_def)

lemma word_map_gaps: "\<not> (\<exists>c\<in>set s. is_word c) \<Longrightarrow> word_map f (s @ t) = s @ word_map f t"
  by (induction s) auto

lemma rename_ident:
  assumes "list_all is_ident w" "w \<noteq> []"
  shows "list_all is_ident (rename_word k w) \<and> rename_word k w \<noteq> [] \<and> hd (rename_word k w) = hd w"
proof -
  have "list_all is_ident ''0123456789''"
    by code_simp
  then have "list_all is_ident (str_nat k)"
    using str_nat_digits [of k] unfolding list_all_iff is_digit_char_def by blast
  moreover have "is_ident CHR ''_''"
    by (simp add: is_ident_def)
  ultimately show ?thesis
    using assms by (auto simp: rename_word_def renamed_def)
qed

lemma send_not_canonical: "rename_word k ''send'' = ''send''"
proof -
  have "''send'' \<notin> set CANONICAL_TOKENS"
    by code_simp
  then show ?thesis
    by (simp add: rename_word_def)
qed

text \<open>A message of a source goes, in the rewritten source, to the renamed agent.\<close>

lemma rewritten_message:
  assumes "sends content name" shows "sends (rewrite_content content k) (rename_word k name)"
proof -
  obtain u b b' v where c: "content = u @ ''.send('' @ b @ name @ b' @ '','' @ v" "list_all is_blank b" "list_all is_blank b'"
      "name \<noteq> []" "list_all is_ident name"
    using assms by (auto simp: sends_def)
  have gaps: "\<not> (\<exists>c\<in>set b. is_word c)" "\<not> (\<exists>c\<in>set b'. is_word c)" "\<not> is_word CHR ''.''" "\<not> is_word CHR ''(''" "\<not> is_word CHR '',''"
    using c(2,3) char_classes(2) by (auto simp: list_all_iff is_word_def)
  have words: "word_like name" "word_like ''send''"
    using c(4,5) char_classes(1) by (auto simp: word_like_def list_all_iff is_word_def)
  have ends: "\<not> starts_word (b' @ '','' @ v)" "\<not> starts_word (CHR ''('' # t)" for t
    using gaps by (cases b'; auto simp: starts_word_def)+
  have "rewrite_content content k = word_map (rename_word k) u @ ''.send('' @ b @ rename_word k name @ b' @ '','' @ word_map (rename_word k) v"
    unfolding rewrite_content_renames_words c(1)
    using word_map_split [OF gaps(3), of "rename_word k" u "''send'' @ CHR ''('' # b @ name @ b' @ '','' @ v"]
      word_map_word [OF words(2) ends(2), of "rename_word k" "b @ name @ b' @ '','' @ v"] gaps(4)
      word_map_gaps [OF gaps(1), of "rename_word k" "name @ b' @ '','' @ v"] word_map_word [OF words(1) ends(1), of "rename_word k"]
      word_map_gaps [OF gaps(2), of "rename_word k" "'','' @ v"] gaps(5)
    by (simp add: send_not_canonical)
  then show ?thesis
    using rename_ident [OF c(5,4)] c(2,3) unfolding sends_def by blast
qed

section \<open>What the generator leaves\<close>

definition run_files :: "(string \<times> string) list \<Rightarrow> nat \<Rightarrow> (string \<times> string) list" where
  "run_files sources k = map (\<lambda>(name, content). (asl_path k name, rewrite_content content k)) sources"

lemma write_runs_total:
  "write_runs inner sources ks = (True, concat (map (run_files sources) ks), map (run_blocks inner) ks)"
  by (induction ks) (simp_all add: sources_written run_files_def)

lemma generate_outcome:
  "rx_search template_pattern template = Some (u, ps, v) \<Longrightarrow>
   generate template sources start count =
     (let files = concat (map (run_files sources) [start..<start + count]);
          jcm = full_jcm (map (run_blocks (ps ! 7)) [start..<start + count])
      in \<lparr>gen_success = validate_structural jcm (map snd files), gen_asl = files, gen_jcm = Some jcm\<rparr>)"
  by (simp add: generate_def write_runs_total Let_def)

lemma structural_target:
  assumes "validate_structural jcm contents" "content \<in> set contents" "sends content name" "\<not> is_upper (hd name)"
  shows "declares_agent jcm name"
proof -
  have "hd name \<noteq> CHR ''[''"
    using assms(3) char_classes(1) by (cases name) (auto simp: sends_def)
  then show ?thesis
    using assms send_targets_complete [OF assms(3)] jcm_agents_declared
    unfolding validate_structural_def list_all_iff by blast
qed

text \<open>
  C32: when the generator succeeds, every message of a source reaches its own run: in the source written for run \<open>k\<close>, a
  message to a canonical agent goes to the agent renamed for run \<open>k\<close>, other targets are unchanged, and the generated file
  declares an agent of that name, unless the target starts with a capital (a variable).
\<close>

theorem messages_reach_their_run:
  assumes "generate template sources start count = out" "gen_success out"
    and "(file, content) \<in> set sources" "start \<le> k" "k < start + count" "sends content name" "\<not> is_upper (hd name)"
  shows "(asl_path k file, rewrite_content content k) \<in> set (gen_asl out)
    \<and> sends (rewrite_content content k) (rename_word k name)
    \<and> (\<exists>jcm. gen_jcm out = Some jcm \<and> declares_agent jcm (rename_word k name))"
proof -
  obtain u ps v where "rx_search template_pattern template = Some (u, ps, v)"
    using assms(1,2) by (cases "rx_search template_pattern template") (auto simp: generate_def)
  note out = generate_outcome [OF this, of sources start count, unfolded assms(1) Let_def]
  have written: "(asl_path k file, rewrite_content content k) \<in> set (gen_asl out)"
    using assms(3-5) by (auto simp: out run_files_def)
  note msg = rewritten_message [OF assms(6), of k]
  have "name \<noteq> []" "list_all is_ident name"
    using assms(6) by (auto simp: sends_def)
  then have "\<not> is_upper (hd (rename_word k name))"
    using rename_ident [of name k] assms(7) by simp
  then have "declares_agent (full_jcm (map (run_blocks (ps ! 7)) [start..<start + count])) (rename_word k name)"
    using structural_target [OF _ _ msg] assms(2) written by (force simp: out)
  with written msg show ?thesis
    by (simp add: out)
qed

text \<open>At a template with one agent, which the source writes to, for the runs 7 and 8.\<close>

definition small_template :: string where
  "small_template = ''mas factory_twin { agent supervisor : s.asl { x } }''"

theorem messages_reach_their_run_witness:
  "\<exists>jcm. gen_jcm (generate small_template [(''s.asl'', ''.send(supervisor, a)'')] 7 1) = Some jcm
     \<and> declares_agent jcm ''supervisor_7''"
proof -
  let ?src = "''.send(supervisor, a)''"
  have search: "rx_search template_pattern small_template =
      Some ([], [''mas'', '' '', [], ''factory_twin'', '' '', [], ''{'', '' agent supervisor : s.asl { x } '', ''}''], [])"
    by code_simp
  have "word_map (rename_word 7) ?src = ''.send(supervisor_7, a)''"
    by code_simp
  then have files: "map snd (run_files [(''s.asl'', ?src)] 7) = [''.send(supervisor_7, a)'']"
    by (simp add: run_files_def rewrite_content_renames_words)
  have r: "replace_all ''{{RUN_ID}}'' (str_nat 7) '' agent supervisor : s.asl { x } '' = '' agent supervisor : s.asl { x } ''"
    "word_map (rename_word 7) '' agent supervisor : s.asl { x } '' = '' agent supervisor_7 : s.asl { x } ''"
    "renamed ''supervisor'' 7 = ''supervisor_7''"
    "replace_all ''supervisor_7  supervisor_7'' ''supervisor_7  supervisor'' '' agent supervisor_7 : s.asl { x } '' = '' agent supervisor_7 : s.asl { x } ''"
    by code_simp+
  have "render_jcm '' agent supervisor : s.asl { x } '' 7 = '' agent supervisor_7 : s.asl { x } ''"
    using r(4) by (simp add: render_jcm_def Let_def r(1-3) rewrite_content_renames_words)
  moreover have "rx_findall agent_block_pattern '' agent supervisor_7 : s.asl { x } '' =
      [[''agent'', '' '', [], ''s'', ''upervisor_7'', '' '', '':'', '' '', ''s'', [], ''.asl'', '' '', ''{'', '' '', ''x '', ''}'']]"
    "rx_findall workspace_pattern '' agent supervisor_7 : s.asl { x } '' = []"
    "rx_findall organisation_pattern '' agent supervisor_7 : s.asl { x } '' = []"
    "relocate 7 ''agent supervisor_7 : s.asl { x }'' = ''agent supervisor_7 : build/phase4_asl/run_7/s.asl { x }''"
    by code_simp+
  ultimately have blocks: "run_blocks '' agent supervisor : s.asl { x } '' 7
      = ([''agent supervisor_7 : build/phase4_asl/run_7/s.asl { x }''], [], [])"
    by (simp add: run_blocks_def)
  have valid: "validate_structural (full_jcm [([''agent supervisor_7 : build/phase4_asl/run_7/s.asl { x }''], [], [])])
      [''.send(supervisor_7, a)'']"
    by code_simp
  have "gen_success (generate small_template [(''s.asl'', ?src)] 7 1)"
    using valid unfolding generate_outcome [OF search] by (simp add: Let_def files blocks)
  moreover have "sends ?src ''supervisor''"
  proof -
    have "list_all is_ident ''supervisor''"
      by code_simp
    then show ?thesis
      unfolding sends_def by (intro conjI exI [of _ "[]"] exI [of _ "'' a)''"]) simp_all
  qed
  moreover have "\<not> is_upper (hd ''supervisor'')" "rename_word 7 ''supervisor'' = ''supervisor_7''"
    by code_simp+
  ultimately show ?thesis
    using messages_reach_their_run [OF refl, of small_template "[(''s.asl'', ?src)]" 7 1 "''s.asl''" ?src 7 "''supervisor''"] by simp
qed

end
