(* ===== verification/LutReport.thy ===== *)
theory LutReport
  imports LutManager Sample
begin

text \<open>
  The accuracy report of the table manager (\<open>get_accuracy_report\<close> of \<open>optimization/lut_manager.py\<close>): the errors of the
  lookups against the property library on a random sample of states, which is a parameter.
\<close>

section \<open>The report\<close>

record accuracy =
  mean_abs_error :: real
  max_abs_error :: real
  mean_rel_error_pct :: real
  max_rel_error_pct :: real

definition abs_errors :: "real list \<Rightarrow> real list \<Rightarrow> real list" where
  "abs_errors lut_values coolprop_values = map (\<lambda>(l, c). \<bar>l - c\<bar>) (zip lut_values coolprop_values)"

definition accuracy_of :: "real list \<Rightarrow> real list \<Rightarrow> accuracy res" where
  "accuracy_of lut_values coolprop_values =
     (let abs_error = abs_errors lut_values coolprop_values in
      if 0 \<in> set coolprop_values then Inl NonFinite
      else let rel_error = map (\<lambda>(a, c). a / \<bar>c\<bar> * 100) (zip abs_error coolprop_values)
        in Inr \<lparr>mean_abs_error = mean abs_error, max_abs_error = max_list abs_error,
          mean_rel_error_pct = mean rel_error, max_rel_error_pct = max_list rel_error\<rparr>)"

definition property_report ::
    "props_si \<Rightarrow> string \<Rightarrow> (real \<times> real) list \<Rightarrow> lut_manager \<Rightarrow> string \<Rightarrow> (string \<times> accuracy) res" where
  "property_report propsSI fluid samples m pty =
     res_bind (map_res (\<lambda>(p, t). lookup_ready (Some propsSI) fluid pty p t m) samples) (\<lambda>lut_values.
     res_bind (map_res (\<lambda>(p, t). propsSI pty ''P'' p ''T'' t fluid) samples) (\<lambda>coolprop_values.
     res_bind (accuracy_of lut_values coolprop_values) (\<lambda>a. Inr (pty, a))))"

text \<open>The samples, at least one, are pairs of a pressure and a temperature in the ranges of the configuration.\<close>

definition get_accuracy_report ::
    "props_si option \<Rightarrow> string \<Rightarrow> (real \<times> real) list \<Rightarrow> (lut_manager, (string \<times> accuracy) list) meth" where
  "get_accuracy_report CP fluid samples =
     (case CP of None \<Rightarrow> raise_err RuntimeError
      | Some propsSI \<Rightarrow> seq (ensure_initialized CP)
          (\<lambda>_ m. (map_res (property_report propsSI fluid samples m) (cfg_properties (lm_config m)), m)))"

section \<open>Accuracy of the tables\<close>

text \<open>
  A bound on how much a property changes between states that are at most one grid spacing apart in each direction.
\<close>

definition spacing :: "real list \<Rightarrow> real \<Rightarrow> bool" where
  "spacing g h \<longleftrightarrow> (\<forall>i. Suc i < length g \<longrightarrow> g ! Suc i - g ! i \<le> h)"

definition varies_at_most :: "lut_manager \<Rightarrow> (real \<Rightarrow> real \<Rightarrow> real) \<Rightarrow> real \<Rightarrow> bool" where
  "varies_at_most m f e \<longleftrightarrow> (\<exists>hp ht. spacing (lm_pressure_grid m) hp \<and> spacing (lm_temperature_grid m) ht
     \<and> (\<forall>p t p' t'. in_bounds m p t \<and> in_bounds m p' t' \<and> \<bar>p - p'\<bar> \<le> hp \<and> \<bar>t - t'\<bar> \<le> ht \<longrightarrow> \<bar>f p t - f p' t'\<bar> \<le> e))"

text \<open>The table of a property holds the library's values at the nodes of the grid.\<close>

definition table_of :: "lut_manager \<Rightarrow> (real \<Rightarrow> real \<Rightarrow> real) \<Rightarrow> ptable \<Rightarrow> bool" where
  "table_of m f lut \<longleftrightarrow> (\<forall>i < length (lm_pressure_grid m). \<forall>j < length (lm_temperature_grid m).
     cell lut i j = f (lm_pressure_grid m ! i) (lm_temperature_grid m ! j))"

lemma node_near:
  assumes "grid_ends g lo hi" "spacing g h" "axis_weight g x = Inr (int i, w)" "lo \<le> x" "x \<le> hi"
  shows "Suc i < length g \<and> (\<forall>k\<in>{i, Suc i}. \<bar>g ! k - x\<bar> \<le> h \<and> lo \<le> g ! k \<and> g ! k \<le> hi)"
proof -
  have g: "sorted_grid g" and ends: "g ! 0 = lo" "last g = hi"
    using assms(1) by (auto simp: grid_ends_def intro: sorted_grid.intro)
  obtain w' where i: "Suc i < length g" "0 \<le> w'" "w' \<le> 1" "(1 - w') * g ! i + w' * g ! Suc i = clamp lo hi x"
    using sorted_grid.axis_weight_law [OF g, of x] assms(3) ends by (metis Inr_inject int_int_eq prod.inject)
  have x: "clamp lo hi x = x"
    using assms(4,5) by (simp add: clamp_id)
  have lt: "g ! i < g ! Suc i"
    using sorted_grid.nth_less [OF g, of i "Suc i"] i(1) by simp
  have b: "g ! i \<le> x" "x \<le> g ! Suc i"
    using convex_comb_bounds [of w' "g ! i" "g ! i" "g ! Suc i" "g ! Suc i"] i lt x by auto
  have "g ! Suc i - g ! i \<le> h"
    using assms(2) i(1) by (simp add: spacing_def)
  moreover have "hi = g ! (length g - 1)"
    using ends(2) i(1) last_conv_nth [of g] by fastforce
  then have "lo \<le> g ! i" "g ! Suc i \<le> hi"
    using sorted_grid.nth_le [OF g, of 0 i] sorted_grid.nth_le [OF g, of "Suc i" "length g - 1"] i(1) ends(1) by auto
  ultimately show ?thesis
    using b lt i(1) by auto
qed

lemma lookup_error:
  assumes "lut_ready m" "has_table m fluid pty lut" "table_of m f lut" "varies_at_most m f e" "in_bounds m p t"
  shows "\<exists>v. lookup_ready CP fluid pty p t m = Inr v \<and> \<bar>v - f p t\<bar> \<le> e"
proof -
  let ?gp = "lm_pressure_grid m" and ?gt = "lm_temperature_grid m"
  have gr: "grid_ends ?gp (lm_p_min m) (lm_p_max m)" "grid_ends ?gt (lm_t_min m) (lm_t_max m)"
    using assms(1) by (simp_all add: lut_ready_def)
  then have g: "sorted_grid ?gp" "sorted_grid ?gt"
    by (auto simp: grid_ends_def intro: sorted_grid.intro)
  have tab: "get_table m fluid pty = Inr lut" "table_for ?gp ?gt lut"
    using assms(2) by (simp_all add: has_table_def)
  obtain hp ht where h: "spacing ?gp hp" "spacing ?gt ht"
      "\<And>p t p' t'. in_bounds m p t \<Longrightarrow> in_bounds m p' t' \<Longrightarrow> \<bar>p - p'\<bar> \<le> hp \<Longrightarrow> \<bar>t - t'\<bar> \<le> ht \<Longrightarrow> \<bar>f p t - f p' t'\<bar> \<le> e"
    using assms(4) unfolding varies_at_most_def by blast
  obtain i j wx wy where v: "interpolate_2d ?gp ?gt lut p t =
       Inr ((1 - wx) * ((1 - wy) * cell lut i j + wy * cell lut i (Suc j))
            + wx * ((1 - wy) * cell lut (Suc i) j + wy * cell lut (Suc i) (Suc j)))"
    and w: "0 \<le> wx" "wx \<le> 1" "0 \<le> wy" "wy \<le> 1"
    and a: "axis_weight ?gp p = Inr (int i, wx)" "axis_weight ?gt t = Inr (int j, wy)"
    using interpolate_2d_value [OF g tab(2)] by metis
  have ib: "lm_p_min m \<le> p" "p \<le> lm_p_max m" "lm_t_min m \<le> t" "t \<le> lm_t_max m"
    using assms(5) by (simp_all add: in_bounds_def)
  note np = node_near [OF gr(1) h(1) a(1) ib(1,2)] and nt = node_near [OF gr(2) h(2) a(2) ib(3,4)]
  have c: "f p t - e \<le> cell lut k l \<and> cell lut k l \<le> f p t + e" if "k \<in> {i, Suc i}" "l \<in> {j, Suc j}" for k l
  proof -
    have "k < length ?gp" "l < length ?gt" "in_bounds m (?gp ! k) (?gt ! l)" "\<bar>?gp ! k - p\<bar> \<le> hp" "\<bar>?gt ! l - t\<bar> \<le> ht"
      using np nt that by (auto simp: in_bounds_def)
    then show ?thesis
      using h(3) [of "?gp ! k" "?gt ! l" p t] assms(3,5) by (auto simp: table_of_def)
  qed
  have row: "f p t - e \<le> (1 - wy) * cell lut k j + wy * cell lut k (Suc j)
      \<and> (1 - wy) * cell lut k j + wy * cell lut k (Suc j) \<le> f p t + e" if "k \<in> {i, Suc i}" for k
    using convex_comb_bounds [OF w(3,4), of "f p t - e" "cell lut k j" "f p t + e" "cell lut k (Suc j)"] c [OF that] by simp
  have "f p t - e \<le> (1 - wx) * ((1 - wy) * cell lut i j + wy * cell lut i (Suc j))
            + wx * ((1 - wy) * cell lut (Suc i) j + wy * cell lut (Suc i) (Suc j))"
    "(1 - wx) * ((1 - wy) * cell lut i j + wy * cell lut i (Suc j))
            + wx * ((1 - wy) * cell lut (Suc i) j + wy * cell lut (Suc i) (Suc j)) \<le> f p t + e"
    using convex_comb_bounds [OF w(1,2), of "f p t - e" "(1 - wy) * cell lut i j + wy * cell lut i (Suc j)" "f p t + e"
        "(1 - wy) * cell lut (Suc i) j + wy * cell lut (Suc i) (Suc j)"] row [of i] row [of "Suc i"] by simp_all
  then show ?thesis
    unfolding lookup_ready_table [OF tab(1)] v using assms(5) by auto
qed

text \<open>A sample and its answers.\<close>

lemma lookups_error:
  assumes "lut_ready m" "has_table m fluid pty lut" "table_of m f lut" "varies_at_most m f e"
    and "\<forall>(p, t)\<in>set samples. in_bounds m p t"
  shows "\<exists>vs. map_res (\<lambda>(p, t). lookup_ready CP fluid pty p t m) samples = Inr vs \<and> length vs = length samples
    \<and> (\<forall>d\<in>set (abs_errors vs (map (\<lambda>(p, t). f p t) samples)). 0 \<le> d \<and> d \<le> e)"
  using assms(5)
proof (induction samples)
  case Nil
  then show ?case by (simp add: abs_errors_def)
next
  case (Cons s samples)
  obtain p t where s: "s = (p, t)" by fastforce
  obtain v where "lookup_ready CP fluid pty p t m = Inr v" "\<bar>v - f p t\<bar> \<le> e"
    using lookup_error [OF assms(1-4), of p t CP] Cons.prems s by auto
  moreover obtain vs where "map_res (\<lambda>(p, t). lookup_ready CP fluid pty p t m) samples = Inr vs" "length vs = length samples"
      "\<forall>d\<in>set (abs_errors vs (map (\<lambda>(p, t). f p t) samples)). 0 \<le> d \<and> d \<le> e"
    using Cons by auto
  ultimately show ?case
    by (auto simp: s abs_errors_def)
qed

lemma map_res_Inr: "(\<And>x. x \<in> set xs \<Longrightarrow> f x = Inr (g x)) \<Longrightarrow> map_res f xs = Inr (map g xs)"
  by (induction xs) auto

text \<open>The library answers the states of the sample with a function that is nowhere zero on them.\<close>

definition answers :: "props_si \<Rightarrow> string \<Rightarrow> string \<Rightarrow> (real \<times> real) list \<Rightarrow> (real \<Rightarrow> real \<Rightarrow> real) \<Rightarrow> bool" where
  "answers propsSI fluid pty samples f \<longleftrightarrow>
     (\<forall>(p, t)\<in>set samples. propsSI pty ''P'' p ''T'' t fluid = Inr (f p t) \<and> f p t \<noteq> 0)"

lemma property_report_accuracy:
  assumes "lut_ready m" "has_table m fluid pty lut" "table_of m f lut" "varies_at_most m f e"
    and "\<forall>(p, t)\<in>set samples. in_bounds m p t" "samples \<noteq> []" "answers propsSI fluid pty samples f"
  shows "\<exists>a. property_report propsSI fluid samples m pty = Inr (pty, a)
    \<and> 0 \<le> mean_abs_error a \<and> mean_abs_error a \<le> max_abs_error a \<and> max_abs_error a \<le> e"
proof -
  obtain vs where vs: "map_res (\<lambda>(p, t). lookup_ready (Some propsSI) fluid pty p t m) samples = Inr vs" "length vs = length samples"
      "\<forall>d\<in>set (abs_errors vs (map (\<lambda>(p, t). f p t) samples)). 0 \<le> d \<and> d \<le> e"
    using lookups_error [OF assms(1-5)] by blast
  define es where "es = abs_errors vs (map (\<lambda>(p, t). f p t) samples)"
  have cp: "map_res (\<lambda>(p, t). propsSI pty ''P'' p ''T'' t fluid) samples = Inr (map (\<lambda>(p, t). f p t) samples)"
    using assms(7) by (intro map_res_Inr) (auto simp: answers_def)
  have nz: "0 \<notin> set (map (\<lambda>(p, t). f p t) samples)"
    using assms(7) by (auto simp: answers_def)
  have "length es = length samples"
    using vs(2) by (simp add: es_def abs_errors_def)
  then have ne: "es \<noteq> []"
    using assms(6) by auto
  have b: "0 \<le> mean es" "mean es \<le> max_list es" "max_list es \<le> e"
    using mean_between [OF ne, of 0 "max_list es"] max_list_greatest [OF ne] vs(3) by (auto simp: es_def)
  show ?thesis
    unfolding property_report_def vs(1) cp res_bind.simps accuracy_of_def es_def [symmetric] Let_def if_not_P [OF nz]
    using b by simp
qed

text \<open>
  C22: the accuracy report bounds the error of the tables. For a ready manager whose tables hold the library's values, when
  no property changes by more than \<open>e\<close> between states within one grid spacing, the report on any sample in the ranges
  has one entry per property, in order, and its mean and maximal absolute errors are at most \<open>e\<close>.
\<close>

theorem accuracy_report_bounds_error:
  assumes "lut_ready m" "\<forall>(p, t)\<in>set samples. in_bounds m p t" "samples \<noteq> []"
    and "\<forall>pty\<in>set (cfg_properties (lm_config m)). answers propsSI fluid pty samples (f pty)
      \<and> varies_at_most m (f pty) e \<and> (\<exists>lut. has_table m fluid pty lut \<and> table_of m (f pty) lut)"
  shows "\<exists>report. get_accuracy_report (Some propsSI) fluid samples m = (Inr report, m)
    \<and> map fst report = cfg_properties (lm_config m)
    \<and> (\<forall>(pty, a)\<in>set report. 0 \<le> mean_abs_error a \<and> mean_abs_error a \<le> max_abs_error a \<and> max_abs_error a \<le> e)"
proof -
  let ?ok = "\<lambda>a. 0 \<le> mean_abs_error a \<and> mean_abs_error a \<le> max_abs_error a \<and> max_abs_error a \<le> e"
  have "\<exists>report. map_res (property_report propsSI fluid samples m) ptys = Inr report \<and> map fst report = ptys
      \<and> (\<forall>(pty, a)\<in>set report. ?ok a)" if "set ptys \<subseteq> set (cfg_properties (lm_config m))" for ptys
    using that
  proof (induction ptys)
    case (Cons pty ptys)
    then obtain lut where "has_table m fluid pty lut" "table_of m (f pty) lut" "varies_at_most m (f pty) e"
        "answers propsSI fluid pty samples (f pty)"
      using assms(4) by auto
    from property_report_accuracy [OF assms(1) this(1-3) assms(2,3) this(4)] Cons show ?case
      by auto
  qed simp
  then show ?thesis
    using assms(1) by (auto simp: get_accuracy_report_def ready_no_init lut_ready_def)
qed

text \<open>The report of a small manager on a state between its nodes, where the library answers with the pressure.\<close>

definition reported_manager :: lut_manager where
  "reported_manager = small_manager\<lparr>lm_config := small_config\<lparr>cfg_properties := [''D'']\<rparr>\<rparr>"

theorem accuracy_report_bounds_error_witness:
  "\<exists>a. get_accuracy_report (Some (\<lambda>_ _ p _ _ _. Inr p)) ''H2'' [(3 / 2, 15)] reported_manager = (Inr [(''D'', a)], reported_manager)
    \<and> 0 \<le> mean_abs_error a \<and> mean_abs_error a \<le> max_abs_error a \<and> max_abs_error a \<le> 2"
proof -
  let ?m = reported_manager and ?f = "\<lambda>pty p t. p :: real" and ?props = "\<lambda>_ _ p _ _ _. Inr p"
  have ready: "lut_ready ?m" "has_table ?m ''H2'' ''D'' small_table" "cfg_properties (lm_config ?m) = [''D'']"
      "lm_pressure_grid ?m = [1, 3]" "lm_temperature_grid ?m = [10, 20]"
    using small_manager_ready by (simp_all add: reported_manager_def lut_ready_def has_table_def get_table_def)
  have b: "in_bounds ?m p t \<longleftrightarrow> 1 \<le> p \<and> p \<le> 3 \<and> 10 \<le> t \<and> t \<le> 20" for p t
    by (simp add: in_bounds_def reported_manager_def)
  have v: "varies_at_most ?m (?f ''D'') 2"
    unfolding varies_at_most_def spacing_def ready b by (intro exI [of _ 2] exI [of _ 10]) auto
  have tab: "table_of ?m (?f ''D'') small_table"
    by (simp add: table_of_def ready small_table_def values_of_def cell_def less_Suc_eq numeral_2_eq_2)
  have has: "\<exists>lut. has_table ?m ''H2'' ''D'' lut \<and> table_of ?m (\<lambda>p t. p) lut"
    using ready(2) tab by blast
  obtain report where r: "get_accuracy_report (Some ?props) ''H2'' [(3 / 2, 15)] ?m = (Inr report, ?m)"
      "map fst report = cfg_properties (lm_config ?m)"
      "\<forall>(pty, a)\<in>set report. 0 \<le> mean_abs_error a \<and> mean_abs_error a \<le> max_abs_error a \<and> max_abs_error a \<le> 2"
    using accuracy_report_bounds_error [of ?m "[(3 / 2, 15)]" ?props "''H2''" ?f 2] ready(1) v has
    by (auto simp: b answers_def ready(3))
  then show ?thesis
    by (auto simp: ready(3))
qed
end
