(* ===== verification/ServerEntry.thy ===== *)
theory ServerEntry
  imports Launcher
begin

text \<open>
  \<open>serve\<close> of \<open>sim_bridge_server.py\<close>: from the checks of the installed packages to the shutdown, as the list of
  what it asks of the transport. The transport itself and the file contents are parameters; binding a port is
  taken to succeed.
\<close>

section \<open>Serving\<close>

record tls_files =
  tls_key :: string
  tls_cert :: string
  tls_ca :: string

text \<open>A port is bound in the clear or with credentials that require the client's certificate.\<close>

datatype server_action =
    Create_server int
  | Add_servicer sim_bridge
  | Add_port "tls_files option" int
  | Start
  | Install_signal_handlers
  | Stop real

datatype serve_outcome = Exit int | Raised py_error | File_not_found string | Waiting | Stopped

text \<open>What the process finds: packages, environment, files, and whether a signal arrives.\<close>

record serve_env =
  sv_grpc_available :: bool
  sv_pb2_available :: bool
  sv_environ :: "string \<rightharpoonup> string"
  sv_files :: "string \<rightharpoonup> string"
  sv_signal :: bool

definition lower_char :: "char \<Rightarrow> char" where
  "lower_char c = (let n = of_char c :: nat in if 65 \<le> n \<and> n \<le> 90 then char_of (n + 32) else c)"

definition environ_get :: "serve_env \<Rightarrow> string \<Rightarrow> string \<Rightarrow> string" where
  "environ_get env name otherwise = (case sv_environ env name of None \<Rightarrow> otherwise | Some v \<Rightarrow> v)"

definition secure_mode :: "serve_env \<Rightarrow> bool" where
  "secure_mode env \<longleftrightarrow> map lower_char (environ_get env ''GRPC_SECURE_MODE'' ''false'') = ''true''"

definition path_join :: "string \<Rightarrow> string \<Rightarrow> string" where
  "path_join dir file = (if dir = [] \<or> last dir = CHR ''/'' then dir @ file else dir @ ''/'' @ file)"

definition read_file :: "serve_env \<Rightarrow> string \<Rightarrow> string + string" where
  "read_file env path = (case sv_files env path of None \<Rightarrow> Inl path | Some bytes \<Rightarrow> Inr bytes)"

text \<open>The credentials, or the first file that cannot be opened.\<close>

definition port_credentials :: "serve_env \<Rightarrow> string + tls_files option" where
  "port_credentials env =
     (if \<not> secure_mode env then Inr None
      else let cert_dir = environ_get env ''GRPC_CERT_DIR'' ''certs'' in
        (case read_file env (path_join cert_dir ''ca.crt'') of Inl p \<Rightarrow> Inl p | Inr ca_cert \<Rightarrow>
        (case read_file env (path_join cert_dir ''server.crt'') of Inl p \<Rightarrow> Inl p | Inr server_cert \<Rightarrow>
        (case read_file env (path_join cert_dir ''server.key'') of Inl p \<Rightarrow> Inl p | Inr server_key \<Rightarrow>
           Inr (Some \<lparr>tls_key = server_key, tls_cert = server_cert, tls_ca = ca_cert\<rparr>)))))"

definition serve ::
    "props_si option \<Rightarrow> (int \<Rightarrow> unit res) \<Rightarrow> lut_manager \<Rightarrow> serve_env \<Rightarrow> int \<Rightarrow> int \<Rightarrow> int option \<Rightarrow> int \<Rightarrow> real
      \<Rightarrow> real \<Rightarrow> int \<Rightarrow> serve_outcome \<times> server_action list" where
  "serve CP default_rng lut env numba_threads port max_workers num_cells R_internal T_initial run_id =
     (if \<not> sv_grpc_available env \<or> \<not> sv_pb2_available env then (Exit 1, [])
      else let workers = serve_workers max_workers numba_threads in
        if workers \<le> 0 then (Raised ValueError, [])
        else (case new_sim_bridge CP default_rng lut num_cells R_internal T_initial run_id ''S5'' of
            Inl e \<Rightarrow> (Raised e, [Create_server workers])
          | Inr servicer \<Rightarrow> (case port_credentials env of
              Inl path \<Rightarrow> (File_not_found path, [Create_server workers, Add_servicer servicer])
            | Inr credentials \<Rightarrow>
                let acts = [Create_server workers, Add_servicer servicer, Add_port credentials port, Start, Install_signal_handlers]
                in if sv_signal env then (Stopped, acts @ [Stop 5]) else (Waiting, acts))))"

section \<open>Facts\<close>

lemma port_credentials_secure:
  "secure_mode env \<Longrightarrow> port_credentials env = Inr c \<Longrightarrow>
     \<exists>t. c = Some t \<and> sv_files env (path_join (environ_get env ''GRPC_CERT_DIR'' ''certs'') ''ca.crt'') = Some (tls_ca t)
       \<and> sv_files env (path_join (environ_get env ''GRPC_CERT_DIR'' ''certs'') ''server.crt'') = Some (tls_cert t)
       \<and> sv_files env (path_join (environ_get env ''GRPC_CERT_DIR'' ''certs'') ''server.key'') = Some (tls_key t)"
  by (auto simp: port_credentials_def read_file_def Let_def split: sum.splits option.splits)

text \<open>The actions of a server that starts, and what a start needs.\<close>

lemma serve_starts:
  assumes "serve CP rng lut env threads port workers N R T run = (r, acts)" "Start \<in> set acts"
  shows "\<exists>b c. port_credentials env = Inr c \<and> new_sim_bridge CP rng lut N R T run ''S5'' = Inr b
    \<and> acts = [Create_server (serve_workers workers threads), Add_servicer b, Add_port c port, Start, Install_signal_handlers]
        @ (if sv_signal env then [Stop 5] else [])
    \<and> r = (if sv_signal env then Stopped else Waiting) \<and> 0 < serve_workers workers threads"
  using assms by (auto simp: serve_def Let_def split: if_splits sum.splits)

lemma serve_ports:
  assumes "serve CP rng lut env threads port workers N R T run = (r, acts)" "Add_port c p \<in> set acts"
  shows "port_credentials env = Inr c \<and> p = port \<and> Start \<in> set acts"
  using assms by (auto simp: serve_def Let_def split: if_splits sum.splits)

lemma serve_missing_file:
  assumes "serve CP rng lut env threads port workers N R T run = (File_not_found path, acts)"
  shows "port_credentials env = Inl path \<and> Start \<notin> set acts"
  using assms by (auto simp: serve_def Let_def split: if_splits sum.splits)

text \<open>
  In secure mode no port is ever opened in the clear: the server starts only after a port was bound with the three
  files of the certificate directory, and when one of them is missing it never starts.
\<close>

theorem secure_mode_never_in_the_clear:
  assumes "secure_mode env" "serve CP rng lut env threads port workers N R T run = (r, acts)"
  shows "Add_port None p \<notin> set acts
    \<and> (Start \<in> set acts \<longrightarrow> (\<exists>t pre post. acts = pre @ [Add_port (Some t) port, Start] @ post \<and> Add_port (Some t) port \<notin> set post
         \<and> sv_files env (path_join (environ_get env ''GRPC_CERT_DIR'' ''certs'') ''ca.crt'') = Some (tls_ca t)
         \<and> sv_files env (path_join (environ_get env ''GRPC_CERT_DIR'' ''certs'') ''server.crt'') = Some (tls_cert t)
         \<and> sv_files env (path_join (environ_get env ''GRPC_CERT_DIR'' ''certs'') ''server.key'') = Some (tls_key t)))
    \<and> (\<forall>path. r = File_not_found path \<longrightarrow> sv_files env path = None \<and> Start \<notin> set acts)"
proof (intro conjI impI allI)
  show "Add_port None p \<notin> set acts"
    using serve_ports [OF assms(2)] port_credentials_secure [OF assms(1)] by blast
next
  assume "Start \<in> set acts"
  then obtain b c where c: "port_credentials env = Inr c"
      and a: "acts = [Create_server (serve_workers workers threads), Add_servicer b, Add_port c port, Start, Install_signal_handlers]
        @ (if sv_signal env then [Stop 5] else [])"
    using serve_starts [OF assms(2)] by blast
  obtain t where t: "c = Some t"
      and "sv_files env (path_join (environ_get env ''GRPC_CERT_DIR'' ''certs'') ''ca.crt'') = Some (tls_ca t)"
      "sv_files env (path_join (environ_get env ''GRPC_CERT_DIR'' ''certs'') ''server.crt'') = Some (tls_cert t)"
      "sv_files env (path_join (environ_get env ''GRPC_CERT_DIR'' ''certs'') ''server.key'') = Some (tls_key t)"
    using port_credentials_secure [OF assms(1) c] by blast
  moreover have "acts = [Create_server (serve_workers workers threads), Add_servicer b] @ [Add_port (Some t) port, Start]
      @ Install_signal_handlers # (if sv_signal env then [Stop 5] else [])"
    by (simp add: a t)
  ultimately show "\<exists>t pre post. acts = pre @ [Add_port (Some t) port, Start] @ post \<and> Add_port (Some t) port \<notin> set post
      \<and> sv_files env (path_join (environ_get env ''GRPC_CERT_DIR'' ''certs'') ''ca.crt'') = Some (tls_ca t)
      \<and> sv_files env (path_join (environ_get env ''GRPC_CERT_DIR'' ''certs'') ''server.crt'') = Some (tls_cert t)
      \<and> sv_files env (path_join (environ_get env ''GRPC_CERT_DIR'' ''certs'') ''server.key'') = Some (tls_key t)"
    by (intro exI conjI) (assumption | simp)+
next
  fix path
  assume "r = File_not_found path"
  then have "port_credentials env = Inl path" "Start \<notin> set acts"
    using serve_missing_file assms(2) by blast+
  then show "sv_files env path = None" "Start \<notin> set acts"
    by (auto simp: port_credentials_def read_file_def Let_def split: if_splits sum.splits option.splits)
qed

definition secure_env :: "(string \<rightharpoonup> string) \<Rightarrow> serve_env" where
  "secure_env files = \<lparr>sv_grpc_available = True, sv_pb2_available = True, sv_environ = [''GRPC_SECURE_MODE'' \<mapsto> ''True''],
     sv_files = files, sv_signal = True\<rparr>"

text \<open>At a certificate directory without a key: the server does not start.\<close>

theorem secure_mode_never_in_the_clear_witness:
  "\<exists>acts. serve None (\<lambda>_. Inr ()) (new_lut_manager small_config (Some (Inr small_stack)) Map.empty None)
      (secure_env [''certs/ca.crt'' \<mapsto> ''ca'', ''certs/server.crt'' \<mapsto> ''crt'']) 1 50051 None 200 0.06 353.15 0
      = (File_not_found ''certs/server.key'', acts) \<and> Start \<notin> set acts"
proof -
  let ?env = "secure_env [''certs/ca.crt'' \<mapsto> ''ca'', ''certs/server.crt'' \<mapsto> ''crt'']"
  let ?lut = "new_lut_manager small_config (Some (Inr small_stack)) Map.empty None"
  have "lower_char CHR ''T'' = CHR ''t'' \<and> map lower_char ''rue'' = ''rue''"
    by code_simp
  then have s: "secure_mode ?env"
    by (simp add: secure_mode_def environ_get_def secure_env_def)
  have c: "port_credentials ?env = Inl ''certs/server.key''"
    unfolding port_credentials_def using s
    by (simp add: Let_def environ_get_def path_join_def read_file_def secure_env_def)
  obtain b where "new_sim_bridge None (\<lambda>_. Inr ()) ?lut 200 0.06 353.15 0 ''S5'' = Inr b"
    using small_bridge by blast
  with c obtain acts where r: "serve None (\<lambda>_. Inr ()) ?lut ?env 1 50051 None 200 0.06 353.15 0 = (File_not_found ''certs/server.key'', acts)"
    by (simp add: serve_def Let_def serve_workers_def secure_env_def)
  then show ?thesis
    using secure_mode_never_in_the_clear [OF s r] by blast
qed

end
