(* ===== verification/Warmup.thy ===== *)
theory Warmup
  imports Server Soec Thermo HeatExchange Boiler Electrolyzer Deoxo Flash Compression Cooler StorageMPC
begin

text \<open>
  The two warm-ups, which call the kernels once so that none is compiled while the clock runs:
  \<open>warmup_jit_kernels\<close> of \<open>optimization/_numba_ops_core_python.py\<close> for all kernels, on synthetic tables or on those of a
  manager, and \<open>_warmup_jit\<close> of the servicer. Compilation is not modelled; the calls and their arguments are.
\<close>

section \<open>Calls whose results are dropped\<close>

definition call :: "'a res \<Rightarrow> unit res" where
  "call r = res_bind r (\<lambda>_. Inr ())"

definition tried :: "'a res \<Rightarrow> unit res" where
  "tried r = Inr ()"

definition in_order :: "unit res list \<Rightarrow> unit res" where
  "in_order calls = foldr (\<lambda>r rest. res_bind r (\<lambda>_. rest)) calls (Inr ())"

lemma call_Inr [simp]: "call (Inr v) = Inr ()"
  by (simp add: call_def)

lemma call_returns: "call r = Inr () \<longleftrightarrow> (\<exists>v. r = Inr v)"
  by (cases r) (auto simp: call_def)

lemma in_order_returns: "in_order calls = Inr () \<longleftrightarrow> (\<forall>r\<in>set calls. r = Inr ())"
  by (induction calls) (auto simp: in_order_def res_bind_Inr_iff)

section \<open>The warm-up of the servicer\<close>

text \<open>Whether it completes; an exception is caught and logged as not fatal.\<close>

definition warmup_jit :: "int \<Rightarrow> bool" where
  "warmup_jit numba_threads =
     (case in_order [
        call (calculate_pemfc_voltage 1 353.15 1 1 0.1 1 1 14 2.5),
        call (newton_raphson_solver 0.5 353.15 1 1 0.1 1 1 14 2.5),
        call (batch_polarization_sweep [0.1, 0.5, 1] 353.15 1 1 0.1 1 numba_threads 1 14 2.5)]
      of Inl _ \<Rightarrow> False | Inr _ \<Rightarrow> True)"

section \<open>The warm-up of the kernels\<close>

text \<open>The grids and the stacked tables of enthalpy, entropy, heat capacity and density.\<close>

record warm_arrays =
  wa_P_grid :: "real list"
  wa_T_grid :: "real list"
  wa_H :: "ptable list"
  wa_S :: "ptable list"
  wa_C :: "ptable list"
  wa_D :: "ptable list"

definition ones :: "nat \<Rightarrow> nat \<Rightarrow> ptable" where
  "ones n m = values_of (replicate n (replicate m 1))"

definition warm_arrays_of :: "lut_manager option \<Rightarrow> warm_arrays res" where
  "warm_arrays_of lut_mgr =
     (case lut_mgr of
        None \<Rightarrow> (let tables = replicate 7 (ones 10 10) in
          Inr \<lparr>wa_P_grid = linspace 100000 100000000 10, wa_T_grid = linspace 273.15 1200 10,
            wa_H = tables, wa_S = tables, wa_C = tables, wa_D = tables\<rparr>)
      | Some m \<Rightarrow> (case lm_stacked m of
          None \<Rightarrow> Inl AttributeError
        | Some sc \<Rightarrow> Inr \<lparr>wa_P_grid = lm_pressure_grid m, wa_T_grid = lm_temperature_grid m,
            wa_H = sc_H sc, wa_S = sc_S sc, wa_C = sc_C sc, wa_D = sc_D sc\<rparr>))"

text \<open>Fractions for the fluids of the tables: the first and the sixth.\<close>

definition warm_fracs :: "nat \<Rightarrow> real \<Rightarrow> real \<Rightarrow> real list res" where
  "warm_fracs n_fluids a b = res_bind (aset (replicate n_fluids 0) 0 a) (\<lambda>fracs. aset fracs 5 b)"

definition mass_fracs_6 :: "real list" where "mass_fracs_6 = [0.9, 0, 0, 0, 0, 0.1]"
definition mole_fracs_6 :: "real list" where "mole_fracs_6 = [0.5, 0, 0, 0, 0, 0.5]"
definition warm_cp_coeffs :: "real list list" where "warm_cp_coeffs = replicate 6 (replicate 5 0.01)"
definition warm_h_formations :: "real list" where "warm_h_formations = replicate 6 0"

definition warm_saturation :: saturation_line where
  "warm_saturation = \<lparr>sat_P_grid = linspace 100000 10000000 10, sat_T_grid = linspace 373 600 10,
     sat_H_liq = replicate 10 400000, sat_H_vap = replicate 10 2700000\<rparr>"

definition warm_thermodynamics :: "real list \<Rightarrow> unit res list" where
  "warm_thermodynamics mass_fracs_7 = [
     call (calculate_dissolved_gas_mg_kg_jit 400 100000 1282 500 0.002016),
     call (fast_composition_properties mass_fracs_7),
     call (calculate_stream_enthalpy_jit 400 mass_fracs_6 0),
     call (calculate_water_psat_jit 400),
     call (solve_water_T_from_H_jit 500000 3000000 400),
     call (solve_rachford_rice_single_condensable 0.05 0.5),
     call (calculate_mixture_enthalpy 400 mole_fracs_6 warm_h_formations warm_cp_coeffs 298.15),
     call (calculate_mixture_cp 400 mole_fracs_6 warm_cp_coeffs),
     call (calc_boiler_outlet_enthalpy 100000 1 1000000 0.95)]"

definition warm_tanks :: "unit res list" where
  "warm_tanks =
     (let states_i32 = replicate 4 0; masses_f64 = replicate 4 100; capacities_f64 = replicate 4 1000;
          volumes_f64 = replicate 4 50; pressures_f64 = replicate 4 3000000; temperatures_f64 = replicate 4 300
      in [call (find_available_tank states_i32 masses_f64 capacities_f64 0),
          call (find_fullest_tank states_i32 masses_f64 0),
          call (batch_pressure_update masses_f64 volumes_f64 pressures_f64 400 4124),
          call (calculate_compression_work 3000000 6000000 1 300 0.85 1.4 4124),
          call (distribute_mass_to_tanks 10 states_i32 masses_f64 capacities_f64),
          call (calculate_total_mass_by_state states_i32 masses_f64 0),
          call (simulate_filling_timestep 1 60 states_i32 masses_f64 capacities_f64),
          call (distribute_mass_and_energy 10 300 states_i32 masses_f64 temperatures_f64 capacities_f64 1.4),
          call (apply_heat_loss_batch temperatures_f64 masses_f64 293 60 10 10200),
          call (batch_pressure_update_vector_T masses_f64 volumes_f64 pressures_f64 temperatures_f64 4124),
          call (calculate_storage_mpc_factor 0.5 1000 (replicate 24 1) (replicate 24 0.5) 1 0.95 24)])"

definition warm_lookups :: "warm_arrays \<Rightarrow> ptable \<Rightarrow> real list \<Rightarrow> real list \<Rightarrow> unit res list" where
  "warm_lookups w H_lut_2d mass_fracs_7 mole_fracs_7 =
     [call (bilinear_interp_jit (wa_P_grid w) (wa_T_grid w) H_lut_2d 3000000 400),
      call (get_mixture_enthalpy_fast (wa_H w) (wa_P_grid w) (wa_T_grid w) mass_fracs_7 3000000 400),
      tried (batch_bilinear_interp_jit (wa_P_grid w) (wa_T_grid w) H_lut_2d [3000000] [400]),
      call (bilinear_interp_liquid (wa_P_grid w) (wa_T_grid w) H_lut_2d 500000 350),
      res_bind (get_interp_weights_jit (wa_P_grid w) (wa_T_grid w) 3000000 400) (\<lambda>(ix, iy, wx, wy). in_order [
        call (interp_from_weights_jit H_lut_2d ix iy wx wy),
        call (get_mix_cp_jit (wa_C w) mass_fracs_7 ix iy wx wy),
        call (get_mix_enthalpy_fast_jit (wa_H w) mass_fracs_7 ix iy wx wy),
        call (get_mix_density_jit (wa_D w) mass_fracs_7 ix iy wx wy),
        call (calculate_mixture_density_jit 3000000 400 (wa_P_grid w) (wa_T_grid w) (wa_D w) mass_fracs_7),
        call (get_mix_entropy_fast_jit (wa_S w) mass_fracs_7 0.01 (-0.1) ix iy wx wy)])]"

definition warm_compression :: "warm_arrays \<Rightarrow> ptable \<Rightarrow> ptable \<Rightarrow> ptable \<Rightarrow> real list \<Rightarrow> unit res list" where
  "warm_compression w H_lut_2d S_lut_2d C_lut_2d mass_fracs_7 =
     (let P_grid = wa_P_grid w; T_grid = wa_T_grid w; n_p = length P_grid;
          mixture = \<lparr>mx_P_grid = P_grid, mx_T_grid = T_grid, mx_H_luts = wa_H w, mx_S_luts = wa_S w, mx_C_luts = wa_C w,
            mx_weights = mass_fracs_7, mx_M_mix_kg_mol = 0.01, mx_sum_ylny = - 0.1\<rparr>;
          gas = \<lparr>gt_P_grid = P_grid, gt_T_grid = T_grid, gt_S_grid = linspace 100 50000 n_p, gt_H_lut = H_lut_2d,
            gt_S_lut = S_lut_2d, gt_C_lut = C_lut_2d, gt_H_from_PS_lut = ones n_p n_p\<rparr>
      in [call (calculate_mixture_compression_jit 3000000 6000000 300 0.85 mixture),
          call (solve_temp_limited_pressure_jit 3000000 6000000 300 450 0.85 mixture),
          call (solve_temperature_from_enthalpy_jit 500000 3000000 400 P_grid T_grid H_lut_2d C_lut_2d 4180 0.01 20),
          call (calc_boiler_flash_jit 2800000 500000 warm_saturation P_grid T_grid H_lut_2d C_lut_2d),
          call (calculate_compression_realgas_jit 3000000 6000000 300 0.85 gas),
          call (calc_boiler_batch_scenario [100000] [1] [1000000] 0.95),
          tried (calc_boiler_batch_full [100000] [1] [1000000] [500000] [400] 0.95 True warm_saturation P_grid T_grid
            H_lut_2d C_lut_2d 2000)])"

definition warm_pem :: pem_params where
  "warm_pem = \<lparr>pp_T = 353, pp_P_op = 3000000, pp_R = 8.314, pp_F = 96485, pp_z = 2, pp_alpha = 0.5, pp_j0 = 0.001,
     pp_j_lim = 20000, pp_delta_mem = 0.000183, pp_sigma_base = 10, pp_P_ref = 100000\<rparr>"

definition warm_electrolysis :: "unit res list" where
  "warm_electrolysis =
     (let breaks = [0, 1, 2]; coeffs_spline = replicate 2 (replicate 4 1)
      in [call (calculate_pem_voltage_jit 100 warm_pem),
          call (solve_pem_j_jit 1000000 100 5000 0.1 100 warm_pem 50 (1 / 10 ^ 4)),
          call (simulate_soec_step_jit 5 [1, 2] [1, 1] [5, 5] [0, 1] 5 0.01 0.5 0.1 0.5),
          call (eval_cubic_spline 1.5 breaks coeffs_spline),
          call (calculate_h2_production_dynamic [1, 2] 2 breaks coeffs_spline [1, 1.01] 1)])"

definition warm_reactor :: reactor where
  "warm_reactor = \<lparr>rx_P_in_pa = 3000000, rx_molar_flow_total = 100, rx_Ea = 50000, rx_R = 8.314, rx_delta_H = - 250000,
     rx_T_jacket = 350, rx_Area = 0.01, rx_Cp_mix = 14000\<rparr>"

definition warm_heat_and_reaction :: "unit res list" where
  "warm_heat_and_reaction =
     [call (dry_cooler_ntu_effectiveness 2 0.5),
      call (counter_flow_ntu_effectiveness 2 0.5),
      call (calculate_reynolds_flux 1 0.01 0.02 0.000018),
      call (calculate_nusselt_dittus_boelter 10000 0.7 True),
      call (calculate_nusselt_crossflow 10000 0.7),
      call (calculate_dynamic_u_fouled 500 200 0.025 0.03 50 0.0001 0.0002),
      call (solve_cyclone_mechanics 0.5 1 1000 0.000018 0.05 0.785 10),
      call (solve_deoxo_pfr_step 1 400 warm_reactor 0.001 1000000 100 0),
      call (solve_deoxo_multizone_jit [0.5, 0.5] [1000000, 1000000] [100, 100] 400 warm_reactor 0.001 50)]"

definition warm_flash :: "warm_arrays \<Rightarrow> real list \<Rightarrow> unit res list" where
  "warm_flash w mass_fracs_7 =
     [call (solve_uv_flash 100000 1 10 mole_fracs_6 warm_h_formations warm_cp_coeffs 400 8.314 (1 / 10 ^ 4) 50),
      call (remap_canonical_to_lut mass_fracs_6 0 [0, 1, 2, 3, 4, 5, - 1]),
      call (antoine_psat_water 400),
      call (solve_interchanger_flash_jit \<lparr>ic_z_h2o_mole = 0.05, ic_M_mix_feed = 0.01, ic_P_system = 3000000,
          ic_lut_mass_fracs = mass_fracs_7, ic_stacked_H = wa_H w, ic_P_grid = wa_P_grid w, ic_T_grid = wa_T_grid w\<rparr>
        500000 500 5 100),
      call (solve_ph_flash_jit 0 mole_fracs_6 warm_h_formations warm_cp_coeffs 400 0.05 10),
      call (solve_dry_cooler_thermal_jit
        \<lparr>cs_m_dot_gas = 1, cs_cp_gas = 14300, cs_T_gas_in_k = 400, cs_glycol_flow_kg_s = 2, cs_glycol_cp = 3500,
          cs_T_glycol_in_k = 310, cs_T_air_in_k = 298, cs_dc_air_flow_kg_s = 5, cs_cp_air = 1005\<rparr>
        \<lparr>cz_tqc_u = 500, cz_tqc_area = 10, cz_dc_u = 30, cz_dc_area = 20, cz_use_dc = True\<rparr>
        \<lparr>td_flow_area_gas = 0.01, td_flow_area_glycol = 0.015, td_d_tube_in = 0.02, td_d_tube_out = 0.025,
          td_mu_gas = 0.000009, td_k_gas = 0.18, td_pr_gas = 0.7, td_mu_glycol = 0.003, td_k_glycol = 0.4, td_pr_glycol = 20,
          td_k_tube_wall = 50, td_r_foul_glycol = 0.0002, td_use_dynamic_u = True\<rparr>)]"

definition warmup_jit_kernels :: "lut_manager option \<Rightarrow> unit res" where
  "warmup_jit_kernels lut_mgr =
     res_bind (warm_arrays_of lut_mgr) (\<lambda>w.
     res_bind (aget (wa_H w) 0) (\<lambda>H_lut_2d.
     res_bind (aget (wa_C w) 0) (\<lambda>C_lut_2d.
     res_bind (aget (wa_S w) 0) (\<lambda>S_lut_2d.
     res_bind (warm_fracs (length (wa_H w)) 0.9 0.1) (\<lambda>mass_fracs_7.
     res_bind (warm_fracs (length (wa_H w)) 0.95 0.05) (\<lambda>mole_fracs_7.
     in_order (warm_thermodynamics mass_fracs_7 @ warm_tanks @ warm_lookups w H_lut_2d mass_fracs_7 mole_fracs_7
       @ warm_compression w H_lut_2d S_lut_2d C_lut_2d mass_fracs_7 @ warm_electrolysis @ warm_heat_and_reaction
       @ warm_flash w mass_fracs_7)))))))"

end
