(* ===== verification/WarmupReturns.thy ===== *)
theory WarmupReturns
  imports Warmup
begin

text \<open>
  The warm-ups return: for each group of calls that every kernel returns on the arguments of the warm-up, and which
  managers' tables the warm-up of the kernels runs on.
\<close>

section \<open>Total kernels\<close>

definition warm_ok :: "warm_arrays \<Rightarrow> bool" where
  "warm_ok w \<longleftrightarrow> sorted_grid (wa_P_grid w) \<and> sorted_grid (wa_T_grid w)
     \<and> 6 \<le> length (wa_H w) \<and> length (wa_H w) \<le> 7
     \<and> (\<forall>luts\<in>{wa_H w, wa_S w, wa_C w, wa_D w}. length luts = length (wa_H w)
          \<and> (\<forall>tab\<in>set luts. table_for (wa_P_grid w) (wa_T_grid w) tab))"

lemma fast_axis:
  assumes "sorted_grid g"
  shows "\<exists>k w. Suc k < length g \<and> fast_index g x = int (Suc k) \<and> bilinear_weight g (int (Suc k)) x = Inr w"
proof -
  have l: "2 \<le> length g" using sorted_grid.two [OF assms] by simp
  have w: "\<exists>w. bilinear_weight g (int (Suc k)) x = Inr w" if "Suc k < length g" for k
    using that aget_nat [of k g] aget_nat [of "Suc k" g] by (simp add: bilinear_weight_def Let_def add.commute)
  define n where "n = searchsorted g x"
  have "0 \<le> n" by (simp add: n_def searchsorted_def)
  then have "\<exists>k. Suc k < length g \<and> fast_index g x = int (Suc k)"
    unfolding fast_index_def n_def [symmetric] Let_def using l
    by (intro exI [of _ "if n = 0 then 0 else if int (length g) \<le> n then length g - 2 else nat n - 1"]) auto
  then show ?thesis using w by blast
qed

lemma mixture_enthalpy_fast_total:
  assumes "sorted_grid gx" "sorted_grid gy" "length ws \<le> length luts" "\<forall>tab\<in>set luts. table_for gx gy tab"
  shows "\<exists>h. get_mixture_enthalpy_fast luts gx gy ws p t = Inr h"
proof -
  let ?hold = "\<lambda>g x. if x < g ! 0 then g ! 0 else if x > last g then last g else x"
  obtain i wp where i: "Suc i < length gx" "fast_index gx (?hold gx p) = int (Suc i)"
      "bilinear_weight gx (int (Suc i)) (?hold gx p) = Inr wp"
    using fast_axis [OF assms(1), of "?hold gx p"] by blast
  obtain j wt where j: "Suc j < length gy" "fast_index gy (?hold gy t) = int (Suc j)"
      "bilinear_weight gy (int (Suc j)) (?hold gy t) = Inr wt"
    using fast_axis [OF assms(2), of "?hold gy t"] by blast
  let ?body = "\<lambda>k h_mix. res_bind (aget ws (int k)) (\<lambda>w_i.
            if w_i < 1 / 10 ^ 12 then Inr h_mix
            else res_bind (aget luts (int k)) (\<lambda>tab.
              res_bind (cell_at tab (int (Suc i) - 1) (int (Suc j) - 1)) (\<lambda>q00.
              res_bind (cell_at tab (int (Suc i) - 1) (int (Suc j))) (\<lambda>q01.
              res_bind (cell_at tab (int (Suc i)) (int (Suc j) - 1)) (\<lambda>q10.
              res_bind (cell_at tab (int (Suc i)) (int (Suc j))) (\<lambda>q11.
              Inr (h_mix + w_i * (q00 * (1 - wp) * (1 - wt) + q10 * wp * (1 - wt)
                                  + q01 * (1 - wp) * wt + q11 * wp * wt))))))))"
  have "\<exists>s. fold_range (length ws) ?body 0 = Inr s \<and> True"
  proof (rule fold_from_total_inv)
    fix k and h :: real assume "k < 0 + length ws"
    then have k: "k < length ws" "k < length luts" using assms(3) by auto
    then have "table_for gx gy (luts ! k)" using assms(4) by simp
    note c = cell_at_table [OF this]
    show "\<exists>s. ?body k h = Inr s \<and> True"
      using c [of i j] c [of i "Suc j"] c [of "Suc i" j] c [of "Suc i" "Suc j"] i(1) j(1) k by (simp add: aget_nat)
  qed simp
  then show ?thesis
    unfolding get_mixture_enthalpy_fast_def sorted_grid.ends [OF assms(1)] sorted_grid.ends [OF assms(2)] res_bind.simps Let_def
      i(2,3) j(2,3) by auto
qed

lemma density_total:
  assumes "length weights \<le> length luts" and "\<forall>tab \<in> set luts. table_for gx gy tab"
    and "Suc i < length gx" "Suc j < length gy"
  shows "\<exists>v. get_mix_density_jit luts weights (int i) (int j) wx wy = Inr v"
proof -
  let ?body = "\<lambda>k acc. res_bind (aget weights (int k)) (\<lambda>w. if w > 1 / 10 ^ 9
         then res_bind (aget luts (int k)) (\<lambda>tab. res_bind (interp_from_weights_jit tab (int i) (int j) wx wy) (\<lambda>rho.
              Inr (if rho > 1 / 10 ^ 6 then acc + w / rho else acc)))
         else Inr acc)"
  have "\<exists>s. fold_range (length weights) ?body 0 = Inr s \<and> True"
  proof (rule fold_from_total_inv)
    fix k and acc :: real assume "k < 0 + length weights"
    then have k: "k < length weights" "k < length luts" using assms(1) by auto
    then have "table_for gx gy (luts ! k)" using assms(2) by simp
    from interp_from_weights_lerp [OF this assms(3,4)] k show "\<exists>s. ?body k acc = Inr s \<and> True"
      by (simp add: aget_nat)
  qed simp
  then show ?thesis unfolding get_mix_density_jit_def by auto
qed

section \<open>The calls on the tables\<close>

lemma warm_okD:
  assumes "warm_ok w" "luts \<in> {wa_H w, wa_S w, wa_C w, wa_D w}"
  shows "length luts = length (wa_H w)" "\<forall>tab\<in>set luts. table_for (wa_P_grid w) (wa_T_grid w) tab" "luts \<noteq> []"
    "table_for (wa_P_grid w) (wa_T_grid w) (luts ! 0)"
proof -
  show 1: "length luts = length (wa_H w)" "\<forall>tab\<in>set luts. table_for (wa_P_grid w) (wa_T_grid w) tab"
    using assms by (auto simp: warm_ok_def)
  have "6 \<le> length luts" using 1(1) assms(1) by (simp add: warm_ok_def)
  then show "luts \<noteq> []" by auto
  then show "table_for (wa_P_grid w) (wa_T_grid w) (luts ! 0)" using 1(2) by simp
qed

lemma warm_lookups_return:
  assumes ok: "warm_ok w" and len: "length ms = length (wa_H w)"
  shows "\<forall>r\<in>set (warm_lookups w (wa_H w ! 0) ms ys). r = Inr ()"
proof -
  have g: "sorted_grid (wa_P_grid w)" "sorted_grid (wa_T_grid w)" using ok by (simp_all add: warm_ok_def)
  note H = warm_okD [OF ok insertI1]
  have b: "\<exists>v. bilinear_interp_jit (wa_P_grid w) (wa_T_grid w) (wa_H w ! 0) p t = Inr v" for p t
    using bilinear_interp_total [OF g H(4)] .
  obtain i wx where i: "axis_weight (wa_P_grid w) 3000000 = Inr (int i, wx)" "Suc i < length (wa_P_grid w)"
    using sorted_grid.axis_weight_law [OF g(1)] by metis
  obtain j wy where j: "axis_weight (wa_T_grid w) 400 = Inr (int j, wy)" "Suc j < length (wa_T_grid w)"
    using sorted_grid.axis_weight_law [OF g(2)] by metis
  have wt: "get_interp_weights_jit (wa_P_grid w) (wa_T_grid w) 3000000 400 = Inr (int i, int j, wx, wy)"
    by (simp add: get_interp_weights_jit_def i j)
  have s: "\<exists>v. weighted_sum luts ms (int i) (int j) wx wy = Inr v" if "luts \<in> {wa_H w, wa_S w, wa_C w, wa_D w}" for luts
    by (rule weighted_sum_total [OF _ warm_okD(2) [OF ok that] i(2) j(2)]) (simp only: warm_okD(1) [OF ok that] len order_refl)
  have d: "\<exists>v. get_mix_density_jit (wa_D w) ms (int i) (int j) wx wy = Inr v"
  proof (rule density_total [OF _ _ i(2) j(2)])
    have "wa_D w \<in> {wa_H w, wa_S w, wa_C w, wa_D w}" by simp
    from warm_okD [OF ok this] len show "length ms \<le> length (wa_D w)" "\<forall>tab\<in>set (wa_D w). table_for (wa_P_grid w) (wa_T_grid w) tab"
      by simp_all
  qed
  have "call (bilinear_interp_jit (wa_P_grid w) (wa_T_grid w) (wa_H w ! 0) 3000000 400) = Inr ()"
    "call (bilinear_interp_liquid (wa_P_grid w) (wa_T_grid w) (wa_H w ! 0) 500000 350) = Inr ()"
    using b by (simp_all add: call_returns bilinear_interp_liquid_def Let_def)
  moreover have "call (get_mixture_enthalpy_fast (wa_H w) (wa_P_grid w) (wa_T_grid w) ms 3000000 400) = Inr ()"
    using mixture_enthalpy_fast_total [OF g _ H(2)] len by (simp add: call_returns)
  moreover have "call (interp_from_weights_jit (wa_H w ! 0) (int i) (int j) wx wy) = Inr ()"
    using interp_from_weights_lerp [OF H(4) i(2) j(2)] by (simp add: call_returns)
  moreover have "call (get_mix_cp_jit (wa_C w) ms (int i) (int j) wx wy) = Inr ()"
    "call (get_mix_enthalpy_fast_jit (wa_H w) ms (int i) (int j) wx wy) = Inr ()"
    "call (get_mix_entropy_fast_jit (wa_S w) ms 0.01 (-0.1) (int i) (int j) wx wy) = Inr ()"
    using s [of "wa_C w"] s [of "wa_H w"] s [of "wa_S w"]
    by (auto simp: get_mix_cp_jit_def get_mix_enthalpy_fast_jit_def get_mix_entropy_fast_jit_def)
  moreover have "call (get_mix_density_jit (wa_D w) ms (int i) (int j) wx wy) = Inr ()"
    "call (calculate_mixture_density_jit 3000000 400 (wa_P_grid w) (wa_T_grid w) (wa_D w) ms) = Inr ()"
    using d by (auto simp: calculate_mixture_density_jit_def wt)
  ultimately show ?thesis
    unfolding warm_lookups_def wt res_bind.simps prod.case
    by (simp add: tried_def in_order_returns)
qed

lemma limit_search_total:
  assumes "mixture_ok mx" and "0 < p_in" "p_in \<le> p_max" and "efficiency \<noteq> 0"
  shows "\<exists>r. solve_temp_limited_pressure_jit p_in p_max T_in T_max efficiency mx = Inr r"
proof -
  define est where "est = (\<lambda>p. compute_T_out_for_P_jit p_in p T_in efficiency mx)"
  have tot: "\<exists>T. est p = Inr T" if "p_in \<le> p" "p \<le> p_max" for p
    using compute_T_out_total [OF assms(1,2) _ assms(4), of p T_in] that assms(2) by (auto simp: est_def)
  have comp: "\<exists>w T h. calculate_mixture_compression_jit p_in p T_in efficiency mx = Inr (w, T, h)" if "p_in \<le> p" for p
    using mixture_compression_total [OF assms(1,2) _ assms(4), of p] assms(2) that by simp
  obtain Tm where Tm: "est p_max = Inr Tm" using tot [of p_max] assms(3) by blast
  show ?thesis
  proof (cases "Tm \<le> T_max")
    case True
    then show ?thesis
      using comp [OF assms(3)] Tm unfolding solve_temp_limited_pressure_jit_def est_def by auto
  next
    case False
    have "limited est T_max p_in p_max (p_in, p_max)" using assms(2,3) tot Tm False by (auto simp: limited_def)
    from limit_search.loop [OF this, of 0 25] obtain c lo hi where
      c: "for_range 25 (\<lambda>_. limit_bisect_step est T_max) (p_in, p_max) = Inr c" "loop_state c = Inr (lo, hi)"
        "limited est T_max p_in p_max (lo, hi)"
      by (fastforce split: ctl.splits)
    have "p_in \<le> lo" using c(3) by (simp add: limited_def)
    then show ?thesis
      using comp [of lo] Tm c(1,2) False unfolding solve_temp_limited_pressure_jit_def est_def by auto
  qed
qed

lemma warm_saturation_at: "saturation_at warm_saturation 500000 = Inr ((373 * 7 + (373 + 227 / 9) * 4) / 11, 400000, 2700000)"
proof -
  have P: "linspace 100000 10000000 10 = [100000, 1200000, 2300000, 3400000, 4500000, 5600000, 6700000, 7800000, 8900000, 10000000]"
    and T: "linspace 373 600 10 = map (\<lambda>i. 373 + 227 / 9 * real i) [0..<10]"
  proof -
    have ten: "[0..<10] = [0, 1, 2, 3, 4, 5, 6, 7, 8, 9]" by code_simp
    show "linspace 100000 10000000 10 = [100000, 1200000, 2300000, 3400000, 4500000, 5600000, 6700000, 7800000, 8900000, 10000000]"
      "linspace 373 600 10 = map (\<lambda>i. 373 + 227 / 9 * real i) [0..<10]"
      by (simp_all add: linspace_def ten)
  qed
  show ?thesis
    unfolding saturation_at_def warm_saturation_def P T
    by (simp add: aget_def py_index_def saturation_node_def bracket_index_def bracket_weight_def upt_conv_Cons fdiv_def Let_def)
qed

lemma warm_compression_returns:
  assumes ok: "warm_ok w" and len: "length ms = length (wa_H w)"
  shows "\<forall>r\<in>set (warm_compression w (wa_H w ! 0) (wa_S w ! 0) (wa_C w ! 0) ms). r = Inr ()"
proof -
  let ?P = "wa_P_grid w" and ?T = "wa_T_grid w"
  define mx where "mx = \<lparr>mx_P_grid = ?P, mx_T_grid = ?T, mx_H_luts = wa_H w, mx_S_luts = wa_S w, mx_C_luts = wa_C w,
            mx_weights = ms, mx_M_mix_kg_mol = 0.01, mx_sum_ylny = - 0.1\<rparr>"
  define gas where "gas = \<lparr>gt_P_grid = ?P, gt_T_grid = ?T, gt_S_grid = linspace 100 50000 (length ?P), gt_H_lut = wa_H w ! 0,
            gt_S_lut = wa_S w ! 0, gt_C_lut = wa_C w ! 0, gt_H_from_PS_lut = ones (length ?P) (length ?P)\<rparr>"
  have g: "sorted_grid ?P" "sorted_grid ?T" using ok by (simp_all add: warm_ok_def)
  have t: "table_for ?P ?T (wa_H w ! 0)" "table_for ?P ?T (wa_S w ! 0)" "table_for ?P ?T (wa_C w ! 0)"
    using warm_okD(4) [OF ok] by simp_all
  have mx: "mixture_ok mx"
    using g warm_okD(1,2) [OF ok, of "wa_H w"] warm_okD(1,2) [OF ok, of "wa_S w"] warm_okD(1,2) [OF ok, of "wa_C w"] len
    unfolding mixture_ok_def mx_def by simp
  have "call (calculate_mixture_compression_jit 3000000 6000000 300 0.85 mx) = Inr ()"
    "call (solve_temp_limited_pressure_jit 3000000 6000000 300 450 0.85 mx) = Inr ()"
    using mixture_compression_total [OF mx, of 3000000 6000000 "0.85" 300] limit_search_total [OF mx, of 3000000 6000000 "0.85" 300 450]
    by (simp_all add: call_returns)
  moreover have T: "\<exists>T. solve_temperature_from_enthalpy_jit h p T0 ?P ?T (wa_H w ! 0) (wa_C w ! 0) d 0.01 20 = Inr T"
    if "273.15 \<le> T0" "T0 \<le> 1200" "d \<noteq> 0" for h p T0 d
    using solve_T_total [OF g t(1,3) that(3,1,2)] by blast
  have "call (solve_temperature_from_enthalpy_jit 500000 3000000 400 ?P ?T (wa_H w ! 0) (wa_C w ! 0) 4180 0.01 20) = Inr ()"
    using T [of 400 4180] by (simp add: call_returns)
  moreover have "call (calc_boiler_flash_jit 2800000 500000 warm_saturation ?P ?T (wa_H w ! 0) (wa_C w ! 0)) = Inr ()"
    using T [of "38825 / 99" 2080 2800000 500000] by (auto simp: calc_boiler_flash_jit_def warm_saturation_at)
  moreover have "call (calculate_compression_realgas_jit 3000000 6000000 300 0.85 gas) = Inr ()"
  proof -
    have "2 \<le> length ?P" using sorted_grid.two [OF g(1)] by simp
    then have "sorted_grid (gt_S_grid gas)" "table_for (gt_P_grid gas) (gt_S_grid gas) (gt_H_from_PS_lut gas)"
      by (simp_all add: gas_def sorted_grid_linspace ones_def linspace_length)
    then show ?thesis
      using realgas_compression_first_law [of gas 3000000 6000000 "0.85" 300] g t by (auto simp: gas_def)
  qed
  moreover have "call (calc_boiler_batch_scenario [100000] [1] [1000000] 0.95) = Inr ()"
    by (simp add: calc_boiler_batch_scenario_def calc_boiler_outlet_enthalpy_def aget_def py_index_def fdiv_def Let_def)
  ultimately show ?thesis
    unfolding warm_compression_def Let_def mx_def [symmetric] gas_def [symmetric] by (simp add: tried_def)
qed

section \<open>The reactor at the operating point of the warm-up\<close>

lemma warm_grads:
  assumes "100 \<le> T" "T \<le> 10000" "0 \<le> X" "0 \<le> y" "y \<le> 0.001" "0 < F"
  obtains dx dt where "get_grads_local warm_reactor 1000000 100 y F (X, T) = Inr (dx, dt)" "0 \<le> dx" "- (1 / 100) \<le> dt" "dt \<le> 6500"
proof -
  define r where "r = 1000000 * exp (- 50000 / (8.314 * T)) * (3000000 * max 0 (y * (1 - X)) / (8.314 * T))"
  have T: "8.314 * T \<noteq> 0" "0 < 8.314 * T" using assms(1) by auto
  have rate: "reaction_rate warm_reactor 1000000 y X T = Inr r"
    using fdiv_ok [OF T(1)] by (simp add: reaction_rate_def warm_reactor_def r_def Let_def)
  have r0: "0 \<le> r" using T(2) by (simp add: r_def)
  have r1: "r \<le> 1000000 * (363 / 100)"
  proof -
    have "y * (1 - X) \<le> 0.001" using mult_left_mono [of "1 - X" 1 y] assms(3-5) by simp
    then have "3000000 * max 0 (y * (1 - X)) \<le> 363 / 100 * (8.314 * T)" using assms(1) by simp
    then have "3000000 * max 0 (y * (1 - X)) / (8.314 * T) \<le> 363 / 100" using T(2) by (simp add: divide_le_eq)
    moreover have "exp (- 50000 / (8.314 * T)) \<le> 1" using T(2) by (simp add: divide_nonpos_pos)
    ultimately have "exp (- 50000 / (8.314 * T)) * (3000000 * max 0 (y * (1 - X)) / (8.314 * T)) \<le> 1 * (363 / 100)"
      using T(2) by (intro mult_mono) auto
    then show ?thesis by (simp only: r_def mult.assoc)
  qed
  show ?thesis
  proof (cases "1 \<le> X")
    case True
    then show ?thesis using assms(1,2)
      by (intro that [of 0 "0.01 / 1400000 * (- 100 * (T - 350))"]) (simp_all add: get_grads_local_def warm_reactor_def fdiv_def)
  next
    case False
    have "get_grads_local warm_reactor 1000000 100 y F (X, T)
        = Inr (0.01 / F * r, 0.01 / 1400000 * (250000 * r - 100 * (T - 350)))"
      using False assms(6) by (simp add: get_grads_local_def rate fdiv_ok) (simp add: warm_reactor_def fdiv_ok)
    moreover have "- (1 / 100) \<le> 0.01 / 1400000 * (250000 * r - 100 * (T - 350))"
        "0.01 / 1400000 * (250000 * r - 100 * (T - 350)) \<le> 6500"
      using r0 r1 assms(1,2) by simp_all
    moreover have "0 \<le> 0.01 / F * r" using r0 assms(6) by simp
    ultimately show ?thesis by (intro that)
  qed
qed

lemma warm_rk4:
  assumes "0 \<le> dL" "101 \<le> T" "dL \<le> 1" "T + 6500 * dL \<le> 10000" "0 \<le> X" "0 \<le> y" "y \<le> 0.001" "0 < F"
  obtains X' T' where "rk4_step warm_reactor 1000000 100 y F dL (X, T) = Inr (X', T')"
    "0 \<le> X'" "T - 1 / 100 * dL \<le> T'" "T' \<le> T + 6500 * dL"
proof -
  let ?g = "get_grads_local warm_reactor 1000000 100 y F"
  have b: "X \<le> X + c * dL * dx \<and> T - 1 / 100 * dL \<le> T + c * dL * dt \<and> T + c * dL * dt \<le> T + 6500 * dL"
    if "0 \<le> c" "c \<le> 1" "0 \<le> dx" "- (1 / 100) \<le> dt" "dt \<le> 6500" for c dx dt :: real
  proof -
    have "0 \<le> c * dL" "c * dL \<le> dL" using that assms(1) mult_right_mono [of c 1 dL] by auto
    then have "c * dL * - (1 / 100) \<le> c * dL * dt" "c * dL * dt \<le> c * dL * 6500" "0 \<le> c * dL * dx"
      using that by (intro mult_left_mono mult_nonneg_nonneg; simp)+
    then show ?thesis using \<open>c * dL \<le> dL\<close> by (intro conjI; linarith)
  qed
  have lo: "100 \<le> T - 1 / 100 * dL" using assms(2,3) by linarith
  have stage: "\<exists>dx' dt'. ?g (X + c * dL * dx, T + c * dL * dt) = Inr (dx', dt') \<and> 0 \<le> dx' \<and> - (1 / 100) \<le> dt' \<and> dt' \<le> 6500"
    if "0 \<le> c" "c \<le> 1" "0 \<le> dx" "- (1 / 100) \<le> dt" "dt \<le> 6500" for c dx dt
    by (rule warm_grads [of "T + c * dL * dt" "X + c * dL * dx" y F]) (use b [OF that] lo assms(4-8) in auto)
  obtain x1 t1 where 1: "?g (X, T) = Inr (x1, t1)" "0 \<le> x1" "- (1 / 100) \<le> t1" "t1 \<le> 6500"
    using warm_grads [of T X y F] assms by auto
  obtain x2 t2 where 2: "?g (X + 0.5 * dL * x1, T + 0.5 * dL * t1) = Inr (x2, t2)" "0 \<le> x2" "- (1 / 100) \<le> t2" "t2 \<le> 6500"
    using stage [of "0.5", OF _ _ 1(2-4)] by auto
  obtain x3 t3 where 3: "?g (X + 0.5 * dL * x2, T + 0.5 * dL * t2) = Inr (x3, t3)" "0 \<le> x3" "- (1 / 100) \<le> t3" "t3 \<le> 6500"
    using stage [of "0.5", OF _ _ 2(2-4)] by auto
  obtain x4 t4 where 4: "?g (X + dL * x3, T + dL * t3) = Inr (x4, t4)" "0 \<le> x4" "- (1 / 100) \<le> t4" "t4 \<le> 6500"
    using stage [of 1, OF _ _ 3(2-4)] by auto
  define dx dt where "dx = (x1 + 2 * x2 + 2 * x3 + x4) / 6" and "dt = (t1 + 2 * t2 + 2 * t3 + t4) / 6"
  have "rk4_step warm_reactor 1000000 100 y F dL (X, T) = Inr (X + dL * dx, T + dL * dt)"
    unfolding rk4_step_def prod.case Let_def 1(1) res_bind.simps 2(1) 3(1) 4(1) by (simp add: dx_def dt_def)
  moreover have "0 \<le> dx" "- (1 / 100) \<le> dt" "dt \<le> 6500" using 1 2 3 4 by (simp_all add: dx_def dt_def)
  ultimately show ?thesis using that b [of 1 dx dt] assms(5) by fastforce
qed

lemma adaptive_dL_bounds:
  obtains dL where "adaptive_dL L_total L est = Inr dL" "1 / 10 ^ 6 \<le> dL" "dL \<le> max (L_total - L) (1 / 10 ^ 6)"
proof -
  have "\<exists>d. adaptive_dL L_total L est = Inr (max (min d (L_total - L)) (1 / 10 ^ 6))"
    by (cases est; cases "fst est > 1 / 10 ^ 9"; cases "\<bar>snd est\<bar> > 1 / 10 ^ 9") (auto simp: adaptive_dL_def fdiv_def)
  then obtain d where d: "adaptive_dL L_total L est = Inr (max (min d (L_total - L)) (1 / 10 ^ 6))" ..
  show ?thesis
    by (rule that [OF d max.cobounded2 max.mono [OF min.cobounded2 order_refl]])
qed

definition warm_bed :: "pfr_state \<Rightarrow> bool" where
  "warm_bed s \<longleftrightarrow> 0 \<le> pf_L s \<and> pf_L s \<le> 1.1 \<and> 0 \<le> pf_X s \<and> 400 - 1 / 100 * pf_L s \<le> pf_T s \<and> pf_T s \<le> 400 + 6500 * pf_L s"

lemma warm_bed_step:
  assumes "warm_bed s"
  shows "\<exists>c. pfr_body warm_reactor 1000000 100 0.001 0 1 s = Inr c \<and> ctl_all warm_bed (\<lambda>_. False) c"
proof (cases "1 \<le> pf_L s")
  case True
  then show ?thesis using assms by (simp add: pfr_body_def Let_def)
next
  case False
  let ?F = "rx_molar_flow_total warm_reactor * 0.001"
  have F: "0 < ?F" by (simp add: warm_reactor_def)
  have s: "0 \<le> pf_L s" "pf_L s \<le> 1.1" "0 \<le> pf_X s" "400 - 1 / 100 * pf_L s \<le> pf_T s" "pf_T s \<le> 400 + 6500 * pf_L s"
    using assms by (simp_all add: warm_bed_def)
  have T: "101 \<le> pf_T s" "pf_T s \<le> 10000" using s False by linarith+
  obtain dx dt where g: "get_grads_local warm_reactor 1000000 100 0.001 ?F (pf_X s, pf_T s) = Inr (dx, dt)"
    by (rule warm_grads [of "pf_T s" "pf_X s" "0.001" ?F]) (use T s F in auto)
  obtain dL where dL: "adaptive_dL 1 (pf_L s) (dx, dt) = Inr dL" "1 / 10 ^ 6 \<le> dL" "dL \<le> max (1 - pf_L s) (1 / 10 ^ 6)"
    by (rule adaptive_dL_bounds)
  have d: "0 \<le> dL" "dL \<le> 1" "pf_L s + dL \<le> 1.1" using dL(2,3) s False by auto
  obtain X' T' where r: "rk4_step warm_reactor 1000000 100 0.001 ?F dL (pf_X s, pf_T s) = Inr (X', T')"
      "0 \<le> X'" "pf_T s - 1 / 100 * dL \<le> T'" "T' \<le> pf_T s + 6500 * dL"
    by (rule warm_rk4 [of dL "pf_T s" "pf_X s" "0.001" ?F]) (use T s d F in auto)
  have lo: "400 - 1 / 100 * (pf_L s + dL) \<le> T'" and hi: "T' \<le> 400 + 6500 * (pf_L s + dL)" using r(3,4) s(4,5) by (simp_all add: distrib_left)
  have "(pf_L s \<ge> 1) = False" "((0::real) > 0 \<and> 0.001 * (1 - pf_X s) \<le> 0) = False" using False by auto
  then show ?thesis
    unfolding pfr_body_def Let_def g dL(1) r(1) res_bind.simps prod.case if_False
    using r(2) s d lo hi by (simp add: warm_bed_def)
qed

lemma warm_single_bed: "call (solve_deoxo_pfr_step 1 400 warm_reactor 0.001 1000000 100 0) = Inr ()"
proof -
  let ?s0 = "\<lparr>pf_L = 0, pf_X = 0, pf_T = 400, pf_T_max = 400, pf_hist = [(0, 400, 0)]\<rparr>"
  have "warm_bed ?s0" by (simp add: warm_bed_def)
  then obtain c where "for_range 10000 (\<lambda>_. pfr_body warm_reactor 1000000 100 0.001 0 1) ?s0 = Inr c" "ctl_all warm_bed (\<lambda>_. False) c"
    using for_from_total [of warm_bed "\<lambda>_. pfr_body warm_reactor 1000000 100 0.001 0 1" "\<lambda>_. False" ?s0 0 10000] warm_bed_step by blast
  then show ?thesis
    by (cases c) (auto simp: solve_deoxo_pfr_step_def warm_reactor_def)
qed

definition warm_zone :: "real \<Rightarrow> nat \<Rightarrow> nat \<Rightarrow> real \<times> real \<times> real \<times> real \<times> profile \<Rightarrow> bool" where
  "warm_zone T0 n0 j st \<longleftrightarrow> (case st of (X, T, L, T_max, hist) \<Rightarrow>
     0 \<le> X \<and> X \<le> 1 \<and> T0 - real j / 10000 \<le> T \<and> T \<le> T0 + 65 * real j \<and> length hist = n0 + j)"

lemma warm_zone_step:
  assumes "warm_zone T0 n0 j st" "j < 50" "102 \<le> T0" "T0 \<le> 6000" "0 \<le> y" "y \<le> 0.001" "0 < F" "n0 + 50 \<le> n"
  shows "\<exists>st'. zone_step warm_reactor 1000000 100 y F (1 / 100) n offset X_global st = Inr st' \<and> warm_zone T0 n0 (Suc j) st'"
proof -
  obtain X T L Tm hist where st: "st = (X, T, L, Tm, hist)" by (metis prod_cases5)
  have i: "0 \<le> X" "T0 - real j / 10000 \<le> T" "T \<le> T0 + 65 * real j" "length hist = n0 + j"
    using assms(1) by (simp_all add: warm_zone_def st)
  have j: "real j \<le> 49" using assms(2) by simp
  have T: "101 \<le> T" "T + 6500 * (1 / 100) \<le> 10000" using i(2,3) j assms(3,4) by linarith+
  obtain X' T' where r: "rk4_step warm_reactor 1000000 100 y F (1 / 100) (X, T) = Inr (X', T')"
      "0 \<le> X'" "T - 1 / 100 * (1 / 100) \<le> T'" "T' \<le> T + 6500 * (1 / 100)"
    by (rule warm_rk4 [of "1 / 100" T X y F]) (use T i(1) assms(5-7) in auto)
  have b: "T0 - real (Suc j) / 10000 \<le> T'" "T' \<le> T0 + 65 * real (Suc j)" using r(3,4) i(2,3) by (simp_all add: add_divide_distrib)
  have "length hist < n" using i(4) assms(2,8) by simp
  then show ?thesis
    using b r(2) i(4) unfolding st zone_step_def prod.case r(1) res_bind.simps Let_def
    by (auto simp: append_point_def warm_zone_def)
qed

lemma warm_zone_run:
  assumes "102 \<le> T0" "T0 \<le> 6000" "0 \<le> y" "y \<le> 0.001" "0 < F" "length hist + 50 \<le> n"
  obtains X T L Tm hist' where
    "fold_range 50 (\<lambda>_. zone_step warm_reactor 1000000 100 y F (1 / 100) n offset X_global) (0, T0, 0, Tm0, hist)
      = Inr (X, T, L, Tm, hist')" "0 \<le> X" "X \<le> 1" "T0 - 1 / 100 \<le> T" "T \<le> T0 + 3250" "length hist' = length hist + 50"
proof -
  let ?body = "\<lambda>_ :: nat. zone_step warm_reactor 1000000 100 y F (1 / 100) n offset X_global"
  have "\<exists>st. fold_from 0 50 ?body (0, T0, 0, Tm0, hist) = Inr st \<and> warm_zone T0 (length hist) (0 + 50) st"
  proof (rule fold_from_total_inv)
    fix j st assume "j < 0 + 50" "warm_zone T0 (length hist) j st"
    then show "\<exists>st'. ?body j st = Inr st' \<and> warm_zone T0 (length hist) (Suc j) st'"
      by (intro warm_zone_step) (use assms in auto)
  qed (simp add: warm_zone_def)
  then show ?thesis using that by (auto simp: warm_zone_def)
qed

definition warm_zones :: "nat \<Rightarrow> zone_state \<Rightarrow> bool" where
  "warm_zones z s \<longleftrightarrow> 350 - real z \<le> zs_T s \<and> zs_T s \<le> 400 + 3250 * real z \<and> 0 \<le> zs_y s \<and> zs_y s \<le> 0.001
     \<and> length (zs_hist s) \<le> 51 * z + 1"

lemma mixed_between:
  fixes a :: real
  assumes "0 \<le> e" "e \<le> 1"
  shows "lo \<le> a \<Longrightarrow> lo \<le> T \<Longrightarrow> lo \<le> a + (T - a) * e" and "a \<le> hi \<Longrightarrow> T \<le> hi \<Longrightarrow> a + (T - a) * e \<le> hi"
proof -
  have m: "a + (T - a) * e = (1 - e) * a + e * T" by (simp add: algebra_simps)
  show "lo \<le> a + (T - a) * e" if "lo \<le> a" "lo \<le> T"
    using mult_left_mono [OF that(1), of "1 - e"] mult_left_mono [OF that(2) assms(1)] assms(2) unfolding m by (simp add: algebra_simps)
  show "a + (T - a) * e \<le> hi" if "a \<le> hi" "T \<le> hi"
    using mult_left_mono [OF that(1), of "1 - e"] mult_left_mono [OF that(2) assms(1)] assms(2) unfolding m by (simp add: algebra_simps)
qed

lemma warm_zones_step:
  assumes "warm_zones z s" "z < 2"
  shows "\<exists>s'. zone_body warm_reactor [0.5, 0.5] [1000000, 1000000] [100, 100] 50 103 z s = Inr s' \<and> warm_zones (Suc z) s'"
proof -
  have g: "aget [0.5, 0.5] (int z) = Inr (0.5 :: real)" "aget [1000000, 1000000] (int z) = Inr (1000000 :: real)"
      "aget [100, 100] (int z) = Inr (100 :: real)"
    using assms(2) by (auto simp: aget_def py_index_def less_2_cases_iff)
  have s: "350 - real z \<le> zs_T s" "zs_T s \<le> 400 + 3250 * real z" "0 \<le> zs_y s" "zs_y s \<le> 0.001" "length (zs_hist s) \<le> 51 * z + 1"
    using assms(1) by (simp_all add: warm_zones_def)
  have z: "real z \<le> 1" using assms(2) by simp
  let ?F = "rx_molar_flow_total warm_reactor * zs_y s"
  have dL: "fdiv 0.5 (real 50) = Inr (1 / 100)" by (simp add: fdiv_def)
  show ?thesis
  proof (cases "?F \<le> 1 / 10 ^ 12")
    case True
    define e where "e = exp (- (1 / 2800000 :: real))"
    have e: "0 \<le> e" "e \<le> 1" by (simp_all add: e_def)
    define T where "T = 350 + (zs_T s - 350) * e"
    have "350 - real (Suc z) \<le> T" "T \<le> 400 + 3250 * real (Suc z)"
      unfolding T_def by (rule mixed_between [OF e]; use s(1,2) in simp)+
    then show ?thesis
      using s assms(2) unfolding zone_body_def g res_bind.simps Let_def if_P [OF True]
      by (simp add: warm_reactor_def fdiv_def append_point_def warm_zones_def e_def [symmetric] T_def [symmetric])
  next
    case False
    have n: "length (zs_hist s) + 50 \<le> 103" using s(5) assms(2) by simp
    have F: "0 < ?F" using False by (smt (verit) zero_less_divide_1_iff zero_less_power)
    obtain X T L Tm hist' where r:
      "fold_range 50 (\<lambda>_. zone_step warm_reactor 1000000 100 (zs_y s) ?F (1 / 100) 103 (zs_offset s) (zs_X s))
         (0, zs_T s, 0, zs_T_max s, zs_hist s) = Inr (X, T, L, Tm, hist')"
      "0 \<le> X" "X \<le> 1" "zs_T s - 1 / 100 \<le> T" "T \<le> zs_T s + 3250" "length hist' = length (zs_hist s) + 50"
      by (rule warm_zone_run [OF _ _ s(3,4) F n, of "zs_T s"]) (use s(1,2) z in auto)
    have y: "0 \<le> zs_y s * (1 - X)" "zs_y s * (1 - X) \<le> 0.001"
      using s(3,4) r(2,3) mult_left_le [of "1 - X" "zs_y s"] by auto
    have "\<not> (0.5 :: real) \<le> 1 / 10 ^ 6" by simp
    then show ?thesis
      unfolding zone_body_def g res_bind.simps Let_def dL if_not_P [OF False] r(1) prod.case
      using r(2-6) s y by (simp add: warm_zones_def)
  qed
qed

lemma warm_multizone: "call (solve_deoxo_multizone_jit [0.5, 0.5] [1000000, 1000000] [100, 100] 400 warm_reactor 0.001 50) = Inr ()"
proof -
  let ?body = "zone_body warm_reactor [0.5, 0.5] [1000000, 1000000] [100, 100] 50 103"
  let ?s0 = "\<lparr>zs_offset = 0, zs_T = 400, zs_y = 0.001, zs_T_max = 400, zs_X = 0, zs_hist = [(0, 400, 0)]\<rparr>"
  have "\<exists>s. fold_range 2 ?body ?s0 = Inr s \<and> warm_zones (0 + 2) s"
    by (rule fold_from_total_inv) (use warm_zones_step in \<open>simp_all add: warm_zones_def\<close>)
  then obtain s where s: "fold_range 2 ?body ?s0 = Inr s" by blast
  have "length [0.5, 0.5 :: real] = 2" "2 * (50 + 1) + 1 = (103 :: nat)" by simp_all
  then show ?thesis unfolding solve_deoxo_multizone_jit_def Let_def by (simp only: s res_bind.simps call_Inr)
qed

section \<open>The calls with fixed arguments\<close>

lemmas tank_data = eval_nat_numeral tank_state_defs
lemma warm_compression_work: "call (calculate_compression_work 3000000 6000000 1 300 0.85 1.4 4124) = Inr ()"
  by (simp add: compression_work_value)
lemma warm_heat_loss: "call (apply_heat_loss_batch (replicate 4 300) (replicate 4 100) 293 60 10 10200) = Inr ()"
  by (simp add: tank_data heat_loss_one_def fdiv_def)
lemma warm_dry_cooler_ntu: "call (dry_cooler_ntu_effectiveness 2 0.5) = Inr ()"
proof -
  have "1 + 0.5 * exp (- 2 * (1 + 0.5)) \<noteq> (0::real)"
    by (metis add_pos_pos exp_gt_zero less_irrefl mult_pos_pos zero_less_divide_iff zero_less_numeral zero_less_one)
  then show ?thesis by (simp add: dry_cooler_ntu_effectiveness_def fdiv_ok Let_def)
qed
lemma warm_counter_flow_ntu: "call (counter_flow_ntu_effectiveness 2 0.5) = Inr ()"
proof -
  have "exp (- 1) < (2::real)" using exp_le_one_iff [of "- 1 :: real"] by linarith
  then show ?thesis by (simp add: counter_flow_ntu_effectiveness_def fdiv_def Let_def)
qed
lemma warm_reynolds: "call (calculate_reynolds_flux 1 0.01 0.02 0.000018) = Inr ()"
  by (simp add: calculate_reynolds_flux_def fdiv_def)
lemma warm_dittus_boelter: "call (calculate_nusselt_dittus_boelter 10000 0.7 True) = Inr ()"
  by (simp add: calculate_nusselt_dittus_boelter_def fpow_def)
lemma warm_crossflow: "call (calculate_nusselt_crossflow 10000 0.7) = Inr ()"
  by (simp add: calculate_nusselt_crossflow_def fpow_def)
lemma warm_fouled_u: "call (calculate_dynamic_u_fouled 500 200 0.025 0.03 50 0.0001 0.0002) = Inr ()"
  by (rule u_fouled_value [of 500 200 "0.025" "0.03" 50 "0.0001" "0.0002"]) simp_all
lemma warm_remap: "call (remap_canonical_to_lut mass_fracs_6 0 [0, 1, 2, 3, 4, 5, - 1]) = Inr ()"
  by (simp add: remap_canonical_to_lut_def mass_fracs_6_def aget_def py_index_def)
lemma warm_antoine: "call (antoine_psat_water 400) = Inr ()"
  by (simp add: antoine_psat_water_def fdiv_def fpow_def Let_def)
lemma newton_total:
  assumes "\<And>T. \<exists>c. step T = Inr c"
  shows "\<exists>c. for_range n (\<lambda>_. step) T0 = Inr c"
proof -
  have "\<exists>c. step T = Inr c \<and> ctl_all (\<lambda>_. True) (\<lambda>_. True) c" for T
    using assms [of T] by (metis (full_types) ctl.exhaust ctl_all.simps)
  then show ?thesis
    using for_from_total [of "\<lambda>_. True" "\<lambda>_. step" "\<lambda>_. True"] by blast
qed
lemma warm_cp_table: "cp_table 6 warm_cp_coeffs" "length mole_fracs_6 = 6" "length warm_h_formations = 6"
  by (simp_all add: cp_table_def mole_fracs_6_def warm_cp_coeffs_def warm_h_formations_def)
lemma warm_mixture: "calculate_mixture_enthalpy T mole_fracs_6 warm_h_formations warm_cp_coeffs r
    = Inr (mix_enthalpy mole_fracs_6 warm_h_formations warm_cp_coeffs r T)"
  "calculate_mixture_cp T mole_fracs_6 warm_cp_coeffs = Inr (mix_cp mole_fracs_6 warm_cp_coeffs T)"
  by (rule mixture_enthalpy_value mixture_cp_value; simp add: warm_cp_table)+
lemma warm_uv_flash: "call (solve_uv_flash u V N mole_fracs_6 warm_h_formations warm_cp_coeffs T R tol n) = Inr ()"
proof -
  have "\<exists>c. for_range n (\<lambda>_. uv_newton_step u mole_fracs_6 warm_h_formations warm_cp_coeffs R tol) T = Inr c"
    by (rule newton_total) (simp add: uv_newton_step_def warm_mixture fdiv_def Let_def)
  then show ?thesis by (auto simp: solve_uv_flash_def)
qed
lemma warm_ph_flash: "call (solve_ph_flash_jit h mole_fracs_6 warm_h_formations warm_cp_coeffs T tol n) = Inr ()"
proof -
  have "\<exists>c. for_range n (\<lambda>_. ph_newton_step h mole_fracs_6 warm_h_formations warm_cp_coeffs tol) T = Inr c"
    by (rule newton_total) (auto simp: ph_newton_step_def warm_mixture fdiv_def Let_def)
  then show ?thesis by (auto simp: solve_ph_flash_jit_def)
qed
lemma warm_soec: "call (simulate_soec_step_jit 5 [1, 2] [1, 1] [5, 5] [0, 1] 5 0.01 0.5 0.1 0.5) = Inr ()"
proof -
  have a: "soec_arrays [1, 2] [1, 1] [5, 5] [0, 1 :: int]" by (auto simp: soec_arrays_def)
  have p: "soec_params 5 0.01 0.5 0.1" by (simp add: soec_params_def)
  obtain al where al: "soec_limits 5 (5 - sum_list [1, 2]) 0.5 5 0.01 0.5 (length [1, 2 :: real]) = Inr al" "length al = length [1, 2 :: real]"
    by (rule soec_limits_ok [OF p, of "0.5" "length [1, 2 :: real]" "5 - sum_list [1, 2]" 5]) auto
  have d: "\<not> \<bar>5 - sum_list [1, 2]\<bar> < (0.01 :: real)" by simp
  obtain ps ss ls where "simulate_soec_step_jit 5 [1, 2] [1, 1] [5, 5] [0, 1] 5 0.01 0.5 0.1 0.5 = Inr (ps, ss, ls)"
    by (rule soec_step_moves [OF a d al])
  then show ?thesis
    by (simp only: call_Inr)
qed
lemma warm_spline: "call (eval_cubic_spline 1.5 [0, 1, 2] (replicate 2 (replicate 4 1))) = Inr ()"
  by (simp add: eval_cubic_spline_def aget_def py_index_def searchsorted_def Let_def spline_poly_def aget2_def eval_nat_numeral)
lemma warm_h2_production: "call (calculate_h2_production_dynamic [1, 2] 2 [0, 1, 2] (replicate 2 (replicate 4 1)) [1, 1.01] 1) = Inr ()"
  by (simp add: calculate_h2_production_dynamic_def fdiv_def eval_cubic_spline_def aget_def py_index_def searchsorted_def Let_def spline_poly_def aget2_def eval_nat_numeral)
lemma warm_pem_ok: "pem_ok warm_pem"
  by (simp add: pem_ok_def warm_pem_def)
lemma warm_pem_voltage: "call (calculate_pem_voltage_jit 100 warm_pem) = Inr ()"
  by (simp add: pem_voltage_value warm_pem_ok)
lemma warm_pem_solver: "call (solve_pem_j_jit 1000000 100 5000 0.1 100 warm_pem 50 (1 / 10 ^ 4)) = Inr ()"
proof -
  have "1 / 10 ^ 6 \<le> pp_j_lim warm_pem - 0.01" by (simp add: warm_pem_def)
  then obtain c where "for_range 50 (\<lambda>_. pem_newton_step 1000000 100 5000 0.1 warm_pem (1 / 10 ^ 4)) 100 = Inr c"
    using pem_solver_run [OF warm_pem_ok] by blast
  then show ?thesis by (cases c) (simp_all add: solve_pem_j_jit_def)
qed

lemma warm_cyclone: "call (solve_cyclone_mechanics 0.5 1 1000 0.000018 0.05 0.785 10) = Inr ()"
proof -
  define A where "A = pi / 4 * ((0.05 :: real) ^ 2 - (0.3 * 0.05) ^ 2)"
  define v where "v = 0.5 / (real_of_int 10 * A)"
  have A: "0 < A" by (simp add: A_def power2_eq_square)
  have "A < 1" using pi_less_4 by (simp add: A_def power2_eq_square)
  then have v: "1 / 10 ^ 9 < v" using A by (simp add: v_def field_simps)
  have t: "0 < tan (0.785 :: real)" by (rule tan_gt_zero) (use pi_ge_two in simp_all)
  show ?thesis by (subst cyclone_value [OF _ _ _ _ v t _ v_def A_def]) simp_all
qed

lemma warm_composition:
  assumes "length ws \<le> 7" "\<forall>w\<in>set ws. 0 \<le> w" "0.1 \<in> set ws"
  shows "call (fast_composition_properties ws) = Inr ()"
proof -
  have "\<exists>w\<in>set ws. 1 / 10 ^ 12 \<le> w" by (rule bexI [OF _ assms(3)]) simp
  then have "1 / 10 ^ 15 < (\<Sum>i < length ws. moles ws i)" using total_moles_large(1) assms(1,2) by blast
  then show ?thesis by (simp only: composition_value [OF assms(1)] call_Inr)
qed

lemma warm_interchanger:
  assumes ok: "warm_ok w" and len: "length ms = length (wa_H w)"
  shows "call (solve_interchanger_flash_jit \<lparr>ic_z_h2o_mole = 0.05, ic_M_mix_feed = 0.01, ic_P_system = 3000000,
          ic_lut_mass_fracs = ms, ic_stacked_H = wa_H w, ic_P_grid = wa_P_grid w, ic_T_grid = wa_T_grid w\<rparr> h T 5 tol) = Inr ()"
    (is "call (solve_interchanger_flash_jit ?ic h T 5 tol) = _")
proof -
  have "interchanger_ok ?ic" using ok len warm_okD(2) [OF ok insertI1] by (simp add: interchanger_ok_def warm_ok_def)
  from interchanger_flash_answer [OF this _ refl, of 5 h T tol] show ?thesis by auto
qed

lemma dry_cooler_total:
  assumes "tubes_ok cs td" "0 \<le> cz_tqc_u cz" "0 \<le> cz_tqc_area cz" "0 \<le> cz_dc_u cz" "0 \<le> cz_dc_area cz"
    and "1 / 10 ^ 9 < min (cs_m_dot_gas cs * cs_cp_gas cs) (cs_glycol_flow_kg_s cs * cs_glycol_cp cs)"
    and "1 / 10 ^ 9 < min (cs_glycol_flow_kg_s cs * cs_glycol_cp cs) (cs_dc_air_flow_kg_s cs * cs_cp_air cs)"
  shows "\<exists>r. solve_dry_cooler_thermal_jit cs cz td = Inr r"
proof -
  have out: "\<exists>T'. stream_out T Q C = Inr T'" for T Q C
    by (cases "C > 1 / 10 ^ 9") (simp_all add: stream_out_def fdiv_def)
  obtain u where u: "dynamic_u cs cz td = Inr u" "0 \<le> u" using dynamic_u_value [OF assms(1,2)] by blast
  let ?Ch = "cs_m_dot_gas cs * cs_cp_gas cs" and ?Cc = "cs_glycol_flow_kg_s cs * cs_glycol_cp cs"
  obtain e Q where a: "counter_flow_stage (u * cz_tqc_area cz) ?Ch ?Cc (cs_T_gas_in_k cs - cs_T_glycol_in_k cs) = Inr (e, Q)"
    using counter_flow_stage_value [OF assms(6) mult_nonneg_nonneg [OF u(2) assms(3)]] by blast
  obtain Tg where Tg: "stream_out (cs_T_gas_in_k cs) (- Q) ?Ch = Inr Tg" using out by blast
  obtain Th where Th: "stream_out (cs_T_glycol_in_k cs) Q ?Cc = Inr Th" using out by blast
  obtain e2 Q2 where b: "cross_flow_stage (cz_dc_u cz * cz_dc_area cz) ?Cc (cs_dc_air_flow_kg_s cs * cs_cp_air cs) (Th - cs_T_air_in_k cs)
      = Inr (e2, Q2)"
    using cross_flow_stage_value [OF assms(7) mult_nonneg_nonneg [OF assms(4,5)]] by blast
  obtain Tc where Tc: "stream_out Th (- Q2) ?Cc = Inr Tc" using out by blast
  show ?thesis
    unfolding solve_dry_cooler_thermal_jit_def u(1) Let_def a Tg Th b Tc res_bind.simps prod.case by simp
qed

lemma warm_thermodynamics_returns:
  assumes "call (fast_composition_properties ms) = Inr ()"
  shows "\<forall>r\<in>set (warm_thermodynamics ms). r = Inr ()"
proof -
  have "call (calculate_stream_enthalpy_jit 400 mass_fracs_6 0) = Inr ()"
    using stream_enthalpy_value [of mass_fracs_6 400 0] by (simp add: mass_fracs_6_def)
  moreover have "call (solve_water_T_from_H_jit 500000 3000000 400) = Inr ()"
    using water_T_from_H_closed_form by (metis call_returns)
  moreover have "call (calculate_dissolved_gas_mg_kg_jit 400 100000 1282 500 0.002016) = Inr ()"
    by (simp add: calculate_dissolved_gas_mg_kg_jit_def fdiv_def Let_def)
  moreover have "call (calculate_water_psat_jit 400) = Inr ()"
    by (simp add: calculate_water_psat_jit_def fdiv_def fpow_def Let_def)
  moreover have "call (solve_rachford_rice_single_condensable 0.05 0.5) = Inr ()"
    by (simp add: solve_rachford_rice_single_condensable_def)
  moreover have "call (calc_boiler_outlet_enthalpy 100000 1 1000000 0.95) = Inr ()"
    by (simp add: calc_boiler_outlet_enthalpy_def fdiv_def Let_def)
  ultimately show ?thesis
    using assms by (simp add: warm_thermodynamics_def warm_mixture)
qed

lemma warm_tanks_return: "\<forall>r\<in>set warm_tanks. r = Inr ()"
proof -
  have "call (find_available_tank (replicate 4 0) (replicate 4 100) (replicate 4 1000) 0) = Inr ()"
    "call (find_fullest_tank (replicate 4 0) (replicate 4 100) 0) = Inr ()"
    "call (batch_pressure_update (replicate 4 100) (replicate 4 50) (replicate 4 3000000) 400 4124) = Inr ()"
    "call (calculate_total_mass_by_state (replicate 4 0) (replicate 4 100) 0) = Inr ()"
    "call (batch_pressure_update_vector_T (replicate 4 100) (replicate 4 50) (replicate 4 3000000) (replicate 4 300) 4124) = Inr ()"
    by (simp_all add: find_available_tank_def find_fullest_tank_def tank_data fdiv_def)
  moreover have "call (distribute_mass_to_tanks 10 (replicate 4 0) (replicate 4 100) (replicate 4 1000)) = Inr ()"
    "call (simulate_filling_timestep 1 60 (replicate 4 0) (replicate 4 100) (replicate 4 1000)) = Inr ()"
    using distribute_total [of "replicate 4 0" "replicate 4 100" "replicate 4 1000"]
    by (simp_all add: call_returns simulate_filling_timestep_def)
  moreover have "call (distribute_mass_and_energy 10 300 (replicate 4 0) (replicate 4 100) (replicate 4 300) (replicate 4 1000) 1.4) = Inr ()"
    using energy_total [of "replicate 4 0" "replicate 4 100" "replicate 4 1000" "replicate 4 300" 10 300 "1.4"] by (simp add: call_returns)
  moreover have "call (calculate_storage_mpc_factor 0.5 1000 (replicate 24 1) (replicate 24 0.5) 1 0.95 24) = Inr ()"
  proof -
    obtain st where "mpc_rollout 0.5 1000 (replicate 24 1) (replicate 24 0.5) 1 0.95 24 = Inr st"
      using mpc_rollout_total [of 1000] by force
    moreover have "\<exists>f. mpc_factor st = Inr f" by (rule mpc_factor_cases [of st]) blast+
    ultimately show ?thesis by (auto simp: calculate_storage_mpc_factor_def)
  qed
  ultimately show ?thesis by (simp only: warm_tanks_def Let_def list.set ball_simps warm_compression_work warm_heat_loss simp_thms)
qed

lemma warm_electrolysis_returns: "\<forall>r\<in>set warm_electrolysis. r = Inr ()"
  by (simp only: warm_electrolysis_def Let_def list.set ball_simps warm_soec warm_spline warm_h2_production warm_pem_voltage warm_pem_solver simp_thms)

lemma warm_heat_and_reaction_returns: "\<forall>r\<in>set warm_heat_and_reaction. r = Inr ()"
  by (simp only: warm_heat_and_reaction_def list.set ball_simps warm_dry_cooler_ntu warm_counter_flow_ntu warm_reynolds warm_dittus_boelter warm_crossflow warm_fouled_u warm_cyclone warm_single_bed warm_multizone simp_thms)

lemma warm_flash_returns:
  assumes "warm_ok w" "length ms = length (wa_H w)"
  shows "\<forall>r\<in>set (warm_flash w ms). r = Inr ()"
proof -
  have "call (solve_dry_cooler_thermal_jit
        \<lparr>cs_m_dot_gas = 1, cs_cp_gas = 14300, cs_T_gas_in_k = 400, cs_glycol_flow_kg_s = 2, cs_glycol_cp = 3500,
          cs_T_glycol_in_k = 310, cs_T_air_in_k = 298, cs_dc_air_flow_kg_s = 5, cs_cp_air = 1005\<rparr>
        \<lparr>cz_tqc_u = 500, cz_tqc_area = 10, cz_dc_u = 30, cz_dc_area = 20, cz_use_dc = True\<rparr>
        \<lparr>td_flow_area_gas = 0.01, td_flow_area_glycol = 0.015, td_d_tube_in = 0.02, td_d_tube_out = 0.025,
          td_mu_gas = 0.000009, td_k_gas = 0.18, td_pr_gas = 0.7, td_mu_glycol = 0.003, td_k_glycol = 0.4, td_pr_glycol = 20,
          td_k_tube_wall = 50, td_r_foul_glycol = 0.0002, td_use_dynamic_u = True\<rparr>) = Inr ()"
    unfolding call_returns by (rule dry_cooler_total) (simp_all add: tubes_ok_def)
  then show ?thesis
    by (simp only: warm_flash_def list.set ball_simps warm_remap warm_antoine warm_uv_flash warm_ph_flash warm_interchanger [OF assms] simp_thms)
qed

section \<open>Both warm-ups complete\<close>

lemma warmup_jit_completes:
  assumes "0 < threads"
  shows "warmup_jit threads"
proof -
  have c: "cell_conditions 353.15 1 1 2.5" by (simp add: cell_conditions_def)
  have "call (calculate_pemfc_voltage 1 353.15 1 1 0.1 1 1 14 2.5) = Inr ()"
    using voltage_value_any_temperature [of "353.15" 1 1 "2.5" 1 "0.1" 1 1 14] by simp
  moreover have "call (newton_raphson_solver 0.5 353.15 1 1 0.1 1 1 14 2.5) = Inr ()"
  proof -
    have s: "\<exists>c. newton_step 0.5 353.15 1 1 0.1 1 1 14 2.5 i j = Inr c
        \<and> ctl_all (\<lambda>j. 1 / 10 ^ 10 \<le> j \<and> j \<le> 0.999 * 2.5) (\<lambda>_. True) c" if "1 / 10 ^ 10 \<le> j \<and> j \<le> 0.999 * 2.5" for i j
    proof -
      have "2 / 10 ^ 10 \<le> (2.5 :: real)" by simp
      from newton_step_total [OF c this that [THEN conjunct1] that [THEN conjunct2]] obtain c where
        n: "newton_step 0.5 353.15 1 1 0.1 1 1 14 2.5 i j = Inr c" "ctl_all (\<lambda>j. 1 / 10 ^ 10 \<le> j \<and> j \<le> 0.999 * 2.5) (\<lambda>(j, ok). 1 / 10 ^ 10 \<le> j \<and> j \<le> 0.999 * 2.5
           \<and> (ok \<longrightarrow> \<bar>stack_val 353.15 1 1 0.1 1 1 14 2.5 j - 0.5\<bar> < 1 / 10 ^ 4)) c" by blast
      show ?thesis by (rule exI [of _ c], rule conjI [OF n(1)]) (use n(2) in \<open>cases c; simp only: ctl_all.simps\<close>)
    qed
    have "\<exists>c. for_range 50 (newton_step 0.5 353.15 1 1 0.1 1 1 14 2.5) (0.5 * 2.5) = Inr c
        \<and> ctl_all (\<lambda>j. 1 / 10 ^ 10 \<le> j \<and> j \<le> 0.999 * 2.5) (\<lambda>_. True) c"
      by (rule for_from_total [OF s]) simp_all
    then obtain c where "for_range 50 (newton_step 0.5 353.15 1 1 0.1 1 1 14 2.5) (0.5 * 2.5) = Inr c" by blast
    then show ?thesis by (cases c) (simp_all add: newton_raphson_solver_def orr_j0_val)
  qed
  moreover have "call (batch_polarization_sweep [0.1, 0.5, 1] 353.15 1 1 0.1 1 threads 1 14 2.5) = Inr ()"
    using batch_sweep_value [OF c, of "nat threads" "[0.1, 0.5, 1]" "0.1" 1 1 14] assms by simp
  ultimately show ?thesis by (simp add: warmup_jit_def in_order_def)
qed

lemma warm_fracs_value:
  assumes "6 \<le> n" "n \<le> 7"
  obtains ws where "warm_fracs n a b = Inr ws" "length ws = n" "set ws \<subseteq> {0, a, b}" "b \<in> set ws"
proof -
  have "n = 6 \<or> n = 7" using assms by auto
  then show ?thesis using that by (auto simp: warm_fracs_def aset_def py_index_def eval_nat_numeral)
qed

lemma warm_calls_return:
  assumes arrays: "warm_arrays_of mgr = Inr w" and ok: "warm_ok w"
  shows "warmup_jit_kernels mgr = Inr ()"
proof -
  have n: "6 \<le> length (wa_H w)" "length (wa_H w) \<le> 7" using ok by (simp_all add: warm_ok_def)
  obtain ms where ms: "warm_fracs (length (wa_H w)) 0.9 0.1 = Inr ms" "length ms = length (wa_H w)" "set ms \<subseteq> {0, 0.9, 0.1}" "0.1 \<in> set ms"
    by (rule warm_fracs_value [OF n])
  obtain ys where ys: "warm_fracs (length (wa_H w)) 0.95 0.05 = Inr ys"
    by (rule warm_fracs_value [OF n])
  have len: "length (wa_S w) = length (wa_H w)" "length (wa_C w) = length (wa_H w)"
    using warm_okD(1) [OF ok, of "wa_S w"] warm_okD(1) [OF ok, of "wa_C w"] by simp_all
  have g: "aget (wa_H w) 0 = Inr (wa_H w ! 0)" "aget (wa_C w) 0 = Inr (wa_C w ! 0)" "aget (wa_S w) 0 = Inr (wa_S w ! 0)"
    by (subst aget_nonneg; use n(1) len in auto)+
  have f: "call (fast_composition_properties ms) = Inr ()"
    by (rule warm_composition) (use ms n(2) in \<open>auto simp: subset_iff\<close>)
  have "in_order (warm_thermodynamics ms @ warm_tanks @ warm_lookups w (wa_H w ! 0) ms ys
       @ warm_compression w (wa_H w ! 0) (wa_S w ! 0) (wa_C w ! 0) ms @ warm_electrolysis @ warm_heat_and_reaction
       @ warm_flash w ms) = Inr ()"
    unfolding in_order_returns set_append ball_Un
    using warm_thermodynamics_returns [OF f] warm_tanks_return warm_lookups_return [OF ok ms(2)] warm_compression_returns [OF ok ms(2)]
      warm_electrolysis_returns warm_heat_and_reaction_returns warm_flash_returns [OF ok ms(2)] by (intro conjI)
  then show ?thesis unfolding warmup_jit_kernels_def arrays res_bind.simps g ms(1) ys .
qed

lemma synthetic_arrays_return: "warmup_jit_kernels None = Inr ()"
proof (rule warm_calls_return)
  show "warm_arrays_of None = Inr \<lparr>wa_P_grid = linspace 100000 100000000 10, wa_T_grid = linspace 273.15 1200 10,
            wa_H = replicate 7 (ones 10 10), wa_S = replicate 7 (ones 10 10), wa_C = replicate 7 (ones 10 10), wa_D = replicate 7 (ones 10 10)\<rparr>"
    by (simp only: warm_arrays_of_def option.case Let_def)
  show "warm_ok \<lparr>wa_P_grid = linspace 100000 100000000 10, wa_T_grid = linspace 273.15 1200 10,
            wa_H = replicate 7 (ones 10 10), wa_S = replicate 7 (ones 10 10), wa_C = replicate 7 (ones 10 10), wa_D = replicate 7 (ones 10 10)\<rparr>"
    by (simp add: warm_ok_def sorted_grid_linspace ones_def linspace_length)
qed

text \<open>
  The warm-up on the tables of a manager with fewer than six fluids, such as the one of the factory, whose only fluid is
  hydrogen, always fails: the fraction of the sixth fluid is written outside the array.
\<close>

lemma warm_fracs_outside: "n < 6 \<Longrightarrow> warm_fracs n a b = Inl IndexError"
  by (cases n) (auto simp: warm_fracs_def aset_def py_index_def)

lemma warmup_fails_on_few_fluids:
  assumes "lm_stacked m = Some sc" "length (sc_H sc) < 6"
  shows "warmup_jit_kernels (Some m) = Inl IndexError"
  using assms by (cases "sc_H sc"; cases "sc_C sc"; cases "sc_S sc")
    (simp_all add: warmup_jit_kernels_def warm_arrays_of_def aget_def py_index_def warm_fracs_outside)

text \<open>The tables that a manager has loaded.\<close>

definition loaded_tables :: "lut_manager \<Rightarrow> stacked_cache \<Rightarrow> bool" where
  "loaded_tables m sc \<longleftrightarrow> lm_stacked m = Some sc \<and> sorted_grid (lm_pressure_grid m) \<and> sorted_grid (lm_temperature_grid m)
     \<and> length (sc_H sc) \<le> 7 \<and> (\<forall>luts\<in>{sc_H sc, sc_S sc, sc_C sc, sc_D sc}. length luts = length (sc_H sc)
          \<and> (\<forall>tab\<in>set luts. table_for (lm_pressure_grid m) (lm_temperature_grid m) tab))"

text \<open>
  Every call of the warm-ups returns: the servicer's for every positive number of threads, the kernels' on the synthetic
  tables, and on the complete tables of a manager exactly when it has at least six fluids.
\<close>

theorem kernel_warmup_needs_six_fluids:
  assumes "loaded_tables m sc" and "0 < threads"
  shows "warmup_jit_kernels None = Inr () \<and> warmup_jit threads
    \<and> warmup_jit_kernels (Some m) = (if length (sc_H sc) < 6 then Inl IndexError else Inr ())"
proof (cases "length (sc_H sc) < 6")
  case True
  then show ?thesis
    using warmup_fails_on_few_fluids assms synthetic_arrays_return warmup_jit_completes by (simp add: loaded_tables_def)
next
  case False
  have "warmup_jit_kernels (Some m) = Inr ()"
  proof (rule warm_calls_return)
    let ?w = "\<lparr>wa_P_grid = lm_pressure_grid m, wa_T_grid = lm_temperature_grid m,
            wa_H = sc_H sc, wa_S = sc_S sc, wa_C = sc_C sc, wa_D = sc_D sc\<rparr>"
    show "warm_arrays_of (Some m) = Inr ?w" using assms(1) by (simp add: warm_arrays_of_def loaded_tables_def)
    show "warm_ok ?w" using assms(1) False by (simp add: warm_ok_def loaded_tables_def)
  qed
  then show ?thesis using False synthetic_arrays_return warmup_jit_completes [OF assms(2)] by simp
qed

end
