(* ===== verification/Scripts.thy ===== *)
theory Scripts
  imports Calibration JcmAssembly Experiment
begin

text \<open>
  Two scripts: the Monte Carlo calibration of the four stations, whose rates of defects the noise bounds, and the check that the
  copies of the protocol definition agree.
\<close>

section \<open>The Monte Carlo calibration\<close>

text \<open>
  \<open>run_calibration\<close> of \<open>scripts/calibrate_stamping_clamping.py\<close> as a function of its noise: the relative deviation of the
  stamping force of each run, and those of the four torques and eight friction coefficients of each run of the clamping. The
  script draws 10,000 of each from normal distributions of 5 and 0.5 percent; it ends at a failed assertion or with its report.
\<close>

record calibration_report =
  cr_alpha :: real
  cr_ecsa :: real
  cr_rate_s3 :: real
  cr_mean_d_ncl :: real
  cr_rate_s4 :: real
  cr_mean_p_clamp :: real

datatype calibration = AssertionError string | Raises py_error | Report calibration_report

definition stamping_runs :: "real list \<Rightarrow> stage3_result list res" where
  "stamping_runs noise =
     map_res (\<lambda>z. simulate_stage1_stamping_safe (F_NOM_S3 * (1 + z)) 0 0.05 False K_TIME_ACCELERATED) noise"

definition clamping_runs :: "(real list \<times> real list) list \<Rightarrow> stage4_result list res" where
  "clamping_runs noise =
     (let torque_nom_nm = 46 in
      map_res (\<lambda>(zt, zf). simulate_stage2_clamping_safe (map (\<lambda>z. torque_nom_nm * (1 + z)) zt) (map (\<lambda>z. 0.12 * (1 + z)) zf)
        True K_TIME_ACCELERATED) noise)"

definition defect_share :: "('a \<Rightarrow> bool) \<Rightarrow> 'a list \<Rightarrow> real" where
  "defect_share is_def runs = real (length (filter is_def runs)) / real (length runs)"

definition monte_carlo :: "real \<Rightarrow> real \<Rightarrow> real list \<Rightarrow> (real list \<times> real list) list \<Rightarrow> calibration_report res" where
  "monte_carlo alpha_1 ecsa_2 noise_s3 noise_s4 =
     res_bind (stamping_runs noise_s3) (\<lambda>runs3. res_bind (clamping_runs noise_s4) (\<lambda>runs4.
     Inr \<lparr>cr_alpha = alpha_1, cr_ecsa = ecsa_2, cr_rate_s3 = defect_share s3_is_defective runs3,
       cr_mean_d_ncl = mean (map s3_damage_index runs3), cr_rate_s4 = defect_share s4_is_defective runs4,
       cr_mean_p_clamp = mean (map s4_p_clamp_mpa runs4)\<rparr>))"

definition run_calibration :: "real list \<Rightarrow> (real list \<times> real list) list \<Rightarrow> calibration" where
  "run_calibration noise_s3 noise_s4 =
     (case simulate_stage1_mea_prep_safe 433.15 300 K_TIME_ACCELERATED of
        Inl e \<Rightarrow> Raises e
      | Inr r1 \<Rightarrow>
          if \<not> (0.85 \<le> s1_alpha_final r1 \<and> s1_alpha_final r1 \<le> 0.98)
          then AssertionError ''Station 1 nominal cure out of target range!''
          else (case simulate_stage2_catalyst_deposition_safe 0.15 0.05 K_TIME_ACCELERATED of
             Inl e \<Rightarrow> Raises e
           | Inr r2 \<Rightarrow>
               if \<not> s2_ecsa_ratio r2 \<ge> 0.95 then AssertionError ''Station 2 nominal ECSA ratio too low!''
               else (case monte_carlo (s1_alpha_final r1) (s2_ecsa_ratio r2) noise_s3 noise_s4 of
                 Inl e \<Rightarrow> Raises e
               | Inr rep \<Rightarrow> Report rep)))"

section \<open>How rare defects are\<close>

text \<open>Noise of at most two percent, and noise that turns no torque negative.\<close>

definition calm :: "real list \<times> real list \<Rightarrow> bool" where
  "calm z = (case z of (zt, zf) \<Rightarrow> list_all (\<lambda>d. \<bar>d\<bar> \<le> 0.02) zt \<and> list_all (\<lambda>d. \<bar>d\<bar> \<le> 0.02) zf)"

definition bolt_noise :: "real list \<times> real list \<Rightarrow> bool" where
  "bolt_noise z \<longleftrightarrow> (case z of (zt, zf) \<Rightarrow> length zt = 4 \<and> length zf = 8 \<and> list_all (\<lambda>d. - 1 \<le> d) zt)"

lemma bolt_force_calm:
  assumes "length zt = 4" "length zf = 8" "\<forall>d\<in>set zt. \<bar>d\<bar> \<le> 0.02" "\<forall>d\<in>set zf. \<bar>d\<bar> \<le> 0.02" "i < 4"
  shows "\<exists>f. bolt_force (map (\<lambda>z. 46 * (1 + z)) zt) (map (\<lambda>z. 0.12 * (1 + z)) zf) i = Inr f \<and> 31000 \<le> f \<and> f \<le> 37700"
proof -
  define a b t where "a = 0.12 * (1 + zf ! i)" and "b = 0.12 * (1 + zf ! (i + 4))" and "t = 46 * (1 + zt ! i)"
  have m: "zf ! i \<in> set zf" "zf ! (i + 4) \<in> set zf" "zt ! i \<in> set zt" using assms(1,2,5) by auto
  have "- (2 / 100) \<le> zf ! i" "zf ! i \<le> 2 / 100" "- (2 / 100) \<le> zf ! (i + 4)" "zf ! (i + 4) \<le> 2 / 100"
      "- (2 / 100) \<le> zt ! i" "zt ! i \<le> 2 / 100"
    using m assms(3,4) by (fastforce simp: abs_le_iff)+
  then have r: "0.1176 \<le> a" "a \<le> 0.1224" "0.1176 \<le> b" "b \<le> 0.1224" "4508 / 100 \<le> t" "t \<le> 4692 / 100"
    by (simp_all add: a_def b_def t_def)
  define T where "T = P_BOLT / (2 * pi)"
  define Q where "Q = a * D2_THREAD / (2 * cos BETA_RAD)"
  define d where "d = T + Q + b * R_BEARING"
  have c: "cos BETA_RAD = sqrt 3 / 2"
    using cos_30 by (simp add: BETA_RAD_def)
  have T: "P_BOLT / 8 \<le> T" "T \<le> P_BOLT / 4"
    using pi_ge_two pi_less_4 by (auto simp: T_def P_BOLT_def intro!: divide_left_mono)
  have s: "1.732 \<le> sqrt 3" "sqrt 3 \<le> 1.7321"
    using real_le_rsqrt [of "1.732" 3] real_le_lsqrt [of "1.7321" 3] by (simp_all add: power2_eq_square)
  have "0.1176 * D2_THREAD / 1.7321 \<le> a * D2_THREAD / sqrt 3" "a * D2_THREAD / sqrt 3 \<le> 0.1224 * D2_THREAD / 1.732"
    using r s by (intro frac_le mult_right_mono; simp add: D2_THREAD_def)+
  then have Q: "0.1176 * D2_THREAD / 1.7321 \<le> Q" "Q \<le> 0.1224 * D2_THREAD / 1.732"
    by (simp_all add: Q_def c)
  have d: "12465 / 10000000 \<le> d" "d \<le> 14505 / 10000000" "0 < d"
    using T Q r(3,4) by (simp_all add: d_def P_BOLT_def D2_THREAD_def R_BEARING_def)
  have "31000 * d \<le> t" "t \<le> 37700 * d" using d(1,2) r(5,6) by linarith+
  then have "31000 \<le> t / d \<and> t / d \<le> 37700"
    using d by (simp add: pos_le_divide_eq pos_divide_le_eq)
  moreover have "bolt_force (map (\<lambda>z. 46 * (1 + z)) zt) (map (\<lambda>z. 0.12 * (1 + z)) zf) i = fdiv t d"
    using r(1,3) assms(1,2,5) by (simp add: bolt_force_def aget_nat Let_def T_def Q_def d_def a_def b_def t_def del: of_nat_add)
  ultimately show ?thesis
    using d(3) by (intro exI [of _ "t / d"]) (simp add: fdiv_ok)
qed

lemma spread_about_mean:
  fixes a b c d m :: real
  defines "mu \<equiv> (a + b + c + d) / 4"
  shows "(a - mu) ^ 2 + (b - mu) ^ 2 + (c - mu) ^ 2 + (d - mu) ^ 2 \<le> (a - m) ^ 2 + (b - m) ^ 2 + (c - m) ^ 2 + (d - m) ^ 2"
proof -
  have "(a - m) ^ 2 + (b - m) ^ 2 + (c - m) ^ 2 + (d - m) ^ 2
      = (a - mu) ^ 2 + (b - mu) ^ 2 + (c - mu) ^ 2 + (d - mu) ^ 2 + 4 * (mu - m) ^ 2"
    by (simp add: mu_def power2_eq_square field_simps)
  then show ?thesis by simp
qed

lemma torque_std_calm:
  assumes "length zt = 4" "\<forall>d\<in>set zt. \<bar>d\<bar> \<le> 0.02"
  shows "\<exists>q. torque_std (map (\<lambda>z. 46 * (1 + z)) zt) = Inr q \<and> q \<le> 1.2"
proof -
  obtain a0 a1 a2 a3 where a: "zt = [a0, a1, a2, a3]"
    using assms(1) by (auto simp: numeral_eq_Suc length_Suc_conv)
  let ?mu = "(46 * (1 + a0) + 46 * (1 + a1) + 46 * (1 + a2) + 46 * (1 + a3)) / 4"
  let ?S = "(46 * (1 + a0) - ?mu) ^ 2 + (46 * (1 + a1) - ?mu) ^ 2 + (46 * (1 + a2) - ?mu) ^ 2 + (46 * (1 + a3) - ?mu) ^ 2"
  have sq: "(46 * (1 + x) - 46) ^ 2 \<le> 0.92 ^ 2" if "x \<in> set zt" for x :: real
    using assms(2) that by (intro power2_le_iff_abs_le [THEN iffD2]) (auto simp: abs_le_iff)
  have "?S \<le> 4 * 0.92 ^ 2"
    using spread_about_mean [of "46 * (1 + a0)" "46 * (1 + a1)" "46 * (1 + a2)" "46 * (1 + a3)" 46]
      sq [of a0] sq [of a1] sq [of a2] sq [of a3] by (simp add: a)
  then have "?S / 3 \<le> 1.2 ^ 2" by (simp add: power2_eq_square)
  then have s: "sqrt (?S / 3) \<le> 1.2" by (intro real_le_lsqrt) simp_all
  have t: "torque_std (map (\<lambda>z. 46 * (1 + z)) zt) = Inr (sqrt (?S / 3))"
    by (simp add: torque_std_def aget_def py_index_def np_sqrt_def Let_def a numeral_eq_Suc add.assoc)
  show ?thesis using s t by blast
qed

lemma clamping_calm:
  assumes "length zt = 4" "length zf = 8" "calm (zt, zf)"
  shows "\<exists>r. simulate_stage2_clamping_safe (map (\<lambda>z. 46 * (1 + z)) zt) (map (\<lambda>z. 0.12 * (1 + z)) zf) True k_time = Inr r
    \<and> \<not> s4_is_defective r \<and> 4.5 \<le> s4_p_clamp_mpa r \<and> s4_p_clamp_mpa r \<le> 5.5"
proof -
  let ?ts = "map (\<lambda>z. 46 * (1 + z)) zt" and ?fs = "map (\<lambda>z. 0.12 * (1 + z)) zf"
  have z: "\<forall>d\<in>set zt. \<bar>d\<bar> \<le> 0.02" "\<forall>d\<in>set zf. \<bar>d\<bar> \<le> 0.02" using assms(3) by (simp_all add: calm_def list_all_iff)
  have "\<forall>i<4. \<exists>f. bolt_force ?ts ?fs i = Inr f \<and> 31000 \<le> f \<and> f \<le> 37700"
    using bolt_force_calm [OF assms(1,2) z] by blast
  then obtain f where f: "\<And>i. i < 4 \<Longrightarrow> bolt_force ?ts ?fs i = Inr (f i) \<and> 31000 \<le> f i \<and> f i \<le> 37700" by metis
  note b = f [of 0] f [of 1] f [of 2] f [of 3]
  define P where "P = 0.82 * (f 0 + f 1 + f 2 + f 3) / 0.0225 / 10 ^ 6"
  have m: "map_res (bolt_force ?ts ?fs) [0, 1, 2, 3] = Inr [f 0, f 1, f 2, f 3]"
    using b by (simp only: map_res.simps res_bind.simps)
  have p: "max 0 (f 0 - 0.18 * f 3) = f 0 - 0.18 * f 3" "max 0 (f 1 - 0.18 * f 0) = f 1 - 0.18 * f 0"
      "max 0 (f 2 - 0.18 * f 1) = f 2 - 0.18 * f 1" "max 0 (f 3 - 0.18 * f 2) = f 3 - 0.18 * f 2"
    using b by simp_all
  have c: "clamp_pressure ?ts ?fs = Inr P"
    unfolding clamp_pressure_def m res_bind.simps Let_def ELASTIC_COUPLING_COEF_def A_STACK_def
    using p by (simp add: P_def)
  have P: "4.5 \<le> P" "P \<le> 5.5" using b by (simp_all add: P_def)
  then have "0 \<le> P" by simp
  then obtain e where e: "compressed_porosity P = Inr e" using compressed_porosity_total by blast
  obtain q where t: "torque_std ?ts = Inr q" and q: "q \<le> 1.2" using torque_std_calm [OF assms(1) z(1)] by blast
  have nn: "\<not> list_ex (\<lambda>t. t < 0) ?ts" using z(1) by (fastforce simp: abs_le_iff list_ex_iff)
  have len: "length ?ts = 4" "length ?fs = 8" by (simp_all only: length_map assms(1,2))
  have eq: "simulate_stage2_clamping_safe ?ts ?fs True k_time = simulate_stage2_clamping ?ts ?fs True k_time"
    by (simp only: simulate_stage2_clamping_safe_def len nn simp_thms if_False)
  show ?thesis
    unfolding eq simulate_stage2_clamping_def c e t res_bind.simps Let_def using q P by auto
qed

lemma map_res_count:
  assumes "\<And>x. x \<in> set xs \<Longrightarrow> \<exists>y. f x = Inr y \<and> (bad y \<longrightarrow> P x)"
  shows "\<exists>ys. map_res f xs = Inr ys \<and> length (filter bad ys) \<le> length (filter P xs)"
  using assms
proof (induction xs)
  case (Cons x xs)
  obtain ys where ys: "map_res f xs = Inr ys" "length (filter bad ys) \<le> length (filter P xs)"
    using Cons.IH Cons.prems by auto
  obtain y where "f x = Inr y" "bad y \<longrightarrow> P x" using Cons.prems [of x] by auto
  then show ?case using ys by auto
qed simp

lemma share_mono:
  assumes "map_res f xs = Inr ys" "length (filter bad ys) \<le> length (filter P xs)"
  shows "defect_share bad ys \<le> defect_share P xs"
  using assms map_res_length [OF assms(1)] by (simp add: defect_share_def divide_right_mono)

lemma stamping_runs_defects:
  assumes "\<forall>z\<in>set noise. - 1 \<le> z"
  obtains rs where "stamping_runs noise = Inr rs" "defect_share s3_is_defective rs \<le> defect_share (\<lambda>z. 1 / 8 < z) noise"
proof -
  let ?f = "\<lambda>z. simulate_stage1_stamping_safe (F_NOM_S3 * (1 + z)) 0 0.05 False K_TIME_ACCELERATED"
  have "\<exists>r. ?f z = Inr r \<and> (s3_is_defective r \<longrightarrow> 1 / 8 < z)" if "z \<in> set noise" for z
  proof -
    have "- 1 \<le> z" using assms that by blast
    then have F: "0 \<le> F_NOM_S3 * (1 + z)" by (simp add: F_NOM_S3_def)
    have "\<not> 1 / 8 < z \<Longrightarrow> F_NOM_S3 * (1 + z) \<le> 135" by (simp add: F_NOM_S3_def)
    then show ?thesis
      using stamping_force_window [OF F, of K_TIME_ACCELERATED] F by (auto simp: simulate_stage1_stamping_safe_def)
  qed
  then obtain rs where "map_res ?f noise = Inr rs" "length (filter s3_is_defective rs) \<le> length (filter (\<lambda>z. 1 / 8 < z) noise)"
    using map_res_count [of noise ?f s3_is_defective "\<lambda>z. 1 / 8 < z"] by blast
  then show ?thesis using that share_mono unfolding stamping_runs_def by blast
qed

lemma clamping_runs_defects:
  assumes "\<forall>z\<in>set noise. bolt_noise z"
  obtains rs where "clamping_runs noise = Inr rs" "defect_share s4_is_defective rs \<le> defect_share (\<lambda>z. \<not> calm z) noise"
proof -
  let ?f = "\<lambda>(zt, zf). simulate_stage2_clamping_safe (map (\<lambda>z. 46 * (1 + z)) zt) (map (\<lambda>z. 0.12 * (1 + z)) zf) True K_TIME_ACCELERATED"
  have "\<exists>r. ?f z = Inr r \<and> (s4_is_defective r \<longrightarrow> \<not> calm z)" if "z \<in> set noise" for z
  proof -
    obtain zt zf where z: "z = (zt, zf)" by fastforce
    have b: "length zt = 4" "length zf = 8" "\<forall>d\<in>set zt. - 1 \<le> d" using assms that by (auto simp: bolt_noise_def z list_all_iff)
    show ?thesis
    proof (cases "calm z")
      case True
      then show ?thesis using clamping_calm [OF b(1,2), of K_TIME_ACCELERATED] unfolding z prod.case by blast
    next
      case False
      have "\<exists>r. simulate_stage2_clamping_safe (map (\<lambda>z. 46 * (1 + z)) zt) (map (\<lambda>z. 0.12 * (1 + z)) zf) True K_TIME_ACCELERATED = Inr r"
        using station4_outcomes [of "map (\<lambda>z. 46 * (1 + z)) zt" "map (\<lambda>z. 0.12 * (1 + z)) zf" True K_TIME_ACCELERATED] b
        by (auto simp: image_iff)
      then show ?thesis using False unfolding z prod.case by blast
    qed
  qed
  then obtain rs where "map_res ?f noise = Inr rs" "length (filter s4_is_defective rs) \<le> length (filter (\<lambda>z. \<not> calm z) noise)"
    using map_res_count [of noise ?f s4_is_defective "\<lambda>z. \<not> calm z"] by blast
  then show ?thesis using that share_mono unfolding clamping_runs_def Let_def by blast
qed

text \<open>
  The Monte Carlo run reports at most as many defects as its noise has large deviations: of the stamping force by more than an
  eighth upwards (two and a half standard deviations), and of a torque or a friction coefficient of the clamping by more than
  two percent (four standard deviations). The rate of 0.80% the script names for the clamping is out of reach of its noise.
\<close>

theorem monte_carlo_defects_bounded:
  assumes "\<forall>z\<in>set noise_s3. - 1 \<le> z" and "\<forall>z\<in>set noise_s4. bolt_noise z"
  shows "run_calibration noise_s3 noise_s4 = AssertionError ''Station 1 nominal cure out of target range!''
    \<or> (\<exists>rep. run_calibration noise_s3 noise_s4 = Report rep \<and> cr_ecsa rep = 1
        \<and> cr_rate_s3 rep \<le> defect_share (\<lambda>z. 1 / 8 < z) noise_s3
        \<and> cr_rate_s4 rep \<le> defect_share (\<lambda>z. \<not> calm z) noise_s4)"
proof -
  obtain r1 where r1: "simulate_stage1_mea_prep_safe 433.15 300 K_TIME_ACCELERATED = Inr r1"
    using station1_outcomes [of "433.15" 300 K_TIME_ACCELERATED] by auto
  obtain r2 where r2: "simulate_stage2_catalyst_deposition_safe 0.15 0.05 K_TIME_ACCELERATED = Inr r2" "s2_ecsa_ratio r2 = 1"
    using station2_outcomes [of "0.15" "0.05" K_TIME_ACCELERATED] by (auto simp: V_COAT_NOMINAL_M_S_def MU_SLURRY_NOMINAL_PA_S_def)
  obtain rs3 where rs3: "stamping_runs noise_s3 = Inr rs3" "defect_share s3_is_defective rs3 \<le> defect_share (\<lambda>z. 1 / 8 < z) noise_s3"
    by (rule stamping_runs_defects [OF assms(1)])
  obtain rs4 where rs4: "clamping_runs noise_s4 = Inr rs4" "defect_share s4_is_defective rs4 \<le> defect_share (\<lambda>z. \<not> calm z) noise_s4"
    by (rule clamping_runs_defects [OF assms(2)])
  have m: "monte_carlo a e noise_s3 noise_s4 = Inr \<lparr>cr_alpha = a, cr_ecsa = e, cr_rate_s3 = defect_share s3_is_defective rs3,
       cr_mean_d_ncl = mean (map s3_damage_index rs3), cr_rate_s4 = defect_share s4_is_defective rs4,
       cr_mean_p_clamp = mean (map s4_p_clamp_mpa rs4)\<rparr>" for a e
    by (simp add: monte_carlo_def rs3 rs4)
  show ?thesis
    unfolding run_calibration_def r1 r2(1) sum.case m using rs3(2) rs4(2) r2(2) by auto
qed

section \<open>Whether the protocol files agree\<close>

text \<open>
  \<open>scripts/check_proto_sync.py\<close> over a function that reads the files below the root, by their paths. \<open>splitlines\<close> and \<open>strip\<close>
  are Python's, over characters below 256.
\<close>

definition is_line_break :: "char \<Rightarrow> bool" where
  "is_line_break c \<longleftrightarrow> of_char c \<in> {10::nat, 11, 12, 13, 28, 29, 30, 133}"

definition past_break :: "string \<Rightarrow> string" where
  "past_break s = (case s of [] \<Rightarrow> []
     | c # r \<Rightarrow> if of_char c = (13::nat) \<and> r \<noteq> [] \<and> of_char (hd r) = (10::nat) then tl r else r)"

lemma past_break_shorter: "s \<noteq> [] \<Longrightarrow> length (past_break s) < length s"
  by (cases s) (auto simp: past_break_def less_Suc_eq_le)

function splitlines :: "string \<Rightarrow> string list" where
  "splitlines s =
     (if s = [] then []
      else takeWhile (\<lambda>c. \<not> is_line_break c) s # splitlines (past_break (dropWhile (\<lambda>c. \<not> is_line_break c) s)))"
  by pat_completeness auto
termination
proof (relation "measure length")
  fix s :: string assume s: "s \<noteq> []"
  let ?r = "dropWhile (\<lambda>c. \<not> is_line_break c) s"
  have "length (past_break ?r) < length s"
  proof (cases "?r = []")
    case True
    then show ?thesis using s unfolding True by (simp add: past_break_def)
  next
    case False
    then show ?thesis using past_break_shorter [OF False] length_dropWhile_le [of "\<lambda>c. \<not> is_line_break c" s] by linarith
  qed
  then show "(past_break ?r, s) \<in> measure length" by simp
qed simp

declare splitlines.simps [simp del]

definition strip :: "string \<Rightarrow> string" where
  "strip s = rev (dropWhile is_space (rev (dropWhile is_space s)))"

definition comment_pattern :: "item list" where
  "comment_pattern = [Lit ''//'', Many (\<lambda>c. of_char c \<noteq> (10::nat))]"

definition normalize_proto :: "string \<Rightarrow> string list" where
  "normalize_proto content =
     filter (\<lambda>line. line \<noteq> []) (map (\<lambda>line. strip (rx_sub comment_pattern (\<lambda>_. []) line)) (splitlines content))"

definition proto_targets :: "string list" where
  "proto_targets = [''physical_engine/protos/sim_bridge.proto'', ''visualization/sim_bridge.proto'']"

definition proto_mismatch :: "(string \<rightharpoonup> string) \<Rightarrow> string list \<Rightarrow> string \<Rightarrow> bool" where
  "proto_mismatch read_text canonical_norm target = (case read_text target of
     None \<Rightarrow> True | Some content \<Rightarrow> canonical_norm \<noteq> normalize_proto content)"

definition check_proto_sync :: "(string \<rightharpoonup> string) \<Rightarrow> int" where
  "check_proto_sync read_text = (case read_text ''src/main/proto/sim_bridge.proto'' of
     None \<Rightarrow> 1
   | Some content \<Rightarrow>
       let mismatches = length (filter (proto_mismatch read_text (normalize_proto content)) proto_targets)
       in if mismatches > 0 then 1 else 0)"

section \<open>What agreement means\<close>

text \<open>The check passes when all three files exist and normalise to the same lines.\<close>

lemma sync_exit_code: "check_proto_sync read_text = 0 \<longleftrightarrow> (\<exists>norm. \<forall>p\<in>set (''src/main/proto/sim_bridge.proto'' # proto_targets).
    \<exists>content. read_text p = Some content \<and> normalize_proto content = norm)"
  by (auto simp: check_proto_sync_def proto_targets_def proto_mismatch_def split: option.splits)

text \<open>A line as the normalisation leaves it.\<close>

definition has_comment :: "string \<Rightarrow> bool" where
  "has_comment s \<longleftrightarrow> (\<exists>u v. s = u @ ''//'' @ v)"

definition clean_line :: "string \<Rightarrow> bool" where
  "clean_line s \<longleftrightarrow> s \<noteq> [] \<and> \<not> is_space (hd s) \<and> \<not> is_space (last s) \<and> list_all (\<lambda>c. \<not> is_line_break c) s \<and> \<not> has_comment s"

lemma has_comment_Nil: "\<not> has_comment []"
  by (simp add: has_comment_def)

lemma has_comment_Cons: "has_comment (c # s) \<longleftrightarrow> (\<exists>v. c # s = ''//'' @ v) \<or> has_comment s"
  by (auto simp: has_comment_def Cons_eq_append_conv)

lemma comment_matches: "matches_at comment_pattern s \<longleftrightarrow> (\<exists>v. s = ''//'' @ v)"
proof
  assume "\<exists>v. s = ''//'' @ v"
  then obtain v where "s = concat [''//'', []] @ v" by auto
  moreover have "list_all2 item_ok comment_pattern [''//'', []]" by (simp add: comment_pattern_def)
  ultimately show "matches_at comment_pattern s" unfolding matches_at_def by blast
qed (auto simp: matches_at_def comment_pattern_def list_all2_Cons1)

lemma no_comment_cut: "\<not> has_comment s \<Longrightarrow> rx_sub comment_pattern rep s = s"
proof -
  assume "\<not> has_comment s"
  then have "rx_search comment_pattern s = None"
    unfolding rx_search_None comment_matches has_comment_def by blast
  then show ?thesis by (simp add: rx_sub_def rx_cut.simps [of comment_pattern s])
qed

lemma uncommented:
  assumes "list_all (\<lambda>c. \<not> is_line_break c) s"
  obtains r where "s = rx_sub comment_pattern (\<lambda>_. []) s @ r" "\<not> has_comment (rx_sub comment_pattern (\<lambda>_. []) s)"
proof (cases "rx_search comment_pattern s")
  case None
  then have "\<not> has_comment s" unfolding rx_search_None comment_matches has_comment_def by blast
  then show ?thesis using that [of "[]"] no_comment_cut by simp
next
  case (Some m)
  obtain pre ps r where "m = (pre, ps, r)" by (rule prod_cases3)
  with Some have m: "rx_search comment_pattern s = Some (pre, ps, r)" by simp
  note f = rx_search_Some [OF m]
  obtain v where v: "concat ps @ r = ''//'' @ v"
    using f by (auto simp: comment_pattern_def list_all2_Cons1)
  have "set v \<subseteq> set s" using f v by (metis set_append Un_subset_iff subset_refl)
  then have "\<forall>c\<in>set v. of_char c \<noteq> (10::nat)" using assms by (auto simp: list_all_iff is_line_break_def)
  then have t: "takeWhile (\<lambda>c. of_char c \<noteq> (10::nat)) v = v" by (simp only: takeWhile_eq_all_conv)
  have "hd (rx_match comment_pattern (''//'' @ v)) = ([''//'', v], [])"
    by (simp add: comment_pattern_def t)
  with f v have pr: "ps = [''//'', v]" "r = []" by auto
  then have s: "s = pre @ ''//'' @ v" using f by simp
  then have "rx_cut comment_pattern s = ([(pre, ps)], [])"
  proof -
    have "rx_search comment_pattern [] = None" unfolding rx_search_None comment_matches by simp
    then have "rx_cut comment_pattern [] = ([], [])" by (simp add: rx_cut.simps [of comment_pattern "[]"])
    moreover have "length r < length s" by (simp add: s pr(2))
    ultimately show ?thesis using rx_cut_next [OF m] by (simp add: pr(2))
  qed
  then have e: "rx_sub comment_pattern (\<lambda>_. []) s = pre" by (simp add: rx_sub_def)
  have "\<not> has_comment pre"
  proof
    assume "has_comment pre"
    then obtain u w where "pre = u @ ''//'' @ w" by (auto simp: has_comment_def)
    moreover have "matches_at comment_pattern ((''//'' @ w) @ concat ps @ r)" by (simp add: comment_matches)
    ultimately show False using f by blast
  qed
  then have "\<not> has_comment (rx_sub comment_pattern (\<lambda>_. []) s)" unfolding e .
  moreover have "s = rx_sub comment_pattern (\<lambda>_. []) s @ ''//'' @ v" unfolding e by (rule s)
  ultimately show ?thesis using that by blast
qed

lemma strip_infix: obtains a b where "s = a @ strip s @ b"
proof -
  let ?t = "dropWhile is_space s"
  have "s = takeWhile is_space s @ ?t" by simp
  moreover have "?t = strip s @ rev (takeWhile is_space (rev ?t))"
    by (metis strip_def rev_append rev_rev_ident takeWhile_dropWhile_id)
  ultimately show ?thesis using that by metis
qed

lemma strip_ends: "strip s \<noteq> [] \<Longrightarrow> \<not> is_space (hd (strip s)) \<and> \<not> is_space (last (strip s))"
proof -
  let ?t = "dropWhile is_space s" and ?u = "dropWhile is_space (rev (dropWhile is_space s))"
  assume n: "strip s \<noteq> []"
  then have u: "?u \<noteq> []" by (simp add: strip_def)
  then have "last (strip s) = hd ?u" by (simp add: strip_def last_rev)
  then have l: "\<not> is_space (last (strip s))" using hd_dropWhile [OF u] by simp
  have t: "?t = strip s @ rev (takeWhile is_space (rev ?t))"
    by (metis strip_def rev_append rev_rev_ident takeWhile_dropWhile_id)
  then have "?t \<noteq> []" using n by (metis append_is_Nil_conv)
  then have "\<not> is_space (hd ?t)" by (rule hd_dropWhile)
  then show ?thesis using l t n by (metis hd_append2)
qed

lemma strip_clean: "s \<noteq> [] \<Longrightarrow> \<not> is_space (hd s) \<Longrightarrow> \<not> is_space (last s) \<Longrightarrow> strip s = s"
proof -
  assume s: "s \<noteq> []" "\<not> is_space (hd s)" "\<not> is_space (last s)"
  then have "dropWhile is_space s = s" by (cases s) auto
  moreover have "dropWhile is_space (rev s) = rev s" using s(1,3) by (cases s rule: rev_cases) auto
  ultimately show ?thesis by (simp add: strip_def)
qed

lemma splitlines_break_free: "line \<in> set (splitlines s) \<Longrightarrow> list_all (\<lambda>c. \<not> is_line_break c) line"
proof (induction s rule: splitlines.induct)
  case (1 s)
  show ?case
  proof (cases "s = []")
    case True
    then show ?thesis using "1.prems" by (simp add: splitlines.simps)
  next
    case False
    then have "splitlines s = takeWhile (\<lambda>c. \<not> is_line_break c) s # splitlines (past_break (dropWhile (\<lambda>c. \<not> is_line_break c) s))"
      by (subst splitlines.simps) simp
    with "1.prems" have "line = takeWhile (\<lambda>c. \<not> is_line_break c) s
        \<or> line \<in> set (splitlines (past_break (dropWhile (\<lambda>c. \<not> is_line_break c) s)))"
      by (simp only: list.set insert_iff)
    then show ?thesis
    proof
      assume "line = takeWhile (\<lambda>c. \<not> is_line_break c) s"
      then show ?thesis by (auto simp: list_all_iff dest: set_takeWhileD)
    qed (rule "1.IH" [OF False])
  qed
qed

lemma normalize_clean: "line \<in> set (normalize_proto content) \<Longrightarrow> clean_line line"
proof -
  assume "line \<in> set (normalize_proto content)"
  then obtain raw where raw: "raw \<in> set (splitlines content)" "line = strip (rx_sub comment_pattern (\<lambda>_. []) raw)" "line \<noteq> []"
    by (auto simp: normalize_proto_def)
  note free = splitlines_break_free [OF raw(1)]
  obtain r where r: "raw = rx_sub comment_pattern (\<lambda>_. []) raw @ r" "\<not> has_comment (rx_sub comment_pattern (\<lambda>_. []) raw)"
    by (rule uncommented [OF free])
  obtain a b where ab: "rx_sub comment_pattern (\<lambda>_. []) raw = a @ line @ b"
    using strip_infix raw(2) by metis
  have "\<not> has_comment line"
  proof
    assume "has_comment line"
    then obtain u v where "line = u @ ''//'' @ v" by (auto simp: has_comment_def)
    then have "rx_sub comment_pattern (\<lambda>_. []) raw = (a @ u) @ ''//'' @ (v @ b)" by (simp add: ab)
    then show False using r(2) unfolding has_comment_def by blast
  qed
  moreover have "list_all (\<lambda>c. \<not> is_line_break c) line"
    using free by (subst (asm) r(1)) (simp add: ab)
  ultimately show ?thesis using strip_ends raw(2,3) by (simp add: clean_line_def)
qed

lemma splitlines_join:
  assumes "list_all clean_line lines"
  shows "splitlines (join [CHR 0x0A] lines) = lines"
  using assms
proof (induction "[CHR 0x0A]" lines rule: join.induct)
  case 1
  then show ?case by (simp add: splitlines.simps)
next
  case (2 x)
  have t: "takeWhile (\<lambda>c. \<not> is_line_break c) x = x" "dropWhile (\<lambda>c. \<not> is_line_break c) x = []"
    using 2 by (auto simp: clean_line_def list_all_iff)
  show ?case using 2 by (simp add: splitlines.simps [of x] splitlines.simps [of "[]"] t past_break_def clean_line_def)
next
  case (3 x y zs)
  let ?r = "join [CHR 0x0A] (y # zs)"
  have x: "list_all (\<lambda>c. \<not> is_line_break c) x" "x \<noteq> []" using 3 by (simp_all add: clean_line_def)
  have b: "is_line_break (CHR 0x0A)" by (simp add: is_line_break_def)
  have t: "takeWhile (\<lambda>c. \<not> is_line_break c) (x @ [CHR 0x0A] @ ?r) = x"
      "dropWhile (\<lambda>c. \<not> is_line_break c) (x @ [CHR 0x0A] @ ?r) = CHR 0x0A # ?r"
    using x(1) b by (simp_all add: takeWhile_append2 dropWhile_append2 list_all_iff)
  have "splitlines ?r = y # zs" using 3 by simp
  then show ?case using x(2) by (simp add: splitlines.simps [of "x @ CHR 0x0A # ?r"] t [simplified] past_break_def)
qed

text \<open>The normalised lines, written as a file, normalise to themselves: nothing is left to strip.\<close>

theorem normalize_idempotent: "normalize_proto (join [CHR 0x0A] (normalize_proto content)) = normalize_proto content"
proof -
  let ?ls = "normalize_proto content"
  have c: "\<forall>line\<in>set ?ls. clean_line line" using normalize_clean by blast
  have "strip (rx_sub comment_pattern (\<lambda>_. []) line) = line" if "clean_line line" for line
    using that by (simp add: clean_line_def no_comment_cut strip_clean)
  then have "map (\<lambda>line. strip (rx_sub comment_pattern (\<lambda>_. []) line)) ?ls = ?ls"
    using c by (intro map_idI) blast
  moreover have "filter (\<lambda>line. line \<noteq> []) ?ls = ?ls" using c by (intro filter_True) (auto simp: clean_line_def)
  moreover have "splitlines (join [CHR 0x0A] ?ls) = ?ls" by (rule splitlines_join) (use c in \<open>simp add: list_all_iff\<close>)
  ultimately show ?thesis by (simp add: normalize_proto_def [of "join [CHR 0x0A] ?ls"])
qed

text \<open>
  Comments in the other style count as definitions, and two slashes inside a string hide what follows them.
\<close>

lemma block_comments_count:
  "normalize_proto ''message A {} /* old */'' \<noteq> normalize_proto ''message A {}''"
  by code_simp

lemma quoted_slashes_hide_differences:
  "normalize_proto (''option url = '' @ [quote] @ ''http://a.org'' @ [quote, CHR 0x3B]) =
   normalize_proto (''option url = '' @ [quote] @ ''http://b.org'' @ [quote, CHR 0x3B])"
  by code_simp

end
