(* ===== verification/Notebook.thy ===== *)
theory Notebook
  imports Analysis
begin

text \<open>
  \<open>analysis/prosa_vs_adacor.ipynb\<close>: the first analysis of the experiment, on the throughput only. Its tests are those of
  the scientific library, as in \<open>analyze_results.py\<close>; a sample here keeps its missing values, which make a result nan, and the
  normality test refuses samples of fewer than three values. The plot is not modelled.
\<close>

section \<open>Descriptive statistics\<close>

definition median :: "real list \<Rightarrow> real" where
  "median xs = (let ys = sort xs; n = length ys in
     if odd n then ys ! (n div 2) else (ys ! (n div 2 - 1) + ys ! (n div 2)) / 2)"

definition some_if :: "bool \<Rightarrow> 'a \<Rightarrow> 'a option" where
  "some_if b x = (if b then Some x else None)"

record summary =
  su_throughput :: "real option \<times> real option \<times> real option"
  su_tardiness_mean :: "real option \<times> real option"
  su_wip_mean :: "real option \<times> real option"

definition mean_std :: "real list \<Rightarrow> real option \<times> real option" where
  "mean_std xs = (some_if (xs \<noteq> []) (mean xs), map_option sqrt (var1 xs))"

text \<open>The row of a schema in the grouped table; missing values are left out of the aggregates.\<close>

definition describe :: "result_row list \<Rightarrow> string \<Rightarrow> summary" where
  "describe df schema =
     (let vals = (\<lambda>metric. metric_values metric schema df); tp = vals ''throughput'' in
      \<lparr>su_throughput = (fst (mean_std tp), snd (mean_std tp), some_if (tp \<noteq> []) (median tp)),
       su_tardiness_mean = mean_std (vals ''tardiness_mean''), su_wip_mean = mean_std (vals ''wip_mean'')\<rparr>)"

section \<open>The tests\<close>

definition throughput_of :: "result_row list \<Rightarrow> string \<Rightarrow> real option list" where
  "throughput_of df schema = map (\<lambda>r. rr_metric r ''throughput'') (filter (\<lambda>r. rr_schema r = schema) df)"

definition complete_sample :: "real option list \<Rightarrow> real list option" where
  "complete_sample xs = some_if (None \<notin> set xs) (map the xs)"

definition shapiro :: "stat_lib \<Rightarrow> real option list \<Rightarrow> real option res" where
  "shapiro lib xs = (if length xs < 3 then Inl ValueError else Inr (Option.bind (complete_sample xs) (shapiro_p lib)))"

definition two_sample :: "(real list \<Rightarrow> real list \<Rightarrow> real option \<times> real option) \<Rightarrow> real option list \<Rightarrow> real option list
    \<Rightarrow> real option \<times> real option" where
  "two_sample test xs ys = (case (complete_sample xs, complete_sample ys) of
     (Some as, Some bs) \<Rightarrow> test as bs | _ \<Rightarrow> (None, None))"

record notebook_result =
  nb_normal :: bool
  nb_stat :: "real option"
  nb_p_val :: "real option"
  nb_significant :: bool

definition notebook :: "stat_lib \<Rightarrow> result_row list \<Rightarrow> notebook_result res" where
  "notebook lib df =
     (let prosa_throughput = throughput_of df ''PROSA''; adacor_throughput = throughput_of df ''ADACOR'' in
      res_bind (shapiro lib prosa_throughput) (\<lambda>p_prosa. res_bind (shapiro lib adacor_throughput) (\<lambda>p_adacor.
      let normal = exceeds p_prosa 0.05 \<and> exceeds p_adacor 0.05;
          (stat, p_val) = (if normal then two_sample (ttest_ind lib) prosa_throughput adacor_throughput
            else two_sample (\<lambda>xs ys. map_prod Some Some (mannwhitneyu lib xs ys)) prosa_throughput adacor_throughput)
      in Inr \<lparr>nb_normal = normal, nb_stat = stat, nb_p_val = p_val,
           nb_significant = (case p_val of None \<Rightarrow> False | Some p \<Rightarrow> p < 0.05)\<rparr>)))"

section \<open>Agreement with the later analysis\<close>

definition throughput_complete :: "result_row list \<Rightarrow> bool" where
  "throughput_complete df \<longleftrightarrow> list_all (\<lambda>r. rr_metric r ''throughput'' \<noteq> None) df"

lemma complete_throughput:
  assumes "throughput_complete df"
  shows "complete_sample (throughput_of df schema) = Some (metric_values ''throughput'' schema df)"
    and "length (metric_values ''throughput'' schema df) = length (throughput_of df schema)"
  using assms
  by (induction df) (auto simp: complete_sample_def throughput_of_def metric_values_def some_if_def throughput_complete_def
      List.map_filter_def image_iff split: if_splits)

text \<open>
  With a throughput for every run the notebook fails exactly when an arm has fewer than three runs. Otherwise it makes the same
  choice of test as \<open>analyze_results.py\<close>, with the same statistic and p-value, and its means are those reported there.
\<close>

theorem notebook_agrees:
  fixes lib :: stat_lib
  assumes "throughput_complete df"
  defines "prosa \<equiv> metric_values ''throughput'' ''PROSA'' df" and "adacor \<equiv> metric_values ''throughput'' ''ADACOR'' df"
  defines "r \<equiv> analyze_metric lib prosa adacor ''throughput''"
  shows "notebook lib df = (if length prosa < 3 \<or> length adacor < 3 then Inl ValueError
      else Inr \<lparr>nb_normal = (mr_test r = Welch_t), nb_stat = mr_test_statistic r, nb_p_val = mr_p_value r,
        nb_significant = (case mr_p_value r of None \<Rightarrow> False | Some p \<Rightarrow> p < 0.05)\<rparr>)"
    and "prosa \<noteq> [] \<Longrightarrow> fst (su_throughput (describe df ''PROSA'')) = Some (mr_prosa_mean r)"
    and "adacor \<noteq> [] \<Longrightarrow> fst (su_throughput (describe df ''ADACOR'')) = Some (mr_adacor_mean r)"
proof -
  have c: "complete_sample (throughput_of df ''PROSA'') = Some prosa" "complete_sample (throughput_of df ''ADACOR'') = Some adacor"
      "length (throughput_of df ''PROSA'') = length prosa" "length (throughput_of df ''ADACOR'') = length adacor"
    using complete_throughput [OF assms(1)] by (simp_all add: prosa_def adacor_def)
  show "notebook lib df = (if length prosa < 3 \<or> length adacor < 3 then Inl ValueError
      else Inr \<lparr>nb_normal = (mr_test r = Welch_t), nb_stat = mr_test_statistic r, nb_p_val = mr_p_value r,
        nb_significant = (case mr_p_value r of None \<Rightarrow> False | Some p \<Rightarrow> p < 0.05)\<rparr>)"
    by (auto simp: notebook_def shapiro_def two_sample_def c r_def analyze_metric_def Let_def map_prod_def split: prod.splits)
  show "prosa \<noteq> [] \<Longrightarrow> fst (su_throughput (describe df ''PROSA'')) = Some (mr_prosa_mean r)"
    "adacor \<noteq> [] \<Longrightarrow> fst (su_throughput (describe df ''ADACOR'')) = Some (mr_adacor_mean r)"
    by (simp_all add: describe_def mean_std_def some_if_def r_def analyze_metric_def Let_def prosa_def adacor_def)
qed

text \<open>The median is a value between the bounds of the sample.\<close>

lemma median_bounds:
  assumes "xs \<noteq> []" "\<forall>x\<in>set xs. lo \<le> x \<and> x \<le> hi"
  shows "lo \<le> median xs \<and> median xs \<le> hi"
proof -
  have s: "lo \<le> sort xs ! i \<and> sort xs ! i \<le> hi" if "i < length xs" for i
    using assms(2) that by (metis length_sort nth_mem set_sort)
  have "length xs div 2 < length xs" "length xs div 2 - 1 < length xs" using assms(1) by (cases xs; simp; linarith)+
  then show ?thesis using s [of "length xs div 2"] s [of "length xs div 2 - 1"] by (simp add: median_def Let_def)
qed

end
