(* ===== verification/Spec2Isabelle.thy ===== *)
theory Spec2Isabelle
  imports Iteration Interp Tanks StorageMPC LutManager H2Storage CellPhysics Stations Pemfc StackThermal
    Server Bench Serving Launcher
    Soec Thermo HeatExchange Boiler Electrolyzer Deoxo
    Flash Compression Cooler
    Cython CyLookup CyTanks CyThermo CyHeat CyBoiler CyCompression CyReactor Shim Experiment Analysis Calibration RunIsolation
    JcmAssembly LutReport ServerEntry WarmupReturns Scripts Notebook
begin

text \<open>
  A verification development for the Python physical engine of Matrix_Factory, the daemon that
  simulates the physics of a fuel-cell factory for its agents (\<open>physical_engine/\<close> under src), and its Cython port.

  \<^bold>\<open>The program.\<close> \<open>optimization/_numba_ops_core_python.py\<close> holds the numeric kernels (table lookups,
  tank banks, storage control, thermodynamic solvers); \<open>optimization/_numba_ops_core.pyx\<close> is their compiled
  port, loaded in their place where it is built. \<open>optimization/lut_manager.py\<close> tabulates fluid
  properties from an optional property library, caches them on disk and answers lookups through the
  kernels. \<open>factory_simulation/\<close> holds the simulated devices: the hydrogen tank and compressor, the
  four manufacturing stations, membrane, microstructure and air supply, the PEM fuel cell model with
  its solver and sweeps, and the stack thermal models. \<open>sim_bridge_server.py\<close> composes these behind
  remote calls and \<open>daemon_launcher.py\<close> spreads daemons over processor cores.

  \<^bold>\<open>Conventions.\<close> Floating-point numbers are exact reals: rounding and overflow are not modelled,
  while divisions by zero, logarithms and powers outside their domain, and not-a-number table cells
  are error values. A Python exception is \<^verbatim>\<open>Inl\<close> of a \<^verbatim>\<open>py_error\<close>; list indexing follows Python,
  with negative indices and an IndexError out of range. A method is a function from the object's
  record to a result and the new record, and an exception keeps the changes made before it. Loops are
  structural recursion over a counter or the list, with early return as a value of \<^verbatim>\<open>ctl\<close>, so every
  function is total and its loop bounds are the source's. Failure flags are 32-bit words. Logging,
  compilation hints and locks around single-threaded use are left out. In the compiled port array
  accesses are unchecked: one outside the array is the error \<^verbatim>\<open>UndefinedBehaviour\<close>.

  \<^bold>\<open>Theories.\<close>
  \<^item> \<^verbatim>\<open>Prelude\<close>: results, partial arithmetic, methods with state and errors, Python lists, loops with
    their invariant rules, clamping and interpolation arithmetic.
  \<^item> \<^verbatim>\<open>Interp\<close>: the bilinear kernels, mixture sums and cubic spline. The two ways of looking a value
    up agree in the grid, stay within the table's values and return its entries at the nodes.
  \<^item> \<^verbatim>\<open>Tanks\<close>: the tank bank kernels. A locale states what allocating mass to a bank promises, and both
    distribution kernels are its instances: mass is conserved, no tank is overfilled, and gas is
    refused only when every accepting tank is full.
  \<^item> \<^verbatim>\<open>StorageMPC\<close>: the storage controller's forecast and its factor.
  \<^item> \<^verbatim>\<open>LutManager\<close>: configuration, table generation, disk caches, initialisation, lookups with their
    fallback, pressure from density by bisection (30 halvings in the calls that matter, which bounds
    the final bracket), saturation memo, mixture lookups. The property library is a parameter
    (\<^verbatim>\<open>props_si option\<close>, absent when it is not installed); nothing is assumed of it.
  \<^item> \<^verbatim>\<open>H2Storage\<close>: the tank object and the compressor. The tank is another instance of the locale.
  \<^item> \<^verbatim>\<open>CellPhysics\<close>: membrane hydration and conductivity, contact resistance, air supply.
  \<^item> \<^verbatim>\<open>Stations\<close>: the four manufacturing stations with input validation and defect verdicts.
  \<^item> \<^verbatim>\<open>Pemfc\<close>: the fuel cell. The curve is strictly decreasing; the solver returns in its 50
    iterations and is right when it reports success; the sweeps' flags are exact; the races of the
    parallel loop, a step relation on the shared cells, are harmless.
  \<^item> \<^verbatim>\<open>StackThermal\<close>: the two-lump model and the chain of cells: energy balances, a maximum principle
    for admissible steps, and a proof that the step-size guard is too weak.
  \<^item> \<^verbatim>\<open>Server\<close>: the SimBridge servicer over the components, its state vector, ticks, batch tests and the
    station dispatch. An idle server regulates its stack; stations answer only their own requests.
  \<^item> \<^verbatim>\<open>Bench\<close>: what a batch test answers, when it succeeds, and that it ignores the requested temperature.
  \<^item> \<^verbatim>\<open>Serving\<close>: tests and ticks in flight together, as a step relation on the shared bridge whose steps
    are the critical sections and the unlocked writes. Sequential calls are runs of it, finished tests
    leave no current behind, and publishing a test's temperatures loses the ticks it overlapped.
  \<^item> \<^verbatim>\<open>Launcher\<close>: the deal of processor cores and the launcher's supervision loop as a step relation with
    dying daemons, signals and failing starts. The cores are partitioned, the process table keeps its
    invariant, a pass revives every daemon, and a signal leads to a halt in a bounded number of steps.
  \<^item> \<^verbatim>\<open>ServerEntry\<close>: the entry point of the server as the list of what it asks of the transport; in secure
    mode no port is opened in the clear.
  \<^item> \<^verbatim>\<open>LutReport\<close>: the accuracy report of the tables, whose errors a bound on the variation over a cell bounds.
  \<^item> \<^verbatim>\<open>Warmup\<close>, \<^verbatim>\<open>WarmupReturns\<close>: the two warm-ups as the calls they make. Every call returns, so the kernels'
    warm-up completes on the synthetic tables and on those of a manager with six or seven fluids; with fewer it fails.

  \<^item> \<^verbatim>\<open>Soec\<close>: the dispatch of electrolyzer modules. Under any history of setpoints the modules stay in
    their allowed powers and ramps, and the limits add up to the setpoint; three ways the code misses
    this (rounding near full modules, a plant minimum, a small reduction from full load) are proved.
  \<^item> \<^verbatim>\<open>Thermo\<close>: fluid properties: mixture heat capacity as the slope of the enthalpy, composition as a
    round trip between mass and mole fractions, monotone stream enthalpy, flash balance, water.
  \<^item> \<^verbatim>\<open>HeatExchange\<close>: effectiveness, Reynolds and Nusselt numbers and the fouled coefficient.
  \<^item> \<^verbatim>\<open>Boiler\<close>: enthalpy inversion (20 Newton steps in the calls), flash on the saturation line, batches.
  \<^item> \<^verbatim>\<open>Electrolyzer\<close>: the PEM voltage, increasing in the current, and the power solver (50 Newton steps).
  \<^item> \<^verbatim>\<open>Deoxo\<close>: the catalytic reactor (10000 steps at most): the discretised energy balance of an adiabatic
    bed and the profiles of the multi-zone run.
  \<^item> \<^verbatim>\<open>Iteration\<close>: the two ways the solvers close in on a value, as locales over the step of a bounded
    loop: contraction (the Newton solvers) and bisection. Each solver is an interpretation.
  \<^item> \<^verbatim>\<open>Flash\<close>: temperature from energy or enthalpy by Newton steps, the remapping of compositions to table
    order, and the interchanger outlet, 40 halvings over the flash of its water.
  \<^item> \<^verbatim>\<open>Compression\<close>: pure gas and mixture compression over tables (8 isentropic and 8 matching steps) obey
    the first law; the pressure search (25 halvings) keeps the temperature limit of its estimate.
  \<^item> \<^verbatim>\<open>Cooler\<close>: the cyclone's trade of pressure for cut size and the heat balance of the dry cooler.
  \<^item> \<^verbatim>\<open>Cython\<close>: unchecked memory, C division and ints, the port's binary search, and \<^verbatim>\<open>compiles\<close>, the
    agreement of a compiled computation with a Python one that returns, with its rules.
  \<^item> \<^verbatim>\<open>CyLookup\<close>, \<^verbatim>\<open>CyTanks\<close>, \<^verbatim>\<open>CyThermo\<close>, \<^verbatim>\<open>CyHeat\<close>, \<^verbatim>\<open>CyBoiler\<close>, \<^verbatim>\<open>CyCompression\<close>, \<^verbatim>\<open>CyReactor\<close>: every
    kernel of the port (names with suffix \<^verbatim>\<open>_c\<close>) agrees with its Python original, but for what is proved
    to differ: the tank states are numbered another way, the electrolyzer solver has lost its current
    limit, the mixture enthalpy below zero kelvin, and array errors that become stray memory writes.
  \<^item> \<^verbatim>\<open>Shim\<close>: the import of the compiled kernels or of the Python ones, which never mixes the two.
  \<^item> \<^verbatim>\<open>Calibration\<close>: the calibration checks of microstructure and stations; all but the cure's are proved to
    pass, those of stamping for every sample whose forces rarely exceed 135 kN, since defects begin above.
  \<^item> \<^verbatim>\<open>Experiment\<close>, \<^verbatim>\<open>Analysis\<close>: the comparison of control architectures under \<open>experiments/\<close>: batches, metrics
    of a run, the restored template, and the statistics, whose effect size changes its sign with the test.
  \<^item> \<^verbatim>\<open>Notebook\<close>: the first analysis of the throughput, which agrees with the later one on three runs or more.
  \<^item> \<^verbatim>\<open>RunIsolation\<close>: the renaming that keeps the runs on one agent platform apart: replacing one name after
    another renames whole words at once, always validates, and two runs share no canonical name.
  \<^item> \<^verbatim>\<open>Regex\<close>, \<^verbatim>\<open>JcmAssembly\<close>: the patterns of the scripts, matched as Python's backtracking search does and proved
    against a declarative reading, and the combined agent file: every message of a source reaches its own run.
  \<^item> \<^verbatim>\<open>Scripts\<close>: the Monte Carlo calibration, which finds at most as many defects as its noise has large
    deviations (of a force by an eighth, of a torque or friction by two percent), and the comparison of the protocol copies.
  \<^item> \<^verbatim>\<open>Sample\<close>: mean and maximum of a sample.

  \<^bold>\<open>Not modelled.\<close> The transport of the server (sockets, the handshake, the thread pool) is outside.
  Compilation itself, generated protocol stubs, the other scripts, tests, the Java and agent layers and the
  dashboard are outside the Python engine's logic.
\<close>

end
